(* ===== verification/Prelude.thy ===== *)
theory Prelude
  imports Main "HOL-Library.Word"
begin

unbundle bit_operations_syntax

text \<open>
  Shared vocabulary of the HikRAD development: the Go machine integers, the instants of
  \<^verbatim>\<open>time.Time\<close>, the ASCII part of Go's \<^verbatim>\<open>strings\<close> and \<^verbatim>\<open>strconv\<close> packages, and the
  lemmas about them that several components use.

  Go strings are byte strings and are modelled as \<^typ>\<open>string\<close>. Where the code calls a
  Unicode-aware function (\<^verbatim>\<open>strings.TrimSpace\<close>, \<^verbatim>\<open>strings.ToLower\<close>, \<^verbatim>\<open>strings.ToUpper\<close>)
  its ASCII behaviour is modelled; the multi-byte spaces and letters are not.
  An instant is the number of nanoseconds since the Unix epoch; \<^verbatim>\<open>UTC()\<close> is then the identity.
\<close>

type_synonym u64 = "64 word"
type_synonym u32 = "32 word"
type_synonym byte = "8 word"
type_synonym bytes = "byte list"
type_synonym gotime = int
type_synonym duration = int

named_theorems go_defs \<open>definitions of the Go library functions the components unfold\<close>

section \<open>Instants\<close>

definition second :: duration where
  "second = 1000000000"

definition minute :: duration where
  "minute = 60 * second"

text \<open>Go's zero \<^verbatim>\<open>time.Time\<close> is 1 January of year 1, this many nanoseconds before the epoch.\<close>

definition zeroTime :: gotime where
  "zeroTime = -62135596800 * 1000000000"

text \<open>A \<^verbatim>\<open>timestamptz\<close> column keeps microseconds; pgx drops the remaining nanoseconds.\<close>

definition pgTime :: "gotime \<Rightarrow> gotime" where
  "pgTime t = (t div 1000) * 1000"

text \<open>\<^verbatim>\<open>int64(d.Seconds())\<close> for a duration: the float quotient, truncated towards zero.\<close>

definition wholeSeconds :: "duration \<Rightarrow> int" where
  "wholeSeconds d = (if d < 0 then - ((- d) div second) else d div second)"

text \<open>\<^verbatim>\<open>t.Sub(u)\<close> saturates at the range of an int64 duration.\<close>

definition timeSub :: "gotime \<Rightarrow> gotime \<Rightarrow> duration" where
  "timeSub t u = max (- (2 ^ 63)) (min (2 ^ 63 - 1) (t - u))"

text \<open>The range of a Go int64 and of an SQL \<^verbatim>\<open>bigint\<close>.\<close>

definition inInt64 :: "int \<Rightarrow> bool" where
  "inInt64 x \<longleftrightarrow> - (2 ^ 63) \<le> x \<and> x < 2 ^ 63"

text \<open>Two's-complement wrap-around of an int64 result.\<close>

definition wrap64 :: "int \<Rightarrow> int" where
  "wrap64 x = (x + 2 ^ 63) mod 2 ^ 64 - 2 ^ 63"

section \<open>ASCII strings\<close>

definition isSpaceChar :: "char \<Rightarrow> bool" where
  "isSpaceChar c \<longleftrightarrow> of_char c \<in> {9, 10, 11, 12, 13, 32 :: nat}"

definition trimLeft :: "string \<Rightarrow> string" where
  "trimLeft s = dropWhile isSpaceChar s"

definition trimSpace :: "string \<Rightarrow> string" where
  "trimSpace s = rev (trimLeft (rev (trimLeft s)))"

definition lowerChar :: "char \<Rightarrow> char" where
  "lowerChar c = (let n = of_char c :: nat in
     if 65 \<le> n \<and> n \<le> 90 then char_of (n + 32) else c)"

definition upperChar :: "char \<Rightarrow> char" where
  "upperChar c = (let n = of_char c :: nat in
     if 97 \<le> n \<and> n \<le> 122 then char_of (n - 32) else c)"

definition toLower :: "string \<Rightarrow> string" where
  "toLower s = map lowerChar s"

definition toUpper :: "string \<Rightarrow> string" where
  "toUpper s = map upperChar s"

section \<open>Decimal numerals\<close>

definition isDigit :: "char \<Rightarrow> bool" where
  "isDigit c \<longleftrightarrow> 48 \<le> (of_char c :: nat) \<and> (of_char c :: nat) \<le> 57"

definition digitVal :: "char \<Rightarrow> nat" where
  "digitVal c = of_char c - 48"

definition digitChar :: "nat \<Rightarrow> char" where
  "digitChar d = char_of (48 + d)"

text \<open>\<^verbatim>\<open>strconv.FormatUint(n, 10)\<close>.\<close>

fun formatUint :: "nat \<Rightarrow> string" where
  "formatUint n = (if n < 10 then [digitChar n] else formatUint (n div 10) @ [digitChar (n mod 10)])"

declare formatUint.simps [simp del]

definition digitsVal :: "string \<Rightarrow> nat" where
  "digitsVal s = foldl (\<lambda>acc c. 10 * acc + digitVal c) 0 s"

text \<open>\<^verbatim>\<open>strconv.ParseUint(s, 10, bits)\<close>: digits only, at least one, in range.\<close>

definition parseUint :: "nat \<Rightarrow> string \<Rightarrow> nat option" where
  "parseUint bits s =
     (if s = [] \<or> \<not> list_all isDigit s then None
      else if digitsVal s < 2 ^ bits then Some (digitsVal s) else None)"

text \<open>\<^verbatim>\<open>strconv.ParseInt(s, 10, 64)\<close> and \<^verbatim>\<open>strconv.Atoi\<close>: an optional sign, digits, the int64 range.\<close>

definition parseInt64 :: "string \<Rightarrow> int option" where
  "parseInt64 s =
     (let neg = (case s of c # _ \<Rightarrow> c = CHR ''-'' | [] \<Rightarrow> False);
          body = (case s of c # cs \<Rightarrow> if c = CHR ''-'' \<or> c = CHR ''+'' then cs else s | [] \<Rightarrow> []);
          v = int (digitsVal body)
      in if body = [] \<or> \<not> list_all isDigit body then None
         else if neg then (if v \<le> 2 ^ 63 then Some (- v) else None)
         else (if v < 2 ^ 63 then Some v else None))"

section \<open>Lemmas\<close>

lemma pgTime_le: "pgTime t \<le> t"
  unfolding pgTime_def by (simp add: minus_mod_eq_div_mult [symmetric])

lemma pgTime_idem [simp]: "pgTime (pgTime t) = pgTime t"
  by (simp add: pgTime_def)

lemma pgTime_mono: "s \<le> t \<Longrightarrow> pgTime s \<le> pgTime t"
  by (simp add: pgTime_def zdiv_mono1)

lemma wrap64_id: "inInt64 x \<Longrightarrow> wrap64 x = x"
  by (simp add: inInt64_def wrap64_def)

lemma wrap64_range: "inInt64 (wrap64 x)"
  using pos_mod_bound [of "2 ^ 64" "x + 2 ^ 63"] pos_mod_sign [of "2 ^ 64" "x + 2 ^ 63"]
  unfolding inInt64_def wrap64_def by simp

lemma sint_small: "unat (x :: u64) < 2 ^ 63 \<Longrightarrow> sint x = int (unat x)"
proof -
  assume "unat x < 2 ^ 63"
  then have "int (unat x) < int (2 ^ 63)" by (simp only: of_nat_less_iff)
  then have "uint x < 2 ^ 63" by simp
  then have "signed_take_bit 63 (uint x) = uint x"
    by (intro signed_take_bit_int_eq_self) (simp_all add: order_trans [OF _ uint_ge_0])
  then show ?thesis by (simp add: sint_uint)
qed

lemma isDigit_not_space: "isDigit c \<Longrightarrow> \<not> isSpaceChar c"
  by (auto simp: isDigit_def isSpaceChar_def)

lemma trimLeft_id: "s = [] \<or> \<not> isSpaceChar (hd s) \<Longrightarrow> trimLeft s = s"
  by (cases s) (auto simp: trimLeft_def)

lemma trimSpace_id:
  assumes "s = [] \<or> (\<not> isSpaceChar (hd s) \<and> \<not> isSpaceChar (last s))"
  shows "trimSpace s = s"
  using assms by (cases "s = []") (auto simp: trimSpace_def trimLeft_id hd_rev)

lemma trimSpace_id_all: "list_all (\<lambda>c. \<not> isSpaceChar c) s \<Longrightarrow> trimSpace s = s"
  by (cases "s = []") (auto intro!: trimSpace_id simp: list_all_iff)

lemma trimSpace_Nil_iff: "trimSpace s = [] \<longleftrightarrow> (\<forall>c \<in> set s. isSpaceChar c)"
proof
  assume "trimSpace s = []"
  then have all: "\<forall>c \<in> set (dropWhile isSpaceChar s). isSpaceChar c"
    by (simp add: trimSpace_def trimLeft_def)
  then have "dropWhile isSpaceChar s = []"
    using hd_dropWhile [of isSpaceChar s] hd_in_set by blast
  then show "\<forall>c \<in> set s. isSpaceChar c" by (simp add: dropWhile_eq_Nil_conv)
next
  assume "\<forall>c \<in> set s. isSpaceChar c"
  then have "trimLeft s = []" by (simp add: trimLeft_def)
  then have "trimSpace s = rev (trimLeft (rev []))" by (simp only: trimSpace_def)
  then show "trimSpace s = []" by (simp add: trimLeft_def)
qed

lemma of_char_digitChar: "d < 10 \<Longrightarrow> (of_char (digitChar d) :: nat) = 48 + d"
  by (simp add: digitChar_def)

lemma isDigit_digitChar: "d < 10 \<Longrightarrow> isDigit (digitChar d)"
  by (simp add: isDigit_def of_char_digitChar)

lemma digitVal_digitChar: "d < 10 \<Longrightarrow> digitVal (digitChar d) = d"
  by (simp add: digitVal_def of_char_digitChar)

lemma digitsVal_snoc: "digitsVal (s @ [c]) = 10 * digitsVal s + digitVal c"
  by (simp add: digitsVal_def)

lemma formatUint_nonempty [simp]: "formatUint n \<noteq> []"
  by (subst formatUint.simps) simp

lemma formatUint_digits: "list_all isDigit (formatUint n)"
proof (induction n rule: formatUint.induct)
  case (1 n)
  then show ?case
    by (subst formatUint.simps) (simp add: isDigit_digitChar)
qed

lemma digitsVal_formatUint: "digitsVal (formatUint n) = n"
proof (induction n rule: formatUint.induct)
  case (1 n)
  show ?case
  proof (cases "n < 10")
    case True
    then show ?thesis
      by (subst formatUint.simps) (simp add: digitsVal_def digitVal_digitChar)
  next
    case False
    with "1.IH" show ?thesis
      by (subst formatUint.simps) (simp add: digitsVal_snoc digitVal_digitChar)
  qed
qed

lemma formatUint_length: "n < 10 ^ Suc k \<Longrightarrow> length (formatUint n) \<le> Suc k"
proof (induction k arbitrary: n)
  case 0
  then show ?case by (subst formatUint.simps) simp
next
  case (Suc k)
  then have "n div 10 < 10 ^ Suc k" by (simp add: less_mult_imp_div_less)
  from Suc.IH [OF this] show ?case by (subst formatUint.simps) simp
qed

lemma parseUint_formatUint: "n < 2 ^ bits \<Longrightarrow> parseUint bits (formatUint n) = Some n"
  by (simp add: parseUint_def formatUint_digits digitsVal_formatUint)

lemma parseUint_bound: "parseUint bits s = Some n \<Longrightarrow> n < 2 ^ bits"
  by (auto simp: parseUint_def split: if_splits)

lemma trimSpace_formatUint [simp]: "trimSpace (formatUint n) = formatUint n"
  using formatUint_digits [of n]
  by (intro trimSpace_id_all) (auto simp: list_all_iff isDigit_not_space)

section \<open>Generated ids\<close>

text \<open>Ids are numbered by a counter: distinct and below it.\<close>

lemma formatUint_inj: "formatUint m = formatUint n \<Longrightarrow> m = n"
  by (metis digitsVal_formatUint)

definition idBelow :: "nat \<Rightarrow> string \<Rightarrow> bool" where
  "idBelow n i \<longleftrightarrow> (\<exists>k < n. i = formatUint k)"

lemma idBelow_next: "\<not> idBelow n (formatUint n)"
  by (auto simp: idBelow_def dest: formatUint_inj)

lemma idBelow_mono: "idBelow n i \<Longrightarrow> n \<le> m \<Longrightarrow> idBelow m i"
  unfolding idBelow_def using less_le_trans by blast

lemma idBelow_fresh: "\<forall>x \<in> set xs. idBelow n (f x) \<Longrightarrow> formatUint n \<notin> f ` set xs"
  using idBelow_next by (metis imageE)

lemma idBelow_this: "n < m \<Longrightarrow> idBelow m (formatUint n)"
  by (auto simp: idBelow_def)

section \<open>Runs\<close>

text \<open>An invariant that every step keeps holds after every run.\<close>

locale kept =
  fixes step :: "'s \<Rightarrow> 's \<Rightarrow> bool" and inv :: "'s \<Rightarrow> bool"
  assumes keeps: "step s s' \<Longrightarrow> inv s \<Longrightarrow> inv s'"
begin

lemma run_keeps: "step\<^sup>*\<^sup>* s s' \<Longrightarrow> inv s \<Longrightarrow> inv s'"
  by (induction rule: rtranclp_induct) (auto intro: keeps)

end

end
