(* ===== verification/AcctRecord.thy ===== *)
theory AcctRecord
  imports Prelude
begin

text \<open>
  The accounting record of \<^verbatim>\<open>backend/internal/accounting/record.go\<close>: the normalised payload, its
  validation on ingest, the canonical event time, and the reconstruction of 64-bit byte
  counters from the 32-bit octets and gigawords a NAS reports.

  \<^verbatim>\<open>json.Unmarshal\<close> and \<^verbatim>\<open>time.Parse\<close> are arguments of the definitions that call them.
\<close>

section \<open>The record\<close>

record Record =
  r_RecordType :: string
  r_NASIP :: string
  r_AcctSessionID :: string
  r_Username :: string
  r_FramedIP :: string
  r_CallingStationID :: string
  r_CalledStationID :: string
  r_NASPortType :: string
  r_NASPortID :: string
  r_ServiceType :: string
  r_SessionTime :: int
  r_BytesIn :: u64
  r_BytesOut :: u64
  r_GigawordsIn :: u64
  r_GigawordsOut :: u64
  r_EventTimeRaw :: string
  r_TerminateCause :: string
  r_ReceiptTime :: gotime
  r_EventTimeParsed :: gotime

definition RecordStart :: string where "RecordStart = ''start''"
definition RecordInterim :: string where "RecordInterim = ''interim''"
definition RecordStop :: string where "RecordStop = ''stop''"

definition zeroUUID :: string where
  "zeroUUID = ''00000000-0000-0000-0000-000000000000''"

definition coarseService :: "Record \<Rightarrow> string" where
  "coarseService r =
     (if r_ServiceType r = ''hotspot'' \<or> r_ServiceType r = ''pppoe'' then r_ServiceType r else '''')"

section \<open>Event time\<close>

definition eventTimeLayouts :: "string list" where
  "eventTimeLayouts =
     [''Jan _2 2006 15:04:05 MST'', ''Jan 2 2006 15:04:05 MST'', ''Jan _2 2006 15:04:05'',
      ''2006-01-02T15:04:05Z07:00'', ''2006-01-02 15:04:05'']"

fun tryLayouts :: "(string \<Rightarrow> string \<Rightarrow> gotime option) \<Rightarrow> string \<Rightarrow> string list \<Rightarrow> gotime option" where
  "tryLayouts timeParse raw [] = None"
| "tryLayouts timeParse raw (l # ls) =
     (case timeParse l raw of Some t \<Rightarrow> Some t | None \<Rightarrow> tryLayouts timeParse raw ls)"

definition parseEventTime ::
    "(string \<Rightarrow> string \<Rightarrow> gotime option) \<Rightarrow> string \<Rightarrow> gotime \<Rightarrow> gotime" where
  "parseEventTime timeParse raw0 fallback =
     (let raw = trimSpace raw0 in
      if raw = '''' then fallback
      else case parseInt64 raw of
        Some secs \<Rightarrow> secs * second
      | None \<Rightarrow> (case tryLayouts timeParse raw eventTimeLayouts of
            Some t \<Rightarrow> t
          | None \<Rightarrow> fallback))"

definition eventTime :: "(string \<Rightarrow> string \<Rightarrow> gotime option) \<Rightarrow> Record \<Rightarrow> gotime" where
  "eventTime timeParse r =
     (if r_EventTimeParsed r \<noteq> zeroTime then r_EventTimeParsed r
      else parseEventTime timeParse (r_EventTimeRaw r) (r_ReceiptTime r))"

section \<open>Parsing an ingest body\<close>

datatype parseError = BadJSON | UnknownRecordType string | ErrNoSession

definition parseRecord ::
    "(bytes \<Rightarrow> Record option) \<Rightarrow> (string \<Rightarrow> string \<Rightarrow> gotime option) \<Rightarrow> bytes \<Rightarrow> gotime \<Rightarrow>
     parseError + Record" where
  "parseRecord unmarshal timeParse body now =
     (case unmarshal body of
        None \<Rightarrow> Inl BadJSON
      | Some r0 \<Rightarrow>
          (let r = r0\<lparr>r_RecordType := toLower (trimSpace (r_RecordType r0))\<rparr> in
           if r_RecordType r \<noteq> RecordStart \<and> r_RecordType r \<noteq> RecordInterim
              \<and> r_RecordType r \<noteq> RecordStop then Inl (UnknownRecordType (r_RecordType r))
           else if trimSpace (r_AcctSessionID r) = '''' then Inl ErrNoSession
           else Inr (r\<lparr>r_ReceiptTime := now,
                       r_EventTimeParsed := parseEventTime timeParse (r_EventTimeRaw r) now\<rparr>)))"

section \<open>Byte counters\<close>

definition lowMask :: u64 where "lowMask = 0xFFFFFFFF"

definition totalBytes :: "u64 \<Rightarrow> u64 \<Rightarrow> u64" where
  "totalBytes octets gigawords = push_bit 32 gigawords OR (octets AND lowMask)"

text \<open>The result pair is \<open>(newTotal, delta)\<close>.\<close>

definition advance :: "u64 \<Rightarrow> u64 \<Rightarrow> u64 \<Rightarrow> u64 \<times> u64" where
  "advance lastTotal octets gigawords =
     (let cur0 = totalBytes octets gigawords;
          lastLow = lastTotal AND lowMask;
          cur = (if gigawords = 0 \<and> lastTotal > 0 \<and>
                    octets < lastLow \<and> lastLow > push_bit 31 1 \<and> octets < push_bit 31 1
                 then push_bit 32 (drop_bit 32 lastTotal + 1) OR octets
                 else cur0)
      in if cur \<ge> lastTotal then (cur, cur - lastTotal) else (cur, cur))"

section \<open>Lemmas: word arithmetic of the counters\<close>

lemma lowMask_take: "x AND lowMask = take_bit 32 (x :: u64)"
  by (simp add: lowMask_def take_bit_eq_mask mask_eq_exp_minus_1)

lemma unat_take32: "unat (take_bit 32 (x :: u64)) = unat x mod 2 ^ 32"
  by (subst unsigned_take_bit_eq) (rule take_bit_eq_mod)

lemma unat_drop32: "unat (drop_bit 32 (x :: u64)) = unat x div 2 ^ 32"
proof -
  have "unat x < 2 ^ 64" using unsigned_less [of x] by simp
  then show ?thesis
    by (subst unsigned_drop_bit_eq) (simp add: drop_bit_eq_div take_bit_eq_mod)
qed

lemma unat_push32: "unat (push_bit 32 (g :: u64)) = (unat g mod 2 ^ 32) * 2 ^ 32"
proof -
  have "unat (push_bit 32 g) = (unat g * 2 ^ 32) mod (2 ^ 32 * 2 ^ 32)"
    by (simp add: push_bit_eq_mult unat_word_ariths)
  then show ?thesis by (simp only: mult_mod_left)
qed

lemma unat_or_disjoint: "(a :: u64) AND b = 0 \<Longrightarrow> unat (a OR b) = unat a + unat b"
  by (metis disjunctive_add_eq_or unsigned_0 unsigned_and_eq unsigned_or_eq)

lemma push32_and_low: "unat x < 2 ^ 32 \<Longrightarrow> push_bit 32 (g :: u64) AND x = 0"
proof -
  assume "unat x < 2 ^ 32"
  then have "take_bit 32 x = x" by (simp add: word_eq_iff_unsigned [where 'a = nat] unat_take32)
  moreover have "push_bit 32 g AND take_bit 32 x = 0"
    by (rule bit_eqI) (auto simp: bit_and_iff bit_push_bit_iff bit_take_bit_iff)
  ultimately show ?thesis by simp
qed

lemma unat_push32_or:
  "unat x < 2 ^ 32 \<Longrightarrow> unat (push_bit 32 (g :: u64) OR x) = (unat g mod 2 ^ 32) * 2 ^ 32 + unat x"
  by (simp add: unat_or_disjoint push32_and_low unat_push32)

lemma unat_totalBytes:
  "unat (totalBytes octets gigawords) = (unat gigawords mod 2 ^ 32) * 2 ^ 32 + unat octets mod 2 ^ 32"
  unfolding totalBytes_def lowMask_take
  by (subst unat_push32_or) (simp_all add: unat_take32)

lemma push31_unat: "unat (push_bit 31 (1 :: u64)) = 2 ^ 31"
  by (simp add: push_bit_eq_mult)

lemma unat_lastLow: "unat (x AND lowMask) = unat (x :: u64) mod 2 ^ 32"
  by (simp only: lowMask_take unat_take32)

text \<open>The condition under which the code assumes a wrap of the low word, over naturals.\<close>

definition wrapSuspected :: "nat \<Rightarrow> nat \<Rightarrow> nat \<Rightarrow> bool" where
  "wrapSuspected lastTotal octets gigawords \<longleftrightarrow>
     gigawords = 0 \<and> octets < lastTotal mod 2 ^ 32 \<and> 2 ^ 31 < lastTotal mod 2 ^ 32 \<and> octets < 2 ^ 31"

lemma advance_wrap_cond:
  "(gigawords = 0 \<and> lastTotal > 0 \<and> octets < lastTotal AND lowMask \<and>
     lastTotal AND lowMask > push_bit 31 1 \<and> octets < push_bit 31 (1 :: u64))
   \<longleftrightarrow> wrapSuspected (unat lastTotal) (unat octets) (unat gigawords)"
  unfolding wrapSuspected_def word_less_nat_alt unat_lastLow push31_unat
  by (auto simp: unat_eq_0)

lemma advance_wrap:
  assumes "wrapSuspected (unat l) (unat octets) (unat g)" and "unat l div 2 ^ 32 + 1 < 2 ^ 32"
  defines "n \<equiv> push_bit 32 (drop_bit 32 l + 1) OR octets"
  shows "advance l octets g = (n, n - l)"
    and "unat n = (unat l div 2 ^ 32 + 1) * 2 ^ 32 + unat octets"
    and "l \<le> n"
proof -
  have o: "unat octets < 2 ^ 32" using assms(1) by (simp add: wrapSuspected_def)
  have "unat (drop_bit 32 l + 1) = unat l div 2 ^ 32 + 1"
    using assms(2) by (simp add: unat_word_ariths unat_drop32)
  then show n: "unat n = (unat l div 2 ^ 32 + 1) * 2 ^ 32 + unat octets"
    using assms(2) o by (simp add: n_def unat_push32_or)
  have "unat l < (unat l div 2 ^ 32 + 1) * 2 ^ 32"
    by (metis add.commute dividend_less_times_div mult.commute plus_1_eq_Suc zero_less_numeral zero_less_power mult_Suc)
  then show le: "l \<le> n" using n by (simp add: word_le_nat_alt)
  show "advance l octets g = (n, n - l)"
    using assms(1) le unfolding advance_def Let_def advance_wrap_cond n_def by simp
qed

lemma advance_no_wrap:
  assumes "\<not> wrapSuspected (unat l) (unat octets) (unat g)"
  shows "advance l octets g =
    (let cur = totalBytes octets g in if l \<le> cur then (cur, cur - l) else (cur, cur))"
  using assms unfolding advance_def Let_def advance_wrap_cond by simp

lemma wrapSuspected_decrease:
  "wrapSuspected (unat l) (unat octets) (unat g) \<Longrightarrow> unat (totalBytes octets g) < unat l"
proof -
  assume w: "wrapSuspected (unat l) (unat octets) (unat g)"
  then have "unat (totalBytes octets g) = unat octets"
    by (simp add: wrapSuspected_def unat_totalBytes)
  also have "\<dots> < unat l mod 2 ^ 32" using w by (simp add: wrapSuspected_def)
  also have "\<dots> \<le> unat l" by simp
  finally show ?thesis .
qed

lemma advance_delta_le: "snd (advance l octets g) \<le> fst (advance l octets g)"
  by (auto simp: advance_def Let_def word_sub_le)

section \<open>Properties\<close>

text \<open>
  C29: exactness of \<^verbatim>\<open>advance\<close>. Whenever the reported 64-bit counter (gigawords and octets) has not
  decreased, the stored total becomes exactly the reported counter and the delta is exactly
  the difference, without wrap-around; a wrap of the low word with gigawords left at zero
  carries the high word up by one and the delta is the true distance, below \<open>2 ^ 32\<close>; any other
  decrease is a counter reset and counts the new total from zero.
\<close>

theorem advance_exact:
  assumes "unat g < 2 ^ 32" and "unat octets < 2 ^ 32" and "unat l div 2 ^ 32 + 1 < 2 ^ 32"
  defines "c \<equiv> unat g * 2 ^ 32 + unat octets"
    and "n \<equiv> unat (fst (advance l octets g))"
    and "d \<equiv> unat (snd (advance l octets g))"
  shows "if unat l \<le> c then n = c \<and> d = c - unat l
         else if wrapSuspected (unat l) (unat octets) (unat g)
         then n = (unat l div 2 ^ 32 + 1) * 2 ^ 32 + unat octets \<and> n = unat l + d \<and> d < 2 ^ 32
         else n = c \<and> d = c"
proof -
  have tot: "unat (totalBytes octets g) = c"
    using assms(1,2) by (simp add: c_def unat_totalBytes)
  show ?thesis
  proof (cases "wrapSuspected (unat l) (unat octets) (unat g)")
    case True
    note w = advance_wrap [OF True assms(3)]
    have "\<not> unat l \<le> c" using wrapSuspected_decrease [OF True] tot by simp
    moreover have n: "n = (unat l div 2 ^ 32 + 1) * 2 ^ 32 + unat octets"
      using w(1,2) by (simp add: n_def)
    moreover have nd: "n = unat l + d"
      using w(1,3) by (simp add: n_def d_def unat_sub word_le_nat_alt)
    moreover have "d < 2 ^ 32"
    proof -
      have "unat l = unat l div 2 ^ 32 * 2 ^ 32 + unat l mod 2 ^ 32" by simp
      moreover have "unat octets < unat l mod 2 ^ 32" using True by (simp add: wrapSuspected_def)
      moreover have "unat l + d = unat l div 2 ^ 32 * 2 ^ 32 + 2 ^ 32 + unat octets"
        using nd n by (simp only: add_mult_distrib mult_1)
      ultimately show ?thesis by linarith
    qed
    ultimately show ?thesis using True by simp
  next
    case False
    then show ?thesis
      using tot by (auto simp: advance_no_wrap n_def d_def Let_def word_le_nat_alt unat_sub)
  qed
qed

theorem advance_exact_witness:
  "unat (fst (advance 0xFFFFFF00 0x100 0)) = 0x100000100 \<and>
   unat (snd (advance 0xFFFFFF00 0x100 0)) = 0x200"
  using advance_exact [of 0 "0x100" "0xFFFFFF00"] by (simp add: wrapSuspected_def)

text \<open>
  What \<^verbatim>\<open>advance\<close> does with the report that follows an unreported wrap. After the low word
  wrapped with gigawords at zero (so the stored total has a high word the NAS does not
  report), the next report with a larger low word is taken for a counter reset: the high
  word is dropped again and the bytes up to the previous report are counted a second time.
\<close>

theorem advance_recount_after_wrap:
  assumes "unat l < 2 ^ 32" and "2 ^ 31 < unat l" and "unat o1 < 2 ^ 31"
    and "unat o1 \<le> unat o2" and "unat o2 < 2 ^ 32"
  shows "let (n1, d1) = advance l o1 0; (n2, d2) = advance n1 o2 0
         in unat n1 = 2 ^ 32 + unat o1 \<and> unat d1 = 2 ^ 32 + unat o1 - unat l
            \<and> n2 = o2 \<and> d2 = o2"
proof -
  have w: "wrapSuspected (unat l) (unat o1) (unat (0 :: u64))"
    using assms by (simp add: wrapSuspected_def)
  have room: "unat l div 2 ^ 32 + 1 < 2 ^ 32" using assms(1) by simp
  define n1 where "n1 = push_bit 32 (drop_bit 32 l + 1) OR o1"
  note a = advance_wrap [OF w room, folded n1_def]
  have n1: "unat n1 = 2 ^ 32 + unat o1" using a(2) assms(1) by simp
  have nw: "\<not> wrapSuspected (unat n1) (unat o2) (unat (0 :: u64))"
    using n1 assms(3,4) by (simp add: wrapSuspected_def)
  have t2: "totalBytes o2 0 = o2"
    using assms(5) by (simp add: word_eq_iff_unsigned [where 'a = nat] unat_totalBytes)
  have "\<not> n1 \<le> o2" using n1 assms(5) by (simp add: word_le_nat_alt)
  then have "advance n1 o2 0 = (o2, o2)"
    using advance_no_wrap [OF nw] t2 by (simp add: Let_def)
  moreover have "unat (n1 - l) = 2 ^ 32 + unat o1 - unat l"
    using a(3) n1 by (simp add: unat_sub)
  ultimately show ?thesis using a(1) n1 by simp
qed

theorem advance_recount_after_wrap_witness:
  "let (n1, d1) = advance 4000000000 1000 0; (n2, d2) = advance n1 2000 0
   in unat n1 = 2 ^ 32 + 1000 \<and> unat d1 = 2 ^ 32 + 1000 - 4000000000 \<and> n2 = 2000 \<and> d2 = 2000"
  using advance_recount_after_wrap [of 4000000000 1000 2000] by simp

text \<open>
  What an accepted body is. \<^verbatim>\<open>parseRecord\<close> accepts a body exactly when it decodes, its record
  type is one of the three known ones up to case and surrounding blanks, and its session id is
  not blank; an accepted record carries the lower-case type, the server's receipt time and an
  event time, and nothing else of the decoded record is changed.
\<close>

theorem parseRecord_accepts_iff:
  "parseRecord unmarshal timeParse body now = Inr r \<longleftrightarrow>
   (\<exists>r0. unmarshal body = Some r0
      \<and> toLower (trimSpace (r_RecordType r0)) \<in> {RecordStart, RecordInterim, RecordStop}
      \<and> trimSpace (r_AcctSessionID r0) \<noteq> ''''
      \<and> r = r0\<lparr>r_RecordType := toLower (trimSpace (r_RecordType r0)), r_ReceiptTime := now,
              r_EventTimeParsed := parseEventTime timeParse (r_EventTimeRaw r0) now\<rparr>)"
  by (cases "unmarshal body") (auto simp: parseRecord_def Let_def)

end
