(* ===== verification/Livestate.thy ===== *)
theory Livestate
  imports Prelude "HOL-Library.AList" "HOL-Library.Multiset"
begin

text \<open>
  The live-session view of \<^verbatim>\<open>backend/internal/live/livestate/livestate.go\<close>: a Redis hash of session states, three
  families of index sets (by subscriber and service, by NAS, by framed IP) and the published
  events. The accounting consumer writes it, the authorize path and the portal read it.

  A hash value is \<open>Some s\<close> when its JSON decodes to \<open>s\<close> and \<open>None\<close> when it does not; the hash is an
  association list with distinct keys and a Redis set is a list without duplicates, whose
  order no operation depends on. The flag \<open>up\<close> says whether Redis executes the pipeline.
\<close>

record State =
  st_Username :: string
  st_SubscriberID :: string
  st_NASID :: string
  st_AcctSessionID :: string
  st_IP :: string
  st_MAC :: string
  st_StartedAt :: gotime
  st_LastInterimAt :: gotime
  st_BytesIn :: u64
  st_BytesOut :: u64
  st_RateDownBps :: int
  st_RateUpBps :: int
  st_Stale :: bool
  st_Service :: string
  st_NASServiceID :: string
  st_ServiceName :: string

datatype Event = EvUpsert string State | EvRemove string

record Live =
  lv_hash :: "(string \<times> State option) list"
  lv_sets :: "string \<Rightarrow> string list"
  lv_events :: "Event list"

definition emptyLive :: Live where
  "emptyLive = \<lparr>lv_hash = [], lv_sets = (\<lambda>_. []), lv_events = []\<rparr>"

definition ServicePPPoE :: string where "ServicePPPoE = ''pppoe''"
definition ServiceHotspot :: string where "ServiceHotspot = ''hotspot''"

section \<open>Keys\<close>

definition Field :: "string \<Rightarrow> string \<Rightarrow> string" where
  "Field nasID acctSessionID = nasID @ '':'' @ acctSessionID"

definition ParseField :: "string \<Rightarrow> string \<times> string" where
  "ParseField field = (takeWhile (\<lambda>c. c \<noteq> CHR '':'') field, drop 1 (dropWhile (\<lambda>c. c \<noteq> CHR '':'') field))"

definition subSetKey :: "string \<Rightarrow> string \<Rightarrow> string" where
  "subSetKey subscriberID service = ''live:sub:'' @ subscriberID @ '':'' @ service"

definition nasSetKey :: "string \<Rightarrow> string" where
  "nasSetKey nasID = ''live:nas:'' @ nasID"

definition ipSetKey :: "string \<Rightarrow> string" where
  "ipSetKey ip = ''live:ip:'' @ ip"

section \<open>Redis sets\<close>

definition SAdd :: "string \<Rightarrow> string \<Rightarrow> (string \<Rightarrow> string list) \<Rightarrow> (string \<Rightarrow> string list)" where
  "SAdd key m sets = sets(key := (if m \<in> set (sets key) then sets key else sets key @ [m]))"

definition SRem :: "string \<Rightarrow> string \<Rightarrow> (string \<Rightarrow> string list) \<Rightarrow> (string \<Rightarrow> string list)" where
  "SRem key m sets = sets(key := filter (\<lambda>x. x \<noteq> m) (sets key))"

definition SCard :: "(string \<Rightarrow> string list) \<Rightarrow> string \<Rightarrow> nat" where
  "SCard sets key = length (sets key)"

section \<open>Operations\<close>

definition Upsert :: "bool \<Rightarrow> State \<Rightarrow> Live \<Rightarrow> Live" where
  "Upsert up s lv =
     (if \<not> up then lv
      else let field = Field (st_NASID s) (st_AcctSessionID s);
               sets1 = (if st_SubscriberID s \<noteq> ''''
                        then SAdd (subSetKey (st_SubscriberID s) (st_Service s)) field (lv_sets lv)
                        else lv_sets lv);
               sets2 = (if st_NASID s \<noteq> '''' then SAdd (nasSetKey (st_NASID s)) field sets1 else sets1);
               sets3 = (if st_IP s \<noteq> '''' then SAdd (ipSetKey (st_IP s)) field sets2 else sets2)
           in \<lparr>lv_hash = AList.update field (Some s) (lv_hash lv), lv_sets = sets3,
                lv_events = lv_events lv @ [EvUpsert field s]\<rparr>)"

definition Remove :: "bool \<Rightarrow> string \<Rightarrow> string \<Rightarrow> string \<Rightarrow> string \<Rightarrow> Live \<Rightarrow> Live" where
  "Remove up nasID acctSessionID subscriberID service lv =
     (if \<not> up then lv
      else let field = Field nasID acctSessionID;
               ip = (case map_of (lv_hash lv) field of Some (Some s) \<Rightarrow> st_IP s | _ \<Rightarrow> '''');
               sets1 = (if subscriberID \<noteq> ''''
                        then SRem (subSetKey subscriberID service) field (lv_sets lv) else lv_sets lv);
               sets2 = (if nasID \<noteq> '''' then SRem (nasSetKey nasID) field sets1 else sets1);
               sets3 = (if ip \<noteq> '''' then SRem (ipSetKey ip) field sets2 else sets2)
           in \<lparr>lv_hash = AList.delete field (lv_hash lv), lv_sets = sets3,
                lv_events = lv_events lv @ [EvRemove field]\<rparr>)"

definition ByIP :: "string \<Rightarrow> Live \<Rightarrow> State list" where
  "ByIP ip lv =
     (if ip = '''' then []
      else concat (map (\<lambda>f. case map_of (lv_hash lv) f of
               Some (Some s) \<Rightarrow> if st_IP s = ip then [s] else []
             | _ \<Rightarrow> [])
           (lv_sets lv (ipSetKey ip))))"

definition Count :: "string \<Rightarrow> string \<Rightarrow> Live \<Rightarrow> nat" where
  "Count subscriberID service lv =
     (if subscriberID = '''' then 0
      else if service \<noteq> '''' then SCard (lv_sets lv) (subSetKey subscriberID service)
      else SCard (lv_sets lv) (subSetKey subscriberID ServicePPPoE)
         + SCard (lv_sets lv) (subSetKey subscriberID ServiceHotspot))"

definition NASCount :: "string \<Rightarrow> Live \<Rightarrow> nat" where
  "NASCount nasID lv = (if nasID = '''' then 0 else SCard (lv_sets lv) (nasSetKey nasID))"

definition AllLive :: "Live \<Rightarrow> State list" where
  "AllLive lv = List.map_filter snd (lv_hash lv)"

section \<open>Consistency of the hash and the indexes\<close>

text \<open>
  Every live session is a member of each of its index sets, under its own hash field. The
  converse does not hold (see the last property of this theory).
\<close>

definition indexed :: "Live \<Rightarrow> string \<Rightarrow> State \<Rightarrow> bool" where
  "indexed lv f s \<longleftrightarrow>
     f = Field (st_NASID s) (st_AcctSessionID s)
     \<and> (st_SubscriberID s \<noteq> '''' \<longrightarrow> f \<in> set (lv_sets lv (subSetKey (st_SubscriberID s) (st_Service s))))
     \<and> (st_NASID s \<noteq> '''' \<longrightarrow> f \<in> set (lv_sets lv (nasSetKey (st_NASID s))))
     \<and> (st_IP s \<noteq> '''' \<longrightarrow> f \<in> set (lv_sets lv (ipSetKey (st_IP s))))"

definition liveInv :: "Live \<Rightarrow> bool" where
  "liveInv lv \<longleftrightarrow>
     distinct (map fst (lv_hash lv)) \<and> (\<forall>k. distinct (lv_sets lv k))
     \<and> (\<forall>f s. (f, Some s) \<in> set (lv_hash lv) \<longrightarrow> indexed lv f s)"

section \<open>Lemmas\<close>

lemma SAdd_mem: "x \<in> set (SAdd key m sets k) \<longleftrightarrow> x \<in> set (sets k) \<or> (k = key \<and> x = m)"
  by (auto simp: SAdd_def)

lemma SRem_mem: "x \<in> set (SRem key m sets k) \<longleftrightarrow> x \<in> set (sets k) \<and> (k = key \<longrightarrow> x \<noteq> m)"
  by (auto simp: SRem_def)

lemma SAdd_distinct: "distinct (sets k) \<Longrightarrow> distinct (SAdd key m sets k)"
  by (auto simp: SAdd_def)

lemma SRem_distinct: "distinct (sets k) \<Longrightarrow> distinct (SRem key m sets k)"
  by (auto simp: SRem_def)

lemmas redis_set_simps = SAdd_mem SRem_mem SAdd_distinct SRem_distinct

lemma liveInv_empty: "liveInv emptyLive"
  by (simp add: liveInv_def emptyLive_def)

lemma update_mem:
  "distinct (map fst al) \<Longrightarrow>
   (f, v) \<in> set (AList.update k w al) \<longleftrightarrow> (f = k \<and> v = w) \<or> (f \<noteq> k \<and> (f, v) \<in> set al)"
  using distinct_update [of al k w] update_conv' [of k w al]
  by (metis fun_upd_apply map_of_eq_Some_iff option.inject)

lemma delete_mem: "(f, v) \<in> set (AList.delete k al) \<longleftrightarrow> f \<noteq> k \<and> (f, v) \<in> set al"
  by (auto simp: AList.delete_eq)

lemma liveInv_Upsert: "liveInv lv \<Longrightarrow> liveInv (Upsert up s lv)"
  unfolding liveInv_def
  by (auto simp: Upsert_def Let_def distinct_update update_mem indexed_def redis_set_simps)

lemma liveInv_Remove: "liveInv lv \<Longrightarrow> liveInv (Remove up n a sub svc lv)"
  unfolding liveInv_def
  by (auto simp: Remove_def Let_def distinct_delete delete_mem indexed_def redis_set_simps)

lemma AllLive_mem: "s \<in> set (AllLive lv) \<longleftrightarrow> (\<exists>f. (f, Some s) \<in> set (lv_hash lv))"
  by (force simp: AllLive_def List.map_filter_def)

text \<open>The state stored under a field, as a list, and both reads expressed through it.\<close>

definition liveAt :: "string \<Rightarrow> Live \<Rightarrow> string \<Rightarrow> State list" where
  "liveAt ip lv f = (case map_of (lv_hash lv) f of
     Some (Some s) \<Rightarrow> if st_IP s = ip then [s] else [] | _ \<Rightarrow> [])"

lemma ByIP_liveAt: "ip \<noteq> '''' \<Longrightarrow> ByIP ip lv = concat (map (liveAt ip lv) (lv_sets lv (ipSetKey ip)))"
  by (simp add: ByIP_def liveAt_def [abs_def])

lemma filter_AllLive:
  assumes "distinct (map fst al)" and "map_of (lv_hash lv) = map_of al'" and "set al \<subseteq> set al'"
    and "distinct (map fst al')"
  shows "filter (\<lambda>s. st_IP s = ip) (List.map_filter snd al) = concat (map (liveAt ip lv) (map fst al))"
  using assms(1,3)
proof (induction al)
  case Nil
  then show ?case by (simp add: List.map_filter_def)
next
  case (Cons x al)
  obtain f v where x: "x = (f, v)" by (cases x)
  have "map_of (lv_hash lv) f = Some v"
    using Cons.prems(2) assms(2,4) by (simp add: x map_of_eq_Some_iff)
  with Cons show ?case
    by (cases v) (auto simp: x liveAt_def List.map_filter_def)
qed

lemma mset_concat_distinct:
  "distinct xs \<Longrightarrow> mset (concat (map g xs)) = (\<Sum>x \<in> set xs. mset (g x))"
  by (simp add: mset_concat sum_list_distinct_conv_sum_set [symmetric] comp_def)

lemma ByIP_mset:
  assumes "liveInv lv" and "ip \<noteq> ''''"
  shows "mset (ByIP ip lv) = mset (filter (\<lambda>s. st_IP s = ip) (AllLive lv))"
proof -
  let ?keys = "set (map fst (lv_hash lv))" and ?idx = "set (lv_sets lv (ipSetKey ip))"
  have d: "distinct (map fst (lv_hash lv))" "distinct (lv_sets lv (ipSetKey ip))"
    and ix: "\<And>f s. (f, Some s) \<in> set (lv_hash lv) \<Longrightarrow> indexed lv f s"
    using assms(1) by (auto simp: liveInv_def)
  have hit: "f \<in> ?keys \<and> f \<in> ?idx" if "liveAt ip lv f \<noteq> []" for f
  proof -
    from that obtain s where "map_of (lv_hash lv) f = Some (Some s)" "st_IP s = ip"
      by (auto simp: liveAt_def split: option.splits if_splits)
    then show ?thesis
      using ix [OF map_of_SomeD] assms(2) by (force simp: indexed_def dest: map_of_SomeD)
  qed
  have "mset (ByIP ip lv) = (\<Sum>f \<in> ?idx. mset (liveAt ip lv f))"
    using d(2) by (simp add: ByIP_liveAt assms(2) mset_concat_distinct)
  also have "\<dots> = (\<Sum>f \<in> ?idx \<inter> ?keys. mset (liveAt ip lv f))"
    using hit by (intro sum.mono_neutral_right) auto
  also have "\<dots> = (\<Sum>f \<in> ?keys. mset (liveAt ip lv f))"
    using hit by (intro sum.mono_neutral_left) auto
  also have "\<dots> = mset (concat (map (liveAt ip lv) (map fst (lv_hash lv))))"
    by (rule mset_concat_distinct [OF d(1), symmetric])
  also have "\<dots> = mset (filter (\<lambda>s. st_IP s = ip) (AllLive lv))"
    unfolding AllLive_def by (simp only: filter_AllLive [OF d(1) refl subset_refl d(1)])
  finally show ?thesis .
qed

lemma Count_lower:
  assumes "liveInv lv" and "sub \<noteq> ''''" and "svc \<noteq> ''''"
  shows "length (filter (\<lambda>s. st_SubscriberID s = sub \<and> st_Service s = svc) (AllLive lv)) \<le> Count sub svc lv"
proof -
  let ?P = "\<lambda>s. st_SubscriberID s = sub \<and> st_Service s = svc"
  let ?hits = "filter (\<lambda>(f, v). case v of Some s \<Rightarrow> ?P s | None \<Rightarrow> False) (lv_hash lv)"
  have "length (filter ?P (List.map_filter snd al)) =
        length (filter (\<lambda>(f, v). case v of Some s \<Rightarrow> ?P s | None \<Rightarrow> False) al)" for al
    by (induction al) (auto simp: List.map_filter_def split: option.splits)
  then have "length (filter ?P (AllLive lv)) = length (map fst ?hits)" by (simp add: AllLive_def)
  also have "\<dots> = card (set (map fst ?hits))"
    using assms(1) by (intro distinct_card [symmetric] distinct_map_filter) (simp add: liveInv_def)
  also have "\<dots> \<le> card (set (lv_sets lv (subSetKey sub svc)))"
    using assms by (intro card_mono)
      (auto simp: liveInv_def indexed_def split: option.splits)
  also have "\<dots> \<le> Count sub svc lv"
    using assms card_length by (simp add: Count_def SCard_def)
  finally show ?thesis .
qed

section \<open>Histories of operations\<close>

datatype LiveOp = DoUpsert bool State | DoRemove bool string string string string

fun liveStep :: "LiveOp \<Rightarrow> Live \<Rightarrow> Live" where
  "liveStep (DoUpsert up s) lv = Upsert up s lv"
| "liveStep (DoRemove up n a sub svc) lv = Remove up n a sub svc lv"

definition runLive :: "LiveOp list \<Rightarrow> Live" where
  "runLive ops = foldl (\<lambda>lv op. liveStep op lv) emptyLive ops"

lemma liveInv_step: "liveInv lv \<Longrightarrow> liveInv (liveStep op lv)"
  by (cases op) (simp_all add: liveInv_Upsert liveInv_Remove)

lemma liveInv_run: "liveInv (runLive ops)"
proof (induction ops rule: rev_induct)
  case Nil
  then show ?case by (simp add: runLive_def liveInv_empty)
next
  case (snoc op ops)
  then show ?case by (simp add: runLive_def liveInv_step)
qed

section \<open>Properties\<close>

text \<open>
  After any history of upserts and removes (each of which Redis may also have refused), the
  lookup by framed IP returns exactly the live sessions stored with that IP, each once: stale
  index members are never reported and no live session is missed, so the number the portal's
  automatic login decides on is the true one.
\<close>

theorem byIP_exact:
  assumes "ip \<noteq> ''''"
  shows "mset (ByIP ip (runLive ops)) = mset (filter (\<lambda>s. st_IP s = ip) (AllLive (runLive ops)))"
  by (rule ByIP_mset [OF liveInv_run assms])

definition sampleState :: State where
  "sampleState = \<lparr>st_Username = ''ali'', st_SubscriberID = ''S1'', st_NASID = ''N1'',
     st_AcctSessionID = ''81'', st_IP = ''10.0.0.7'', st_MAC = ''AA'', st_StartedAt = 0,
     st_LastInterimAt = 0, st_BytesIn = 0, st_BytesOut = 0, st_RateDownBps = 0, st_RateUpBps = 0,
     st_Stale = False, st_Service = ''pppoe'', st_NASServiceID = '''', st_ServiceName = ''''\<rparr>"

theorem byIP_exact_witness:
  "''10.0.0.7'' \<noteq> '''' \<and>
   mset (ByIP ''10.0.0.7'' (runLive [DoUpsert True sampleState])) =
   mset (filter (\<lambda>s. st_IP s = ''10.0.0.7'') (AllLive (runLive [DoUpsert True sampleState])))"
  using byIP_exact [of "''10.0.0.7''" "[DoUpsert True sampleState]"] by simp

text \<open>
  The session count used for the simultaneous-session limit never reports fewer sessions of a
  subscriber on a service than are live, whatever the history.
\<close>

theorem count_never_below:
  assumes "sub \<noteq> ''''" and "svc \<noteq> ''''"
  shows "length (filter (\<lambda>s. st_SubscriberID s = sub \<and> st_Service s = svc) (AllLive (runLive ops)))
         \<le> Count sub svc (runLive ops)"
  by (rule Count_lower [OF liveInv_run assms])

theorem count_never_below_witness:
  "length (filter (\<lambda>s. st_SubscriberID s = ''S1'' \<and> st_Service s = ''pppoe'')
     (AllLive (runLive [DoUpsert True sampleState]))) = 1 \<and>
   1 \<le> Count ''S1'' ''pppoe'' (runLive [DoUpsert True sampleState])"
proof -
  have "length (filter (\<lambda>s. st_SubscriberID s = ''S1'' \<and> st_Service s = ''pppoe'')
     (AllLive (runLive [DoUpsert True sampleState]))) = 1"
    by (simp add: runLive_def AllLive_def Upsert_def emptyLive_def Let_def sampleState_def
        List.map_filter_def)
  then show ?thesis
    using count_never_below [of "''S1''" "''pppoe''" "[DoUpsert True sampleState]"] by simp
qed

text \<open>
  The indexes can stay behind. When the closing record did not resolve to the subscriber the
  session was filed under (its lookup failed, or the login was renamed), the remove deletes the
  hash entry but leaves the subscriber's index member: the session is gone from the live list
  and still counted against the subscriber's limit.
\<close>

theorem remove_unresolved_leaks:
  assumes "st_SubscriberID s \<noteq> ''''" and "st_Service s \<noteq> ''''"
  shows "let lv' = Remove True (st_NASID s) (st_AcctSessionID s) '''' svc (Upsert True s lv)
         in (\<forall>t. (Field (st_NASID s) (st_AcctSessionID s), t) \<notin> set (lv_hash lv'))
            \<and> 1 \<le> Count (st_SubscriberID s) (st_Service s) lv'"
proof -
  let ?f = "Field (st_NASID s) (st_AcctSessionID s)"
  let ?k = "subSetKey (st_SubscriberID s) (st_Service s)"
  let ?lv = "Remove True (st_NASID s) (st_AcctSessionID s) '''' svc (Upsert True s lv)"
  have "?k \<noteq> nasSetKey n" and "?k \<noteq> ipSetKey i" for n i
    by (simp_all add: subSetKey_def nasSetKey_def ipSetKey_def)
  then have "?f \<in> set (lv_sets ?lv ?k)"
    using assms(1) by (auto simp: Remove_def Upsert_def Let_def redis_set_simps)
  then have "1 \<le> Count (st_SubscriberID s) (st_Service s) ?lv"
    using assms by (cases "lv_sets ?lv ?k") (auto simp: Count_def SCard_def)
  then show ?thesis by (auto simp: Let_def Remove_def delete_mem)
qed

theorem remove_unresolved_leaks_witness:
  "let lv' = Remove True ''N1'' ''81'' '''' ''pppoe'' (Upsert True sampleState emptyLive)
   in (\<forall>t. (Field ''N1'' ''81'', t) \<notin> set (lv_hash lv')) \<and> 1 \<le> Count ''S1'' ''pppoe'' lv'"
  using remove_unresolved_leaks [of sampleState "''pppoe''" emptyLive] by (simp add: sampleState_def)

text \<open>
  A hash field splits back into the NAS id and the session id it was made from, whenever the NAS
  id has no colon; the session id may contain colons.
\<close>

theorem parseField_Field:
  assumes "CHR '':'' \<notin> set nasID"
  shows "ParseField (Field nasID acct) = (nasID, acct)"
proof -
  have "\<forall>c \<in> set nasID. c \<noteq> CHR '':''" using assms by auto
  then show ?thesis
    by (simp add: ParseField_def Field_def takeWhile_append2 dropWhile_append2)
qed

theorem parseField_Field_witness: "ParseField (Field ''ab-c'' ''1:2'') = (''ab-c'', ''1:2'')"
  by (rule parseField_Field) simp

end
