(* ===== verification/Vendor.thy ===== *)
theory Vendor
  imports Prelude
begin

text \<open>
  The vendor seam of \<^verbatim>\<open>backend/internal/radius/vendor\<close>: how a RADIUS request is attributed to one of a NAS's service
  instances, and how a rate with burst segments is rendered. Only the MikroTik adapter is registered, and
  \<^verbatim>\<open>For\<close> falls back to it for every other key, so its functions are the seam's.

  The locale \<open>service_resolver\<close> is what the callers of the seam (the authorize chain and the accounting
  consumer) rely on.
\<close>

type_synonym Attr = "string \<times> string"

record ServiceInstance =
  si_ID :: string
  si_Service :: string
  si_ROSServerName :: string

record ServiceQuery =
  q_Service :: string
  q_CalledStationID :: string
  q_NASPortType :: string
  q_NASPortID :: string

record RateSpec =
  rs_Rate :: string
  rs_BurstRate :: string
  rs_BurstThreshold :: string
  rs_BurstTime :: string
  rs_Priority :: string
  rs_MinRate :: string

section \<open>Called-Station-Id\<close>

definition stripMacSeps :: "string \<Rightarrow> string" where
  "stripMacSeps s = filter (\<lambda>c. c \<notin> set '':-.'') s"

definition isHexDigit :: "char \<Rightarrow> bool" where
  "isHexDigit c \<longleftrightarrow> c \<in> set ''0123456789abcdefABCDEF''"

definition looksLikeMAC :: "string \<Rightarrow> bool" where
  "looksLikeMAC s = (let hex = stripMacSeps (trimSpace s) in length hex = 12 \<and> list_all isHexDigit hex)"

definition mikrotikStationName :: "string \<Rightarrow> string" where
  "mikrotikStationName called =
     (let s = trimSpace called in
      if s = '''' then ''''
      else let s' = takeWhile (\<lambda>c. c \<notin> set (CHR 0x09 # '':;, '')) s in
        if looksLikeMAC called then '''' else s')"

section \<open>Resolving the service instance\<close>

definition equalFold :: "string \<Rightarrow> string \<Rightarrow> bool" where
  "equalFold a b \<longleftrightarrow> toLower a = toLower b"

definition ofKind :: "ServiceQuery \<Rightarrow> ServiceInstance list \<Rightarrow> ServiceInstance list" where
  "ofKind q candidates =
     (if q_Service q \<noteq> '''' then
        (let kind = (if q_Service q \<noteq> ''hotspot'' then ''pppoe'' else q_Service q)
         in filter (\<lambda>c. si_Service c = kind) candidates)
      else candidates)"

definition ResolveService :: "ServiceQuery \<Rightarrow> ServiceInstance list \<Rightarrow> ServiceInstance option" where
  "ResolveService q candidates =
     (let cs = ofKind q candidates; name = mikrotikStationName (q_CalledStationID q) in
      if cs = [] then None
      else case (if name \<noteq> '''' then find (\<lambda>c. equalFold (si_ROSServerName c) name) cs else None) of
        Some c \<Rightarrow> Some c
      | None \<Rightarrow> (case cs of [c] \<Rightarrow> Some c | _ \<Rightarrow> None))"

section \<open>Rates\<close>

fun joinWith :: "string \<Rightarrow> string list \<Rightarrow> string" where
  "joinWith sep [] = ''''"
| "joinWith sep [x] = x"
| "joinWith sep (x # xs) = x @ sep @ joinWith sep xs"

definition ComposeRate :: "RateSpec \<Rightarrow> string" where
  "ComposeRate spec =
     (if rs_Rate spec = '''' then ''''
      else let hasBurst = (rs_BurstRate spec \<noteq> '''' \<and> rs_BurstThreshold spec \<noteq> '''' \<and> rs_BurstTime spec \<noteq> '''');
               parts = [rs_Rate spec] @
                 (if hasBurst then
                    [rs_BurstRate spec, rs_BurstThreshold spec, rs_BurstTime spec] @
                    (if rs_Priority spec \<noteq> '''' \<and> rs_MinRate spec \<noteq> ''''
                     then [rs_Priority spec, rs_MinRate spec]
                     else if rs_Priority spec \<noteq> '''' then [rs_Priority spec]
                     else if rs_MinRate spec \<noteq> '''' then [''8'', rs_MinRate spec] else [])
                  else [])
           in joinWith '' '' parts)"

section \<open>The contract of the seam\<close>

locale service_resolver =
  fixes resolve :: "ServiceQuery \<Rightarrow> ServiceInstance list \<Rightarrow> ServiceInstance option"
  assumes resolve_candidate: "resolve q cs = Some c \<Longrightarrow> c \<in> set cs"
    and resolve_kind: "resolve q cs = Some c \<Longrightarrow> q_Service q \<noteq> '''' \<Longrightarrow>
           si_Service c = (if q_Service q = ''hotspot'' then ''hotspot'' else ''pppoe'')"
    and resolve_sole: "q_Service q = '''' \<Longrightarrow> resolve q [c] = Some c"
begin

lemma resolve_none_of_kind:
  "q_Service q = k \<Longrightarrow> k = ''hotspot'' \<or> k = ''pppoe'' \<Longrightarrow> (\<forall>c \<in> set cs. si_Service c \<noteq> k) \<Longrightarrow>
   resolve q cs = None"
  using resolve_candidate resolve_kind by (cases "resolve q cs") fastforce+

end

lemma find_mem: "find P xs = Some x \<Longrightarrow> x \<in> set xs \<and> P x"
  by (auto simp: find_Some_iff)

lemma ResolveService_mem: "ResolveService q cs = Some c \<Longrightarrow> c \<in> set (ofKind q cs)"
  by (auto simp: ResolveService_def Let_def split: if_splits option.splits list.splits dest!: find_mem)

interpretation mikrotik: service_resolver ResolveService
proof
  fix q cs c assume r: "ResolveService q cs = Some c"
  show "c \<in> set cs" using ResolveService_mem [OF r] by (auto simp: ofKind_def Let_def split: if_splits)
  show "q_Service q \<noteq> '''' \<Longrightarrow> si_Service c = (if q_Service q = ''hotspot'' then ''hotspot'' else ''pppoe'')"
    using ResolveService_mem [OF r] by (auto simp: ofKind_def Let_def split: if_splits)
next
  fix q :: ServiceQuery and c assume "q_Service q = ''''"
  then show "ResolveService q [c] = Some c"
    by (auto simp: ResolveService_def ofKind_def Let_def split: option.splits if_splits dest!: find_mem)
qed

section \<open>Properties\<close>

text \<open>
  The instance a request is attributed to. When the Called-Station-Id names a server (case ignored) that
  an enabled instance of the requested kind carries, the first such instance is chosen;
  otherwise an instance is chosen only if it is the only one of the kind. In every other case
  nothing is chosen, so an ambiguous request is never guessed.
\<close>

theorem resolveService_spec:
  "ResolveService q cs =
     (let ks = ofKind q cs; name = mikrotikStationName (q_CalledStationID q) in
      if name \<noteq> '''' \<and> (\<exists>k \<in> set ks. equalFold (si_ROSServerName k) name)
      then Some (hd (filter (\<lambda>k. equalFold (si_ROSServerName k) name) ks))
      else if length ks = 1 then Some (hd ks) else None)"
proof -
  have f: "find P xs = (if \<exists>x \<in> set xs. P x then Some (hd (filter P xs)) else None)"
    for P and xs :: "ServiceInstance list"
    by (induction xs) auto
  show ?thesis
    by (auto simp: ResolveService_def Let_def f split: list.splits)
qed

text \<open>
  Rendering a rate keeps MikroTik's positional grammar: without the complete burst triple the string
  is the base rate alone; with it, the base rate and the triple come first, and a minimum rate
  always stands in the sixth position, behind an explicit priority (the default 8 if none is set).
\<close>

theorem composeRate_positions:
  assumes "rs_Rate spec \<noteq> ''''"
  defines "burst \<equiv> rs_BurstRate spec \<noteq> '''' \<and> rs_BurstThreshold spec \<noteq> '''' \<and> rs_BurstTime spec \<noteq> ''''"
  shows "ComposeRate spec = joinWith '' '' ([rs_Rate spec] @ (if \<not> burst then [] else
     [rs_BurstRate spec, rs_BurstThreshold spec, rs_BurstTime spec] @
     (if rs_MinRate spec \<noteq> '''' then [if rs_Priority spec = '''' then ''8'' else rs_Priority spec, rs_MinRate spec]
      else if rs_Priority spec \<noteq> '''' then [rs_Priority spec] else [])))"
  using assms by (auto simp: ComposeRate_def Let_def)

theorem composeRate_positions_witness:
  "ComposeRate \<lparr>rs_Rate = ''10M/10M'', rs_BurstRate = ''20M/20M'', rs_BurstThreshold = ''8M/8M'',
     rs_BurstTime = ''8/8'', rs_Priority = '''', rs_MinRate = ''1M/1M''\<rparr> =
   ''10M/10M 20M/20M 8M/8M 8/8 8 1M/1M''"
  using composeRate_positions [of "\<lparr>rs_Rate = ''10M/10M'', rs_BurstRate = ''20M/20M'',
     rs_BurstThreshold = ''8M/8M'', rs_BurstTime = ''8/8'', rs_Priority = '''', rs_MinRate = ''1M/1M''\<rparr>"]
  by simp

end
