(* ===== verification/AcctStore.thy ===== *)
theory AcctStore
  imports AcctRecord Livestate Vendor "HOL-Library.Monad_Syntax"
begin

text \<open>
  The database side of the accounting pipeline: NAS and subscriber resolution (\<^verbatim>\<open>resolve.go\<close>), the session and
  usage-point upsert (\<^verbatim>\<open>sessions.go\<close>), the lifetime billing counters (\<^verbatim>\<open>billingcounters.go\<close>) and the
  quota evaluation (\<^verbatim>\<open>quota.go\<close>) of \<^verbatim>\<open>backend/internal/accounting\<close>.

  A table is a list of rows (usage points), an association list keyed by its unique key (sessions) or
  a map (lifetime counters). A statement that fails makes the operation return \<open>None\<close>, which
  is the returned error: the caller rolls the transaction back. Which statements fail, how
  PostgreSQL casts a text to \<^verbatim>\<open>inet\<close>, how \<^verbatim>\<open>time.Parse\<close> reads a layout and the floating-point
  rate quotient are fields of the environment, over which every theorem quantifies.
\<close>

section \<open>Tables\<close>

record Session =
  s_subscriber :: "string option"
  s_username :: string
  s_ip :: "string option"
  s_mac :: string
  s_started_at :: "gotime option"
  s_last_interim_at :: "gotime option"
  s_stopped_at :: "gotime option"
  s_terminate_cause :: string
  s_bytes_in :: u64
  s_bytes_out :: u64
  s_service :: string
  s_nas_service :: "string option"
  s_stale :: bool
  s_reaped :: bool
  s_card :: "string option"

record UsagePoint =
  up_time :: gotime
  up_subscriber :: "string option"
  up_nas :: string
  up_down :: int
  up_up :: int
  up_service :: string
  up_card :: "string option"

record Lifetime =
  lt_down :: int
  lt_up :: int
  lt_seconds :: int
  lt_first :: gotime
  lt_last :: gotime

record Counters =
  c_received :: int
  c_enqueued :: int
  c_spilled :: int
  c_drained :: int
  c_persisted :: int
  c_deduplicated :: int
  c_reaped :: int
  c_orphan_stops :: int

type_synonym sessionKey = "string \<times> string"
type_synonym dedupKey = "string \<times> string \<times> string \<times> gotime"

record AcctDB =
  db_dedup :: "dedupKey list"
  db_sessions :: "(sessionKey \<times> Session) list"
  db_usage :: "UsagePoint list"
  db_lifetime :: "string \<Rightarrow> Lifetime option"
  db_counters :: Counters

datatype sqlStep = SqlBegin | SqlDedup | SqlSelect | SqlWrite | SqlUsage | SqlLifeBytes
  | SqlLifeSeconds | SqlBump | SqlCommit

record AcctEnv =
  e_fails :: "sqlStep \<Rightarrow> bool"
  e_inet :: "string \<Rightarrow> string option"
  e_timeParse :: "string \<Rightarrow> string \<Rightarrow> gotime option"
  e_rate :: "u64 \<Rightarrow> duration \<Rightarrow> int"

definition nullUUID :: "string \<Rightarrow> string option" where
  "nullUUID s = (if s = '''' then None else Some s)"

section \<open>Resolving the NAS, the subscriber and the card\<close>

record NasInfo =
  ni_ID :: string
  ni_Vendor :: string
  ni_Services :: "ServiceInstance list"
  ni_names :: "string \<Rightarrow> string"

definition serviceName :: "NasInfo \<Rightarrow> string \<Rightarrow> string" where
  "serviceName n i = ni_names n i"

datatype nasLookup = NasRow string string | NasNoRows | NasError

type_synonym nasCache = "string \<Rightarrow> (NasInfo \<times> gotime) option"

definition nasTTL :: duration where
  "nasTTL = 10 * second"

fun servicesOf :: "(ServiceInstance \<times> string) list \<Rightarrow> ServiceInstance list \<times> (string \<Rightarrow> string)" where
  "servicesOf [] = ([], \<lambda>_. '''')"
| "servicesOf ((s, label) # rows) =
     (let (ss, names) = servicesOf rows in
      (s # ss, \<lambda>i. if i = si_ID s \<and> i \<notin> si_ID ` set ss
                   then (if label \<noteq> '''' then label else si_ROSServerName s) else names i))"

definition unknownNas :: NasInfo where
  "unknownNas = \<lparr>ni_ID = zeroUUID, ni_Vendor = '''', ni_Services = [], ni_names = (\<lambda>_. '''')\<rparr>"

text \<open>\<open>queryNas\<close> and \<open>queryServices\<close> answer the two statements; \<open>None\<close> from the second is an error.\<close>

definition byIP ::
    "(string \<Rightarrow> nasLookup) \<Rightarrow> (string \<Rightarrow> (ServiceInstance \<times> string) list option) \<Rightarrow> gotime \<Rightarrow> string \<Rightarrow>
     nasCache \<Rightarrow> NasInfo \<times> nasCache" where
  "byIP queryNas queryServices now ip cache =
     (case (case cache ip of
              Some (info, t) \<Rightarrow> if timeSub now t < nasTTL then Some info else None
            | None \<Rightarrow> None) of
        Some info \<Rightarrow> (info, cache)
      | None \<Rightarrow>
          (case (if ip = [] then NasNoRows else queryNas ip) of
             NasRow i vend \<Rightarrow>
               (case queryServices i of
                  None \<Rightarrow> (unknownNas, cache)
                | Some rows \<Rightarrow>
                    (let info' = \<lparr>ni_ID = i, ni_Vendor = vend, ni_Services = fst (servicesOf rows),
                                  ni_names = snd (servicesOf rows)\<rparr>
                     in (info', cache(ip \<mapsto> (info', now)))))
           | NasNoRows \<Rightarrow> (unknownNas, cache(ip \<mapsto> (unknownNas, now)))
           | NasError \<Rightarrow> (unknownNas, cache)))"

definition soleKind :: "NasInfo \<Rightarrow> string option" where
  "soleKind n = (case ni_Services n of
       [] \<Rightarrow> None
     | s # ss \<Rightarrow> if list_all (\<lambda>t. si_Service t = si_Service s) ss then Some (si_Service s) else None)"

definition serviceQueryOf :: "Record \<Rightarrow> ServiceQuery" where
  "serviceQueryOf r = \<lparr>q_Service = coarseService r, q_CalledStationID = r_CalledStationID r,
     q_NASPortType = r_NASPortType r, q_NASPortID = r_NASPortID r\<rparr>"

definition resolveService :: "NasInfo \<Rightarrow> Record \<Rightarrow> string \<times> string" where
  "resolveService n r =
     (if ni_Services n = [] then (ServicePPPoE, '''')
      else case ResolveService (serviceQueryOf r) (ni_Services n) of
        Some inst \<Rightarrow> (si_Service inst, si_ID inst)
      | None \<Rightarrow>
          (if length (ni_Services n) = 1
           then (si_Service (hd (ni_Services n)), si_ID (hd (ni_Services n)))
           else case soleKind n of
             Some kind \<Rightarrow> (kind, '''')
           | None \<Rightarrow> (if coarseService r \<noteq> '''' then (coarseService r, '''') else (ServicePPPoE, ''''))))"

definition subscriberByUsername :: "(string \<Rightarrow> string option) \<Rightarrow> string \<Rightarrow> string" where
  "subscriberByUsername querySub username =
     (if username = '''' then '''' else case querySub username of Some i \<Rightarrow> i | None \<Rightarrow> '''')"

definition cardCodeHash :: "(string \<Rightarrow> string) \<Rightarrow> string \<Rightarrow> string" where
  "cardCodeHash sha256hex code = sha256hex (filter (\<lambda>c. let n = of_char c :: nat in
     65 \<le> n \<and> n \<le> 90 \<or> 48 \<le> n \<and> n \<le> 57) (toUpper code))"

definition cardIDByUsername :: "(string \<Rightarrow> string) \<Rightarrow> (string \<Rightarrow> string option) \<Rightarrow> string \<Rightarrow> string" where
  "cardIDByUsername sha256hex queryCard username =
     (if username = '''' then ''''
      else case queryCard (cardCodeHash sha256hex username) of Some i \<Rightarrow> i | None \<Rightarrow> '''')"

section \<open>Lifetime billing counters\<close>

definition incrementLifetimeBytes ::
    "AcctEnv \<Rightarrow> string \<Rightarrow> u64 \<Rightarrow> u64 \<Rightarrow> gotime \<Rightarrow> AcctDB \<Rightarrow> AcctDB option" where
  "incrementLifetimeBytes env sub dDown dUp seenAt db =
     (if sub = '''' then Some db
      else if e_fails env SqlLifeBytes then None
      else case db_lifetime db sub of
        None \<Rightarrow> Some (db\<lparr>db_lifetime := (db_lifetime db)(sub \<mapsto>
            \<lparr>lt_down = sint dDown, lt_up = sint dUp, lt_seconds = 0,
             lt_first = pgTime seenAt, lt_last = pgTime seenAt\<rparr>)\<rparr>)
      | Some l \<Rightarrow>
          (if inInt64 (lt_down l + sint dDown) \<and> inInt64 (lt_up l + sint dUp)
           then Some (db\<lparr>db_lifetime := (db_lifetime db)(sub \<mapsto>
                  l\<lparr>lt_down := lt_down l + sint dDown, lt_up := lt_up l + sint dUp,
                    lt_first := min (lt_first l) (pgTime seenAt),
                    lt_last := max (lt_last l) (pgTime seenAt)\<rparr>)\<rparr>)
           else None))"

definition incrementLifetimeSeconds ::
    "bool \<Rightarrow> string \<Rightarrow> int \<Rightarrow> gotime \<Rightarrow> AcctDB \<Rightarrow> AcctDB option" where
  "incrementLifetimeSeconds fails sub seconds seenAt db =
     (if sub = '''' \<or> seconds \<le> 0 then Some db
      else if fails then None
      else case db_lifetime db sub of
        None \<Rightarrow> Some (db\<lparr>db_lifetime := (db_lifetime db)(sub \<mapsto>
            \<lparr>lt_down = 0, lt_up = 0, lt_seconds = seconds,
             lt_first = pgTime seenAt, lt_last = pgTime seenAt\<rparr>)\<rparr>)
      | Some l \<Rightarrow>
          (if inInt64 (lt_seconds l + seconds)
           then Some (db\<lparr>db_lifetime := (db_lifetime db)(sub \<mapsto>
                  l\<lparr>lt_seconds := lt_seconds l + seconds,
                    lt_first := min (lt_first l) (pgTime seenAt),
                    lt_last := max (lt_last l) (pgTime seenAt)\<rparr>)\<rparr>)
           else None))"

section \<open>Session upsert\<close>

record Binding =
  b_NASID :: string
  b_Service :: string
  b_ServiceID :: string
  b_ServiceName :: string
  b_SubscriberID :: string
  b_CardID :: string

record ApplyResult =
  ar_State :: "State option"
  ar_Closed :: bool
  ar_SubscriberID :: string
  ar_Service :: string
  ar_OrphanStop :: bool

text \<open>\<^verbatim>\<open>NULLIF($5::text,'')::inet\<close>: the outer option is the cast error.\<close>

definition castIP :: "AcctEnv \<Rightarrow> string \<Rightarrow> string option option" where
  "castIP env ip = (if ip = '''' then Some None else map_option Some (e_inet env ip))"

definition insertedSession ::
    "Record \<Rightarrow> Binding \<Rightarrow> string option \<Rightarrow> u64 \<Rightarrow> u64 \<Rightarrow> gotime \<Rightarrow> Session" where
  "insertedSession r b ip inB outB evt =
     \<lparr>s_subscriber = nullUUID (b_SubscriberID b), s_username = r_Username r, s_ip = ip,
      s_mac = r_CallingStationID r, s_started_at = Some (pgTime evt),
      s_last_interim_at = Some (pgTime (r_ReceiptTime r)), s_stopped_at = None,
      s_terminate_cause = '''', s_bytes_in = inB, s_bytes_out = outB, s_service = b_Service b,
      s_nas_service = nullUUID (b_ServiceID b), s_stale = False, s_reaped = False,
      s_card = nullUUID (b_CardID b)\<rparr>"

definition putSession :: "sessionKey \<Rightarrow> Session \<Rightarrow> AcctDB \<Rightarrow> AcctDB" where
  "putSession k s db = db\<lparr>db_sessions := AList.update k s (db_sessions db)\<rparr>"

definition coalesce :: "'a option \<Rightarrow> 'a option \<Rightarrow> 'a option" where
  "coalesce a b = (case a of Some x \<Rightarrow> Some x | None \<Rightarrow> b)"

definition writeStart ::
    "AcctEnv \<Rightarrow> Record \<Rightarrow> Binding \<Rightarrow> u64 \<Rightarrow> u64 \<Rightarrow> gotime \<Rightarrow> AcctDB \<Rightarrow> AcctDB option" where
  "writeStart env r b inB outB evt db =
     (if e_fails env SqlWrite then None
      else do { ip \<leftarrow> castIP env (r_FramedIP r);
                Some (putSession (b_NASID b, r_AcctSessionID r) (insertedSession r b ip inB outB evt) db) })"

definition writeInterim ::
    "AcctEnv \<Rightarrow> Record \<Rightarrow> Binding \<Rightarrow> u64 \<Rightarrow> u64 \<Rightarrow> gotime \<Rightarrow> Session option \<Rightarrow> AcctDB \<Rightarrow> AcctDB option" where
  "writeInterim env r b inB outB evt row db =
     (if e_fails env SqlWrite then None
      else do { ip \<leftarrow> castIP env (r_FramedIP r);
        (case row of
           None \<Rightarrow> Some (putSession (b_NASID b, r_AcctSessionID r) (insertedSession r b ip inB outB evt) db)
         | Some s \<Rightarrow> Some (putSession (b_NASID b, r_AcctSessionID r)
             (s\<lparr>s_subscriber := coalesce (nullUUID (b_SubscriberID b)) (s_subscriber s),
                s_username := (if r_Username r \<noteq> '''' then r_Username r else s_username s),
                s_ip := coalesce ip (s_ip s),
                s_mac := (if r_CallingStationID r \<noteq> '''' then r_CallingStationID r else s_mac s),
                s_last_interim_at := Some (pgTime (r_ReceiptTime r)),
                s_stopped_at := None, s_bytes_in := inB, s_bytes_out := outB,
                s_stale := False, s_reaped := False,
                s_card := coalesce (nullUUID (b_CardID b)) (s_card s)\<rparr>) db)) })"

definition writeStop ::
    "AcctEnv \<Rightarrow> Record \<Rightarrow> Binding \<Rightarrow> u64 \<Rightarrow> u64 \<Rightarrow> gotime \<Rightarrow> Session option \<Rightarrow> AcctDB \<Rightarrow> AcctDB option" where
  "writeStop env r b inB outB evt row db =
     (if e_fails env SqlWrite then None
      else case row of
        None \<Rightarrow> do { ip \<leftarrow> castIP env (r_FramedIP r);
          Some (putSession (b_NASID b, r_AcctSessionID r)
            ((insertedSession r b ip inB outB evt)
               \<lparr>s_stopped_at := Some (pgTime evt), s_terminate_cause := r_TerminateCause r\<rparr>) db) }
      | Some s \<Rightarrow> Some (putSession (b_NASID b, r_AcctSessionID r)
          (s\<lparr>s_subscriber := coalesce (nullUUID (b_SubscriberID b)) (s_subscriber s),
             s_stopped_at := Some (pgTime evt), s_terminate_cause := r_TerminateCause r,
             s_last_interim_at := Some (pgTime (r_ReceiptTime r)),
             s_bytes_in := inB, s_bytes_out := outB, s_stale := False, s_reaped := False,
             s_card := coalesce (nullUUID (b_CardID b)) (s_card s)\<rparr>) db))"

definition insertUsagePoint ::
    "AcctEnv \<Rightarrow> gotime \<Rightarrow> Binding \<Rightarrow> u64 \<Rightarrow> u64 \<Rightarrow> AcctDB \<Rightarrow> AcctDB option" where
  "insertUsagePoint env evt b dDown dUp db =
     (if e_fails env SqlUsage then None
      else Some (db\<lparr>db_usage := db_usage db @
        [\<lparr>up_time = pgTime evt, up_subscriber = nullUUID (b_SubscriberID b), up_nas = b_NASID b,
          up_down = sint dDown, up_up = sint dUp, up_service = b_Service b,
          up_card = nullUUID (b_CardID b)\<rparr>]\<rparr>))"

definition rates :: "AcctEnv \<Rightarrow> u64 \<Rightarrow> u64 \<Rightarrow> gotime \<Rightarrow> gotime \<Rightarrow> int \<times> int" where
  "rates env dDown dUp from to =
     (if timeSub to from \<le> 0 then (0, 0)
      else (e_rate env (dDown * 8) (timeSub to from), e_rate env (dUp * 8) (timeSub to from)))"

text \<open>The new totals and deltas: \<open>(newIn, dUp, newOut, dDown)\<close>.\<close>

definition sessionDeltas :: "Record \<Rightarrow> Session option \<Rightarrow> u64 \<times> u64 \<times> u64 \<times> u64" where
  "sessionDeltas r row =
     (let wasStopped = (case row of Some s \<Rightarrow> s_stopped_at s \<noteq> None | None \<Rightarrow> False);
          reset = (r_RecordType r = RecordStart \<or> wasStopped);
          tIn = totalBytes (r_BytesIn r) (r_GigawordsIn r);
          tOut = totalBytes (r_BytesOut r) (r_GigawordsOut r)
      in case row of
           None \<Rightarrow> (tIn, tIn, tOut, tOut)
         | Some s \<Rightarrow>
             (if reset then (tIn, tIn, tOut, tOut)
              else (let (newIn, dUp) = advance (s_bytes_in s) (r_BytesIn r) (r_GigawordsIn r);
                        (newOut, dDown) = advance (s_bytes_out s) (r_BytesOut r) (r_GigawordsOut r)
                    in (newIn, dUp, newOut, dDown))))"

definition writeSession ::
    "AcctEnv \<Rightarrow> Record \<Rightarrow> Binding \<Rightarrow> u64 \<Rightarrow> u64 \<Rightarrow> gotime \<Rightarrow> Session option \<Rightarrow> AcctDB \<Rightarrow> AcctDB option" where
  "writeSession env r b newIn newOut evt row db =
     (if r_RecordType r = RecordStart then writeStart env r b newIn newOut evt db
      else if r_RecordType r = RecordInterim then writeInterim env r b newIn newOut evt row db
      else if r_RecordType r = RecordStop then writeStop env r b newIn newOut evt row db
      else Some db)"

definition accrueUsage ::
    "AcctEnv \<Rightarrow> Binding \<Rightarrow> u64 \<Rightarrow> u64 \<Rightarrow> gotime \<Rightarrow> AcctDB \<Rightarrow> AcctDB option" where
  "accrueUsage env b dDown dUp evt db =
     (if dUp > 0 \<or> dDown > 0 then
        do { db1 \<leftarrow> insertUsagePoint env evt b dDown dUp db;
             incrementLifetimeBytes env (b_SubscriberID b) dDown dUp evt db1 }
      else Some db)"

definition accrueSeconds ::
    "AcctEnv \<Rightarrow> Record \<Rightarrow> Binding \<Rightarrow> Session option \<Rightarrow> gotime \<Rightarrow> AcctDB \<Rightarrow> AcctDB option" where
  "accrueSeconds env r b row evt db =
     (if r_RecordType r = RecordStop then
        (let start = (case row of Some s \<Rightarrow> (case s_started_at s of Some t \<Rightarrow> t | None \<Rightarrow> evt) | None \<Rightarrow> evt);
             d = timeSub evt start
         in if d > 0
            then incrementLifetimeSeconds (e_fails env SqlLifeSeconds) (b_SubscriberID b) (wholeSeconds d) evt db
            else Some db)
      else Some db)"

definition liveStateOf ::
    "AcctEnv \<Rightarrow> Record \<Rightarrow> Binding \<Rightarrow> Session option \<Rightarrow> gotime \<Rightarrow> u64 \<times> u64 \<times> u64 \<times> u64 \<Rightarrow> State" where
  "liveStateOf env r b row evt deltas =
     (let (newIn, dUp, newOut, dDown) = deltas;
          startedAt = Option.bind row s_started_at;
          lastInterim = Option.bind row s_last_interim_at;
          start = (if r_RecordType r = RecordStart then evt
                   else case startedAt of Some t \<Rightarrow> t | None \<Rightarrow> r_ReceiptTime r);
          intervalStart = (if r_RecordType r \<noteq> RecordStart then
                             (case lastInterim of Some t \<Rightarrow> t
                              | None \<Rightarrow> (case startedAt of Some t \<Rightarrow> t | None \<Rightarrow> r_ReceiptTime r))
                           else r_ReceiptTime r);
          (rateDown, rateUp) = rates env dDown dUp intervalStart (r_ReceiptTime r)
      in \<lparr>st_Username = r_Username r, st_SubscriberID = b_SubscriberID b, st_NASID = b_NASID b,
          st_AcctSessionID = r_AcctSessionID r, st_IP = r_FramedIP r, st_MAC = r_CallingStationID r,
          st_StartedAt = start, st_LastInterimAt = r_ReceiptTime r, st_BytesIn = newIn,
          st_BytesOut = newOut, st_RateDownBps = rateDown, st_RateUpBps = rateUp, st_Stale = False,
          st_Service = b_Service b, st_NASServiceID = b_ServiceID b, st_ServiceName = b_ServiceName b\<rparr>)"

definition upsertSession ::
    "AcctEnv \<Rightarrow> Record \<Rightarrow> Binding \<Rightarrow> AcctDB \<Rightarrow> (ApplyResult \<times> AcctDB) option" where
  "upsertSession env r b db =
     (if e_fails env SqlSelect then None
      else let row = map_of (db_sessions db) (b_NASID b, r_AcctSessionID r);
               deltas = sessionDeltas r row;
               (newIn, dUp, newOut, dDown) = deltas;
               evt = eventTime (e_timeParse env) r;
               closed = (r_RecordType r = RecordStop)
        in do { db1 \<leftarrow> writeSession env r b newIn newOut evt row db;
                db2 \<leftarrow> accrueUsage env b dDown dUp evt db1;
                db3 \<leftarrow> accrueSeconds env r b row evt db2;
                Some (\<lparr>ar_State = (if closed then None else Some (liveStateOf env r b row evt deltas)),
                       ar_Closed = closed, ar_SubscriberID = b_SubscriberID b, ar_Service = b_Service b,
                       ar_OrphanStop = (closed \<and> row = None)\<rparr>, db3) })"

section \<open>Lemmas: the lifetime counters\<close>

definition usageSum :: "(UsagePoint \<Rightarrow> int) \<Rightarrow> string \<Rightarrow> UsagePoint list \<Rightarrow> int" where
  "usageSum f sub us = sum_list (map f (filter (\<lambda>u. up_subscriber u = Some sub) us))"

definition lifetimeDown :: "AcctDB \<Rightarrow> string \<Rightarrow> int" where
  "lifetimeDown db sub = (case db_lifetime db sub of None \<Rightarrow> 0 | Some l \<Rightarrow> lt_down l)"

definition lifetimeUp :: "AcctDB \<Rightarrow> string \<Rightarrow> int" where
  "lifetimeUp db sub = (case db_lifetime db sub of None \<Rightarrow> 0 | Some l \<Rightarrow> lt_up l)"

definition lifetimeSeconds :: "AcctDB \<Rightarrow> string \<Rightarrow> int" where
  "lifetimeSeconds db sub = (case db_lifetime db sub of None \<Rightarrow> 0 | Some l \<Rightarrow> lt_seconds l)"

definition lifetimeInv :: "AcctDB \<Rightarrow> bool" where
  "lifetimeInv db \<longleftrightarrow> (\<forall>sub. lifetimeDown db sub = usageSum up_down sub (db_usage db)
                        \<and> lifetimeUp db sub = usageSum up_up sub (db_usage db))"

lemma usageSum_snoc:
  "usageSum f sub (us @ [u]) = usageSum f sub us + (if up_subscriber u = Some sub then f u else 0)"
  by (simp add: usageSum_def)

lemmas life_defs = lifetimeInv_def lifetimeDown_def lifetimeUp_def

text \<open>What each statement leaves alone.\<close>

lemma writeSession_frame:
  assumes "writeSession env r b i out evt row db = Some db'"
  shows "db_usage db' = db_usage db" and "db_lifetime db' = db_lifetime db"
    and "db_dedup db' = db_dedup db" and "db_counters db' = db_counters db"
  using assms
  by (auto simp: writeSession_def writeStart_def writeInterim_def writeStop_def putSession_def
      split: if_splits option.splits bind_splits)

lemma accrueUsage_frame:
  assumes "accrueUsage env b dDown dUp evt db = Some db'"
  shows "db_sessions db' = db_sessions db" and "db_dedup db' = db_dedup db"
    and "db_counters db' = db_counters db"
  using assms
  by (auto simp: accrueUsage_def insertUsagePoint_def incrementLifetimeBytes_def
      split: if_splits option.splits bind_splits)

lemma incrementLifetimeSeconds_frame:
  assumes "incrementLifetimeSeconds fl sub n t db = Some db'"
  shows "db_sessions db' = db_sessions db" and "db_dedup db' = db_dedup db"
    and "db_counters db' = db_counters db" and "db_usage db' = db_usage db"
    and "lifetimeDown db' = lifetimeDown db" and "lifetimeUp db' = lifetimeUp db"
  using assms
  by (auto simp: incrementLifetimeSeconds_def fun_eq_iff lifetimeDown_def lifetimeUp_def
      split: if_splits option.splits)

lemma accrueSeconds_frame:
  assumes "accrueSeconds env r b row evt db = Some db'"
  shows "db_sessions db' = db_sessions db" and "db_dedup db' = db_dedup db"
    and "db_counters db' = db_counters db" and "db_usage db' = db_usage db"
    and "lifetimeDown db' = lifetimeDown db" and "lifetimeUp db' = lifetimeUp db"
  using assms incrementLifetimeSeconds_frame
  by (auto simp: accrueSeconds_def Let_def split: if_splits)

lemma accrueUsage_usage:
  assumes "accrueUsage env b dDown dUp evt db = Some db'"
  shows "db_usage db' = db_usage db @ (if dUp > 0 \<or> dDown > 0 then
     [\<lparr>up_time = pgTime evt, up_subscriber = nullUUID (b_SubscriberID b), up_nas = b_NASID b,
       up_down = sint dDown, up_up = sint dUp, up_service = b_Service b,
       up_card = nullUUID (b_CardID b)\<rparr>] else [])"
  using assms
  by (auto simp: accrueUsage_def insertUsagePoint_def incrementLifetimeBytes_def
      split: if_splits option.splits bind_splits)

lemma accrueUsage_lifetime:
  assumes "lifetimeInv db" and "accrueUsage env b dDown dUp evt db = Some db'"
  shows "lifetimeInv db'"
  unfolding lifetimeInv_def
proof
  fix sub
  have inv: "lifetimeDown db sub = usageSum up_down sub (db_usage db)"
    "lifetimeUp db sub = usageSum up_up sub (db_usage db)"
    using assms(1) by (simp_all add: lifetimeInv_def)
  show "lifetimeDown db' sub = usageSum up_down sub (db_usage db') \<and>
        lifetimeUp db' sub = usageSum up_up sub (db_usage db')"
    using assms(2) inv
    by (auto simp: accrueUsage_def insertUsagePoint_def incrementLifetimeBytes_def usageSum_snoc
        nullUUID_def lifetimeDown_def lifetimeUp_def
        split: if_splits option.splits bind_splits)
qed

text \<open>The stages of a successful upsert.\<close>

lemma upsertSession_stages:
  assumes "upsertSession env r b db = Some (res, db')"
  obtains newIn dUp newOut dDown db1 db2 where
    "sessionDeltas r (map_of (db_sessions db) (b_NASID b, r_AcctSessionID r)) = (newIn, dUp, newOut, dDown)"
    "writeSession env r b newIn newOut (eventTime (e_timeParse env) r)
       (map_of (db_sessions db) (b_NASID b, r_AcctSessionID r)) db = Some db1"
    "accrueUsage env b dDown dUp (eventTime (e_timeParse env) r) db1 = Some db2"
    "accrueSeconds env r b (map_of (db_sessions db) (b_NASID b, r_AcctSessionID r))
       (eventTime (e_timeParse env) r) db2 = Some db'"
    "ar_Closed res = (r_RecordType r = RecordStop)"
    "ar_OrphanStop res = (r_RecordType r = RecordStop
       \<and> map_of (db_sessions db) (b_NASID b, r_AcctSessionID r) = None)"
  using assms
  by (cases "sessionDeltas r (map_of (db_sessions db) (b_NASID b, r_AcctSessionID r))")
    (auto simp: upsertSession_def Let_def split: if_splits bind_splits)

lemma upsertSession_lifetimeInv:
  assumes "lifetimeInv db" and "upsertSession env r b db = Some (res, db')"
  shows "lifetimeInv db'"
proof -
  from assms(2) obtain dDown dUp newIn newOut evt row db1 db2
    where w: "writeSession env r b newIn newOut evt row db = Some db1"
      and u: "accrueUsage env b dDown dUp evt db1 = Some db2"
      and s: "accrueSeconds env r b row evt db2 = Some db'"
    by (rule upsertSession_stages) blast
  have "lifetimeInv db1" using assms(1) writeSession_frame [OF w] by (simp add: life_defs)
  then have "lifetimeInv db2" using u by (rule accrueUsage_lifetime)
  then show ?thesis using accrueSeconds_frame [OF s] by (simp add: lifetimeInv_def)
qed

lemma upsertSession_frame:
  assumes "upsertSession env r b db = Some (res, db')"
  shows "db_dedup db' = db_dedup db" and "db_counters db' = db_counters db"
proof -
  from assms obtain dDown dUp newIn newOut evt row db1 db2
    where w: "writeSession env r b newIn newOut evt row db = Some db1"
      and u: "accrueUsage env b dDown dUp evt db1 = Some db2"
      and s: "accrueSeconds env r b row evt db2 = Some db'"
    by (rule upsertSession_stages) blast
  show "db_dedup db' = db_dedup db" and "db_counters db' = db_counters db"
    using writeSession_frame [OF w] accrueUsage_frame [OF u] accrueSeconds_frame [OF s] by simp_all
qed

section \<open>Lemmas: usage over a session\<close>

definition totalIn :: "Record \<Rightarrow> u64" where
  "totalIn r = totalBytes (r_BytesIn r) (r_GigawordsIn r)"

definition totalOut :: "Record \<Rightarrow> u64" where
  "totalOut r = totalBytes (r_BytesOut r) (r_GigawordsOut r)"

definition octets32 :: "Record \<Rightarrow> bool" where
  "octets32 r \<longleftrightarrow> unat (r_BytesIn r) < 2 ^ 32 \<and> unat (r_BytesOut r) < 2 ^ 32"

text \<open>
  Reports of one session in order: interims, possibly closed by a stop, whose 64-bit counters never
  decrease from the given ones.
\<close>

fun reports :: "string \<Rightarrow> u64 \<Rightarrow> u64 \<Rightarrow> Record list \<Rightarrow> bool" where
  "reports acct i out [] \<longleftrightarrow> True"
| "reports acct i out (r # rs) \<longleftrightarrow>
     r_AcctSessionID r = acct \<and> octets32 r \<and> i \<le> totalIn r \<and> out \<le> totalOut r
     \<and> unat (totalIn r) < 2 ^ 63 \<and> unat (totalOut r) < 2 ^ 63
     \<and> (r_RecordType r = RecordInterim \<and> reports acct (totalIn r) (totalOut r) rs
        \<or> r_RecordType r = RecordStop \<and> rs = [])"

fun runRecords :: "AcctEnv \<Rightarrow> Binding \<Rightarrow> Record list \<Rightarrow> AcctDB \<Rightarrow> AcctDB option" where
  "runRecords env b [] db = Some db"
| "runRecords env b (r # rs) db =
     (case upsertSession env r b db of None \<Rightarrow> None | Some (_, db') \<Rightarrow> runRecords env b rs db')"

lemma advance_monotone:
  assumes "unat octets < 2 ^ 32" and "l \<le> totalBytes octets g"
  shows "advance l octets g = (totalBytes octets g, totalBytes octets g - l)"
proof -
  have "\<not> wrapSuspected (unat l) (unat octets) (unat g)"
    using wrapSuspected_decrease [of l octets g] assms(2) by (auto simp: word_le_nat_alt)
  then show ?thesis using assms(2) by (simp add: advance_no_wrap Let_def)
qed

lemma sessionDeltas_open:
  assumes "s_stopped_at s = None" and "r_RecordType r \<noteq> RecordStart" and "octets32 r"
    and "s_bytes_in s \<le> totalIn r" and "s_bytes_out s \<le> totalOut r"
  shows "sessionDeltas r (Some s) =
     (totalIn r, totalIn r - s_bytes_in s, totalOut r, totalOut r - s_bytes_out s)"
  using assms by (simp add: sessionDeltas_def Let_def octets32_def totalIn_def totalOut_def advance_monotone)

lemma sessionDeltas_fresh:
  "row = None \<or> r_RecordType r = RecordStart \<or> (\<exists>s. row = Some s \<and> s_stopped_at s \<noteq> None) \<Longrightarrow>
   sessionDeltas r row = (totalIn r, totalIn r, totalOut r, totalOut r)"
  by (auto simp: sessionDeltas_def Let_def totalIn_def totalOut_def split: option.splits)

lemma accrueUsage_sum:
  assumes "accrueUsage env b dDown dUp evt db = Some db'" and "b_SubscriberID b \<noteq> ''''"
  shows "usageSum up_down (b_SubscriberID b) (db_usage db') =
           usageSum up_down (b_SubscriberID b) (db_usage db) + sint dDown"
    and "usageSum up_up (b_SubscriberID b) (db_usage db') =
           usageSum up_up (b_SubscriberID b) (db_usage db) + sint dUp"
  using accrueUsage_usage [OF assms(1)] assms(2)
  by (auto simp: usageSum_snoc nullUUID_def word_gt_0 split: if_splits)

lemma writeSession_row:
  assumes "writeSession env r b newIn newOut evt row db = Some db'"
    and "r_RecordType r \<in> {RecordStart, RecordInterim, RecordStop}"
  shows "\<exists>s. map_of (db_sessions db') (b_NASID b, r_AcctSessionID r) = Some s
     \<and> s_bytes_in s = newIn \<and> s_bytes_out s = newOut
     \<and> (s_stopped_at s = None \<longleftrightarrow> r_RecordType r \<noteq> RecordStop)"
  using assms
  by (auto simp: writeSession_def writeStart_def writeInterim_def writeStop_def putSession_def
      insertedSession_def update_conv' RecordStart_def RecordInterim_def RecordStop_def
      split: if_splits option.splits bind_splits)

text \<open>One successful record: the row it leaves and the usage it adds.\<close>

lemma upsertSession_effect:
  assumes "upsertSession env r b db = Some (res, db')"
    and "r_RecordType r \<in> {RecordStart, RecordInterim, RecordStop}" and "b_SubscriberID b \<noteq> ''''"
    and "sessionDeltas r (map_of (db_sessions db) (b_NASID b, r_AcctSessionID r)) = (newIn, dUp, newOut, dDown)"
  shows "\<exists>s. map_of (db_sessions db') (b_NASID b, r_AcctSessionID r) = Some s
     \<and> s_bytes_in s = newIn \<and> s_bytes_out s = newOut
     \<and> (s_stopped_at s = None \<longleftrightarrow> r_RecordType r \<noteq> RecordStop)"
    and "usageSum up_down (b_SubscriberID b) (db_usage db') =
           usageSum up_down (b_SubscriberID b) (db_usage db) + sint dDown"
    and "usageSum up_up (b_SubscriberID b) (db_usage db') =
           usageSum up_up (b_SubscriberID b) (db_usage db) + sint dUp"
proof -
  from assms(1) obtain db1 db2
    where w: "writeSession env r b newIn newOut (eventTime (e_timeParse env) r)
           (map_of (db_sessions db) (b_NASID b, r_AcctSessionID r)) db = Some db1"
      and u: "accrueUsage env b dDown dUp (eventTime (e_timeParse env) r) db1 = Some db2"
      and s: "accrueSeconds env r b (map_of (db_sessions db) (b_NASID b, r_AcctSessionID r))
           (eventTime (e_timeParse env) r) db2 = Some db'"
    by (rule upsertSession_stages) (auto simp: assms(4))
  note f = writeSession_frame [OF w] accrueUsage_frame [OF u] accrueSeconds_frame [OF s]
  show "\<exists>s. map_of (db_sessions db') (b_NASID b, r_AcctSessionID r) = Some s
     \<and> s_bytes_in s = newIn \<and> s_bytes_out s = newOut
     \<and> (s_stopped_at s = None \<longleftrightarrow> r_RecordType r \<noteq> RecordStop)"
    using writeSession_row [OF w assms(2)] f by simp
  show "usageSum up_down (b_SubscriberID b) (db_usage db') =
           usageSum up_down (b_SubscriberID b) (db_usage db) + sint dDown"
    "usageSum up_up (b_SubscriberID b) (db_usage db') =
           usageSum up_up (b_SubscriberID b) (db_usage db) + sint dUp"
    using accrueUsage_sum [OF u assms(3)] f by simp_all
qed

lemma sint_diff: "l \<le> c \<Longrightarrow> unat (c :: u64) < 2 ^ 63 \<Longrightarrow> sint (c - l) = int (unat c) - int (unat l)"
proof -
  assume le: "l \<le> c" and c: "unat c < 2 ^ 63"
  then have "unat (c - l) = unat c - unat l" and "unat l \<le> unat c"
    by (simp_all add: unat_sub word_le_nat_alt)
  then show ?thesis using c by (simp add: sint_small of_nat_diff del: of_nat_unat)
qed

definition downOf :: "Binding \<Rightarrow> AcctDB \<Rightarrow> int" where
  "downOf b db = usageSum up_down (b_SubscriberID b) (db_usage db)"

definition upOf :: "Binding \<Rightarrow> AcctDB \<Rightarrow> int" where
  "upOf b db = usageSum up_up (b_SubscriberID b) (db_usage db)"

text \<open>The row of a session that is open with the given totals.\<close>

definition openAt :: "AcctDB \<Rightarrow> sessionKey \<Rightarrow> u64 \<Rightarrow> u64 \<Rightarrow> bool" where
  "openAt db k i out \<longleftrightarrow> (\<exists>s. map_of (db_sessions db) k = Some s
     \<and> s_stopped_at s = None \<and> s_bytes_in s = i \<and> s_bytes_out s = out)"

lemma upsertSession_report:
  assumes "reports acct i out (r # rs)" and "b_SubscriberID b \<noteq> []"
    and "openAt db (b_NASID b, acct) i out" and "upsertSession env r b db = Some (res, db1)"
  shows "downOf b db1 = downOf b db + (int (unat (totalOut r)) - int (unat out))"
    and "upOf b db1 = upOf b db + (int (unat (totalIn r)) - int (unat i))"
    and "rs \<noteq> [] \<Longrightarrow> openAt db1 (b_NASID b, acct) (totalIn r) (totalOut r)"
proof -
  from assms(3) obtain s where s: "map_of (db_sessions db) (b_NASID b, acct) = Some s"
    "s_stopped_at s = None" "s_bytes_in s = i" "s_bytes_out s = out" by (auto simp: openAt_def)
  have ty: "r_RecordType r \<in> {RecordInterim, RecordStop}" "r_RecordType r \<noteq> RecordStart"
    using assms(1) by (auto simp: RecordStart_def RecordInterim_def RecordStop_def)
  have d: "sessionDeltas r (map_of (db_sessions db) (b_NASID b, r_AcctSessionID r)) =
      (totalIn r, totalIn r - i, totalOut r, totalOut r - out)"
    using s assms(1) sessionDeltas_open [of s r] ty by auto
  have ty': "r_RecordType r \<in> {RecordStart, RecordInterim, RecordStop}" using ty by blast
  note e = upsertSession_effect [OF assms(4) ty' assms(2) d]
  show "downOf b db1 = downOf b db + (int (unat (totalOut r)) - int (unat out))"
    "upOf b db1 = upOf b db + (int (unat (totalIn r)) - int (unat i))"
    using e(2,3) assms(1) sint_diff by (simp_all add: downOf_def upOf_def)
  show "openAt db1 (b_NASID b, acct) (totalIn r) (totalOut r)" if "rs \<noteq> []"
    using e(1) assms(1) that by (auto simp: openAt_def RecordInterim_def RecordStop_def)
qed

lemma runRecords_usage:
  assumes "reports acct i out rs" and "b_SubscriberID b \<noteq> []"
    and "openAt db (b_NASID b, acct) i out" and "runRecords env b rs db = Some db'"
  shows "downOf b db' = downOf b db + int (unat (last (out # map totalOut rs))) - int (unat out)
       \<and> upOf b db' = upOf b db + int (unat (last (i # map totalIn rs))) - int (unat i)"
  using assms
proof (induction rs arbitrary: i out db)
  case Nil
  then show ?case by simp
next
  case (Cons r rs)
  from Cons.prems(4) obtain res db1 where u: "upsertSession env r b db = Some (res, db1)"
    and rest: "runRecords env b rs db1 = Some db'" by (auto split: option.splits)
  note step = upsertSession_report [OF Cons.prems(1-3) u]
  show ?case
  proof (cases "rs = []")
    case True
    then show ?thesis using rest step by simp
  next
    case False
    then have "reports acct (totalIn r) (totalOut r) rs" using Cons.prems(1) by auto
    from Cons.IH [OF this Cons.prems(2) step(3) [OF False] rest] step(1,2) False
    show ?thesis by simp
  qed
qed

section \<open>Properties\<close>

definition zeroCounters :: Counters where
  "zeroCounters = \<lparr>c_received = 0, c_enqueued = 0, c_spilled = 0, c_drained = 0, c_persisted = 0,
     c_deduplicated = 0, c_reaped = 0, c_orphan_stops = 0\<rparr>"

definition emptyDB :: AcctDB where
  "emptyDB = \<lparr>db_dedup = [], db_sessions = [], db_usage = [], db_lifetime = (\<lambda>_. None),
     db_counters = zeroCounters\<rparr>"

definition okEnv :: AcctEnv where
  "okEnv = \<lparr>e_fails = (\<lambda>_. False), e_inet = Some, e_timeParse = (\<lambda>_ _. None), e_rate = (\<lambda>_ _. 0)\<rparr>"

definition sampleRecord :: "string \<Rightarrow> u64 \<Rightarrow> gotime \<Rightarrow> Record" where
  "sampleRecord ty n t = \<lparr>r_RecordType = ty, r_NASIP = ''10.0.0.1'', r_AcctSessionID = ''81'',
     r_Username = ''ali'', r_FramedIP = '''', r_CallingStationID = '''', r_CalledStationID = '''',
     r_NASPortType = '''', r_NASPortID = '''', r_ServiceType = '''', r_SessionTime = 0, r_BytesIn = n,
     r_BytesOut = n, r_GigawordsIn = 0, r_GigawordsOut = 0, r_EventTimeRaw = '''',
     r_TerminateCause = '''', r_ReceiptTime = t, r_EventTimeParsed = t\<rparr>"

definition sampleBinding :: Binding where
  "sampleBinding = \<lparr>b_NASID = ''N1'', b_Service = ''pppoe'', b_ServiceID = '''', b_ServiceName = '''',
     b_SubscriberID = ''S1'', b_CardID = ''''\<rparr>"

text \<open>The definitions a concrete run unfolds.\<close>

lemmas record_type_defs = RecordStart_def RecordInterim_def RecordStop_def

lemmas store_eval = upsertSession_def okEnv_def emptyDB_def sampleBinding_def Let_def sessionDeltas_def
  writeSession_def writeStart_def writeInterim_def writeStop_def castIP_def putSession_def
  insertedSession_def accrueUsage_def insertUsagePoint_def incrementLifetimeBytes_def
  accrueSeconds_def incrementLifetimeSeconds_def nullUUID_def coalesce_def sampleRecord_def
  record_type_defs totalBytes_def lowMask_def eventTime_def zeroTime_def advance_def inInt64_def
  pgTime_def wholeSeconds_def timeSub_def second_def

text \<open>Records applied one after the other; a failed one is rolled back.\<close>

fun applyAll :: "(AcctEnv \<times> Record \<times> Binding) list \<Rightarrow> AcctDB \<Rightarrow> AcctDB" where
  "applyAll [] db = db"
| "applyAll ((env, r, b) # xs) db =
     applyAll xs (case upsertSession env r b db of None \<Rightarrow> db | Some (_, db') \<Rightarrow> db')"

lemma applyAll_lifetimeInv: "lifetimeInv db \<Longrightarrow> lifetimeInv (applyAll xs db)"
  by (induction xs db rule: applyAll.induct)
    (auto split: option.splits dest: upsertSession_lifetimeInv)

text \<open>
  C8: usage is conserved over a session. When a start and the following reports of a session are applied
  in order and the NAS's 64-bit counters never decrease, the usage points written for the
  subscriber add up to exactly the last reported counters, in both directions: nothing is counted
  twice and nothing is missed, including across every wrap of the low word.
\<close>

theorem usage_conserved:
  assumes "r_RecordType r0 = RecordStart" and "r_AcctSessionID r0 = acct"
    and "unat (totalIn r0) < 2 ^ 63" and "unat (totalOut r0) < 2 ^ 63"
    and "reports acct (totalIn r0) (totalOut r0) rs" and "b_SubscriberID b \<noteq> []"
    and "runRecords env b (r0 # rs) db = Some db'"
  shows "usageSum up_down (b_SubscriberID b) (db_usage db') =
           usageSum up_down (b_SubscriberID b) (db_usage db) + int (unat (totalOut (last (r0 # rs))))
       \<and> usageSum up_up (b_SubscriberID b) (db_usage db') =
           usageSum up_up (b_SubscriberID b) (db_usage db) + int (unat (totalIn (last (r0 # rs))))"
proof -
  from assms(7) obtain res db1 where u: "upsertSession env r0 b db = Some (res, db1)"
    and rest: "runRecords env b rs db1 = Some db'" by (auto split: option.splits)
  note e = upsertSession_effect [OF u _ assms(6) sessionDeltas_fresh]
  have "openAt db1 (b_NASID b, acct) (totalIn r0) (totalOut r0)"
    using e(1) assms(1,2) by (auto simp: openAt_def RecordStart_def RecordStop_def)
  note r = runRecords_usage [OF assms(5,6) this rest]
  have lst: "last (x # map f rs) = f (last (r0 # rs))" if "x = f r0" for x and f :: "Record \<Rightarrow> u64"
    using that by (simp add: last_map)
  show ?thesis
    using r e(2,3) assms(1,3,4) sint_small lst [of "totalOut r0" totalOut] lst [of "totalIn r0" totalIn]
    by (simp add: downOf_def upOf_def)
qed

theorem usage_conserved_witness:
  "\<exists>db'. runRecords okEnv sampleBinding
      [sampleRecord RecordStart 5 10, sampleRecord RecordInterim 100 20, sampleRecord RecordStop 130 30] emptyDB
      = Some db'
    \<and> usageSum up_down ''S1'' (db_usage db') = 130 \<and> usageSum up_up ''S1'' (db_usage db') = 130"
proof -
  let ?rs = "[sampleRecord RecordInterim 100 20, sampleRecord RecordStop 130 30]"
  have t: "totalIn (sampleRecord ty n t) = totalBytes n 0" "totalOut (sampleRecord ty n t) = totalBytes n 0"
    for ty n t by (simp_all add: totalIn_def totalOut_def sampleRecord_def)
  have b: "totalBytes 5 0 = 5" "totalBytes 100 0 = 100" "totalBytes 130 0 = 130"
    by (simp_all add: totalBytes_def lowMask_def)
  have "reports ''81'' 5 5 ?rs"
    by (simp add: t b) (simp add: sampleRecord_def octets32_def)
  moreover obtain db' where run: "runRecords okEnv sampleBinding (sampleRecord RecordStart 5 10 # ?rs) emptyDB = Some db'"
    by (simp add: store_eval)
  ultimately show ?thesis
    using usage_conserved [OF _ _ _ _ _ _ run, of "''81''"]
    by (simp add: t b) (simp add: sampleRecord_def sampleBinding_def emptyDB_def usageSum_def)
qed

text \<open>
  The lifetime counters of every subscriber are the sums of the usage points ever written for
  them, in both directions, after any sequence of records under any failures (a failed record is
  rolled back).
\<close>

theorem lifetime_is_usage_sum: "lifetimeInv (applyAll xs emptyDB)"
proof -
  have "lifetimeInv emptyDB"
    by (simp add: lifetimeInv_def lifetimeDown_def lifetimeUp_def emptyDB_def usageSum_def)
  then show ?thesis by (rule applyAll_lifetimeInv)
qed

text \<open>
  A record on a closed session is counted from zero. If the session row is closed (by a stop or
  by the reaper) and a later interim or stop of the same session is applied, the usage added is the
  whole reported counter, including the bytes already counted before the close.
\<close>

theorem reopen_counts_from_zero:
  assumes "map_of (db_sessions db) (b_NASID b, r_AcctSessionID r) = Some s" and "s_stopped_at s \<noteq> None"
    and "r_RecordType r \<in> {RecordInterim, RecordStop}" and "b_SubscriberID b \<noteq> []"
    and "unat (totalIn r) < 2 ^ 63" and "unat (totalOut r) < 2 ^ 63"
    and "upsertSession env r b db = Some (res, db')"
  shows "usageSum up_down (b_SubscriberID b) (db_usage db') =
           usageSum up_down (b_SubscriberID b) (db_usage db) + int (unat (totalOut r))
       \<and> usageSum up_up (b_SubscriberID b) (db_usage db') =
           usageSum up_up (b_SubscriberID b) (db_usage db) + int (unat (totalIn r))"
proof -
  have d: "sessionDeltas r (map_of (db_sessions db) (b_NASID b, r_AcctSessionID r)) =
      (totalIn r, totalIn r, totalOut r, totalOut r)"
    using assms(1,2) by (intro sessionDeltas_fresh) simp
  have "r_RecordType r \<in> {RecordStart, RecordInterim, RecordStop}" using assms(3) by blast
  from upsertSession_effect(2,3) [OF assms(7) this assms(4) d] show ?thesis
    using assms(5,6) by (simp add: sint_small)
qed

theorem reopen_counts_from_zero_witness:
  "\<exists>db res db'. runRecords okEnv sampleBinding [sampleRecord RecordStart 5 10, sampleRecord RecordStop 100 20] emptyDB
      = Some db
    \<and> upsertSession okEnv (sampleRecord RecordInterim 130 30) sampleBinding db = Some (res, db')
    \<and> usageSum up_down ''S1'' (db_usage db') = usageSum up_down ''S1'' (db_usage db) + 130"
proof -
  let ?r = "sampleRecord RecordInterim 130 30"
  obtain db where run: "runRecords okEnv sampleBinding
      [sampleRecord RecordStart 5 10, sampleRecord RecordStop 100 20] emptyDB = Some db"
    and row: "\<exists>s. map_of (db_sessions db) (''N1'', ''81'') = Some s \<and> s_stopped_at s \<noteq> None"
    and lt: "\<exists>l. db_lifetime db ''S1'' = Some l \<and> lt_down l = 100 \<and> lt_up l = 100"
    by (simp add: store_eval)
  from row obtain s where s: "map_of (db_sessions db) (''N1'', ''81'') = Some s" "s_stopped_at s \<noteq> None" by blast
  obtain res db' where u: "upsertSession okEnv ?r sampleBinding db = Some (res, db')"
    using s lt
    by (auto simp: upsertSession_def okEnv_def sampleBinding_def Let_def sessionDeltas_def
        writeSession_def writeInterim_def castIP_def putSession_def accrueUsage_def insertUsagePoint_def
        incrementLifetimeBytes_def accrueSeconds_def sampleRecord_def RecordStart_def RecordInterim_def
        RecordStop_def totalBytes_def lowMask_def inInt64_def)
  have "usageSum up_down ''S1'' (db_usage db') = usageSum up_down ''S1'' (db_usage db) + 130"
    using reopen_counts_from_zero [OF _ s(2) _ _ _ _ u] s(1)
    by (simp add: totalIn_def totalOut_def totalBytes_def lowMask_def sampleRecord_def sampleBinding_def)
  with run u show ?thesis by blast
qed

text \<open>
  On a NAS whose enabled instances are all of one kind, every record is filed under that kind, whatever
  hint, Called-Station-Id or missing attribute it carries; and an instance id is only ever one of
  the NAS's own.
\<close>

theorem resolveService_homogeneous:
  assumes "ni_Services n \<noteq> []" and "\<forall>s \<in> set (ni_Services n). si_Service s = k"
  shows "fst (resolveService n r) = k
       \<and> (snd (resolveService n r) \<noteq> [] \<longrightarrow> snd (resolveService n r) \<in> si_ID ` set (ni_Services n))"
proof (cases "ResolveService (serviceQueryOf r) (ni_Services n)")
  case (Some i)
  then have "i \<in> set (ni_Services n)" by (rule mikrotik.resolve_candidate)
  then show ?thesis using Some assms by (auto simp: resolveService_def)
next
  case None
  then show ?thesis
    using assms by (cases "ni_Services n") (auto simp: resolveService_def soleKind_def list_all_iff)
qed

theorem resolveService_homogeneous_witness:
  "fst (resolveService (unknownNas\<lparr>ni_Services := [\<lparr>si_ID = ''a'', si_Service = ''hotspot'', si_ROSServerName = ''h1''\<rparr>,
      \<lparr>si_ID = ''b'', si_Service = ''hotspot'', si_ROSServerName = ''h2''\<rparr>]\<rparr>) (sampleRecord RecordStart 0 0))
   = ''hotspot''"
  using resolveService_homogeneous [of "unknownNas\<lparr>ni_Services :=
      [\<lparr>si_ID = ''a'', si_Service = ''hotspot'', si_ROSServerName = ''h1''\<rparr>,
       \<lparr>si_ID = ''b'', si_Service = ''hotspot'', si_ROSServerName = ''h2''\<rparr>]\<rparr>" "''hotspot''"
      "sampleRecord RecordStart 0 0"] by simp

end
