(* ===== verification/AcctSpill.thy ===== *)
theory AcctSpill
  imports Prelude
begin

text \<open>
  The disk spill of \<^verbatim>\<open>backend/internal/accounting/spill.go\<close>: the line codec (decimal CRC-32, tab, base64,
  newline), the write-ahead log file with its faults (failed seek, torn write, failed fsync), the
  drain loop and its truncation. The parts of Go's \<^verbatim>\<open>encoding/base64\<close>, \<^verbatim>\<open>hash/crc32\<close> and
  \<^verbatim>\<open>bufio.Scanner\<close> the file uses are modelled first.

  The file content is a string; the other fields of \<^verbatim>\<open>spillFile\<close> that carry state are the pending
  counter and the enabled flag. A fault argument says how the file system answers one call.
\<close>

section \<open>CRC-32 (IEEE)\<close>

definition crc32Step :: "u32 \<Rightarrow> u32" where
  "crc32Step c = (if bit c 0 then drop_bit 1 c XOR 0xEDB88320 else drop_bit 1 c)"

definition crc32Byte :: "u32 \<Rightarrow> byte \<Rightarrow> u32" where
  "crc32Byte c b = (crc32Step ^^ 8) (c XOR ucast b)"

definition crc32 :: "bytes \<Rightarrow> u32" where
  "crc32 bs = NOT (foldl crc32Byte (NOT 0) bs)"

section \<open>Base64 (standard encoding, padded)\<close>

definition b64Char :: "nat \<Rightarrow> char" where
  "b64Char v = char_of (if v < 26 then 65 + v else if v < 52 then 71 + v
     else if v < 62 then v - 4 else if v = 62 then 43 else 47 :: nat)"

definition b64Val :: "char \<Rightarrow> nat option" where
  "b64Val c = (let n = of_char c :: nat in
     if 65 \<le> n \<and> n \<le> 90 then Some (n - 65)
     else if 97 \<le> n \<and> n \<le> 122 then Some (n - 71)
     else if 48 \<le> n \<and> n \<le> 57 then Some (n + 4)
     else if n = 43 then Some 62
     else if n = 47 then Some 63 else None)"

fun base64Encode :: "bytes \<Rightarrow> string" where
  "base64Encode [] = []"
| "base64Encode [a] =
     [b64Char (unat a div 4), b64Char (unat a mod 4 * 16), CHR ''='', CHR ''='']"
| "base64Encode [a, b] =
     [b64Char (unat a div 4), b64Char (unat a mod 4 * 16 + unat b div 16),
      b64Char (unat b mod 16 * 4), CHR ''='']"
| "base64Encode (a # b # c # r) =
     [b64Char (unat a div 4), b64Char (unat a mod 4 * 16 + unat b div 16),
      b64Char (unat b mod 16 * 4 + unat c div 64), b64Char (unat c mod 64)] @ base64Encode r"

definition byte1 :: "nat \<Rightarrow> nat \<Rightarrow> byte" where
  "byte1 v0 v1 = of_nat (v0 * 4 + v1 div 16)"

definition byte2 :: "nat \<Rightarrow> nat \<Rightarrow> byte" where
  "byte2 v1 v2 = of_nat (v1 mod 16 * 16 + v2 div 4)"

definition byte3 :: "nat \<Rightarrow> nat \<Rightarrow> byte" where
  "byte3 v2 v3 = of_nat (v2 mod 4 * 64 + v3)"

fun decodeQuads :: "string \<Rightarrow> bytes option" where
  "decodeQuads [] = Some []"
| "decodeQuads (c0 # c1 # c2 # c3 # r) =
     (case (b64Val c0, b64Val c1) of
        (Some v0, Some v1) \<Rightarrow>
          (if c2 = CHR ''='' then
             (if c3 = CHR ''='' \<and> r = [] then Some [byte1 v0 v1] else None)
           else (case b64Val c2 of
               None \<Rightarrow> None
             | Some v2 \<Rightarrow>
                 (if c3 = CHR ''='' then
                    (if r = [] then Some [byte1 v0 v1, byte2 v1 v2] else None)
                  else (case b64Val c3 of
                      None \<Rightarrow> None
                    | Some v3 \<Rightarrow> map_option (\<lambda>t. byte1 v0 v1 # byte2 v1 v2 # byte3 v2 v3 # t)
                                   (decodeQuads r)))))
      | _ \<Rightarrow> None)"
| "decodeQuads _ = None"

definition isCRLF :: "char \<Rightarrow> bool" where
  "isCRLF c \<longleftrightarrow> c = CHR 0x0A \<or> c = CHR 0x0D"

definition base64Decode :: "string \<Rightarrow> bytes option" where
  "base64Decode s = decodeQuads (filter (\<lambda>c. \<not> isCRLF c) s)"

section \<open>The line codec\<close>

definition tabChar :: char where "tabChar = CHR 0x09"
definition nlChar :: char where "nlChar = CHR 0x0A"

definition spillLineBody :: "bytes \<Rightarrow> string" where
  "spillLineBody payload = formatUint (unat (crc32 payload)) @ tabChar # base64Encode payload"

definition encodeSpillLine :: "bytes \<Rightarrow> string" where
  "encodeSpillLine payload = spillLineBody payload @ [nlChar]"

definition decodeSpillLine :: "string \<Rightarrow> bytes option" where
  "decodeSpillLine line =
     (let pre = takeWhile (\<lambda>c. c \<noteq> tabChar) line in
      if length pre = length line then None
      else case parseUint 32 (trimSpace pre) of
        None \<Rightarrow> None
      | Some want \<Rightarrow>
          (case base64Decode (trimSpace (drop (Suc (length pre)) line)) of
             None \<Rightarrow> None
           | Some payload \<Rightarrow> if unat (crc32 payload) = want then Some payload else None))"

section \<open>Reading the file by lines\<close>

definition dropCR :: "string \<Rightarrow> string" where
  "dropCR l = (if l \<noteq> [] \<and> last l = CHR 0x0D then butlast l else l)"

fun scanLinesAux :: "string \<Rightarrow> string \<Rightarrow> string list" where
  "scanLinesAux cur [] = (if cur = [] then [] else [dropCR (rev cur)])"
| "scanLinesAux cur (c # cs) =
     (if c = nlChar then dropCR (rev cur) # scanLinesAux [] cs else scanLinesAux (c # cur) cs)"

definition scanLines :: "string \<Rightarrow> string list" where
  "scanLines s = scanLinesAux [] s"

definition maxTokenSize :: nat where
  "maxTokenSize = 8 * 1024 * 1024"

fun splitNL :: "string \<Rightarrow> string \<Rightarrow> string list" where
  "splitNL cur [] = [rev cur]"
| "splitNL cur (c # cs) = (if c = nlChar then rev cur # splitNL [] cs else splitNL (c # cur) cs)"

definition countLines :: "string \<Rightarrow> nat" where
  "countLines file = length (filter (\<lambda>l. trimSpace l \<noteq> []) (splitNL [] file))"

section \<open>The spill file\<close>

record Spill =
  sp_enabled :: bool
  sp_file :: string
  sp_pendN :: int

datatype spillError = SpillDisabled | SpillIO | SpillPush | SpillTooLong

datatype writeFault = WriteOK | SeekFails | TornWrite nat | SyncFails

datatype truncFault = TruncOK | TruncFails | TruncSyncFails

datatype readFault = ReadOK | ReadNotExist | ReadFails

definition newSpill :: "bool \<Rightarrow> bool \<Rightarrow> string \<Rightarrow> string \<Rightarrow> spillError + Spill" where
  "newSpill mkdirOK openOK dir file =
     (if dir = '''' then Inr \<lparr>sp_enabled = False, sp_file = '''', sp_pendN = 0\<rparr>
      else if \<not> mkdirOK \<or> \<not> openOK then Inl SpillIO
      else Inr \<lparr>sp_enabled = True, sp_file = file, sp_pendN = int (countLines file)\<rparr>)"

definition spillPending :: "Spill \<Rightarrow> int" where
  "spillPending s = sp_pendN s"

definition spillAppend :: "writeFault \<Rightarrow> Spill \<Rightarrow> bytes \<Rightarrow> Spill \<times> spillError option" where
  "spillAppend fault s payload =
     (if \<not> sp_enabled s then (s, Some SpillDisabled)
      else let line = encodeSpillLine payload in
        case fault of
          SeekFails \<Rightarrow> (s, Some SpillIO)
        | TornWrite n \<Rightarrow> (s\<lparr>sp_file := sp_file s @ take n line\<rparr>, Some SpillIO)
        | SyncFails \<Rightarrow> (s\<lparr>sp_file := sp_file s @ line\<rparr>, Some SpillIO)
        | WriteOK \<Rightarrow> (s\<lparr>sp_file := sp_file s @ line, sp_pendN := sp_pendN s + 1\<rparr>, None))"

text \<open>
  \<open>push\<close> is the callback of the drain; it threads its own state and says whether it succeeded.
  The loop returns that state, the number drained, the number of bad lines and its error.
\<close>

fun drainLoop ::
    "(bytes \<Rightarrow> 's \<Rightarrow> 's \<times> bool) \<Rightarrow> string list \<Rightarrow> 's \<Rightarrow> nat \<Rightarrow> nat \<Rightarrow> 's \<times> nat \<times> nat \<times> spillError option"
  where
  "drainLoop push [] st drained bad = (st, drained, bad, None)"
| "drainLoop push (l # ls) st drained bad =
     (if maxTokenSize \<le> length l then (st, drained, bad, Some SpillTooLong)
      else if trimSpace l = [] then drainLoop push ls st drained bad
      else case decodeSpillLine l of
        None \<Rightarrow> drainLoop push ls st drained (Suc bad)
      | Some payload \<Rightarrow>
          (case push payload st of
             (st', False) \<Rightarrow> (st', drained, bad, Some SpillPush)
           | (st', True) \<Rightarrow> drainLoop push ls st' (Suc drained) bad))"

definition spillTruncate :: "truncFault \<Rightarrow> Spill \<Rightarrow> Spill \<times> spillError option" where
  "spillTruncate fault s =
     (case fault of
        TruncFails \<Rightarrow> (s, Some SpillIO)
      | TruncSyncFails \<Rightarrow> (s\<lparr>sp_file := ''''\<rparr>, Some SpillIO)
      | TruncOK \<Rightarrow> (s\<lparr>sp_file := ''''\<rparr>, None))"

definition spillDrain ::
    "readFault \<Rightarrow> truncFault \<Rightarrow> (bytes \<Rightarrow> 's \<Rightarrow> 's \<times> bool) \<Rightarrow> Spill \<Rightarrow> 's \<Rightarrow>
     Spill \<times> 's \<times> nat \<times> nat \<times> spillError option" where
  "spillDrain rf tf push s st =
     (if \<not> sp_enabled s then (s, st, 0, 0, None)
      else case rf of
        ReadNotExist \<Rightarrow> (s, st, 0, 0, None)
      | ReadFails \<Rightarrow> (s, st, 0, 0, Some SpillIO)
      | ReadOK \<Rightarrow>
          (case drainLoop push (scanLines (sp_file s)) st 0 0 of
             (st', d, b, Some e) \<Rightarrow> (s, st', d, b, Some e)
           | (st', d, b, None) \<Rightarrow>
               (case spillTruncate tf s of
                  (s', Some e) \<Rightarrow> (s', st', d, b, Some e)
                | (s', None) \<Rightarrow> (s'\<lparr>sp_pendN := 0\<rparr>, st', d, b, None))))"

section \<open>What a file holds\<close>

text \<open>The intact records of a file, in order, and the files whose last line is complete.\<close>

definition walRecords :: "string \<Rightarrow> bytes list" where
  "walRecords file = List.map_filter decodeSpillLine (scanLines file)"

definition cleanTail :: "string \<Rightarrow> bool" where
  "cleanTail file \<longleftrightarrow> file = [] \<or> last file = nlChar"

section \<open>Lemmas: base64\<close>

lemma b64Char_cases:
  assumes "v < 64"
  shows "b64Val (b64Char v) = Some v" and "b64Char v \<noteq> CHR ''=''"
    and "\<not> isSpaceChar (b64Char v)"
proof -
  have n: "(of_char (b64Char v) :: nat) = (if v < 26 then 65 + v else if v < 52 then 71 + v
     else if v < 62 then v - 4 else if v = 62 then 43 else 47)"
    using assms by (simp add: b64Char_def)
  show "b64Val (b64Char v) = Some v"
    using assms unfolding b64Val_def Let_def n by auto
  show "b64Char v \<noteq> CHR ''=''"
  proof
    assume "b64Char v = CHR ''=''"
    then have "(of_char (b64Char v) :: nat) = 61" by simp
    with n assms show False by (auto split: if_splits)
  qed
  show "\<not> isSpaceChar (b64Char v)"
    unfolding isSpaceChar_def n using assms by auto
qed

lemma byte_bound: "unat (a :: byte) < 256"
  using unsigned_less [of a] by simp

lemma nat_digit_facts:
  fixes a b c :: nat
  assumes "a < 256" "b < 256" "c < 256"
  shows "a div 4 < 64" "a mod 4 * 16 < 64" "a mod 4 * 16 + b div 16 < 64"
    "b mod 16 * 4 < 64" "b mod 16 * 4 + c div 64 < 64" "c mod 64 < 64"
    "(a mod 4 * 16 + b div 16) mod 16 = b div 16" "(a mod 4 * 16 + b div 16) div 16 = a mod 4"
    "(b mod 16 * 4 + c div 64) mod 4 = c div 64" "(b mod 16 * 4 + c div 64) div 4 = b mod 16"
proof -
  have "b div 16 < 16" "c div 64 < 4" "a mod 4 < 4" "b mod 16 < 16"
    using assms by (simp_all add: less_mult_imp_div_less)
  then show "a mod 4 * 16 + b div 16 < 64" "b mod 16 * 4 + c div 64 < 64" "a mod 4 * 16 < 64"
    "b mod 16 * 4 < 64" "(a mod 4 * 16 + b div 16) mod 16 = b div 16"
    "(a mod 4 * 16 + b div 16) div 16 = a mod 4" "(b mod 16 * 4 + c div 64) mod 4 = c div 64"
    "(b mod 16 * 4 + c div 64) div 4 = b mod 16"
    by simp_all
  show "a div 4 < 64" using assms by (simp add: less_mult_imp_div_less)
  show "c mod 64 < 64" by simp
qed

lemmas b64_facts = nat_digit_facts [OF byte_bound byte_bound byte_bound]

lemma byte1_enc: "byte1 (unat a div 4) (unat a mod 4 * 16 + unat b div 16) = a"
  for a b :: byte
  using b64_facts(8) [of a b] by (simp add: byte1_def)

lemma byte1_enc': "byte1 (unat a div 4) (unat a mod 4 * 16) = a"
  for a :: byte
  using byte1_enc [of a 0] by simp

lemma byte2_enc:
  "byte2 (unat a mod 4 * 16 + unat b div 16) (unat b mod 16 * 4 + unat c div 64) = b"
  for a b c :: byte
  using b64_facts(7) [of a b] b64_facts(10) [of b c] by (simp add: byte2_def)

lemma byte2_enc': "byte2 (unat a mod 4 * 16 + unat b div 16) (unat b mod 16 * 4) = b"
  for a b :: byte
  using byte2_enc [of a b 0] by simp

lemma byte3_enc: "byte3 (unat b mod 16 * 4 + unat c div 64) (unat c mod 64) = c"
  for b c :: byte
  using b64_facts(9) [of b c] by (simp add: byte3_def)

lemmas b64_digits = b64Char_cases [OF b64_facts(1)] b64Char_cases [OF b64_facts(2)]
  b64Char_cases [OF b64_facts(3)] b64Char_cases [OF b64_facts(4)]
  b64Char_cases [OF b64_facts(5)] b64Char_cases [OF b64_facts(6)]

lemma decodeQuads_encode: "decodeQuads (base64Encode bs) = Some bs"
  by (induction bs rule: base64Encode.induct)
    (simp_all add: b64_digits byte1_enc byte1_enc' byte2_enc byte2_enc' byte3_enc)

lemma base64Encode_not_space: "list_all (\<lambda>c. \<not> isSpaceChar c) (base64Encode bs)"
  by (induction bs rule: base64Encode.induct) (simp_all add: b64_digits isSpaceChar_def [of "CHR ''=''"])

lemma isCRLF_space: "isCRLF c \<Longrightarrow> isSpaceChar c"
  by (auto simp: isCRLF_def isSpaceChar_def)

lemma tab_space: "isSpaceChar tabChar" and nl_space: "isSpaceChar nlChar"
  by (simp_all add: isSpaceChar_def tabChar_def nlChar_def)

lemma base64_roundtrip: "base64Decode (base64Encode bs) = Some bs"
proof -
  have "filter (\<lambda>c. \<not> isCRLF c) (base64Encode bs) = base64Encode bs"
    using base64Encode_not_space [of bs] by (auto simp: list_all_iff filter_id_conv dest: isCRLF_space)
  then show ?thesis by (simp add: base64Decode_def decodeQuads_encode)
qed

text \<open>Decoding accepts only the alphabet, the padding and line breaks.\<close>

lemma decodeQuads_alphabet:
  "decodeQuads s = Some bs \<Longrightarrow> c \<in> set s \<Longrightarrow> b64Val c \<noteq> None \<or> c = CHR ''=''"
  by (induction s arbitrary: bs rule: decodeQuads.induct) (auto split: option.splits if_splits)

lemma base64Decode_no_tab: "tabChar \<in> set s \<Longrightarrow> base64Decode s = None"
proof (rule ccontr)
  assume t: "tabChar \<in> set s" and "base64Decode s \<noteq> None"
  then obtain bs where "decodeQuads (filter (\<lambda>c. \<not> isCRLF c) s) = Some bs"
    by (auto simp: base64Decode_def)
  from decodeQuads_alphabet [OF this, of tabChar] t show False
    by (simp add: isCRLF_def tabChar_def b64Val_def Let_def)
qed

section \<open>Lemmas: lines\<close>

lemma spillLineBody_no_nl: "nlChar \<notin> set (spillLineBody p)" (is ?nl)
  and spillLineBody_last: "base64Encode p \<noteq> [] \<Longrightarrow> \<not> isSpaceChar (last (spillLineBody p))"
proof -
  have d: "c \<in> set (formatUint n) \<Longrightarrow> \<not> isSpaceChar c" for c n
    using formatUint_digits [of n] by (auto simp: list_all_iff isDigit_not_space)
  have b: "c \<in> set (base64Encode p) \<Longrightarrow> \<not> isSpaceChar c" for c
    using base64Encode_not_space [of p] by (auto simp: list_all_iff)
  show ?nl using d b nl_space by (auto simp: spillLineBody_def tabChar_def nlChar_def)
  show "base64Encode p \<noteq> [] \<Longrightarrow> \<not> isSpaceChar (last (spillLineBody p))"
    using b by (simp add: spillLineBody_def)
qed

lemma takeWhile_formatUint_tab:
  "takeWhile (\<lambda>c. c \<noteq> tabChar) (formatUint n @ tabChar # r) = formatUint n"
proof -
  have "\<forall>c \<in> set (formatUint n). c \<noteq> tabChar"
    using formatUint_digits [of n] tab_space isDigit_not_space by (auto simp: list_all_iff)
  then show ?thesis by (simp add: takeWhile_append2)
qed

lemma crc32_bound: "unat (crc32 p) < 2 ^ 32"
  using unsigned_less [of "crc32 p"] by simp

lemma decode_spillLineBody: "decodeSpillLine (spillLineBody p) = Some p"
proof -
  have "parseUint 32 (formatUint (unat (crc32 p))) = Some (unat (crc32 p))"
    by (rule parseUint_formatUint) (rule crc32_bound)
  moreover have "trimSpace (base64Encode p) = base64Encode p"
    by (rule trimSpace_id_all) (rule base64Encode_not_space)
  ultimately show ?thesis
    by (simp add: decodeSpillLine_def spillLineBody_def Let_def takeWhile_formatUint_tab
        base64_roundtrip)
qed

lemma spillLineBody_last_ne_CR: "dropCR (spillLineBody p) = spillLineBody p"
proof (cases "base64Encode p = []")
  case True
  then show ?thesis by (simp add: dropCR_def spillLineBody_def tabChar_def)
next
  case False
  have "isSpaceChar (CHR 0x0D)" by (simp add: isSpaceChar_def)
  with spillLineBody_last [OF False] show ?thesis by (auto simp: dropCR_def)
qed

lemma scanLinesAux_append_nl:
  "scanLinesAux cur (f @ nlChar # g) = scanLinesAux cur (f @ [nlChar]) @ scanLinesAux [] g"
  by (induction f arbitrary: cur) auto

lemma scanLines_append:
  assumes "cleanTail f"
  shows "scanLines (f @ g) = scanLines f @ scanLines g"
proof (cases "f = []")
  case True
  then show ?thesis by (simp add: scanLines_def)
next
  case False
  with assms have "f = butlast f @ [nlChar]" by (metis append_butlast_last_id cleanTail_def)
  then show ?thesis
    unfolding scanLines_def using scanLinesAux_append_nl [of "[]" "butlast f" g] by (metis append.assoc append_Cons append_Nil)
qed

lemma scanLinesAux_single:
  "nlChar \<notin> set l \<Longrightarrow> scanLinesAux cur (l @ [nlChar]) = [dropCR (rev cur @ l)]"
  by (induction l arbitrary: cur) auto

lemma scanLines_line: "scanLines (encodeSpillLine p) = [spillLineBody p]"
  unfolding scanLines_def encodeSpillLine_def
  by (simp add: scanLinesAux_single spillLineBody_no_nl spillLineBody_last_ne_CR)

lemma walRecords_append: "cleanTail f \<Longrightarrow> walRecords (f @ g) = walRecords f @ walRecords g"
  by (simp add: walRecords_def scanLines_append List.map_filter_def)

lemma walRecords_line: "walRecords (encodeSpillLine p) = [p]"
  by (simp add: walRecords_def scanLines_line decode_spillLineBody List.map_filter_def)

lemma cleanTail_line [simp]: "cleanTail (f @ encodeSpillLine p)"
  by (simp add: cleanTail_def encodeSpillLine_def)

lemma cleanTail_Nil [simp]: "cleanTail []"
  by (simp add: cleanTail_def)

section \<open>The contract of the log\<close>

text \<open>
  \<open>runPush\<close> is what a drain promises to do with the intact records: push them in order, stopping at
  the first failure.
\<close>

fun runPush :: "('p \<Rightarrow> 's \<Rightarrow> 's \<times> bool) \<Rightarrow> 'p list \<Rightarrow> 's \<Rightarrow> 's \<times> bool" where
  "runPush push [] st = (st, True)"
| "runPush push (p # ps) st =
     (case push p st of (st', True) \<Rightarrow> runPush push ps st' | (st', False) \<Rightarrow> (st', False))"

locale durable_log =
  fixes inv :: "'w \<Rightarrow> bool"
    and recs :: "'w \<Rightarrow> 'p list"
    and app :: "'f \<Rightarrow> 'w \<Rightarrow> 'p \<Rightarrow> 'w \<times> 'e option"
    and drn :: "'g \<Rightarrow> ('p \<Rightarrow> 's \<Rightarrow> 's \<times> bool) \<Rightarrow> 'w \<Rightarrow> 's \<Rightarrow> 'w \<times> 's \<times> nat \<times> nat \<times> 'e option"
  assumes app_ok: "inv w \<Longrightarrow> app f w p = (w', None) \<Longrightarrow> inv w' \<and> recs w' = recs w @ [p]"
    and app_keeps: "inv w \<Longrightarrow> app f w p = (w', Some e) \<Longrightarrow> \<exists>t. recs w' = recs w @ t"
    and drn_inv: "inv w \<Longrightarrow> drn g push w st = (w', st', d, b, err) \<Longrightarrow> inv w'"
    and drn_all_or_keep: "inv w \<Longrightarrow> drn g push w st = (w', st', d, b, err) \<Longrightarrow>
           recs w' = recs w \<or> (recs w' = [] \<and> runPush push (recs w) st = (st', True))"
    and drn_prefix: "inv w \<Longrightarrow> drn g push w st = (w', st', d, b, err) \<Longrightarrow>
           \<exists>k. st' = fst (runPush push (take k (recs w)) st)"
begin

lemma appended_survives:
  assumes "inv w" and "app f w p = (w', None)"
  shows "set (recs w') = insert p (set (recs w))"
  using app_ok [OF assms] by auto

lemma append_mono: "inv w \<Longrightarrow> app f w p = (w', e) \<Longrightarrow> set (recs w) \<subseteq> set (recs w')"
  using app_ok app_keeps by (cases e) fastforce+

end

text \<open>A log drained into a store: \<open>has\<close> says that the store holds a record.\<close>

locale log_into_store = durable_log inv recs app drn
  for inv :: "'w \<Rightarrow> bool" and recs :: "'w \<Rightarrow> 'p list"
    and app :: "'f \<Rightarrow> 'w \<Rightarrow> 'p \<Rightarrow> 'w \<times> 'e option"
    and drn :: "'g \<Rightarrow> ('p \<Rightarrow> 's \<Rightarrow> 's \<times> bool) \<Rightarrow> 'w \<Rightarrow> 's \<Rightarrow> 'w \<times> 's \<times> nat \<times> nat \<times> 'e option" +
  fixes has :: "'s \<Rightarrow> 'p \<Rightarrow> bool" and push :: "'p \<Rightarrow> 's \<Rightarrow> 's \<times> bool"
  assumes push_adds: "push p st = (st', True) \<Longrightarrow> has st' p"
    and push_keeps: "push p st = (st', ok) \<Longrightarrow> has st q \<Longrightarrow> has st' q"
begin

lemma runPush_keeps: "runPush push ps st = (st', ok) \<Longrightarrow> has st q \<Longrightarrow> has st' q"
  by (induction ps arbitrary: st) (auto split: prod.splits bool.splits dest: push_keeps)

lemma runPush_adds: "runPush push ps st = (st', True) \<Longrightarrow> p \<in> set ps \<Longrightarrow> has st' p"
  by (induction ps arbitrary: st)
    (auto split: prod.splits bool.splits dest: push_adds intro: runPush_keeps)

lemma drain_keeps:
  assumes "inv w" and "drn g push w st = (w', st', d, b, e)" and "has st q"
  shows "has st' q"
  using drn_prefix [OF assms(1,2)] assms(3) by (metis prod.collapse runPush_keeps)

lemma drain_loses_nothing:
  assumes "inv w" and "drn g push w st = (w', st', d, b, e)" and "p \<in> set (recs w) \<or> has st p"
  shows "p \<in> set (recs w') \<or> has st' p"
  using assms(3) drn_all_or_keep [OF assms(1,2)]
  by (elim disjE) (auto dest: drain_keeps [OF assms(1,2)] runPush_adds)

end

section \<open>The spill file keeps the contract\<close>

lemma decode_blank: "trimSpace l = [] \<Longrightarrow> decodeSpillLine l = None"
proof -
  assume "trimSpace l = []"
  then have "trimSpace (takeWhile (\<lambda>c. c \<noteq> tabChar) l) = []"
    unfolding trimSpace_Nil_iff using set_takeWhileD by fastforce
  then show ?thesis by (simp add: decodeSpillLine_def Let_def parseUint_def)
qed

lemma drainLoop_spec:
  assumes "drainLoop push ls st d b = (st', d', b', e)"
  shows "(e = None \<longrightarrow> runPush push (List.map_filter decodeSpillLine ls) st = (st', True)
            \<and> d' = d + length (List.map_filter decodeSpillLine ls))
         \<and> (\<exists>k. st' = fst (runPush push (take k (List.map_filter decodeSpillLine ls)) st))"
  using assms
proof (induction ls arbitrary: st d b)
  case Nil
  then show ?case by (auto simp: List.map_filter_def)
next
  case (Cons l ls)
  let ?ps = "List.map_filter decodeSpillLine ls"
  consider (long) "maxTokenSize \<le> length l"
    | (blank) "\<not> maxTokenSize \<le> length l" "trimSpace l = []"
    | (bad) "\<not> maxTokenSize \<le> length l" "trimSpace l \<noteq> []" "decodeSpillLine l = None"
    | (good) p where "\<not> maxTokenSize \<le> length l" "trimSpace l \<noteq> []" "decodeSpillLine l = Some p"
    by blast
  then show ?case
  proof cases
    case long
    then show ?thesis using Cons.prems by (auto intro!: exI [of _ 0])
  next
    case blank
    then show ?thesis
      using Cons.prems Cons.IH [of st d b] decode_blank [OF blank(2)] by (simp add: List.map_filter_def)
  next
    case bad
    then show ?thesis using Cons.prems Cons.IH [of st d "Suc b"] by (simp add: List.map_filter_def)
  next
    case (good p)
    then have ps: "List.map_filter decodeSpillLine (l # ls) = p # ?ps"
      by (simp add: List.map_filter_def)
    obtain st1 ok where push: "push p st = (st1, ok)" by (cases "push p st")
    show ?thesis
    proof (cases ok)
      case False
      with good push Cons.prems ps show ?thesis by (auto intro!: exI [of _ 1])
    next
      case True
      with good push Cons.prems have "drainLoop push ls st1 (Suc d) b = (st', d', b', e)" by simp
      from Cons.IH [OF this] push True ps show ?thesis
        by (auto intro: exI [of _ "Suc _"])
    qed
  qed
qed

abbreviation spillInv :: "Spill \<Rightarrow> bool" where
  "spillInv s \<equiv> cleanTail (sp_file s)"

abbreviation spillRecs :: "Spill \<Rightarrow> bytes list" where
  "spillRecs s \<equiv> walRecords (sp_file s)"

abbreviation spillDrainF ::
    "readFault \<times> truncFault \<Rightarrow> (bytes \<Rightarrow> 's \<Rightarrow> 's \<times> bool) \<Rightarrow> Spill \<Rightarrow> 's \<Rightarrow>
     Spill \<times> 's \<times> nat \<times> nat \<times> spillError option" where
  "spillDrainF f \<equiv> spillDrain (fst f) (snd f)"

lemma walRecords_Nil [simp]: "walRecords [] = []"
  by (simp add: walRecords_def scanLines_def List.map_filter_def)

lemma spillDrain_cases:
  assumes "spillDrain rf tf push s st = (s', st', d, b, e)"
  shows "s' = s \<and> st' = st \<and> d = 0
    \<or> (\<exists>e'. drainLoop push (scanLines (sp_file s)) st 0 0 = (st', d, b, Some e') \<and> e = Some e' \<and> s' = s)
    \<or> (drainLoop push (scanLines (sp_file s)) st 0 0 = (st', d, b, None)
        \<and> (s' = s \<or> (sp_file s' = '''' \<and> sp_enabled s' = sp_enabled s)))"
  using assms
  by (auto simp: spillDrain_def spillTruncate_def split: if_splits readFault.splits
      prod.splits option.splits truncFault.splits)

interpretation spill: durable_log spillInv spillRecs spillAppend spillDrainF
proof
  fix w :: Spill and f p w' assume "spillInv w" and a: "spillAppend f w p = (w', None)"
  then show "spillInv w' \<and> spillRecs w' = spillRecs w @ [p]"
    by (auto simp: spillAppend_def Let_def walRecords_append walRecords_line
        split: if_splits writeFault.splits)
next
  fix w :: Spill and f p w' e assume "spillInv w" and a: "spillAppend f w p = (w', Some e)"
  then show "\<exists>t. spillRecs w' = spillRecs w @ t"
    by (auto simp: spillAppend_def Let_def walRecords_append split: if_splits writeFault.splits)
next
  fix g and push :: "bytes \<Rightarrow> 's \<Rightarrow> 's \<times> bool" and w :: Spill and st w' st' d b e
  assume i: "spillInv w" and d: "spillDrainF g push w st = (w', st', d, b, e)"
  note c = spillDrain_cases [OF d]
  show "spillInv w'" using c i by auto
  show "spillRecs w' = spillRecs w \<or> spillRecs w' = [] \<and> runPush push (spillRecs w) st = (st', True)"
    using c by (elim disjE) (auto dest!: drainLoop_spec simp: walRecords_def [of "sp_file w"])
  show "\<exists>k. st' = fst (runPush push (take k (spillRecs w)) st)"
    using c
  proof (elim disjE exE conjE)
    assume "st' = st"
    then show ?thesis by (auto intro!: exI [of _ 0])
  qed (auto dest!: drainLoop_spec simp: walRecords_def [of "sp_file w"])
qed

section \<open>Properties\<close>

definition appendAll :: "Spill \<Rightarrow> bytes list \<Rightarrow> Spill" where
  "appendAll s ps = foldl (\<lambda>s p. fst (spillAppend WriteOK s p)) s ps"

lemma appendAll_spec:
  "sp_enabled s \<Longrightarrow> cleanTail (sp_file s) \<Longrightarrow>
   sp_enabled (appendAll s ps) \<and> cleanTail (sp_file (appendAll s ps))
   \<and> scanLines (sp_file (appendAll s ps)) = scanLines (sp_file s) @ map spillLineBody ps"
proof (induction ps arbitrary: s)
  case Nil
  then show ?case by (simp add: appendAll_def)
next
  case (Cons p ps)
  let ?s1 = "fst (spillAppend WriteOK s p)"
  have "sp_enabled ?s1" and "sp_file ?s1 = sp_file s @ encodeSpillLine p"
    using Cons.prems(1) by (simp_all add: spillAppend_def Let_def)
  with Cons.IH [of ?s1] Cons.prems(2) show ?case
    by (simp add: appendAll_def scanLines_append scanLines_line)
qed

lemma drainLoop_total:
  assumes "\<forall>l \<in> set ls. length l < maxTokenSize" and "\<forall>p st. snd (push p st)"
  shows "\<exists>b'. drainLoop push ls st d b =
     (foldl (\<lambda>st p. fst (push p st)) st (List.map_filter decodeSpillLine ls),
      d + length (List.map_filter decodeSpillLine ls), b', None)"
  using assms(1)
proof (induction ls arbitrary: st d b)
  case Nil
  then show ?case by (simp add: List.map_filter_def)
next
  case (Cons l ls)
  then have short: "\<not> maxTokenSize \<le> length l" and tail: "\<forall>l \<in> set ls. length l < maxTokenSize"
    by auto
  note IH = Cons.IH [OF tail]
  show ?case
  proof (cases "decodeSpillLine l")
    case None
    then show ?thesis
      using short IH [of st d b] IH [of st d "Suc b"] by (simp add: List.map_filter_def)
  next
    case (Some p)
    then have nb: "trimSpace l \<noteq> []" using decode_blank by fastforce
    obtain st1 where "push p st = (st1, True)" using assms(2) by (metis prod.collapse)
    with Some short nb IH [of st1 "Suc d" b] show ?thesis by (simp add: List.map_filter_def)
  qed
qed

lemma map_filter_bodies: "List.map_filter decodeSpillLine (map spillLineBody ps) = ps"
  by (induction ps) (simp_all add: List.map_filter_def decode_spillLineBody)

text \<open>
  C33: a spill line decodes to exactly the payload it was made from, for every payload: the decimal
  CRC-32, the tab, the base64 body and the newline are read back without loss, and the
  checksum test accepts them.
\<close>

theorem spill_line_roundtrip: "decodeSpillLine (butlast (encodeSpillLine payload)) = Some payload"
  by (simp add: encodeSpillLine_def decode_spillLineBody)

text \<open>
  A drain replays everything. From any spill file whose last line is complete, after any number
  of successful appends, a drain whose pushes succeed pushes the records that were in the file
  and then the appended payloads, each once and in order, and leaves an empty file with
  no pending records.
\<close>

theorem spill_replay_complete:
  assumes "sp_enabled s" and "cleanTail (sp_file s)"
    and "\<forall>l \<in> set (scanLines (sp_file s)). length l < maxTokenSize"
    and "\<forall>p \<in> set ps. length (spillLineBody p) < maxTokenSize"
    and "\<forall>p st. snd (push p st)"
  shows "\<exists>s' bad. spillDrain ReadOK TruncOK push (appendAll s ps) st =
     (s', foldl (\<lambda>st p. fst (push p st)) st (walRecords (sp_file s) @ ps),
      length (walRecords (sp_file s) @ ps), bad, None)
     \<and> sp_file s' = '''' \<and> sp_pendN s' = 0"
proof -
  note a = appendAll_spec [OF assms(1,2), of ps]
  have "\<forall>l \<in> set (scanLines (sp_file (appendAll s ps))). length l < maxTokenSize"
    using a assms(3,4) by auto
  moreover have "List.map_filter decodeSpillLine (scanLines (sp_file (appendAll s ps)))
      = walRecords (sp_file s) @ ps"
    using a map_filter_bodies [of ps] by (simp add: walRecords_def List.map_filter_def)
  ultimately obtain bad where "drainLoop push (scanLines (sp_file (appendAll s ps))) st 0 0 =
     (foldl (\<lambda>st p. fst (push p st)) st (walRecords (sp_file s) @ ps),
      length (walRecords (sp_file s) @ ps), bad, None)"
    using drainLoop_total [OF _ assms(5), of "scanLines (sp_file (appendAll s ps))" st 0 0] by auto
  with a show ?thesis by (auto simp: spillDrain_def spillTruncate_def)
qed

theorem spill_replay_complete_witness:
  "\<exists>s' bad. spillDrain ReadOK TruncOK (\<lambda>p st. (st @ [p], True))
      (appendAll \<lparr>sp_enabled = True, sp_file = '''', sp_pendN = 0\<rparr> [[1], []]) [] =
     (s', [[1], []], 2, bad, None) \<and> sp_file s' = '''' \<and> sp_pendN s' = 0"
proof -
  have "length (formatUint (unat (crc32 bs))) \<le> Suc 9" for bs
    using crc32_bound [of bs] by (intro formatUint_length) simp
  from this [of "[1]"] this [of "[]"] have "\<forall>p \<in> set [[1], [] :: bytes]. length (spillLineBody p) < maxTokenSize"
    by (simp add: spillLineBody_def maxTokenSize_def)
  from spill_replay_complete [of "\<lparr>sp_enabled = True, sp_file = '''', sp_pendN = 0\<rparr>" "[[1], []]"
      "\<lambda>p st. (st @ [p], True)" "[]", OF _ _ _ this]
  show ?thesis by (simp add: scanLines_def numeral_2_eq_2)
qed

text \<open>
  A torn append takes the next record with it. If a write of \<open>q\<close> is cut short after the checksum
  and before the newline (the request is answered with an error), and a later append of a
  non-empty payload \<open>p\<close> succeeds (so that request is acknowledged), then the two share one line that does
  not decode: the records a drain replays are those from before both, and the acknowledged \<open>p\<close> is
  skipped as a corrupt line. The payloads may be equal, as in a NAS retransmit.
\<close>

theorem torn_append_loses_next:
  assumes "sp_enabled s" and "cleanTail (sp_file s)" and "p \<noteq> []"
    and "length (formatUint (unat (crc32 q))) < n" and "n < length (encodeSpillLine q)"
    and "spillAppend (TornWrite n) s q = (s1, Some err)"
    and "spillAppend WriteOK s1 p = (s2, None)"
  shows "walRecords (sp_file s2) = walRecords (sp_file s)"
proof -
  define d where "d = formatUint (unat (crc32 q))"
  define m where "m = n - Suc (length d)"
  define t where "t = take m (base64Encode q)"
  define r where "r = t @ spillLineBody p"
  have line: "encodeSpillLine q = d @ tabChar # base64Encode q @ [nlChar]"
    by (simp add: encodeSpillLine_def spillLineBody_def d_def)
  have "m \<le> length (base64Encode q)" using assms(4,5) by (simp add: line m_def d_def)
  moreover have "n = length d + Suc m" using assms(4) by (simp add: m_def d_def)
  ultimately have torn: "take n (encodeSpillLine q) = d @ tabChar # t" by (simp add: line t_def)
  have b: "base64Encode p \<noteq> []" using assms(3) by (cases p rule: base64Encode.cases) auto
  have content: "sp_file s2 = sp_file s @ (d @ tabChar # r) @ [nlChar]"
    using assms(1,6,7) by (auto simp: spillAppend_def Let_def torn r_def encodeSpillLine_def [of p])
  have sp: "\<forall>c \<in> set (base64Encode q) \<union> set (formatUint k). \<not> isSpaceChar c" for k
    using base64Encode_not_space [of q] formatUint_digits [of k] isDigit_not_space
    by (auto simp: list_all_iff)
  have "\<not> isSpaceChar (hd r)"
  proof (cases "t = []")
    case True
    then have "hd r = hd (formatUint (unat (crc32 p)))" by (simp add: r_def spillLineBody_def)
    then show ?thesis using sp [of "unat (crc32 p)"] hd_in_set [OF formatUint_nonempty] by auto
  next
    case False
    then have "hd r \<in> set (base64Encode q)" by (metis hd_append2 hd_in_set in_set_takeD r_def t_def)
    then show ?thesis using sp by auto
  qed
  moreover have "\<not> isSpaceChar (last r)" using spillLineBody_last [OF b] by (simp add: r_def spillLineBody_def)
  ultimately have "trimSpace r = r" by (intro trimSpace_id) auto
  moreover have "tabChar \<in> set r" by (simp add: r_def spillLineBody_def)
  ultimately have bad: "decodeSpillLine (d @ tabChar # r) = None"
    by (simp add: decodeSpillLine_def Let_def d_def takeWhile_formatUint_tab base64Decode_no_tab
        split: option.splits)
  have nl: "nlChar \<notin> set (d @ tabChar # r)"
    using sp spillLineBody_no_nl [of p] nl_space
    by (auto simp: d_def r_def t_def tabChar_def nlChar_def dest!: in_set_takeD)
  have "dropCR (d @ tabChar # r) = d @ tabChar # r"
    using \<open>\<not> isSpaceChar (last r)\<close> by (auto simp: dropCR_def r_def spillLineBody_def isSpaceChar_def tabChar_def)
  then have "scanLines ((d @ tabChar # r) @ [nlChar]) = [d @ tabChar # r]"
    using scanLinesAux_single [OF nl, of "[]"] by (simp add: scanLines_def)
  with bad have "walRecords ((d @ tabChar # r) @ [nlChar]) = []"
    by (simp add: walRecords_def List.map_filter_def)
  then show ?thesis using walRecords_append [OF assms(2)] by (simp add: content)
qed

theorem torn_append_loses_next_witness:
  "let n = Suc (length (formatUint (unat (crc32 [1]))));
       s1 = fst (spillAppend (TornWrite n) \<lparr>sp_enabled = True, sp_file = '''', sp_pendN = 0\<rparr> [1])
   in snd (spillAppend WriteOK s1 [1]) = None
      \<and> walRecords (sp_file (fst (spillAppend WriteOK s1 [1]))) = []"
proof -
  let ?s = "\<lparr>sp_enabled = True, sp_file = '''', sp_pendN = 0\<rparr>"
  let ?n = "Suc (length (formatUint (unat (crc32 [1]))))"
  let ?s1 = "fst (spillAppend (TornWrite ?n) ?s [1])"
  have "walRecords (sp_file (fst (spillAppend WriteOK ?s1 [1]))) = walRecords (sp_file ?s)"
    by (rule torn_append_loses_next [of ?s "[1]" "[1]" ?n ?s1 SpillIO])
      (simp_all add: spillAppend_def Let_def encodeSpillLine_def spillLineBody_def)
  then show ?thesis by (simp add: spillAppend_def Let_def)
qed

end
