(* ===== verification/AcctService.thy ===== *)
theory AcctService
  imports AcctStore AcctSpill
begin

text \<open>
  The hikrad-acct service of \<^verbatim>\<open>backend/internal/accounting\<close>: its state, the ingest handler (\<^verbatim>\<open>ingest.go\<close>), the
  stream queue (\<^verbatim>\<open>queue.go\<close>), the audit counters (\<^verbatim>\<open>counters.go\<close>), the stream consumer (\<^verbatim>\<open>consumer.go\<close>), the
  quota flag (\<^verbatim>\<open>quota.go\<close>), the reaper (\<^verbatim>\<open>reaper.go\<close>), the spill drainer and the boot (\<^verbatim>\<open>server.go\<close>).

  The Redis stream is the list of its entries in id order, with the consumer group's
  last delivered id and the pending list of the one consumer. Every answer of Redis,
  PostgreSQL and the file system is an argument: whether a call succeeded, failed, or took
  effect although the caller saw an error.
\<close>

section \<open>State\<close>

record Svc =
  sv_ctr :: Counters
  sv_db :: AcctDB
  sv_live :: Live
  sv_quota :: "string \<Rightarrow> bool"
  sv_viewMissingUntil :: int
  sv_nasCache :: nasCache
  sv_spill :: Spill
  sv_stream :: "(nat \<times> bytes) list"
  sv_pel :: "nat list"
  sv_lastDelivered :: nat
  sv_nextID :: nat
  sv_redisReceived :: int
  sv_redisEnqueued :: int
  sv_backlog :: bool

section \<open>The stream\<close>

datatype addOutcome = AddOK | AddFails | AddFailsLanded

definition xadd :: "bytes \<Rightarrow> Svc \<Rightarrow> Svc" where
  "xadd payload sv = sv\<lparr>sv_stream := sv_stream sv @ [(sv_nextID sv, payload)], sv_nextID := Suc (sv_nextID sv)\<rparr>"

definition enqueueStream :: "addOutcome \<Rightarrow> bytes \<Rightarrow> Svc \<Rightarrow> Svc \<times> bool" where
  "enqueueStream ao payload sv =
     (case ao of AddOK \<Rightarrow> (xadd payload sv, True)
      | AddFails \<Rightarrow> (sv, False)
      | AddFailsLanded \<Rightarrow> (xadd payload sv, False))"

definition readCount :: nat where "readCount = 128"

text \<open>One read of the consumer: its own pending entries (id 0), or entries never delivered (id >).\<close>

definition pendingEntries :: "Svc \<Rightarrow> (nat \<times> bytes) list" where
  "pendingEntries sv = filter (\<lambda>e. fst e \<in> set (sv_pel sv)) (sv_stream sv)"

definition newEntries :: "Svc \<Rightarrow> (nat \<times> bytes) list" where
  "newEntries sv = filter (\<lambda>e. sv_lastDelivered sv < fst e) (sv_stream sv)"

definition xreadgroup :: "Svc \<Rightarrow> (nat \<times> bytes) list \<times> Svc" where
  "xreadgroup sv =
     (if sv_backlog sv then (take readCount (pendingEntries sv), sv)
      else let msgs = take readCount (newEntries sv) in
        (msgs, if msgs = [] then sv
               else sv\<lparr>sv_pel := sv_pel sv @ map fst msgs, sv_lastDelivered := fst (last msgs)\<rparr>))"

datatype ackOutcome = AckDone | AckAbandoned | AckWithoutDelete

definition ackDelete :: "ackOutcome \<Rightarrow> nat \<Rightarrow> Svc \<Rightarrow> Svc" where
  "ackDelete ao i sv =
     (case ao of
        AckDone \<Rightarrow> sv\<lparr>sv_pel := removeAll i (sv_pel sv),
                       sv_stream := filter (\<lambda>e. fst e \<noteq> i) (sv_stream sv)\<rparr>
      | AckAbandoned \<Rightarrow> sv
      | AckWithoutDelete \<Rightarrow> sv\<lparr>sv_pel := removeAll i (sv_pel sv)\<rparr>)"

section \<open>Counters\<close>

record CounterSnapshot =
  cs_counters :: Counters
  cs_InQueue :: int
  cs_InvariantOK :: bool

definition snapshot :: "Counters \<Rightarrow> int \<Rightarrow> CounterSnapshot" where
  "snapshot c inQueue =
     \<lparr>cs_counters = c, cs_InQueue = inQueue,
      cs_InvariantOK = (c_received c - c_deduplicated c - inQueue = c_persisted c)\<rparr>"

definition inQueue :: "bool \<Rightarrow> Svc \<Rightarrow> int" where
  "inQueue redisUp sv = (if redisUp then int (length (sv_stream sv)) else 0) + spillPending (sv_spill sv)"

definition loadCounters :: "bool \<Rightarrow> Svc \<Rightarrow> Counters" where
  "loadCounters redisUp sv =
     (let c = db_counters (sv_db sv);
          rr = (if redisUp then sv_redisReceived sv else 0);
          re = (if redisUp then sv_redisEnqueued sv else 0)
      in c\<lparr>c_received := (if rr > c_received c then rr else c_received c),
           c_enqueued := (if re > c_enqueued c then re else c_enqueued c)\<rparr>)"

definition flushCounters :: "bool \<Rightarrow> Svc \<Rightarrow> Svc" where
  "flushCounters fails sv =
     (if fails then sv
      else sv\<lparr>sv_db := (sv_db sv)\<lparr>db_counters := (db_counters (sv_db sv))
        \<lparr>c_received := c_received (sv_ctr sv), c_enqueued := c_enqueued (sv_ctr sv),
         c_spilled := c_spilled (sv_ctr sv), c_drained := c_drained (sv_ctr sv)\<rparr>\<rparr>\<rparr>)"

definition bumpPersistedInTx :: "bool \<Rightarrow> bool \<Rightarrow> AcctDB \<Rightarrow> AcctDB option" where
  "bumpPersistedInTx fails orphan db =
     (if fails then None
      else let c = db_counters db in
        Some (db\<lparr>db_counters := (if orphan
          then c\<lparr>c_persisted := c_persisted c + 1, c_orphan_stops := c_orphan_stops c + 1\<rparr>
          else c\<lparr>c_persisted := c_persisted c + 1\<rparr>)\<rparr>))"

definition bumpDeduplicated :: "bool \<Rightarrow> AcctDB \<Rightarrow> AcctDB" where
  "bumpDeduplicated fails db =
     (if fails then db
      else db\<lparr>db_counters := (db_counters db)\<lparr>c_deduplicated := c_deduplicated (db_counters db) + 1\<rparr>\<rparr>)"

definition bumpReaped :: "bool \<Rightarrow> AcctDB \<Rightarrow> AcctDB" where
  "bumpReaped fails db =
     (if fails then db
      else db\<lparr>db_counters := (db_counters db)\<lparr>c_reaped := c_reaped (db_counters db) + 1\<rparr>\<rparr>)"

section \<open>Ingest\<close>

datatype httpStatus = NoContent204 | BadRequest400 | MethodNotAllowed405 | InternalError500 | Unavailable503

definition maxBodyBytes :: nat where "maxBodyBytes = 64 * 1024"

definition durablyEnqueue ::
    "addOutcome \<Rightarrow> bool \<Rightarrow> writeFault \<Rightarrow> bytes \<Rightarrow> Svc \<Rightarrow> Svc \<times> bool" where
  "durablyEnqueue ao bumpOK fault payload sv =
     (case enqueueStream ao payload sv of
        (sv1, True) \<Rightarrow>
          (sv1\<lparr>sv_ctr := (sv_ctr sv1)\<lparr>c_enqueued := c_enqueued (sv_ctr sv1) + 1\<rparr>,
               sv_redisEnqueued := sv_redisEnqueued sv1 + (if bumpOK then 1 else 0)\<rparr>, True)
      | (sv1, False) \<Rightarrow>
          (case spillAppend fault (sv_spill sv1) payload of
             (sp, Some e) \<Rightarrow> (sv1\<lparr>sv_spill := sp\<rparr>, False)
           | (sp, None) \<Rightarrow>
               (sv1\<lparr>sv_spill := sp, sv_ctr := (sv_ctr sv1)\<lparr>c_spilled := c_spilled (sv_ctr sv1) + 1\<rparr>\<rparr>, True)))"

record IngestEnv =
  i_post :: bool
  i_bodyOK :: bool
  i_now :: gotime
  i_bumpReceivedOK :: bool
  i_bumpEnqueuedOK :: bool
  i_add :: addOutcome
  i_write :: writeFault

definition ingestHandler ::
    "(bytes \<Rightarrow> Record option) \<Rightarrow> (Record \<Rightarrow> bytes option) \<Rightarrow> (string \<Rightarrow> string \<Rightarrow> gotime option) \<Rightarrow>
     IngestEnv \<Rightarrow> bytes \<Rightarrow> Svc \<Rightarrow> httpStatus \<times> Svc" where
  "ingestHandler unmarshal marshal timeParse ie body sv =
     (if \<not> i_post ie then (MethodNotAllowed405, sv)
      else if \<not> i_bodyOK ie then (BadRequest400, sv)
      else case parseRecord unmarshal timeParse (take maxBodyBytes body) (i_now ie) of
        Inl e \<Rightarrow> (BadRequest400, sv)
      | Inr r \<Rightarrow>
          (let sv1 = sv\<lparr>sv_ctr := (sv_ctr sv)\<lparr>c_received := c_received (sv_ctr sv) + 1\<rparr>,
                        sv_redisReceived := sv_redisReceived sv + (if i_bumpReceivedOK ie then 1 else 0)\<rparr>
           in case marshal r of
                None \<Rightarrow> (InternalError500, sv1)
              | Some payload \<Rightarrow>
                  (case durablyEnqueue (i_add ie) (i_bumpEnqueuedOK ie) (i_write ie) payload sv1 of
                     (sv2, True) \<Rightarrow> (NoContent204, sv2)
                   | (sv2, False) \<Rightarrow> (Unavailable503, sv2))))"

section \<open>Quota\<close>

record QuotaConfig =
  qc_Mode :: string
  qc_TotalBytes :: int
  qc_DownBytes :: int
  qc_UpBytes :: int
  qc_CycleAnchor :: gotime

datatype quotaRead = QuotaRow QuotaConfig | QuotaNoRow | QuotaNoView | QuotaError

definition viewReprobe :: duration where "viewReprobe = 5 * minute"

definition quotaUsage :: "(UsagePoint \<Rightarrow> int) \<Rightarrow> string \<Rightarrow> gotime \<Rightarrow> UsagePoint list \<Rightarrow> int" where
  "quotaUsage f sub anchor us = sum_list (map f (filter (\<lambda>u.
     up_subscriber u = Some sub \<and> up_service u \<noteq> ''hotspot'' \<and> pgTime anchor \<le> up_time u) us))"

definition quotaExhausted :: "QuotaConfig \<Rightarrow> int \<Rightarrow> int \<Rightarrow> bool" where
  "quotaExhausted cfg down up =
     (if qc_Mode cfg = ''total'' then qc_TotalBytes cfg > 0 \<and> wrap64 (down + up) \<ge> qc_TotalBytes cfg
      else if qc_Mode cfg = ''split'' then
        qc_DownBytes cfg > 0 \<and> down \<ge> qc_DownBytes cfg \<or> qc_UpBytes cfg > 0 \<and> up \<ge> qc_UpBytes cfg
      else False)"

text \<open>The result is \<open>((exhausted, evaluated), viewMissingUntil)\<close>.\<close>

definition quotaEvaluate ::
    "quotaRead \<Rightarrow> bool \<Rightarrow> gotime \<Rightarrow> int \<Rightarrow> string \<Rightarrow> UsagePoint list \<Rightarrow> (bool \<times> bool) \<times> int" where
  "quotaEvaluate qr usageFails now until sub us =
     (if sub = '''' then ((False, False), until)
      else if until \<noteq> 0 \<and> now < until then ((False, False), until)
      else case qr of
        QuotaNoView \<Rightarrow> ((False, False), now + viewReprobe)
      | QuotaError \<Rightarrow> ((False, False), until)
      | QuotaNoRow \<Rightarrow> ((False, True), 0)
      | QuotaRow cfg \<Rightarrow>
          (if qc_Mode cfg = '''' \<or> qc_Mode cfg = ''unlimited'' then ((False, True), 0)
           else let down = quotaUsage up_down sub (qc_CycleAnchor cfg) us;
                    up = quotaUsage up_up sub (qc_CycleAnchor cfg) us
             in if usageFails \<or> \<not> inInt64 down \<or> \<not> inInt64 up then ((False, False), 0)
                else ((quotaExhausted cfg down up, True), 0)))"

definition applyQuota :: "quotaRead \<Rightarrow> bool \<Rightarrow> gotime \<Rightarrow> bool \<Rightarrow> string \<Rightarrow> Svc \<Rightarrow> Svc" where
  "applyQuota qr usageFails now redisUp sub sv =
     (if sub = '''' then sv
      else case quotaEvaluate qr usageFails now (sv_viewMissingUntil sv) sub (db_usage (sv_db sv)) of
        ((exhausted, evaluated), until) \<Rightarrow>
          (let sv1 = sv\<lparr>sv_viewMissingUntil := until\<rparr> in
           if \<not> evaluated \<or> \<not> redisUp then sv1
           else sv1\<lparr>sv_quota := (sv_quota sv1)(sub := exhausted)\<rparr>))"

section \<open>The consumer\<close>

datatype commitOutcome = Committed | RolledBack | CommittedUnseen

record MsgEnv =
  m_env :: AcctEnv
  m_queryNas :: "string \<Rightarrow> nasLookup"
  m_queryServices :: "string \<Rightarrow> (ServiceInstance \<times> string) list option"
  m_now :: gotime
  m_querySub :: "string \<Rightarrow> string option"
  m_sha256hex :: "string \<Rightarrow> string"
  m_queryCard :: "string \<Rightarrow> string option"
  m_commit :: commitOutcome
  m_bumpFails :: bool
  m_liveUp :: bool
  m_quotaRead :: quotaRead
  m_usageFails :: bool
  m_ack :: ackOutcome

definition dedupKeyOf :: "MsgEnv \<Rightarrow> NasInfo \<Rightarrow> Record \<Rightarrow> dedupKey" where
  "dedupKeyOf me nas r =
     (ni_ID nas, r_AcctSessionID r, r_RecordType r, pgTime (eventTime (e_timeParse (m_env me)) r))"

definition bindingOf :: "MsgEnv \<Rightarrow> NasInfo \<Rightarrow> Record \<Rightarrow> Binding" where
  "bindingOf me nas r =
     (let (service, serviceID) = resolveService nas r;
          sub = subscriberByUsername (m_querySub me) (r_Username r)
      in \<lparr>b_NASID = ni_ID nas, b_Service = service, b_ServiceID = serviceID,
          b_ServiceName = serviceName nas serviceID, b_SubscriberID = sub,
          b_CardID = (if sub = '''' then cardIDByUsername (m_sha256hex me) (m_queryCard me) (r_Username r)
                      else '''')\<rparr>)"

text \<open>The transaction of one record: the database it would commit.\<close>

definition recordTx :: "MsgEnv \<Rightarrow> NasInfo \<Rightarrow> Record \<Rightarrow> AcctDB \<Rightarrow> (ApplyResult \<times> AcctDB) option" where
  "recordTx me nas r db =
     (case upsertSession (m_env me) r (bindingOf me nas r)
             (db\<lparr>db_dedup := db_dedup db @ [dedupKeyOf me nas r]\<rparr>) of
        None \<Rightarrow> None
      | Some (res, db1) \<Rightarrow>
          (case bumpPersistedInTx (e_fails (m_env me) SqlBump) (ar_OrphanStop res) db1 of
             None \<Rightarrow> None
           | Some db2 \<Rightarrow> Some (res, db2)))"

definition afterCommit :: "MsgEnv \<Rightarrow> NasInfo \<Rightarrow> Record \<Rightarrow> ApplyResult \<Rightarrow> Svc \<Rightarrow> Svc" where
  "afterCommit me nas r res sv =
     (let c = sv_ctr sv;
          c1 = c\<lparr>c_persisted := c_persisted c + 1\<rparr>;
          c2 = (if ar_OrphanStop res then c1\<lparr>c_orphan_stops := c_orphan_stops c1 + 1\<rparr> else c1);
          lv = (case ar_State res of
                  None \<Rightarrow> Remove (m_liveUp me) (ni_ID nas) (r_AcctSessionID r) (ar_SubscriberID res)
                            (ar_Service res) (sv_live sv)
                | Some st \<Rightarrow> Upsert (m_liveUp me) st (sv_live sv));
          sv1 = sv\<lparr>sv_ctr := c2, sv_live := lv\<rparr>
      in if r_RecordType r \<noteq> RecordStart
         then applyQuota (m_quotaRead me) (m_usageFails me) (m_now me) (m_liveUp me)
                (b_SubscriberID (bindingOf me nas r)) sv1
         else sv1)"

definition afterDuplicate :: "MsgEnv \<Rightarrow> NasInfo \<Rightarrow> Record \<Rightarrow> Svc \<Rightarrow> Svc" where
  "afterDuplicate me nas r sv =
     (let c = sv_ctr sv; b = bindingOf me nas r in
      sv\<lparr>sv_ctr := c\<lparr>c_deduplicated := c_deduplicated c + 1\<rparr>,
         sv_db := bumpDeduplicated (m_bumpFails me) (sv_db sv),
         sv_live := (if r_RecordType r = RecordStop
                     then Remove (m_liveUp me) (ni_ID nas) (r_AcctSessionID r) (b_SubscriberID b) (b_Service b) (sv_live sv)
                     else sv_live sv)\<rparr>)"

datatype msgResult = Ack | Retry

definition processMessage ::
    "(bytes \<Rightarrow> Record option) \<Rightarrow> MsgEnv \<Rightarrow> bytes \<Rightarrow> Svc \<Rightarrow> msgResult \<times> Svc" where
  "processMessage unmarshal me payload sv =
     (case unmarshal payload of
        None \<Rightarrow> (Ack, sv)
      | Some r \<Rightarrow>
          (let (nas, cache) = byIP (m_queryNas me) (m_queryServices me) (m_now me) (r_NASIP r) (sv_nasCache sv);
               sv0 = sv\<lparr>sv_nasCache := cache\<rparr>
           in if e_fails (m_env me) SqlBegin \<or> e_fails (m_env me) SqlDedup then (Retry, sv0)
              else if dedupKeyOf me nas r \<in> set (db_dedup (sv_db sv)) then (Ack, afterDuplicate me nas r sv0)
              else case recordTx me nas r (sv_db sv) of
                None \<Rightarrow> (Retry, sv0)
              | Some (res, db') \<Rightarrow>
                  (case m_commit me of
                     RolledBack \<Rightarrow> (Retry, sv0)
                   | CommittedUnseen \<Rightarrow> (Retry, sv0\<lparr>sv_db := db'\<rparr>)
                   | Committed \<Rightarrow> (Ack, afterCommit me nas r res (sv0\<lparr>sv_db := db'\<rparr>)))))"

fun processBatch ::
    "(bytes \<Rightarrow> Record option) \<Rightarrow> (nat \<Rightarrow> MsgEnv) \<Rightarrow> (nat \<times> bytes) list \<Rightarrow> Svc \<Rightarrow> bool \<times> Svc" where
  "processBatch unmarshal envs [] sv = (False, sv)"
| "processBatch unmarshal envs ((i, payload) # ms) sv =
     (case processMessage unmarshal (envs i) payload sv of
        (Retry, sv1) \<Rightarrow> (True, sv1\<lparr>sv_backlog := True\<rparr>)
      | (Ack, sv1) \<Rightarrow> processBatch unmarshal envs ms (ackDelete (m_ack (envs i)) i sv1))"

datatype readOutcome = ReadReply | ReadNil | ReadError | ReadErrorDelivered

definition consumerIter ::
    "(bytes \<Rightarrow> Record option) \<Rightarrow> readOutcome \<Rightarrow> (nat \<Rightarrow> MsgEnv) \<Rightarrow> Svc \<Rightarrow> Svc" where
  "consumerIter unmarshal ro envs sv =
     (case ro of
        ReadNil \<Rightarrow> sv\<lparr>sv_backlog := False\<rparr>
      | ReadError \<Rightarrow> sv
      | ReadErrorDelivered \<Rightarrow> snd (xreadgroup sv)
      | ReadReply \<Rightarrow>
          (let (msgs, sv1) = xreadgroup sv in
           if msgs = [] then sv1\<lparr>sv_backlog := False\<rparr>
           else case processBatch unmarshal envs msgs sv1 of
             (True, sv2) \<Rightarrow> sv2
           | (False, sv2) \<Rightarrow>
               (if sv_backlog sv2 \<and> length msgs < readCount then sv2\<lparr>sv_backlog := False\<rparr> else sv2)))"

section \<open>The spill drainer\<close>

definition drainPush :: "(bytes \<Rightarrow> addOutcome) \<Rightarrow> bytes \<Rightarrow> Svc \<Rightarrow> Svc \<times> bool" where
  "drainPush aos payload sv =
     (case enqueueStream (aos payload) payload sv of
        (sv1, True) \<Rightarrow> (sv1\<lparr>sv_ctr := (sv_ctr sv1)\<lparr>c_drained := c_drained (sv_ctr sv1) + 1\<rparr>\<rparr>, True)
      | (sv1, False) \<Rightarrow> (sv1, False))"

definition drainSpill :: "readFault \<Rightarrow> truncFault \<Rightarrow> (bytes \<Rightarrow> addOutcome) \<Rightarrow> Svc \<Rightarrow> Svc" where
  "drainSpill rf tf aos sv =
     (case spillDrain rf tf (drainPush aos) (sv_spill sv) sv of
        (sp, sv1, _, _, _) \<Rightarrow> sv1\<lparr>sv_spill := sp\<rparr>)"

section \<open>The reaper\<close>

definition staleAfter :: "duration \<Rightarrow> duration" where "staleAfter interval = 2 * interval"
definition reapAfter :: "duration \<Rightarrow> duration" where "reapAfter interval = 3 * interval + 5 * minute"

definition reapedRow :: "gotime \<Rightarrow> Session \<Rightarrow> Session" where
  "reapedRow now s = s\<lparr>s_stopped_at := coalesce (coalesce (s_last_interim_at s) (s_started_at s)) (Some (pgTime now)),
      s_terminate_cause := ''Reaper-Timeout'', s_stale := True, s_reaped := True\<rparr>"

record ReapEnv =
  re_fails :: bool
  re_bumpFails :: bool
  re_lifeFails :: bool
  re_liveUp :: bool

definition reapSession :: "ReapEnv \<Rightarrow> gotime \<Rightarrow> sessionKey \<Rightarrow> Session \<Rightarrow> Svc \<Rightarrow> Svc" where
  "reapSession re now k opened sv =
     (if re_fails re then sv
      else case map_of (db_sessions (sv_db sv)) k of
        None \<Rightarrow> sv
      | Some s \<Rightarrow>
          (if s_stopped_at s \<noteq> None then sv
           else let s' = reapedRow now s;
                    sub = (case s_subscriber opened of None \<Rightarrow> '''' | Some x \<Rightarrow> x);
                    db1 = bumpReaped (re_bumpFails re) (putSession k s' (sv_db sv));
                    db2 = (case (s_started_at opened, s_stopped_at s') of
                             (Some st, Some stopped) \<Rightarrow>
                               (if sub \<noteq> '''' \<and> timeSub stopped st > 0
                                then (case incrementLifetimeSeconds (re_lifeFails re) sub
                                             (wholeSeconds (timeSub stopped st)) stopped db1 of
                                        None \<Rightarrow> db1 | Some db' \<Rightarrow> db')
                                else db1)
                           | _ \<Rightarrow> db1);
                    c = sv_ctr sv
             in sv\<lparr>sv_ctr := c\<lparr>c_reaped := c_reaped c + 1\<rparr>, sv_db := db2,
                   sv_live := Remove (re_liveUp re) (fst k) (snd k) sub (s_service opened) (sv_live sv)\<rparr>))"

definition markStale :: "ReapEnv \<Rightarrow> sessionKey \<Rightarrow> Svc \<Rightarrow> Svc" where
  "markStale re k sv =
     (if re_fails re then sv
      else let db' = (case map_of (db_sessions (sv_db sv)) k of
                   Some s \<Rightarrow> if s_stopped_at s = None then putSession k (s\<lparr>s_stale := True\<rparr>) (sv_db sv) else sv_db sv
                 | None \<Rightarrow> sv_db sv);
               lv' = (case map_of (lv_hash (sv_live sv)) (Field (fst k) (snd k)) of
                   Some (Some st) \<Rightarrow> Upsert (re_liveUp re) (st\<lparr>st_Stale := True\<rparr>) (sv_live sv)
                 | _ \<Rightarrow> sv_live sv)
           in sv\<lparr>sv_db := db', sv_live := (if re_liveUp re then lv' else sv_live sv)\<rparr>)"

definition reapOne :: "(sessionKey \<Rightarrow> ReapEnv) \<Rightarrow> duration \<Rightarrow> gotime \<Rightarrow> sessionKey \<times> Session \<Rightarrow> Svc \<Rightarrow> Svc" where
  "reapOne res interval now o1 sv =
     (let (k, s) = o1;
          last = (case s_last_interim_at s of Some t \<Rightarrow> t | None \<Rightarrow> now);
          age = timeSub now last
      in if age \<ge> reapAfter interval then reapSession (res k) now k s sv
         else if age \<ge> staleAfter interval \<and> \<not> s_stale s then markStale (res k) k sv
         else sv)"

definition reapOnce :: "bool \<Rightarrow> (sessionKey \<Rightarrow> ReapEnv) \<Rightarrow> duration \<Rightarrow> gotime \<Rightarrow> Svc \<Rightarrow> Svc" where
  "reapOnce queryFails res interval now sv =
     (if queryFails then sv
      else fold (reapOne res interval now)
             (filter (\<lambda>(k, s). s_stopped_at s = None) (db_sessions (sv_db sv))) sv)"

section \<open>Boot\<close>

text \<open>
  A restart: the counters are loaded from their mirrors (or start from zero when the load
  failed), the spill file is reopened and its lines counted, and the consumer starts on its
  own pending entries.
\<close>

definition boot :: "bool \<Rightarrow> bool \<Rightarrow> Svc \<Rightarrow> Svc" where
  "boot loadOK redisUp sv =
     sv\<lparr>sv_ctr := (if loadOK then loadCounters redisUp sv else zeroCounters),
        sv_spill := (sv_spill sv)\<lparr>sp_pendN := (if sp_enabled (sv_spill sv)
                                             then int (countLines (sp_file (sv_spill sv))) else 0)\<rparr>,
        sv_viewMissingUntil := 0, sv_nasCache := (\<lambda>_. None), sv_backlog := True\<rparr>"

end
