(* ===== verification/AcctAudit.thy ===== *)
theory AcctAudit
  imports AcctPipeline
begin

text \<open>
  The counters of the accounting pipeline. Exactly-once persistence: however often a message is
  delivered, its dedup key is inserted once and the durable \<open>persisted\<close> counter is the number of keys.
  The audit equation of \<^verbatim>\<open>counters.go\<close> (received - deduplicated - in_queue = persisted) is
  an invariant of the runs whose faults are listed in \<open>auditOp\<close>; a record refused with 503 breaks it for good.
\<close>

section \<open>Exactly once\<close>

definition onceInv :: "AcctDB \<Rightarrow> bool" where
  "onceInv db \<longleftrightarrow> distinct (db_dedup db) \<and> c_persisted (db_counters db) = int (length (db_dedup db))"

lemma recordTx_persisted:
  "recordTx me nas r db = Some (res, db') \<Longrightarrow> c_persisted (db_counters db') = c_persisted (db_counters db) + 1"
  by (auto simp: recordTx_def bumpPersistedInTx_def Let_def split: option.splits if_splits
      dest!: upsertSession_frame(2))

lemma recordTx_once:
  "recordTx me nas r db = Some (res, db') \<Longrightarrow> dedupKeyOf me nas r \<notin> set (db_dedup db) \<Longrightarrow> onceInv db \<Longrightarrow> onceInv db'"
  by (simp add: onceInv_def recordTx_persisted recordTx_dedup)

lemma afterDuplicate_persisted [simp]:
  "c_persisted (db_counters (sv_db (afterDuplicate me nas r sv))) = c_persisted (db_counters (sv_db sv))"
  by (simp add: afterDuplicate_def bumpDeduplicated_def Let_def)

lemma processMessage_once: "processMessage um me p sv = (res, sv') \<Longrightarrow> onceInv (sv_db sv) \<Longrightarrow> onceInv (sv_db sv')"
  by (auto simp: processMessage_def Let_def recordTx_once
      split: option.splits prod.splits if_splits commitOutcome.splits)
     (simp_all add: onceInv_def)

lemma processBatch_once:
  "processBatch um envs ms sv = (f, sv') \<Longrightarrow> onceInv (sv_db sv) \<Longrightarrow> onceInv (sv_db sv')"
  by (induction um envs ms sv rule: processBatch.induct)
    (auto split: prod.splits msgResult.splits dest: processMessage_once)

lemma consumerIter_once: "onceInv (sv_db sv) \<Longrightarrow> onceInv (sv_db (consumerIter um ro envs sv))"
proof -
  obtain msgs sv1 where x: "xreadgroup sv = (msgs, sv1)" by (cases "xreadgroup sv")
  obtain f sv2 where b: "processBatch um envs msgs sv1 = (f, sv2)" by (cases "processBatch um envs msgs sv1")
  assume "onceInv (sv_db sv)"
  then have "onceInv (sv_db sv1)" "onceInv (sv_db sv2)"
    using xreadgroup_frame(3) [OF x] processBatch_once [OF b] by simp_all
  with \<open>onceInv (sv_db sv)\<close> show ?thesis
    using x b by (cases ro) (simp_all add: consumerIter_def split: bool.split)
qed

lemma onceInv_writes [simp]:
  "onceInv (bumpReaped fl db) = onceInv db" "onceInv (putSession k s db) = onceInv db"
  by (simp_all add: onceInv_def bumpReaped_def putSession_def)

lemma incrementLifetimeSeconds_once:
  "incrementLifetimeSeconds fl sub n t db = Some db' \<Longrightarrow> onceInv db' = onceInv db"
  using incrementLifetimeSeconds_frame(2,3) [of fl sub n t db db'] by (simp add: onceInv_def)

lemma reapSession_once: "onceInv (sv_db sv) \<Longrightarrow> onceInv (sv_db (reapSession re now k s sv))"
  by (auto simp: reapSession_def Let_def incrementLifetimeSeconds_once split: option.split)

lemma markStale_once: "onceInv (sv_db (markStale re k sv)) = onceInv (sv_db sv)"
  by (auto simp: markStale_def onceInv_def putSession_def Let_def split: option.split)

lemma reapOne_once: "onceInv (sv_db sv) \<Longrightarrow> onceInv (sv_db (reapOne res iv now ks sv))"
  by (cases ks) (simp add: reapOne_def Let_def markStale_once reapSession_once)

lemma reapOnce_once: "onceInv (sv_db sv) \<Longrightarrow> onceInv (sv_db (reapOnce qf res iv now sv))"
proof -
  have "onceInv (sv_db sv) \<Longrightarrow> onceInv (sv_db (fold (reapOne res iv now) xs sv))" for xs
    by (induction xs arbitrary: sv) (simp_all add: reapOne_once)
  then show "onceInv (sv_db sv) \<Longrightarrow> ?thesis" by (simp add: reapOnce_def)
qed

lemma ingestHandler_db: "ingestHandler um m tp ie body sv = (st, sv') \<Longrightarrow> sv_db sv' = sv_db sv"
  by (auto simp: ingestHandler_def durablyEnqueue_def Let_def
      split: if_splits sum.splits option.splits prod.splits bool.splits dest: enqueueStream_frame(1))

lemma drainSpill_db: "sv_db (drainSpill rf tf aos sv) = sv_db sv"
proof -
  have "drainLoop (drainPush aos) ls st d b = (st', d', b', e) \<Longrightarrow> sv_db st' = sv_db st" for ls st d b st' d' b' e
    by (induction ls arbitrary: st d b)
      (auto split: if_splits option.splits prod.splits bool.splits dest: drainPush_frame(1))
  then show ?thesis
    by (auto simp: drainSpill_def spillDrain_def spillTruncate_def
        split: readFault.split prod.split option.split truncFault.split)
qed

lemma pipeStep_once: "pipeStep um m tp c op c' \<Longrightarrow> onceInv (sv_db (fst c)) \<Longrightarrow> onceInv (sv_db (fst c'))"
  by (induction rule: pipeStep.induct)
    (auto simp: ingestHandler_db drainSpill_db consumerIter_once reapOnce_once, auto simp: onceInv_def flushCounters_def boot_def)

lemma pipeRun_once: "pipeRun um m tp c c' \<Longrightarrow> onceInv (sv_db (fst c)) \<Longrightarrow> onceInv (sv_db (fst c'))"
  by (induction rule: pipeRun.induct) (auto intro: pipeStep_once)

section \<open>The audit equation\<close>

definition settled :: "Counters \<Rightarrow> int" where
  "settled c = c_persisted c + c_deduplicated c"

definition auditGap :: "Svc \<Rightarrow> int" where
  "auditGap sv = c_received (sv_ctr sv) - settled (sv_ctr sv) - inQueue True sv"

text \<open>The pending count of the spill is the number of records in its file, and every payload decodes.\<close>

definition auditInv :: "(bytes \<Rightarrow> Record option) \<Rightarrow> Svc \<Rightarrow> bool" where
  "auditInv um sv \<longleftrightarrow> streamInv sv \<and> spillInv (sv_spill sv)
     \<and> sp_pendN (sv_spill sv) = int (length (spillRecs (sv_spill sv)))
     \<and> (\<forall>p. inStream sv p \<longrightarrow> um p \<noteq> None) \<and> (\<forall>p \<in> set (spillRecs (sv_spill sv)). um p \<noteq> None)"

lemma InvariantOK_iff: "cs_InvariantOK (snapshot (sv_ctr sv) (inQueue True sv)) \<longleftrightarrow> auditGap sv = 0"
  by (auto simp: snapshot_def auditGap_def settled_def)

lemma applyQuota_ctr: "sv_ctr (applyQuota qr uf now up sub sv) = sv_ctr sv"
  by simp

lemma processMessage_ctr:
  assumes "processMessage um me p sv = (res, sv')" and "um p \<noteq> None"
  shows "c_received (sv_ctr sv') = c_received (sv_ctr sv)"
    and "settled (sv_ctr sv') = settled (sv_ctr sv) + (if res = Ack then 1 else 0)"
  using assms
  by (auto simp: processMessage_def settled_def afterCommit_def afterDuplicate_def Let_def
      split: option.splits prod.splits if_splits commitOutcome.splits)

lemma length_filter_id:
  "distinct (map fst xs) \<Longrightarrow> (i, p) \<in> set xs \<Longrightarrow>
   int (length (filter (\<lambda>e. fst e \<noteq> i) xs)) = int (length xs) - 1"
proof (induction xs)
  case (Cons x xs)
  show ?case
  proof (cases "fst x = i")
    case True
    with Cons.prems have "filter (\<lambda>e. fst e \<noteq> i) xs = xs"
      by (auto simp: filter_id_conv image_iff)
    with True show ?thesis by simp
  next
    case False
    with Cons show ?thesis by auto
  qed
qed simp

lemma ackDelete_gap:
  assumes "streamInv sv" and "(i, p) \<in> set (sv_stream sv)"
  shows "auditGap (ackDelete AckDone i sv) = auditGap sv + 1"
  using length_filter_id [of "sv_stream sv" i p] assms
  by (simp add: auditGap_def ackDelete_def inQueue_def streamInv_def)

lemma processBatch_gap:
  assumes "processBatch um envs ms sv = (f, sv')" and "streamInv sv"
    and "set ms \<subseteq> set (sv_stream sv)" and "distinct (map fst ms)"
    and "\<forall>e \<in> set ms. um (snd e) \<noteq> None" and "\<forall>i. m_ack (envs i) = AckDone"
  shows "auditGap sv' = auditGap sv"
  using assms
proof (induction ms arbitrary: sv)
  case (Cons m ms)
  obtain i p where m: "m = (i, p)" by (cases m)
  obtain res sv1 where pm: "processMessage um (envs i) p sv = (res, sv1)" by (cases "processMessage um (envs i) p sv")
  note fr = processMessage_frame [OF pm]
  have dec: "um p \<noteq> None" using Cons.prems(5) m by simp
  have g1: "auditGap sv1 = auditGap sv - (if res = Ack then 1 else 0)"
    using processMessage_ctr [OF pm dec] fr by (simp add: auditGap_def inQueue_def)
  show ?case
  proof (cases res)
    case Retry
    then show ?thesis using Cons.prems(1) pm m g1 by (auto simp: auditGap_def inQueue_def)
  next
    case Ack
    let ?sv2 = "ackDelete AckDone i sv1"
    have i1: "streamInv sv1" using Cons.prems(2) fr by (simp add: streamInv_def)
    have "(i, p) \<in> set (sv_stream sv1)" using Cons.prems(3) m fr(1) by auto
    then have g2: "auditGap ?sv2 = auditGap sv" using ackDelete_gap [OF i1] g1 Ack by simp
    have "set ms \<subseteq> set (sv_stream ?sv2)"
    proof
      fix e assume "e \<in> set ms"
      then have "e \<in> set (sv_stream sv1)" "fst e \<noteq> i" using Cons.prems(3,4) m fr(1) by force+
      then show "e \<in> set (sv_stream ?sv2)" by (rule ackDelete_stream(2))
    qed
    with Cons.IH [of ?sv2] Cons.prems pm m Ack g2 streamInv_ackDelete [OF i1] show ?thesis by simp
  qed
qed simp

lemma xreadgroup_distinct:
  "xreadgroup sv = (msgs, sv') \<Longrightarrow> streamInv sv \<Longrightarrow> distinct (map fst msgs)"
  by (auto simp: xreadgroup_def Let_def pendingEntries_def newEntries_def streamInv_def
      simp flip: take_map split: if_splits intro!: distinct_take distinct_map_filter)

lemma consumerIter_gap:
  assumes "streamInv sv" and "\<forall>e \<in> set (sv_stream sv). um (snd e) \<noteq> None" and "\<forall>i. m_ack (envs i) = AckDone"
  shows "auditGap (consumerIter um ro envs sv) = auditGap sv"
proof -
  obtain msgs sv1 where x: "xreadgroup sv = (msgs, sv1)" by (cases "xreadgroup sv")
  obtain f sv2 where b: "processBatch um envs msgs sv1 = (f, sv2)" by (cases "processBatch um envs msgs sv1")
  note fr = xreadgroup_frame [OF x]
  have i1: "streamInv sv1" and g1: "auditGap sv1 = auditGap sv"
    using assms(1) fr by (simp_all add: streamInv_def auditGap_def inQueue_def)
  have g2: "auditGap sv2 = auditGap sv"
    using processBatch_gap [OF b i1 _ xreadgroup_distinct [OF x assms(1)] _ assms(3)] fr g1 assms(2) by auto
  have bl: "auditGap (s\<lparr>sv_backlog := v\<rparr>) = auditGap s" for s v by (simp add: auditGap_def inQueue_def)
  show ?thesis using x b g1 g2 by (cases ro) (simp_all add: consumerIter_def bl split: bool.split)
qed

lemma durablyEnqueue_gap:
  assumes "durablyEnqueue ao bo wr p sv = (sv', ok)" and "auditInv um sv" and "ao \<noteq> AddFailsLanded" and "um p \<noteq> None"
  shows "auditGap sv' = auditGap sv - (if ok then 1 else 0)" and "ok \<Longrightarrow> auditInv um sv'"
proof -
  have c: "spillInv (sv_spill sv)" "sp_pendN (sv_spill sv) = int (length (spillRecs (sv_spill sv)))"
    using assms(2) by (simp_all add: auditInv_def)
  consider (added) "ao = AddOK" | (failed) "ao = AddFails" using assms(3) by (cases ao) auto
  then have "auditGap sv' = auditGap sv - (if ok then 1 else 0) \<and> (ok \<longrightarrow> auditInv um sv')"
  proof cases
    case added
    then have "sv_stream sv' = sv_stream (xadd p sv)" "sv_nextID sv' = sv_nextID (xadd p sv)"
      "sv_spill sv' = sv_spill sv" ok "settled (sv_ctr sv') = settled (sv_ctr sv)"
      "c_received (sv_ctr sv') = c_received (sv_ctr sv)"
      using assms(1) by (auto simp: durablyEnqueue_def enqueueStream_def xadd_def settled_def)
    moreover from this have "streamInv sv'" using streamInv_xadd [of sv p] assms(2)
      by (simp add: auditInv_def streamInv_def)
    ultimately show ?thesis using assms(2,4)
      by (auto simp: auditInv_def auditGap_def inQueue_def inStream_def xadd_def)
  next
    case failed
    obtain sp e where a: "spillAppend wr (sv_spill sv) p = (sp, e)" by (cases "spillAppend wr (sv_spill sv) p")
    show ?thesis
    proof (cases e)
      case None
      with a have "spillInv sp \<and> spillRecs sp = spillRecs (sv_spill sv) @ [p]" using spill.app_ok [OF c(1)] by simp
      moreover have "sp_pendN sp = sp_pendN (sv_spill sv) + 1"
        using a None by (auto simp: spillAppend_def Let_def split: if_splits writeFault.splits)
      ultimately show ?thesis using assms(1,2,4) failed a None c
        by (auto simp: durablyEnqueue_def enqueueStream_def auditInv_def auditGap_def inQueue_def
            spillPending_def settled_def)
    next
      case (Some x)
      then have "sp_pendN sp = sp_pendN (sv_spill sv)"
        using a by (auto simp: spillAppend_def Let_def split: if_splits writeFault.splits)
      then show ?thesis using assms(1) failed a Some
        by (auto simp: durablyEnqueue_def enqueueStream_def auditGap_def inQueue_def spillPending_def)
    qed
  qed
  then show "auditGap sv' = auditGap sv - (if ok then 1 else 0)" "ok \<Longrightarrow> auditInv um sv'" by simp_all
qed

lemma ingest_gap:
  assumes "ingestHandler um m tp ie body sv = (st, sv')" and "auditInv um sv" and "i_add ie \<noteq> AddFailsLanded"
    and "\<And>r p. m r = Some p \<Longrightarrow> um p = Some r"
  shows "auditGap sv' = auditGap sv + (if st \<in> {InternalError500, Unavailable503} then 1 else 0)"
    and "st \<notin> {InternalError500, Unavailable503} \<Longrightarrow> auditInv um sv'"
proof -
  define sv1 where "sv1 = sv\<lparr>sv_ctr := (sv_ctr sv)\<lparr>c_received := c_received (sv_ctr sv) + 1\<rparr>,
      sv_redisReceived := sv_redisReceived sv + (if i_bumpReceivedOK ie then 1 else 0)\<rparr>"
  have g: "auditGap sv1 = auditGap sv + 1" "auditInv um sv1"
    using assms(2) by (simp_all add: sv1_def auditGap_def settled_def inQueue_def auditInv_def)
  have "auditGap sv' = auditGap sv + (if st \<in> {InternalError500, Unavailable503} then 1 else 0)
    \<and> (st \<notin> {InternalError500, Unavailable503} \<longrightarrow> auditInv um sv')"
  proof (cases "\<not> i_post ie \<or> \<not> i_bodyOK ie \<or> (\<exists>e. parseRecord um tp (take maxBodyBytes body) (i_now ie) = Inl e)")
    case True
    then show ?thesis using assms(1,2) by (auto simp: ingestHandler_def split: if_splits)
  next
    case False
    then obtain r where r: "parseRecord um tp (take maxBodyBytes body) (i_now ie) = Inr r"
      by (cases "parseRecord um tp (take maxBodyBytes body) (i_now ie)") auto
    show ?thesis
    proof (cases "m r")
      case None
      then show ?thesis using False r assms(1) g by (auto simp: ingestHandler_def sv1_def [symmetric] Let_def)
    next
      case (Some p)
      obtain sv2 ok where d: "durablyEnqueue (i_add ie) (i_bumpEnqueuedOK ie) (i_write ie) p sv1 = (sv2, ok)"
        by (cases "durablyEnqueue (i_add ie) (i_bumpEnqueuedOK ie) (i_write ie) p sv1")
      have "sv' = sv2" "st = (if ok then NoContent204 else Unavailable503)"
        using False r Some d assms(1) by (auto simp: ingestHandler_def sv1_def [symmetric] Let_def split: bool.splits)
      then show ?thesis using durablyEnqueue_gap [OF d g(2) assms(3)] assms(4) [OF Some] g(1) by simp
    qed
  qed
  then show "auditGap sv' = auditGap sv + (if st \<in> {InternalError500, Unavailable503} then 1 else 0)"
    "st \<notin> {InternalError500, Unavailable503} \<Longrightarrow> auditInv um sv'" by simp_all
qed

lemma drainPush_count:
  assumes "drainPush aos p sv = (sv', ok)" and "\<And>p. aos p \<noteq> AddFailsLanded"
  shows "length (sv_stream sv') = length (sv_stream sv) + (if ok then 1 else 0)"
    and "settled (sv_ctr sv') = settled (sv_ctr sv)" and "c_received (sv_ctr sv') = c_received (sv_ctr sv)"
    and "inStream sv' q \<Longrightarrow> inStream sv q \<or> q = p"
  using assms(1) assms(2) [of p]
  by (auto simp: drainPush_def enqueueStream_def xadd_def settled_def inStream_def split: addOutcome.splits)

lemma drainLoop_count:
  assumes "drainLoop (drainPush aos) ls sv d b = (sv', d', b', e)" and "\<And>p. aos p \<noteq> AddFailsLanded"
  shows "int (length (sv_stream sv')) = int (length (sv_stream sv)) + int d' - int d
    \<and> d \<le> d' \<and> settled (sv_ctr sv') = settled (sv_ctr sv) \<and> c_received (sv_ctr sv') = c_received (sv_ctr sv)
    \<and> (\<forall>q. inStream sv' q \<longrightarrow> inStream sv q \<or> q \<in> set (List.map_filter decodeSpillLine ls))"
  using assms(1)
proof (induction ls arbitrary: sv d b)
  case (Cons l ls)
  show ?case
  proof (cases "maxTokenSize \<le> length l \<or> trimSpace l = [] \<or> decodeSpillLine l = None")
    case True
    then show ?thesis using Cons.prems Cons.IH [of sv]
      by (auto simp: List.map_filter_def split: if_splits option.splits)
  next
    case False
    then obtain p where p: "decodeSpillLine l = Some p" by auto
    obtain sv1 ok where push: "drainPush aos p sv = (sv1, ok)" by (cases "drainPush aos p sv")
    note c = drainPush_count [OF push assms(2)]
    show ?thesis
    proof (cases ok)
      case True
      then have "drainLoop (drainPush aos) ls sv1 (Suc d) b = (sv', d', b', e)" using False p push Cons.prems by simp
      from Cons.IH [OF this] c True p show ?thesis by (auto simp: List.map_filter_def)
    next
      case False
      with \<open>\<not> (_ \<or> _ \<or> _)\<close> p push Cons.prems c show ?thesis by (auto simp: List.map_filter_def)
    qed
  qed
qed (auto simp: List.map_filter_def)

definition auditDrain :: "readFault \<Rightarrow> truncFault \<Rightarrow> (bytes \<Rightarrow> addOutcome) \<Rightarrow> Svc \<Rightarrow> bool" where
  "auditDrain rf tf aos sv \<longleftrightarrow> (\<forall>p. aos p \<noteq> AddFailsLanded)
     \<and> (case spillDrain rf tf (drainPush aos) (sv_spill sv) sv of (_, _, d, _, e) \<Rightarrow> d = 0 \<or> e = None)"

lemma drainSpill_gap:
  assumes "auditDrain rf tf aos sv" and "auditInv um sv"
  shows "auditGap (drainSpill rf tf aos sv) = auditGap sv" and "auditInv um (drainSpill rf tf aos sv)"
proof -
  obtain sp sv1 d b e where dr: "spillDrain rf tf (drainPush aos) (sv_spill sv) sv = (sp, sv1, d, b, e)"
    by (cases "spillDrain rf tf (drainPush aos) (sv_spill sv) sv") auto
  have h: "\<And>p. aos p \<noteq> AddFailsLanded" "d = 0 \<or> e = None" using assms(1) dr by (auto simp: auditDrain_def)
  have i: "streamInv sv" "spillInv (sv_spill sv)" "sp_pendN (sv_spill sv) = int (length (spillRecs (sv_spill sv)))"
    using assms(2) by (simp_all add: auditInv_def)
  have stream: "streamInv (drainSpill rf tf aos sv)" and clean: "spillInv sp"
    using drainSpill_accounted [OF i(2,1), of _ _ _ rf tf aos] dr by (auto simp: drainSpill_def)
  have recs: "spillRecs sp = spillRecs (sv_spill sv) \<or> spillRecs sp = []"
    using spill.drn_all_or_keep [OF i(2), of "(rf, tf)" "drainPush aos" sv sp sv1 d b e] dr by auto
  have core: "sp_pendN sp = int (length (spillRecs sp))
    \<and> int (length (sv_stream sv1)) + sp_pendN sp = int (length (sv_stream sv)) + sp_pendN (sv_spill sv)
    \<and> settled (sv_ctr sv1) = settled (sv_ctr sv) \<and> c_received (sv_ctr sv1) = c_received (sv_ctr sv)
    \<and> (\<forall>q. inStream sv1 q \<longrightarrow> inStream sv q \<or> q \<in> set (spillRecs (sv_spill sv)))"
  proof (cases "\<not> sp_enabled (sv_spill sv) \<or> rf \<noteq> ReadOK")
    case True
    then show ?thesis using dr i(3) by (cases rf) (auto simp: spillDrain_def split: if_splits)
  next
    case False
    obtain sv2 d2 b2 e2 where l: "drainLoop (drainPush aos) (scanLines (sp_file (sv_spill sv))) sv 0 0 = (sv2, d2, b2, e2)"
      by (cases "drainLoop (drainPush aos) (scanLines (sp_file (sv_spill sv))) sv 0 0") auto
    have out: "sv1 = sv2" "d = d2" using dr l False
      by (auto simp: spillDrain_def split: option.splits prod.splits)
    note c = drainLoop_count [OF l h(1)]
    have all: "e2 = None \<Longrightarrow> d2 = length (spillRecs (sv_spill sv))"
      using drainLoop_spec [OF l] by (simp add: walRecords_def)
    have "sp_pendN sp = int (length (spillRecs sp))
      \<and> int (length (sv_stream sv1)) + sp_pendN sp = int (length (sv_stream sv)) + sp_pendN (sv_spill sv)"
      using c out all i(3) h(2) dr l False
      by (cases e2; cases tf) (auto simp: spillDrain_def spillTruncate_def)
    then show ?thesis using c out by (simp add: walRecords_def)
  qed
  then show "auditGap (drainSpill rf tf aos sv) = auditGap sv"
    using dr by (simp add: auditGap_def inQueue_def drainSpill_def spillPending_def settled_def)
  show "auditInv um (drainSpill rf tf aos sv)"
    using core stream clean recs dr assms(2) unfolding auditInv_def drainSpill_def by auto
qed

lemma processBatch_shrinks:
  "processBatch um envs ms sv = (f, sv') \<Longrightarrow> set (sv_stream sv') \<subseteq> set (sv_stream sv)"
proof (induction um envs ms sv rule: processBatch.induct)
  case (2 um envs i p ms sv)
  obtain res sv1 where pm: "processMessage um (envs i) p sv = (res, sv1)" by (cases "processMessage um (envs i) p sv")
  show ?case
  proof (cases res)
    case Ack
    then have "processBatch um envs ms (ackDelete (m_ack (envs i)) i sv1) = (f, sv')" using 2(2) pm by simp
    from 2(1) [OF pm [symmetric] _ this] Ack show ?thesis
      using ackDelete_stream(1) processMessage_frame(1) [OF pm] by fastforce
  next
    case Retry
    then show ?thesis using 2(2) pm processMessage_frame(1) [OF pm] by auto
  qed
qed simp

lemma consumerIter_shrinks: "set (sv_stream (consumerIter um ro envs sv)) \<subseteq> set (sv_stream sv)"
proof -
  obtain msgs sv1 where x: "xreadgroup sv = (msgs, sv1)" by (cases "xreadgroup sv")
  obtain f sv2 where b: "processBatch um envs msgs sv1 = (f, sv2)" by (cases "processBatch um envs msgs sv1")
  show ?thesis
    using x b processBatch_shrinks [OF b] xreadgroup_frame(1) [OF x]
    by (cases ro) (simp_all add: consumerIter_def split: bool.split)
qed

lemma reapSession_audit [simp]:
  "c_received (sv_ctr (reapSession re now k s sv)) = c_received (sv_ctr sv)"
  "settled (sv_ctr (reapSession re now k s sv)) = settled (sv_ctr sv)"
  "sv_stream (reapSession re now k s sv) = sv_stream sv" "sv_spill (reapSession re now k s sv) = sv_spill sv"
  "sv_nextID (reapSession re now k s sv) = sv_nextID sv"
  by (simp_all add: reapSession_def settled_def Let_def split: option.split)

lemma markStale_audit [simp]:
  "sv_ctr (markStale re k sv) = sv_ctr sv" "sv_stream (markStale re k sv) = sv_stream sv"
  "sv_spill (markStale re k sv) = sv_spill sv" "sv_nextID (markStale re k sv) = sv_nextID sv"
  by (simp_all add: markStale_def Let_def)

definition auditView :: "Svc \<Rightarrow> int \<times> int \<times> (nat \<times> bytes) list \<times> nat \<times> Spill" where
  "auditView sv = (c_received (sv_ctr sv), settled (sv_ctr sv), sv_stream sv, sv_nextID sv, sv_spill sv)"

lemma auditView_cong:
  assumes "auditView sv' = auditView sv"
  shows "auditGap sv' = auditGap sv" and "auditInv um sv' = auditInv um sv"
  using assms by (auto simp: auditView_def auditGap_def inQueue_def auditInv_def streamInv_def inStream_def)

lemma reapOnce_audit: "auditView (reapOnce qf res iv now sv) = auditView sv"
proof -
  have "auditView (fold (reapOne res iv now) xs sv) = auditView sv" for xs
    by (induction xs arbitrary: sv) (auto simp: reapOne_def auditView_def Let_def)
  then show ?thesis by (simp add: reapOnce_def)
qed

text \<open>The faults under which the equation is kept.\<close>

fun auditOp ::
    "(bytes \<Rightarrow> Record option) \<Rightarrow> (Record \<Rightarrow> bytes option) \<Rightarrow> (string \<Rightarrow> string \<Rightarrow> gotime option) \<Rightarrow>
     Svc \<Rightarrow> PipeOp \<Rightarrow> bool" where
  "auditOp um m tp sv (OpIngest ie body) \<longleftrightarrow> i_add ie \<noteq> AddFailsLanded
     \<and> fst (ingestHandler um m tp ie body sv) \<notin> {InternalError500, Unavailable503}"
| "auditOp um m tp sv (OpConsume ro envs) \<longleftrightarrow> (\<forall>i. m_ack (envs i) = AckDone)"
| "auditOp um m tp sv (OpDrain rf tf aos) \<longleftrightarrow> auditDrain rf tf aos sv"
| "auditOp um m tp sv (OpReap qf res interval now) \<longleftrightarrow> True"
| "auditOp um m tp sv (OpFlush fl) \<longleftrightarrow> True"
| "auditOp um m tp sv (OpBoot ok up) \<longleftrightarrow> False"

inductive auditRun ::
    "(bytes \<Rightarrow> Record option) \<Rightarrow> (Record \<Rightarrow> bytes option) \<Rightarrow> (string \<Rightarrow> string \<Rightarrow> gotime option) \<Rightarrow>
     Svc \<times> Record list \<Rightarrow> Svc \<times> Record list \<Rightarrow> bool"
  for um m tp where
  audit_refl: "auditRun um m tp c c"
| audit_step: "auditRun um m tp c c' \<Longrightarrow> auditOp um m tp (fst c') op \<Longrightarrow> pipeStep um m tp c' op c'' \<Longrightarrow>
     auditRun um m tp c c''"

lemma audit_step_kept:
  assumes "pipeStep um m tp c op c'" and "auditOp um m tp (fst c) op" and "auditInv um (fst c)"
    and "\<And>r p. m r = Some p \<Longrightarrow> um p = Some r"
  shows "auditInv um (fst c') \<and> auditGap (fst c') = auditGap (fst c)"
  using assms
proof (induction rule: pipeStep.induct)
  case (ingest_ack ie body sv sv' r acked)
  then show ?case using ingest_gap [OF ingest_ack.hyps(1)] by auto
next
  case (ingest_refuse ie body sv st sv' acked)
  then show ?case using ingest_gap [OF ingest_refuse.hyps(1)] by auto
next
  case (consume envs sv acked ro)
  then have i: "streamInv sv" "\<forall>e \<in> set (sv_stream sv). um (snd e) \<noteq> None"
    by (auto simp: auditInv_def inStream_def)
  have "sv_spill (consumerIter um ro envs sv) = sv_spill sv" "streamInv (consumerIter um ro envs sv)"
    using consumerIter_accounted [OF i(1) consume.hyps] by blast+
  moreover have "inStream (consumerIter um ro envs sv) p \<longrightarrow> inStream sv p" for p
    using consumerIter_shrinks [of um ro envs sv] by (auto simp: inStream_def)
  ultimately show ?case using consume consumerIter_gap [OF i] by (simp add: auditInv_def)
next
  case (drain sv acked rf tf aos)
  then show ?case using drainSpill_gap [of rf tf aos sv um] by simp
next
  case (reap sv acked qf res interval now)
  then show ?case using auditView_cong [OF reapOnce_audit] by simp
next
  case (flush sv acked fl)
  have "auditView (flushCounters fl sv) = auditView sv" by (simp add: flushCounters_def auditView_def)
  from auditView_cong [OF this] flush show ?case by simp
qed simp

lemma audit_run_kept:
  assumes "auditRun um m tp c c'" and "auditInv um (fst c)" and "\<And>r p. m r = Some p \<Longrightarrow> um p = Some r"
  shows "auditInv um (fst c') \<and> auditGap (fst c') = auditGap (fst c)"
  using assms(1,2)
proof (induction rule: auditRun.induct)
  case (audit_step c c' op c'')
  then show ?case using audit_step_kept [OF audit_step.hyps(3,2) _ assms(3)] by simp
qed simp

lemma refused_keeps_inv:
  assumes "ingestHandler um m tp ie body sv = (Unavailable503, sv')" and "auditInv um sv" and "i_add ie = AddFails"
    and "i_write ie = SeekFails \<or> \<not> sp_enabled (sv_spill sv)"
  shows "auditInv um sv'"
proof -
  have "sv_stream sv' = sv_stream sv \<and> sv_spill sv' = sv_spill sv \<and> sv_nextID sv' = sv_nextID sv"
    using assms(1,3,4)
    by (auto simp: ingestHandler_def durablyEnqueue_def enqueueStream_def spillAppend_def Let_def
        split: if_splits sum.splits option.splits)
  then show ?thesis using assms(2) by (simp add: auditInv_def streamInv_def inStream_def)
qed

section \<open>Properties\<close>

text \<open>
  C4: exactly-once persistence. In every reachable state of the pipeline, under every failure, no dedup key
  (NAS, session, record type, event time) is in the database twice, and the durable counter
  \<open>persisted\<close> equals the number of keys: a record whose commit was not seen, whose acknowledgement was lost
  or which was drained twice is persisted and counted once.
\<close>

theorem persisted_exactly_once:
  assumes "pipeRun um m tp (sv, acked) (sv', acked')" and "onceInv (sv_db sv)"
  shows "distinct (db_dedup (sv_db sv'))
       \<and> c_persisted (db_counters (sv_db sv')) = int (length (db_dedup (sv_db sv')))"
  using pipeRun_once [OF assms(1)] assms(2) by (simp add: onceInv_def)

theorem persisted_exactly_once_witness:
  "let sv' = consumerIter sampleUnmarshal ReadReply (\<lambda>_. sampleMsgEnv CommittedUnseen AckDone)
        (xadd [1] (xadd [1] freshSvc))
   in distinct (db_dedup (sv_db sv'))
      \<and> c_persisted (db_counters (sv_db sv')) = int (length (db_dedup (sv_db sv')))"
proof -
  have "onceInv (sv_db (xadd [1] (xadd [1] freshSvc)))"
    by (simp add: onceInv_def xadd_def freshSvc_def emptyDB_def zeroCounters_def)
  moreover have "pipeRun sampleUnmarshal sampleMarshal (\<lambda>_ _. None) (xadd [1] (xadd [1] freshSvc), [])
      (consumerIter sampleUnmarshal ReadReply (\<lambda>_. sampleMsgEnv CommittedUnseen AckDone)
        (xadd [1] (xadd [1] freshSvc)), [])"
    by (rule run_step [OF run_refl pipeStep.consume]) (simp add: sampleMsgEnv_def okEnv_def)
  ultimately show ?thesis using persisted_exactly_once by (simp add: Let_def)
qed

text \<open>
  A redelivered record changes nothing. Once a message has been acknowledged by the consumer,
  processing the same payload again in any later state of the database, under any environment that
  resolves it to the same NAS and can read the dedup table, acknowledges it and leaves the sessions, the
  usage points, the lifetime counters and the dedup keys exactly as they were.
\<close>

theorem replay_changes_nothing:
  assumes "processMessage um me p sv = (Ack, sv1)" and "um p = Some r"
    and "set (db_dedup (sv_db sv1)) \<subseteq> set (db_dedup (sv_db sv2))"
    and "ni_ID (fst (byIP (m_queryNas me') (m_queryServices me') (m_now me') (r_NASIP r) (sv_nasCache sv2)))
       = ni_ID (fst (byIP (m_queryNas me) (m_queryServices me) (m_now me) (r_NASIP r) (sv_nasCache sv)))"
    and "e_timeParse (m_env me') = e_timeParse (m_env me)"
    and "\<not> e_fails (m_env me') SqlBegin" and "\<not> e_fails (m_env me') SqlDedup"
  shows "\<exists>sv3. processMessage um me' p sv2 = (Ack, sv3)
       \<and> db_sessions (sv_db sv3) = db_sessions (sv_db sv2) \<and> db_usage (sv_db sv3) = db_usage (sv_db sv2)
       \<and> db_lifetime (sv_db sv3) = db_lifetime (sv_db sv2) \<and> db_dedup (sv_db sv3) = db_dedup (sv_db sv2)"
proof -
  obtain nas c where n: "byIP (m_queryNas me) (m_queryServices me) (m_now me) (r_NASIP r) (sv_nasCache sv) = (nas, c)"
    by (cases "byIP (m_queryNas me) (m_queryServices me) (m_now me) (r_NASIP r) (sv_nasCache sv)")
  obtain nas' c' where n': "byIP (m_queryNas me') (m_queryServices me') (m_now me') (r_NASIP r) (sv_nasCache sv2) = (nas', c')"
    by (cases "byIP (m_queryNas me') (m_queryServices me') (m_now me') (r_NASIP r) (sv_nasCache sv2)")
  have "dedupKeyOf me nas r \<in> set (db_dedup (sv_db sv1))"
    using assms(1,2) n by (auto simp: processMessage_def Let_def
        split: if_splits option.splits commitOutcome.splits dest!: recordTx_dedup)
  moreover have "dedupKeyOf me' nas' r = dedupKeyOf me nas r" using assms(4,5) n n' by (simp add: dedupKeyOf_def)
  ultimately have "dedupKeyOf me' nas' r \<in> set (db_dedup (sv_db sv2))" using assms(3) by auto
  then show ?thesis using assms(2,6,7) n'
    by (simp add: processMessage_def afterDuplicate_def bumpDeduplicated_def Let_def)
qed

theorem replay_changes_nothing_witness:
  "\<exists>sv1 sv3. processMessage sampleUnmarshal (sampleMsgEnv Committed AckAbandoned) [1] freshSvc = (Ack, sv1)
     \<and> processMessage sampleUnmarshal (sampleMsgEnv Committed AckDone) [1] sv1 = (Ack, sv3)
     \<and> db_usage (sv_db sv3) = db_usage (sv_db sv1)"
proof -
  let ?me = "sampleMsgEnv Committed AckAbandoned" and ?me' = "sampleMsgEnv Committed AckDone"
  obtain sv1 where a: "processMessage sampleUnmarshal ?me [1] freshSvc = (Ack, sv1)"
    and c: "sv_nasCache sv1 ''10.0.0.1'' = Some (unknownNas, 10)"
    by (simp add: processMessage_def sampleUnmarshal_def sampleMsgEnv_def freshSvc_def byIP_def unknownNas_def
        recordTx_def bumpPersistedInTx_def bindingOf_def resolveService_def serviceName_def
        subscriberByUsername_def store_eval)
  have nas: "fst (byIP (m_queryNas ?me') (m_queryServices ?me') (m_now ?me') ''10.0.0.1'' (sv_nasCache sv1)) = unknownNas"
    "fst (byIP (m_queryNas ?me) (m_queryServices ?me) (m_now ?me) ''10.0.0.1'' (sv_nasCache freshSvc)) = unknownNas"
    by (simp_all add: byIP_def c sampleMsgEnv_def freshSvc_def timeSub_def nasTTL_def)
  have "sampleUnmarshal [1] = Some (sampleRecord RecordStart 5 10)" by (simp add: sampleUnmarshal_def)
  from replay_changes_nothing [OF a this, of sv1 ?me'] nas a show ?thesis
    by (auto simp: sampleMsgEnv_def okEnv_def sampleRecord_def)
qed

text \<open>
  The audit equation. Along every run in which no ingest is refused with 500 or 503 and no
  stream write lands although it was reported failed, acknowledged entries are deleted and a drain
  pushes all of the file or nothing, the check that \<^verbatim>\<open>/internal/acct/counters\<close> reports stays what it
  was: with the equation true at the start, \<open>invariant_ok\<close> is true after any interleaving of
  ingest, consumer, drainer, reaper and flush steps, with rolled back and unseen commits, redeliveries,
  duplicates and spilled records among them.
\<close>

theorem audit_equation:
  assumes "auditRun um m tp (sv, acked) (sv', acked')" and "auditInv um sv"
    and "\<And>r p. m r = Some p \<Longrightarrow> um p = Some r"
    and "cs_InvariantOK (snapshot (sv_ctr sv) (inQueue True sv))"
  shows "cs_InvariantOK (snapshot (sv_ctr sv') (inQueue True sv'))"
  using audit_run_kept [OF assms(1) _ assms(3)] assms(2,4) by (simp add: InvariantOK_iff)

lemma sample_codec: "sampleMarshal r = Some p \<Longrightarrow> sampleUnmarshal p = Some r"
  by (simp add: sampleMarshal_def sampleUnmarshal_def split: if_splits)

lemma fresh_audit: "auditInv um freshSvc" "auditGap freshSvc = 0"
  by (simp_all add: auditInv_def freshSvc_def streamInv_def inStream_def auditGap_def settled_def inQueue_def
      spillPending_def zeroCounters_def)

theorem audit_equation_witness:
  "\<exists>sv'. auditRun sampleUnmarshal sampleMarshal (\<lambda>_ _. None) (freshSvc, [])
       (consumerIter sampleUnmarshal ReadReply (\<lambda>_. sampleMsgEnv Committed AckDone) sv',
        [sampleRecord RecordStart 5 10])
     \<and> c_received (sv_ctr sv') = 1
     \<and> cs_InvariantOK (let sv'' = consumerIter sampleUnmarshal ReadReply (\<lambda>_. sampleMsgEnv Committed AckDone) sv'
          in snapshot (sv_ctr sv'') (inQueue True sv''))"
proof -
  let ?tp = "\<lambda>_ _. None" and ?ie = "sampleIngest AddOK WriteOK" and ?r = "sampleRecord RecordStart 5 10"
  obtain sv1 where i: "ingestHandler sampleUnmarshal sampleMarshal ?tp ?ie [1] freshSvc = (NoContent204, sv1)"
    and r1: "c_received (sv_ctr sv1) = 1"
    using sample_parse
    by (simp add: ingestHandler_def sampleIngest_def durablyEnqueue_def enqueueStream_def freshSvc_def
        xadd_def sampleMarshal_def Let_def zeroCounters_def)
  have s1: "pipeStep sampleUnmarshal sampleMarshal ?tp (freshSvc, []) (OpIngest ?ie [1]) (sv1, [] @ [?r])"
    by (rule pipeStep.ingest_ack [OF i]) (use sample_parse in \<open>simp add: sampleIngest_def\<close>)
  have ok1: "auditOp sampleUnmarshal sampleMarshal ?tp (fst (freshSvc, [] :: Record list)) (OpIngest ?ie [1])"
    using i by (simp add: sampleIngest_def)
  note c1 = audit_step [OF audit_refl ok1 s1, simplified]
  have run: "auditRun sampleUnmarshal sampleMarshal ?tp (freshSvc, [])
      (consumerIter sampleUnmarshal ReadReply (\<lambda>_. sampleMsgEnv Committed AckDone) sv1, [?r])"
    by (rule audit_step [OF c1 _ pipeStep.consume [of "\<lambda>_. sampleMsgEnv Committed AckDone" _ _ _ _ _ ReadReply]])
      (simp_all add: sampleMsgEnv_def okEnv_def)
  have "cs_InvariantOK (snapshot (sv_ctr freshSvc) (inQueue True freshSvc))"
    by (simp add: InvariantOK_iff fresh_audit)
  from audit_equation [OF run fresh_audit(1) sample_codec this] run r1 show ?thesis by (auto simp: Let_def)
qed

text \<open>
  A record refused with 503 breaks the audit equation for good. When neither the stream nor the
  spill accepted the record, \<open>received\<close> has already been counted; the NAS will send it again and it will
  be received a second time, but \<open>invariant_ok\<close> is false from then on in every state the service reaches by
  the steps that keep the equation.
\<close>

theorem refused_record_breaks_audit:
  assumes "ingestHandler um m tp ie body sv = (Unavailable503, sv1)" and "auditInv um sv" and "i_add ie = AddFails"
    and "i_write ie = SeekFails \<or> \<not> sp_enabled (sv_spill sv)"
    and "\<And>r p. m r = Some p \<Longrightarrow> um p = Some r"
    and "cs_InvariantOK (snapshot (sv_ctr sv) (inQueue True sv))"
    and "auditRun um m tp (sv1, acked) (sv', acked')"
  shows "\<not> cs_InvariantOK (snapshot (sv_ctr sv') (inQueue True sv'))"
proof -
  have "auditGap sv1 = 1"
    using ingest_gap(1) [OF assms(1,2) _ assms(5)] assms(3,6) by (simp add: InvariantOK_iff)
  moreover have "auditInv um sv1" by (rule refused_keeps_inv [OF assms(1-4)])
  ultimately have "auditGap sv' = 1" using audit_run_kept [OF assms(7) _ assms(5)] by simp
  then show ?thesis by (simp add: InvariantOK_iff)
qed

theorem refused_record_breaks_audit_witness:
  "\<exists>sv1. ingestHandler sampleUnmarshal sampleMarshal (\<lambda>_ _. None) (sampleIngest AddFails SeekFails) [1] freshSvc
       = (Unavailable503, sv1)
     \<and> \<not> cs_InvariantOK (snapshot (sv_ctr sv1) (inQueue True sv1))"
proof -
  let ?tp = "\<lambda>_ _. None" and ?ie = "sampleIngest AddFails SeekFails"
  obtain sv1 where i: "ingestHandler sampleUnmarshal sampleMarshal ?tp ?ie [1] freshSvc = (Unavailable503, sv1)"
    using sample_parse
    by (simp add: ingestHandler_def sampleIngest_def durablyEnqueue_def enqueueStream_def freshSvc_def
        spillAppend_def sampleMarshal_def Let_def)
  have "cs_InvariantOK (snapshot (sv_ctr freshSvc) (inQueue True freshSvc))"
    by (simp add: InvariantOK_iff fresh_audit)
  from refused_record_breaks_audit [OF i fresh_audit(1) _ _ sample_codec this audit_refl] i show ?thesis
    by (simp add: sampleIngest_def)
qed

end
