(* ===== verification/AcctProgress.thy ===== *)
theory AcctProgress
  imports AcctAudit
begin

text \<open>
  What the accounting loops achieve: the consumer empties the stream once no record has to be
  retried; a record the database always refuses keeps everything behind it waiting; one pass of
  the reaper decides every session row on its own; the quota flag is the exact comparison of the
  cycle's usage with the allowance.
\<close>

section \<open>Iterations of the consumer\<close>

definition retried :: "(bytes \<Rightarrow> Record option) \<Rightarrow> (nat \<Rightarrow> MsgEnv) \<Rightarrow> Svc \<Rightarrow> bool" where
  "retried um envs sv = fst (processBatch um envs (fst (xreadgroup sv)) (snd (xreadgroup sv)))"

primrec consumeN :: "(bytes \<Rightarrow> Record option) \<Rightarrow> (nat \<Rightarrow> nat \<Rightarrow> MsgEnv) \<Rightarrow> nat \<Rightarrow> Svc \<Rightarrow> Svc" where
  "consumeN um E 0 sv = sv"
| "consumeN um E (Suc n) sv = consumerIter um ReadReply (E n) (consumeN um E n sv)"

text \<open>Every entry is pending or still to be delivered, and pending entries are going to be read.\<close>

definition deliverable :: "Svc \<Rightarrow> bool" where
  "deliverable sv \<longleftrightarrow> sorted_wrt (<) (map fst (sv_stream sv))
     \<and> (\<forall>e \<in> set (sv_stream sv). fst e \<in> set (sv_pel sv) \<or> sv_lastDelivered sv < fst e)
     \<and> (sv_backlog sv \<or> (\<forall>e \<in> set (sv_stream sv). fst e \<notin> set (sv_pel sv)))"

definition drainMeasure :: "Svc \<Rightarrow> nat" where
  "drainMeasure sv = 2 * length (sv_stream sv) + (if sv_backlog sv then 1 else 0)"

lemma ackDelete_done:
  "sv_stream (ackDelete AckDone i sv) = filter (\<lambda>e. fst e \<noteq> i) (sv_stream sv)"
  "sv_pel (ackDelete AckDone i sv) = removeAll i (sv_pel sv)"
  by (simp_all add: ackDelete_def)

lemma processBatch_done:
  assumes "processBatch um envs ms sv = (False, sv')" and "\<forall>i. m_ack (envs i) = AckDone"
  shows "sv_stream sv' = filter (\<lambda>e. fst e \<notin> fst ` set ms) (sv_stream sv)
       \<and> set (sv_pel sv') = set (sv_pel sv) - fst ` set ms
       \<and> sv_lastDelivered sv' = sv_lastDelivered sv \<and> sv_backlog sv' = sv_backlog sv"
  using assms
proof (induction ms arbitrary: sv)
  case (Cons m ms)
  obtain i p where m: "m = (i, p)" by (cases m)
  obtain res sv1 where pm: "processMessage um (envs i) p sv = (res, sv1)" by (cases "processMessage um (envs i) p sv")
  note fr = processMessage_frame [OF pm]
  have "processBatch um envs ms (ackDelete AckDone i sv1) = (False, sv')"
    using Cons.prems pm m by (auto split: msgResult.splits)
  from Cons.IH [OF this Cons.prems(2)] fr m show ?case
    by (auto simp: ackDelete_done intro!: filter_cong)
qed simp

lemma filter_take_sorted:
  "sorted_wrt (<) (map fst xs) \<Longrightarrow>
   filter (\<lambda>e. fst e \<notin> fst ` set (take n xs)) xs = drop n xs"
  for xs :: "(nat \<times> 'a) list"
proof (induction xs arbitrary: n)
  case (Cons x xs)
  show ?case
  proof (cases n)
    case (Suc k)
    have gt: "\<forall>e \<in> set xs. fst x < fst e" using Cons.prems by auto
    then have "filter (\<lambda>e. fst e \<notin> fst ` set (take (Suc k) (x # xs))) xs
        = filter (\<lambda>e. fst e \<notin> fst ` set (take k xs)) xs"
      by (intro filter_cong) auto
    then show ?thesis using Cons.IH [of k] Cons.prems Suc by simp
  qed simp
qed simp

lemma iter_backlog:
  assumes "deliverable sv" and "sv_backlog sv" and "\<not> retried um envs sv" and "\<forall>i. m_ack (envs i) = AckDone"
  shows "deliverable (consumerIter um ReadReply envs sv)
       \<and> drainMeasure (consumerIter um ReadReply envs sv) < drainMeasure sv"
proof -
  let ?msgs = "take readCount (pendingEntries sv)"
  have x: "xreadgroup sv = (?msgs, sv)" using assms(2) by (simp add: xreadgroup_def)
  show ?thesis
  proof (cases "?msgs = []")
    case True
    then have "pendingEntries sv = []" by (simp add: readCount_def)
    then show ?thesis using True x assms(1,2)
      by (auto simp: consumerIter_def deliverable_def drainMeasure_def pendingEntries_def filter_empty_conv)
  next
    case False
    obtain sv2 where b: "processBatch um envs ?msgs sv = (False, sv2)"
      using assms(3) x by (cases "processBatch um envs ?msgs sv") (auto simp: retried_def)
    note d = processBatch_done [OF b assms(4)]
    obtain e where e: "e \<in> set ?msgs" using False by (meson hd_in_set)
    then have "e \<in> set (sv_stream sv)" by (auto simp: pendingEntries_def dest: in_set_takeD)
    then have short: "length (sv_stream sv2) < length (sv_stream sv)"
      using d e by (metis (mono_tags, lifting) image_eqI length_filter_less)
    have srt: "sorted_wrt (<) (map fst (sv_stream sv2))"
      using d assms(1) by (simp add: deliverable_def sorted_wrt_map sorted_wrt_filter)
    have all: "\<forall>e \<in> set (sv_stream sv2). fst e \<in> set (sv_pel sv2) \<or> sv_lastDelivered sv2 < fst e"
      using d assms(1) by (auto simp: deliverable_def)
    have none: "\<forall>e \<in> set (sv_stream sv2). fst e \<notin> set (sv_pel sv2)" if "length ?msgs < readCount"
    proof -
      have "?msgs = pendingEntries sv" using that by simp
      then show ?thesis using d by (force simp: pendingEntries_def)
    qed
    let ?b = "\<not> length ?msgs < readCount"
    have "consumerIter um ReadReply envs sv = sv2\<lparr>sv_backlog := ?b\<rparr>"
      using x b False d assms(2) by (simp add: consumerIter_def)
    moreover have "deliverable (sv2\<lparr>sv_backlog := ?b\<rparr>)"
      using srt all none by (simp add: deliverable_def)
    moreover have "drainMeasure (sv2\<lparr>sv_backlog := ?b\<rparr>) < drainMeasure sv"
      using short assms(2) by (simp add: drainMeasure_def)
    ultimately show ?thesis by simp
  qed
qed

lemma iter_new:
  assumes "deliverable sv" and "\<not> sv_backlog sv" and "\<not> retried um envs sv" and "\<forall>i. m_ack (envs i) = AckDone"
    and "sv_stream sv \<noteq> []"
  shows "deliverable (consumerIter um ReadReply envs sv)
       \<and> drainMeasure (consumerIter um ReadReply envs sv) < drainMeasure sv"
proof -
  let ?msgs = "take readCount (sv_stream sv)"
  let ?sv1 = "sv\<lparr>sv_pel := sv_pel sv @ map fst ?msgs, sv_lastDelivered := fst (last ?msgs)\<rparr>"
  have srt: "sorted_wrt (<) (map fst (sv_stream sv))" and np: "\<forall>e \<in> set (sv_stream sv). fst e \<notin> set (sv_pel sv)"
    and fresh: "\<forall>e \<in> set (sv_stream sv). sv_lastDelivered sv < fst e"
    using assms(1,2) by (auto simp: deliverable_def)
  have ne: "?msgs \<noteq> []" using assms(5) by (simp add: readCount_def)
  have "newEntries sv = sv_stream sv" using fresh by (simp add: newEntries_def filter_id_conv)
  then have x: "xreadgroup sv = (?msgs, ?sv1)" using assms(2) ne by (simp add: xreadgroup_def Let_def)
  obtain sv2 where b: "processBatch um envs ?msgs ?sv1 = (False, sv2)"
    using assms(3) x by (cases "processBatch um envs ?msgs ?sv1") (auto simp: retried_def)
  note d = processBatch_done [OF b assms(4)]
  have st: "sv_stream sv2 = drop readCount (sv_stream sv)" using d filter_take_sorted [OF srt] by simp
  have ids: "set (sv_pel sv2) \<subseteq> set (sv_pel sv)" using d by auto
  have later: "fst (last ?msgs) < fst e" if "e \<in> set (drop readCount (sv_stream sv))" for e
  proof -
    have "sorted_wrt (<) (map fst ?msgs @ map fst (drop readCount (sv_stream sv)))"
      using srt by (simp flip: map_append)
    then show ?thesis using that last_in_set [OF ne] by (auto simp: sorted_wrt_append)
  qed
  have short: "length (sv_stream sv2) < length (sv_stream sv)"
    using st assms(5) by (simp add: readCount_def)
  have srt2: "sorted_wrt (<) (map fst (sv_stream sv2))" using st srt by (simp add: sorted_wrt_drop flip: drop_map)
  have "deliverable sv2"
    unfolding deliverable_def using srt2 st later d np ids by (auto dest: in_set_dropD)
  moreover have "\<not> sv_backlog sv2" using d assms(2) by simp
  ultimately show ?thesis using x b ne short assms(2) by (simp add: consumerIter_def drainMeasure_def)
qed

lemma iter_empty:
  "sv_stream sv = [] \<Longrightarrow> sv_stream (consumerIter um ReadReply envs sv) = []"
  using consumerIter_shrinks [of um ReadReply envs sv] by auto

lemma consumeN_progress:
  assumes "deliverable sv" and "\<forall>k < n. \<not> retried um (E k) (consumeN um E k sv)"
    and "\<forall>k i. m_ack (E k i) = AckDone"
  shows "sv_stream (consumeN um E n sv) = []
       \<or> deliverable (consumeN um E n sv) \<and> drainMeasure (consumeN um E n sv) + n \<le> drainMeasure sv"
  using assms(2)
proof (induction n)
  case (Suc n)
  let ?s = "consumeN um E n sv"
  have nr: "\<not> retried um (E n) ?s" and acks: "\<forall>i. m_ack (E n i) = AckDone" using Suc.prems assms(3) by auto
  show ?case
  proof (cases "sv_stream ?s = []")
    case True
    then show ?thesis using iter_empty by simp
  next
    case False
    with Suc have "deliverable ?s" "drainMeasure ?s + n \<le> drainMeasure sv" by auto
    with iter_backlog [OF _ _ nr acks] iter_new [OF _ _ nr acks] False show ?thesis
      by (cases "sv_backlog ?s") fastforce+
  qed
qed (use assms(1) in simp)

lemma boot_deliverable:
  assumes "sorted_wrt (<) (map fst (sv_stream sv))"
    and "\<forall>e \<in> set (sv_stream sv). fst e \<in> set (sv_pel sv) \<or> sv_lastDelivered sv < fst e"
  shows "deliverable (boot ok up sv)"
  using assms by (simp add: deliverable_def boot_def)

section \<open>A record the database always refuses\<close>

lemma upsert_bad_ip:
  assumes "e_inet env (r_FramedIP r) = None" and "r_FramedIP r \<noteq> []"
    and "r_RecordType r \<in> {RecordStart, RecordInterim}"
  shows "upsertSession env r b db = None"
  using assms
  by (auto simp: upsertSession_def writeSession_def writeStart_def writeInterim_def writeStop_def castIP_def Let_def
      record_type_defs split: option.splits prod.splits)

lemma processMessage_bad_ip:
  assumes "um p = Some r" and "e_inet (m_env me) (r_FramedIP r) = None" and "r_FramedIP r \<noteq> []"
    and "r_RecordType r \<in> {RecordStart, RecordInterim}"
    and "\<not> keyed (e_timeParse (m_env me)) (sv_db sv) r"
  shows "\<exists>c. processMessage um me p sv = (Retry, sv\<lparr>sv_nasCache := c\<rparr>)"
  using assms upsert_bad_ip [OF assms(2-4)]
  by (auto simp: processMessage_def recordTx_def keyed_def dedupKeyOf_def Let_def split: prod.split)

lemma iter_blocked:
  assumes "pendingEntries sv = (i, p) # rest" and "sv_backlog sv" and "um p = Some r"
    and "e_inet (m_env (envs i)) (r_FramedIP r) = None" and "r_FramedIP r \<noteq> []"
    and "r_RecordType r \<in> {RecordStart, RecordInterim}" and "\<not> keyed (e_timeParse (m_env (envs i))) (sv_db sv) r"
  shows "\<exists>c. consumerIter um ReadReply envs sv = sv\<lparr>sv_nasCache := c\<rparr>"
proof -
  obtain c where "processMessage um (envs i) p sv = (Retry, sv\<lparr>sv_nasCache := c\<rparr>)"
    using processMessage_bad_ip [of um p r "envs i" sv] assms(3-7) by blast
  moreover have "xreadgroup sv = ((i, p) # take 127 rest, sv)"
    using assms(1,2) by (simp add: xreadgroup_def readCount_def)
  ultimately show ?thesis using assms(2) by (auto simp: consumerIter_def intro!: exI [of _ c])
qed

section \<open>One pass of the reaper\<close>

definition reapDecision :: "duration \<Rightarrow> gotime \<Rightarrow> Session \<Rightarrow> Session" where
  "reapDecision interval now s =
     (let age = (case s_last_interim_at s of Some t \<Rightarrow> timeSub now t | None \<Rightarrow> 0) in
      if s_stopped_at s \<noteq> None then s
      else if age \<ge> reapAfter interval then reapedRow now s
      else if age \<ge> staleAfter interval \<and> \<not> s_stale s then s\<lparr>s_stale := True\<rparr>
      else s)"

lemma db_sessions_reapSession:
  assumes "\<not> re_fails re" and "map_of (db_sessions (sv_db sv)) k = Some s" and "s_stopped_at s = None"
  shows "db_sessions (sv_db (reapSession re now k s' sv)) = AList.update k (reapedRow now s) (db_sessions (sv_db sv))"
  using assms
  by (auto simp: reapSession_def Let_def putSession_def bumpReaped_def split: option.split
      dest!: incrementLifetimeSeconds_frame(1))

lemma timeSub_self [simp]: "timeSub t t = 0"
  by (simp add: timeSub_def)

lemma reapOne_rows:
  assumes "\<not> re_fails (res k)" and "map_of (db_sessions (sv_db sv)) k = Some s" and "s_stopped_at s = None"
  shows "map_of (db_sessions (sv_db (reapOne res iv now (k, s) sv))) =
         (map_of (db_sessions (sv_db sv)))(k \<mapsto> reapDecision iv now s)"
proof -
  let ?age = "case s_last_interim_at s of Some t \<Rightarrow> timeSub now t | None \<Rightarrow> 0"
  have age: "timeSub now (case s_last_interim_at s of Some t \<Rightarrow> t | None \<Rightarrow> now) = ?age"
    by (simp split: option.split)
  have stale: "db_sessions (sv_db (markStale (res k) k sv)) =
      AList.update k (s\<lparr>s_stale := True\<rparr>) (db_sessions (sv_db sv))"
    using assms by (simp add: markStale_def putSession_def Let_def)
  have keep: "(map_of (db_sessions (sv_db sv)))(k \<mapsto> s) = map_of (db_sessions (sv_db sv))"
    using assms(2) by (simp add: map_upd_triv)
  show ?thesis
    using assms age keep
    by (simp add: reapOne_def reapDecision_def Let_def stale db_sessions_reapSession update_conv')
qed

lemma map_of_filter_value:
  "distinct (map fst xs) \<Longrightarrow> map_of (filter (\<lambda>(k, s). P s) xs) k =
   (case map_of xs k of Some s \<Rightarrow> if P s then Some s else None | None \<Rightarrow> None)"
proof (induction xs)
  case (Cons x xs)
  obtain k0 s0 where x: "x = (k0, s0)" by (cases x)
  then have "map_of xs k0 = None" using Cons.prems by (simp add: map_of_eq_None_iff)
  with Cons x show ?case by (cases "k = k0") (simp_all split: option.split)
qed simp

lemma reap_fold_rows:
  assumes "distinct (map fst xs)" and "\<forall>(k, s) \<in> set xs. map_of (db_sessions (sv_db sv)) k = Some s \<and> s_stopped_at s = None"
    and "\<forall>k. \<not> re_fails (res k)"
  shows "map_of (db_sessions (sv_db (fold (reapOne res iv now) xs sv))) k =
         (case map_of xs k of Some s \<Rightarrow> Some (reapDecision iv now s) | None \<Rightarrow> map_of (db_sessions (sv_db sv)) k)"
  using assms(1,2)
proof (induction xs arbitrary: sv)
  case (Cons x xs)
  obtain k0 s0 where x: "x = (k0, s0)" by (cases x)
  let ?sv = "reapOne res iv now x sv"
  have rows: "map_of (db_sessions (sv_db ?sv)) = (map_of (db_sessions (sv_db sv)))(k0 \<mapsto> reapDecision iv now s0)"
    using reapOne_rows [of res k0 sv s0 iv now] Cons.prems(2) assms(3) x by auto
  have k0: "k0 \<notin> fst ` set xs" using Cons.prems(1) x by simp
  then have "\<forall>(k, s) \<in> set xs. map_of (db_sessions (sv_db ?sv)) k = Some s \<and> s_stopped_at s = None"
    using Cons.prems(2) rows by force
  moreover have "map_of xs k0 = None" using k0 by (simp add: map_of_eq_None_iff)
  ultimately show ?case
    using Cons.IH [of ?sv] Cons.prems(1) rows x by (cases "k = k0") (simp_all split: option.split)
qed simp

section \<open>Properties\<close>

text \<open>
  C32: the consumer empties the stream. From a state in which every entry is pending or not yet
  delivered and pending entries are going to be read (the state after every boot), after
  \<open>2 * length + 1\<close> iterations in which no record had to be retried the stream is empty, whatever
  the number of entries, the batch boundaries of 128 and the split into backlog and new entries.
\<close>

theorem consumer_drains:
  assumes "deliverable sv" and "\<forall>k < n. \<not> retried um (E k) (consumeN um E k sv)"
    and "\<forall>k i. m_ack (E k i) = AckDone" and "2 * length (sv_stream sv) + 1 \<le> n"
  shows "sv_stream (consumeN um E n sv) = []"
proof -
  have "drainMeasure sv \<le> n" using assms(4) by (simp add: drainMeasure_def)
  then have "drainMeasure (consumeN um E n sv) = 0" if "drainMeasure (consumeN um E n sv) + n \<le> drainMeasure sv"
    using that by simp
  moreover have "drainMeasure s = 0 \<Longrightarrow> sv_stream s = []" for s by (simp add: drainMeasure_def)
  ultimately show ?thesis using consumeN_progress [OF assms(1-3)] by blast
qed

theorem consumer_drains_witness:
  "sv_stream (consumeN (\<lambda>_. None) (\<lambda>_ _. sampleMsgEnv Committed AckDone) 5 (boot True True (xadd [2] (xadd [1] freshSvc)))) = []"
proof -
  let ?sv = "boot True True (xadd [2] (xadd [1] freshSvc))" and ?E = "\<lambda>_ _. sampleMsgEnv Committed AckDone"
  have no: "\<not> fst (processBatch (\<lambda>_. None) (\<lambda>_. sampleMsgEnv Committed AckDone) ms sv)" for ms sv
    by (induction ms arbitrary: sv) (auto simp: processMessage_def)
  have d: "deliverable ?sv" by (rule boot_deliverable) (auto simp: xadd_def freshSvc_def)
  have n: "2 * length (sv_stream ?sv) + 1 \<le> 5" by (simp add: boot_def xadd_def freshSvc_def)
  have r: "\<forall>k < 5. \<not> retried (\<lambda>_. None) (?E k) (consumeN (\<lambda>_. None) ?E k ?sv)" by (simp add: retried_def no)
  show ?thesis by (rule consumer_drains [OF d r _ n]) (simp add: sampleMsgEnv_def)
qed

text \<open>
  One record can stop accounting. When the first pending entry is a start or interim whose
  \<open>framed_ip\<close> PostgreSQL does not accept as an \<open>inet\<close>, every iteration ends on it: after any number of
  iterations the stream and the database are what they were, so no record behind it is ever applied,
  although the ingest handler accepted it and all other calls succeed.
\<close>

theorem poison_blocks_consumer:
  assumes "pendingEntries sv = (i, p) # rest" and "sv_backlog sv" and "um p = Some r"
    and "\<forall>k. e_inet (m_env (E k i)) (r_FramedIP r) = None \<and> e_timeParse (m_env (E k i)) = tp"
    and "r_FramedIP r \<noteq> []" and "r_RecordType r \<in> {RecordStart, RecordInterim}" and "\<not> keyed tp (sv_db sv) r"
  shows "sv_stream (consumeN um E n sv) = sv_stream sv \<and> sv_db (consumeN um E n sv) = sv_db sv"
proof -
  have "\<exists>c. consumeN um E n sv = sv\<lparr>sv_nasCache := c\<rparr>"
  proof (induction n)
    case 0
    show ?case by (rule exI [of _ "sv_nasCache sv"]) simp
  next
    case (Suc n)
    then obtain c where c: "consumeN um E n sv = sv\<lparr>sv_nasCache := c\<rparr>" by blast
    have "\<exists>c'. consumerIter um ReadReply (E n) (sv\<lparr>sv_nasCache := c\<rparr>) = sv\<lparr>sv_nasCache := c, sv_nasCache := c'\<rparr>"
      using assms by (intro iter_blocked [of _ i p rest um r]) (simp_all add: pendingEntries_def)
    then show ?case using c by auto
  qed
  then show ?thesis by auto
qed

theorem poison_blocks_consumer_witness:
  "let r = (sampleRecord RecordStart 5 10)\<lparr>r_FramedIP := ''999.1.1.1''\<rparr>;
       um = (\<lambda>p. if p = [1] then Some r else Some (sampleRecord RecordStart 5 10));
       env = (sampleMsgEnv Committed AckDone)\<lparr>m_env := okEnv\<lparr>e_inet := (\<lambda>ip. if ip = ''999.1.1.1'' then None else Some ip)\<rparr>\<rparr>;
       sv = (boot True True (xadd [2] (xadd [1] freshSvc)))\<lparr>sv_pel := [1, 2]\<rparr>
   in length (sv_stream (consumeN um (\<lambda>_ _. env) 1000 sv)) = 2"
proof -
  let ?r = "(sampleRecord RecordStart 5 10)\<lparr>r_FramedIP := ''999.1.1.1''\<rparr>"
  let ?um = "\<lambda>p. if p = [1] then Some ?r else Some (sampleRecord RecordStart 5 10)"
  let ?env = "(sampleMsgEnv Committed AckDone)\<lparr>m_env := okEnv\<lparr>e_inet := (\<lambda>ip. if ip = ''999.1.1.1'' then None else Some ip)\<rparr>\<rparr>"
  let ?sv = "(boot True True (xadd [2] (xadd [1] freshSvc)))\<lparr>sv_pel := [1, 2]\<rparr>"
  have "sv_stream (consumeN ?um (\<lambda>_ _. ?env) 1000 ?sv) = sv_stream ?sv"
    by (rule conjunct1 [OF poison_blocks_consumer [of ?sv 1 "[1]" "[(2, [2])]" ?um ?r _ "\<lambda>_ _. None"]])
      (simp_all add: pendingEntries_def boot_def xadd_def freshSvc_def sampleMsgEnv_def okEnv_def keyed_def
        emptyDB_def sampleRecord_def)
  then show ?thesis by (simp add: Let_def boot_def xadd_def freshSvc_def)
qed

text \<open>
  One reaper pass decides every session row on its own. With no failed statement, each row
  afterwards is a function of that row and the clock: a closed row is untouched; an open row silent
  for three intervals and five minutes is closed at its last interim and flagged; one silent for two intervals
  is flagged stale; every other row is unchanged, and no row appears or disappears.
\<close>

theorem reapOnce_pointwise:
  assumes "distinct (map fst (db_sessions (sv_db sv)))" and "\<forall>k. \<not> re_fails (res k)"
  shows "map_of (db_sessions (sv_db (reapOnce False res iv now sv))) k =
         map_option (reapDecision iv now) (map_of (db_sessions (sv_db sv)) k)"
proof -
  let ?rows = "db_sessions (sv_db sv)"
  let ?xs = "filter (\<lambda>(k, s). s_stopped_at s = None) ?rows"
  have d: "distinct (map fst ?xs)" using assms(1) by (simp add: distinct_map_filter)
  have mem: "\<forall>(k, s) \<in> set ?xs. map_of ?rows k = Some s \<and> s_stopped_at s = None"
    using assms(1) by auto
  have xs: "map_of ?xs k = (case map_of ?rows k of Some s \<Rightarrow> if s_stopped_at s = None then Some s else None | None \<Rightarrow> None)"
    by (rule map_of_filter_value [OF assms(1)])
  show ?thesis
    using reap_fold_rows [OF d mem assms(2), of iv now k] xs
    by (auto simp: reapOnce_def reapDecision_def split: option.splits)
qed

definition sampleSession :: Session where
  "sampleSession = insertedSession (sampleRecord RecordStart 5 0) sampleBinding None 5 5 0"

definition sampleReap :: ReapEnv where
  "sampleReap = \<lparr>re_fails = False, re_bumpFails = False, re_lifeFails = False, re_liveUp = True\<rparr>"

theorem reapOnce_pointwise_witness:
  "let sv = freshSvc\<lparr>sv_db := emptyDB\<lparr>db_sessions := [((''N1'', ''81''), sampleSession)]\<rparr>\<rparr>
   in map_option s_reaped (map_of (db_sessions (sv_db (reapOnce False (\<lambda>_. sampleReap) minute (9 * minute) sv))) (''N1'', ''81''))
      = Some True"
proof -
  let ?sv = "freshSvc\<lparr>sv_db := emptyDB\<lparr>db_sessions := [((''N1'', ''81''), sampleSession)]\<rparr>\<rparr>"
  have "map_of (db_sessions (sv_db (reapOnce False (\<lambda>_. sampleReap) minute (9 * minute) ?sv))) (''N1'', ''81'')
      = map_option (reapDecision minute (9 * minute)) (map_of (db_sessions (sv_db ?sv)) (''N1'', ''81''))"
    by (rule reapOnce_pointwise) (simp_all add: sampleReap_def)
  moreover have "s_reaped (reapDecision minute (9 * minute) sampleSession)"
    by (simp add: reapDecision_def sampleSession_def insertedSession_def sampleRecord_def reapAfter_def
        reapedRow_def timeSub_def minute_def second_def pgTime_def Let_def wrap64_def)
  ultimately show ?thesis by simp
qed

text \<open>
  The quota flag is exact. When the quota view answers with a row in mode \<open>total\<close> and the usage can
  be read, the subscriber's flag becomes true exactly when an allowance is set and the bytes of both
  directions recorded since the cycle's anchor, hotspot usage excepted, reach it; no other
  subscriber's flag changes.
\<close>

theorem quota_flag_exact:
  assumes "sub \<noteq> []" and "sv_viewMissingUntil sv = 0" and "qc_Mode cfg = ''total''"
    and "inInt64 (quotaUsage up_down sub (qc_CycleAnchor cfg) (db_usage (sv_db sv)))"
    and "inInt64 (quotaUsage up_up sub (qc_CycleAnchor cfg) (db_usage (sv_db sv)))"
    and "inInt64 (quotaUsage up_down sub (qc_CycleAnchor cfg) (db_usage (sv_db sv))
                + quotaUsage up_up sub (qc_CycleAnchor cfg) (db_usage (sv_db sv)))"
  shows "sv_quota (applyQuota (QuotaRow cfg) False now True sub sv) s =
     (if s = sub
      then qc_TotalBytes cfg > 0 \<and>
        qc_TotalBytes cfg \<le> (\<Sum>u \<leftarrow> filter (\<lambda>u. up_subscriber u = Some sub \<and> up_service u \<noteq> ''hotspot''
            \<and> pgTime (qc_CycleAnchor cfg) \<le> up_time u) (db_usage (sv_db sv)). up_down u + up_up u)
      else sv_quota sv s)"
  using assms
  by (auto simp: applyQuota_def quotaEvaluate_def quotaExhausted_def Let_def wrap64_id quotaUsage_def sum_list_addf)

theorem quota_flag_exact_witness:
  "let u = \<lparr>up_time = 5, up_subscriber = Some ''S1'', up_nas = ''N1'', up_down = 70, up_up = 40, up_service = ''pppoe'', up_card = None\<rparr>;
       sv = freshSvc\<lparr>sv_db := emptyDB\<lparr>db_usage := [u, u\<lparr>up_service := ''hotspot''\<rparr>]\<rparr>\<rparr>;
       cfg = \<lparr>qc_Mode = ''total'', qc_TotalBytes = 110, qc_DownBytes = 0, qc_UpBytes = 0, qc_CycleAnchor = 0\<rparr>
   in sv_quota (applyQuota (QuotaRow cfg) False 10 True ''S1'' sv) ''S1''
      \<and> \<not> sv_quota (applyQuota (QuotaRow (cfg\<lparr>qc_TotalBytes := 111\<rparr>)) False 10 True ''S1'' sv) ''S1''"
proof -
  let ?u = "\<lparr>up_time = 5, up_subscriber = Some ''S1'', up_nas = ''N1'', up_down = 70, up_up = 40, up_service = ''pppoe'', up_card = None\<rparr>"
  let ?sv = "freshSvc\<lparr>sv_db := emptyDB\<lparr>db_usage := [?u, ?u\<lparr>up_service := ''hotspot''\<rparr>]\<rparr>\<rparr>"
  let ?cfg = "\<lparr>qc_Mode = ''total'', qc_TotalBytes = 110, qc_DownBytes = 0, qc_UpBytes = 0, qc_CycleAnchor = 0\<rparr>"
  have "sv_quota (applyQuota (QuotaRow cfg) False 10 True ''S1'' ?sv) ''S1'' = (qc_TotalBytes cfg \<le> 110)"
    if "cfg = ?cfg \<or> cfg = ?cfg\<lparr>qc_TotalBytes := 111\<rparr>" for cfg
    using quota_flag_exact [of "''S1''" ?sv cfg 10 "''S1''"] that
    by (auto simp: freshSvc_def quotaUsage_def pgTime_def inInt64_def)
  from this [of ?cfg] this [of "?cfg\<lparr>qc_TotalBytes := 111\<rparr>"] show ?thesis by (simp add: Let_def)
qed

end
