(* ===== verification/RadLimits.thy ===== *)
theory RadLimits
  imports Vendor
begin

text \<open>
  The limits engine of \<^verbatim>\<open>backend/internal/radius/limits.go\<close> and the window arithmetic of \<^verbatim>\<open>tod.go\<close>, over the
  policy read-model \<open>AuthView\<close> of \<^verbatim>\<open>authview.go\<close>: which limit decides, with which action, and which rate,
  pool and speed window the reply carries.

  Instants are read in Asia/Baghdad, which is UTC+3 without daylight saving.
\<close>

section \<open>The read-model\<close>

record NASScope =
  ns_NASID :: string
  ns_ServiceID :: string

record SpeedWindow =
  sw_ID :: string
  sw_ProfileID :: string
  sw_Label :: string
  sw_DaysMask :: int
  sw_StartMin :: int
  sw_EndMin :: int
  sw_Rate :: string

record AuthView =
  v_SubscriberID :: string
  v_PasswordEnc :: bytes
  v_Status :: string
  v_ExpiresAt :: gotime
  v_ExpiryBehavior :: string
  v_QuotaBehavior :: string
  v_QuotaExhausted :: bool
  v_RateLimit :: string
  v_PoolName :: string
  v_ExpiredPoolName :: string
  v_SessionLimit :: int
  v_MacLockMode :: string
  v_LearnedMac :: string
  v_ThrottleRate :: string
  v_HotspotRateLimit :: string
  v_ServiceType :: string
  v_Scopes :: "NASScope list"
  v_StaticIP :: string
  v_BurstRate :: string
  v_BurstThreshold :: string
  v_BurstTime :: string
  v_RatePriority :: string
  v_MinRate :: string
  v_AddressList :: string
  v_DelegatedPrefix :: string
  v_ExpiryThrottleRate :: string
  v_ExpiryPoolOverride :: string
  v_ExpirySwitchRate :: string
  v_ExpirySwitchPool :: string
  v_QuotaPoolOverride :: string
  v_QuotaSwitchRate :: string
  v_QuotaSwitchPool :: string
  v_UptimeLimitSeconds :: int
  v_UptimeUsedSeconds :: int
  v_UptimeExhaustAction :: string
  v_UptimeThrottleRate :: string
  v_UptimePoolOverride :: string
  v_UptimeSwitchRate :: string
  v_UptimeSwitchPool :: string
  v_DailyLimitBytes :: int
  v_DailyUsedBytes :: int
  v_DailyResetMin :: int
  v_DailyExhaustAction :: string
  v_DailyThrottleRate :: string
  v_DailyPoolOverride :: string
  v_DailySwitchRate :: string
  v_DailySwitchPool :: string
  v_SpeedWindows :: "SpeedWindow list"

fun scopeAllows :: "NASScope list \<Rightarrow> string \<Rightarrow> string \<Rightarrow> bool" where
  "scopeAllows scopes nasID serviceID =
     (scopes = [] \<or> list_ex (\<lambda>s. ns_NASID s = nasID \<and> (ns_ServiceID s = '''' \<or> ns_ServiceID s = serviceID)) scopes)"

section \<open>Actions and limits\<close>

datatype outcomeMode = modeNormal | modeThrottled | modeExpiredPool | modeSwitchPlan

record limitAction =
  la_Mode :: outcomeMode
  la_Rate :: string
  la_Pool :: string

definition resolveAction :: "string \<Rightarrow> string \<Rightarrow> string \<Rightarrow> string \<Rightarrow> string \<Rightarrow> bool \<times> limitAction" where
  "resolveAction action throttleRate poolOverride switchRate switchPool =
     (if action = ''throttle'' then (False, \<lparr>la_Mode = modeThrottled, la_Rate = throttleRate, la_Pool = ''''\<rparr>)
      else if action = ''expired_pool'' then (False, \<lparr>la_Mode = modeExpiredPool, la_Rate = '''', la_Pool = poolOverride\<rparr>)
      else if action = ''switch_plan'' then (False, \<lparr>la_Mode = modeSwitchPlan, la_Rate = switchRate, la_Pool = switchPool\<rparr>)
      else (True, \<lparr>la_Mode = modeNormal, la_Rate = '''', la_Pool = ''''\<rparr>))"

record policyOutcome =
  po_Reject :: bool
  po_Reason :: string
  po_Mode :: outcomeMode
  po_Rate :: string
  po_Pool :: string
  po_Kind :: string

definition ReasonExpired :: string where "ReasonExpired = ''expired''"
definition ReasonQuotaExhausted :: string where "ReasonQuotaExhausted = ''quota_exhausted''"
definition ReasonUptimeExhausted :: string where "ReasonUptimeExhausted = ''uptime_exhausted''"
definition ReasonDailyExhausted :: string where "ReasonDailyExhausted = ''daily_exhausted''"

definition quotaExempt :: "string \<Rightarrow> bool \<Rightarrow> bool" where
  "quotaExempt serviceType hotspot \<longleftrightarrow> hotspot \<and> serviceType = ''dual''"

text \<open>The outcome of one exhausted limit: a rejection with its reason, or the resolved action.\<close>

definition limitOutcome :: "string \<Rightarrow> string \<Rightarrow> bool \<times> limitAction \<Rightarrow> policyOutcome" where
  "limitOutcome kind reason ra =
     (case ra of (reject, la) \<Rightarrow>
        if reject then \<lparr>po_Reject = True, po_Reason = reason, po_Mode = modeNormal, po_Rate = '''', po_Pool = '''', po_Kind = kind\<rparr>
        else \<lparr>po_Reject = False, po_Reason = '''', po_Mode = la_Mode la, po_Rate = la_Rate la, po_Pool = la_Pool la, po_Kind = kind\<rparr>)"

definition evaluateLimits :: "AuthView \<Rightarrow> bool \<Rightarrow> bool \<Rightarrow> policyOutcome" where
  "evaluateLimits view hotspot isExpired =
     (if isExpired then
        limitOutcome ''expiry'' ReasonExpired
          (resolveAction (v_ExpiryBehavior view) (v_ExpiryThrottleRate view) (v_ExpiryPoolOverride view)
             (v_ExpirySwitchRate view) (v_ExpirySwitchPool view))
      else if \<not> quotaExempt (v_ServiceType view) hotspot \<and> v_QuotaExhausted view then
        limitOutcome ''quota'' ReasonQuotaExhausted
          (resolveAction (v_QuotaBehavior view) (v_ThrottleRate view) (v_QuotaPoolOverride view)
             (v_QuotaSwitchRate view) (v_QuotaSwitchPool view))
      else if v_UptimeLimitSeconds view > 0 \<and> v_UptimeUsedSeconds view \<ge> v_UptimeLimitSeconds view then
        limitOutcome ''uptime'' ReasonUptimeExhausted
          (resolveAction (v_UptimeExhaustAction view) (v_UptimeThrottleRate view) (v_UptimePoolOverride view)
             (v_UptimeSwitchRate view) (v_UptimeSwitchPool view))
      else if v_DailyLimitBytes view > 0 \<and> v_DailyUsedBytes view \<ge> v_DailyLimitBytes view then
        (let action = (if v_DailyExhaustAction view = '''' then ''throttle'' else v_DailyExhaustAction view)
         in limitOutcome ''daily'' ReasonDailyExhausted
              (resolveAction action (v_DailyThrottleRate view) (v_DailyPoolOverride view)
                 (v_DailySwitchRate view) (v_DailySwitchPool view)))
      else \<lparr>po_Reject = False, po_Reason = '''', po_Mode = modeNormal, po_Rate = '''', po_Pool = '''', po_Kind = ''''\<rparr>)"

section \<open>Rates and pools\<close>

definition expiredPoolFallbackRate :: string where "expiredPoolFallbackRate = ''1M/1M''"

definition composeRate :: "AuthView \<Rightarrow> string \<Rightarrow> string" where
  "composeRate view base =
     (if base = '''' then ''''
      else if v_BurstRate view = '''' \<and> v_BurstThreshold view = '''' \<and> v_BurstTime view = ''''
              \<and> v_RatePriority view = '''' \<and> v_MinRate view = '''' then base
      else ComposeRate \<lparr>rs_Rate = base, rs_BurstRate = v_BurstRate view, rs_BurstThreshold = v_BurstThreshold view,
             rs_BurstTime = v_BurstTime view, rs_Priority = v_RatePriority view, rs_MinRate = v_MinRate view\<rparr>)"

definition normalRate :: "AuthView \<Rightarrow> bool \<Rightarrow> string \<Rightarrow> string" where
  "normalRate view hotspot windowRate =
     (let rate = (if hotspot \<and> v_HotspotRateLimit view \<noteq> '''' then v_HotspotRateLimit view else v_RateLimit view);
          rate' = (if windowRate \<noteq> '''' then windowRate else rate)
      in composeRate view rate')"

definition throttleOrSwitchRate :: "AuthView \<Rightarrow> policyOutcome \<Rightarrow> string" where
  "throttleOrSwitchRate view oc = (if po_Rate oc \<noteq> '''' then po_Rate oc else v_RateLimit view)"

text \<open>The pair is \<open>(rate, pool)\<close>.\<close>

definition expiredPoolRateAndPool :: "AuthView \<Rightarrow> policyOutcome \<Rightarrow> string \<times> string" where
  "expiredPoolRateAndPool view oc =
     (let pool = (if po_Pool oc = '''' then v_ExpiredPoolName view else po_Pool oc);
          rate = (if po_Rate oc = '''' then v_ThrottleRate view else po_Rate oc);
          rate' = (if rate = '''' then expiredPoolFallbackRate else rate)
      in (rate', pool))"

definition limitCheckLabel :: "outcomeMode \<Rightarrow> string" where
  "limitCheckLabel m = (case m of modeThrottled \<Rightarrow> ''throttled'' | modeExpiredPool \<Rightarrow> ''expired_pool''
      | modeSwitchPlan \<Rightarrow> ''switch_plan'' | modeNormal \<Rightarrow> '''')"

section \<open>Windows\<close>

record TODWindow =
  tw_ProfileID :: string
  tw_Label :: string
  tw_StartMin :: int
  tw_EndMin :: int
  tw_BoostRate :: string
  tw_NormalRate :: string
  tw_Exempt :: bool

definition windowActive :: "TODWindow \<Rightarrow> int \<Rightarrow> bool" where
  "windowActive w m =
     (if tw_StartMin w = tw_EndMin w then False
      else if tw_StartMin w < tw_EndMin w then tw_StartMin w \<le> m \<and> m < tw_EndMin w
      else tw_StartMin w \<le> m \<or> m < tw_EndMin w)"

definition dayLength :: duration where "dayLength = 1440 * minute"

text \<open>\<^verbatim>\<open>t.In(serverLocation())\<close>: the local clock; weekday 0 is Sunday, 1 January 1970 was a Thursday.\<close>

definition inServerLocation :: "gotime \<Rightarrow> int" where
  "inServerLocation t = t + 180 * minute"

definition minuteOfDay :: "int \<Rightarrow> int" where
  "minuteOfDay lt = (lt mod dayLength) div minute"

definition weekday :: "int \<Rightarrow> nat" where
  "weekday lt = nat ((lt div dayLength + 4) mod 7)"

definition speedWindowActive :: "SpeedWindow \<Rightarrow> int \<Rightarrow> bool" where
  "speedWindowActive w lt =
     (if sw_DaysMask w \<noteq> 0 \<and> sw_DaysMask w AND push_bit (weekday lt) 1 = 0 then False
      else windowActive \<lparr>tw_ProfileID = '''', tw_Label = '''', tw_StartMin = sw_StartMin w, tw_EndMin = sw_EndMin w,
                         tw_BoostRate = '''', tw_NormalRate = '''', tw_Exempt = False\<rparr> (minuteOfDay lt))"

text \<open>\<^verbatim>\<open>strings.TrimSuffix\<close> on one letter, and \<^verbatim>\<open>strings.SplitN(rate, "/", 2)\<close>.\<close>

definition hasLast :: "char \<Rightarrow> string \<Rightarrow> bool" where
  "hasLast c s \<longleftrightarrow> s \<noteq> [] \<and> last s = c"

definition splitSlash :: "string \<Rightarrow> string list" where
  "splitSlash s = (let a = takeWhile (\<lambda>c. c \<noteq> CHR ''/'') s in
     if length a = length s then [a] else [a, drop (Suc (length a)) s])"

definition parseRateKbps :: "string \<Rightarrow> int" where
  "parseRateKbps tok =
     (let tok = trimSpace tok in
      if tok = '''' then 0
      else let (mult, tok') = (if hasLast (CHR ''M'') tok then (1024, butlast tok)
                               else if hasLast (CHR ''k'') tok then (1, butlast tok) else (1, tok))
           in case parseInt64 tok' of None \<Rightarrow> 0 | Some n \<Rightarrow> wrap64 (n * mult))"

definition rateMagnitude :: "string \<Rightarrow> int" where
  "rateMagnitude rate = foldl (\<lambda>total p. wrap64 (total + parseRateKbps p)) 0 (splitSlash rate)"

fun selectLoop :: "SpeedWindow list \<Rightarrow> int \<Rightarrow> SpeedWindow option \<Rightarrow> SpeedWindow option" where
  "selectLoop [] lt best = best"
| "selectLoop (w # ws) lt best =
     (if \<not> speedWindowActive w lt then selectLoop ws lt best
      else if (case best of None \<Rightarrow> True | Some b \<Rightarrow> rateMagnitude (sw_Rate w) > rateMagnitude (sw_Rate b))
           then selectLoop ws lt (Some w) else selectLoop ws lt best)"

definition selectSpeedWindow :: "SpeedWindow list \<Rightarrow> int \<Rightarrow> SpeedWindow option" where
  "selectSpeedWindow windows lt = selectLoop windows lt None"

section \<open>Specification of the order of limits\<close>

definition exhausted :: "AuthView \<Rightarrow> bool \<Rightarrow> bool \<Rightarrow> string \<Rightarrow> bool" where
  "exhausted v hotspot expired k =
     (if k = ''expiry'' then expired
      else if k = ''quota'' then \<not> (hotspot \<and> v_ServiceType v = ''dual'') \<and> v_QuotaExhausted v
      else if k = ''uptime'' then 0 < v_UptimeLimitSeconds v \<and> v_UptimeLimitSeconds v \<le> v_UptimeUsedSeconds v
      else if k = ''daily'' then 0 < v_DailyLimitBytes v \<and> v_DailyLimitBytes v \<le> v_DailyUsedBytes v
      else False)"

definition actionOf :: "AuthView \<Rightarrow> string \<Rightarrow> string" where
  "actionOf v k =
     (if k = ''expiry'' then v_ExpiryBehavior v
      else if k = ''quota'' then v_QuotaBehavior v
      else if k = ''uptime'' then v_UptimeExhaustAction v
      else if v_DailyExhaustAction v = '''' then ''throttle'' else v_DailyExhaustAction v)"

definition modeOf :: "string \<Rightarrow> outcomeMode option" where
  "modeOf a = (if a = ''throttle'' then Some modeThrottled else if a = ''expired_pool'' then Some modeExpiredPool
     else if a = ''switch_plan'' then Some modeSwitchPlan else None)"

definition limitOrder :: "string list" where
  "limitOrder = [''expiry'', ''quota'', ''uptime'', ''daily'']"

lemma limitOutcome_resolve:
  "limitOutcome k reason (resolveAction a t p sr sp) =
   (case modeOf a of
      None \<Rightarrow> \<lparr>po_Reject = True, po_Reason = reason, po_Mode = modeNormal, po_Rate = '''', po_Pool = '''', po_Kind = k\<rparr>
    | Some m \<Rightarrow> \<lparr>po_Reject = False, po_Reason = '''', po_Mode = m,
        po_Rate = (if m = modeThrottled then t else if m = modeSwitchPlan then sr else ''''),
        po_Pool = (if m = modeExpiredPool then p else if m = modeSwitchPlan then sp else ''''), po_Kind = k\<rparr>)"
  by (simp add: limitOutcome_def resolveAction_def modeOf_def)

lemma modeOf_not_normal [simp]: "modeOf a \<noteq> Some modeNormal"
  by (simp add: modeOf_def)

lemma selectLoop_spec:
  "case selectLoop ws lt best of
     None \<Rightarrow> best = None \<and> (\<forall>w \<in> set ws. \<not> speedWindowActive w lt)
   | Some w \<Rightarrow> (best = Some w \<or> w \<in> set ws \<and> speedWindowActive w lt)
        \<and> (\<forall>b. best = Some b \<longrightarrow> rateMagnitude (sw_Rate b) \<le> rateMagnitude (sw_Rate w))
        \<and> (\<forall>w' \<in> set ws. speedWindowActive w' lt \<longrightarrow> rateMagnitude (sw_Rate w') \<le> rateMagnitude (sw_Rate w))"
proof (induction ws lt best rule: selectLoop.induct)
  case (1 lt best)
  then show ?case by (simp split: option.split)
next
  case (2 w ws lt best)
  then show ?case by (cases best; cases "speedWindowActive w lt") (fastforce split: option.splits if_splits)+
qed

section \<open>Properties\<close>

text \<open>
  C7: the frozen order of limits. Expiry, quota, uptime and daily are consulted in this order and the first
  exhausted one alone decides: its kind is reported, its configured action selects the mode, and an
  action that is not one of throttle, expired pool and switch plan (including none) rejects.
  With nothing exhausted the outcome is the normal reply.
\<close>

theorem evaluateLimits_first_exhausted:
  "let oc = evaluateLimits v hotspot expired in
   case filter (exhausted v hotspot expired) limitOrder of
     [] \<Rightarrow> po_Kind oc = '''' \<and> \<not> po_Reject oc \<and> po_Mode oc = modeNormal
   | k # _ \<Rightarrow> po_Kind oc = k
       \<and> (case modeOf (actionOf v k) of None \<Rightarrow> po_Reject oc | Some m \<Rightarrow> \<not> po_Reject oc \<and> po_Mode oc = m)"
proof -
  let ?ex = "exhausted v hotspot expired"
  have oc: "evaluateLimits v hotspot expired =
      (if ?ex ''expiry'' then limitOutcome ''expiry'' ReasonExpired (resolveAction (actionOf v ''expiry'')
          (v_ExpiryThrottleRate v) (v_ExpiryPoolOverride v) (v_ExpirySwitchRate v) (v_ExpirySwitchPool v))
       else if ?ex ''quota'' then limitOutcome ''quota'' ReasonQuotaExhausted (resolveAction (actionOf v ''quota'')
          (v_ThrottleRate v) (v_QuotaPoolOverride v) (v_QuotaSwitchRate v) (v_QuotaSwitchPool v))
       else if ?ex ''uptime'' then limitOutcome ''uptime'' ReasonUptimeExhausted (resolveAction (actionOf v ''uptime'')
          (v_UptimeThrottleRate v) (v_UptimePoolOverride v) (v_UptimeSwitchRate v) (v_UptimeSwitchPool v))
       else if ?ex ''daily'' then limitOutcome ''daily'' ReasonDailyExhausted (resolveAction (actionOf v ''daily'')
          (v_DailyThrottleRate v) (v_DailyPoolOverride v) (v_DailySwitchRate v) (v_DailySwitchPool v))
       else \<lparr>po_Reject = False, po_Reason = '''', po_Mode = modeNormal, po_Rate = '''', po_Pool = '''', po_Kind = ''''\<rparr>)"
    by (simp add: evaluateLimits_def exhausted_def actionOf_def quotaExempt_def Let_def)
  have step: "po_Kind (limitOutcome k reason (resolveAction a t p sr sp)) = k
      \<and> (case modeOf a of None \<Rightarrow> po_Reject (limitOutcome k reason (resolveAction a t p sr sp))
         | Some m \<Rightarrow> \<not> po_Reject (limitOutcome k reason (resolveAction a t p sr sp))
             \<and> po_Mode (limitOutcome k reason (resolveAction a t p sr sp)) = m)" for k reason a t p sr sp
    by (simp add: limitOutcome_resolve split: option.split)
  show ?thesis
    unfolding oc limitOrder_def Let_def
    by (cases "?ex ''expiry''"; cases "?ex ''quota''"; cases "?ex ''uptime''"; cases "?ex ''daily''")
      (simp_all only: filter.simps if_True if_False list.case step policyOutcome.simps simp_thms)
qed

text \<open>
  The speed window. \<^verbatim>\<open>selectSpeedWindow\<close> finds a window exactly when one is active, and the one it
  returns is active and has the highest combined rate of all active windows.
\<close>

theorem selectSpeedWindow_highest:
  "case selectSpeedWindow ws lt of
     None \<Rightarrow> \<forall>w \<in> set ws. \<not> speedWindowActive w lt
   | Some w \<Rightarrow> w \<in> set ws \<and> speedWindowActive w lt
       \<and> (\<forall>w' \<in> set ws. speedWindowActive w' lt \<longrightarrow> rateMagnitude (sw_Rate w') \<le> rateMagnitude (sw_Rate w))"
  using selectLoop_spec [where ws = ws and lt = lt and best = None] by (simp add: selectSpeedWindow_def split: option.splits)

theorem selectSpeedWindow_highest_witness:
  "let w = \<lparr>sw_ID = ''w'', sw_ProfileID = '''', sw_Label = '''', sw_DaysMask = 0, sw_StartMin = 1380, sw_EndMin = 420,
             sw_Rate = ''4M/4M''\<rparr>;
       v = w\<lparr>sw_Rate := ''2M/2M''\<rparr>
   in \<exists>b. selectSpeedWindow [v, w] 0 = Some b \<and> rateMagnitude (sw_Rate w) \<le> rateMagnitude (sw_Rate b)"
proof -
  let ?w = "\<lparr>sw_ID = ''w'', sw_ProfileID = '''', sw_Label = '''', sw_DaysMask = 0, sw_StartMin = 1380, sw_EndMin = 420,
             sw_Rate = ''4M/4M''\<rparr>"
  have "speedWindowActive ?w 0"
    by (simp add: speedWindowActive_def windowActive_def minuteOfDay_def dayLength_def minute_def second_def)
  then show ?thesis
    using selectSpeedWindow_highest [of "[?w\<lparr>sw_Rate := ''2M/2M''\<rparr>, ?w]" 0] by (auto split: option.splits)
qed

text \<open>
  The length of a window. For start and end minutes of a day, the window is active in exactly
  \<open>(end - start) mod 1440\<close> of the day's 1440 minutes, wrapped past midnight or not; in particular
  equal bounds mean never.
\<close>

theorem windowActive_length:
  assumes "0 \<le> tw_StartMin w" and "tw_StartMin w < 1440" and "0 \<le> tw_EndMin w" and "tw_EndMin w < 1440"
  shows "int (card {m \<in> {0..<1440}. windowActive w m}) = (tw_EndMin w - tw_StartMin w) mod 1440"
proof -
  consider (eq) "tw_StartMin w = tw_EndMin w" | (lt) "tw_StartMin w < tw_EndMin w" | (gt) "tw_EndMin w < tw_StartMin w"
    by linarith
  then show ?thesis
  proof cases
    case eq
    then show ?thesis by (simp add: windowActive_def)
  next
    case lt
    then have "{m \<in> {0..<1440}. windowActive w m} = {tw_StartMin w..<tw_EndMin w}"
      using assms by (auto simp: windowActive_def)
    then show ?thesis using lt assms by simp
  next
    case gt
    then have "{m \<in> {0..<1440}. windowActive w m} = {0..<tw_EndMin w} \<union> {tw_StartMin w..<1440}"
      using assms by (auto simp: windowActive_def)
    moreover have "card ({0..<tw_EndMin w} \<union> {tw_StartMin w..<1440}) = nat (tw_EndMin w) + nat (1440 - tw_StartMin w)"
      using gt by (subst card_Un_disjoint) auto
    moreover have "(tw_EndMin w - tw_StartMin w) mod 1440 = tw_EndMin w - tw_StartMin w + 1440"
      using gt assms mod_pos_pos_trivial [of "tw_EndMin w - tw_StartMin w + 1440" 1440] by simp
    ultimately show ?thesis using assms by simp
  qed
qed

theorem windowActive_length_witness:
  "int (card {m \<in> {0..<1440}. windowActive \<lparr>tw_ProfileID = ''p'', tw_Label = '''', tw_StartMin = 1380, tw_EndMin = 420,
      tw_BoostRate = '''', tw_NormalRate = '''', tw_Exempt = True\<rparr> m}) = 480"
  using windowActive_length [of "\<lparr>tw_ProfileID = ''p'', tw_Label = '''', tw_StartMin = 1380, tw_EndMin = 420,
      tw_BoostRate = '''', tw_NormalRate = '''', tw_Exempt = True\<rparr>"] by simp

end
