(* ===== verification/RadPolicy.thy ===== *)
theory RadPolicy
  imports RadLimits
begin

text \<open>
  The authorize path of \<^verbatim>\<open>backend/internal/radius\<close>: the cached read-model (\<^verbatim>\<open>authview.go\<close>), the code
  credentials (\<^verbatim>\<open>voucher.go\<close>, \<^verbatim>\<open>cardauth.go\<close>), CHAP (\<^verbatim>\<open>chap.go\<close>) and the ordered check chain with its reply
  (\<^verbatim>\<open>policy.go\<close>, \<^verbatim>\<open>engine.go\<close>).

  The state holds what the path reads and writes: the Redis cache of views with its reverse index, the quota
  flags, the last-seen marks, the decision stream, and the subscriber rows behind the provider. The
  answers of the NAS registry, the service table, the voucher and card seams, the
  decryption and the live counter are given by the environment of the request.
\<close>

section \<open>Requests, responses, events\<close>

record authorizeRequest =
  q_Username :: string
  q_Password :: string
  q_ChapChallenge :: string
  q_ChapResponse :: string
  q_NasIP :: string
  q_CallingStationID :: string
  rq_Service :: string
  rq_CalledStationID :: string
  rq_NASPortType :: string
  rq_NASPortID :: string

type_synonym attribute = Attr

record authorizeResponse =
  a_Action :: string
  a_Reason :: string
  a_Attributes :: "attribute list"

record decisionEvent =
  de_Username :: string
  de_Service :: string
  de_NASIP :: string
  de_Outcome :: string
  de_Reason :: string
  de_Checks :: "string list"
  de_Instance :: string
  de_Attributes :: "attribute list"
  de_At :: gotime

record nasIdentity =
  nas_ID :: string
  nas_Vendor :: string

record serviceRow =
  svc_ID :: string
  svc_Service :: string
  svc_Label :: string
  svc_IPPoolName :: string
  svc_ROSServerName :: string

definition IntentRateLimit :: string where "IntentRateLimit = ''rate_limit''"
definition IntentAddressPool :: string where "IntentAddressPool = ''address_pool''"
definition IntentRedirectExpired :: string where "IntentRedirectExpired = ''redirect_expired''"
definition IntentStaticIP :: string where "IntentStaticIP = ''static_ip''"
definition IntentAddressList :: string where "IntentAddressList = ''address_list''"
definition IntentDelegatedPrefix :: string where "IntentDelegatedPrefix = ''delegated_prefix''"

definition ReasonOK :: string where "ReasonOK = ''ok''"
definition ReasonBadPassword :: string where "ReasonBadPassword = ''bad_password''"
definition ReasonDisabled :: string where "ReasonDisabled = ''disabled''"
definition ReasonSessionLimit :: string where "ReasonSessionLimit = ''session_limit''"
definition ReasonMACMismatch :: string where "ReasonMACMismatch = ''mac_mismatch''"
definition ReasonUnknownUser :: string where "ReasonUnknownUser = ''unknown_user''"
definition ReasonUnknownNAS :: string where "ReasonUnknownNAS = ''unknown_nas''"
definition ReasonServiceNotAllowed :: string where "ReasonServiceNotAllowed = ''service_not_allowed''"
definition ReasonNASNotAllowed :: string where "ReasonNASNotAllowed = ''nas_not_allowed''"

section \<open>State and environment\<close>

record RadState =
  rd_views :: "string \<Rightarrow> (AuthView \<times> gotime) option"
  rd_idx :: "string \<Rightarrow> (string \<times> gotime) option"
  rd_quota :: "string \<Rightarrow> bool"
  rd_subs :: "(string \<times> AuthView) list"
  rd_seen :: "string \<Rightarrow> gotime option"
  rd_redeemed :: "string list"
  rd_decisions :: "decisionEvent list"

datatype 'a answer = AErr | ANone | AFound 'a

record PolEnv =
  pe_now :: gotime
  pe_redisUp :: bool
  pe_canonicalIP :: "string \<Rightarrow> string"
  pe_nasByIP :: "string \<Rightarrow> nasIdentity answer"
  pe_servicesOf :: "string \<Rightarrow> serviceRow list option"
  pe_providerUp :: bool
  pe_viewFails :: bool
  pe_learnFails :: bool
  pe_voucherAuth :: "(string \<Rightarrow> AuthView answer) option"
  pe_voucherPrefix :: string
  pe_cardAuth :: "(string \<Rightarrow> AuthView answer) option"
  pe_decrypt :: "bytes \<Rightarrow> bytes option"
  pe_md5 :: "bytes \<Rightarrow> bytes"
  pe_liveCount :: "string \<Rightarrow> string \<Rightarrow> int"

section \<open>The cached read-model\<close>

definition viewCacheTTL :: duration where "viewCacheTTL = 30 * second"

definition redisGet :: "gotime \<Rightarrow> (string \<Rightarrow> ('a \<times> gotime) option) \<Rightarrow> string \<Rightarrow> 'a option" where
  "redisGet now m k = (case m k of Some (x, expiry) \<Rightarrow> if now < expiry then Some x else None | None \<Rightarrow> None)"

definition cacheView :: "PolEnv \<Rightarrow> string \<Rightarrow> AuthView \<Rightarrow> RadState \<Rightarrow> RadState" where
  "cacheView env username view st =
     (if \<not> pe_redisUp env then st
      else let st1 = st\<lparr>rd_views := (rd_views st)(username \<mapsto> (view, pe_now env + viewCacheTTL))\<rparr>
           in if v_SubscriberID view \<noteq> ''''
              then st1\<lparr>rd_idx := (rd_idx st1)(v_SubscriberID view \<mapsto> (username, pe_now env + viewCacheTTL))\<rparr>
              else st1)"

definition overlayQuota :: "PolEnv \<Rightarrow> RadState \<Rightarrow> AuthView \<Rightarrow> AuthView" where
  "overlayQuota env st view =
     (if \<not> pe_redisUp env \<or> v_SubscriberID view = '''' then view
      else if rd_quota st (v_SubscriberID view) then view\<lparr>v_QuotaExhausted := True\<rparr> else view)"

definition resolveView :: "PolEnv \<Rightarrow> string \<Rightarrow> RadState \<Rightarrow> AuthView answer \<times> RadState" where
  "resolveView env username st =
     (case (if pe_redisUp env then redisGet (pe_now env) (rd_views st) username else None) of
        Some view \<Rightarrow> (AFound (overlayQuota env st view), st)
      | None \<Rightarrow>
          (if \<not> pe_providerUp env then (ANone, st)
           else if pe_viewFails env then (AErr, st)
           else case map_of (rd_subs st) username of
             None \<Rightarrow> (ANone, st)
           | Some view \<Rightarrow>
               (let st1 = cacheView env username view st
                in (AFound (overlayQuota env st1 view), st1))))"

definition InvalidatePolicy :: "bool \<Rightarrow> gotime \<Rightarrow> string \<Rightarrow> RadState \<Rightarrow> RadState" where
  "InvalidatePolicy redisUp now subscriberID st =
     (if \<not> redisUp \<or> subscriberID = '''' then st
      else case redisGet now (rd_idx st) subscriberID of
        None \<Rightarrow> st
      | Some username \<Rightarrow> st\<lparr>rd_views := (rd_views st)(username := None), rd_idx := (rd_idx st)(subscriberID := None)\<rparr>)"

definition InvalidatePolicyByProfile :: "bool \<Rightarrow> gotime \<Rightarrow> string list \<Rightarrow> RadState \<Rightarrow> RadState" where
  "InvalidatePolicyByProfile redisUp now ids st = fold (InvalidatePolicy redisUp now) ids st"

text \<open>\<^verbatim>\<open>subscribers.LearnMac\<close>: a NULL \<^verbatim>\<open>learned_mac\<close> is the empty string of the view.\<close>

definition learnHit :: "string \<Rightarrow> AuthView \<Rightarrow> bool" where
  "learnHit subscriberID v \<longleftrightarrow> v_SubscriberID v = subscriberID \<and> v_MacLockMode v = ''learn'' \<and> v_LearnedMac v = ''''"

definition LearnMac :: "PolEnv \<Rightarrow> string \<Rightarrow> string \<Rightarrow> RadState \<Rightarrow> RadState" where
  "LearnMac env subscriberID mac st =
     (if pe_learnFails env then st
      else let affected = list_ex (\<lambda>(u, v). learnHit subscriberID v) (rd_subs st);
               st1 = st\<lparr>rd_subs := map (\<lambda>(u, v). (u, if learnHit subscriberID v then v\<lparr>v_LearnedMac := mac\<rparr> else v)) (rd_subs st)\<rparr>
           in if affected then InvalidatePolicy (pe_redisUp env) (pe_now env) subscriberID st1 else st1)"

section \<open>Code credentials\<close>

definition isPrefix :: "string \<Rightarrow> string \<Rightarrow> bool" where
  "isPrefix p s \<longleftrightarrow> take (length p) s = p"

definition codeChar :: "char \<Rightarrow> bool" where
  "codeChar c \<longleftrightarrow> isDigit c \<or> c \<in> set ''abcdefghijklmnopqrstuvwxyzABCDEFGHIJKLMNOPQRSTUVWXYZ-_''"

definition plausibleVoucher :: "string \<Rightarrow> string \<Rightarrow> bool" where
  "plausibleVoucher code prefix =
     (let code = trimSpace code in
      if length code < 4 \<or> length code > 64 then False
      else if prefix \<noteq> '''' \<and> \<not> isPrefix (toUpper prefix) (toUpper code) then False
      else list_all codeChar code)"

definition tryVoucher :: "PolEnv \<Rightarrow> string \<Rightarrow> RadState \<Rightarrow> AuthView answer \<times> RadState" where
  "tryVoucher env code st =
     (case pe_voucherAuth env of
        None \<Rightarrow> (ANone, st)
      | Some auth \<Rightarrow>
          (if \<not> plausibleVoucher code (pe_voucherPrefix env) then (ANone, st)
           else (auth code, st\<lparr>rd_redeemed := rd_redeemed st @ [code]\<rparr>)))"

definition tryCard :: "PolEnv \<Rightarrow> string \<Rightarrow> AuthView answer" where
  "tryCard env code =
     (case pe_cardAuth env of
        None \<Rightarrow> ANone
      | Some auth \<Rightarrow> (if \<not> plausibleVoucher code '''' then ANone else auth code))"

section \<open>Credentials\<close>

definition bytesOf :: "string \<Rightarrow> bytes" where
  "bytesOf s = map of_char s"

definition hexVal :: "char \<Rightarrow> nat option" where
  "hexVal c =
     (if isDigit c then Some (digitVal c)
      else if c \<in> set ''abcdef'' then Some (of_char c - 87)
      else if c \<in> set ''ABCDEF'' then Some (of_char c - 55) else None)"

fun hexDecode :: "string \<Rightarrow> bytes option" where
  "hexDecode [] = Some []"
| "hexDecode [c] = None"
| "hexDecode (a # b # cs) =
     (case (hexVal a, hexVal b, hexDecode cs) of
        (Some x, Some y, Some bs) \<Rightarrow> Some (of_nat (16 * x + y) # bs)
      | _ \<Rightarrow> None)"

text \<open>\<open>None\<close> is the error of a malformed response or challenge.\<close>

definition verifyCHAP :: "(bytes \<Rightarrow> bytes) \<Rightarrow> bytes \<Rightarrow> string \<Rightarrow> string \<Rightarrow> bool option" where
  "verifyCHAP md5 password chapChallengeHex chapResponseHex =
     (case hexDecode chapResponseHex of
        None \<Rightarrow> None
      | Some resp \<Rightarrow>
          (if length resp \<noteq> 17 then None
           else case hexDecode chapChallengeHex of
             None \<Rightarrow> None
           | Some challenge \<Rightarrow> Some (md5 (take 1 resp @ password @ challenge) = drop 1 resp)))"

definition credentialsOK :: "(bytes \<Rightarrow> bytes) \<Rightarrow> bytes \<Rightarrow> authorizeRequest \<Rightarrow> bool" where
  "credentialsOK md5 password req =
     (if q_ChapResponse req \<noteq> '''' then
        (case verifyCHAP md5 password (q_ChapChallenge req) (q_ChapResponse req) of None \<Rightarrow> False | Some ok \<Rightarrow> ok)
      else password = bytesOf (q_Password req))"

section \<open>The checks\<close>

definition serviceTypeAllows :: "string \<Rightarrow> bool \<Rightarrow> bool" where
  "serviceTypeAllows serviceType hotspot =
     (if serviceType = ''dual'' then True else if serviceType = ''hotspot'' then hotspot else \<not> hotspot)"

definition isExpired :: "gotime \<Rightarrow> AuthView \<Rightarrow> bool" where
  "isExpired now view = (if v_Status view = ''expired'' then True
     else v_ExpiresAt view \<noteq> zeroTime \<and> now > v_ExpiresAt view)"

definition instanceName :: "serviceRow \<Rightarrow> string" where
  "instanceName s = (if svc_Label s \<noteq> '''' then svc_Label s
     else if svc_ROSServerName s \<noteq> '''' then svc_ROSServerName s else svc_Service s)"

definition emptyService :: serviceRow where
  "emptyService = \<lparr>svc_ID = '''', svc_Service = '''', svc_Label = '''', svc_IPPoolName = '''', svc_ROSServerName = ''''\<rparr>"

text \<open>The later of two rows with one id wins in the map the code builds.\<close>

definition byID :: "serviceRow list \<Rightarrow> string \<Rightarrow> serviceRow" where
  "byID rows i = (case find (\<lambda>r. svc_ID r = i) (rev rows) of Some r \<Rightarrow> r | None \<Rightarrow> emptyService)"

definition resolveInstance :: "PolEnv \<Rightarrow> nasIdentity \<Rightarrow> authorizeRequest \<Rightarrow> serviceRow answer" where
  "resolveInstance env nas req =
     (case pe_servicesOf env (nas_ID nas) of
        None \<Rightarrow> AErr
      | Some rows \<Rightarrow>
          (let candidates = map (\<lambda>r. \<lparr>si_ID = svc_ID r, si_Service = svc_Service r, si_ROSServerName = svc_ROSServerName r\<rparr>) rows;
               kind = (if rq_Service req = '''' then ''pppoe'' else rq_Service req)
           in case ResolveService \<lparr>q_Service = kind, q_CalledStationID = rq_CalledStationID req,
                     q_NASPortType = rq_NASPortType req, q_NASPortID = rq_NASPortID req\<rparr> candidates of
                None \<Rightarrow> ANone
              | Some got \<Rightarrow> AFound (byID rows (si_ID got))))"

definition sessionLimitReject :: "PolEnv \<Rightarrow> AuthView \<Rightarrow> bool \<Rightarrow> string option" where
  "sessionLimitReject env view hotspot =
     (let count = pe_liveCount env (v_SubscriberID view) in
      if hotspot then
        (if v_ServiceType view = ''hotspot'' then
           (if v_SessionLimit view > 0 \<and> count ''hotspot'' \<ge> v_SessionLimit view then Some ReasonSessionLimit else None)
         else if count ''hotspot'' \<ge> 1 then Some ReasonSessionLimit else None)
      else if v_SessionLimit view > 0 \<and> count ''pppoe'' \<ge> v_SessionLimit view then Some ReasonSessionLimit else None)"

definition normalizeMAC :: "string \<Rightarrow> string" where
  "normalizeMAC s =
     (let s1 = trimSpace s; s2 = takeWhile (\<lambda>c. c \<noteq> CHR '' '' \<and> c \<noteq> CHR 0x09) s1
      in toUpper (filter (\<lambda>c. c \<notin> set '':-.'') s2))"

definition macLock :: "PolEnv \<Rightarrow> AuthView \<Rightarrow> string \<Rightarrow> RadState \<Rightarrow> string option \<times> RadState" where
  "macLock env view callingStation st =
     (if v_MacLockMode view = '''' \<or> v_MacLockMode view = ''off'' then (None, st)
      else let mac = normalizeMAC callingStation; locked = normalizeMAC (v_LearnedMac view) in
        if locked = '''' then
          (None, if v_MacLockMode view = ''learn'' \<and> mac \<noteq> '''' \<and> pe_providerUp env
                 then LearnMac env (v_SubscriberID view) mac st else st)
        else if mac \<noteq> '''' \<and> mac \<noteq> locked then (Some ReasonMACMismatch, st)
        else (None, st))"

section \<open>The reply\<close>

definition addAttr :: "string \<Rightarrow> string \<Rightarrow> attribute list" where
  "addAttr intent value = (if value \<noteq> '''' then [(intent, value)] else [])"

definition replyIntents :: "AuthView \<Rightarrow> serviceRow \<Rightarrow> bool \<Rightarrow> policyOutcome \<Rightarrow> string \<Rightarrow> attribute list" where
  "replyIntents view inst hotspot oc windowRate =
     (case po_Mode oc of
        modeExpiredPool \<Rightarrow>
          (let (rate, pool) = expiredPoolRateAndPool view oc
           in addAttr IntentAddressPool pool @ addAttr IntentRedirectExpired ''expired'' @ addAttr IntentRateLimit rate)
      | m \<Rightarrow>
          addAttr IntentRateLimit (if m = modeThrottled \<or> m = modeSwitchPlan then throttleOrSwitchRate view oc
                                   else normalRate view hotspot windowRate)
          @ (if v_StaticIP view \<noteq> '''' then addAttr IntentStaticIP (v_StaticIP view)
             else if m = modeSwitchPlan \<and> po_Pool oc \<noteq> '''' then addAttr IntentAddressPool (po_Pool oc)
             else if svc_IPPoolName inst \<noteq> '''' then addAttr IntentAddressPool (svc_IPPoolName inst)
             else if \<not> hotspot then addAttr IntentAddressPool (v_PoolName view) else [])
          @ addAttr IntentAddressList (v_AddressList view)
          @ addAttr IntentDelegatedPrefix (v_DelegatedPrefix view))"

section \<open>The decision\<close>

definition recordEvent :: "PolEnv \<Rightarrow> decisionEvent \<Rightarrow> RadState \<Rightarrow> RadState" where
  "recordEvent env ev st =
     (if pe_redisUp env then st\<lparr>rd_decisions := rd_decisions st @ [ev\<lparr>de_At := pe_now env\<rparr>]\<rparr> else st)"

definition reject :: "PolEnv \<Rightarrow> decisionEvent \<Rightarrow> string \<Rightarrow> RadState \<Rightarrow> authorizeResponse option \<times> RadState" where
  "reject env ev reason st =
     (Some \<lparr>a_Action = ''reject'', a_Reason = reason, a_Attributes = []\<rparr>,
      recordEvent env (ev\<lparr>de_Outcome := ''reject'', de_Reason := reason\<rparr>) st)"

definition pass :: "string \<Rightarrow> decisionEvent \<Rightarrow> decisionEvent" where
  "pass check ev = ev\<lparr>de_Checks := de_Checks ev @ [check]\<rparr>"

definition markSeen :: "PolEnv \<Rightarrow> string \<Rightarrow> RadState \<Rightarrow> RadState" where
  "markSeen env ip st =
     (if pe_redisUp env then st\<lparr>rd_seen := (rd_seen st)(pe_canonicalIP env ip \<mapsto> pe_now env)\<rparr> else st)"

text \<open>
  The credential of the request: a subscriber, a voucher or a card. The result is the view, whether the code
  itself was the credential, and the check it passed.
\<close>

definition findAccount ::
    "PolEnv \<Rightarrow> authorizeRequest \<Rightarrow> bool \<Rightarrow> RadState \<Rightarrow> (AuthView \<times> bool \<times> string list) answer \<times> RadState" where
  "findAccount env req hotspot st =
     (case resolveView env (q_Username req) st of
        (AErr, st1) \<Rightarrow> (AErr, st1)
      | (AFound v, st1) \<Rightarrow> (AFound (v, False, []), st1)
      | (ANone, st1) \<Rightarrow>
          (if \<not> hotspot then (ANone, st1)
           else case tryVoucher env (q_Username req) st1 of
             (AErr, st2) \<Rightarrow> (AErr, st2)
           | (AFound v, st2) \<Rightarrow> (AFound (v, True, [''voucher'']), st2)
           | (ANone, st2) \<Rightarrow>
               (case tryCard env (q_Username req) of
                  AErr \<Rightarrow> (AErr, st2)
                | AFound v \<Rightarrow> (AFound (v, True, [''card'']), st2)
                | ANone \<Rightarrow> (ANone, st2))))"

text \<open>Steps 7 to 11: status, limits, speed window, session limit, MAC lock, and the accept.\<close>

definition decideLimits ::
    "PolEnv \<Rightarrow> authorizeRequest \<Rightarrow> AuthView \<Rightarrow> serviceRow \<Rightarrow> bool \<Rightarrow> decisionEvent \<Rightarrow> RadState \<Rightarrow>
     authorizeResponse option \<times> RadState" where
  "decideLimits env req view inst hotspot ev st =
     (if v_Status view = ''disabled'' then reject env ev ReasonDisabled st
      else let oc = evaluateLimits view hotspot (isExpired (pe_now env) view) in
        if po_Reject oc then reject env ev (po_Reason oc) st
        else let label = limitCheckLabel (po_Mode oc);
                 ev1 = (if label \<noteq> '''' then pass label ev else ev);
                 win = (if po_Mode oc = modeNormal
                        then selectSpeedWindow (v_SpeedWindows view) (inServerLocation (pe_now env)) else None);
                 windowRate = (case win of Some w \<Rightarrow> sw_Rate w | None \<Rightarrow> '''');
                 ev2 = (if win \<noteq> None then pass ''speed_window'' ev1 else ev1)
          in case sessionLimitReject env view hotspot of
               Some r \<Rightarrow> reject env ev2 r st
             | None \<Rightarrow>
                 (let ev3 = pass ''session_limit'' ev2;
                      (lock, st1) = (if hotspot then (None, st) else macLock env view (q_CallingStationID req) st)
                  in case lock of
                       Some r \<Rightarrow> reject env ev3 r st1
                     | None \<Rightarrow>
                         (let ev4 = (if hotspot then ev3 else pass ''mac_lock'' ev3);
                              attrs = replyIntents view inst hotspot oc windowRate
                          in (Some \<lparr>a_Action = ''accept'', a_Reason = ReasonOK, a_Attributes = attrs\<rparr>,
                              recordEvent env (ev4\<lparr>de_Outcome := ''accept'', de_Reason := ReasonOK,
                                                  de_Attributes := attrs\<rparr>) st1))))"

definition decide :: "PolEnv \<Rightarrow> authorizeRequest \<Rightarrow> RadState \<Rightarrow> authorizeResponse option \<times> RadState" where
  "decide env req st =
     (let ev = \<lparr>de_Username = q_Username req, de_Service = rq_Service req, de_NASIP = q_NasIP req, de_Outcome = '''',
                de_Reason = '''', de_Checks = [], de_Instance = '''', de_Attributes = [], de_At = 0\<rparr>
      in case pe_nasByIP env (q_NasIP req) of
           AErr \<Rightarrow> (None, st)
         | ANone \<Rightarrow> reject env ev ReasonUnknownNAS st
         | AFound nas \<Rightarrow>
             (let st1 = markSeen env (q_NasIP req) st; ev1 = pass ''nas'' ev
              in case resolveInstance env nas req of
                   AErr \<Rightarrow> (None, st1)
                 | ANone \<Rightarrow> reject env ev1 ReasonNASNotAllowed st1
                 | AFound inst \<Rightarrow>
                     (let hotspot = (svc_Service inst = ''hotspot'');
                          ev2 = pass ''service_instance'' (ev1\<lparr>de_Service := svc_Service inst, de_Instance := instanceName inst\<rparr>)
                      in case findAccount env req hotspot st1 of
                           (AErr, st2) \<Rightarrow> (None, st2)
                         | (ANone, st2) \<Rightarrow> reject env ev2 ReasonUnknownUser st2
                         | (AFound (view, isCode, via), st2) \<Rightarrow>
                             (let ev3 = pass ''user'' (fold pass via ev2) in
                              if \<not> isCode \<and> \<not> serviceTypeAllows (v_ServiceType view) hotspot
                              then reject env ev3 ReasonServiceNotAllowed st2
                              else let ev4 = pass ''service'' ev3 in
                                if \<not> isCode \<and> \<not> scopeAllows (v_Scopes view) (nas_ID nas) (svc_ID inst)
                                then reject env ev4 ReasonNASNotAllowed st2
                                else let ev5 = (if isCode then ev4 else pass ''nas_scope'' ev4) in
                                  if isCode
                                  then decideLimits env req view inst hotspot (pass ''credentials'' ev5) st2
                                  else case pe_decrypt env (v_PasswordEnc view) of
                                    None \<Rightarrow> (None, st2)
                                  | Some plaintext \<Rightarrow>
                                      (if \<not> credentialsOK (pe_md5 env) plaintext req
                                       then reject env ev5 ReasonBadPassword st2
                                       else decideLimits env req view inst hotspot (pass ''credentials'' ev5) st2)))))"

section \<open>Lemmas: the chain\<close>

lemma reject_action: "reject env ev r st = (Some resp, st') \<Longrightarrow> a_Action resp = ''reject''"
  by (auto simp: reject_def)

lemma reject_accept [simp]: "reject env ev r st = (Some resp, st') \<Longrightarrow> a_Action resp \<noteq> ''accept''"
  using reject_action by fastforce

text \<open>What the last part of the chain checked before it accepted.\<close>

definition limitsPassed :: "PolEnv \<Rightarrow> authorizeRequest \<Rightarrow> AuthView \<Rightarrow> bool \<Rightarrow> RadState \<Rightarrow> bool" where
  "limitsPassed env req view hotspot st \<longleftrightarrow>
     v_Status view \<noteq> ''disabled'' \<and> \<not> po_Reject (evaluateLimits view hotspot (isExpired (pe_now env) view))
     \<and> sessionLimitReject env view hotspot = None
     \<and> (\<not> hotspot \<longrightarrow> fst (macLock env view (q_CallingStationID req) st) = None)"

definition windowRateAt :: "PolEnv \<Rightarrow> AuthView \<Rightarrow> policyOutcome \<Rightarrow> string" where
  "windowRateAt env view oc =
     (case (if po_Mode oc = modeNormal then selectSpeedWindow (v_SpeedWindows view) (inServerLocation (pe_now env)) else None)
      of Some w \<Rightarrow> sw_Rate w | None \<Rightarrow> '''')"

lemma decideLimits_accept:
  assumes "decideLimits env req view inst hotspot ev st = (Some resp, st')" and "a_Action resp = ''accept''"
  shows "limitsPassed env req view hotspot st"
    and "a_Attributes resp = (let oc = evaluateLimits view hotspot (isExpired (pe_now env) view)
           in replyIntents view inst hotspot oc (windowRateAt env view oc))"
    and "rd_subs st' = rd_subs (if hotspot then st else snd (macLock env view (q_CallingStationID req) st))"
    and "rd_views st' = rd_views (if hotspot then st else snd (macLock env view (q_CallingStationID req) st))"
  using assms
  by (auto simp: decideLimits_def limitsPassed_def windowRateAt_def reject_def recordEvent_def Let_def
      split: if_splits option.splits prod.splits)

lemma decideLimits_some: "\<exists>resp st'. decideLimits env req view inst hotspot ev st = (Some resp, st')"
  by (simp add: decideLimits_def reject_def Let_def split: option.split prod.split)

text \<open>The accounts and credentials the chain accepts.\<close>

definition accountPassed ::
    "PolEnv \<Rightarrow> authorizeRequest \<Rightarrow> nasIdentity \<Rightarrow> serviceRow \<Rightarrow> AuthView \<Rightarrow> bool \<Rightarrow> bool" where
  "accountPassed env req nas inst view isCode \<longleftrightarrow>
     isCode \<or> serviceTypeAllows (v_ServiceType view) (svc_Service inst = ''hotspot'')
       \<and> scopeAllows (v_Scopes view) (nas_ID nas) (svc_ID inst)
       \<and> (\<exists>plaintext. pe_decrypt env (v_PasswordEnc view) = Some plaintext \<and> credentialsOK (pe_md5 env) plaintext req)"

lemma decide_accept:
  assumes "decide env req st = (Some resp, st')" and "a_Action resp = ''accept''"
  shows "\<exists>nas inst view isCode via st2 ev. pe_nasByIP env (q_NasIP req) = AFound nas
    \<and> resolveInstance env nas req = AFound inst
    \<and> findAccount env req (svc_Service inst = ''hotspot'') (markSeen env (q_NasIP req) st) = (AFound (view, isCode, via), st2)
    \<and> accountPassed env req nas inst view isCode
    \<and> decideLimits env req view inst (svc_Service inst = ''hotspot'') ev st2 = (Some resp, st')"
proof -
  from assms obtain nas where nas: "pe_nasByIP env (q_NasIP req) = AFound nas"
    by (cases "pe_nasByIP env (q_NasIP req)") (auto simp: decide_def Let_def)
  from assms nas obtain inst where inst: "resolveInstance env nas req = AFound inst"
    by (cases "resolveInstance env nas req") (auto simp: decide_def Let_def)
  let ?hs = "svc_Service inst = ''hotspot''"
  from assms nas inst obtain view isCode via st2
    where acc: "findAccount env req ?hs (markSeen env (q_NasIP req) st) = (AFound (view, isCode, via), st2)"
    by (cases "findAccount env req ?hs (markSeen env (q_NasIP req) st)")
      (auto simp: decide_def Let_def split: answer.splits)
  show ?thesis
  proof (cases isCode)
    case True
    then show ?thesis using assms nas inst acc by (auto simp: decide_def Let_def accountPassed_def)
  next
    case False
    with assms nas inst acc obtain plaintext where "pe_decrypt env (v_PasswordEnc view) = Some plaintext"
      by (auto simp: decide_def Let_def split: if_splits option.splits)
    then show ?thesis using False assms nas inst acc
      by (auto simp: decide_def Let_def accountPassed_def split: if_splits)
  qed
qed

lemma decideLimits_passed:
  assumes "limitsPassed env req view hotspot st"
  shows "\<exists>resp st'. decideLimits env req view inst hotspot ev st = (Some resp, st') \<and> a_Action resp = ''accept''"
  using assms
  by (cases "macLock env view (q_CallingStationID req) st")
    (auto simp: decideLimits_def limitsPassed_def Let_def)

lemma decide_complete:
  assumes "pe_nasByIP env (q_NasIP req) = AFound nas" and "resolveInstance env nas req = AFound inst"
    and "findAccount env req (svc_Service inst = ''hotspot'') (markSeen env (q_NasIP req) st) = (AFound (view, isCode, via), st2)"
    and "accountPassed env req nas inst view isCode"
  shows "\<exists>ev. decide env req st = decideLimits env req view inst (svc_Service inst = ''hotspot'') ev st2"
  using assms by (cases isCode) (auto simp: decide_def accountPassed_def Let_def)

text \<open>The decision stream.\<close>

lemma InvalidatePolicy_decisions [simp]: "rd_decisions (InvalidatePolicy up now sub st) = rd_decisions st"
  by (simp add: InvalidatePolicy_def split: option.split)

lemma LearnMac_decisions [simp]: "rd_decisions (LearnMac env sub mac st) = rd_decisions st"
  by (simp add: LearnMac_def Let_def)

lemma macLock_decisions: "macLock env view cs st = (r, st') \<Longrightarrow> rd_decisions st' = rd_decisions st"
  by (auto simp: macLock_def Let_def split: if_splits)

lemma resolveView_decisions: "resolveView env u st = (a, st') \<Longrightarrow> rd_decisions st' = rd_decisions st"
  by (auto simp: resolveView_def cacheView_def Let_def split: option.splits if_splits)

lemma findAccount_decisions: "findAccount env req hs st = (a, st') \<Longrightarrow> rd_decisions st' = rd_decisions st"
  by (auto simp: findAccount_def tryVoucher_def split: prod.splits answer.splits if_splits option.splits
      dest!: resolveView_decisions)

definition recorded :: "PolEnv \<Rightarrow> RadState \<Rightarrow> authorizeResponse \<Rightarrow> RadState \<Rightarrow> bool" where
  "recorded env st resp st' \<longleftrightarrow>
     (\<exists>ev. rd_decisions st' = rd_decisions st @ [ev] \<and> de_Outcome ev = a_Action resp \<and> de_Reason ev = a_Reason resp
        \<and> de_At ev = pe_now env \<and> (a_Action resp = ''accept'' \<longrightarrow> de_Attributes ev = a_Attributes resp))"

definition recordedIn :: "PolEnv \<Rightarrow> RadState \<Rightarrow> authorizeResponse option \<times> RadState \<Rightarrow> bool" where
  "recordedIn env st p \<longleftrightarrow> (case fst p of None \<Rightarrow> rd_decisions (snd p) = rd_decisions st | Some resp \<Rightarrow> recorded env st resp (snd p))"

lemma recordedIn_reject:
  "pe_redisUp env \<Longrightarrow> rd_decisions st = rd_decisions st0 \<Longrightarrow> recordedIn env st0 (reject env ev r st)"
  by (simp add: reject_def recordEvent_def recorded_def recordedIn_def)

lemma recordedIn_accept:
  "pe_redisUp env \<Longrightarrow> rd_decisions st = rd_decisions st0 \<Longrightarrow>
   recordedIn env st0 (Some \<lparr>a_Action = ''accept'', a_Reason = ReasonOK, a_Attributes = attrs\<rparr>,
     recordEvent env (ev\<lparr>de_Outcome := ''accept'', de_Reason := ReasonOK, de_Attributes := attrs\<rparr>) st)"
  by (simp add: recordEvent_def recorded_def recordedIn_def)

lemma recordedIn_fail: "rd_decisions st = rd_decisions st0 \<Longrightarrow> recordedIn env st0 (None, st)"
  by (simp add: recordedIn_def)

lemma decideLimits_recorded:
  assumes "pe_redisUp env" and "rd_decisions st = rd_decisions st0"
  shows "recordedIn env st0 (decideLimits env req view inst hotspot ev st)"
proof -
  obtain r st1 where lock: "(if hotspot then (None, st) else macLock env view (q_CallingStationID req) st) = (r, st1)"
    by (cases "if hotspot then (None, st) else macLock env view (q_CallingStationID req) st")
  have d: "rd_decisions st1 = rd_decisions st0"
    using lock assms(2) macLock_decisions by (auto split: if_splits)
  show ?thesis
    unfolding decideLimits_def Let_def lock prod.case
    by (intro recordedIn_reject recordedIn_accept assms d impI allI conjI | split if_split option.split)+
qed

lemma decide_recorded:
  assumes "pe_redisUp env"
  shows "recordedIn env st (decide env req st)"
proof -
  let ?st1 = "markSeen env (q_NasIP req) st"
  have d1: "rd_decisions ?st1 = rd_decisions st" by (simp add: markSeen_def)
  have d2: "findAccount env req hs ?st1 = (a, st2) \<Longrightarrow> rd_decisions st2 = rd_decisions st" for hs a st2
    using findAccount_decisions d1 by metis
  show ?thesis
    unfolding decide_def Let_def
    by (intro recordedIn_reject recordedIn_fail decideLimits_recorded assms d1 refl impI allI conjI
        | erule d2 | split if_split option.split answer.split prod.split)+
qed

section \<open>A concrete request\<close>

definition sampleView :: AuthView where
  "sampleView = \<lparr>v_SubscriberID = ''S1'', v_PasswordEnc = bytesOf ''pw'', v_Status = ''active'', v_ExpiresAt = zeroTime,
     v_ExpiryBehavior = ''block'', v_QuotaBehavior = ''block'', v_QuotaExhausted = False, v_RateLimit = ''10M/10M'',
     v_PoolName = ''main'', v_ExpiredPoolName = ''expired'', v_SessionLimit = 1, v_MacLockMode = ''learn'',
     v_LearnedMac = [], v_ThrottleRate = [], v_HotspotRateLimit = [], v_ServiceType = ''pppoe'', v_Scopes = [],
     v_StaticIP = [], v_BurstRate = [], v_BurstThreshold = [], v_BurstTime = [], v_RatePriority = [], v_MinRate = [],
     v_AddressList = [], v_DelegatedPrefix = [], v_ExpiryThrottleRate = [], v_ExpiryPoolOverride = [],
     v_ExpirySwitchRate = [], v_ExpirySwitchPool = [], v_QuotaPoolOverride = [], v_QuotaSwitchRate = [],
     v_QuotaSwitchPool = [], v_UptimeLimitSeconds = 0, v_UptimeUsedSeconds = 0, v_UptimeExhaustAction = [],
     v_UptimeThrottleRate = [], v_UptimePoolOverride = [], v_UptimeSwitchRate = [], v_UptimeSwitchPool = [],
     v_DailyLimitBytes = 0, v_DailyUsedBytes = 0, v_DailyResetMin = 0, v_DailyExhaustAction = [],
     v_DailyThrottleRate = [], v_DailyPoolOverride = [], v_DailySwitchRate = [], v_DailySwitchPool = [],
     v_SpeedWindows = []\<rparr>"

definition samplePolEnv :: "gotime \<Rightarrow> PolEnv" where
  "samplePolEnv t = \<lparr>pe_now = t, pe_redisUp = True, pe_canonicalIP = id,
     pe_nasByIP = (\<lambda>ip. if ip = ''10.0.0.1'' then AFound \<lparr>nas_ID = ''N1'', nas_Vendor = ''mikrotik''\<rparr> else ANone),
     pe_servicesOf = (\<lambda>_. Some [\<lparr>svc_ID = ''I1'', svc_Service = ''pppoe'', svc_Label = [], svc_IPPoolName = [],
       svc_ROSServerName = []\<rparr>]),
     pe_providerUp = True, pe_viewFails = False, pe_learnFails = False, pe_voucherAuth = None, pe_voucherPrefix = [],
     pe_cardAuth = None, pe_decrypt = Some, pe_md5 = id, pe_liveCount = (\<lambda>_ _. 0)\<rparr>"

definition sampleReq :: "string \<Rightarrow> authorizeRequest" where
  "sampleReq mac = \<lparr>q_Username = ''ali'', q_Password = ''pw'', q_ChapChallenge = [], q_ChapResponse = [],
     q_NasIP = ''10.0.0.1'', q_CallingStationID = mac, rq_Service = ''pppoe'', rq_CalledStationID = [],
     rq_NASPortType = [], rq_NASPortID = []\<rparr>"

definition sampleRadState :: RadState where
  "sampleRadState = \<lparr>rd_views = (\<lambda>_. None), rd_idx = (\<lambda>_. None), rd_quota = (\<lambda>_. False), rd_subs = [(''ali'', sampleView)],
     rd_seen = (\<lambda>_. None), rd_redeemed = [], rd_decisions = []\<rparr>"

text \<open>The facts a concrete decision unfolds, up to the account.\<close>

lemma sample_nas: "pe_nasByIP (samplePolEnv t) (q_NasIP (sampleReq mac)) = AFound \<lparr>nas_ID = ''N1'', nas_Vendor = ''mikrotik''\<rparr>"
  by (simp add: samplePolEnv_def sampleReq_def)

lemma sample_instance:
  "resolveInstance (samplePolEnv t) nas (sampleReq mac) =
   AFound \<lparr>svc_ID = ''I1'', svc_Service = ''pppoe'', svc_Label = [], svc_IPPoolName = [], svc_ROSServerName = []\<rparr>"
  by (simp add: resolveInstance_def samplePolEnv_def sampleReq_def ResolveService_def ofKind_def mikrotikStationName_def
      trimSpace_def trimLeft_def byID_def)

lemma sampleView_fields:
  "v_SubscriberID sampleView = ''S1''" "v_PasswordEnc sampleView = bytesOf ''pw''" "v_Status sampleView = ''active''"
  "v_ExpiresAt sampleView = zeroTime" "v_QuotaExhausted sampleView = False" "v_SessionLimit sampleView = 1"
  "v_MacLockMode sampleView = ''learn''" "v_LearnedMac sampleView = []" "v_ServiceType sampleView = ''pppoe''"
  "v_Scopes sampleView = []" "v_UptimeLimitSeconds sampleView = 0" "v_DailyLimitBytes sampleView = 0"
  by (simp_all add: sampleView_def)

lemma sample_limits:
  "v_Status sampleView = ''active''" "\<not> po_Reject (evaluateLimits sampleView hs (isExpired t sampleView))"
  "sessionLimitReject (samplePolEnv t) sampleView False = None"
  by (simp_all add: sampleView_fields evaluateLimits_def isExpired_def sessionLimitReject_def samplePolEnv_def Let_def)

lemma sample_accept:
  "\<exists>resp st'. decide (samplePolEnv t) (sampleReq mac) sampleRadState = (Some resp, st') \<and> a_Action resp = ''accept''"
proof -
  let ?st1 = "markSeen (samplePolEnv t) (q_NasIP (sampleReq mac)) sampleRadState"
  obtain st2 where f: "findAccount (samplePolEnv t) (sampleReq mac) False ?st1 = (AFound (sampleView, False, []), st2)"
    by (simp add: findAccount_def resolveView_def redisGet_def markSeen_def sampleRadState_def samplePolEnv_def
        sampleReq_def cacheView_def overlayQuota_def Let_def)
  have "accountPassed (samplePolEnv t) (sampleReq mac) nas inst sampleView False"
    if "svc_Service inst = ''pppoe''" for nas inst
    using that by (simp add: accountPassed_def sampleView_fields serviceTypeAllows_def samplePolEnv_def credentialsOK_def sampleReq_def)
  moreover have "limitsPassed (samplePolEnv t) (sampleReq mac) sampleView False st2"
    using sample_limits
    by (simp add: limitsPassed_def macLock_def Let_def)
      (simp add: sampleView_fields samplePolEnv_def normalizeMAC_def trimSpace_def trimLeft_def toUpper_def)
  ultimately show ?thesis
    using decide_complete [OF sample_nas sample_instance, of t mac sampleRadState sampleView False "[]" st2] f
      decideLimits_passed by fastforce
qed

end
