(* ===== verification/RadAuthz.thy ===== *)
theory RadAuthz
  imports RadPolicy
begin

text \<open>
  What the authorize path promises: the exact condition of an accept, one recorded decision per answer,
  replies without conflicting attributes, the MAC lock across two logins, CHAP, and the staleness of a cached
  quota flag.
\<close>

section \<open>Replies\<close>

lemma fst_addAttr:
  "map fst (addAttr i v) = (if v = [] then [] else [i])" "fst ` set (addAttr i v) = (if v = [] then {} else {i})"
  by (simp_all add: addAttr_def)

lemmas intent_defs = IntentRateLimit_def IntentAddressPool_def IntentRedirectExpired_def IntentStaticIP_def
  IntentAddressList_def IntentDelegatedPrefix_def

section \<open>MAC normalization\<close>

lemma of_char_upperChar:
  "(of_char (upperChar c) :: nat) = (if 97 \<le> (of_char c :: nat) \<and> (of_char c :: nat) \<le> 122 then of_char c - 32 else of_char c)"
  by (auto simp: upperChar_def Let_def)

lemma upperChar_upperChar [simp]: "upperChar (upperChar c) = upperChar c"
proof -
  have "\<not> (97 \<le> (of_char (upperChar c) :: nat) \<and> (of_char (upperChar c) :: nat) \<le> 122)"
    by (auto simp: of_char_upperChar)
  then show ?thesis unfolding upperChar_def [of "upperChar c"] Let_def by (rule if_not_P)
qed

lemma char_eq_nat: "c = d \<longleftrightarrow> (of_char c :: nat) = of_char d"
  by (metis char_of_char)

lemma upper_nat_fixed:
  "y < 65 \<Longrightarrow> (if 97 \<le> x \<and> x \<le> 122 then x - 32 else x) = y \<longleftrightarrow> x = y" for x y :: nat
  by auto

lemma upperChar_fixed: "(of_char d :: nat) < 65 \<Longrightarrow> upperChar c = d \<longleftrightarrow> c = d"
  unfolding char_eq_nat of_char_upperChar by (rule upper_nat_fixed)

lemma upperChar_sep: "upperChar c \<in> set '':-.'' \<longleftrightarrow> c \<in> set '':-.''"
  using upperChar_fixed [of "CHR '':''" c] upperChar_fixed [of "CHR ''-''" c] upperChar_fixed [of "CHR ''.''" c]
  by simp

lemma normalizeMAC_seps: "\<forall>c \<in> set (normalizeMAC s). c \<notin> set '':-.''"
  using upperChar_sep by (auto simp: normalizeMAC_def Let_def toUpper_def)

lemma normalizeMAC_upper: "toUpper (normalizeMAC s) = normalizeMAC s"
  by (simp add: normalizeMAC_def Let_def toUpper_def)

lemma normalizeMAC_idem:
  assumes "\<forall>c \<in> set (normalizeMAC s). \<not> isSpaceChar c"
  shows "normalizeMAC (normalizeMAC s) = normalizeMAC s"
proof -
  let ?m = "normalizeMAC s"
  have "trimSpace ?m = ?m" using assms by (intro trimSpace_id_all) (simp add: list_all_iff)
  moreover have "takeWhile (\<lambda>c. c \<noteq> CHR '' '' \<and> c \<noteq> CHR 0x09) ?m = ?m"
    using assms by (auto simp: takeWhile_eq_all_conv isSpaceChar_def)
  moreover have "filter (\<lambda>c. c \<notin> set '':-.'') ?m = ?m" using normalizeMAC_seps by (simp add: filter_id_conv)
  ultimately show ?thesis using normalizeMAC_upper [of s] by (simp only: normalizeMAC_def [of ?m] Let_def)
qed

section \<open>The MAC lock across logins\<close>

lemma findAccount_row:
  assumes "findAccount env req hs st = (AFound (view, isCode, via), st')" and "pe_redisUp env"
    and "pe_providerUp env" and "\<not> pe_viewFails env" and "map_of (rd_subs st) (q_Username req) = Some v"
    and "\<forall>v' e. rd_views st (q_Username req) = Some (v', e) \<longrightarrow> v' = v \<and> rd_idx st (v_SubscriberID v) = Some (q_Username req, e)"
    and "v_SubscriberID v \<noteq> []"
  shows "\<not> isCode \<and> v_MacLockMode view = v_MacLockMode v \<and> v_LearnedMac view = v_LearnedMac v
       \<and> v_SubscriberID view = v_SubscriberID v \<and> rd_subs st' = rd_subs st
       \<and> (\<exists>e > pe_now env. rd_idx st' (v_SubscriberID v) = Some (q_Username req, e))"
  using assms
  by (auto simp: findAccount_def resolveView_def redisGet_def cacheView_def overlayQuota_def viewCacheTTL_def second_def
      Let_def split: option.splits prod.splits if_splits)

lemma LearnMac_effect:
  assumes "\<not> pe_learnFails env" and "pe_redisUp env" and "map_of (rd_subs st) u = Some v" and "learnHit sub v"
    and "rd_idx st sub = Some (u, e)" and "pe_now env < e" and "sub \<noteq> []"
  shows "map_of (rd_subs (LearnMac env sub mac st)) u = Some (v\<lparr>v_LearnedMac := mac\<rparr>)"
    and "rd_views (LearnMac env sub mac st) u = None"
proof -
  have "list_ex (\<lambda>(u, v). learnHit sub v) (rd_subs st)"
    using map_of_SomeD [OF assms(3)] assms(4) by (auto simp: list_ex_iff)
  moreover have "map_of (map (\<lambda>(u, v). (u, f v)) xs) u = map_option f (map_of xs u)" for f :: "AuthView \<Rightarrow> AuthView" and xs
    by (induction xs) auto
  ultimately show "map_of (rd_subs (LearnMac env sub mac st)) u = Some (v\<lparr>v_LearnedMac := mac\<rparr>)"
    "rd_views (LearnMac env sub mac st) u = None"
    using assms by (simp_all add: LearnMac_def InvalidatePolicy_def redisGet_def Let_def)
qed

lemma accepted_learns:
  assumes "decide env req st = (Some resp, st')" and "a_Action resp = ''accept''"
    and "pe_redisUp env" and "pe_providerUp env" and "\<not> pe_viewFails env" and "\<not> pe_learnFails env"
    and "map_of (rd_subs st) u = Some v" and "q_Username req = u" and "v_SubscriberID v \<noteq> []"
    and "v_MacLockMode v = ''learn''" and "v_LearnedMac v = []"
    and "\<forall>v' e. rd_views st u = Some (v', e) \<longrightarrow> v' = v \<and> rd_idx st (v_SubscriberID v) = Some (u, e)"
    and "\<forall>nas inst. pe_nasByIP env (q_NasIP req) = AFound nas \<longrightarrow> resolveInstance env nas req = AFound inst \<longrightarrow>
           svc_Service inst \<noteq> ''hotspot''"
    and "normalizeMAC (q_CallingStationID req) \<noteq> []"
  shows "map_of (rd_subs st') u = Some (v\<lparr>v_LearnedMac := normalizeMAC (q_CallingStationID req)\<rparr>)
       \<and> rd_views st' u = None"
proof -
  let ?st1 = "markSeen env (q_NasIP req) st" and ?mac = "normalizeMAC (q_CallingStationID req)"
  from decide_accept [OF assms(1,2)] obtain nas inst view isCode via st2 ev
    where n: "pe_nasByIP env (q_NasIP req) = AFound nas" "resolveInstance env nas req = AFound inst"
      and acc: "findAccount env req (svc_Service inst = ''hotspot'') ?st1 = (AFound (view, isCode, via), st2)"
      and dl: "decideLimits env req view inst (svc_Service inst = ''hotspot'') ev st2 = (Some resp, st')" by blast
  have hs: "\<not> (svc_Service inst = ''hotspot'')" using n assms(13) by blast
  have "map_of (rd_subs ?st1) (q_Username req) = Some v"
    "\<forall>v' e. rd_views ?st1 (q_Username req) = Some (v', e) \<longrightarrow> v' = v \<and> rd_idx ?st1 (v_SubscriberID v) = Some (q_Username req, e)"
    using assms(7,8,12) by (auto simp: markSeen_def)
  from findAccount_row [OF acc assms(3-5) this assms(9)] assms(8) obtain e
    where f: "v_MacLockMode view = v_MacLockMode v" "v_LearnedMac view = v_LearnedMac v"
      "v_SubscriberID view = v_SubscriberID v" "rd_subs st2 = rd_subs ?st1"
      and e: "e > pe_now env" "rd_idx st2 (v_SubscriberID v) = Some (u, e)" by auto
  have "normalizeMAC [] = []" by (simp add: normalizeMAC_def trimSpace_def trimLeft_def toUpper_def)
  then have "snd (macLock env view (q_CallingStationID req) st2) = LearnMac env (v_SubscriberID v) ?mac st2"
    using f assms(4,10,11,14) by (simp add: macLock_def Let_def)
  moreover have "map_of (rd_subs st2) u = Some v" using f(4) assms(7) by (simp add: markSeen_def)
  moreover have "learnHit (v_SubscriberID v) v" using assms(10,11) by (simp add: learnHit_def)
  ultimately show ?thesis
    using decideLimits_accept(3,4) [OF dl assms(2)] hs LearnMac_effect [OF assms(6,3) _ _ e(2,1) assms(9)] by simp
qed

section \<open>CHAP\<close>

definition hexDigit :: "nat \<Rightarrow> char" where
  "hexDigit n = ''0123456789abcdef'' ! n"

definition hexEncode :: "bytes \<Rightarrow> string" where
  "hexEncode bs = concat (map (\<lambda>b. [hexDigit (unat b div 16), hexDigit (unat b mod 16)]) bs)"

lemma hexVal_hexDigit: "n < 16 \<Longrightarrow> hexVal (hexDigit n) = Some n"
proof -
  have "list_all (\<lambda>n. hexVal (hexDigit n) = Some n) [0..<16]"
    by (simp add: upt_rec hexDigit_def hexVal_def isDigit_def digitVal_def)
  then show "n < 16 \<Longrightarrow> hexVal (hexDigit n) = Some n" by (simp add: list_all_iff)
qed

lemma hexDecode_hexEncode: "hexDecode (hexEncode bs) = Some bs"
proof (induction bs)
  case (Cons b bs)
  have "unat b < 2 ^ 8" using unsigned_less [of b] by simp
  then have "unat b div 16 < 16" "unat b mod 16 < 16" by auto
  moreover have "of_nat (16 * (unat b div 16) + unat b mod 16) = b" by simp
  ultimately show ?case using Cons by (simp add: hexEncode_def hexVal_hexDigit)
qed (simp add: hexEncode_def)

section \<open>Properties\<close>

text \<open>
  C3: when a request is accepted. The chain accepts exactly when the NAS is registered, the request resolves to
  one of its enabled service instances, the username is a subscriber, or on a hotspot a voucher or card,
  the subscriber's service type, NAS scope and password allow it (a code is its own credential), the account
  is not disabled, no exhausted limit rejects, the session limit is not reached, and on PPPoE the
  MAC lock holds. Every other request is rejected or fails with an error.
\<close>

theorem accept_iff:
  "(\<exists>resp st'. decide env req st = (Some resp, st') \<and> a_Action resp = ''accept'') \<longleftrightarrow>
   (\<exists>nas inst view isCode via st2. pe_nasByIP env (q_NasIP req) = AFound nas
      \<and> resolveInstance env nas req = AFound inst
      \<and> findAccount env req (svc_Service inst = ''hotspot'') (markSeen env (q_NasIP req) st)
          = (AFound (view, isCode, via), st2)
      \<and> accountPassed env req nas inst view isCode
      \<and> limitsPassed env req view (svc_Service inst = ''hotspot'') st2)"
  (is "?acc \<longleftrightarrow> ?cond")
proof
  assume ?acc
  then obtain resp st' where d: "decide env req st = (Some resp, st')" "a_Action resp = ''accept''" by blast
  from decide_accept [OF this] show ?cond using decideLimits_accept(1) d(2) by blast
next
  assume ?cond
  then show ?acc using decide_complete decideLimits_passed by metis
qed

text \<open>
  Every answer is recorded once. With Redis up, a decided request appends exactly one event to the decision
  stream, with the answer's outcome, reason and time and, for an accept, the attributes that were sent; a
  request that failed with an error appends none.
\<close>

theorem decision_recorded_once:
  assumes "pe_redisUp env"
  shows "case decide env req st of
     (None, st') \<Rightarrow> rd_decisions st' = rd_decisions st
   | (Some resp, st') \<Rightarrow> (\<exists>ev. rd_decisions st' = rd_decisions st @ [ev] \<and> de_Outcome ev = a_Action resp
        \<and> de_Reason ev = a_Reason resp \<and> de_At ev = pe_now env
        \<and> (a_Action resp = ''accept'' \<longrightarrow> de_Attributes ev = a_Attributes resp))"
  using decide_recorded [OF assms, of st req]
  by (auto simp: recordedIn_def recorded_def split: prod.splits option.splits)

theorem decision_recorded_once_witness:
  "\<exists>resp st' ev. decide (samplePolEnv 5) (sampleReq ''aa'') sampleRadState = (Some resp, st')
     \<and> a_Action resp = ''accept'' \<and> rd_decisions st' = [ev] \<and> de_Outcome ev = ''accept'' \<and> de_At ev = 5"
proof -
  obtain resp st' where d: "decide (samplePolEnv 5) (sampleReq ''aa'') sampleRadState = (Some resp, st')"
    "a_Action resp = ''accept''" using sample_accept by blast
  have up: "pe_redisUp (samplePolEnv 5)" "pe_now (samplePolEnv 5) = 5" "rd_decisions sampleRadState = []"
    by (simp_all add: samplePolEnv_def sampleRadState_def)
  from decision_recorded_once [OF up(1), where req = "sampleReq ''aa''" and st = sampleRadState] d up show ?thesis by auto
qed

text \<open>
  Replies do not conflict. No intent occurs twice in a reply; a static address is never sent together
  with a pool; the redirect of an expired account is never sent together with an operator's address list,
  which use the same router attribute; and a hotspot session is never given the profile's PPPoE pool.
\<close>

theorem reply_consistent:
  "let is = map fst (replyIntents view inst hotspot oc w) in
   distinct is
   \<and> \<not> (IntentStaticIP \<in> set is \<and> IntentAddressPool \<in> set is)
   \<and> \<not> (IntentRedirectExpired \<in> set is \<and> IntentAddressList \<in> set is)
   \<and> replyIntents view inst True oc w = replyIntents (view\<lparr>v_PoolName := []\<rparr>) inst True oc w"
proof -
  have "normalRate (view\<lparr>v_PoolName := []\<rparr>) True w = normalRate view True w"
    "throttleOrSwitchRate (view\<lparr>v_PoolName := []\<rparr>) oc = throttleOrSwitchRate view oc"
    "expiredPoolRateAndPool (view\<lparr>v_PoolName := []\<rparr>) oc = expiredPoolRateAndPool view oc"
    by (simp_all add: normalRate_def composeRate_def throttleOrSwitchRate_def expiredPoolRateAndPool_def Let_def)
  then have pool: "replyIntents view inst True oc w = replyIntents (view\<lparr>v_PoolName := []\<rparr>) inst True oc w"
    by (cases "po_Mode oc") (simp_all add: replyIntents_def)
  obtain rate pool where rp: "expiredPoolRateAndPool view oc = (rate, pool)" by (cases "expiredPoolRateAndPool view oc")
  define opt where "opt = (\<lambda>i v. if v = ([] :: string) then [] else [i :: string])"
  define R where "R = (if po_Mode oc = modeThrottled \<or> po_Mode oc = modeSwitchPlan then throttleOrSwitchRate view oc
      else normalRate view hotspot w)"
  define A where "A = (if v_StaticIP view \<noteq> [] then [IntentStaticIP]
      else if po_Mode oc = modeSwitchPlan \<and> po_Pool oc \<noteq> [] then [IntentAddressPool]
      else if svc_IPPoolName inst \<noteq> [] then [IntentAddressPool]
      else if \<not> hotspot then opt IntentAddressPool (v_PoolName view) else [])"
  have o: "map fst (addAttr i v) = opt i v" for i v by (simp add: opt_def fst_addAttr)
  have e: "map fst (replyIntents view inst hotspot oc w) =
      (if po_Mode oc = modeExpiredPool
       then opt IntentAddressPool pool @ opt IntentRedirectExpired ''expired'' @ opt IntentRateLimit rate
       else opt IntentRateLimit R @ A @ opt IntentAddressList (v_AddressList view)
            @ opt IntentDelegatedPrefix (v_DelegatedPrefix view))"
    by (cases "po_Mode oc") (simp_all add: replyIntents_def rp o A_def R_def opt_def fst_addAttr)
  have A: "A = [] \<or> A = [IntentAddressPool] \<or> A = [IntentStaticIP]" by (simp add: A_def opt_def)
  have opt: "opt i v = [] \<or> opt i v = [i]" for i v by (simp add: opt_def)
  have "distinct is \<and> \<not> (IntentStaticIP \<in> set is \<and> IntentAddressPool \<in> set is)
      \<and> \<not> (IntentRedirectExpired \<in> set is \<and> IntentAddressList \<in> set is)"
    if "is = opt IntentAddressPool p @ opt IntentRedirectExpired x @ opt IntentRateLimit r
      \<or> is = opt IntentRateLimit r @ A @ opt IntentAddressList l @ opt IntentDelegatedPrefix d" for "is" p x r l d
    using that A opt [of IntentAddressPool p] opt [of IntentRedirectExpired x] opt [of IntentRateLimit r]
      opt [of IntentAddressList l] opt [of IntentDelegatedPrefix d]
    by (elim disjE) (simp_all add: intent_defs)
  from this [of "map fst (replyIntents view inst hotspot oc w)"] e pool show ?thesis
    unfolding Let_def by metis
qed

text \<open>
  C34: the MAC lock binds the first device. A subscriber in learn mode with no learned MAC, whose cached view (if any)
  agrees with the row, is accepted on PPPoE with some MAC. Then, at any later time, with any
  cache contents left by that login, a PPPoE request for the same username from a device with another MAC is not accepted.
\<close>

theorem mac_lock_binds_first_device:
  assumes "decide env req st = (Some resp, st')" and "a_Action resp = ''accept''"
    and "pe_redisUp env" and "pe_providerUp env" and "\<not> pe_viewFails env" and "\<not> pe_learnFails env"
    and "map_of (rd_subs st) u = Some v" and "q_Username req = u" and "v_SubscriberID v \<noteq> []"
    and "v_MacLockMode v = ''learn''" and "v_LearnedMac v = []"
    and "\<forall>v' e. rd_views st u = Some (v', e) \<longrightarrow> v' = v \<and> rd_idx st (v_SubscriberID v) = Some (u, e)"
    and "\<forall>nas inst. pe_nasByIP env (q_NasIP req) = AFound nas \<longrightarrow> resolveInstance env nas req = AFound inst \<longrightarrow>
           svc_Service inst \<noteq> ''hotspot''"
    and "normalizeMAC (q_CallingStationID req) \<noteq> []"
    and "\<forall>c \<in> set (normalizeMAC (q_CallingStationID req)). \<not> isSpaceChar c"
    and "pe_providerUp env2" and "\<not> pe_viewFails env2" and "q_Username req2 = u"
    and "\<forall>nas inst. pe_nasByIP env2 (q_NasIP req2) = AFound nas \<longrightarrow> resolveInstance env2 nas req2 = AFound inst \<longrightarrow>
           svc_Service inst \<noteq> ''hotspot''"
    and "normalizeMAC (q_CallingStationID req2) \<notin> {[], normalizeMAC (q_CallingStationID req)}"
  shows "decide env2 req2 st' \<noteq> (Some resp2, st'') \<or> a_Action resp2 \<noteq> ''accept''"
proof (rule ccontr)
  let ?mac = "normalizeMAC (q_CallingStationID req)"
  assume "\<not> ?thesis"
  then have d: "decide env2 req2 st' = (Some resp2, st'')" "a_Action resp2 = ''accept''" by auto
  from accepted_learns [OF assms(1-14)]
  have row: "map_of (rd_subs st') u = Some (v\<lparr>v_LearnedMac := ?mac\<rparr>)" "rd_views st' u = None" by auto
  from decide_accept [OF d] obtain nas inst view isCode via st2 ev
    where n: "pe_nasByIP env2 (q_NasIP req2) = AFound nas" "resolveInstance env2 nas req2 = AFound inst"
      and acc: "findAccount env2 req2 (svc_Service inst = ''hotspot'') (markSeen env2 (q_NasIP req2) st')
        = (AFound (view, isCode, via), st2)"
      and dl: "decideLimits env2 req2 view inst (svc_Service inst = ''hotspot'') ev st2 = (Some resp2, st'')" by blast
  have hs: "\<not> (svc_Service inst = ''hotspot'')" using n assms(19) by blast
  have "v_MacLockMode view = ''learn'' \<and> v_LearnedMac view = ?mac"
    using acc row assms(10,16-18)
    by (auto simp: findAccount_def resolveView_def redisGet_def markSeen_def cacheView_def overlayQuota_def Let_def
        split: option.splits prod.splits if_splits)
  moreover have "fst (macLock env2 view (q_CallingStationID req2) st2) = None"
    using decideLimits_accept(1) [OF dl d(2)] hs by (simp add: limitsPassed_def)
  ultimately show False
    using normalizeMAC_idem [OF assms(15)] assms(14,20)
    by (auto simp: macLock_def Let_def split: if_splits)
qed

theorem mac_lock_binds_first_device_witness:
  "\<exists>resp st'. decide (samplePolEnv 5) (sampleReq ''11'') sampleRadState = (Some resp, st') \<and> a_Action resp = ''accept''
     \<and> (\<forall>resp2 st''. decide (samplePolEnv 9) (sampleReq ''22'') st' \<noteq> (Some resp2, st'') \<or> a_Action resp2 \<noteq> ''accept'')"
proof -
  let ?e = "samplePolEnv 5"
  obtain resp st' where d: "decide ?e (sampleReq ''11'') sampleRadState = (Some resp, st')"
    "a_Action resp = ''accept''" using sample_accept by blast
  have mac: "normalizeMAC ''11'' = ''11''" "normalizeMAC ''22'' = ''22''"
    by (simp_all add: normalizeMAC_def trimSpace_def trimLeft_def toUpper_def upperChar_def isSpaceChar_def Let_def)
  have "decide (samplePolEnv 9) (sampleReq ''22'') st' \<noteq> (Some resp2, st'') \<or> a_Action resp2 \<noteq> ''accept''" for resp2 st''
    by (rule mac_lock_binds_first_device [OF d, of "''ali''" sampleView])
      (simp_all add: mac sample_instance sampleView_fields, simp_all add: mac samplePolEnv_def sampleRadState_def sampleReq_def isSpaceChar_def)
  with d show ?thesis by blast
qed

text \<open>
  CHAP. A response built the way RFC 2865 prescribes, from any identifier and challenge, is accepted for the
  right password; for any other password it is accepted only if the two digests collide.
\<close>

theorem chap_correct:
  assumes "length (md5 (ident # password @ challenge)) = 16"
    and "q_ChapChallenge req = hexEncode challenge"
    and "q_ChapResponse req = hexEncode (ident # md5 (ident # password @ challenge))"
  shows "credentialsOK md5 other req \<longleftrightarrow> md5 (ident # other @ challenge) = md5 (ident # password @ challenge)"
proof -
  have "hexEncode (b # bs) \<noteq> []" for b bs by (simp add: hexEncode_def)
  then show ?thesis using assms by (simp add: credentialsOK_def verifyCHAP_def hexDecode_hexEncode)
qed

theorem chap_correct_witness:
  "credentialsOK (\<lambda>bs. take 16 (bs @ replicate 16 0)) (bytesOf ''pw'')
     ((sampleReq [])\<lparr>q_ChapChallenge := hexEncode [7, 8],
        q_ChapResponse := hexEncode (1 # take 16 (1 # bytesOf ''pw'' @ [7, 8] @ replicate 16 0))\<rparr>)"
  using chap_correct [of "\<lambda>bs. take 16 (bs @ replicate 16 0)" 1 "bytesOf ''pw''" "[7, 8]"
      "(sampleReq [])\<lparr>q_ChapChallenge := hexEncode [7, 8],
        q_ChapResponse := hexEncode (1 # take 16 (1 # bytesOf ''pw'' @ [7, 8] @ replicate 16 0))\<rparr>" "bytesOf ''pw''"]
  by (simp add: bytesOf_def)

text \<open>
  A cleared quota flag is not seen at once. If the view was cached while the subscriber was exhausted and the flag has since been
  cleared, every resolution before the entry expires still returns an exhausted view: the overlay only
  ever sets the bit.
\<close>

theorem cleared_quota_stays_exhausted:
  assumes "pe_redisUp env" and "rd_views st u = Some (v, e)" and "pe_now env < e" and "v_QuotaExhausted v"
    and "\<not> rd_quota st (v_SubscriberID v)"
  shows "\<exists>v'. resolveView env u st = (AFound v', st) \<and> v_QuotaExhausted v'"
  using assms by (simp add: resolveView_def redisGet_def overlayQuota_def)

theorem cleared_quota_stays_exhausted_witness:
  "\<exists>v'. resolveView (samplePolEnv 5) ''ali''
       (sampleRadState\<lparr>rd_views := [''ali'' \<mapsto> (sampleView\<lparr>v_QuotaExhausted := True\<rparr>, 9)]\<rparr>)
     = (AFound v', sampleRadState\<lparr>rd_views := [''ali'' \<mapsto> (sampleView\<lparr>v_QuotaExhausted := True\<rparr>, 9)]\<rparr>)
     \<and> v_QuotaExhausted v'"
  by (rule cleared_quota_stays_exhausted [where v = "sampleView\<lparr>v_QuotaExhausted := True\<rparr>" and e = 9])
    (simp_all add: samplePolEnv_def sampleRadState_def)

end
