(* ===== verification/CoaOutbox.thy ===== *)
theory CoaOutbox
  imports Vendor Livestate
begin

text \<open>
  The durable CoA outbox of \<^verbatim>\<open>backend/internal/radius\<close>: the rows and their mutations (\<^verbatim>\<open>coa_outbox_store.go\<close>), the enqueue
  API (\<^verbatim>\<open>coa_enqueue.go\<close>) and the dispatcher's tick (\<^verbatim>\<open>coa_dispatcher.go\<close>).

  The table is the list of its rows. The answer of the router to each exchange, of the live-state
  lookup before it, and the success of each statement are arguments.
\<close>

section \<open>Rows\<close>

datatype CoAAction = CoAActionUpdate | CoAActionDisconnect

datatype OutboxState = OutboxPending | OutboxSent | OutboxDone | OutboxNack | OutboxFailed

record SessionRef =
  sr_NASID :: string
  sr_AcctSessionID :: string
  sr_Username :: string
  sr_FramedIP :: string
  sr_Service :: string

definition refService :: "SessionRef \<Rightarrow> string" where
  "refService r = (if sr_Service r = '''' then ''pppoe'' else sr_Service r)"

record OutboxRow =
  ob_ID :: nat
  ob_SubscriberID :: string
  ob_NASID :: string
  ob_AcctSessionID :: string
  ob_Username :: string
  ob_FramedIP :: string
  ob_Service :: string
  ob_Action :: CoAAction
  ob_CurrentOp :: CoAAction
  ob_Attributes :: "Attr list"
  ob_Reason :: string
  ob_State :: OutboxState
  ob_AttemptCount :: int
  ob_LastError :: string
  ob_LastOutcome :: string
  ob_FallbackUsed :: bool
  ob_NextAttemptAt :: gotime
  ob_SentAt :: "gotime option"
  ob_DoneAt :: "gotime option"

record OutboxAttempt =
  at_OutboxID :: nat
  at_AttemptNo :: int
  at_Op :: CoAAction
  at_Outcome :: string

record Outbox =
  ob_rows :: "OutboxRow list"
  ob_attempts :: "OutboxAttempt list"
  ob_nextID :: nat
  ob_failures :: int

section \<open>Store\<close>

definition insertOutbox ::
    "gotime \<Rightarrow> SessionRef \<Rightarrow> CoAAction \<Rightarrow> Attr list \<Rightarrow> string \<Rightarrow> string \<Rightarrow> Outbox \<Rightarrow> Outbox" where
  "insertOutbox now ref action attrs reason sub ob =
     ob\<lparr>ob_rows := ob_rows ob @ [\<lparr>ob_ID = ob_nextID ob, ob_SubscriberID = sub, ob_NASID = sr_NASID ref,
          ob_AcctSessionID = sr_AcctSessionID ref, ob_Username = sr_Username ref, ob_FramedIP = sr_FramedIP ref,
          ob_Service = refService ref, ob_Action = action, ob_CurrentOp = action, ob_Attributes = attrs,
          ob_Reason = reason, ob_State = OutboxPending, ob_AttemptCount = 0, ob_LastError = '''', ob_LastOutcome = '''',
          ob_FallbackUsed = False, ob_NextAttemptAt = now, ob_SentAt = None, ob_DoneAt = None\<rparr>],
        ob_nextID := Suc (ob_nextID ob)\<rparr>"

text \<open>\<^verbatim>\<open>Enqueue\<close>: \<open>None\<close> is its error (no database, or the insert failed).\<close>

definition Enqueue ::
    "bool \<Rightarrow> gotime \<Rightarrow> SessionRef \<Rightarrow> CoAAction \<Rightarrow> Attr list \<Rightarrow> string \<Rightarrow> string \<Rightarrow> Outbox \<Rightarrow> Outbox option" where
  "Enqueue fails now ref action attrs reason sub ob =
     (if fails then None
      else Some (insertOutbox now ref action (if action = CoAActionDisconnect then [] else attrs) reason sub ob))"

definition updateRow :: "nat \<Rightarrow> (OutboxRow \<Rightarrow> OutboxRow) \<Rightarrow> Outbox \<Rightarrow> Outbox" where
  "updateRow i f ob = ob\<lparr>ob_rows := map (\<lambda>r. if ob_ID r = i then f r else r) (ob_rows ob)\<rparr>"

definition cancelled :: "gotime \<Rightarrow> OutboxRow \<Rightarrow> OutboxRow" where
  "cancelled now r = (if ob_State r = OutboxPending
     then r\<lparr>ob_State := OutboxFailed, ob_LastOutcome := ''cancelled'', ob_DoneAt := Some now\<rparr> else r)"

definition cancelOutboxRow :: "gotime \<Rightarrow> nat \<Rightarrow> Outbox \<Rightarrow> Outbox" where
  "cancelOutboxRow now i ob = updateRow i (cancelled now) ob"

definition requeued :: "gotime \<Rightarrow> OutboxRow \<Rightarrow> OutboxRow" where
  "requeued now r = (if ob_State r = OutboxNack \<or> ob_State r = OutboxFailed
     then r\<lparr>ob_State := OutboxPending, ob_CurrentOp := ob_Action r, ob_AttemptCount := 0, ob_FallbackUsed := False,
            ob_LastError := '''', ob_LastOutcome := '''', ob_NextAttemptAt := now, ob_SentAt := None, ob_DoneAt := None\<rparr>
     else r)"

definition retryOutboxRow :: "gotime \<Rightarrow> nat \<Rightarrow> Outbox \<Rightarrow> Outbox" where
  "retryOutboxRow now i ob = updateRow i (requeued now) ob"

text \<open>The due rows in order of their due time, at most \<open>limit\<close> of them, are marked sent and returned.\<close>

definition dueRows :: "gotime \<Rightarrow> nat \<Rightarrow> OutboxRow list \<Rightarrow> OutboxRow list" where
  "dueRows now limit rows =
     take limit (sort_key ob_NextAttemptAt (filter (\<lambda>r. ob_State r = OutboxPending \<and> ob_NextAttemptAt r \<le> now) rows))"

definition sentRow :: "gotime \<Rightarrow> OutboxRow \<Rightarrow> OutboxRow" where
  "sentRow now r = r\<lparr>ob_State := OutboxSent, ob_SentAt := Some now\<rparr>"

definition claimBatch :: "gotime \<Rightarrow> nat \<Rightarrow> Outbox \<Rightarrow> OutboxRow list \<times> Outbox" where
  "claimBatch now limit ob =
     (let ids = map ob_ID (dueRows now limit (ob_rows ob));
          f = (\<lambda>r. if ob_ID r \<in> set ids then sentRow now r else r)
      in (map (sentRow now) (filter (\<lambda>r. ob_ID r \<in> set ids) (ob_rows ob)), ob\<lparr>ob_rows := map f (ob_rows ob)\<rparr>))"

definition coaStuckSentAfter :: duration where "coaStuckSentAfter = 30 * second"

definition reclaimed :: "gotime \<Rightarrow> duration \<Rightarrow> OutboxRow \<Rightarrow> OutboxRow" where
  "reclaimed now olderThan r =
     (if ob_State r = OutboxSent \<and> (case ob_SentAt r of Some t \<Rightarrow> t < now - wholeSeconds olderThan * second | None \<Rightarrow> False)
      then r\<lparr>ob_State := OutboxPending, ob_NextAttemptAt := now\<rparr> else r)"

definition reclaimStuckSent :: "gotime \<Rightarrow> duration \<Rightarrow> Outbox \<Rightarrow> Outbox" where
  "reclaimStuckSent now olderThan ob = ob\<lparr>ob_rows := map (reclaimed now olderThan) (ob_rows ob)\<rparr>"

definition resolveDone :: "gotime \<Rightarrow> string \<Rightarrow> OutboxRow \<Rightarrow> OutboxRow" where
  "resolveDone now outcome r = r\<lparr>ob_State := OutboxDone, ob_DoneAt := Some now, ob_LastOutcome := outcome,
     ob_AttemptCount := ob_AttemptCount r + 1\<rparr>"

definition resolveNack :: "string \<Rightarrow> string \<Rightarrow> OutboxRow \<Rightarrow> OutboxRow" where
  "resolveNack outcome errText r = r\<lparr>ob_State := OutboxNack, ob_AttemptCount := ob_AttemptCount r + 1,
     ob_LastOutcome := outcome, ob_LastError := errText\<rparr>"

definition resolveReaped :: "gotime \<Rightarrow> OutboxRow \<Rightarrow> OutboxRow" where
  "resolveReaped now r = r\<lparr>ob_State := OutboxDone, ob_DoneAt := Some now, ob_LastOutcome := ''skipped_reaped''\<rparr>"

section \<open>The dispatcher\<close>

datatype nackDecision = Retry | Fallback | Fail

definition decideNack :: "OutboxRow \<Rightarrow> int \<Rightarrow> nackDecision" where
  "decideNack row retryMax =
     (if ob_AttemptCount row < retryMax then Retry
      else if ob_CurrentOp row = CoAActionUpdate \<and> \<not> ob_FallbackUsed row then Fallback
      else Fail)"

definition nextAttemptBackoff :: "gotime \<Rightarrow> gotime" where
  "nextAttemptBackoff now = now + 3 * second"

definition applyNackDecision :: "gotime \<Rightarrow> nackDecision \<Rightarrow> OutboxRow \<Rightarrow> OutboxRow" where
  "applyNackDecision now d r =
     (case d of
        Retry \<Rightarrow> r\<lparr>ob_State := OutboxPending, ob_NextAttemptAt := nextAttemptBackoff now\<rparr>
      | Fallback \<Rightarrow> r\<lparr>ob_State := OutboxPending, ob_CurrentOp := CoAActionDisconnect, ob_AttemptCount := 0,
                       ob_FallbackUsed := True, ob_NextAttemptAt := now\<rparr>
      | Fail \<Rightarrow> r\<lparr>ob_State := OutboxFailed, ob_DoneAt := Some now\<rparr>)"

text \<open>The live-state lookup before an exchange: an entry, no entry, or a Redis error.\<close>

datatype liveAnswer = LiveEntry | LiveNil | LiveError

definition sessionStillLive :: "liveAnswer \<Rightarrow> bool" where
  "sessionStillLive a \<longleftrightarrow> a = LiveEntry"

record DispatchEnv =
  d_live :: liveAnswer
  d_ack :: bool
  d_outcome :: string
  d_err :: string
  d_attemptFails :: bool
  d_resolveFails :: bool

definition dispatchOne :: "DispatchEnv \<Rightarrow> gotime \<Rightarrow> OutboxRow \<Rightarrow> Outbox \<Rightarrow> Outbox" where
  "dispatchOne de now row ob =
     (if \<not> sessionStillLive (d_live de)
      then (if d_resolveFails de then ob else updateRow (ob_ID row) (resolveReaped now) ob)
      else let ob1 = (if d_attemptFails de then ob
                      else ob\<lparr>ob_attempts := ob_attempts ob @ [\<lparr>at_OutboxID = ob_ID row, at_AttemptNo = ob_AttemptCount row + 1,
                             at_Op = ob_CurrentOp row, at_Outcome = d_outcome de\<rparr>]\<rparr>)
           in if d_resolveFails de then ob1
              else if d_ack de then updateRow (ob_ID row) (resolveDone now (d_outcome de)) ob1
              else updateRow (ob_ID row) (resolveNack (d_outcome de) (d_err de)) ob1)"

definition sweepRow :: "gotime \<Rightarrow> int \<Rightarrow> (nat \<Rightarrow> bool) \<Rightarrow> OutboxRow \<Rightarrow> OutboxRow" where
  "sweepRow now retryMax fails r =
     (if ob_State r = OutboxNack \<and> \<not> fails (ob_ID r) then applyNackDecision now (decideNack r retryMax) r else r)"

definition nackSweep :: "gotime \<Rightarrow> int \<Rightarrow> (nat \<Rightarrow> bool) \<Rightarrow> Outbox \<Rightarrow> Outbox" where
  "nackSweep now retryMax fails ob =
     ob\<lparr>ob_failures := ob_failures ob + int (length (filter
           (\<lambda>r. ob_State r = OutboxNack \<and> \<not> fails (ob_ID r) \<and> decideNack r retryMax = Fail) (ob_rows ob))),
        ob_rows := map (sweepRow now retryMax fails) (ob_rows ob)\<rparr>"

definition coaDispatchBatch :: nat where "coaDispatchBatch = 100"

record TickEnv =
  t_reclaimFails :: bool
  t_claimFails :: bool
  t_listFails :: bool

definition coaDispatchTick ::
    "TickEnv \<Rightarrow> gotime \<Rightarrow> int \<Rightarrow> (nat \<Rightarrow> DispatchEnv) \<Rightarrow> (nat \<Rightarrow> bool) \<Rightarrow> Outbox \<Rightarrow> Outbox" where
  "coaDispatchTick te now retryMax envs fails ob =
     (let ob1 = (if t_reclaimFails te then ob else reclaimStuckSent now coaStuckSentAfter ob);
          (rows, ob2) = (if t_claimFails te then ([], ob1) else claimBatch now coaDispatchBatch ob1);
          ob3 = fold (\<lambda>r. dispatchOne (envs (ob_ID r)) now r) rows ob2
      in if t_listFails te then ob3 else nackSweep now retryMax fails ob3)"

section \<open>One row\<close>

text \<open>The steps of a single row, as the mutations above perform them.\<close>

inductive rowStep :: "OutboxRow \<Rightarrow> OutboxRow \<Rightarrow> bool" where
  cancel: "ob_State r = OutboxPending \<Longrightarrow> rowStep r (cancelled now r)"
| requeue: "ob_State r = OutboxNack \<or> ob_State r = OutboxFailed \<Longrightarrow> rowStep r (requeued now r)"
| claim: "ob_State r = OutboxPending \<Longrightarrow> rowStep r (sentRow now r)"
| reclaim: "ob_State r = OutboxSent \<Longrightarrow> rowStep r (reclaimed now olderThan r)"
| done_ack: "ob_State r = OutboxSent \<Longrightarrow> rowStep r (resolveDone now outcome r)"
| nack: "ob_State r = OutboxSent \<Longrightarrow> rowStep r (resolveNack outcome errText r)"
| reaped: "ob_State r = OutboxSent \<Longrightarrow> rowStep r (resolveReaped now r)"
| sweep: "ob_State r = OutboxNack \<Longrightarrow> rowStep r (applyNackDecision now (decideNack r retryMax) r)"

inductive_cases rowStepE: "rowStep r r'"

definition rowIdentity :: "OutboxRow \<Rightarrow> nat \<times> string \<times> string \<times> string \<times> CoAAction \<times> Attr list" where
  "rowIdentity r = (ob_ID r, ob_SubscriberID r, ob_NASID r, ob_AcctSessionID r, ob_Action r, ob_Attributes r)"

definition fallbackInv :: "OutboxRow \<Rightarrow> bool" where
  "fallbackInv r \<longleftrightarrow> (if ob_FallbackUsed r then ob_Action r = CoAActionUpdate \<and> ob_CurrentOp r = CoAActionDisconnect
     else ob_CurrentOp r = ob_Action r)"

lemmas row_defs = cancelled_def requeued_def sentRow_def reclaimed_def resolveDone_def resolveNack_def resolveReaped_def
  applyNackDecision_def

lemma rowStep_identity: "rowStep r r' \<Longrightarrow> rowIdentity r' = rowIdentity r"
  by (induction rule: rowStep.induct) (auto simp: row_defs rowIdentity_def split: nackDecision.split option.split)

lemma rowStep_fallbackInv: "rowStep r r' \<Longrightarrow> fallbackInv r \<Longrightarrow> fallbackInv r'"
proof (induction rule: rowStep.induct)
  case (sweep r now retryMax)
  then show ?case
    by (cases "decideNack r retryMax")
      (simp_all add: applyNackDecision_def fallbackInv_def decideNack_def split: if_splits)
qed (simp_all add: row_defs fallbackInv_def)

text \<open>The transitions a row can make.\<close>

definition transition :: "OutboxState \<Rightarrow> OutboxState \<Rightarrow> bool" where
  "transition s s' \<longleftrightarrow> (s, s') \<in>
     {(OutboxPending, OutboxSent), (OutboxSent, OutboxDone), (OutboxSent, OutboxNack), (OutboxNack, OutboxPending),
      (OutboxNack, OutboxFailed), (OutboxPending, OutboxFailed), (OutboxFailed, OutboxPending), (OutboxSent, OutboxPending)}"

lemma rowStep_transition: "rowStep r r' \<Longrightarrow> r' = r \<or> transition (ob_State r) (ob_State r')"
  by (induction rule: rowStep.induct)
    (auto simp: row_defs transition_def split: nackDecision.split option.split)

section \<open>The table\<close>

abbreviation rowSteps :: "OutboxRow \<Rightarrow> OutboxRow \<Rightarrow> bool" where
  "rowSteps \<equiv> rowStep\<^sup>*\<^sup>*"

definition tableSteps :: "Outbox \<Rightarrow> Outbox \<Rightarrow> bool" where
  "tableSteps ob ob' \<longleftrightarrow> list_all2 rowSteps (ob_rows ob) (ob_rows ob')"

lemma tableSteps_map: "(\<And>r. r \<in> set (ob_rows ob) \<Longrightarrow> rowSteps r (f r)) \<Longrightarrow> ob_rows ob' = map f (ob_rows ob) \<Longrightarrow> tableSteps ob ob'"
  by (simp add: tableSteps_def list_all2_conv_all_nth)

lemma tableSteps_trans: "tableSteps ob ob' \<Longrightarrow> tableSteps ob' ob'' \<Longrightarrow> tableSteps ob ob''"
  unfolding tableSteps_def by (rule list_all2_trans [of rowSteps rowSteps rowSteps]) auto

lemma tableSteps_refl: "ob_rows ob' = ob_rows ob \<Longrightarrow> tableSteps ob ob'"
  by (simp add: tableSteps_def list_all2_refl)

lemma rowSteps_ops:
  "rowSteps r (cancelled now r)" "rowSteps r (requeued now r)" "rowSteps r (reclaimed now olderThan r)"
  "rowSteps r (sweepRow now retryMax fails r)"
proof -
  show "rowSteps r (cancelled now r)"
    by (cases "ob_State r = OutboxPending") (simp add: rowStep.cancel r_into_rtranclp, simp add: cancelled_def)
  show "rowSteps r (requeued now r)"
    by (cases "ob_State r = OutboxNack \<or> ob_State r = OutboxFailed") (simp add: rowStep.requeue r_into_rtranclp, simp add: requeued_def)
  show "rowSteps r (reclaimed now olderThan r)"
    by (cases "ob_State r = OutboxSent") (simp add: rowStep.reclaim r_into_rtranclp, simp add: reclaimed_def)
  show "rowSteps r (sweepRow now retryMax fails r)"
    by (simp add: sweepRow_def rowStep.sweep r_into_rtranclp)
qed

lemma updateRow_steps: "(\<And>r. r \<in> set (ob_rows ob) \<Longrightarrow> ob_ID r = i \<Longrightarrow> rowSteps r (f r)) \<Longrightarrow> tableSteps ob (updateRow i f ob)"
  by (rule tableSteps_map [where f = "\<lambda>r. if ob_ID r = i then f r else r"]) (auto simp: updateRow_def)

lemma store_steps:
  "tableSteps ob (cancelOutboxRow now i ob)" "tableSteps ob (retryOutboxRow now i ob)"
  "tableSteps ob (reclaimStuckSent now olderThan ob)" "tableSteps ob (nackSweep now retryMax fails ob)"
proof -
  show "tableSteps ob (cancelOutboxRow now i ob)" "tableSteps ob (retryOutboxRow now i ob)"
    by (simp_all add: cancelOutboxRow_def retryOutboxRow_def updateRow_steps rowSteps_ops)
  show "tableSteps ob (reclaimStuckSent now olderThan ob)"
    by (rule tableSteps_map [where f = "reclaimed now olderThan"]) (simp_all add: reclaimStuckSent_def rowSteps_ops)
  show "tableSteps ob (nackSweep now retryMax fails ob)"
    by (rule tableSteps_map [where f = "sweepRow now retryMax fails"]) (simp_all add: nackSweep_def rowSteps_ops)
qed

text \<open>A claimed row is a pending one, and nobody else moves it before its own exchange is resolved.\<close>

definition uniqueIDs :: "Outbox \<Rightarrow> bool" where
  "uniqueIDs ob \<longleftrightarrow> distinct (map ob_ID (ob_rows ob))"

lemma dueRows_pending: "r \<in> set (dueRows now limit rows) \<Longrightarrow> r \<in> set rows \<and> ob_State r = OutboxPending \<and> ob_NextAttemptAt r \<le> now"
  by (auto simp: dueRows_def dest: in_set_takeD)

lemma unique_row: "uniqueIDs ob \<Longrightarrow> r \<in> set (ob_rows ob) \<Longrightarrow> r' \<in> set (ob_rows ob) \<Longrightarrow> ob_ID r = ob_ID r' \<Longrightarrow> r = r'"
  by (auto simp: uniqueIDs_def distinct_map inj_on_def)

lemma claimBatch_rows:
  assumes "claimBatch now limit ob = (rows, ob')" and "uniqueIDs ob"
  shows "tableSteps ob ob'" and "uniqueIDs ob'" and "distinct (map ob_ID rows)"
    and "\<forall>r \<in> set rows. r \<in> set (ob_rows ob') \<and> ob_State r = OutboxSent"
    and "length rows \<le> limit" and "ob_attempts ob' = ob_attempts ob"
proof -
  let ?due = "dueRows now limit (ob_rows ob)"
  have due: "r \<in> set ?due" if "r \<in> set (ob_rows ob)" "ob_ID r \<in> set (map ob_ID ?due)" for r
    using that dueRows_pending [of _ now limit "ob_rows ob"] unique_row [OF assms(2)] by fastforce
  have rows: "rows = map (sentRow now) (filter (\<lambda>r. ob_ID r \<in> set (map ob_ID ?due)) (ob_rows ob))"
    and ob': "ob' = ob\<lparr>ob_rows := map (\<lambda>r. if ob_ID r \<in> set (map ob_ID ?due) then sentRow now r else r) (ob_rows ob)\<rparr>"
    using assms(1) by (auto simp: claimBatch_def Let_def)
  have ids: "ob_ID (sentRow now r) = ob_ID r" for r by (simp add: sentRow_def)
  show "tableSteps ob ob'"
  proof (rule tableSteps_map [where f = "\<lambda>r. if ob_ID r \<in> set (map ob_ID ?due) then sentRow now r else r"])
    fix r assume "r \<in> set (ob_rows ob)"
    then show "rowSteps r (if ob_ID r \<in> set (map ob_ID ?due) then sentRow now r else r)"
      using due [of r] dueRows_pending [of r now limit "ob_rows ob"] by (auto intro: rowStep.claim)
  qed (simp add: ob')
  show "uniqueIDs ob'" using assms(2) by (simp add: uniqueIDs_def ob' ids comp_def if_distrib cong: if_cong)
  have dist: "distinct (map ob_ID (filter P (ob_rows ob)))" for P
    using assms(2) by (simp add: uniqueIDs_def distinct_map_filter)
  have mapids: "map ob_ID rows = map ob_ID (filter (\<lambda>r. ob_ID r \<in> set (map ob_ID ?due)) (ob_rows ob))"
    by (simp add: rows ids comp_def)
  then show d: "distinct (map ob_ID rows)" using dist by simp
  show "\<forall>r \<in> set rows. r \<in> set (ob_rows ob') \<and> ob_State r = OutboxSent"
    by (auto simp: rows ob' sentRow_def)
  have "card (set (map ob_ID rows)) \<le> card (set (map ob_ID ?due))"
    by (rule card_mono) (auto simp: mapids)
  also have "\<dots> \<le> length ?due" by (metis card_length length_map)
  also have "\<dots> \<le> limit" by (simp add: dueRows_def)
  finally show "length rows \<le> limit" using d by (metis distinct_card length_map)
  show "ob_attempts ob' = ob_attempts ob" by (simp add: ob')
qed

lemma dispatchOne_rows:
  "ob_rows (dispatchOne de now row ob) =
     (if d_resolveFails de then ob_rows ob
      else map (\<lambda>r. if ob_ID r = ob_ID row
                    then (if \<not> sessionStillLive (d_live de) then resolveReaped now r
                          else if d_ack de then resolveDone now (d_outcome de) r
                          else resolveNack (d_outcome de) (d_err de) r)
                    else r) (ob_rows ob))"
  by (simp add: dispatchOne_def updateRow_def Let_def)

lemma dispatchOne_attempts:
  "ob_attempts (dispatchOne de now row ob) = ob_attempts ob @
     (if \<not> sessionStillLive (d_live de) \<or> d_attemptFails de then []
      else [\<lparr>at_OutboxID = ob_ID row, at_AttemptNo = ob_AttemptCount row + 1, at_Op = ob_CurrentOp row, at_Outcome = d_outcome de\<rparr>])"
  by (simp add: dispatchOne_def updateRow_def Let_def)

lemma dispatchOne_steps:
  assumes "uniqueIDs ob" and "row \<in> set (ob_rows ob)" and "ob_State row = OutboxSent"
  shows "tableSteps ob (dispatchOne de now row ob)" and "uniqueIDs (dispatchOne de now row ob)"
    and "r \<in> set (ob_rows ob) \<Longrightarrow> ob_ID r \<noteq> ob_ID row \<Longrightarrow> r \<in> set (ob_rows (dispatchOne de now row ob))"
proof -
  let ?f = "\<lambda>r. if \<not> sessionStillLive (d_live de) then resolveReaped now r
     else if d_ack de then resolveDone now (d_outcome de) r else resolveNack (d_outcome de) (d_err de) r"
  have sent: "ob_State r = OutboxSent" if "r \<in> set (ob_rows ob)" "ob_ID r = ob_ID row" for r
    using unique_row [OF assms(1) that(1) assms(2)] that(2) assms(3) by simp
  have step: "rowSteps r (?f r)" if "ob_State r = OutboxSent" for r
    using that by (auto intro: rowStep.done_ack rowStep.nack rowStep.reaped)
  show "tableSteps ob (dispatchOne de now row ob)"
    by (rule tableSteps_map [where f = "\<lambda>r. if \<not> d_resolveFails de \<and> ob_ID r = ob_ID row then ?f r else r"])
      (use sent step in \<open>auto simp: dispatchOne_rows\<close>)
  have "ob_ID (?f r) = ob_ID r" for r by (simp add: row_defs)
  then have "map ob_ID (ob_rows (dispatchOne de now row ob)) = map ob_ID (ob_rows ob)"
    by (simp add: dispatchOne_rows)
  then show "uniqueIDs (dispatchOne de now row ob)" using assms(1) by (simp add: uniqueIDs_def)
  show "r \<in> set (ob_rows ob) \<Longrightarrow> ob_ID r \<noteq> ob_ID row \<Longrightarrow> r \<in> set (ob_rows (dispatchOne de now row ob))"
    by (auto simp: dispatchOne_rows image_iff intro: bexI [of _ r])
qed

lemma dispatch_fold:
  assumes "uniqueIDs ob" and "distinct (map ob_ID rows)" and "\<forall>r \<in> set rows. r \<in> set (ob_rows ob) \<and> ob_State r = OutboxSent"
  shows "tableSteps ob (fold (\<lambda>r. dispatchOne (envs (ob_ID r)) now r) rows ob)
    \<and> uniqueIDs (fold (\<lambda>r. dispatchOne (envs (ob_ID r)) now r) rows ob)
    \<and> (\<exists>as. ob_attempts (fold (\<lambda>r. dispatchOne (envs (ob_ID r)) now r) rows ob) = ob_attempts ob @ as
           \<and> distinct (map at_OutboxID as) \<and> set (map at_OutboxID as) \<subseteq> set (map ob_ID rows))"
  using assms
proof (induction rows arbitrary: ob)
  case (Cons row rows)
  let ?ob1 = "dispatchOne (envs (ob_ID row)) now row ob"
  note d = dispatchOne_steps [OF Cons.prems(1), where row = row and de = "envs (ob_ID row)" and now = now]
  have row: "row \<in> set (ob_rows ob)" "ob_State row = OutboxSent" using Cons.prems(3) by simp_all
  have "\<forall>r \<in> set rows. r \<in> set (ob_rows ?ob1) \<and> ob_State r = OutboxSent"
  proof
    fix r assume r: "r \<in> set rows"
    have "ob_ID row \<notin> ob_ID ` set rows" using Cons.prems(2) by simp
    then have "ob_ID r \<noteq> ob_ID row" using r by (metis imageI)
    then show "r \<in> set (ob_rows ?ob1) \<and> ob_State r = OutboxSent" using d(3) [OF row] Cons.prems(3) r by simp
  qed
  from Cons.IH [OF d(2) [OF row] _ this] Cons.prems(2) obtain as
    where ih: "tableSteps ?ob1 (fold (\<lambda>r. dispatchOne (envs (ob_ID r)) now r) rows ?ob1)"
      "uniqueIDs (fold (\<lambda>r. dispatchOne (envs (ob_ID r)) now r) rows ?ob1)"
      and as: "ob_attempts (fold (\<lambda>r. dispatchOne (envs (ob_ID r)) now r) rows ?ob1) = ob_attempts ?ob1 @ as"
        "distinct (map at_OutboxID as)" "set (map at_OutboxID as) \<subseteq> set (map ob_ID rows)" by auto
  obtain a where a: "ob_attempts ?ob1 = ob_attempts ob @ a" "a = [] \<or> (\<exists>x. a = [x] \<and> at_OutboxID x = ob_ID row)"
    by (simp add: dispatchOne_attempts)
  have "distinct (map at_OutboxID (a @ as))" "set (map at_OutboxID (a @ as)) \<subseteq> set (map ob_ID (row # rows))"
    using a(2) as(2,3) Cons.prems(2) by auto
  then show ?case using ih as(1) a(1) tableSteps_trans [OF d(1) [OF row] ih(1)] by (auto intro!: exI [of _ "a @ as"])
qed (simp add: tableSteps_refl)

lemma tableSteps_unique: "tableSteps ob ob' \<Longrightarrow> uniqueIDs ob \<Longrightarrow> uniqueIDs ob'"
proof -
  assume t: "tableSteps ob ob'" and u: "uniqueIDs ob"
  have "rowSteps r r' \<Longrightarrow> rowIdentity r' = rowIdentity r" for r r'
    by (induction rule: rtranclp_induct) (auto dest: rowStep_identity)
  then have "rowSteps r r' \<Longrightarrow> ob_ID r' = ob_ID r" for r r' by (simp add: rowIdentity_def)
  then have "map ob_ID (ob_rows ob') = map ob_ID (ob_rows ob)"
    using t by (auto simp: tableSteps_def list_all2_conv_all_nth intro!: nth_equalityI)
  then show ?thesis using u by (simp add: uniqueIDs_def)
qed

lemma tick_steps:
  assumes "uniqueIDs ob"
  shows "tableSteps ob (coaDispatchTick te now retryMax envs fails ob)"
    and "\<exists>as. ob_attempts (coaDispatchTick te now retryMax envs fails ob) = ob_attempts ob @ as
           \<and> distinct (map at_OutboxID as) \<and> length as \<le> coaDispatchBatch"
proof -
  define ob1 where "ob1 = (if t_reclaimFails te then ob else reclaimStuckSent now coaStuckSentAfter ob)"
  obtain rows ob2 where cb: "(if t_claimFails te then ([], ob1) else claimBatch now coaDispatchBatch ob1) = (rows, ob2)"
    by (cases "if t_claimFails te then ([], ob1) else claimBatch now coaDispatchBatch ob1")
  define ob3 where "ob3 = fold (\<lambda>r. dispatchOne (envs (ob_ID r)) now r) rows ob2"
  have tick: "coaDispatchTick te now retryMax envs fails ob = (if t_listFails te then ob3 else nackSweep now retryMax fails ob3)"
    by (simp add: coaDispatchTick_def ob1_def [symmetric] cb ob3_def)
  have s1: "tableSteps ob ob1" by (simp add: ob1_def store_steps tableSteps_refl)
  then have u1: "uniqueIDs ob1" using assms tableSteps_unique by blast
  have c: "tableSteps ob1 ob2 \<and> uniqueIDs ob2 \<and> distinct (map ob_ID rows)
      \<and> (\<forall>r \<in> set rows. r \<in> set (ob_rows ob2) \<and> ob_State r = OutboxSent) \<and> length rows \<le> coaDispatchBatch
      \<and> ob_attempts ob2 = ob_attempts ob1"
    using cb claimBatch_rows [of now coaDispatchBatch ob1 rows ob2] u1 by (auto simp: tableSteps_refl split: if_splits)
  then obtain as where f: "tableSteps ob2 ob3" "ob_attempts ob3 = ob_attempts ob2 @ as" "distinct (map at_OutboxID as)"
    "set (map at_OutboxID as) \<subseteq> set (map ob_ID rows)"
    using dispatch_fold [of ob2 rows envs now] by (auto simp: ob3_def)
  have "length as \<le> length rows"
    using card_mono [OF _ f(4)] f(3) c by (metis List.finite_set distinct_card length_map)
  moreover have "ob_attempts ob1 = ob_attempts ob" by (simp add: ob1_def reclaimStuckSent_def)
  ultimately show "\<exists>as. ob_attempts (coaDispatchTick te now retryMax envs fails ob) = ob_attempts ob @ as
           \<and> distinct (map at_OutboxID as) \<and> length as \<le> coaDispatchBatch"
    using f c by (auto simp: tick nackSweep_def intro!: exI [of _ as])
  show "tableSteps ob (coaDispatchTick te now retryMax envs fails ob)"
  proof -
    have "tableSteps ob ob3" using s1 c f(1) by (blast intro: tableSteps_trans)
    then show ?thesis unfolding tick by (simp add: tableSteps_trans [OF _ store_steps(4)])
  qed
qed

section \<open>Properties\<close>

definition sampleRow :: OutboxRow where
  "sampleRow = hd (ob_rows (insertOutbox 0 \<lparr>sr_NASID = ''N1'', sr_AcctSessionID = ''81'', sr_Username = ''ali'',
     sr_FramedIP = [], sr_Service = []\<rparr> CoAActionUpdate [(''rate_limit'', ''1M/1M'')] ''test'' ''S1''
     \<lparr>ob_rows = [], ob_attempts = [], ob_nextID = 1, ob_failures = 0\<rparr>))"

text \<open>
  At most one exchange per row and tick. A dispatcher tick, under any failures of its statements, appends at most one
  attempt for each row and at most one batch of them; and it moves every row by the steps of the state machine only:
  the requested action, the attributes and the target never change, and the operation in use differs from the requested one
  only after an update has visibly fallen back to a disconnect.
\<close>

theorem tick_dispatches_once:
  assumes "uniqueIDs ob" and "\<forall>r \<in> set (ob_rows ob). fallbackInv r"
  shows "let ob' = coaDispatchTick te now retryMax envs fails ob in
     (\<exists>as. ob_attempts ob' = ob_attempts ob @ as \<and> distinct (map at_OutboxID as) \<and> length as \<le> coaDispatchBatch)
     \<and> map rowIdentity (ob_rows ob') = map rowIdentity (ob_rows ob) \<and> (\<forall>r \<in> set (ob_rows ob'). fallbackInv r)"
proof -
  let ?ob' = "coaDispatchTick te now retryMax envs fails ob"
  have id: "rowSteps r r' \<Longrightarrow> rowIdentity r' = rowIdentity r" for r r'
    by (induction rule: rtranclp_induct) (auto dest: rowStep_identity)
  have fi: "rowSteps r r' \<Longrightarrow> fallbackInv r \<Longrightarrow> fallbackInv r'" for r r'
    by (induction rule: rtranclp_induct) (auto dest: rowStep_fallbackInv)
  have t: "list_all2 rowSteps (ob_rows ob) (ob_rows ?ob')"
    using tick_steps(1) [OF assms(1)] by (simp add: tableSteps_def)
  then have "map rowIdentity (ob_rows ?ob') = map rowIdentity (ob_rows ob)"
    using id by (auto simp: list_all2_conv_all_nth intro!: nth_equalityI)
  moreover have "\<forall>r \<in> set (ob_rows ?ob'). fallbackInv r"
    using t assms(2) fi by (fastforce simp: list_all2_conv_all_nth set_conv_nth)
  ultimately show ?thesis using tick_steps(2) [OF assms(1), of te now retryMax envs fails] by (simp add: Let_def)
qed

theorem tick_dispatches_once_witness:
  "let ob = \<lparr>ob_rows = [sampleRow], ob_attempts = [], ob_nextID = 2, ob_failures = 0\<rparr>;
       ob' = coaDispatchTick \<lparr>t_reclaimFails = False, t_claimFails = False, t_listFails = False\<rparr> 5 3
         (\<lambda>_. \<lparr>d_live = LiveEntry, d_ack = False, d_outcome = ''nak'', d_err = [], d_attemptFails = False, d_resolveFails = False\<rparr>)
         (\<lambda>_. False) ob
   in map rowIdentity (ob_rows ob') = map rowIdentity (ob_rows ob)"
proof -
  let ?ob = "\<lparr>ob_rows = [sampleRow], ob_attempts = [], ob_nextID = 2, ob_failures = 0\<rparr>"
  have "uniqueIDs ?ob" "\<forall>r \<in> set (ob_rows ?ob). fallbackInv r"
    by (simp_all add: uniqueIDs_def fallbackInv_def sampleRow_def insertOutbox_def)
  from tick_dispatches_once [OF this] show ?thesis unfolding Let_def by blast
qed

text \<open>
  A Redis error drops the CoA. When the lookup of the live session fails for any reason, not only when there is no entry,
  the claimed row is resolved as done without any attempt: neither sent nor retried nor reported as failed.
\<close>

theorem redis_error_drops_coa:
  assumes "uniqueIDs ob" and "row \<in> set (ob_rows ob)" and "d_live de = LiveError" and "\<not> d_resolveFails de"
  shows "let ob' = dispatchOne de now row ob in
     ob_attempts ob' = ob_attempts ob \<and> ob_failures ob' = ob_failures ob
     \<and> (\<exists>r \<in> set (ob_rows ob'). ob_ID r = ob_ID row \<and> ob_State r = OutboxDone \<and> ob_LastOutcome r = ''skipped_reaped'')"
proof -
  have "resolveReaped now row \<in> set (ob_rows (dispatchOne de now row ob))"
    using assms(2-4) by (auto simp: dispatchOne_rows sessionStillLive_def image_iff intro!: bexI [of _ row])
  moreover have "ob_ID (resolveReaped now row) = ob_ID row \<and> ob_State (resolveReaped now row) = OutboxDone
      \<and> ob_LastOutcome (resolveReaped now row) = ''skipped_reaped''" by (simp add: resolveReaped_def)
  moreover have "ob_attempts (dispatchOne de now row ob) = ob_attempts ob" "ob_failures (dispatchOne de now row ob) = ob_failures ob"
    using assms(3,4) by (simp_all add: dispatchOne_def sessionStillLive_def updateRow_def)
  ultimately show ?thesis unfolding Let_def by blast
qed

theorem redis_error_drops_coa_witness:
  "let ob' = dispatchOne \<lparr>d_live = LiveError, d_ack = True, d_outcome = ''ack'', d_err = [], d_attemptFails = False,
         d_resolveFails = False\<rparr> 5 sampleRow \<lparr>ob_rows = [sampleRow], ob_attempts = [], ob_nextID = 2, ob_failures = 0\<rparr>
   in ob_attempts ob' = [] \<and> (\<exists>r \<in> set (ob_rows ob'). ob_State r = OutboxDone)"
  using redis_error_drops_coa [of "\<lparr>ob_rows = [sampleRow], ob_attempts = [], ob_nextID = 2, ob_failures = 0\<rparr>" sampleRow
      "\<lparr>d_live = LiveError, d_ack = True, d_outcome = ''ack'', d_err = [], d_attemptFails = False, d_resolveFails = False\<rparr>" 5]
  by (auto simp: Let_def uniqueIDs_def)

end
