(* ===== verification/RadEnforce.thy ===== *)
theory RadEnforce
  imports RadPolicy CoaOutbox
begin

text \<open>
  The workers that apply the limits to sessions already online: the enforcement worker for expiry and quota crossings
  (\<^verbatim>\<open>backend/internal/radius/enforce.go\<close>), the minute sweep for uptime, daily limits and speed windows
  (\<^verbatim>\<open>limitsworker.go\<close>) and the time-of-day sweep (\<^verbatim>\<open>tod.go\<close>). All of them act by enqueueing outbox rows, after a claim on
  the unique key of \<^verbatim>\<open>enforcement_actions\<close>.
\<close>

section \<open>State\<close>

record enforceRecord =
  er_Key :: string
  er_Kind :: string
  er_SubID :: string
  er_Behavior :: string
  er_Sessions :: nat
  er_Applied :: nat
  er_Failures :: nat
  er_Outcome :: string

record Enf =
  en_claims :: "string list"
  en_records :: "enforceRecord list"
  en_outbox :: Outbox
  en_rad :: RadState
  en_rate :: "string \<Rightarrow> string option"
  en_enforced :: "string \<Rightarrow> bool"
  en_resets :: "(string \<times> gotime) list"

record EnfEnv =
  ee_pol :: PolEnv
  ee_claimFails :: bool
  ee_recordFails :: bool
  ee_enqueueFails :: "SessionRef \<Rightarrow> bool"
  ee_sessions :: "State list option"
  ee_profiles :: "(string \<times> int) list option"
  ee_reset :: "string \<Rightarrow> string list option"

definition kindQuota :: string where "kindQuota = ''quota_exceeded''"
definition kindExpired :: string where "kindExpired = ''expired''"
definition kindUptime :: string where "kindUptime = ''uptime_exceeded''"
definition kindDaily :: string where "kindDaily = ''daily_exceeded''"

section \<open>Claims\<close>

definition itoa :: "int \<Rightarrow> string" where
  "itoa n = (if n < 0 then CHR ''-'' # formatUint (nat (- n)) else formatUint (nat n))"

definition truncDiv :: "int \<Rightarrow> int \<Rightarrow> int" where
  "truncDiv a b = (if a < 0 then - ((- a) div b) else a div b)"

definition enforceCycle :: duration where "enforceCycle = 5 * minute"

definition dedupBucket :: "gotime \<Rightarrow> int" where
  "dedupBucket now = truncDiv (now div second) (truncDiv enforceCycle second)"

definition dedupKey :: "gotime \<Rightarrow> string \<Rightarrow> string \<Rightarrow> string" where
  "dedupKey now kind subID = kind @ '':'' @ subID @ '':'' @ itoa (dedupBucket now)"

text \<open>The claim: \<open>None\<close> is a failed statement, otherwise whether to proceed.\<close>

definition claimEnforcement :: "EnfEnv \<Rightarrow> string \<Rightarrow> Enf \<Rightarrow> bool option \<times> Enf" where
  "claimEnforcement ee key en =
     (if ee_claimFails ee then (None, en)
      else if key \<in> set (en_claims en) then (Some False, en)
      else (Some True, en\<lparr>en_claims := en_claims en @ [key]\<rparr>))"

definition recordEnforcement :: "EnfEnv \<Rightarrow> enforceRecord \<Rightarrow> Enf \<Rightarrow> Enf" where
  "recordEnforcement ee rec en = (if ee_recordFails ee then en else en\<lparr>en_records := en_records en @ [rec]\<rparr>)"

definition enqueueCoA ::
    "EnfEnv \<Rightarrow> SessionRef \<Rightarrow> CoAAction \<Rightarrow> Attr list \<Rightarrow> string \<Rightarrow> string \<Rightarrow> Enf \<Rightarrow> bool \<times> Enf" where
  "enqueueCoA ee ref action attrs reason sub en =
     (case Enqueue (ee_enqueueFails ee ref) (pe_now (ee_pol ee)) ref action attrs reason sub (en_outbox en) of
        None \<Rightarrow> (False, en)
      | Some ob \<Rightarrow> (True, en\<lparr>en_outbox := ob\<rparr>))"

section \<open>The enforcement worker\<close>

record behaviorView =
  bv_Username :: string
  bv_QuotaBehavior :: string
  bv_ExpiryBehavior :: string
  bv_ThrottleRate :: string
  bv_ExpiredPoolName :: string

definition behaviorOf :: "string \<Rightarrow> AuthView \<Rightarrow> behaviorView" where
  "behaviorOf username v = \<lparr>bv_Username = username, bv_QuotaBehavior = v_QuotaBehavior v, bv_ExpiryBehavior = v_ExpiryBehavior v,
     bv_ThrottleRate = v_ThrottleRate v, bv_ExpiredPoolName = v_ExpiredPoolName v\<rparr>"

text \<open>The plan: the operation (\<open>None\<close> when there is nothing to do), its attributes and its label.\<close>

type_synonym plan = "CoAAction option \<times> Attr list \<times> string"

definition planSteps :: "string \<Rightarrow> behaviorView \<Rightarrow> plan" where
  "planSteps kind b =
     (if kind = kindQuota then
        (if bv_QuotaBehavior b = ''block'' then (Some CoAActionDisconnect, [], ''block'')
         else if bv_QuotaBehavior b = ''throttle'' then
           (if bv_ThrottleRate b = '''' then (Some CoAActionDisconnect, [], ''throttle'')
            else (Some CoAActionUpdate, [(IntentRateLimit, bv_ThrottleRate b)], ''throttle''))
         else if bv_QuotaBehavior b = ''expired_pool'' then
           (if bv_ExpiredPoolName b = '''' then (Some CoAActionDisconnect, [], ''expired_pool'')
            else (Some CoAActionUpdate, [(IntentAddressPool, bv_ExpiredPoolName b)], ''expired_pool''))
         else (None, [], bv_QuotaBehavior b))
      else if kind = kindExpired then
        (if bv_ExpiryBehavior b = ''expired_pool'' \<and> bv_ExpiredPoolName b \<noteq> '''' then
           (Some CoAActionUpdate,
            [(IntentAddressPool, bv_ExpiredPoolName b),
             (IntentRateLimit, if bv_ThrottleRate b = '''' then expiredPoolFallbackRate else bv_ThrottleRate b)],
            ''expired_pool'')
         else (Some CoAActionDisconnect, [], ''block''))
      else (None, [], ''''))"

definition sessionRefOf :: "State \<Rightarrow> SessionRef" where
  "sessionRefOf s = \<lparr>sr_NASID = st_NASID s, sr_AcctSessionID = st_AcctSessionID s, sr_Username = st_Username s,
     sr_FramedIP = st_IP s, sr_Service = st_Service s\<rparr>"

definition liveSessionRefs :: "State list \<Rightarrow> string \<Rightarrow> SessionRef list" where
  "liveSessionRefs all1 subID = map sessionRefOf (filter (\<lambda>s. st_SubscriberID s = subID) all1)"

fun enqueueLoop ::
    "EnfEnv \<Rightarrow> CoAAction \<Rightarrow> Attr list \<Rightarrow> string \<Rightarrow> string \<Rightarrow> SessionRef list \<Rightarrow> nat \<Rightarrow> nat \<Rightarrow> Enf \<Rightarrow> nat \<times> nat \<times> Enf" where
  "enqueueLoop ee action attrs reason sub [] applied failures en = (applied, failures, en)"
| "enqueueLoop ee action attrs reason sub (s # ss) applied failures en =
     (case enqueueCoA ee s action attrs reason sub en of
        (True, en1) \<Rightarrow> enqueueLoop ee action attrs reason sub ss (Suc applied) failures en1
      | (False, en1) \<Rightarrow> enqueueLoop ee action attrs reason sub ss applied (Suc failures) en1)"

definition enqueueSessions ::
    "EnfEnv \<Rightarrow> string \<Rightarrow> string \<Rightarrow> string \<Rightarrow> string \<Rightarrow> CoAAction \<Rightarrow> Attr list \<Rightarrow> SessionRef list \<Rightarrow> Enf \<Rightarrow> enforceRecord \<times> Enf" where
  "enqueueSessions ee key kind subID label action attrs sessions en =
     (let (applied, failures, en1) =
            enqueueLoop ee action attrs (''enforce.'' @ kind @ '':'' @ label) subID sessions 0 0 en
      in (\<lparr>er_Key = key, er_Kind = kind, er_SubID = subID, er_Behavior = label, er_Sessions = length sessions,
           er_Applied = applied, er_Failures = failures,
           er_Outcome = (if failures = 0 then ''enqueued'' else if applied = 0 then ''enqueue_failed'' else ''partial'')\<rparr>, en1))"

definition plainRecord :: "string \<Rightarrow> string \<Rightarrow> string \<Rightarrow> string \<Rightarrow> nat \<Rightarrow> string \<Rightarrow> enforceRecord" where
  "plainRecord key kind subID label n outcome =
     \<lparr>er_Key = key, er_Kind = kind, er_SubID = subID, er_Behavior = label, er_Sessions = n, er_Applied = 0,
      er_Failures = 0, er_Outcome = outcome\<rparr>"

text \<open>The crossing behind its claim, and the whole handler.\<close>

definition handleClaimed :: "EnfEnv \<Rightarrow> string \<Rightarrow> string \<Rightarrow> Enf \<Rightarrow> Enf" where
  "handleClaimed ee kind subID en1 =
     (let key = dedupKey (pe_now (ee_pol ee)) kind subID in
      case ee_sessions ee of
        None \<Rightarrow> en1
      | Some all1 \<Rightarrow>
          (case liveSessionRefs all1 subID of
             [] \<Rightarrow> recordEnforcement ee (plainRecord key kind subID '''' 0 ''no_sessions'') en1
           | s # ss \<Rightarrow>
               (case resolveView (ee_pol ee) (sr_Username s) (en_rad en1) of
                  (AErr, rad) \<Rightarrow> en1\<lparr>en_rad := rad\<rparr>
                | (ANone, rad) \<Rightarrow>
                    recordEnforcement ee (plainRecord key kind subID '''' (length (s # ss)) ''not_found'') (en1\<lparr>en_rad := rad\<rparr>)
                | (AFound view, rad) \<Rightarrow>
                    (let en2 = en1\<lparr>en_rad := rad\<rparr> in
                     case planSteps kind (behaviorOf (sr_Username s) view) of
                       (None, _, label) \<Rightarrow>
                         recordEnforcement ee (plainRecord key kind subID label (length (s # ss)) ''noop'') en2
                     | (Some action, attrs, label) \<Rightarrow>
                         (let (rec, en3) = enqueueSessions ee key kind subID label action attrs (s # ss) en2
                          in recordEnforcement ee rec en3)))))"

definition handle :: "EnfEnv \<Rightarrow> string \<Rightarrow> string \<Rightarrow> Enf \<Rightarrow> Enf" where
  "handle ee kind subID en =
     (if subID = '''' then en
      else case claimEnforcement ee (dedupKey (pe_now (ee_pol ee)) kind subID) en of
          (Some True, en1) \<Rightarrow> handleClaimed ee kind subID en1
        | (_, en1) \<Rightarrow> en1)"

section \<open>The limits sweep\<close>

definition planForOutcome :: "AuthView \<Rightarrow> policyOutcome \<Rightarrow> plan" where
  "planForOutcome view oc =
     (if po_Reject oc then (Some CoAActionDisconnect, [], ''block'')
      else case po_Mode oc of
        modeThrottled \<Rightarrow> (Some CoAActionUpdate, [(IntentRateLimit, throttleOrSwitchRate view oc)], ''throttle'')
      | modeSwitchPlan \<Rightarrow>
          (let rate = throttleOrSwitchRate view oc in
           if po_Pool oc = '''' then (Some CoAActionUpdate, [(IntentRateLimit, rate)], ''switch_plan'')
           else (Some CoAActionUpdate, [(IntentAddressPool, po_Pool oc), (IntentRateLimit, rate)], ''switch_plan''))
      | modeExpiredPool \<Rightarrow>
          (let (rate, pool) = expiredPoolRateAndPool view oc
           in (Some CoAActionUpdate, [(IntentAddressPool, pool), (IntentRateLimit, rate)], ''expired_pool''))
      | modeNormal \<Rightarrow> (None, [], ''''))"

definition enforceLimit :: "EnfEnv \<Rightarrow> SessionRef \<Rightarrow> string \<Rightarrow> AuthView \<Rightarrow> policyOutcome \<Rightarrow> Enf \<Rightarrow> Enf" where
  "enforceLimit ee ref subID view oc en =
     (let kind = (if po_Kind oc = ''daily'' then kindDaily else kindUptime);
          key = dedupKey (pe_now (ee_pol ee)) kind subID
      in case claimEnforcement ee key en of
           (Some True, en1) \<Rightarrow>
             (case planForOutcome view oc of
                (None, _, label) \<Rightarrow>
                  recordEnforcement ee ((plainRecord key kind subID label 1 ''noop'')) en1
              | (Some action, attrs, label) \<Rightarrow>
                  (case enqueueCoA ee ref action attrs (''limits.'' @ label) subID en1 of
                     (True, en2) \<Rightarrow>
                       recordEnforcement ee ((plainRecord key kind subID label 1 ''enqueued'')\<lparr>er_Applied := 1\<rparr>) en2
                   | (False, en2) \<Rightarrow>
                       recordEnforcement ee ((plainRecord key kind subID label 1 ''enqueue_failed'')\<lparr>er_Failures := 1\<rparr>) en2))
         | (_, en1) \<Rightarrow> en1)"

definition evaluateSession :: "EnfEnv \<Rightarrow> State \<Rightarrow> Enf \<Rightarrow> Enf" where
  "evaluateSession ee s en =
     (if st_Username s = '''' then en
      else let field = Field (st_NASID s) (st_AcctSessionID s) in
        case resolveView (ee_pol ee) (st_Username s) (en_rad en) of
          (AErr, rad) \<Rightarrow> en\<lparr>en_rad := rad\<rparr>
        | (ANone, rad) \<Rightarrow> en\<lparr>en_rad := rad, en_rate := (en_rate en)(field := None), en_enforced := (en_enforced en)(field := False)\<rparr>
        | (AFound view, rad) \<Rightarrow>
            (let en1 = en\<lparr>en_rad := rad\<rparr>;
                 hotspot = (st_Service s = ''hotspot'');
                 oc = evaluateLimits view hotspot (isExpired (pe_now (ee_pol ee)) view);
                 ref = sessionRefOf s
             in if po_Kind oc = ''uptime'' \<or> po_Kind oc = ''daily'' then
                  enforceLimit ee ref (st_SubscriberID s) view oc
                    (en1\<lparr>en_enforced := (en_enforced en1)(field := True), en_rate := (en_rate en1)(field := None)\<rparr>)
                else if po_Kind oc = ''expiry'' \<or> po_Kind oc = ''quota'' then
                  en1\<lparr>en_rate := (en_rate en1)(field := None), en_enforced := (en_enforced en1)(field := False)\<rparr>
                else let windowRate = (case selectSpeedWindow (v_SpeedWindows view) (inServerLocation (pe_now (ee_pol ee))) of
                                         Some w \<Rightarrow> sw_Rate w | None \<Rightarrow> '''');
                         rate = normalRate view hotspot windowRate;
                         forced = en_enforced en1 field;
                         changed = (case en_rate en1 field of Some prev \<Rightarrow> prev \<noteq> rate | None \<Rightarrow> False);
                         en2 = en1\<lparr>en_rate := (en_rate en1)(field \<mapsto> rate), en_enforced := (en_enforced en1)(field := False)\<rparr>
                  in if forced \<or> changed
                     then snd (enqueueCoA ee ref CoAActionUpdate [(IntentRateLimit, rate)]
                                 (if forced then ''limits.restore'' else ''limits.window_sync'') (st_SubscriberID s) en2)
                     else en2))"

text \<open>\<^verbatim>\<open>now.Format("2006-01-02")\<close> on the local day: the civil date of a day number.\<close>

definition civil :: "int \<Rightarrow> int \<times> int \<times> int" where
  "civil d =
     (let z = d + 719468; era = z div 146097; doe = z mod 146097;
          yoe = (doe - doe div 1460 + doe div 36524 - doe div 146096) div 365;
          doy = doe - (365 * yoe + yoe div 4 - yoe div 100);
          mp = (5 * doy + 2) div 153;
          dd = doy - (153 * mp + 2) div 5 + 1;
          mm = (if mp < 10 then mp + 3 else mp - 9);
          yy = yoe + era * 400 + (if mm \<le> 2 then 1 else 0)
      in (yy, mm, dd))"

definition pad :: "nat \<Rightarrow> int \<Rightarrow> string" where
  "pad n x = (let s = itoa x in replicate (n - length s) (CHR ''0'') @ s)"

definition formatDay :: "int \<Rightarrow> string" where
  "formatDay lt = (case civil (lt div dayLength) of (y, m, d) \<Rightarrow> pad 4 y @ ''-'' @ pad 2 m @ ''-'' @ pad 2 d)"

definition resetProfile :: "EnfEnv \<Rightarrow> string \<times> int \<Rightarrow> Enf \<Rightarrow> Enf" where
  "resetProfile ee p en =
     (let lt = inServerLocation (pe_now (ee_pol ee)); pid = fst p in
      if minuteOfDay lt < snd p then en
      else case claimEnforcement ee (''daily_reset:'' @ pid @ '':'' @ formatDay lt) en of
        (Some True, en1) \<Rightarrow>
          (case ee_reset ee pid of
             None \<Rightarrow> en1
           | Some subIDs \<Rightarrow>
               en1\<lparr>en_resets := en_resets en1 @ [(pid, pe_now (ee_pol ee))],
                   en_rad := InvalidatePolicyByProfile (pe_redisUp (ee_pol ee)) (pe_now (ee_pol ee)) subIDs (en_rad en1)\<rparr>)
      | (_, en1) \<Rightarrow> en1)"

definition dailyResetTick :: "EnfEnv \<Rightarrow> Enf \<Rightarrow> Enf" where
  "dailyResetTick ee en = (case ee_profiles ee of None \<Rightarrow> en | Some ps \<Rightarrow> fold (resetProfile ee) ps en)"

definition limitsTick :: "EnfEnv \<Rightarrow> Enf \<Rightarrow> Enf" where
  "limitsTick ee en =
     (let en1 = dailyResetTick ee en in
      case ee_sessions ee of None \<Rightarrow> en1 | Some ss \<Rightarrow> fold (evaluateSession ee) ss en1)"

section \<open>The time-of-day sweep\<close>

record TodState =
  td_state :: "string \<Rightarrow> bool option"
  td_published :: "(string \<times> bool) list"
  td_enf :: Enf

definition windowKey :: "TODWindow \<Rightarrow> string" where
  "windowKey w = tw_ProfileID w @ '':'' @ itoa (tw_StartMin w) @ ''-'' @ itoa (tw_EndMin w)"

fun sweepLoop :: "EnfEnv \<Rightarrow> (string \<Rightarrow> string option) \<Rightarrow> string \<Rightarrow> string \<Rightarrow> State list \<Rightarrow> Enf \<Rightarrow> Enf" where
  "sweepLoop ee pmap pid rate [] en = en"
| "sweepLoop ee pmap pid rate (s # ss) en =
     (if (case pmap (st_SubscriberID s) of Some q \<Rightarrow> q | None \<Rightarrow> '''') \<noteq> pid then sweepLoop ee pmap pid rate ss en
      else sweepLoop ee pmap pid rate ss
             (snd (enqueueCoA ee (sessionRefOf s) CoAActionUpdate [(IntentRateLimit, rate)] ''tod.window_sweep''
                     (st_SubscriberID s) en)))"

text \<open>\<open>profilesOf\<close> answers for the distinct non-empty subscriber ids; \<open>None\<close> is its error.\<close>

definition sweepProfile ::
    "EnfEnv \<Rightarrow> (string list \<Rightarrow> (string \<Rightarrow> string option) option) \<Rightarrow> string \<Rightarrow> string \<Rightarrow> Enf \<Rightarrow> Enf" where
  "sweepProfile ee profilesOf pid rate en =
     (case ee_sessions ee of
        None \<Rightarrow> en
      | Some all1 \<Rightarrow>
          (if all1 = [] then en
           else case profilesOf (remdups (filter (\<lambda>x. x \<noteq> '''') (map st_SubscriberID all1))) of
             None \<Rightarrow> en
           | Some pmap \<Rightarrow> sweepLoop ee pmap pid rate all1 en))"

definition todWindow ::
    "EnfEnv \<Rightarrow> (string list \<Rightarrow> (string \<Rightarrow> string option) option) \<Rightarrow> int \<Rightarrow> TODWindow \<Rightarrow> TodState \<Rightarrow> TodState" where
  "todWindow ee profilesOf m w td =
     (let key = windowKey w; active = windowActive w m; prev = td_state td key;
          td1 = td\<lparr>td_state := (td_state td)(key \<mapsto> active)\<rparr>
      in if prev = None \<or> prev = Some active then td1
         else let td2 = td1\<lparr>td_published := td_published td1 @ [(tw_ProfileID w, active)]\<rparr>;
                  rate = (if active then tw_BoostRate w else tw_NormalRate w)
              in if rate \<noteq> '''' then td2\<lparr>td_enf := sweepProfile ee profilesOf (tw_ProfileID w) rate (td_enf td2)\<rparr> else td2)"

definition todTick ::
    "EnfEnv \<Rightarrow> (string list \<Rightarrow> (string \<Rightarrow> string option) option) \<Rightarrow> TODWindow list option \<Rightarrow> TodState \<Rightarrow> TodState" where
  "todTick ee profilesOf wins td =
     (case wins of None \<Rightarrow> td
      | Some ws \<Rightarrow> fold (todWindow ee profilesOf (minuteOfDay (inServerLocation (pe_now (ee_pol ee))))) ws td)"

end
