(* ===== verification/RadEnforced.thy ===== *)
theory RadEnforced
  imports RadEnforce
begin

text \<open>
  What the enforcement workers guarantee, and what they leave out: crossings are handled once per cycle and reach every
  session; three cases in which an exhausted limit stays without effect on sessions already online.
\<close>

section \<open>Claims, as an interface\<close>

text \<open>
  A claim on a unique key: the first successful one takes the key, and a taken key is refused without any effect. An
  action run behind a claim therefore runs at most once per key.
\<close>

locale once_guard =
  fixes claim :: "'k \<Rightarrow> 's \<Rightarrow> bool option \<times> 's"
    and claimed :: "'s \<Rightarrow> 'k set"
  assumes claim_takes: "claim k s = (Some True, s') \<Longrightarrow> claimed s' = insert k (claimed s)"
    and claim_else: "claim k s = (r, s') \<Longrightarrow> r \<noteq> Some True \<Longrightarrow> s' = s"
    and claim_taken: "k \<in> claimed s \<Longrightarrow> fst (claim k s) \<noteq> Some True"
begin

lemma guarded_refused:
  assumes "k \<in> claimed s"
  shows "(case claim k s of (Some True, s1) \<Rightarrow> act s1 | (_, s1) \<Rightarrow> s1) = s"
proof -
  obtain r s1 where c: "claim k s = (r, s1)" by force
  with claim_taken [OF assms] have "r \<noteq> Some True" by simp
  with claim_else [OF c] show ?thesis by (auto simp: c split: option.splits bool.splits)
qed

lemma guarded_mono:
  assumes "\<And>s1. claimed s1 \<subseteq> claimed (act s1)"
  shows "claimed s \<subseteq> claimed (case claim k s of (Some True, s1) \<Rightarrow> act s1 | (_, s1) \<Rightarrow> s1)"
proof -
  obtain r s1 where c: "claim k s = (r, s1)" by force
  show ?thesis
  proof (cases "r = Some True")
    case True
    with c claim_takes [of k s s1] assms [of s1] show ?thesis by auto
  next
    case False
    with c claim_else [of k s r s1] show ?thesis by (auto split: option.splits bool.splits)
  qed
qed

lemma guarded_claimed:
  assumes "fst (claim k s) = Some True \<or> k \<in> claimed s" and "\<And>s1. claimed s1 \<subseteq> claimed (act s1)"
  shows "k \<in> claimed (case claim k s of (Some True, s1) \<Rightarrow> act s1 | (_, s1) \<Rightarrow> s1)"
proof (cases "k \<in> claimed s")
  case True
  then show ?thesis using guarded_mono [of act s k, OF assms(2)] by blast
next
  case False
  with assms(1) obtain s1 where c: "claim k s = (Some True, s1)" by (cases "claim k s") auto
  then show ?thesis using claim_takes [OF c] assms(2) [of s1] by auto
qed

end

interpretation enf: once_guard "claimEnforcement ee" "\<lambda>en. set (en_claims en)" for ee
  by unfold_locales (auto simp: claimEnforcement_def split: if_splits)

lemma claim_granted: "\<not> ee_claimFails ee \<Longrightarrow> fst (claimEnforcement ee k en) = Some True \<or> k \<in> set (en_claims en)"
  by (simp add: claimEnforcement_def)

section \<open>Claims are never given back\<close>

lemma recordEnforcement_claims [simp]: "en_claims (recordEnforcement ee rec en) = en_claims en"
  by (simp add: recordEnforcement_def)

lemma recordEnforcement_outbox [simp]: "en_outbox (recordEnforcement ee rec en) = en_outbox en"
  by (simp add: recordEnforcement_def)

lemma enqueueCoA_claims [simp]: "en_claims (snd (enqueueCoA ee ref a ats reason sub en)) = en_claims en"
  by (simp add: enqueueCoA_def split: option.split)

lemma enqueueLoop_claims: "enqueueLoop ee a ats reason sub ss m n en = (m', n', en') \<Longrightarrow> en_claims en' = en_claims en"
proof (induction ss arbitrary: m n en)
  case (Cons s ss)
  obtain ok en1 where q: "enqueueCoA ee s a ats reason sub en = (ok, en1)" by force
  then have "en_claims en1 = en_claims en" using enqueueCoA_claims [of ee s a ats reason sub en] by simp
  with Cons q show ?case by (cases ok) fastforce+
qed simp

lemma enqueueSessions_claims: "enqueueSessions ee key kind sub label a ats ss en = (rec, en') \<Longrightarrow> en_claims en' = en_claims en"
  by (auto simp: enqueueSessions_def dest: enqueueLoop_claims split: prod.splits)

lemma handleClaimed_claims: "en_claims (handleClaimed ee kind sub en) = en_claims en"
  by (auto simp: handleClaimed_def Let_def dest: enqueueSessions_claims
      split: option.split list.split answer.split prod.split)

lemma handle_claims: "set (en_claims en) \<subseteq> set (en_claims (handle ee kind sub en))"
  by (cases "sub = []") (simp_all add: handle_def enf.guarded_mono handleClaimed_claims)

lemma enforceLimit_claims: "set (en_claims en) \<subseteq> set (en_claims (enforceLimit ee ref sub view oc en))"
proof -
  have "en_claims (snd (enqueueCoA ee ref a ats reason sub e)) = en_claims e" for a ats reason e by simp
  then show ?thesis
    unfolding enforceLimit_def Let_def
    by (intro enf.guarded_mono) (auto simp: enqueueCoA_def split: option.splits prod.splits bool.splits)
qed

lemma evaluateSession_claims: "set (en_claims en) \<subseteq> set (en_claims (evaluateSession ee s en))"
proof (cases "st_Username s = []")
  case False
  obtain v rad where rv: "resolveView (ee_pol ee) (st_Username s) (en_rad en) = (v, rad)" by force
  show ?thesis
  proof (cases v)
    case (AFound view)
    have *: "set (en_claims e) \<subseteq> set (en_claims (enforceLimit ee ref sub view oc (e\<lparr>en_enforced := x, en_rate := y\<rparr>)))"
      for e ref sub oc x y
      using enforceLimit_claims [of "e\<lparr>en_enforced := x, en_rate := y\<rparr>"] by simp
    show ?thesis using * [of "en\<lparr>en_rad := rad\<rparr>"] False by (simp add: evaluateSession_def rv AFound Let_def)
  qed (simp_all add: evaluateSession_def rv Let_def)
qed (simp add: evaluateSession_def)

lemma resetProfile_claims: "set (en_claims en) \<subseteq> set (en_claims (resetProfile ee p en))"
proof (cases "minuteOfDay (inServerLocation (pe_now (ee_pol ee))) < snd p")
  case False
  then show ?thesis unfolding resetProfile_def Let_def if_not_P [OF False]
    by (intro enf.guarded_mono) (simp split: option.split)
qed (simp add: resetProfile_def Let_def)

lemma fold_claims:
  assumes "\<And>x en. set (en_claims en) \<subseteq> set (en_claims (f x en))"
  shows "set (en_claims en) \<subseteq> set (en_claims (fold f xs en))"
proof (induction xs arbitrary: en)
  case (Cons x xs)
  show ?case using assms [of en x] Cons [of "f x en"] by simp
qed simp

lemma limitsTick_claims: "set (en_claims en) \<subseteq> set (en_claims (limitsTick ee en))"
proof -
  have "set (en_claims en) \<subseteq> set (en_claims (dailyResetTick ee en))"
    by (auto simp: dailyResetTick_def split: option.split dest: fold_claims [OF resetProfile_claims, THEN subsetD])
  then show ?thesis
    by (auto simp: limitsTick_def Let_def split: option.split dest: fold_claims [OF evaluateSession_claims, THEN subsetD])
qed

text \<open>
  Everything that may happen between two events: other crossings, sweeps, and any change of the outbox, the caches and the
  process memory by the rest of the system. Rows of \<^verbatim>\<open>enforcement_actions\<close> are never deleted.
\<close>

inductive enfStep :: "Enf \<Rightarrow> Enf \<Rightarrow> bool" where
  crossing: "enfStep en (handle ee kind sub en)"
| sweep: "enfStep en (limitsTick ee en)"
| other: "set (en_claims en) \<subseteq> set (en_claims en') \<Longrightarrow> enfStep en en'"

lemma enfSteps_claims: "enfStep\<^sup>*\<^sup>* en en' \<Longrightarrow> set (en_claims en) \<subseteq> set (en_claims en')"
proof (induction rule: rtranclp_induct)
  case (step y z)
  from step(2) have "set (en_claims y) \<subseteq> set (en_claims z)"
    by (cases rule: enfStep.cases) (auto dest: handle_claims [THEN subsetD] limitsTick_claims [THEN subsetD])
  with step(3) show ?case by blast
qed simp

section \<open>The crossing\<close>

text \<open>
  A crossing is enforced once per cycle. After an event has been handled (its claim did not fail), a repeated event of the
  same kind and subscriber in the same five-minute cycle changes nothing at all, whatever happened in between, also after a restart
  (the claims are rows of the database).
\<close>

theorem handle_once_per_cycle:
  assumes "\<not> ee_claimFails ee"
    and "enfStep\<^sup>*\<^sup>* (handle ee kind sub en) en2"
    and "dedupBucket (pe_now (ee_pol ee')) = dedupBucket (pe_now (ee_pol ee))"
  shows "handle ee' kind sub en2 = en2"
proof (cases "sub = []")
  case False
  let ?key = "dedupKey (pe_now (ee_pol ee)) kind sub"
  have same: "dedupKey (pe_now (ee_pol ee')) kind sub = ?key" using assms(3) by (simp add: dedupKey_def)
  have "?key \<in> set (en_claims (handle ee kind sub en))"
    using False by (simp add: handle_def enf.guarded_claimed [OF claim_granted [OF assms(1)]] handleClaimed_claims)
  then have "?key \<in> set (en_claims en2)" using enfSteps_claims [OF assms(2)] by blast
  then show ?thesis using False by (simp add: handle_def same enf.guarded_refused)
qed (simp add: handle_def)

lemma enforceLimit_claimed_noop:
  "dedupKey (pe_now (ee_pol ee)) (if po_Kind oc = ''daily'' then kindDaily else kindUptime) subID \<in> set (en_claims en)
   \<Longrightarrow> enforceLimit ee ref subID view oc en = en"
  by (simp add: enforceLimit_def Let_def enf.guarded_refused)

lemma enforceLimit_claimed:
  assumes "\<not> ee_claimFails ee"
  shows "dedupKey (pe_now (ee_pol ee)) (if po_Kind oc = ''daily'' then kindDaily else kindUptime) subID
     \<in> set (en_claims (enforceLimit ee ref subID view oc en))"
  unfolding enforceLimit_def Let_def
  by (intro enf.guarded_claimed [OF claim_granted [OF assms]])
    (auto simp: enqueueCoA_def split: option.splits prod.splits bool.splits)

lemma enforceLimit_rad: "en_rad (enforceLimit ee ref subID view oc en) = en_rad en"
  by (auto simp: enforceLimit_def Let_def claimEnforcement_def recordEnforcement_def enqueueCoA_def
      split: option.splits prod.splits bool.splits)


text \<open>The rows an enqueue loop without failures appends: one per session, in order.\<close>

definition rowFor :: "gotime \<Rightarrow> CoAAction \<Rightarrow> Attr list \<Rightarrow> SessionRef \<Rightarrow> string \<times> string \<times> CoAAction \<times> CoAAction \<times> Attr list \<times> OutboxState" where
  "rowFor now action attrs s = (sr_NASID s, sr_AcctSessionID s, action, action,
     if action = CoAActionDisconnect then [] else attrs, OutboxPending)"

definition rowView :: "OutboxRow \<Rightarrow> string \<times> string \<times> CoAAction \<times> CoAAction \<times> Attr list \<times> OutboxState" where
  "rowView r = (ob_NASID r, ob_AcctSessionID r, ob_Action r, ob_CurrentOp r, ob_Attributes r, ob_State r)"

lemma enqueueCoA_row:
  assumes "\<not> ee_enqueueFails ee ref"
  shows "\<exists>en1 r. enqueueCoA ee ref a ats reason sub en = (True, en1)
     \<and> ob_rows (en_outbox en1) = ob_rows (en_outbox en) @ [r] \<and> rowView r = rowFor (pe_now (ee_pol ee)) a ats ref
     \<and> ob_SubscriberID r = sub"
  using assms by (simp add: enqueueCoA_def Enqueue_def insertOutbox_def rowView_def rowFor_def)

lemma enqueueLoop_records: "enqueueLoop ee a ats reason sub ss m n en = (m', n', en') \<Longrightarrow> en_records en' = en_records en"
proof (induction ss arbitrary: m n en)
  case (Cons s ss)
  obtain ok en1 where q: "enqueueCoA ee s a ats reason sub en = (ok, en1)" by force
  then have "en_records en1 = en_records en" by (auto simp: enqueueCoA_def split: option.splits)
  with Cons q show ?case by (cases ok) fastforce+
qed simp

lemma enqueueLoop_rows:
  assumes "\<forall>s \<in> set ss. \<not> ee_enqueueFails ee s"
  shows "\<exists>en1 rs. enqueueLoop ee a ats reason sub ss m n en = (m + length ss, n, en1)
     \<and> ob_rows (en_outbox en1) = ob_rows (en_outbox en) @ rs
     \<and> map rowView rs = map (rowFor (pe_now (ee_pol ee)) a ats) ss"
  using assms
proof (induction ss arbitrary: m en)
  case (Cons s ss)
  obtain en1 r where q: "enqueueCoA ee s a ats reason sub en = (True, en1)"
    "ob_rows (en_outbox en1) = ob_rows (en_outbox en) @ [r]" "rowView r = rowFor (pe_now (ee_pol ee)) a ats s"
    using enqueueCoA_row [of ee s a ats reason sub en] Cons.prems by auto
  obtain en2 rs where "enqueueLoop ee a ats reason sub ss (Suc m) n en1 = (Suc m + length ss, n, en2)"
    "ob_rows (en_outbox en2) = ob_rows (en_outbox en1) @ rs" "map rowView rs = map (rowFor (pe_now (ee_pol ee)) a ats) ss"
    using Cons.IH [of "Suc m" en1] Cons.prems by auto
  then show ?case using q by (intro exI [of _ en2] exI [of _ "r # rs"]) simp
qed simp

text \<open>
  C30: a crossing reaches every session. The first event of a cycle for a subscriber, with its sessions listed, its account
  found and no insert failing, appends exactly one pending outbox row for each of the subscriber's live sessions, in
  order, all with the operation and attributes of the plan for the configured behaviour, and touches no other row; and the audit
  record counts them.
\<close>

theorem handle_reaches_every_session:
  assumes "sub \<noteq> []" and "\<not> ee_claimFails ee" and "\<not> ee_recordFails ee"
    and "dedupKey (pe_now (ee_pol ee)) kind sub \<notin> set (en_claims en)"
    and "ee_sessions ee = Some all1" and "liveSessionRefs all1 sub = s # ss"
    and "resolveView (ee_pol ee) (sr_Username s) (en_rad en) = (AFound view, rad)"
    and "planSteps kind (behaviorOf (sr_Username s) view) = (Some action, attrs, label)"
    and "\<forall>r. \<not> ee_enqueueFails ee r"
  shows "\<exists>rs rec. ob_rows (en_outbox (handle ee kind sub en)) = ob_rows (en_outbox en) @ rs
     \<and> map rowView rs = map (rowFor (pe_now (ee_pol ee)) action attrs) (s # ss)
     \<and> en_records (handle ee kind sub en) = en_records en @ [rec]
     \<and> er_Applied rec = length (s # ss) \<and> er_Failures rec = 0 \<and> er_Outcome rec = ''enqueued''"
proof -
  let ?en = "en\<lparr>en_claims := en_claims en @ [dedupKey (pe_now (ee_pol ee)) kind sub], en_rad := rad\<rparr>"
  obtain en1 rs where l: "enqueueLoop ee action attrs (''enforce.'' @ kind @ '':'' @ label) sub (s # ss) 0 0 ?en =
      (length (s # ss), 0, en1)"
    and r: "ob_rows (en_outbox en1) = ob_rows (en_outbox ?en) @ rs"
      "map rowView rs = map (rowFor (pe_now (ee_pol ee)) action attrs) (s # ss)"
    using enqueueLoop_rows [of "s # ss" ee action attrs "''enforce.'' @ kind @ '':'' @ label" sub 0 0 ?en] assms(9) by auto
  have "en_records en1 = en_records ?en" using enqueueLoop_records [OF l] .
  then show ?thesis using assms(1-8) l r
    by (simp add: handle_def claimEnforcement_def handleClaimed_def enqueueSessions_def recordEnforcement_def del: enqueueLoop.simps)
qed

section \<open>What the workers leave out\<close>

text \<open>
  A quota crossing with the action \<open>switch_plan\<close> is enforced by neither worker. The login path puts the subscriber on the
  switched plan, but the event handler finds no plan for the behaviour and the sweep leaves quota to the event handler: no
  outbox row is written for the crossing, and every session of the subscriber keeps its full rate.
\<close>

theorem quota_switch_plan_not_enforced:
  assumes "resolveView (ee_pol ee) u (en_rad en) = (AFound view, rad)"
    and "v_QuotaExhausted view" and "v_QuotaBehavior view = ''switch_plan''"
    and "\<not> isExpired (pe_now (ee_pol ee)) view"
    and "ee_sessions ee = Some all1" and "\<forall>s \<in> set all1. st_SubscriberID s = sub \<longrightarrow> st_Username s = u"
    and "s \<in> set all1" and "st_SubscriberID s = sub" and "u \<noteq> []"
    and "\<not> quotaExempt (v_ServiceType view) (st_Service s = ''hotspot'')"
  shows "po_Mode (evaluateLimits view (st_Service s = ''hotspot'') False) = modeSwitchPlan
     \<and> en_outbox (handle ee kindQuota sub en) = en_outbox en \<and> en_outbox (evaluateSession ee s en) = en_outbox en"
proof -
  obtain r rs where lr: "liveSessionRefs all1 sub = r # rs" using assms(7,8)
    by (cases "liveSessionRefs all1 sub") (auto simp: liveSessionRefs_def filter_empty_conv)
  then have "r \<in> set (liveSessionRefs all1 sub)" by simp
  then have ru: "sr_Username r = u" using assms(6) by (auto simp: liveSessionRefs_def sessionRefOf_def)
  have su: "st_Username s = u" using assms(6-8) by blast
  have plan: "planSteps kindQuota (behaviorOf u view) = (None, [], ''switch_plan'')"
    using assms(3) by (simp add: planSteps_def behaviorOf_def)
  have "en_outbox (handleClaimed ee kindQuota sub (en\<lparr>en_claims := x\<rparr>)) = en_outbox en" for x
    using assms(1,5) by (simp add: handleClaimed_def lr ru plan Let_def)
  then have "en_outbox (handle ee kindQuota sub en) = en_outbox en"
    by (simp add: handle_def claimEnforcement_def)
  moreover have oc: "po_Kind (evaluateLimits view (st_Service s = ''hotspot'') False) = ''quota''"
      "po_Mode (evaluateLimits view (st_Service s = ''hotspot'') False) = modeSwitchPlan"
    using assms(2,3,10) by (simp_all add: evaluateLimits_def resolveAction_def limitOutcome_def Let_def)
  moreover have "en_outbox (evaluateSession ee s en) = en_outbox en"
    using assms(1,4,9) oc(1) by (simp add: evaluateSession_def su Let_def)
  ultimately show ?thesis by blast
qed

text \<open>
  The sweep enforces an uptime or daily limit on one session only. The claim is per subscriber and cycle, but each session is
  enforced on its own: after the first session's row has been written, a second online session of the same subscriber is
  marked as enforced without a row of its own.
\<close>

theorem second_session_not_enforced:
  assumes "st_SubscriberID s2 = st_SubscriberID s1" and "st_Username s1 \<noteq> []" and "st_Username s2 \<noteq> []"
    and "\<not> ee_claimFails ee"
    and "resolveView (ee_pol ee) (st_Username s1) (en_rad en) = (AFound view, rad)"
    and "po_Kind (evaluateLimits view (st_Service s1 = ''hotspot'') (isExpired (pe_now (ee_pol ee)) view)) \<in> {''uptime'', ''daily''}"
    and "enfStep\<^sup>*\<^sup>* (evaluateSession ee s1 en) en1"
    and "resolveView (ee_pol ee) (st_Username s2) (en_rad en1) = (AFound view, rad')"
    and "(st_Service s2 = ''hotspot'') = (st_Service s1 = ''hotspot'')"
  shows "en_outbox (evaluateSession ee s2 en1) = en_outbox en1
     \<and> en_enforced (evaluateSession ee s2 en1) (Field (st_NASID s2) (st_AcctSessionID s2))"
proof -
  let ?oc = "evaluateLimits view (st_Service s1 = ''hotspot'') (isExpired (pe_now (ee_pol ee)) view)"
  let ?key = "dedupKey (pe_now (ee_pol ee)) (if po_Kind ?oc = ''daily'' then kindDaily else kindUptime) (st_SubscriberID s1)"
  have k: "po_Kind ?oc = ''uptime'' \<or> po_Kind ?oc = ''daily''" using assms(6) by simp
  have "?key \<in> set (en_claims (evaluateSession ee s1 en))"
    using assms(2,5) k enforceLimit_claimed [OF assms(4), where oc = ?oc and subID = "st_SubscriberID s1" and view = view]
    by (simp add: evaluateSession_def Let_def)
  then have "?key \<in> set (en_claims en1)" using enfSteps_claims [OF assms(7)] by blast
  then show ?thesis
    using assms(1,3,8,9) k by (simp add: evaluateSession_def Let_def enforceLimit_claimed_noop)
qed

text \<open>
  A failed daily reset is not repeated. The claim for the profile and day is taken before the counters are
  reset: if that update fails, no later tick of the same day resets them, whatever the database then answers.
\<close>

theorem failed_daily_reset_lost:
  assumes "\<not> ee_claimFails ee" and "snd p \<le> minuteOfDay (inServerLocation (pe_now (ee_pol ee)))"
    and "''daily_reset:'' @ fst p @ '':'' @ formatDay (inServerLocation (pe_now (ee_pol ee))) \<notin> set (en_claims en)"
    and "ee_reset ee (fst p) = None"
    and "enfStep\<^sup>*\<^sup>* (resetProfile ee p en) en2"
    and "formatDay (inServerLocation (pe_now (ee_pol ee'))) = formatDay (inServerLocation (pe_now (ee_pol ee)))"
  shows "en_resets (resetProfile ee p en) = en_resets en \<and> resetProfile ee' p en2 = en2"
proof -
  let ?key = "''daily_reset:'' @ fst p @ '':'' @ formatDay (inServerLocation (pe_now (ee_pol ee)))"
  have r: "resetProfile ee p en = en\<lparr>en_claims := en_claims en @ [?key]\<rparr>"
    using assms(1-4) by (simp add: resetProfile_def claimEnforcement_def Let_def)
  then have "?key \<in> set (en_claims en2)" using enfSteps_claims [OF assms(5)] by auto
  then have "resetProfile ee' p en2 = en2" by (simp add: resetProfile_def Let_def assms(6) enf.guarded_refused)
  then show ?thesis by (simp add: r)
qed

section \<open>Concrete instances\<close>

definition sampleLive :: "string \<Rightarrow> State" where
  "sampleLive acct = \<lparr>st_Username = ''ali'', st_SubscriberID = ''S1'', st_NASID = ''N1'', st_AcctSessionID = acct, st_IP = [],
     st_MAC = [], st_StartedAt = 0, st_LastInterimAt = 0, st_BytesIn = 0, st_BytesOut = 0, st_RateDownBps = 0, st_RateUpBps = 0,
     st_Stale = False, st_Service = ''pppoe'', st_NASServiceID = [], st_ServiceName = []\<rparr>"

definition sampleEE :: "gotime \<Rightarrow> EnfEnv" where
  "sampleEE t = \<lparr>ee_pol = samplePolEnv t, ee_claimFails = False, ee_recordFails = False, ee_enqueueFails = (\<lambda>_. False),
     ee_sessions = Some [sampleLive ''81'', sampleLive ''82''], ee_profiles = Some [], ee_reset = (\<lambda>_. None)\<rparr>"

definition sampleEnf :: "AuthView \<Rightarrow> Enf" where
  "sampleEnf v = \<lparr>en_claims = [], en_records = [], en_outbox = \<lparr>ob_rows = [], ob_attempts = [], ob_nextID = 1, ob_failures = 0\<rparr>,
     en_rad = sampleRadState\<lparr>rd_subs := [(''ali'', v)]\<rparr>, en_rate = (\<lambda>_. None), en_enforced = (\<lambda>_. False), en_resets = []\<rparr>"

lemma sampleEE_fields [simp]:
  "ee_pol (sampleEE t) = samplePolEnv t" "\<not> ee_claimFails (sampleEE t)" "\<not> ee_recordFails (sampleEE t)"
  "\<not> ee_enqueueFails (sampleEE t) r" "ee_sessions (sampleEE t) = Some [sampleLive ''81'', sampleLive ''82'']"
  "ee_reset (sampleEE t) = (\<lambda>_. None)"
  by (simp_all add: sampleEE_def)

lemma sampleLive_fields [simp]:
  "st_Username (sampleLive a) = ''ali''" "st_SubscriberID (sampleLive a) = ''S1''" "st_Service (sampleLive a) = ''pppoe''"
  by (simp_all add: sampleLive_def)

lemma sampleEnf_fields [simp]: "en_claims (sampleEnf v) = []" "en_outbox (sampleEnf v) = \<lparr>ob_rows = [], ob_attempts = [], ob_nextID = 1, ob_failures = 0\<rparr>"
  by (simp_all add: sampleEnf_def)

lemma sampleEnf_view: "\<exists>rad. resolveView (samplePolEnv t) ''ali'' (en_rad (sampleEnf v)) = (AFound v, rad)"
  by (simp add: resolveView_def redisGet_def sampleEnf_def sampleRadState_def samplePolEnv_def cacheView_def overlayQuota_def Let_def)

lemma samplePolEnv_now [simp]: "pe_now (samplePolEnv t) = t" by (simp add: samplePolEnv_def)

lemma sample_refs: "liveSessionRefs [sampleLive ''81'', sampleLive ''82''] ''S1'' =
    sessionRefOf (sampleLive ''81'') # [sessionRefOf (sampleLive ''82'')]"
  by (simp add: liveSessionRefs_def)

lemma sample_ref_user: "sr_Username (sessionRefOf (sampleLive a)) = ''ali''" by (simp add: sessionRefOf_def)

theorem handle_once_per_cycle_witness:
  "handle (sampleEE (2 * second)) kindQuota ''S1'' (handle (sampleEE second) kindQuota ''S1'' (sampleEnf sampleView)) =
   handle (sampleEE second) kindQuota ''S1'' (sampleEnf sampleView)"
  using handle_once_per_cycle [of "sampleEE second" kindQuota "''S1''" "sampleEnf sampleView"
      "handle (sampleEE second) kindQuota ''S1'' (sampleEnf sampleView)" "sampleEE (2 * second)"]
  by (simp add: dedupBucket_def truncDiv_def enforceCycle_def minute_def second_def)

theorem handle_reaches_every_session_witness:
  "\<exists>rs. ob_rows (en_outbox (handle (sampleEE second) kindQuota ''S1'' (sampleEnf sampleView))) = rs
     \<and> map rowView rs = [(''N1'', ''81'', CoAActionDisconnect, CoAActionDisconnect, [], OutboxPending),
         (''N1'', ''82'', CoAActionDisconnect, CoAActionDisconnect, [], OutboxPending)]"
proof -
  obtain rad where v: "resolveView (samplePolEnv second) ''ali'' (en_rad (sampleEnf sampleView)) = (AFound sampleView, rad)"
    using sampleEnf_view by blast
  have p: "planSteps kindQuota (behaviorOf ''ali'' sampleView) = (Some CoAActionDisconnect, [], ''block'')"
    by (simp add: planSteps_def behaviorOf_def sampleView_def)
  show ?thesis
    using handle_reaches_every_session [where ee = "sampleEE second" and kind = kindQuota and sub = "''S1''"
        and en = "sampleEnf sampleView" and s = "sessionRefOf (sampleLive ''81'')" and ss = "[sessionRefOf (sampleLive ''82'')]"
        and view = sampleView and rad = rad and action = CoAActionDisconnect and attrs = "[]" and label = "''block''"
        and ?all1.0 = "[sampleLive ''81'', sampleLive ''82'']"] v p
    by (auto simp: sample_refs sample_ref_user rowFor_def) (auto simp: sessionRefOf_def sampleLive_def)
qed

theorem quota_switch_plan_not_enforced_witness:
  "let v = sampleView\<lparr>v_QuotaBehavior := ''switch_plan'', v_QuotaExhausted := True\<rparr> in
   ob_rows (en_outbox (handle (sampleEE second) kindQuota ''S1'' (sampleEnf v))) = []
   \<and> ob_rows (en_outbox (evaluateSession (sampleEE second) (sampleLive ''81'') (sampleEnf v))) = []"
proof -
  let ?v = "sampleView\<lparr>v_QuotaBehavior := ''switch_plan'', v_QuotaExhausted := True\<rparr>"
  obtain rad where "resolveView (samplePolEnv second) ''ali'' (en_rad (sampleEnf ?v)) = (AFound ?v, rad)"
    using sampleEnf_view by blast
  then show ?thesis
    using quota_switch_plan_not_enforced [where ee = "sampleEE second" and u = "''ali''" and en = "sampleEnf ?v" and view = ?v
        and rad = rad and ?all1.0 = "[sampleLive ''81'', sampleLive ''82'']" and s = "sampleLive ''81''" and sub = "''S1''"]
    by (simp add: isExpired_def sampleView_fields quotaExempt_def Let_def)
qed

theorem second_session_not_enforced_witness:
  "let v = sampleView\<lparr>v_UptimeLimitSeconds := 60, v_UptimeUsedSeconds := 61\<rparr>;
       en1 = evaluateSession (sampleEE second) (sampleLive ''81'') (sampleEnf v)
   in en_outbox (evaluateSession (sampleEE second) (sampleLive ''82'') en1) = en_outbox en1"
proof -
  let ?v = "sampleView\<lparr>v_UptimeLimitSeconds := 60, v_UptimeUsedSeconds := 61\<rparr>"
  let ?en1 = "evaluateSession (sampleEE second) (sampleLive ''81'') (sampleEnf ?v)"
  obtain rad where v: "resolveView (samplePolEnv second) ''ali'' (en_rad (sampleEnf ?v)) = (AFound ?v, rad)"
    using sampleEnf_view by blast
  have k: "po_Kind (evaluateLimits ?v False (isExpired second ?v)) = ''uptime''"
    by (simp add: evaluateLimits_def isExpired_def sampleView_fields quotaExempt_def resolveAction_def limitOutcome_def Let_def)
  have "en_rad ?en1 = rad"
    using v k by (simp add: evaluateSession_def Let_def enforceLimit_rad)
  moreover have "\<exists>rad'. resolveView (samplePolEnv second) ''ali'' rad = (AFound ?v, rad')"
    using v by (auto simp: resolveView_def redisGet_def sampleEnf_def sampleRadState_def samplePolEnv_def cacheView_def overlayQuota_def Let_def
        viewCacheTTL_def second_def)
  ultimately show ?thesis
    using second_session_not_enforced [where ee = "sampleEE second" and en = "sampleEnf ?v" and view = ?v and rad = rad
        and ?en1.0 = ?en1 and ?s1.0 = "sampleLive ''81''" and ?s2.0 = "sampleLive ''82''"] v k
    by (auto simp: Let_def)
qed

theorem failed_daily_reset_lost_witness:
  "resetProfile (sampleEE (2 * second)) (''P1'', 0) (resetProfile (sampleEE second) (''P1'', 0) (sampleEnf sampleView)) =
   resetProfile (sampleEE second) (''P1'', 0) (sampleEnf sampleView)"
  using failed_daily_reset_lost [of "sampleEE second" "(''P1'', 0)" "sampleEnf sampleView"
      "resetProfile (sampleEE second) (''P1'', 0) (sampleEnf sampleView)" "sampleEE (2 * second)"]
  by (simp add: minuteOfDay_def inServerLocation_def formatDay_def dayLength_def minute_def second_def)

end
