(* ===== verification/CoaDispatched.thy ===== *)
theory CoaDispatched
  imports CoaOutbox
begin

text \<open>
  What the CoA dispatcher does to one row of its table. The loop of \<^verbatim>\<open>startCoADispatcher\<close> runs the tick of \<open>CoaOutbox\<close>; a tick
  is one map over the rows (reclaimed, claimed, tried, swept), so the life of a queued row can be followed through any
  sequence of ticks whatever happens to the other rows.
\<close>

section \<open>The loop\<close>

text \<open>
  One beat of the ticker: the clock, the success of the tick's own statements, the exchange of each row and the failure of
  each sweep statement. The loop runs when database and Redis are configured and stops with its context; a finite list of beats is a run of it.
\<close>

record CoABeat =
  cb_now :: gotime
  cb_env :: TickEnv
  cb_dispatch :: "nat \<Rightarrow> DispatchEnv"
  cb_sweepFails :: "nat \<Rightarrow> bool"





section \<open>A tick as one map over the rows\<close>

definition exchanged :: "DispatchEnv \<Rightarrow> gotime \<Rightarrow> OutboxRow \<Rightarrow> OutboxRow" where
  "exchanged de now r =
     (if d_resolveFails de then r
      else if \<not> sessionStillLive (d_live de) then resolveReaped now r
      else if d_ack de then resolveDone now (d_outcome de) r
      else resolveNack (d_outcome de) (d_err de) r)"


lemma row_ids [simp]:
  "ob_ID (reclaimed now olderThan r) = ob_ID r" "ob_ID (sentRow now r) = ob_ID r" "ob_ID (exchanged de now r) = ob_ID r"
  "ob_ID (sweepRow now n fails r) = ob_ID r"
  by (simp_all add: reclaimed_def sentRow_def exchanged_def resolveReaped_def resolveDone_def resolveNack_def sweepRow_def
      applyNackDecision_def split: nackDecision.split)




text \<open>The rows a tick claims, and what it does to a row.\<close>

definition tickReclaim :: "CoABeat \<Rightarrow> OutboxRow \<Rightarrow> OutboxRow" where
  "tickReclaim b r = (if t_reclaimFails (cb_env b) then r else reclaimed (cb_now b) coaStuckSentAfter r)"


definition tickTry :: "CoABeat \<Rightarrow> nat set \<Rightarrow> OutboxRow \<Rightarrow> OutboxRow" where
  "tickTry b ids r = (if ob_ID r \<in> ids then exchanged (cb_dispatch b (ob_ID r)) (cb_now b) (sentRow (cb_now b) r) else r)"

definition tickSweep :: "int \<Rightarrow> CoABeat \<Rightarrow> OutboxRow \<Rightarrow> OutboxRow" where
  "tickSweep n b r = (if t_listFails (cb_env b) then r else sweepRow (cb_now b) n (cb_sweepFails b) r)"


lemma tick_ids [simp]:
  "ob_ID (tickReclaim b r) = ob_ID r" "ob_ID (tickTry b ids r) = ob_ID r" "ob_ID (tickSweep n b r) = ob_ID r"
  by (simp_all add: tickReclaim_def tickTry_def tickSweep_def)




section \<open>Open rows\<close>

text \<open>A tick reopens no resolved row, so the rows still to be resolved do not grow in number.\<close>

definition openRow :: "OutboxRow \<Rightarrow> bool" where
  "openRow r \<longleftrightarrow> ob_State r \<noteq> OutboxDone \<and> ob_State r \<noteq> OutboxFailed"


lemma tickReclaim_open [simp]: "openRow (tickReclaim b r) = openRow r"
  by (simp add: openRow_def tickReclaim_def reclaimed_def)




section \<open>The life of a row\<close>



















section \<open>Properties\<close>






end
