(* ===== verification/BillLedger.thy ===== *)
theory BillLedger
  imports Complex_Main Prelude
begin

text \<open>
  The money tables of \<^verbatim>\<open>backend/internal/billing\<close>: the append-only ledger with its cached balances (\<^verbatim>\<open>ledger.go\<close>), the
  double-entry journal written beside it (\<^verbatim>\<open>journal.go\<close>), the agents' credit limit and commission
  (\<^verbatim>\<open>commission_credit.go\<close>), and the top-up (\<^verbatim>\<open>balance_api.go\<close>).

  The database is one record. A function that runs inside an open transaction returns an error or a result
  with the new database; an error rolls the transaction back, so the caller keeps the old record.
  The ids the database generates are drawn from a counter. Amounts are int64 in Go and
  \<^verbatim>\<open>bigint\<close> in SQL: a stored sum outside that range is an SQL error. The rounding of float64 operations is the
  argument \<open>fl\<close>, applied after every operation.
\<close>

section \<open>Errors\<close>

datatype BillErr =
    errNoSubscriber | errNoProfile | errProfileArchived | errInsufficientFunds
  | errNoRate | errUnbalancedEntry | errUnknownType | errUniqueViolation | errDB
  | errTxNotFound | errTxMismatch | errNotRefundable | errAlreadyRefunded
  | errUndoNotFound | errUndoAlreadyDone | errUndoExpired | errUndoRecordGone | errUndoChanged | errUnknownKind
  | errNotEnoughCodes | errNotFound | errAlreadyVoid | errValidation | errDiverges
  | errMethodNotAllowed | errTicketPending | errTicketNotFound | errTicketNotPending | errCardTypeNotAllowed
  | errInvoiceNotFound | errInvoiceAlreadyVoid | errInvoiceHasReceipts | errSettled | errOverpayment
  | errExpenseNotFound | errExpenseAlreadyVoid | errExpenseHasPayments

text \<open>\<open>errDB\<close> is any error of the database, \<open>errDiverges\<close> a loop that has not ended on the random numbers given.\<close>

definition bindE :: "'e + 'a \<Rightarrow> ('a \<Rightarrow> 'e + 'b) \<Rightarrow> 'e + 'b" where
  "bindE r f = (case r of Inl e \<Rightarrow> Inl e | Inr x \<Rightarrow> f x)"

lemma bindE_simps [simp]: "bindE (Inl e) f = Inl e" "bindE (Inr x) f = f x"
  by (simp_all add: bindE_def)

lemma bindE_Inr: "bindE r f = Inr y \<longleftrightarrow> (\<exists>x. r = Inr x \<and> f x = Inr y)"
  by (cases r) simp_all

lemma bindE_pair: "bindE r (\<lambda>(a, b). f a b) = Inr y \<longleftrightarrow> (\<exists>a b. r = Inr (a, b) \<and> f a b = Inr y)"
  by (cases r) auto

section \<open>Tables\<close>

record ledgerEntry =
  le_Type :: string
  le_Amount :: int
  le_ActorManagerID :: string
  le_SubscriberID :: string
  le_Source :: string
  le_Reference :: string
  le_ReversesID :: string
  le_Note :: string
  le_CurrencyRateID :: string
  le_EnteredAmount :: "int option"
  le_EnteredCurrency :: string
  le_CostAtSale :: "int option"

record ledgerRow =
  lr_ID :: string
  lr_Currency :: string
  lr_Entry :: ledgerEntry

record jLine =
  jl_AccountCode :: string
  jl_Debit :: int
  jl_Credit :: int
  jl_Memo :: string
  jl_ManagerID :: string
  jl_SubscriberID :: string

record journalEntry =
  je_ID :: string
  je_At :: gotime
  je_Memo :: string
  je_Source :: string
  je_Reference :: string
  je_LedgerTxID :: string
  je_ReversesID :: string
  je_CreatedBy :: string
  je_Lines :: "jLine list"

record account =
  an_Code :: string
  an_Name :: string
  an_Type :: string
  an_Subtype :: string
  an_NormalBalance :: string
  an_IsSystem :: bool

record paymentRow =
  pm_ReceiptNo :: string
  pm_LedgerTxID :: string
  pm_SubscriberID :: string
  pm_Amount :: int
  pm_Currency :: string
  pm_Method :: string
  pm_Source :: string

record managerRow =
  mg_CreditLimit :: int
  mg_CommissionPct :: rat

record subscriberRow =
  sb_ExpiresAt :: "gotime option"
  sb_ProfileID :: string
  sb_PriceOverride :: "int option"
  sb_RateOverride :: string
  sb_Status :: string
  sb_QuotaAnchor :: gotime
  sb_PendingProfileID :: string
  sb_UptimeAnchor :: "gotime option"

record profileRow =
  pf_Price :: int
  pf_Currency :: string
  pf_DurationDays :: int
  pf_Archived :: bool
  pf_RateUpKbps :: int
  pf_RateDownKbps :: int
  pf_PoolName :: string
  pf_ExpiryBehavior :: string

record costRow =
  co_ProfileID :: string
  co_Cost :: int
  co_Currency :: string
  co_EffectiveFrom :: gotime

record resellerPriceRow =
  rp_ManagerID :: string
  rp_ProfileID :: string
  rp_SubscriberID :: string
  rp_Price :: int
  rp_Currency :: string
  rp_EffectiveFrom :: gotime

record currencyRate =
  cr_ID :: string
  cr_From :: string
  cr_To :: string
  cr_Rate :: rat
  cr_EffectiveFrom :: gotime

record invoiceRow =
  iv_ID :: string
  iv_No :: string
  iv_SubscriberID :: string
  iv_Mode :: string
  iv_IssueDate :: gotime
  iv_DueDate :: gotime
  iv_TaxRate :: rat
  iv_Subtotal :: int
  iv_TaxAmount :: int
  iv_Total :: int
  iv_AmountPaid :: int
  iv_Status :: string
  iv_Memo :: string
  iv_JournalEntryID :: string
  iv_CreatedBy :: string
  iv_VoidedAt :: "gotime option"
  iv_VoidedBy :: string
  iv_VoidReason :: string
  iv_VoidEntryID :: string

record invoiceLineRow =
  il_InvoiceID :: string
  il_Description :: string
  il_Category :: string
  il_Quantity :: rat
  il_UnitPrice :: int
  il_Amount :: int

record renewResult =
  rr_LedgerTxID :: string
  rr_ReceiptNo :: string
  rr_NewExpiresAt :: gotime
  rr_CoAResult :: string
  rr_Currency :: string
  rr_price :: int
  rr_rate :: string
  rr_poolName :: string

record undoRow =
  un_ID :: string
  un_Kind :: string
  un_EntityID :: string
  un_Actor :: string
  un_LedgerTxID :: string
  un_SnapExpires :: gotime
  un_SnapManager :: string
  un_SnapAmount :: int
  un_ExpiresAt :: gotime
  un_Undone :: bool
  un_ReversalTxID :: string
  un_UndoOf :: string

record voucherRow =
  vo_ID :: string
  vo_BatchID :: string
  vo_CodeHash :: string
  vo_State :: string
  vo_UsedFor :: string
  vo_LedgerTxID :: string

record batchRow =
  ba_ID :: string
  ba_ProfileID :: string
  ba_Prefix :: string
  ba_Count :: int
  ba_UnitPrice :: int
  ba_Currency :: string
  ba_Creator :: string
  ba_ExpiresAt :: "gotime option"
  ba_GenTx :: string
  ba_State :: string
  ba_VoidTx :: string

record Bill =
  bl_nextID :: nat
  bl_ledger :: "ledgerRow list"
  bl_balances :: "string \<Rightarrow> int option"
  bl_journal :: "journalEntry list"
  bl_accounts :: "account list"
  bl_payments :: "paymentRow list"
  bl_receiptSeq :: nat
  bl_invoices :: "invoiceRow list"
  bl_invoiceLines :: "invoiceLineRow list"
  bl_invoiceSeq :: nat
  bl_managers :: "string \<Rightarrow> managerRow option"
  bl_subs :: "string \<Rightarrow> subscriberRow option"
  bl_profiles :: "string \<Rightarrow> profileRow option"
  bl_costs :: "costRow list"
  bl_prices :: "resellerPriceRow list"
  bl_rates :: "currencyRate list"
  bl_digits :: "string \<Rightarrow> nat option"
  bl_expiredPool :: string
  bl_idem :: "(string \<times> renewResult option) list"
  bl_undo :: "undoRow list"
  bl_vouchers :: "voucherRow list"
  bl_batches :: "batchRow list"

text \<open>\<^verbatim>\<open>gen_random_uuid()\<close>: a fresh id.\<close>

definition newID :: "Bill \<Rightarrow> string \<times> Bill" where
  "newID db = (formatUint (bl_nextID db), db\<lparr>bl_nextID := Suc (bl_nextID db)\<rparr>)"

section \<open>The ledger\<close>

text \<open>
  The insert fails on an actor or subscriber that does not exist, and on a second row that reverses the same entry (the unique
  index on \<^verbatim>\<open>reverses_id\<close>).
\<close>

definition insertLedger :: "ledgerEntry \<Rightarrow> Bill \<Rightarrow> BillErr + string \<times> Bill" where
  "insertLedger e db =
     (if le_ActorManagerID e \<noteq> '''' \<and> bl_managers db (le_ActorManagerID e) = None then Inl errDB
      else if le_SubscriberID e \<noteq> '''' \<and> bl_subs db (le_SubscriberID e) = None then Inl errDB
      else if le_ReversesID e \<noteq> '''' \<and> list_ex (\<lambda>r. le_ReversesID (lr_Entry r) = le_ReversesID e) (bl_ledger db)
      then Inl errUniqueViolation
      else let (i, db1) = newID db
           in Inr (i, db1\<lparr>bl_ledger := bl_ledger db1 @ [\<lparr>lr_ID = i, lr_Currency = ''IQD'', lr_Entry = e\<rparr>]\<rparr>))"

definition lockBalance :: "string \<Rightarrow> Bill \<Rightarrow> BillErr + int \<times> Bill" where
  "lockBalance m db =
     (if m = '''' \<or> bl_managers db m = None then Inl errDB
      else case bl_balances db m of
             Some b \<Rightarrow> Inr (b, db)
           | None \<Rightarrow> Inr (0, db\<lparr>bl_balances := (bl_balances db)(m \<mapsto> 0)\<rparr>))"

definition ledgerSum :: "string \<Rightarrow> ledgerRow list \<Rightarrow> int" where
  "ledgerSum m rows = (\<Sum>r \<leftarrow> filter (\<lambda>r. le_ActorManagerID (lr_Entry r) = m \<and> lr_Currency r = ''IQD'') rows. le_Amount (lr_Entry r))"

definition recomputeBalance :: "string \<Rightarrow> Bill \<Rightarrow> BillErr + unit \<times> Bill" where
  "recomputeBalance m db =
     (let s = ledgerSum m (bl_ledger db) in
      if \<not> inInt64 s then Inl errDB
      else case bl_balances db m of
             None \<Rightarrow> Inr ((), db)
           | Some _ \<Rightarrow> Inr ((), db\<lparr>bl_balances := (bl_balances db)(m \<mapsto> s)\<rparr>))"

definition readBalance :: "string \<Rightarrow> Bill \<Rightarrow> int" where
  "readBalance m db = (case bl_balances db m of Some b \<Rightarrow> b | None \<Rightarrow> 0)"

text \<open>\<^verbatim>\<open>ORDER BY effective_from DESC LIMIT 1\<close>.\<close>

fun latest :: "('a \<Rightarrow> gotime) \<Rightarrow> 'a list \<Rightarrow> 'a option" where
  "latest f [] = None"
| "latest f (x # xs) = (case latest f xs of None \<Rightarrow> Some x | Some y \<Rightarrow> Some (if f x < f y then y else x))"

primrec pow10 :: "(rat \<Rightarrow> rat) \<Rightarrow> nat \<Rightarrow> rat" where
  "pow10 fl 0 = 1"
| "pow10 fl (Suc n) = fl (pow10 fl n * 10)"

text \<open>The conversion \<^verbatim>\<open>int64(x)\<close> of a float in range: truncation towards zero.\<close>

definition goInt64 :: "rat \<Rightarrow> int" where
  "goInt64 x = (if x < 0 then \<lceil>x\<rceil> else \<lfloor>x\<rfloor>)"

definition convertToIQD :: "(rat \<Rightarrow> rat) \<Rightarrow> int \<Rightarrow> string \<Rightarrow> Bill \<Rightarrow> BillErr + int \<times> string" where
  "convertToIQD fl amount cur db =
     (if cur = '''' \<or> cur = ''IQD'' then Inr (amount, '''')
      else case latest cr_EffectiveFrom (filter (\<lambda>r. cr_From r = cur \<and> cr_To r = ''IQD'') (bl_rates db)) of
             None \<Rightarrow> Inl errNoRate
           | Some r \<Rightarrow>
               (case bl_digits db cur of
                  None \<Rightarrow> Inl errDB
                | Some digits \<Rightarrow>
                    (let whole = fl (fl (of_int amount) / pow10 fl digits)
                     in Inr (goInt64 (fl (fl (whole * cr_Rate r) + 1 / 2)), cr_ID r))))"

definition signedToIQD :: "(rat \<Rightarrow> rat) \<Rightarrow> int \<Rightarrow> string \<Rightarrow> Bill \<Rightarrow> BillErr + int \<times> string" where
  "signedToIQD fl amount cur db =
     (if cur = '''' \<or> cur = ''IQD'' then Inr (amount, '''')
      else bindE (convertToIQD fl (if amount < 0 then - amount else amount) cur db)
             (\<lambda>(iqd, rateID). Inr (if amount < 0 then - iqd else iqd, rateID)))"

definition docNo :: "string \<Rightarrow> nat \<Rightarrow> string" where
  "docNo prefix n = prefix @ (let s = formatUint n in replicate (6 - length s) (CHR ''0'') @ s)"

definition nextReceiptNo :: "string \<Rightarrow> Bill \<Rightarrow> string \<times> Bill" where
  "nextReceiptNo prefix db = (docNo prefix (bl_receiptSeq db), db\<lparr>bl_receiptSeq := Suc (bl_receiptSeq db)\<rparr>)"

definition insertPayment :: "paymentRow \<Rightarrow> Bill \<Rightarrow> Bill" where
  "insertPayment p db =
     db\<lparr>bl_payments := bl_payments db @ [if pm_Currency p = '''' then p\<lparr>pm_Currency := ''IQD''\<rparr> else p]\<rparr>"

section \<open>The journal\<close>

definition acctCash :: string where "acctCash = ''1000''"
definition acctBank :: string where "acctBank = ''1010''"
definition acctAR :: string where "acctAR = ''1100''"
definition acctFixedAssets :: string where "acctFixedAssets = ''1500''"
definition acctAccumDepreciation :: string where "acctAccumDepreciation = ''1590''"
definition acctAP :: string where "acctAP = ''2000''"
definition acctAgentWallet :: string where "acctAgentWallet = ''2100''"
definition acctCostSuspense :: string where "acctCostSuspense = ''2900''"
definition acctOwnerCapital :: string where "acctOwnerCapital = ''3000''"
definition acctRetainedEarnings :: string where "acctRetainedEarnings = ''3900''"
definition acctRevenue :: string where "acctRevenue = ''4000''"
definition acctOtherRevenue :: string where "acctOtherRevenue = ''4900''"
definition acctCOGS :: string where "acctCOGS = ''5000''"
definition acctCommissionExpense :: string where "acctCommissionExpense = ''5100''"
definition acctOperatingExpense :: string where "acctOperatingExpense = ''5200''"
definition acctDepreciationExpense :: string where "acctDepreciationExpense = ''5900''"

text \<open>The accounts that the migration \<^verbatim>\<open>0616\<close> creates.\<close>

definition sysAccount :: "string \<Rightarrow> string \<Rightarrow> string \<Rightarrow> string \<Rightarrow> string \<Rightarrow> account" where
  "sysAccount code name type subtype normal =
     \<lparr>an_Code = code, an_Name = name, an_Type = type, an_Subtype = subtype, an_NormalBalance = normal, an_IsSystem = True\<rparr>"

definition systemAccounts :: "account list" where
  "systemAccounts =
     [sysAccount acctCash ''Cash'' ''asset'' ''cash'' ''debit'',
      sysAccount acctBank ''Bank'' ''asset'' ''bank'' ''debit'',
      sysAccount acctAR ''Accounts Receivable'' ''asset'' ''accounts_receivable'' ''debit'',
      sysAccount acctFixedAssets ''Fixed Assets'' ''asset'' ''fixed_asset'' ''debit'',
      sysAccount acctAccumDepreciation ''Accumulated Depreciation'' ''asset'' ''accumulated_depreciation'' ''credit'',
      sysAccount acctAP ''Accounts Payable'' ''liability'' ''accounts_payable'' ''credit'',
      sysAccount acctAgentWallet ''Agent Prepaid Balances'' ''liability'' ''agent_wallet'' ''credit'',
      sysAccount acctCostSuspense ''Cost Accrual Suspense'' ''liability'' ''suspense'' ''credit'',
      sysAccount acctOwnerCapital ''Owner Capital'' ''equity'' ''capital'' ''credit'',
      sysAccount acctRetainedEarnings ''Retained Earnings'' ''equity'' '''' ''credit'',
      sysAccount acctRevenue ''Subscription Revenue'' ''revenue'' '''' ''credit'',
      sysAccount acctOtherRevenue ''Other Revenue'' ''revenue'' '''' ''credit'',
      sysAccount acctCOGS ''Cost of Service'' ''expense'' '''' ''debit'',
      sysAccount acctCommissionExpense ''Commission Expense'' ''expense'' '''' ''debit'',
      sysAccount acctOperatingExpense ''Operating Expenses'' ''expense'' '''' ''debit'',
      sysAccount acctDepreciationExpense ''Depreciation Expense'' ''expense'' '''' ''debit'']"

definition validateBalanced :: "jLine list \<Rightarrow> BillErr option" where
  "validateBalanced ls =
     (if length ls < 2 then Some errUnbalancedEntry
      else if list_ex (\<lambda>l. (0 < jl_Debit l) = (0 < jl_Credit l)) ls then Some errUnbalancedEntry
      else if sum_list (map jl_Debit ls) \<noteq> sum_list (map jl_Credit ls) then Some errUnbalancedEntry
      else None)"

text \<open>The \<^verbatim>\<open>CHECK\<close> of \<^verbatim>\<open>journal_lines\<close>: one side of a line, and nothing on the other.\<close>

definition lineCheck :: "jLine \<Rightarrow> bool" where
  "lineCheck l \<longleftrightarrow> (jl_Debit l = 0 \<and> 0 < jl_Credit l) \<or> (0 < jl_Debit l \<and> jl_Credit l = 0)"

definition insertLines :: "jLine list \<Rightarrow> journalEntry \<Rightarrow> Bill \<Rightarrow> BillErr + string \<times> Bill" where
  "insertLines ls je db =
     (if list_all (\<lambda>l. list_ex (\<lambda>a. an_Code a = jl_AccountCode l) (bl_accounts db) \<and> lineCheck l) ls
      then let (i, db1) = newID db
           in Inr (i, db1\<lparr>bl_journal := bl_journal db1 @ [je\<lparr>je_ID := i, je_Lines := ls\<rparr>]\<rparr>)
      else Inl errDB)"

definition postJournal ::
    "gotime \<Rightarrow> string \<Rightarrow> string \<Rightarrow> string \<Rightarrow> string \<Rightarrow> string \<Rightarrow> jLine list \<Rightarrow> Bill \<Rightarrow> BillErr + string \<times> Bill" where
  "postJournal now memo source reference ledgerTxID createdBy ls db =
     (case validateBalanced ls of
        Some e \<Rightarrow> Inl e
      | None \<Rightarrow> insertLines ls \<lparr>je_ID = '''', je_At = now, je_Memo = memo, je_Source = source, je_Reference = reference,
          je_LedgerTxID = ledgerTxID, je_ReversesID = '''', je_CreatedBy = createdBy, je_Lines = []\<rparr> db)"

definition signedPair :: "string \<Rightarrow> string \<Rightarrow> int \<Rightarrow> string \<Rightarrow> string \<Rightarrow> jLine list" where
  "signedPair debitWhenPositive creditWhenPositive amount memo managerID =
     (let mag = (if amount < 0 then - amount else amount);
          tag = (\<lambda>code. if code = acctAgentWallet then managerID else '''');
          line = (\<lambda>code d c. \<lparr>jl_AccountCode = code, jl_Debit = d, jl_Credit = c, jl_Memo = memo,
                             jl_ManagerID = tag code, jl_SubscriberID = ''''\<rparr>)
      in if 0 \<le> amount then [line debitWhenPositive mag 0, line creditWhenPositive 0 mag]
         else [line creditWhenPositive mag 0, line debitWhenPositive 0 mag])"

text \<open>The lines of a ledger row: the mapping from the row's type, amount, actor, payment and cost.\<close>

definition journalLines :: "ledgerEntry \<Rightarrow> int \<Rightarrow> bool \<Rightarrow> BillErr + jLine list" where
  "journalLines e gross hasPayment =
     (let amt = le_Amount e; mgr = le_ActorManagerID e in
      if le_Type e = ''topup'' then
        Inr (if amt = 0 then [] else signedPair acctCash acctAgentWallet amt ''topup'' mgr)
      else if le_Type e = ''commission'' then
        Inr (if amt = 0 then [] else signedPair acctCommissionExpense acctAgentWallet amt ''commission'' mgr)
      else if le_Type e = ''exchange'' then
        Inr (if amt = 0 then [] else signedPair acctOwnerCapital acctAgentWallet amt ''exchange (v3-2 legacy)'' mgr)
      else if le_Type e \<in> {''renewal'', ''voucher_redeem'', ''adjustment'', ''refund'', ''manual_payment'', ''discount''} then
        Inr ((if mgr \<noteq> '''' \<and> amt \<noteq> 0 then signedPair acctRevenue acctAgentWallet amt (''wallet-mediated '' @ le_Type e) mgr
              else if hasPayment \<and> gross \<noteq> 0 then signedPair acctCash acctRevenue gross (''direct cash '' @ le_Type e) ''''
              else [])
             @ (case le_CostAtSale e of
                  Some c \<Rightarrow> if c \<noteq> 0 then signedPair acctCOGS acctCostSuspense c ''cost of service'' '''' else []
                | None \<Rightarrow> []))
      else Inl errUnknownType)"

definition postLedgerJournal ::
    "gotime \<Rightarrow> ledgerEntry \<Rightarrow> string \<Rightarrow> int \<Rightarrow> bool \<Rightarrow> string \<Rightarrow> string \<Rightarrow> Bill \<Rightarrow> BillErr + unit \<times> Bill" where
  "postLedgerJournal now e ledgerTxID gross hasPayment source createdBy db =
     bindE (journalLines e gross hasPayment)
       (\<lambda>ls. if ls = [] then Inr ((), db)
             else bindE (postJournal now (if le_Note e = '''' then le_Type e else le_Note e) source (le_Reference e)
                           ledgerTxID createdBy ls db) (\<lambda>(i, db1). Inr ((), db1)))"

text \<open>The reversal of an entry: the same lines with the sides swapped; a second reversal violates the unique index.\<close>

definition swapLine :: "jLine \<Rightarrow> jLine" where
  "swapLine l = l\<lparr>jl_Debit := jl_Credit l, jl_Credit := jl_Debit l\<rparr>"

definition reverseJournal ::
    "gotime \<Rightarrow> string \<Rightarrow> string \<Rightarrow> string \<Rightarrow> string \<Rightarrow> string \<Rightarrow> Bill \<Rightarrow> BillErr + string \<times> Bill" where
  "reverseJournal now orig memo source reference createdBy db =
     (case find (\<lambda>j. je_ID j = orig) (bl_journal db) of
        None \<Rightarrow> Inl errDB
      | Some j \<Rightarrow>
          (if je_Lines j = [] \<or> list_ex (\<lambda>j. je_ReversesID j = orig) (bl_journal db) then Inl errDB
           else insertLines (map swapLine (je_Lines j)) \<lparr>je_ID = '''', je_At = now, je_Memo = memo, je_Source = source,
                  je_Reference = reference, je_LedgerTxID = '''', je_ReversesID = orig, je_CreatedBy = createdBy, je_Lines = []\<rparr> db))"

section \<open>Agents\<close>

definition managerCreditLimit :: "string \<Rightarrow> Bill \<Rightarrow> int" where
  "managerCreditLimit m db =
     (if m = '''' then 0
      else case bl_managers db m of None \<Rightarrow> 0
           | Some r \<Rightarrow> if mg_CreditLimit r < 0 then - mg_CreditLimit r else mg_CreditLimit r)"

definition managerCommissionPct :: "string \<Rightarrow> Bill \<Rightarrow> rat" where
  "managerCommissionPct m db =
     (if m = '''' then 0 else case bl_managers db m of None \<Rightarrow> 0 | Some r \<Rightarrow> mg_CommissionPct r)"

definition commissionOf :: "(rat \<Rightarrow> rat) \<Rightarrow> int \<Rightarrow> rat \<Rightarrow> int" where
  "commissionOf fl base pct =
     (if pct \<le> 0 \<or> base \<le> 0 then 0 else goInt64 (fl (fl (fl (fl (of_int base) * pct) / 100) + 1 / 2)))"

definition commissionEntry :: "string \<Rightarrow> int \<Rightarrow> string \<Rightarrow> string \<Rightarrow> ledgerEntry" where
  "commissionEntry m amount source reference =
     \<lparr>le_Type = ''commission'', le_Amount = amount, le_ActorManagerID = m, le_SubscriberID = '''', le_Source = source,
      le_Reference = reference, le_ReversesID = '''', le_Note = ''commission'', le_CurrencyRateID = '''',
      le_EnteredAmount = None, le_EnteredCurrency = '''', le_CostAtSale = None\<rparr>"

definition postCommission ::
    "(rat \<Rightarrow> rat) \<Rightarrow> gotime \<Rightarrow> string \<Rightarrow> int \<Rightarrow> string \<Rightarrow> string \<Rightarrow> Bill \<Rightarrow> BillErr + unit \<times> Bill" where
  "postCommission fl now m base source reference db =
     (let c = commissionOf fl base (managerCommissionPct m db) in
      if c \<le> 0 then Inr ((), db)
      else let e = commissionEntry m c source reference in
           bindE (insertLedger e db) (\<lambda>(txID, db1).
           bindE (recomputeBalance m db1) (\<lambda>(_, db2).
             postLedgerJournal now e txID 0 False ''billing.commission'' m db2)))"

section \<open>Top-up\<close>

text \<open>The transaction of \<^verbatim>\<open>topupHandler\<close>: the id of the new row and the credited amount.\<close>

definition topupEntry :: "string \<Rightarrow> int \<Rightarrow> string \<Rightarrow> string \<Rightarrow> int \<Rightarrow> string \<Rightarrow> ledgerEntry" where
  "topupEntry m iqd note rateID amount entered =
     \<lparr>le_Type = ''topup'', le_Amount = iqd, le_ActorManagerID = m, le_SubscriberID = '''', le_Source = ''panel'',
      le_Reference = '''', le_ReversesID = '''', le_Note = note, le_CurrencyRateID = rateID,
      le_EnteredAmount = (if entered \<noteq> '''' \<and> entered \<noteq> ''IQD'' then Some amount else None),
      le_EnteredCurrency = (if entered \<noteq> '''' \<and> entered \<noteq> ''IQD'' then entered else ''''), le_CostAtSale = None\<rparr>"

definition topup :: "(rat \<Rightarrow> rat) \<Rightarrow> gotime \<Rightarrow> string \<Rightarrow> int \<Rightarrow> string \<Rightarrow> string \<Rightarrow> Bill \<Rightarrow> BillErr + (string \<times> int) \<times> Bill" where
  "topup fl now m amount entered note db =
     (if amount \<le> 0 then Inl errValidation
      else bindE (lockBalance m db) (\<lambda>(_, db1).
           bindE (convertToIQD fl amount entered db1) (\<lambda>(iqd, rateID).
           let e = topupEntry m iqd note rateID amount entered in
           bindE (insertLedger e db1) (\<lambda>(txID, db2).
           bindE (recomputeBalance m db2) (\<lambda>(_, db3).
           bindE (postLedgerJournal now e txID 0 False ''billing.topup'' m db3) (\<lambda>(_, db4).
             Inr ((txID, iqd), db4)))))))"

end
