(* ===== verification/BillRenew.thy ===== *)
theory BillRenew
  imports BillLedger RadEnforce
begin

text \<open>
  The one renewal path (\<^verbatim>\<open>backend/internal/billing/renew.go\<close>, with \<^verbatim>\<open>pricing_v2p9.go\<close> and the renewal's invoice of
  \<^verbatim>\<open>invoices.go\<close>): price, cost and wholesale resolution, the money work inside the transaction, the idempotency key,
  and what runs after the commit: the policy cache, the quota flag and the CoA rows that bring online sessions back to full speed.
\<close>

section \<open>Prices, rates and expiry\<close>

definition resolvePrice :: "int option \<Rightarrow> int \<Rightarrow> int" where
  "resolvePrice override profilePrice = (case override of Some p \<Rightarrow> p | None \<Rightarrow> profilePrice)"

definition resolveCost :: "string \<Rightarrow> gotime \<Rightarrow> Bill \<Rightarrow> (int \<times> string) option" where
  "resolveCost profileID tm db =
     map_option (\<lambda>c. (co_Cost c, co_Currency c))
       (latest co_EffectiveFrom (filter (\<lambda>c. co_ProfileID c = profileID \<and> co_EffectiveFrom c \<le> tm) (bl_costs db)))"

definition resolveWholesale :: "string \<Rightarrow> string \<Rightarrow> string \<Rightarrow> gotime \<Rightarrow> Bill \<Rightarrow> (int \<times> string) option" where
  "resolveWholesale m profileID subscriberID tm db =
     (let mine = filter (\<lambda>r. rp_ManagerID r = m \<and> rp_ProfileID r = profileID \<and> rp_EffectiveFrom r \<le> tm) (bl_prices db);
          own = (if subscriberID = '''' then None
                 else latest rp_EffectiveFrom (filter (\<lambda>r. rp_SubscriberID r = subscriberID) mine))
      in map_option (\<lambda>r. (rp_Price r, rp_Currency r))
           (case own of Some r \<Rightarrow> Some r
            | None \<Rightarrow> latest rp_EffectiveFrom (filter (\<lambda>r. rp_SubscriberID r = '''') mine)))"

text \<open>\<^verbatim>\<open>AddDate(0, 0, n)\<close> in a location without daylight saving: \<open>n\<close> days of 24 hours.\<close>

definition addDays :: "gotime \<Rightarrow> int \<Rightarrow> gotime" where
  "addDays t n = t + n * dayLength"

definition anchorFromExpiry :: string where "anchorFromExpiry = ''from_expiry''"

definition computeExpiry :: "gotime \<Rightarrow> gotime option \<Rightarrow> string \<Rightarrow> int \<Rightarrow> gotime" where
  "computeExpiry now current anchor durationDays =
     addDays (case current of
                Some c \<Rightarrow> if anchor = anchorFromExpiry \<and> now < c then c else now
              | None \<Rightarrow> now) durationDays"

definition rateToken :: "int \<Rightarrow> string" where
  "rateToken kbps =
     (if kbps \<le> 0 then ''0''
      else if kbps mod 1024 = 0 then formatUint (nat (kbps div 1024)) @ ''M''
      else formatUint (nat kbps) @ ''k'')"

definition rateString :: "int \<Rightarrow> int \<Rightarrow> string" where
  "rateString up down = (if up \<le> 0 \<and> down \<le> 0 then '''' else rateToken up @ ''/'' @ rateToken down)"

definition resolveRate :: "string \<Rightarrow> int \<Rightarrow> int \<Rightarrow> string" where
  "resolveRate override up down = (if override \<noteq> '''' then override else rateString up down)"

section \<open>The transaction\<close>

record renewParams =
  p_subscriberID :: string
  p_profileID :: string
  p_actorManagerID :: string
  p_source :: string
  p_ledgerType :: string
  p_method :: string
  p_note :: string
  p_reference :: string
  p_chargeBalance :: bool
  p_enforceBalance :: bool
  p_idemKey :: string
  p_anchorRule :: string
  p_receiptPrefix :: string
  p_durationOverrideDays :: "int option"
  p_baseOverride :: "gotime option"

definition targetProfile :: "renewParams \<Rightarrow> subscriberRow \<Rightarrow> string" where
  "targetProfile p s = (if p_profileID p = '''' then sb_ProfileID s else p_profileID p)"

definition balanceAmountOf :: "gotime \<Rightarrow> renewParams \<Rightarrow> string \<Rightarrow> string \<Rightarrow> int \<Rightarrow> Bill \<Rightarrow> int" where
  "balanceAmountOf now p target cur price db =
     (if p_chargeBalance p
      then case resolveWholesale (p_actorManagerID p) target (p_subscriberID p) now db of
             Some (wp, wc) \<Rightarrow> if wc = cur then wp else price
           | None \<Rightarrow> price
      else price)"

definition costAtSaleOf :: "gotime \<Rightarrow> string \<Rightarrow> string \<Rightarrow> Bill \<Rightarrow> int option" where
  "costAtSaleOf now target cur db =
     (case resolveCost target now db of Some (c, cc) \<Rightarrow> if cc = cur then Some c else None | None \<Rightarrow> None)"

definition renewEntry :: "renewParams \<Rightarrow> int \<Rightarrow> int option \<Rightarrow> ledgerEntry" where
  "renewEntry p delta cost =
     \<lparr>le_Type = p_ledgerType p, le_Amount = delta, le_ActorManagerID = p_actorManagerID p,
      le_SubscriberID = p_subscriberID p, le_Source = p_source p, le_Reference = p_reference p, le_ReversesID = '''',
      le_Note = p_note p, le_CurrencyRateID = '''', le_EnteredAmount = None, le_EnteredCurrency = '''', le_CostAtSale = cost\<rparr>"

text \<open>The balance check: the locked balance, or the refusal.\<close>

definition checkBalance :: "renewParams \<Rightarrow> int \<Rightarrow> Bill \<Rightarrow> BillErr + unit \<times> Bill" where
  "checkBalance p amount db =
     (if \<not> p_chargeBalance p then Inr ((), db)
      else bindE (lockBalance (p_actorManagerID p) db) (\<lambda>(bal, db1).
           if p_enforceBalance p \<and> wrap64 (bal - amount) < - managerCreditLimit (p_actorManagerID p) db1
           then Inl errInsufficientFunds else Inr ((), db1)))"

text \<open>Ledger row, balance, journal entry and commission.\<close>

definition chargeRenewal ::
    "(rat \<Rightarrow> rat) \<Rightarrow> gotime \<Rightarrow> renewParams \<Rightarrow> int \<Rightarrow> int \<Rightarrow> int option \<Rightarrow> Bill \<Rightarrow> BillErr + string \<times> Bill" where
  "chargeRenewal fl now p price amount cost db =
     (let e = renewEntry p (if p_chargeBalance p then - amount else 0) cost in
      bindE (insertLedger e db) (\<lambda>(txID, db1).
      bindE (if p_chargeBalance p then recomputeBalance (p_actorManagerID p) db1 else Inr ((), db1)) (\<lambda>(_, db2).
      bindE (postLedgerJournal now e txID price True (''billing.'' @ p_ledgerType p) (p_actorManagerID p) db2) (\<lambda>(_, db3).
      bindE (if p_chargeBalance p \<and> p_actorManagerID p \<noteq> ''''
             then postCommission fl now (p_actorManagerID p) amount (p_source p) (p_reference p) db3
             else Inr ((), db3)) (\<lambda>(_, db4).
        Inr (txID, db4))))))"

definition newExpiryOf :: "gotime \<Rightarrow> renewParams \<Rightarrow> subscriberRow \<Rightarrow> profileRow \<Rightarrow> gotime" where
  "newExpiryOf now p s f =
     (let d = (case p_durationOverrideDays p of Some n \<Rightarrow> n | None \<Rightarrow> pf_DurationDays f)
      in case p_baseOverride p of
           Some b \<Rightarrow> addDays b d
         | None \<Rightarrow> computeExpiry now (sb_ExpiresAt s) (p_anchorRule p) d)"

definition extendSubscriber :: "gotime \<Rightarrow> string \<Rightarrow> gotime \<Rightarrow> string \<Rightarrow> Bill \<Rightarrow> Bill" where
  "extendSubscriber now sub newExpiry target db =
     db\<lparr>bl_subs := (\<lambda>x. if x = sub
          then map_option (\<lambda>s. s\<lparr>sb_ExpiresAt := Some newExpiry, sb_ProfileID := target, sb_Status := ''active'',
                 sb_QuotaAnchor := now,
                 sb_PendingProfileID := (if sb_PendingProfileID s = target then '''' else sb_PendingProfileID s),
                 sb_UptimeAnchor := Some now\<rparr>) (bl_subs db sub)
          else bl_subs db x)\<rparr>"

text \<open>A \<^verbatim>\<open>date\<close> column: the midnight (UTC) of the given time.\<close>

definition pgDate :: "gotime \<Rightarrow> gotime" where
  "pgDate t = t div dayLength * dayLength"

definition createPaidInvoiceForRenewal :: "gotime \<Rightarrow> string \<Rightarrow> int \<Rightarrow> string \<Rightarrow> string \<Rightarrow> string \<Rightarrow> Bill \<Rightarrow> Bill" where
  "createPaidInvoiceForRenewal now sub amount description journalEntryID createdBy db =
     (if amount \<le> 0 then db
      else let (i, db1) = newID db
           in db1\<lparr>bl_invoices := bl_invoices db1 @ [\<lparr>iv_ID = i, iv_No = docNo ''INV-'' (bl_invoiceSeq db1), iv_SubscriberID = sub,
                    iv_Mode = ''full'', iv_IssueDate = pgDate now, iv_DueDate = pgDate now, iv_TaxRate = 0, iv_Subtotal = amount, iv_TaxAmount = 0,
                    iv_Total = amount, iv_AmountPaid = amount, iv_Status = ''paid'', iv_Memo = '''', iv_JournalEntryID = journalEntryID,
                    iv_CreatedBy = createdBy, iv_VoidedAt = None, iv_VoidedBy = '''', iv_VoidReason = '''', iv_VoidEntryID = ''''\<rparr>],
                  bl_invoiceLines := bl_invoiceLines db1 @ [\<lparr>il_InvoiceID = i, il_Description = description, il_Category = ''subscription'',
                    il_Quantity = 1, il_UnitPrice = amount, il_Amount = amount\<rparr>],
                  bl_invoiceSeq := Suc (bl_invoiceSeq db1)\<rparr>)"

definition entryOf :: "string \<Rightarrow> Bill \<Rightarrow> string" where
  "entryOf txID db =
     (case latest je_At (filter (\<lambda>j. je_LedgerTxID j = txID) (bl_journal db)) of Some j \<Rightarrow> je_ID j | None \<Rightarrow> '''')"

definition renewInTx :: "(rat \<Rightarrow> rat) \<Rightarrow> gotime \<Rightarrow> renewParams \<Rightarrow> Bill \<Rightarrow> BillErr + renewResult \<times> Bill" where
  "renewInTx fl now p db =
     (case bl_subs db (p_subscriberID p) of
        None \<Rightarrow> Inl errNoSubscriber
      | Some s \<Rightarrow>
          (let target = targetProfile p s in
           if target = '''' then Inl errNoProfile
           else case bl_profiles db target of
             None \<Rightarrow> Inl errNoProfile
           | Some f \<Rightarrow>
               (if pf_Archived f then Inl errProfileArchived
                else let price = resolvePrice (sb_PriceOverride s) (pf_Price f);
                         cost = costAtSaleOf now target (pf_Currency f) db;
                         amount = balanceAmountOf now p target (pf_Currency f) price db;
                         newExpiry = newExpiryOf now p s f
                  in bindE (checkBalance p amount db) (\<lambda>(_, db1).
                     bindE (chargeRenewal fl now p price amount cost db1) (\<lambda>(txID, db2).
                     let db3 = extendSubscriber now (p_subscriberID p) newExpiry target db2;
                         (receiptNo, db4) = nextReceiptNo (p_receiptPrefix p) db3;
                         db5 = insertPayment \<lparr>pm_ReceiptNo = receiptNo, pm_LedgerTxID = txID, pm_SubscriberID = p_subscriberID p,
                                 pm_Amount = price, pm_Currency = pf_Currency f, pm_Method = p_method p, pm_Source = p_source p\<rparr> db4;
                         db6 = (if 0 < price \<and> pf_Currency f = ''IQD''
                                then createPaidInvoiceForRenewal now (p_subscriberID p) price ''Subscription renewal'' (entryOf txID db5) (p_actorManagerID p) db5
                                else db5)
                     in Inr (\<lparr>rr_LedgerTxID = txID, rr_ReceiptNo = receiptNo, rr_NewExpiresAt = newExpiry, rr_CoAResult = '''',
                              rr_Currency = pf_Currency f, rr_price = price,
                              rr_rate = resolveRate (sb_RateOverride s) (pf_RateUpKbps f) (pf_RateDownKbps f),
                              rr_poolName = pf_PoolName f\<rparr>, db6))))))"

text \<open>
  How a transaction ends: committed; rolled back because a statement or the commit failed; or committed although
  the reply to the commit was lost, so that the caller sees an error.
\<close>

datatype txEnd = Committed | RolledBack | CommitUnseen

definition endTx :: "txEnd \<Rightarrow> BillErr + 'a \<times> 'db \<Rightarrow> 'db \<Rightarrow> (BillErr + 'a) \<times> 'db" where
  "endTx tend r db =
     (case r of
        Inl e \<Rightarrow> (Inl e, db)
      | Inr (x, db1) \<Rightarrow>
          (case tend of Committed \<Rightarrow> (Inr x, db1) | RolledBack \<Rightarrow> (Inl errDB, db) | CommitUnseen \<Rightarrow> (Inl errDB, db1)))"

text \<open>What the JSON response keeps of a result, and what a missing response reads as.\<close>

definition serialized :: "renewResult \<Rightarrow> renewResult" where
  "serialized r = r\<lparr>rr_price := 0, rr_rate := '''', rr_poolName := ''''\<rparr>"

definition emptyResult :: renewResult where
  "emptyResult = \<lparr>rr_LedgerTxID = '''', rr_ReceiptNo = '''', rr_NewExpiresAt = zeroTime, rr_CoAResult = '''', rr_Currency = '''',
     rr_price = 0, rr_rate = '''', rr_poolName = ''''\<rparr>"

definition readIdempotent :: "string \<Rightarrow> Bill \<Rightarrow> renewResult" where
  "readIdempotent key db = (case map_of (bl_idem db) key of Some (Some r) \<Rightarrow> r | _ \<Rightarrow> emptyResult)"

definition renewTx :: "(rat \<Rightarrow> rat) \<Rightarrow> txEnd \<Rightarrow> gotime \<Rightarrow> renewParams \<Rightarrow> Bill \<Rightarrow> (BillErr + renewResult \<times> bool) \<times> Bill" where
  "renewTx fl tend now p db =
     (if p_idemKey p \<noteq> '''' \<and> p_idemKey p \<in> fst ` set (bl_idem db)
      then (Inr (readIdempotent (p_idemKey p) db, True), db)
      else endTx tend (bindE (renewInTx fl now p db) (\<lambda>(res, db1).
             Inr ((res, False), if p_idemKey p = '''' then db1
                  else db1\<lparr>bl_idem := bl_idem db1 @ [(p_idemKey p, Some (serialized res))]\<rparr>))) db)"

section \<open>After the commit\<close>

record RenewWorld =
  rw_bill :: Bill
  rw_rad :: RadState
  rw_outbox :: Outbox

record RenewEnv =
  rv_fl :: "rat \<Rightarrow> rat"
  rv_end :: txEnd
  rv_now :: gotime
  rv_redisUp :: bool
  rv_sessions :: "State list option"
  rv_enqueueFails :: "SessionRef \<Rightarrow> bool"

definition resetQuota :: "bool \<Rightarrow> string \<Rightarrow> RadState \<Rightarrow> RadState" where
  "resetQuota redisUp sub rad = (if redisUp then rad\<lparr>rd_quota := (rd_quota rad)(sub := False)\<rparr> else rad)"

definition restoreAttrs :: "string \<Rightarrow> string \<Rightarrow> Attr list" where
  "restoreAttrs rate poolName =
     (if poolName \<noteq> '''' then [(IntentAddressPool, poolName)] else []) @ (if rate \<noteq> '''' then [(IntentRateLimit, rate)] else [])"

fun enqueueUpdates ::
    "(SessionRef \<Rightarrow> bool) \<Rightarrow> gotime \<Rightarrow> Attr list \<Rightarrow> string \<Rightarrow> string \<Rightarrow> SessionRef list \<Rightarrow> Outbox \<Rightarrow> string \<times> Outbox" where
  "enqueueUpdates fails now attrs reason sub [] ob = (''enqueued'', ob)"
| "enqueueUpdates fails now attrs reason sub (r # rs) ob =
     (case Enqueue (fails r) now r CoAActionUpdate attrs reason sub ob of
        None \<Rightarrow> (''failed'', ob)
      | Some ob1 \<Rightarrow> enqueueUpdates fails now attrs reason sub rs ob1)"

definition restoreCoA ::
    "State list option \<Rightarrow> (SessionRef \<Rightarrow> bool) \<Rightarrow> gotime \<Rightarrow> string \<Rightarrow> string \<Rightarrow> string \<Rightarrow> Outbox \<Rightarrow> string \<times> Outbox" where
  "restoreCoA sessions fails now sub rate poolName ob =
     (case sessions of
        None \<Rightarrow> (''not_online'', ob)
      | Some all1 \<Rightarrow>
          (let refs = liveSessionRefs all1 sub; attrs = restoreAttrs rate poolName in
           if refs = [] \<or> attrs = [] then (''not_online'', ob)
           else enqueueUpdates fails now attrs ''billing.renew_restore'' sub refs ob))"

definition afterRenewal :: "RenewEnv \<Rightarrow> string \<Rightarrow> renewResult \<Rightarrow> RenewWorld \<Rightarrow> renewResult \<times> RenewWorld" where
  "afterRenewal rv sub res w =
     (let rad1 = InvalidatePolicy (rv_redisUp rv) (rv_now rv) sub (rw_rad w);
          rad2 = resetQuota (rv_redisUp rv) sub rad1;
          (coa, ob) = restoreCoA (rv_sessions rv) (rv_enqueueFails rv) (rv_now rv) sub (rr_rate res) (rr_poolName res) (rw_outbox w)
      in (res\<lparr>rr_CoAResult := coa\<rparr>, w\<lparr>rw_rad := rad2, rw_outbox := ob\<rparr>))"

definition renew :: "RenewEnv \<Rightarrow> renewParams \<Rightarrow> RenewWorld \<Rightarrow> (BillErr + renewResult) \<times> RenewWorld" where
  "renew rv p w =
     (case renewTx (rv_fl rv) (rv_end rv) (rv_now rv) p (rw_bill w) of
        (Inl e, db) \<Rightarrow> (Inl e, w\<lparr>rw_bill := db\<rparr>)
      | (Inr (res, True), db) \<Rightarrow> (Inr res, w\<lparr>rw_bill := db\<rparr>)
      | (Inr (res, False), db) \<Rightarrow>
          (let (res1, w1) = afterRenewal rv (p_subscriberID p) res (w\<lparr>rw_bill := db\<rparr>) in (Inr res1, w1)))"

end
