(* ===== verification/BillReverse.thy ===== *)
theory BillReverse
  imports BillRenew
begin

text \<open>
  Reversals: the refund of a renewal (\<^verbatim>\<open>backend/internal/billing/refund.go\<close>) and the five-minute undo of renewals and top-ups
  (\<^verbatim>\<open>undo.go\<close>). Both append reversing rows; nothing is ever deleted.
\<close>

section \<open>Refund\<close>

definition rollbackExpiry :: "gotime \<Rightarrow> gotime option \<Rightarrow> int \<Rightarrow> gotime" where
  "rollbackExpiry now current durationDays =
     (case current of
        None \<Rightarrow> now
      | Some c \<Rightarrow> (let rolled = addDays c (- durationDays) in if rolled < now then now else rolled))"

definition findRow :: "string \<Rightarrow> Bill \<Rightarrow> ledgerRow option" where
  "findRow txID db = find (\<lambda>r. lr_ID r = txID) (bl_ledger db)"

definition grossOf :: "string \<Rightarrow> Bill \<Rightarrow> int" where
  "grossOf txID db = (case find (\<lambda>p. pm_LedgerTxID p = txID) (bl_payments db) of Some p \<Rightarrow> pm_Amount p | None \<Rightarrow> 0)"

definition refundEntry :: "ledgerRow \<Rightarrow> string \<Rightarrow> int \<Rightarrow> string \<Rightarrow> string \<Rightarrow> string \<Rightarrow> ledgerEntry" where
  "refundEntry r sub refundAmount rateID reason source =
     (let o1 = lr_Entry r; foreign = (lr_Currency r \<noteq> '''' \<and> lr_Currency r \<noteq> ''IQD'') in
      \<lparr>le_Type = ''refund'', le_Amount = refundAmount, le_ActorManagerID = le_ActorManagerID o1, le_SubscriberID = sub,
       le_Source = source, le_Reference = '''', le_ReversesID = lr_ID r, le_Note = reason, le_CurrencyRateID = rateID,
       le_EnteredAmount = (if foreign then Some (- le_Amount o1) else None),
       le_EnteredCurrency = (if foreign then lr_Currency r else ''''),
       le_CostAtSale = map_option uminus (le_CostAtSale o1)\<rparr>)"

text \<open>An index violation of the insert is the second refund of the same row.\<close>

definition asAlreadyRefunded :: "BillErr \<Rightarrow> BillErr + 'a \<Rightarrow> BillErr + 'a" where
  "asAlreadyRefunded e r = (case r of Inl errUniqueViolation \<Rightarrow> Inl e | _ \<Rightarrow> r)"

text \<open>The payment's conversion may find no rate; its amount is then zero.\<close>

definition grossToIQD :: "(rat \<Rightarrow> rat) \<Rightarrow> int \<Rightarrow> string \<Rightarrow> Bill \<Rightarrow> BillErr + int \<times> string" where
  "grossToIQD fl gross cur db = (case signedToIQD fl gross cur db of Inl errNoRate \<Rightarrow> Inr (0, '''') | r \<Rightarrow> r)"

text \<open>The expiry and the status after the rollback.\<close>

definition rollbackSubscriber :: "gotime \<Rightarrow> string \<Rightarrow> gotime \<Rightarrow> Bill \<Rightarrow> Bill" where
  "rollbackSubscriber now sub newExpiry db =
     db\<lparr>bl_subs := (\<lambda>x. if x = sub
          then map_option (\<lambda>s. s\<lparr>sb_ExpiresAt := Some newExpiry,
                 sb_Status := (if newExpiry \<le> now then ''expired'' else ''active'')\<rparr>) (bl_subs db sub)
          else bl_subs db x)\<rparr>"

text \<open>The days and the behaviour of the subscriber's current profile, with the defaults of the query.\<close>

definition grantedDays :: "subscriberRow \<Rightarrow> Bill \<Rightarrow> int" where
  "grantedDays s db = (case bl_profiles db (sb_ProfileID s) of Some f \<Rightarrow> pf_DurationDays f | None \<Rightarrow> 0)"

definition behaviorAfter :: "subscriberRow \<Rightarrow> Bill \<Rightarrow> string" where
  "behaviorAfter s db = (case bl_profiles db (sb_ProfileID s) of Some f \<Rightarrow> pf_ExpiryBehavior f | None \<Rightarrow> ''block'')"

text \<open>Receipt, negative payment and rollback of a refund.\<close>

definition recordRefund :: "gotime \<Rightarrow> string \<Rightarrow> string \<Rightarrow> string \<Rightarrow> int \<Rightarrow> string \<Rightarrow> gotime \<Rightarrow> Bill \<Rightarrow> Bill" where
  "recordRefund now prefix sub refundID gross source newExpiry db =
     (let (receiptNo, db1) = nextReceiptNo prefix db;
          db2 = insertPayment \<lparr>pm_ReceiptNo = receiptNo, pm_LedgerTxID = refundID, pm_SubscriberID = sub,
                  pm_Amount = gross, pm_Currency = ''IQD'', pm_Method = ''refund'', pm_Source = source\<rparr> db1
      in rollbackSubscriber now sub newExpiry db2)"

definition lockActor :: "string \<Rightarrow> Bill \<Rightarrow> BillErr + unit \<times> Bill" where
  "lockActor actor db = (if actor = '''' then Inr ((), db) else bindE (lockBalance actor db) (\<lambda>(_, db1). Inr ((), db1)))"

definition recomputeActor :: "string \<Rightarrow> Bill \<Rightarrow> BillErr + unit \<times> Bill" where
  "recomputeActor actor db = (if actor = '''' then Inr ((), db) else recomputeBalance actor db)"

text \<open>
  The transaction. The result carries what the steps after the commit need.
\<close>

definition refundInTx ::
    "(rat \<Rightarrow> rat) \<Rightarrow> gotime \<Rightarrow> string \<Rightarrow> string \<Rightarrow> string \<Rightarrow> string \<Rightarrow> string \<Rightarrow> string \<Rightarrow> Bill \<Rightarrow>
     BillErr + (string \<times> gotime \<times> string) \<times> Bill" where
  "refundInTx fl now prefix sub txID reason source journalSource db =
     (case findRow txID db of
        None \<Rightarrow> Inl errTxNotFound
      | Some r \<Rightarrow>
          (if le_SubscriberID (lr_Entry r) = '''' \<or> le_SubscriberID (lr_Entry r) \<noteq> sub then Inl errTxMismatch
           else if le_Type (lr_Entry r) = ''refund'' then Inl errNotRefundable
           else case bl_subs db sub of
             None \<Rightarrow> Inl errDB
           | Some s \<Rightarrow>
               (let actor = le_ActorManagerID (lr_Entry r)
                in bindE (lockActor actor db) (\<lambda>(_, db1).
                   bindE (signedToIQD fl (- le_Amount (lr_Entry r)) (lr_Currency r) db1) (\<lambda>(refundAmount, rateID).
                   bindE (grossToIQD fl (- grossOf txID db) (lr_Currency r) db1) (\<lambda>(refundGross, _).
                   let e = refundEntry r sub refundAmount rateID reason source in
                   bindE (asAlreadyRefunded errAlreadyRefunded (insertLedger e db1)) (\<lambda>(refundID, db2).
                   bindE (recomputeActor actor db2) (\<lambda>(_, db3).
                   bindE (postLedgerJournal now e refundID refundGross True journalSource actor db3) (\<lambda>(_, db4).
                   let newExpiry = rollbackExpiry now (sb_ExpiresAt s) (grantedDays s db)
                   in Inr ((refundID, newExpiry, behaviorAfter s db),
                           recordRefund now prefix sub refundID refundGross source newExpiry db4))))))))))"

fun enforceExpiredLoop ::
    "(SessionRef \<Rightarrow> bool) \<Rightarrow> gotime \<Rightarrow> bool \<Rightarrow> string \<Rightarrow> string \<Rightarrow> SessionRef list \<Rightarrow> Outbox \<Rightarrow> string \<times> Outbox" where
  "enforceExpiredLoop fails now toPool pool sub [] ob = (''enqueued'', ob)"
| "enforceExpiredLoop fails now toPool pool sub (r # rs) ob =
     (case (if toPool
            then Enqueue (fails r) now r CoAActionUpdate [(IntentAddressPool, pool)] ''billing.refund_rollback_expired'' sub ob
            else Enqueue (fails r) now r CoAActionDisconnect [] ''billing.refund_rollback_expired'' sub ob) of
        None \<Rightarrow> (''failed'', ob)
      | Some ob1 \<Rightarrow> enforceExpiredLoop fails now toPool pool sub rs ob1)"

definition enforceExpiredCoA ::
    "State list option \<Rightarrow> (SessionRef \<Rightarrow> bool) \<Rightarrow> gotime \<Rightarrow> string \<Rightarrow> string \<Rightarrow> string \<Rightarrow> Outbox \<Rightarrow> string \<times> Outbox" where
  "enforceExpiredCoA sessions fails now sub behavior pool ob =
     (case sessions of
        None \<Rightarrow> (''not_online'', ob)
      | Some all1 \<Rightarrow>
          (let refs = liveSessionRefs all1 sub in
           if refs = [] then (''not_online'', ob)
           else enforceExpiredLoop fails now (behavior = ''expired_pool'' \<and> pool \<noteq> '''') pool sub refs ob))"

record refundCoreResult =
  rc_RefundLedgerTxID :: string
  rc_NewExpiresAt :: gotime
  rc_CoAResult :: string

definition refundCore ::
    "RenewEnv \<Rightarrow> string \<Rightarrow> string \<Rightarrow> string \<Rightarrow> string \<Rightarrow> string \<Rightarrow> string \<Rightarrow> RenewWorld \<Rightarrow>
     (BillErr + refundCoreResult) \<times> RenewWorld" where
  "refundCore rv prefix sub txID reason source journalSource w =
     (case endTx (rv_end rv) (refundInTx (rv_fl rv) (rv_now rv) prefix sub txID reason source journalSource (rw_bill w)) (rw_bill w) of
        (Inl e, db) \<Rightarrow> (Inl e, w\<lparr>rw_bill := db\<rparr>)
      | (Inr (refundID, newExpiry, behavior), db) \<Rightarrow>
          (let rad = InvalidatePolicy (rv_redisUp rv) (rv_now rv) sub (rw_rad w);
               (coa, ob) = (if newExpiry \<le> rv_now rv
                            then enforceExpiredCoA (rv_sessions rv) (rv_enqueueFails rv) (rv_now rv) sub behavior
                                   (bl_expiredPool (rw_bill w)) (rw_outbox w)
                            else (''not_applicable'', rw_outbox w))
           in (Inr \<lparr>rc_RefundLedgerTxID = refundID, rc_NewExpiresAt = newExpiry, rc_CoAResult = coa\<rparr>,
               w\<lparr>rw_bill := db, rw_rad := rad, rw_outbox := ob\<rparr>)))"

section \<open>Undo\<close>

definition undoWindow :: duration where "undoWindow = 5 * minute"

definition recordUndo ::
    "gotime \<Rightarrow> string \<Rightarrow> string \<Rightarrow> string \<Rightarrow> string \<Rightarrow> gotime \<Rightarrow> string \<Rightarrow> int \<Rightarrow> string \<Rightarrow> Bill \<Rightarrow> string \<times> Bill" where
  "recordUndo now kind entity actor txID snapExpires snapManager snapAmount undoOf db =
     (let (i, db1) = newID db
      in (i, db1\<lparr>bl_undo := bl_undo db1 @ [\<lparr>un_ID = i, un_Kind = kind, un_EntityID = entity, un_Actor = actor, un_LedgerTxID = txID,
                un_SnapExpires = snapExpires, un_SnapManager = snapManager, un_SnapAmount = snapAmount,
                un_ExpiresAt = now + undoWindow, un_Undone = False, un_ReversalTxID = '''', un_UndoOf = undoOf\<rparr>]\<rparr>))"

definition undoTopupEntry :: "string \<Rightarrow> string \<Rightarrow> int \<Rightarrow> ledgerEntry" where
  "undoTopupEntry txID m amount =
     \<lparr>le_Type = ''topup'', le_Amount = - amount, le_ActorManagerID = m, le_SubscriberID = '''', le_Source = ''undo'',
      le_Reference = txID, le_ReversesID = txID, le_Note = ''undo: top-up'', le_CurrencyRateID = '''', le_EnteredAmount = None,
      le_EnteredCurrency = '''', le_CostAtSale = None\<rparr>"

definition undoTopupCore :: "gotime \<Rightarrow> string \<Rightarrow> string \<Rightarrow> int \<Rightarrow> string \<Rightarrow> Bill \<Rightarrow> BillErr + string \<times> Bill" where
  "undoTopupCore now txID m amount actor db =
     (let e = undoTopupEntry txID m amount in
      bindE (lockBalance m db) (\<lambda>(_, db1).
      bindE (asAlreadyRefunded errUndoAlreadyDone (insertLedger e db1)) (\<lambda>(revID, db2).
      bindE (recomputeBalance m db2) (\<lambda>(_, db3).
      bindE (postLedgerJournal now e revID 0 False ''billing.undo'' actor db3) (\<lambda>(_, db4).
        Inr (revID, db4))))))"

definition markUndone :: "string \<Rightarrow> string \<Rightarrow> Bill \<Rightarrow> Bill" where
  "markUndone undoID revID db =
     db\<lparr>bl_undo := map (\<lambda>u. if un_ID u = undoID then u\<lparr>un_Undone := True, un_ReversalTxID := revID\<rparr> else u) (bl_undo db)\<rparr>"

text \<open>The reversal of an undo row, by its kind.\<close>

definition reverseAction :: "RenewEnv \<Rightarrow> string \<Rightarrow> undoRow \<Rightarrow> string \<Rightarrow> RenewWorld \<Rightarrow> (BillErr + string) \<times> RenewWorld" where
  "reverseAction rv prefix u actor w =
     (if un_Kind u = ''renewal'' then
        (case bl_subs (rw_bill w) (un_EntityID u) of
           None \<Rightarrow> (Inl errUndoRecordGone, w)
         | Some s \<Rightarrow>
             (case sb_ExpiresAt s of
                None \<Rightarrow> (Inl errDB, w)
              | Some x \<Rightarrow>
                  (if x \<noteq> un_SnapExpires u then (Inl errUndoChanged, w)
                   else case refundCore rv prefix (un_EntityID u) (un_LedgerTxID u) ''undo'' ''undo'' ''billing.undo'' w of
                          (Inl e, w1) \<Rightarrow> (Inl e, w1)
                        | (Inr res, w1) \<Rightarrow> (Inr (rc_RefundLedgerTxID res), w1))))
      else if un_Kind u = ''topup'' then
        (if bl_managers (rw_bill w) (un_SnapManager u) = None then (Inl errUndoRecordGone, w)
         else case endTx (rv_end rv) (undoTopupCore (rv_now rv) (un_LedgerTxID u) (un_SnapManager u) (un_SnapAmount u) actor (rw_bill w)) (rw_bill w) of
                (r, db) \<Rightarrow> (r, w\<lparr>rw_bill := db\<rparr>))
      else (Inl errUnknownKind, w))"

text \<open>
  \<open>late\<close> says that the statements after the reversal's commit fail, so that the row is not marked as undone.
\<close>

definition performUndo :: "RenewEnv \<Rightarrow> bool \<Rightarrow> string \<Rightarrow> string \<Rightarrow> string \<Rightarrow> RenewWorld \<Rightarrow> (BillErr + string \<times> string) \<times> RenewWorld" where
  "performUndo rv late prefix undoID actor w =
     (case find (\<lambda>u. un_ID u = undoID) (bl_undo (rw_bill w)) of
        None \<Rightarrow> (Inl errUndoNotFound, w)
      | Some u \<Rightarrow>
          (if un_Undone u then (Inl errUndoAlreadyDone, w)
           else if un_ExpiresAt u < rv_now rv then (Inl errUndoExpired, w)
           else case reverseAction rv prefix u actor w of
             (Inl e, w1) \<Rightarrow> (Inl e, w1)
           | (Inr revID, w1) \<Rightarrow>
               (if late then (Inl errDB, w1)
                else let db1 = markUndone undoID revID (rw_bill w1);
                         (redoID, db2) = recordUndo (rv_now rv) ''undo_reversal'' (un_EntityID u) actor revID 0 '''' 0 undoID db1
                     in (Inr (revID, redoID), w1\<lparr>rw_bill := db2\<rparr>))))"

end
