(* ===== verification/BillVoucher.thy ===== *)
theory BillVoucher
  imports BillRenew
begin

text \<open>
  Vouchers (\<^verbatim>\<open>backend/internal/billing/voucher.go\<close>, \<^verbatim>\<open>voucher_api.go\<close>): batches that are paid for when they are generated, single-use
  redemption through the renewal path, and the credit for unused codes when a batch is voided; and the batch invoice of
  \<^verbatim>\<open>batch_invoice.go\<close>.

  SHA-256 is the argument \<open>sha\<close>; the random indexes into the alphabet are arguments.
\<close>

section \<open>Codes\<close>

definition voucherAlphabet :: string where "voucherAlphabet = ''23456789ABCDEFGHJKLMNPQRSTUVWXYZ''"

definition minCodeLen :: int where "minCodeLen = 10"

definition randomPartLen :: "string \<Rightarrow> int \<Rightarrow> nat" where
  "randomPartLen prefix codeLen =
     (let t = (if codeLen \<le> 0 then minCodeLen else codeLen); n = t - int (length prefix)
      in if n < 8 then 8 else nat n)"

text \<open>\<open>rnd i\<close> is the \<open>i\<close>-th random number, below the size of the alphabet.\<close>

definition genCode :: "(nat \<Rightarrow> nat) \<Rightarrow> string \<Rightarrow> int \<Rightarrow> string" where
  "genCode rnd prefix codeLen =
     (let pre = toUpper prefix
      in pre @ map (\<lambda>i. voucherAlphabet ! (rnd i mod length voucherAlphabet)) [0..<randomPartLen pre codeLen])"

definition alnumChar :: "char \<Rightarrow> bool" where
  "alnumChar c \<longleftrightarrow> (let n = of_char c :: nat in (65 \<le> n \<and> n \<le> 90) \<or> (48 \<le> n \<and> n \<le> 57))"

definition normalizeCode :: "string \<Rightarrow> string" where
  "normalizeCode code = filter alnumChar (toUpper code)"

definition hashCode :: "(string \<Rightarrow> string) \<Rightarrow> string \<Rightarrow> string" where
  "hashCode sha code = sha (normalizeCode code)"

definition legacyHashCode :: "(string \<Rightarrow> string) \<Rightarrow> string \<Rightarrow> string" where
  "legacyHashCode sha code = sha (toUpper (trimSpace code))"

section \<open>Generation\<close>

record batchInput =
  bi_ProfileID :: string
  bi_Prefix :: string
  bi_Count :: int
  bi_ExpiresAt :: "gotime option"
  bi_CodeLength :: int

text \<open>The statement \<^verbatim>\<open>INSERT .. ON CONFLICT DO NOTHING RETURNING\<close> for one code.\<close>

definition insertCode :: "(string \<Rightarrow> string) \<Rightarrow> string \<Rightarrow> string \<Rightarrow> Bill \<Rightarrow> bool \<times> Bill" where
  "insertCode sha batchID c db =
     (if list_ex (\<lambda>v. vo_CodeHash v = hashCode sha c) (bl_vouchers db) then (False, db)
      else let (i, db1) = newID db
           in (True, db1\<lparr>bl_vouchers := bl_vouchers db1 @ [\<lparr>vo_ID = i, vo_BatchID = batchID, vo_CodeHash = hashCode sha c,
                 vo_State = ''unused'', vo_UsedFor = '''', vo_LedgerTxID = ''''\<rparr>]\<rparr>))"

fun insertAll :: "(string \<Rightarrow> string) \<Rightarrow> string \<Rightarrow> string list \<Rightarrow> Bill \<Rightarrow> string list \<times> Bill" where
  "insertAll sha batchID [] db = ([], db)"
| "insertAll sha batchID (c # cs) db =
     (let (ok, db1) = insertCode sha batchID c db; (plain, db2) = insertAll sha batchID cs db1
      in (if ok then c # plain else plain, db2))"

text \<open>
  The inner loop draws codes until \<open>need\<close> of them have different hashes. The random numbers are a list, one stream per drawn
  code; \<open>None\<close> means that the loop has not ended on them.
\<close>

fun drawLoop :: "(string \<Rightarrow> string) \<Rightarrow> nat \<Rightarrow> string list \<Rightarrow> string list \<Rightarrow> string list option" where
  "drawLoop sha need codes [] = (if length codes < need then None else Some codes)"
| "drawLoop sha need codes (c # cs) =
     (if length codes < need
      then drawLoop sha need (if hashCode sha c \<in> hashCode sha ` set codes then codes else codes @ [c]) cs
      else Some codes)"

fun insertCodes ::
    "(string \<Rightarrow> string) \<Rightarrow> (nat \<Rightarrow> (nat \<Rightarrow> nat) list) \<Rightarrow> string \<Rightarrow> string \<Rightarrow> int \<Rightarrow> nat \<Rightarrow> nat \<Rightarrow> nat \<Rightarrow> string list \<Rightarrow> Bill \<Rightarrow>
     BillErr + string list \<times> Bill" where
  "insertCodes sha rnds batchID prefix codeLen want 0 k plain db =
     (if length plain < want then Inl errNotEnoughCodes else Inr (plain, db))"
| "insertCodes sha rnds batchID prefix codeLen want (Suc left) k plain db =
     (if length plain < want
      then case drawLoop sha (want - length plain) [] (map (\<lambda>rnd. genCode rnd prefix codeLen) (rnds k)) of
             None \<Rightarrow> Inl errDiverges
           | Some codes \<Rightarrow>
               (let (more, db1) = insertAll sha batchID codes db
                in insertCodes sha rnds batchID prefix codeLen want left (Suc k) (plain @ more) db1)
      else Inr (plain, db))"

definition voucherEntry :: "string \<Rightarrow> int \<Rightarrow> string \<Rightarrow> string \<Rightarrow> ledgerEntry" where
  "voucherEntry m amount reference note =
     \<lparr>le_Type = ''adjustment'', le_Amount = amount, le_ActorManagerID = m, le_SubscriberID = '''', le_Source = ''voucher'',
      le_Reference = reference, le_ReversesID = '''', le_Note = note, le_CurrencyRateID = '''', le_EnteredAmount = None,
      le_EnteredCurrency = '''', le_CostAtSale = None\<rparr>"

text \<open>Lock, check, ledger row and balance of a creator's charge.\<close>

definition chargeCreator :: "string \<Rightarrow> bool \<Rightarrow> int \<Rightarrow> ledgerEntry \<Rightarrow> Bill \<Rightarrow> BillErr + string \<times> Bill" where
  "chargeCreator m enforce charge e db =
     bindE (if m = '''' then Inr ((), db)
            else bindE (lockBalance m db) (\<lambda>(bal, db1). if enforce \<and> bal < charge then Inl errInsufficientFunds else Inr ((), db1)))
       (\<lambda>(_, db1).
     bindE (insertLedger e db1) (\<lambda>(txID, db2).
     bindE (if m = '''' then Inr ((), db2) else recomputeBalance m db2) (\<lambda>(_, db3). Inr (txID, db3))))"

definition generateBatch ::
    "(string \<Rightarrow> string) \<Rightarrow> (nat \<Rightarrow> (nat \<Rightarrow> nat) list) \<Rightarrow> batchInput \<Rightarrow> string \<Rightarrow> bool \<Rightarrow> Bill \<Rightarrow> BillErr + (string \<times> string list) \<times> Bill" where
  "generateBatch sha rnds b creator enforce db =
     (case bl_profiles db (bi_ProfileID b) of
        None \<Rightarrow> Inl errNoProfile
      | Some f \<Rightarrow>
          (if pf_Archived f then Inl errProfileArchived
           else let charge = wrap64 (pf_Price f * bi_Count b) in
             bindE (chargeCreator creator enforce charge (voucherEntry creator (- charge) '''' ''voucher batch generation'') db)
               (\<lambda>(genTx, db1).
             let (batchID, db2) = newID db1;
                 db3 = db2\<lparr>bl_batches := bl_batches db2 @ [\<lparr>ba_ID = batchID, ba_ProfileID = bi_ProfileID b, ba_Prefix = toUpper (bi_Prefix b),
                         ba_Count = bi_Count b, ba_UnitPrice = pf_Price f, ba_Currency = pf_Currency f, ba_Creator = creator,
                         ba_ExpiresAt = bi_ExpiresAt b, ba_GenTx = genTx, ba_State = ''active'', ba_VoidTx = ''''\<rparr>]\<rparr>
             in bindE (insertCodes sha rnds batchID (bi_Prefix b) (bi_CodeLength b) (nat (bi_Count b)) 5 0 [] db3) (\<lambda>(plain, db4). Inr ((batchID, plain), db4)))))"

section \<open>Redemption\<close>

datatype redeemOutcome = redeemOK | redeemInvalid | redeemUsed | redeemExpired | redeemBatchVoid

definition redeemParams :: "string \<Rightarrow> string \<Rightarrow> string \<Rightarrow> string \<Rightarrow> string \<Rightarrow> string \<Rightarrow> renewParams" where
  "redeemParams sub redeemer profileID voucherID anchor prefix =
     \<lparr>p_subscriberID = sub, p_profileID = profileID, p_actorManagerID = redeemer, p_source = ''voucher'',
      p_ledgerType = ''voucher_redeem'', p_method = ''voucher_redeem'', p_note = ''voucher redemption'', p_reference = voucherID,
      p_chargeBalance = False, p_enforceBalance = False, p_idemKey = '''', p_anchorRule = anchor, p_receiptPrefix = prefix,
      p_durationOverrideDays = None, p_baseOverride = None\<rparr>"

definition findVoucher :: "(string \<Rightarrow> string) \<Rightarrow> string \<Rightarrow> Bill \<Rightarrow> (voucherRow \<times> batchRow) option" where
  "findVoucher sha code db =
     (case find (\<lambda>v. vo_CodeHash v = hashCode sha code \<or> vo_CodeHash v = legacyHashCode sha code) (bl_vouchers db) of
        None \<Rightarrow> None
      | Some v \<Rightarrow> map_option (\<lambda>b. (v, b)) (find (\<lambda>b. ba_ID b = vo_BatchID v) (bl_batches db)))"

definition markUsed :: "string \<Rightarrow> string \<Rightarrow> string \<Rightarrow> Bill \<Rightarrow> Bill" where
  "markUsed voucherID sub txID db =
     db\<lparr>bl_vouchers := map (\<lambda>v. if vo_ID v = voucherID then v\<lparr>vo_State := ''used'', vo_UsedFor := sub, vo_LedgerTxID := txID\<rparr> else v)
          (bl_vouchers db)\<rparr>"

definition redeemInTx ::
    "(rat \<Rightarrow> rat) \<Rightarrow> (string \<Rightarrow> string) \<Rightarrow> gotime \<Rightarrow> string \<Rightarrow> string \<Rightarrow> string \<Rightarrow> string \<Rightarrow> string \<Rightarrow> Bill \<Rightarrow>
     BillErr + (renewResult option \<times> redeemOutcome) \<times> Bill" where
  "redeemInTx fl sha now anchor prefix code sub redeemer db =
     (case findVoucher sha code db of
        None \<Rightarrow> Inr ((None, redeemInvalid), db)
      | Some (v, b) \<Rightarrow>
          (if ba_State b = ''void'' \<or> vo_State v = ''void'' then Inr ((None, redeemBatchVoid), db)
           else if vo_State v = ''used'' then Inr ((None, redeemUsed), db)
           else if (case ba_ExpiresAt b of Some x \<Rightarrow> x \<le> now | None \<Rightarrow> False) then Inr ((None, redeemExpired), db)
           else bindE (renewInTx fl now (redeemParams sub redeemer (ba_ProfileID b) (vo_ID v) anchor prefix) db) (\<lambda>(res, db1).
                Inr ((Some res, redeemOK), markUsed (vo_ID v) sub (rr_LedgerTxID res) db1))))"

definition redeemVoucher ::
    "RenewEnv \<Rightarrow> (string \<Rightarrow> string) \<Rightarrow> string \<Rightarrow> string \<Rightarrow> string \<Rightarrow> string \<Rightarrow> string \<Rightarrow> RenewWorld \<Rightarrow>
     (BillErr + renewResult option \<times> redeemOutcome) \<times> RenewWorld" where
  "redeemVoucher rv sha anchor prefix code sub redeemer w =
     (case endTx (rv_end rv) (redeemInTx (rv_fl rv) sha (rv_now rv) anchor prefix code sub redeemer (rw_bill w)) (rw_bill w) of
        (Inl e, db) \<Rightarrow> (Inl e, w\<lparr>rw_bill := db\<rparr>)
      | (Inr (None, oc), db) \<Rightarrow> (Inr (None, oc), w\<lparr>rw_bill := db\<rparr>)
      | (Inr (Some res, oc), db) \<Rightarrow>
          (let (res1, w1) = afterRenewal rv sub res (w\<lparr>rw_bill := db\<rparr>) in (Inr (Some res1, oc), w1)))"

section \<open>Voiding a batch\<close>

definition voidBatch :: "string \<Rightarrow> Bill \<Rightarrow> BillErr + (nat \<times> int) \<times> Bill" where
  "voidBatch batchID db =
     (case find (\<lambda>b. ba_ID b = batchID) (bl_batches db) of
        None \<Rightarrow> Inl errNotFound
      | Some b \<Rightarrow>
          (if ba_State b = ''void'' then Inl errAlreadyVoid
           else let hit = (\<lambda>v. vo_BatchID v = batchID \<and> vo_State v = ''unused'');
                    voided = length (filter hit (bl_vouchers db));
                    db1 = db\<lparr>bl_vouchers := map (\<lambda>v. if hit v then v\<lparr>vo_State := ''void''\<rparr> else v) (bl_vouchers db)\<rparr>;
                    credit = wrap64 (ba_UnitPrice b * int voided)
             in bindE (if 0 < credit \<and> ba_Creator b \<noteq> ''''
                       then chargeCreator (ba_Creator b) False 0
                              (voucherEntry (ba_Creator b) credit batchID ''voucher batch void (unused credit)'') db1
                       else Inr ('''', db1)) (\<lambda>(creditTx, db2).
                Inr ((voided, credit), db2\<lparr>bl_batches := map (\<lambda>x. if ba_ID x = batchID
                   then x\<lparr>ba_State := ''void'', ba_VoidTx := creditTx\<rparr> else x) (bl_batches db2)\<rparr>))))"

section \<open>Batch invoice\<close>

definition InvoiceBatch :: "string \<Rightarrow> string \<Rightarrow> bool \<Rightarrow> int \<Rightarrow> string \<Rightarrow> Bill \<Rightarrow> BillErr + unit \<times> Bill" where
  "InvoiceBatch profileID m enforce cnt reference db =
     (if m = '''' \<or> cnt \<le> 0 then Inr ((), db)
      else case bl_profiles db profileID of
             None \<Rightarrow> Inl errDB
           | Some f \<Rightarrow>
               (let charge = wrap64 (pf_Price f * cnt);
                    e = (voucherEntry m (- charge) reference ''batch subscriber creation invoice'')\<lparr>le_Source := ''subscriber_batch''\<rparr>
                in bindE (chargeCreator m enforce charge e db) (\<lambda>(_, db1). Inr ((), db1))))"

end
