(* ===== verification/BillBooks.thy ===== *)
theory BillBooks
  imports BillReverse BillVoucher
begin

text \<open>
  The books as a whole: what every transaction does to the ledger sums, the cached balances, the journal and the agents' wallet account, and
  the invariants that hold after every run of transactions.
\<close>

section \<open>The books\<close>

definition lineWallet :: "string \<Rightarrow> jLine \<Rightarrow> int" where
  "lineWallet m l = (if jl_AccountCode l = acctAgentWallet \<and> jl_ManagerID l = m then jl_Credit l - jl_Debit l else 0)"

definition walletNet :: "string \<Rightarrow> journalEntry list \<Rightarrow> int" where
  "walletNet m js = (\<Sum>j \<leftarrow> js. \<Sum>l \<leftarrow> je_Lines j. lineWallet m l)"

text \<open>What the journal debits to an account, net of the credits.\<close>

definition accountNet :: "string \<Rightarrow> journalEntry list \<Rightarrow> int" where
  "accountNet code js = (\<Sum>j \<leftarrow> js. \<Sum>l \<leftarrow> je_Lines j. if jl_AccountCode l = code then jl_Debit l - jl_Credit l else 0)"

lemma accountNet_append: "accountNet code (js @ ks) = accountNet code js + accountNet code ks"
  by (simp add: accountNet_def)

lemma accountNet_concat: "accountNet code js = (\<Sum>l \<leftarrow> concat (map je_Lines js). if jl_AccountCode l = code then jl_Debit l - jl_Credit l else 0)"
  by (induction js) (simp_all add: accountNet_def)

definition entryOK :: "journalEntry \<Rightarrow> bool" where
  "entryOK j \<longleftrightarrow> 2 \<le> length (je_Lines j) \<and> list_all lineCheck (je_Lines j)
     \<and> sum_list (map jl_Debit (je_Lines j)) = sum_list (map jl_Credit (je_Lines j))"

definition balInv :: "Bill \<Rightarrow> bool" where
  "balInv db \<longleftrightarrow> (\<forall>m. m \<noteq> '''' \<longrightarrow> readBalance m db = ledgerSum m (bl_ledger db))"

definition journalInv :: "Bill \<Rightarrow> bool" where
  "journalInv db \<longleftrightarrow> (\<forall>j \<in> set (bl_journal db). entryOK j)"

definition walletInv :: "Bill \<Rightarrow> bool" where
  "walletInv db \<longleftrightarrow> (\<forall>m. m \<noteq> '''' \<longrightarrow> walletNet m (bl_journal db) = ledgerSum m (bl_ledger db))"

text \<open>What a step does to the books: it adds \<open>d m\<close> to every manager's ledger sum, and keeps the invariants.\<close>

definition books :: "(string \<Rightarrow> int) \<Rightarrow> Bill \<Rightarrow> Bill \<Rightarrow> bool" where
  "books d db db' \<longleftrightarrow>
     (\<forall>m. ledgerSum m (bl_ledger db') = ledgerSum m (bl_ledger db) + d m)
     \<and> (\<forall>m. m \<noteq> '''' \<longrightarrow> walletNet m (bl_journal db') = walletNet m (bl_journal db) + d m)
     \<and> (journalInv db \<longrightarrow> journalInv db') \<and> (balInv db \<longrightarrow> balInv db')
     \<and> (\<forall>m. bl_balances db m \<noteq> None \<longrightarrow> bl_balances db' m \<noteq> None)
     \<and> bl_managers db' = bl_managers db \<and> bl_profiles db' = bl_profiles db \<and> bl_accounts db' = bl_accounts db
     \<and> (\<exists>rows. bl_ledger db' = bl_ledger db @ rows) \<and> (\<exists>js. bl_journal db' = bl_journal db @ js)"

abbreviation still :: "string \<Rightarrow> int" where "still \<equiv> \<lambda>_. 0"

lemma books_refl: "books still db db"
  by (simp add: books_def)

lemma books_trans: "books d db db1 \<Longrightarrow> books d' db1 db2 \<Longrightarrow> books (\<lambda>m. d m + d' m) db db2"
  unfolding books_def by (auto simp: add.assoc)

lemma books_frame:
  assumes "bl_ledger db' = bl_ledger db" "bl_journal db' = bl_journal db" "bl_balances db' = bl_balances db"
    "bl_managers db' = bl_managers db" "bl_profiles db' = bl_profiles db" "bl_accounts db' = bl_accounts db"
  shows "books still db db'"
  using assms by (simp add: books_def journalInv_def balInv_def readBalance_def)

lemma ledgerSum_snoc:
  "ledgerSum m (rows @ [r]) = ledgerSum m rows
     + (if le_ActorManagerID (lr_Entry r) = m \<and> lr_Currency r = ''IQD'' then le_Amount (lr_Entry r) else 0)"
  by (simp add: ledgerSum_def)

lemma walletNet_append: "walletNet m (js @ ks) = walletNet m js + walletNet m ks"
  by (simp add: walletNet_def)

section \<open>Primitive steps\<close>

definition moveOf :: "ledgerEntry \<Rightarrow> string \<Rightarrow> int" where
  "moveOf e m = (if m = le_ActorManagerID e then le_Amount e else 0)"

lemma newID_fields [simp]:
  "bl_ledger (snd (newID db)) = bl_ledger db" "bl_journal (snd (newID db)) = bl_journal db"
  "bl_balances (snd (newID db)) = bl_balances db" "bl_managers (snd (newID db)) = bl_managers db"
  "bl_profiles (snd (newID db)) = bl_profiles db" "bl_accounts (snd (newID db)) = bl_accounts db"
  "bl_subs (snd (newID db)) = bl_subs db" "bl_vouchers (snd (newID db)) = bl_vouchers db"
  "bl_batches (snd (newID db)) = bl_batches db" "bl_payments (snd (newID db)) = bl_payments db"
  by (simp_all add: newID_def)

lemma insertLedger_Inr:
  assumes "insertLedger e db = Inr (i, db1)"
  shows "db1 = db\<lparr>bl_nextID := Suc (bl_nextID db), bl_ledger := bl_ledger db @ [\<lparr>lr_ID = i, lr_Currency = ''IQD'', lr_Entry = e\<rparr>]\<rparr>"
    and "i = formatUint (bl_nextID db)"
    and "le_ReversesID e \<noteq> [] \<Longrightarrow> \<forall>r \<in> set (bl_ledger db). le_ReversesID (lr_Entry r) \<noteq> le_ReversesID e"
    and "le_ActorManagerID e \<noteq> [] \<Longrightarrow> bl_managers db (le_ActorManagerID e) \<noteq> None"
  using assms by (auto simp: insertLedger_def newID_def list_ex_iff split: if_splits)

lemma lockBalance_Inr:
  assumes "lockBalance m db = Inr (b, db1)"
  shows "books still db db1" and "bl_balances db1 m = Some b" and "m \<noteq> []" and "b = readBalance m db"
    and "bl_ledger db1 = bl_ledger db" and "bl_journal db1 = bl_journal db"
    and "db1 = db\<lparr>bl_balances := (bl_balances db)(m \<mapsto> b)\<rparr>" and "bl_managers db m \<noteq> None"
  using assms
  by (auto simp: lockBalance_def books_def balInv_def journalInv_def readBalance_def fun_upd_idem split: if_splits option.splits)

lemma recomputeBalance_Inr:
  assumes "recomputeBalance m db = Inr (u, db1)"
  shows "db1 = db\<lparr>bl_balances := (case bl_balances db m of None \<Rightarrow> bl_balances db
             | Some _ \<Rightarrow> (bl_balances db)(m \<mapsto> ledgerSum m (bl_ledger db)))\<rparr>"
    and "inInt64 (ledgerSum m (bl_ledger db))"
  using assms by (auto simp: recomputeBalance_def Let_def split: if_splits option.splits)

lemma insertLines_Inr:
  assumes "insertLines ls je db = Inr (i, db1)"
  shows "db1 = db\<lparr>bl_nextID := Suc (bl_nextID db), bl_journal := bl_journal db @ [je\<lparr>je_ID := i, je_Lines := ls\<rparr>]\<rparr>"
    and "list_all lineCheck ls"
  using assms by (auto simp: insertLines_def newID_def list_all_iff split: if_splits)

lemma signedPair_wallet:
  assumes "d \<noteq> c" and "d \<noteq> acctAgentWallet"
  shows "(\<Sum>l \<leftarrow> signedPair d c amount memo mgr. lineWallet m l) = (if c = acctAgentWallet \<and> mgr = m then amount else 0)"
  using assms by (simp add: signedPair_def Let_def lineWallet_def)

lemma signedPair_wallet0:
  "d \<noteq> acctAgentWallet \<Longrightarrow> c \<noteq> acctAgentWallet \<Longrightarrow> (\<Sum>l \<leftarrow> signedPair d c amount memo mgr. lineWallet m l) = 0"
  by (simp add: signedPair_def Let_def lineWallet_def)

lemmas acct_defs = acctCash_def acctAgentWallet_def acctCostSuspense_def acctOwnerCapital_def acctRevenue_def acctCOGS_def
  acctCommissionExpense_def acctBank_def acctAR_def acctFixedAssets_def acctAccumDepreciation_def acctAP_def acctRetainedEarnings_def
  acctOtherRevenue_def acctOperatingExpense_def acctDepreciationExpense_def

lemma acct_distinct [simp]:
  "acctCash \<noteq> acctAgentWallet" "acctRevenue \<noteq> acctAgentWallet" "acctCOGS \<noteq> acctAgentWallet" "acctCostSuspense \<noteq> acctAgentWallet"
  "acctOwnerCapital \<noteq> acctAgentWallet" "acctCommissionExpense \<noteq> acctAgentWallet"
  by (simp_all add: acct_defs)

lemma journalLines_wallet:
  assumes "journalLines e gross hp = Inr ls" and "m \<noteq> []"
  shows "(\<Sum>l \<leftarrow> ls. lineWallet m l) = moveOf e m"
  using assms
  by (auto simp: journalLines_def Let_def moveOf_def signedPair_wallet signedPair_wallet0 split: if_splits option.splits)

lemma postLedgerJournal_Inr:
  assumes "postLedgerJournal now e i gross hp src who db = Inr (u, db1)"
  shows "\<exists>js. bl_journal db1 = bl_journal db @ js \<and> (\<forall>j \<in> set js. entryOK j \<and> je_LedgerTxID j = i)
      \<and> db1 = db\<lparr>bl_nextID := bl_nextID db + length js, bl_journal := bl_journal db @ js\<rparr>
      \<and> journalLines e gross hp = Inr (concat (map je_Lines js))"
proof -
  from assms obtain ls where ls: "journalLines e gross hp = Inr ls" by (auto simp: postLedgerJournal_def bindE_Inr)
  show ?thesis
  proof (cases "ls = []")
    case True
    with assms ls show ?thesis by (intro exI [of _ "[]"]) (simp add: postLedgerJournal_def)
  next
    case False
    with assms ls obtain k where p: "postJournal now (if le_Note e = [] then le_Type e else le_Note e) src (le_Reference e) i who ls db = Inr (k, db1)"
      by (auto simp: postLedgerJournal_def bindE_Inr)
    then have v: "validateBalanced ls = None" by (auto simp: postJournal_def split: option.splits)
    with p obtain je where il: "insertLines ls je db = Inr (k, db1)" and je: "je_LedgerTxID je = i"
      by (auto simp: postJournal_def)
    have "entryOK (je\<lparr>je_ID := k, je_Lines := ls\<rparr>)"
      using v insertLines_Inr(2) [OF il] by (simp add: entryOK_def validateBalanced_def split: if_splits)
    then show ?thesis
      using insertLines_Inr(1) [OF il] je ls by (intro exI [of _ "[je\<lparr>je_ID := k, je_Lines := ls\<rparr>]"]) simp
  qed
qed

section \<open>Dual writes\<close>

text \<open>
  The three statements every money path runs: ledger row, balance, journal entry. The balance is recomputed under the row lock, or the
  row moves nothing.
\<close>

lemma dual_write:
  assumes ins: "insertLedger e db = Inr (i, db1)"
    and rec: "db2 = db1 \<and> (le_Amount e = 0 \<or> le_ActorManagerID e = [])
      \<or> recomputeBalance (le_ActorManagerID e) db1 = Inr ((), db2) \<and> bl_balances db (le_ActorManagerID e) \<noteq> None"
    and post: "postLedgerJournal now e i gross hp src who db2 = Inr (u, db3)"
  shows "books (moveOf e) db db3"
proof -
  note i = insertLedger_Inr(1) [OF ins]
  have l2: "bl_ledger db2 = bl_ledger db1" "bl_journal db2 = bl_journal db1" "bl_managers db2 = bl_managers db1"
    "bl_profiles db2 = bl_profiles db1" "bl_accounts db2 = bl_accounts db1"
    "\<And>m. bl_balances db1 m \<noteq> None \<Longrightarrow> bl_balances db2 m \<noteq> None"
    using rec recomputeBalance_Inr(1) [of "le_ActorManagerID e" db1 "()" db2] by (auto split: option.splits)
  obtain js where js: "bl_journal db3 = bl_journal db2 @ js" "\<forall>j \<in> set js. entryOK j"
    "db3 = db2\<lparr>bl_nextID := bl_nextID db2 + length js, bl_journal := bl_journal db2 @ js\<rparr>"
    "journalLines e gross hp = Inr (concat (map je_Lines js))"
    using postLedgerJournal_Inr [OF post] by blast
  have sums: "ledgerSum m (bl_ledger db3) = ledgerSum m (bl_ledger db) + moveOf e m" for m
    using i l2 js(3) by (simp add: ledgerSum_snoc moveOf_def)
  have bal: "balInv db3" if b: "balInv db"
    unfolding balInv_def
  proof (intro allI impI)
    fix m :: string assume m: "m \<noteq> []"
    show "readBalance m db3 = ledgerSum m (bl_ledger db3)"
    proof (cases "m = le_ActorManagerID e \<and> \<not> (db2 = db1 \<and> le_Amount e = 0)")
      case True
      with rec m have r: "recomputeBalance m db1 = Inr ((), db2)" and n: "bl_balances db m \<noteq> None" by auto
      from n i obtain x where "bl_balances db1 m = Some x" by auto
      then have "bl_balances db2 m = Some (ledgerSum m (bl_ledger db1))" using recomputeBalance_Inr(1) [OF r] by simp
      then show ?thesis using js(3) l2(1) by (simp add: readBalance_def)
    next
      case False
      then have mv: "moveOf e m = 0 \<or> db2 = db1" by (auto simp: moveOf_def)
      have "bl_balances db2 m = bl_balances db m"
        using False rec i recomputeBalance_Inr(1) [of "le_ActorManagerID e" db1 "()" db2] m by (auto split: option.splits)
      moreover have "moveOf e m = 0" using False rec m by (auto simp: moveOf_def)
      ultimately show ?thesis using b m js(3) sums [of m] by (simp add: balInv_def readBalance_def)
    qed
  qed
  have wal: "walletNet m (bl_journal db3) = walletNet m (bl_journal db) + moveOf e m" if "m \<noteq> []" for m
  proof -
    have "walletNet m js = (\<Sum>l \<leftarrow> concat (map je_Lines js). lineWallet m l)"
      by (induction js) (simp_all add: walletNet_def)
    then show ?thesis using journalLines_wallet [OF js(4) that] js(1) l2(2) i by (simp add: walletNet_append)
  qed
  show ?thesis
    unfolding books_def using sums wal bal l2 js(1,2,3) i by (auto simp: journalInv_def)
qed

lemma creatorLock_Inr:
  assumes "(if m = [] then Inr ((), db) else bindE (lockBalance m db)
      (\<lambda>(bal, db1). if enforce \<and> bal < charge then Inl errInsufficientFunds else Inr ((), db1))) = Inr ((), db1)"
  shows "\<exists>B. db1 = db\<lparr>bl_balances := B\<rparr>" and "balInv db \<Longrightarrow> balInv db1"
    and "m \<noteq> [] \<Longrightarrow> bl_balances db1 m \<noteq> None" and "m \<noteq> [] \<Longrightarrow> enforce \<Longrightarrow> charge \<le> readBalance m db"
proof -
  have nl: "db1 = db" if "m = []" using assms that by simp
  have lk: "\<exists>bal. lockBalance m db = Inr (bal, db1) \<and> \<not> (enforce \<and> bal < charge)" if "m \<noteq> []"
    using assms that by (auto simp: bindE_pair split: if_splits)
  show "\<exists>B. db1 = db\<lparr>bl_balances := B\<rparr>"
  proof (cases "m = []")
    case True
    with nl show ?thesis by (intro exI [of _ "bl_balances db"]) simp
  qed (use lk lockBalance_Inr(7) in blast)
  show "balInv db1" if "balInv db"
    using that nl lk lockBalance_Inr(1) by (cases "m = []") (auto simp: books_def)
  show "bl_balances db1 m \<noteq> None" if "m \<noteq> []" using lk [OF that] lockBalance_Inr(2) by fastforce
  show "charge \<le> readBalance m db" if "m \<noteq> []" "enforce" using lk [OF that(1)] that(2) lockBalance_Inr(4) by fastforce
qed

text \<open>A row of one manager followed by the recomputation of that manager's balance keeps the balances right.\<close>

lemma balInv_recompute:
  assumes "balInv db" and "insertLedger e db = Inr (i, db1)" and "le_ActorManagerID e = m"
    and "m \<noteq> [] \<Longrightarrow> bl_balances db m \<noteq> None" and "(if m = [] then Inr ((), db1) else recomputeBalance m db1) = Inr ((), db')"
  shows "balInv db'"
  unfolding balInv_def
proof (intro allI impI)
  fix k :: string assume k: "k \<noteq> []"
  note i = insertLedger_Inr(1) [OF assms(2)]
  show "readBalance k db' = ledgerSum k (bl_ledger db')"
  proof (cases "k = m")
    case True
    with k assms(5) have r: "recomputeBalance m db1 = Inr ((), db')" by simp
    have "bl_balances db1 m \<noteq> None" using assms(4) k True i by simp
    then show ?thesis using recomputeBalance_Inr(1) [OF r] True by (auto simp: readBalance_def)
  next
    case False
    have "bl_balances db' k = bl_balances db1 k" "bl_ledger db' = bl_ledger db1"
      using assms(5) recomputeBalance_Inr(1) [of m db1 "()" db'] False by (auto split: if_splits option.splits)
    then show ?thesis using assms(1,3) i k False by (simp add: balInv_def readBalance_def ledgerSum_snoc)
  qed
qed

lemma chargeCreator_moves:
  assumes "chargeCreator m enforce charge e db = Inr (i, db')" and "le_ActorManagerID e = m"
  shows "ledgerSum k (bl_ledger db') = ledgerSum k (bl_ledger db) + moveOf e k"
    and "bl_journal db' = bl_journal db" and "balInv db \<Longrightarrow> balInv db'"
    and "m \<noteq> [] \<Longrightarrow> enforce \<Longrightarrow> charge \<le> readBalance m db"
    and "bl_managers db' = bl_managers db" and "bl_profiles db' = bl_profiles db" and "bl_vouchers db' = bl_vouchers db"
    and "bl_batches db' = bl_batches db"
proof -
  from assms(1) obtain db1 db2 where
    a: "(if m = [] then Inr ((), db) else bindE (lockBalance m db)
          (\<lambda>(bal, db1). if enforce \<and> bal < charge then Inl errInsufficientFunds else Inr ((), db1))) = Inr ((), db1)"
    and b: "insertLedger e db1 = Inr (i, db2)" and c: "(if m = [] then Inr ((), db2) else recomputeBalance m db2) = Inr ((), db')"
    unfolding chargeCreator_def bindE_pair by auto
  obtain B where B: "db1 = db\<lparr>bl_balances := B\<rparr>" using creatorLock_Inr(1) [OF a] by blast
  have "bl_ledger db' = bl_ledger db2" "bl_journal db' = bl_journal db2" "bl_managers db' = bl_managers db2"
    "bl_profiles db' = bl_profiles db2" "bl_vouchers db' = bl_vouchers db2" "bl_batches db' = bl_batches db2"
    using c recomputeBalance_Inr(1) [of m db2 "()" db'] by (auto split: if_splits option.splits)
  then show "ledgerSum k (bl_ledger db') = ledgerSum k (bl_ledger db) + moveOf e k" "bl_journal db' = bl_journal db"
    "bl_managers db' = bl_managers db" "bl_profiles db' = bl_profiles db" "bl_vouchers db' = bl_vouchers db"
    "bl_batches db' = bl_batches db"
    using insertLedger_Inr(1) [OF b] B by (simp_all add: ledgerSum_snoc moveOf_def)
  show "m \<noteq> [] \<Longrightarrow> enforce \<Longrightarrow> charge \<le> readBalance m db" by (rule creatorLock_Inr(4) [OF a])
  show "balInv db'" if "balInv db"
    by (rule balInv_recompute [OF creatorLock_Inr(2) [OF a that] b assms(2) creatorLock_Inr(3) [OF a] c])
qed

section \<open>The operations\<close>

definition creditOf :: "string \<Rightarrow> int \<Rightarrow> string \<Rightarrow> int" where
  "creditOf m x k = (if k = m then x else 0)"

lemma creditOf_simps [simp]: "creditOf m x m = x" "k \<noteq> m \<Longrightarrow> creditOf m x k = 0" "creditOf m 0 = still"
  by (auto simp: creditOf_def)

lemma moveOf_credit: "moveOf e = creditOf (le_ActorManagerID e) (le_Amount e)"
  by (auto simp: moveOf_def creditOf_def)

definition commissionDue :: "(rat \<Rightarrow> rat) \<Rightarrow> string \<Rightarrow> int \<Rightarrow> Bill \<Rightarrow> int" where
  "commissionDue fl m base db = max 0 (commissionOf fl base (managerCommissionPct m db))"

lemma postCommission_books:
  assumes "postCommission fl now m base source ref db = Inr (u, db')" and "bl_balances db m \<noteq> None"
  shows "books (creditOf m (commissionDue fl m base db)) db db'"
proof (cases "commissionOf fl base (managerCommissionPct m db) \<le> 0")
  case True
  with assms(1) show ?thesis by (simp add: postCommission_def Let_def commissionDue_def books_refl)
next
  case False
  let ?e = "commissionEntry m (commissionOf fl base (managerCommissionPct m db)) source ref"
  from assms(1) False obtain i db1 db2 where "insertLedger ?e db = Inr (i, db1)" "recomputeBalance m db1 = Inr ((), db2)"
    "postLedgerJournal now ?e i 0 False ''billing.commission'' m db2 = Inr (u, db')"
    by (auto simp: postCommission_def Let_def bindE_pair)
  then have "books (moveOf ?e) db db'" using assms(2) by (intro dual_write) (auto simp: commissionEntry_def)
  then show ?thesis using False by (simp add: moveOf_credit commissionEntry_def commissionDue_def)
qed

definition renewalDelta :: "(rat \<Rightarrow> rat) \<Rightarrow> renewParams \<Rightarrow> int \<Rightarrow> Bill \<Rightarrow> int" where
  "renewalDelta fl p amount db =
     (if p_chargeBalance p then - amount + commissionDue fl (p_actorManagerID p) amount db else 0)"

lemma commissionDue_managers: "bl_managers db' = bl_managers db \<Longrightarrow> commissionDue fl m base db' = commissionDue fl m base db"
  by (simp add: commissionDue_def managerCommissionPct_def)

lemma chargeRenewal_Inr:
  assumes "chargeRenewal fl now p price amount cost db = Inr (txID, db')"
    and "p_chargeBalance p \<Longrightarrow> bl_balances db (p_actorManagerID p) \<noteq> None \<and> p_actorManagerID p \<noteq> []"
  shows "books (creditOf (p_actorManagerID p) (renewalDelta fl p amount db)) db db'"
    and "\<exists>rows. bl_ledger db' = bl_ledger db @ \<lparr>lr_ID = txID, lr_Currency = ''IQD'',
           lr_Entry = renewEntry p (if p_chargeBalance p then - amount else 0) cost\<rparr> # rows"
    and "p_chargeBalance p \<Longrightarrow> inInt64 (ledgerSum (p_actorManagerID p) (bl_ledger db) - amount)"
    and "txID = formatUint (bl_nextID db)"
proof -
  let ?e = "renewEntry p (if p_chargeBalance p then - amount else 0) cost"
  have act: "le_ActorManagerID ?e = p_actorManagerID p" "le_Amount ?e = (if p_chargeBalance p then - amount else 0)"
    by (simp_all add: renewEntry_def)
  from assms(1) obtain db1 db2 db3 where ins: "insertLedger ?e db = Inr (txID, db1)"
    and rec: "(if p_chargeBalance p then recomputeBalance (p_actorManagerID p) db1 else Inr ((), db1)) = Inr ((), db2)"
    and post: "postLedgerJournal now ?e txID price True (''billing.'' @ p_ledgerType p) (p_actorManagerID p) db2 = Inr ((), db3)"
    and com: "(if p_chargeBalance p \<and> p_actorManagerID p \<noteq> []
        then postCommission fl now (p_actorManagerID p) amount (p_source p) (p_reference p) db3 else Inr ((), db3)) = Inr ((), db')"
    unfolding chargeRenewal_def Let_def bindE_pair by auto
  show "txID = formatUint (bl_nextID db)" by (rule insertLedger_Inr(2) [OF ins])
  show "inInt64 (ledgerSum (p_actorManagerID p) (bl_ledger db) - amount)" if "p_chargeBalance p"
    using recomputeBalance_Inr(2) [of "p_actorManagerID p" db1 "()" db2] rec that insertLedger_Inr(1) [OF ins]
    by (simp add: ledgerSum_snoc renewEntry_def)
  have b1: "books (moveOf ?e) db db3" using assms(2) rec by (intro dual_write [OF ins _ post]) (auto simp: act split: if_splits)
  have m3: "bl_managers db3 = bl_managers db" using b1 by (simp add: books_def)
  have b2: "books (creditOf (p_actorManagerID p) (if p_chargeBalance p then commissionDue fl (p_actorManagerID p) amount db else 0)) db3 db'"
  proof (cases "p_chargeBalance p")
    case True
    with com assms(2) have "postCommission fl now (p_actorManagerID p) amount (p_source p) (p_reference p) db3 = Inr ((), db')" by simp
    moreover have "bl_balances db3 (p_actorManagerID p) \<noteq> None" using assms(2) [OF True] b1 by (auto simp: books_def)
    ultimately show ?thesis using postCommission_books True commissionDue_managers [OF m3] by metis
  next
    case False
    with com show ?thesis by (simp add: books_refl)
  qed
  have "(\<lambda>k. moveOf ?e k + creditOf (p_actorManagerID p) (if p_chargeBalance p then commissionDue fl (p_actorManagerID p) amount db else 0) k)
      = creditOf (p_actorManagerID p) (renewalDelta fl p amount db)"
    by (auto simp: moveOf_credit act creditOf_def renewalDelta_def)
  with books_trans [OF b1 b2] show "books (creditOf (p_actorManagerID p) (renewalDelta fl p amount db)) db db'" by simp
  have "bl_ledger db2 = bl_ledger db1" using rec by (auto dest: recomputeBalance_Inr split: if_splits option.splits)
  then have "bl_ledger db3 = bl_ledger db @ [\<lparr>lr_ID = txID, lr_Currency = ''IQD'', lr_Entry = ?e\<rparr>]"
    using insertLedger_Inr(1) [OF ins] postLedgerJournal_Inr [OF post] by auto
  moreover obtain rows where "bl_ledger db' = bl_ledger db3 @ rows" using b2 by (auto simp: books_def)
  ultimately show "\<exists>rows. bl_ledger db' = bl_ledger db @ \<lparr>lr_ID = txID, lr_Currency = ''IQD'', lr_Entry = ?e\<rparr> # rows" by simp
qed

lemma checkBalance_Inr:
  assumes "checkBalance p amount db = Inr (u, db')"
  shows "books still db db'" and "bl_ledger db' = bl_ledger db" and "bl_journal db' = bl_journal db"
    and "p_chargeBalance p \<Longrightarrow> bl_balances db' (p_actorManagerID p) = Some (readBalance (p_actorManagerID p) db) \<and> p_actorManagerID p \<noteq> []"
    and "p_chargeBalance p \<Longrightarrow> p_enforceBalance p \<Longrightarrow>
      - managerCreditLimit (p_actorManagerID p) db \<le> wrap64 (readBalance (p_actorManagerID p) db - amount)"
    and "\<exists>B. db' = db\<lparr>bl_balances := B\<rparr>"
proof -
  have *: "\<exists>bal. lockBalance (p_actorManagerID p) db = Inr (bal, db')
      \<and> \<not> (p_enforceBalance p \<and> wrap64 (bal - amount) < - managerCreditLimit (p_actorManagerID p) db')" if "p_chargeBalance p"
    using assms that by (auto simp: checkBalance_def bindE_pair split: if_splits)
  have n: "db' = db" if "\<not> p_chargeBalance p" using assms that by (simp add: checkBalance_def)
  show "books still db db'" using * n lockBalance_Inr(1) books_refl by (cases "p_chargeBalance p") blast+
  show "\<exists>B. db' = db\<lparr>bl_balances := B\<rparr>"
  proof (cases "p_chargeBalance p")
    case False
    with n show ?thesis by (intro exI [of _ "bl_balances db"]) simp
  qed (use * lockBalance_Inr(7) in blast)
  then show "bl_ledger db' = bl_ledger db" "bl_journal db' = bl_journal db" by auto
  show "bl_balances db' (p_actorManagerID p) = Some (readBalance (p_actorManagerID p) db) \<and> p_actorManagerID p \<noteq> []" if "p_chargeBalance p"
    using * [OF that] lockBalance_Inr(2,3,4) by blast
  assume "p_chargeBalance p" "p_enforceBalance p"
  with * obtain bal where l: "lockBalance (p_actorManagerID p) db = Inr (bal, db')" and le: "- managerCreditLimit (p_actorManagerID p) db' \<le> wrap64 (bal - amount)"
    by force
  have "managerCreditLimit (p_actorManagerID p) db' = managerCreditLimit (p_actorManagerID p) db"
    using lockBalance_Inr(7) [OF l] by (simp add: managerCreditLimit_def)
  with le lockBalance_Inr(4) [OF l]
  show "- managerCreditLimit (p_actorManagerID p) db \<le> wrap64 (readBalance (p_actorManagerID p) db - amount)" by simp
qed

text \<open>What a successful renewal went through.\<close>

definition renewPrice :: "subscriberRow \<Rightarrow> profileRow \<Rightarrow> int" where
  "renewPrice s f = resolvePrice (sb_PriceOverride s) (pf_Price f)"

definition renewAmount :: "gotime \<Rightarrow> renewParams \<Rightarrow> subscriberRow \<Rightarrow> profileRow \<Rightarrow> Bill \<Rightarrow> int" where
  "renewAmount now p s f db = balanceAmountOf now p (targetProfile p s) (pf_Currency f) (renewPrice s f) db"

lemma renewInTx_Inr:
  assumes "renewInTx fl now p db = Inr (res, db')"
  obtains s f db1 db2 where "bl_subs db (p_subscriberID p) = Some s" and "targetProfile p s \<noteq> []"
    and "bl_profiles db (targetProfile p s) = Some f" and "\<not> pf_Archived f"
    and "checkBalance p (renewAmount now p s f db) db = Inr ((), db1)"
    and "chargeRenewal fl now p (renewPrice s f) (renewAmount now p s f db)
           (costAtSaleOf now (targetProfile p s) (pf_Currency f) db) db1 = Inr (rr_LedgerTxID res, db2)"
    and "bl_ledger db' = bl_ledger db2" and "bl_journal db' = bl_journal db2" and "bl_balances db' = bl_balances db2"
    and "bl_managers db' = bl_managers db2" and "bl_profiles db' = bl_profiles db2" and "bl_accounts db' = bl_accounts db2"
    and "bl_subs db' = bl_subs (extendSubscriber now (p_subscriberID p) (newExpiryOf now p s f) (targetProfile p s) db2)"
    and "bl_payments db' = bl_payments (insertPayment \<lparr>pm_ReceiptNo = rr_ReceiptNo res, pm_LedgerTxID = rr_LedgerTxID res,
           pm_SubscriberID = p_subscriberID p, pm_Amount = renewPrice s f, pm_Currency = pf_Currency f, pm_Method = p_method p,
           pm_Source = p_source p\<rparr> db2)"
    and "bl_vouchers db' = bl_vouchers db2" and "bl_batches db' = bl_batches db2"
    and "rr_NewExpiresAt res = newExpiryOf now p s f" and "rr_price res = renewPrice s f"
    and "rr_rate res = resolveRate (sb_RateOverride s) (pf_RateUpKbps f) (pf_RateDownKbps f)" and "rr_poolName res = pf_PoolName f"
    and "bl_idem db' = bl_idem db2"
proof -
  from assms obtain s where s: "bl_subs db (p_subscriberID p) = Some s" by (auto simp: renewInTx_def split: option.splits)
  from assms s have t: "targetProfile p s \<noteq> []" by (auto simp: renewInTx_def Let_def split: if_splits)
  from assms s t obtain f where f: "bl_profiles db (targetProfile p s) = Some f" by (auto simp: renewInTx_def Let_def split: option.splits)
  from assms s t f have a: "\<not> pf_Archived f" by (auto simp: renewInTx_def Let_def split: if_splits)
  note eq = assms [unfolded renewInTx_def s option.case Let_def if_not_P [OF t] f if_not_P [OF a] bindE_pair,
      folded renewPrice_def, folded renewAmount_def]
  from eq obtain u db1 txID db2 where c: "checkBalance p (renewAmount now p s f db) db = Inr (u, db1)"
    and g: "chargeRenewal fl now p (renewPrice s f) (renewAmount now p s f db)
           (costAtSaleOf now (targetProfile p s) (pf_Currency f) db) db1 = Inr (txID, db2)" by blast
  show thesis
    by (rule that [of s f db1 db2], insert eq c g s t f a)
      (simp_all add: nextReceiptNo_def insertPayment_def extendSubscriber_def createPaidInvoiceForRenewal_def newID_def Let_def
        split: if_splits prod.splits, auto)
qed

lemma renewInTx_books:
  assumes "renewInTx fl now p db = Inr (res, db')"
  obtains s f where "bl_subs db (p_subscriberID p) = Some s" and "bl_profiles db (targetProfile p s) = Some f"
    and "books (creditOf (p_actorManagerID p) (renewalDelta fl p (renewAmount now p s f db) db)) db db'"
    and "p_chargeBalance p \<Longrightarrow> p_enforceBalance p \<Longrightarrow> - managerCreditLimit (p_actorManagerID p) db
           \<le> wrap64 (readBalance (p_actorManagerID p) db - renewAmount now p s f db)"
    and "p_chargeBalance p \<Longrightarrow> p_actorManagerID p \<noteq> []"
    and "p_chargeBalance p \<Longrightarrow> inInt64 (ledgerSum (p_actorManagerID p) (bl_ledger db) - renewAmount now p s f db)"
    and "\<exists>rows cost. bl_ledger db' = bl_ledger db @ \<lparr>lr_ID = rr_LedgerTxID res, lr_Currency = ''IQD'',
           lr_Entry = renewEntry p (if p_chargeBalance p then - renewAmount now p s f db else 0) cost\<rparr> # rows"
    and "rr_LedgerTxID res = formatUint (bl_nextID db)"
  using assms
proof (rule renewInTx_Inr)
  fix s f db1 db2
  assume s: "bl_subs db (p_subscriberID p) = Some s" and f: "bl_profiles db (targetProfile p s) = Some f"
    and c: "checkBalance p (renewAmount now p s f db) db = Inr ((), db1)"
    and g: "chargeRenewal fl now p (renewPrice s f) (renewAmount now p s f db)
           (costAtSaleOf now (targetProfile p s) (pf_Currency f) db) db1 = Inr (rr_LedgerTxID res, db2)"
    and eqs: "bl_ledger db' = bl_ledger db2" "bl_journal db' = bl_journal db2" "bl_balances db' = bl_balances db2"
      "bl_managers db' = bl_managers db2" "bl_profiles db' = bl_profiles db2" "bl_accounts db' = bl_accounts db2"
  have m: "bl_managers db1 = bl_managers db" using checkBalance_Inr(6) [OF c] by auto
  have "books (creditOf (p_actorManagerID p) (renewalDelta fl p (renewAmount now p s f db) db1)) db1 db2"
    using checkBalance_Inr(4) [OF c] by (intro chargeRenewal_Inr(1) [OF g]) auto
  then have "books (creditOf (p_actorManagerID p) (renewalDelta fl p (renewAmount now p s f db) db)) db1 db2"
    by (simp only: renewalDelta_def commissionDue_managers [OF m])
  then have "books (\<lambda>k. still k + (creditOf (p_actorManagerID p) (renewalDelta fl p (renewAmount now p s f db) db) k + still k)) db db'"
    by (intro books_trans [OF checkBalance_Inr(1) [OF c]] books_trans [OF _ books_frame [OF eqs]])
  moreover have pre: "p_chargeBalance p \<Longrightarrow> bl_balances db1 (p_actorManagerID p) \<noteq> None \<and> p_actorManagerID p \<noteq> []"
    using checkBalance_Inr(4) [OF c] by auto
  moreover have "bl_ledger db1 = bl_ledger db" "bl_nextID db1 = bl_nextID db" using checkBalance_Inr(6) [OF c] by auto
  ultimately show thesis
    using s f checkBalance_Inr(4,5) [OF c] chargeRenewal_Inr(2-4) [OF g pre] eqs(1) by (intro that [of s f]) auto
qed

lemma topup_books:
  assumes "topup fl now m amount entered note db = Inr ((txID, iqd), db')"
  shows "books (creditOf m iqd) db db'"
proof -
  let ?e = "topupEntry m iqd note rateID amount entered"
  from assms obtain b db1 rateID db2 db3 where l: "lockBalance m db = Inr (b, db1)"
    and ins: "insertLedger (topupEntry m iqd note rateID amount entered) db1 = Inr (txID, db2)"
    and rec: "recomputeBalance m db2 = Inr ((), db3)"
    and post: "postLedgerJournal now (topupEntry m iqd note rateID amount entered) txID 0 False ''billing.topup'' m db3 = Inr ((), db')"
    by (auto simp: topup_def Let_def bindE_pair split: if_splits)
  have "books (moveOf (topupEntry m iqd note rateID amount entered)) db1 db'"
    using rec lockBalance_Inr(2) [OF l] by (intro dual_write [OF ins _ post]) (simp add: topupEntry_def)
  from books_trans [OF lockBalance_Inr(1) [OF l] this] show ?thesis by (simp add: moveOf_credit topupEntry_def)
qed

lemma asAlreadyRefunded_Inr: "asAlreadyRefunded e r = Inr x \<longleftrightarrow> r = Inr x"
  by (auto simp: asAlreadyRefunded_def split: sum.splits BillErr.splits)

lemma undoTopupCore_books:
  assumes "undoTopupCore now txID m amount actor db = Inr (revID, db')"
  shows "books (creditOf m (- amount)) db db'"
proof -
  let ?e = "undoTopupEntry txID m amount"
  from assms obtain b db1 db2 db3 where l: "lockBalance m db = Inr (b, db1)" and ins: "insertLedger ?e db1 = Inr (revID, db2)"
    and rec: "recomputeBalance m db2 = Inr ((), db3)"
    and post: "postLedgerJournal now ?e revID 0 False ''billing.undo'' actor db3 = Inr ((), db')"
    by (auto simp: undoTopupCore_def Let_def bindE_pair asAlreadyRefunded_Inr)
  have "books (moveOf ?e) db1 db'"
    using rec lockBalance_Inr(2) [OF l] by (intro dual_write [OF ins _ post]) (simp add: undoTopupEntry_def)
  from books_trans [OF lockBalance_Inr(1) [OF l] this] show ?thesis by (simp add: moveOf_credit undoTopupEntry_def)
qed

lemma lockActor_Inr:
  assumes "lockActor m db = Inr (u, db1)"
  shows "books still db db1" and "m \<noteq> [] \<Longrightarrow> bl_balances db1 m \<noteq> None" and "\<exists>B. db1 = db\<lparr>bl_balances := B\<rparr>"
proof -
  have "m \<noteq> [] \<Longrightarrow> \<exists>b. lockBalance m db = Inr (b, db1)" "m = [] \<Longrightarrow> db1 = db"
    using assms by (auto simp: lockActor_def bindE_pair)
  then show "books still db db1" "m \<noteq> [] \<Longrightarrow> bl_balances db1 m \<noteq> None"
    using lockBalance_Inr(1,2) books_refl by (cases "m = []"; fastforce)+
  show "\<exists>B. db1 = db\<lparr>bl_balances := B\<rparr>"
  proof (cases "m = []")
    case True
    with \<open>m = [] \<Longrightarrow> db1 = db\<close> show ?thesis by (intro exI [of _ "bl_balances db"]) simp
  qed (use \<open>m \<noteq> [] \<Longrightarrow> \<exists>b. lockBalance m db = Inr (b, db1)\<close> lockBalance_Inr(7) in blast)
qed

lemma recordRefund_fields:
  "bl_ledger (recordRefund now prefix sub i g src x db) = bl_ledger db" "bl_journal (recordRefund now prefix sub i g src x db) = bl_journal db"
  "bl_balances (recordRefund now prefix sub i g src x db) = bl_balances db" "bl_managers (recordRefund now prefix sub i g src x db) = bl_managers db"
  "bl_profiles (recordRefund now prefix sub i g src x db) = bl_profiles db" "bl_accounts (recordRefund now prefix sub i g src x db) = bl_accounts db"
  "bl_idem (recordRefund now prefix sub i g src x db) = bl_idem db"
  "bl_subs (recordRefund now prefix sub i g src x db) = bl_subs (rollbackSubscriber now sub x db)"
  by (simp_all add: recordRefund_def nextReceiptNo_def insertPayment_def rollbackSubscriber_def Let_def cong: if_cong)

lemma refundInTx_Inr:
  assumes "refundInTx fl now prefix sub txID reason source jsource db = Inr (x, db')"
  obtains r s amt rateID gross db1 rid db2 db3 db4 where "findRow txID db = Some r" and "bl_subs db sub = Some s"
    and "le_Type (lr_Entry r) \<noteq> ''refund''" and "sub \<noteq> []" and "le_SubscriberID (lr_Entry r) = sub"
    and "lockActor (le_ActorManagerID (lr_Entry r)) db = Inr ((), db1)"
    and "signedToIQD fl (- le_Amount (lr_Entry r)) (lr_Currency r) db1 = Inr (amt, rateID)"
    and "insertLedger (refundEntry r sub amt rateID reason source) db1 = Inr (rid, db2)"
    and "recomputeActor (le_ActorManagerID (lr_Entry r)) db2 = Inr ((), db3)"
    and "postLedgerJournal now (refundEntry r sub amt rateID reason source) rid gross True jsource (le_ActorManagerID (lr_Entry r)) db3 = Inr ((), db4)"
    and "bl_ledger db' = bl_ledger db4" and "bl_journal db' = bl_journal db4" and "bl_balances db' = bl_balances db4"
    and "bl_managers db' = bl_managers db4" and "bl_profiles db' = bl_profiles db4" and "bl_accounts db' = bl_accounts db4"
    and "x = (rid, rollbackExpiry now (sb_ExpiresAt s) (grantedDays s db),
behaviorAfter s db)"
    and "bl_subs db' = bl_subs (rollbackSubscriber now sub (rollbackExpiry now (sb_ExpiresAt s)
           (grantedDays s db)) db4)"
    and "bl_idem db' = bl_idem db4"
proof -
  from assms obtain r where r: "findRow txID db = Some r" by (auto simp: refundInTx_def split: option.splits)
  from assms r have g: "\<not> (le_SubscriberID (lr_Entry r) = [] \<or> le_SubscriberID (lr_Entry r) \<noteq> sub)"
    "le_Type (lr_Entry r) \<noteq> ''refund''" by (auto simp: refundInTx_def split: if_splits)
  from assms r g obtain s where s: "bl_subs db sub = Some s" by (auto simp: refundInTx_def split: option.splits)
  note eq = assms [unfolded refundInTx_def r option.case if_not_P [OF g(1)] if_not_P [OF g(2)] s Let_def bindE_pair asAlreadyRefunded_Inr]
  from eq obtain u db1 amt rateID gross rid db2 v db3 w db4 where
    a: "lockActor (le_ActorManagerID (lr_Entry r)) db = Inr (u, db1)"
    and b: "signedToIQD fl (- le_Amount (lr_Entry r)) (lr_Currency r) db1 = Inr (amt, rateID)"
    and c: "insertLedger (refundEntry r sub amt rateID reason source) db1 = Inr (rid, db2)"
    and d: "recomputeActor (le_ActorManagerID (lr_Entry r)) db2 = Inr (v, db3)"
    and e: "postLedgerJournal now (refundEntry r sub amt rateID reason source) rid gross True jsource (le_ActorManagerID (lr_Entry r)) db3 = Inr (w, db4)"
    and f: "x = (rid, rollbackExpiry now (sb_ExpiresAt s) (grantedDays s db), behaviorAfter s db)"
      "db' = recordRefund now prefix sub rid gross source (rollbackExpiry now (sb_ExpiresAt s) (grantedDays s db)) db4"
    by blast
  show thesis
    by (rule that [OF r s g(2) _ _ _ b c], insert a d e f g) (auto simp: recordRefund_fields)
qed

lemma recomputeActor_Inr:
  "recomputeActor m db = Inr ((), db1) \<Longrightarrow> db1 = db \<and> m = [] \<or> recomputeBalance m db = Inr ((), db1) \<and> m \<noteq> []"
  by (auto simp: recomputeActor_def split: if_splits)

lemma signedToIQD_frame:
  assumes "bl_rates db' = bl_rates db" and "bl_digits db' = bl_digits db"
  shows "signedToIQD fl a c db' = signedToIQD fl a c db"
proof -
  have "convertToIQD fl x c db' = convertToIQD fl x c db" for x by (simp only: convertToIQD_def assms)
  then show ?thesis by (simp add: signedToIQD_def)
qed

lemma refundInTx_books:
  assumes "refundInTx fl now prefix sub txID reason source jsource db = Inr (x, db')"
  obtains r amt rateID where "findRow txID db = Some r"
    and "signedToIQD fl (- le_Amount (lr_Entry r)) (lr_Currency r) db = Inr (amt, rateID)"
    and "books (creditOf (le_ActorManagerID (lr_Entry r)) amt) db db'"
    and "\<exists>row \<in> set (bl_ledger db'). le_ReversesID (lr_Entry row) = txID"
  using assms
proof (rule refundInTx_Inr)
  fix r s amt rateID gross db1 rid db2 db3 db4
  let ?e = "refundEntry r sub amt rateID reason source" and ?m = "le_ActorManagerID (lr_Entry r)"
  assume r: "findRow txID db = Some r" and l: "lockActor ?m db = Inr ((), db1)"
    and sg: "signedToIQD fl (- le_Amount (lr_Entry r)) (lr_Currency r) db1 = Inr (amt, rateID)"
    and ins: "insertLedger ?e db1 = Inr (rid, db2)" and rec: "recomputeActor ?m db2 = Inr ((), db3)"
    and post: "postLedgerJournal now ?e rid gross True jsource ?m db3 = Inr ((), db4)"
    and eqs: "bl_ledger db' = bl_ledger db4" "bl_journal db' = bl_journal db4" "bl_balances db' = bl_balances db4"
      "bl_managers db' = bl_managers db4" "bl_profiles db' = bl_profiles db4" "bl_accounts db' = bl_accounts db4"
  have e: "le_ActorManagerID ?e = ?m" "le_Amount ?e = amt" "le_ReversesID ?e = lr_ID r" by (simp_all add: refundEntry_def Let_def)
  have "books (moveOf ?e) db1 db4"
    using recomputeActor_Inr [OF rec] lockActor_Inr(2) [OF l] by (intro dual_write [OF ins _ post]) (auto simp: e)
  then have "books (\<lambda>k. still k + (moveOf ?e k + still k)) db db'"
    by (intro books_trans [OF lockActor_Inr(1) [OF l]] books_trans [OF _ books_frame [OF eqs]])
  then have b: "books (creditOf ?m amt) db db'" by (simp add: moveOf_credit e)
  have sg': "signedToIQD fl (- le_Amount (lr_Entry r)) (lr_Currency r) db = Inr (amt, rateID)"
    using sg lockActor_Inr(3) [OF l] signedToIQD_frame [of db1 db] by auto
  have "bl_ledger db3 = bl_ledger db2" using recomputeActor_Inr [OF rec] by (auto dest: recomputeBalance_Inr split: option.splits)
  then have "\<exists>row \<in> set (bl_ledger db'). le_ReversesID (lr_Entry row) = lr_ID r"
    using eqs(1) postLedgerJournal_Inr [OF post] insertLedger_Inr(1) [OF ins] e(3) by auto
  moreover have "lr_ID r = txID" using r by (auto simp: findRow_def find_Some_iff)
  ultimately show thesis using that [OF r sg' b] by simp
qed

lemma redeemInTx_books:
  assumes "redeemInTx fl sha now anchor prefix code sub redeemer db = Inr (x, db')"
  shows "books still db db'"
proof (cases "db' = db")
  case False
  with assms obtain v b where vb: "findVoucher sha code db = Some (v, b)"
    by (cases "findVoucher sha code db") (auto simp: redeemInTx_def)
  let ?p = "redeemParams sub redeemer (ba_ProfileID b) (vo_ID v) anchor prefix"
  from assms False vb obtain res db1 where r: "renewInTx fl now ?p db = Inr (res, db1)"
    and m: "db' = markUsed (vo_ID v) sub (rr_LedgerTxID res) db1"
    by (auto simp: redeemInTx_def bindE_pair split: if_splits)
  have "books still db db1"
    using r by (rule renewInTx_books) (simp add: renewalDelta_def redeemParams_def)
  moreover have "books still db1 db'" using m by (intro books_frame) (simp_all add: markUsed_def)
  ultimately have "books (\<lambda>k. still k + still k) db db'" by (rule books_trans)
  then show ?thesis by simp
qed (simp add: books_refl)

section \<open>Runs\<close>

text \<open>
  The transactions that write the ledger and the journal together, each ending in any way; and the writes of the
  undo log.
\<close>

inductive moneyStep :: "Bill \<Rightarrow> Bill \<Rightarrow> bool" where
  renewal: "moneyStep db (snd (renewTx fl tend now p db))"
| credit: "moneyStep db (snd (endTx tend (topup fl now m amount entered note db) db))"
| reversal: "moneyStep db (snd (endTx tend (refundInTx fl now prefix sub txID reason source jsource db) db))"
| topupUndo: "moneyStep db (snd (endTx tend (undoTopupCore now txID m amount actor db) db))"
| redemption: "moneyStep db (snd (endTx tend (redeemInTx fl sha now anchor prefix code sub redeemer db) db))"
| undoLog: "moneyStep db (snd (recordUndo now kind entity actor txID x m amount undoOf db))"
| undoMark: "moneyStep db (markUndone undoID revID db)"

text \<open>All of them, with the transactions that charge or credit a manager for batches.\<close>

inductive billStep :: "Bill \<Rightarrow> Bill \<Rightarrow> bool" where
  money: "moneyStep db db' \<Longrightarrow> billStep db db'"
| generate: "billStep db (snd (endTx tend (generateBatch sha rnds b creator enforce db) db))"
| void: "billStep db (snd (endTx tend (voidBatch batchID db) db))"
| batchInvoice: "billStep db (snd (endTx tend (InvoiceBatch profileID m enforce cnt reference db) db))"

lemma endTx_cases:
  assumes "\<And>x db'. r = Inr (x, db') \<Longrightarrow> P db'" and "P db"
  shows "P (snd (endTx tend r db))"
  using assms by (cases r; cases tend) (auto simp: endTx_def)

lemma endTx_books:
  assumes "\<And>x db'. r = Inr (x, db') \<Longrightarrow> \<exists>d. books d db db'"
  shows "\<exists>d. books d db (snd (endTx tend r db))"
  using assms books_refl by (intro endTx_cases [where P = "\<lambda>db'. \<exists>d. books d db db'"]) blast+

lemma moneyStep_books: "moneyStep db db' \<Longrightarrow> \<exists>d. books d db db'"
proof (induction rule: moneyStep.induct)
  case (renewal db fl tend now p)
  have "\<exists>d. books d db (snd (endTx tend (bindE (renewInTx fl now p db) (\<lambda>(res, db1).
      Inr ((res, False), if p_idemKey p = [] then db1 else db1\<lparr>bl_idem := bl_idem db1 @ [(p_idemKey p, Some (serialized res))]\<rparr>))) db))"
  proof (rule endTx_books)
    fix x db' assume "bindE (renewInTx fl now p db) (\<lambda>(res, db1).
      Inr ((res, False), if p_idemKey p = [] then db1 else db1\<lparr>bl_idem := bl_idem db1 @ [(p_idemKey p, Some (serialized res))]\<rparr>)) = Inr (x, db')"
    then obtain res db1 where r: "renewInTx fl now p db = Inr (res, db1)"
      and d: "db' = (if p_idemKey p = [] then db1 else db1\<lparr>bl_idem := bl_idem db1 @ [(p_idemKey p, Some (serialized res))]\<rparr>)"
      by (auto simp: bindE_pair)
    from r obtain d1 where "books d1 db db1" by (rule renewInTx_books) blast
    moreover have "books still db1 db'" using d by (intro books_frame) auto
    ultimately show "\<exists>d. books d db db'" using books_trans by blast
  qed
  then show ?case using books_refl by (auto simp: renewTx_def)
next
  case (undoLog db now kind entity actor txID x m amount undoOf)
  show ?case by (intro exI [of _ still] books_frame) (simp_all add: recordUndo_def newID_def Let_def)
next
  case (undoMark db undoID revID)
  show ?case by (intro exI [of _ still] books_frame) (simp_all add: markUndone_def)
next
  case (credit db tend fl now m amount entered memo)
  show ?case by (rule endTx_books) (force dest: topup_books)
next
  case (reversal db tend fl now prefix sub txID reason source jsource)
  show ?case by (rule endTx_books, erule refundInTx_books) blast
next
  case (topupUndo db tend now txID m amount actor)
  show ?case by (rule endTx_books) (blast dest: undoTopupCore_books)
next
  case (redemption db tend fl sha now anchor prefix code sub redeemer)
  show ?case by (rule endTx_books) (blast dest: redeemInTx_books)
qed

lemma insertAll_frame:
  "insertAll sha batchID cs db = (plain, db') \<Longrightarrow>
     bl_ledger db' = bl_ledger db \<and> bl_balances db' = bl_balances db \<and> bl_journal db' = bl_journal db \<and> bl_managers db' = bl_managers db
     \<and> bl_profiles db' = bl_profiles db \<and> bl_batches db' = bl_batches db"
proof (induction cs arbitrary: db plain)
  case (Cons c cs)
  obtain ok db1 where i: "insertCode sha batchID c db = (ok, db1)" by force
  then have f: "bl_ledger db1 = bl_ledger db \<and> bl_balances db1 = bl_balances db \<and> bl_journal db1 = bl_journal db
      \<and> bl_managers db1 = bl_managers db \<and> bl_profiles db1 = bl_profiles db \<and> bl_batches db1 = bl_batches db"
    by (auto simp: insertCode_def newID_def split: if_splits)
  obtain pl db2 where "insertAll sha batchID cs db1 = (pl, db2)" by force
  with Cons.prems i have "insertAll sha batchID cs db1 = (pl, db')" by simp
  from Cons.IH [OF this] f show ?case by simp
qed simp

lemma insertCodes_frame:
  "insertCodes sha rnds batchID prefix codeLen want left k plain db = Inr (out, db') \<Longrightarrow>
     bl_ledger db' = bl_ledger db \<and> bl_balances db' = bl_balances db \<and> bl_journal db' = bl_journal db \<and> bl_managers db' = bl_managers db
     \<and> bl_profiles db' = bl_profiles db \<and> bl_batches db' = bl_batches db"
proof (induction left arbitrary: k plain db)
  case (Suc left)
  show ?case
  proof (cases "length plain < want")
    case True
    with Suc.prems obtain codes where d: "drawLoop sha (want - length plain) [] (map (\<lambda>rnd. genCode rnd prefix codeLen) (rnds k)) = Some codes"
      by (auto split: option.splits)
    obtain more db1 where i: "insertAll sha batchID codes db = (more, db1)" by force
    have "insertCodes sha rnds batchID prefix codeLen want left (Suc k) (plain @ more) db1 = Inr (out, db')"
      using Suc.prems True d i by simp
    from Suc.IH [OF this] insertAll_frame [OF i] show ?thesis by simp
  next
    case False
    with Suc.prems show ?thesis by simp
  qed
qed (simp split: if_splits)

lemma generateBatch_Inr:
  assumes "generateBatch sha rnds b creator enforce db = Inr (x, db')"
  obtains f i db1 where "bl_profiles db (bi_ProfileID b) = Some f"
    and "chargeCreator creator enforce (wrap64 (pf_Price f * bi_Count b))
           (voucherEntry creator (- wrap64 (pf_Price f * bi_Count b)) [] ''voucher batch generation'') db = Inr (i, db1)"
    and "bl_ledger db' = bl_ledger db1" and "bl_balances db' = bl_balances db1" and "bl_journal db' = bl_journal db1"
proof -
  from assms obtain f where f: "bl_profiles db (bi_ProfileID b) = Some f" "\<not> pf_Archived f"
    by (auto simp: generateBatch_def split: option.splits if_splits)
  from assms f obtain i db1 where c: "chargeCreator creator enforce (wrap64 (pf_Price f * bi_Count b))
      (voucherEntry creator (- wrap64 (pf_Price f * bi_Count b)) [] ''voucher batch generation'') db = Inr (i, db1)"
    by (auto simp: generateBatch_def Let_def bindE_pair)
  from assms f c show thesis
    by (intro that [OF f(1) c]) (auto simp: generateBatch_def Let_def bindE_pair newID_def dest!: insertCodes_frame)
qed

lemma voucherEntry_fields [simp]: "le_ActorManagerID (voucherEntry m a ref memo) = m" "le_Amount (voucherEntry m a ref memo) = a"
  by (simp_all add: voucherEntry_def)

lemma generateBatch_keeps:
  assumes "generateBatch sha rnds b creator enforce db = Inr (x, db')" and "balInv db" and "journalInv db"
  shows "balInv db' \<and> journalInv db'"
  using assms(1)
proof (rule generateBatch_Inr)
  fix f i db1
  assume c: "chargeCreator creator enforce (wrap64 (pf_Price f * bi_Count b))
      (voucherEntry creator (- wrap64 (pf_Price f * bi_Count b)) [] ''voucher batch generation'') db = Inr (i, db1)"
    and eqs: "bl_ledger db' = bl_ledger db1" "bl_balances db' = bl_balances db1" "bl_journal db' = bl_journal db1"
  have "balInv db1" "bl_journal db1 = bl_journal db" using chargeCreator_moves(2,3) [OF c] assms(2) by auto
  then show ?thesis using eqs assms(3) by (simp add: balInv_def readBalance_def journalInv_def)
qed

lemma voidBatch_keeps:
  assumes "voidBatch batchID db = Inr (x, db')" and "balInv db" and "journalInv db"
  shows "balInv db' \<and> journalInv db'"
proof -
  from assms(1) obtain b where b: "find (\<lambda>b. ba_ID b = batchID) (bl_batches db) = Some b" "ba_State b \<noteq> ''void''"
    by (auto simp: voidBatch_def split: option.splits if_splits)
  let ?hit = "\<lambda>v. vo_BatchID v = batchID \<and> vo_State v = ''unused''"
  let ?db1 = "db\<lparr>bl_vouchers := map (\<lambda>v. if ?hit v then v\<lparr>vo_State := ''void''\<rparr> else v) (bl_vouchers db)\<rparr>"
  let ?credit = "wrap64 (ba_UnitPrice b * int (length (filter ?hit (bl_vouchers db))))"
  have "balInv ?db1" "journalInv ?db1" using assms(2,3) by (simp_all add: balInv_def readBalance_def journalInv_def)
  from assms(1) b obtain tx db2 where
    c: "(if 0 < ?credit \<and> ba_Creator b \<noteq> [] then chargeCreator (ba_Creator b) False 0
           (voucherEntry (ba_Creator b) ?credit batchID ''voucher batch void (unused credit)'') ?db1 else Inr ([], ?db1)) = Inr (tx, db2)"
    and d: "bl_ledger db' = bl_ledger db2" "bl_balances db' = bl_balances db2" "bl_journal db' = bl_journal db2"
    unfolding voidBatch_def by (auto simp: Let_def bindE_pair)
  have "balInv db2 \<and> journalInv db2"
  proof (cases "0 < ?credit \<and> ba_Creator b \<noteq> []")
    case True
    with c have c': "chargeCreator (ba_Creator b) False 0
        (voucherEntry (ba_Creator b) ?credit batchID ''voucher batch void (unused credit)'') ?db1 = Inr (tx, db2)" by simp
    show ?thesis using chargeCreator_moves(2,3) [OF c'] \<open>balInv ?db1\<close> \<open>journalInv ?db1\<close> by (simp add: journalInv_def)
  next
    case False
    then have "db2 = ?db1" using c unfolding if_not_P [OF False] by simp
    then show ?thesis using \<open>balInv ?db1\<close> \<open>journalInv ?db1\<close> by simp
  qed
  then show ?thesis using d by (simp add: balInv_def readBalance_def journalInv_def)
qed

lemma InvoiceBatch_keeps:
  assumes "InvoiceBatch profileID m enforce cnt reference db = Inr (x, db')" and "balInv db" and "journalInv db"
  shows "balInv db' \<and> journalInv db'"
proof (cases "db' = db")
  case False
  with assms(1) obtain f :: profileRow and i where "chargeCreator m enforce (wrap64 (pf_Price f * cnt))
      ((voucherEntry m (- wrap64 (pf_Price f * cnt)) reference ''batch subscriber creation invoice'')\<lparr>le_Source := ''subscriber_batch''\<rparr>) db = Inr (i, db')"
    by (auto simp: InvoiceBatch_def Let_def bindE_pair split: if_splits option.splits)
  from chargeCreator_moves(2,3) [OF this] assms(2,3) show ?thesis by (simp add: journalInv_def)
qed (use assms in simp)

lemma books_keeps: "books d db db' \<Longrightarrow> balInv db \<and> journalInv db \<Longrightarrow> balInv db' \<and> journalInv db'"
  by (auto simp: books_def)

lemma billStep_keeps: "billStep db db' \<Longrightarrow> balInv db \<and> journalInv db \<Longrightarrow> balInv db' \<and> journalInv db'"
proof (induction rule: billStep.induct)
  case (money db db')
  then show ?case using moneyStep_books books_keeps by blast
next
  case (generate db tend sha rnds b creator enforce)
  then show ?case
    by (intro endTx_cases [where P = "\<lambda>db'. balInv db' \<and> journalInv db'"]) (auto dest: generateBatch_keeps)
next
  case (void db tend batchID)
  then show ?case by (intro endTx_cases [where P = "\<lambda>db'. balInv db' \<and> journalInv db'"]) (auto dest: voidBatch_keeps)
next
  case (batchInvoice db tend profileID m enforce cnt reference)
  then show ?case by (intro endTx_cases [where P = "\<lambda>db'. balInv db' \<and> journalInv db'"]) (auto dest: InvoiceBatch_keeps)
qed

lemma moneyStep_wallet: "moneyStep db db' \<Longrightarrow> walletInv db \<Longrightarrow> walletInv db'"
  using moneyStep_books by (fastforce simp: walletInv_def books_def)

interpretation bill: kept billStep "\<lambda>db. balInv db \<and> journalInv db"
  by unfold_locales (rule billStep_keeps)

interpretation wallets: kept moneyStep walletInv
  by unfold_locales (rule moneyStep_wallet)

end
