(* ===== verification/BillPaths.thy ===== *)
theory BillPaths
  imports BillBooks
begin

text \<open>
  What every billing transaction keeps follows from what its writes keep. The locale \<open>money_path\<close> is a reflexive and transitive
  relation between databases that holds across each write of the money paths (ledger, balances, journal, payments, subscribers, paid
  invoices); it then holds across a whole renewal, refund, top-up and undo. \<open>bill_path\<close> adds the
  writes on vouchers, batches, idempotency keys and the undo log, and gives the relation for every billing step.
\<close>

locale money_path =
  fixes R :: "Bill \<Rightarrow> Bill \<Rightarrow> bool"
  assumes refl: "R db db"
    and trans: "R db db1 \<Longrightarrow> R db1 db2 \<Longrightarrow> R db db2"
    and ledger: "insertLedger e db = Inr (i, db1) \<Longrightarrow> R db db1"
    and lock: "lockBalance m db = Inr (b, db1) \<Longrightarrow> R db db1"
    and recompute: "recomputeBalance m db = Inr (u, db1) \<Longrightarrow> R db db1"
    and journal: "postLedgerJournal now e j g hp src who db = Inr (u, db1) \<Longrightarrow> R db db1"
    and receipt: "R db (snd (nextReceiptNo prefix db))"
    and payment: "R db (insertPayment row db)"
    and subscriber: "R db (db\<lparr>bl_subs := subs\<rparr>)"
    and paidInvoice: "R db (createPaidInvoiceForRenewal now sub amount descr j who db)"
begin

lemma commission: "postCommission fl now m base source ref db = Inr (u, db') \<Longrightarrow> R db db'"
  by (auto simp: postCommission_def Let_def bindE_pair refl split: if_splits intro: trans dest!: ledger recompute journal)

lemma charge:
  assumes "chargeRenewal fl now p price amount cost db = Inr (i, db')"
  shows "R db db'"
  using assms unfolding chargeRenewal_def Let_def bindE_pair
  by (auto split: if_splits intro: trans refl dest!: ledger recompute journal commission)

lemma check: "checkBalance p amount db = Inr (u, db') \<Longrightarrow> R db db'"
  by (auto simp: checkBalance_def bindE_pair refl split: if_splits dest!: lock)

lemma lockActor_path: "lockActor m db = Inr (u, db1) \<Longrightarrow> R db db1"
  by (auto simp: lockActor_def bindE_pair refl split: if_splits dest!: lock)

lemma recomputeActor_path: "recomputeActor m db = Inr (u, db1) \<Longrightarrow> R db db1"
  by (auto simp: recomputeActor_def refl split: if_splits dest!: recompute)

lemma recordRefund_path: "R db (recordRefund now prefix sub i g src x db)"
proof -
  obtain no db1 where n: "nextReceiptNo prefix db = (no, db1)" by force
  have "R db db1" using receipt [of db prefix] n by simp
  moreover have "R db1 (recordRefund now prefix sub i g src x db)"
    unfolding recordRefund_def n by (auto simp: Let_def rollbackSubscriber_def intro: trans [OF payment subscriber])
  ultimately show ?thesis by (rule trans)
qed

lemma renewInTx_path:
  assumes "renewInTx fl now p db = Inr (res, db')"
  shows "R db db'"
proof -
  from assms obtain s where s: "bl_subs db (p_subscriberID p) = Some s" by (auto simp: renewInTx_def split: option.splits)
  from assms s have t: "targetProfile p s \<noteq> []" by (auto simp: renewInTx_def Let_def split: if_splits)
  from assms s t obtain f where f: "bl_profiles db (targetProfile p s) = Some f" by (auto simp: renewInTx_def Let_def split: option.splits)
  from assms s t f have a: "\<not> pf_Archived f" by (auto simp: renewInTx_def Let_def split: if_splits)
  note eq = assms [unfolded renewInTx_def s option.case Let_def if_not_P [OF t] f if_not_P [OF a] bindE_pair]
  from eq obtain amount price cost u db1 txID db2 where c: "checkBalance p amount db = Inr (u, db1)"
    and g: "chargeRenewal fl now p price amount cost db1 = Inr (txID, db2)"
    and d: "(let db3 = extendSubscriber now (p_subscriberID p) (newExpiryOf now p s f) (targetProfile p s) db2;
          (receiptNo, db4) = nextReceiptNo (p_receiptPrefix p) db3;
          db5 = insertPayment \<lparr>pm_ReceiptNo = receiptNo, pm_LedgerTxID = txID, pm_SubscriberID = p_subscriberID p,
                  pm_Amount = price, pm_Currency = pf_Currency f, pm_Method = p_method p, pm_Source = p_source p\<rparr> db4
        in if 0 < price \<and> pf_Currency f = ''IQD''
           then createPaidInvoiceForRenewal now (p_subscriberID p) price ''Subscription renewal'' (entryOf txID db5) (p_actorManagerID p) db5
           else db5) = db'"
    by (force simp: Let_def split_beta)
  obtain no db4 where n: "nextReceiptNo (p_receiptPrefix p) (extendSubscriber now (p_subscriberID p) (newExpiryOf now p s f) (targetProfile p s) db2)
      = (no, db4)" by force
  have "R db2 (snd (nextReceiptNo (p_receiptPrefix p) (extendSubscriber now (p_subscriberID p) (newExpiryOf now p s f) (targetProfile p s) db2)))"
    unfolding extendSubscriber_def by (rule trans [OF subscriber receipt])
  then have "R db2 db4" by (simp add: n)
  moreover have "R db4 db'" using d by (auto simp: n Let_def split: if_splits intro: payment trans [OF payment paidInvoice])
  ultimately show ?thesis using check [OF c] charge [OF g] trans by blast
qed

lemma recordRefund_after: "R db db1 \<Longrightarrow> R db (recordRefund now prefix sub i g src x db1)"
  by (rule trans [OF _ recordRefund_path])

lemma refundInTx_path:
  assumes "refundInTx fl now prefix sub txID reason source jsource db = Inr (x, db')"
  shows "R db db'"
  using assms unfolding refundInTx_def
  by (auto simp: Let_def bindE_pair asAlreadyRefunded_Inr split: option.splits if_splits
      intro!: recordRefund_after dest!: ledger lockActor_path recomputeActor_path journal) (blast intro: trans)

lemma topup_path: "topup fl now m amount entered memo db = Inr (x, db') \<Longrightarrow> R db db'"
  by (cases x) (auto simp: topup_def Let_def bindE_pair split: if_splits intro: trans dest!: ledger lock recompute journal)

lemma undoTopup_path: "undoTopupCore now txID m amount actor db = Inr (x, db') \<Longrightarrow> R db db'"
  by (auto simp: undoTopupCore_def Let_def bindE_pair asAlreadyRefunded_Inr intro: trans dest!: ledger lock recompute journal)

lemma chargeCreator_path: "chargeCreator m enforce charge e db = Inr (i, db') \<Longrightarrow> R db db'"
  by (auto simp: chargeCreator_def bindE_pair split: if_splits intro: trans refl dest!: ledger lock recompute)

end

text \<open>A used voucher stays used and keeps its code.\<close>

definition vKeeps :: "voucherRow \<Rightarrow> voucherRow \<Rightarrow> bool" where
  "vKeeps v v' \<longleftrightarrow> vo_CodeHash v' = vo_CodeHash v \<and> (vo_State v = ''used'' \<longrightarrow> vo_State v' = ''used'')"

locale bill_path = money_path +
  assumes code: "R db (snd (insertCode sha batchID c db))"
    and fresh: "R db (snd (newID db))"
    and batches: "R db (db\<lparr>bl_batches := bs\<rparr>)"
    and vouchers: "(\<And>v. vKeeps v (g v)) \<Longrightarrow> R db (db\<lparr>bl_vouchers := map g (bl_vouchers db)\<rparr>)"
    and key: "R db (db\<lparr>bl_idem := bl_idem db @ [k]\<rparr>)"
    and undoRows: "R db (db\<lparr>bl_undo := us\<rparr>)"
begin

lemma insertAll_path: "insertAll sha batchID cs db = (plain, db') \<Longrightarrow> R db db'"
proof (induction cs arbitrary: db plain)
  case (Cons c cs)
  obtain ok db1 where i: "insertCode sha batchID c db = (ok, db1)" by force
  then have "R db db1" using code [of db sha batchID c] by simp
  moreover obtain pl where "insertAll sha batchID cs db1 = (pl, db')" using Cons.prems i by (auto split: prod.splits)
  ultimately show ?case using Cons.IH trans by blast
qed (simp add: refl)

lemma insertCodes_path:
  "insertCodes sha rnds batchID prefix codeLen want left k plain db = Inr (out, db') \<Longrightarrow> R db db'"
proof (induction left arbitrary: k plain db)
  case (Suc left)
  show ?case
  proof (cases "length plain < want")
    case True
    with Suc.prems obtain codes where d: "drawLoop sha (want - length plain) [] (map (\<lambda>rnd. genCode rnd prefix codeLen) (rnds k)) = Some codes"
      by (auto split: option.splits)
    obtain more db1 where i: "insertAll sha batchID codes db = (more, db1)" by force
    have "insertCodes sha rnds batchID prefix codeLen want left (Suc k) (plain @ more) db1 = Inr (out, db')"
      using Suc.prems True d i by simp
    from Suc.IH [OF this] insertAll_path [OF i] show ?thesis using trans by blast
  next
    case False
    with Suc.prems show ?thesis by (simp add: refl)
  qed
qed (simp add: refl split: if_splits)

lemma generate_path:
  assumes "generateBatch sha rnds b creator enforce db = Inr (x, db')"
  shows "R db db'"
proof -
  from assms obtain f where f: "bl_profiles db (bi_ProfileID b) = Some f" "\<not> pf_Archived f"
    by (auto simp: generateBatch_def split: option.splits if_splits)
  from assms f obtain i db1 charge e where c: "chargeCreator creator enforce charge e db = Inr (i, db1)"
    and n: "\<exists>bs out. insertCodes sha rnds (fst (newID db1)) (bi_Prefix b) (bi_CodeLength b) (nat (bi_Count b)) 5 0 []
              ((snd (newID db1))\<lparr>bl_batches := bs\<rparr>) = Inr (out, db')"
    by (fastforce simp: generateBatch_def Let_def bindE_pair split_beta)
  from n obtain bs out where "insertCodes sha rnds (fst (newID db1)) (bi_Prefix b) (bi_CodeLength b) (nat (bi_Count b)) 5 0 []
              ((snd (newID db1))\<lparr>bl_batches := bs\<rparr>) = Inr (out, db')" by blast
  from insertCodes_path [OF this] show ?thesis
    by (rule trans [OF chargeCreator_path [OF c] trans [OF trans [OF fresh batches]]])
qed

lemma void_path:
  assumes "voidBatch batchID db = Inr (x, db')"
  shows "R db db'"
proof -
  let ?hit = "\<lambda>v. vo_BatchID v = batchID \<and> vo_State v = ''unused''"
  let ?db1 = "db\<lparr>bl_vouchers := map (\<lambda>v. if ?hit v then v\<lparr>vo_State := ''void''\<rparr> else v) (bl_vouchers db)\<rparr>"
  have v: "R db ?db1" by (rule vouchers) (simp add: vKeeps_def)
  from assms obtain b where b: "find (\<lambda>b. ba_ID b = batchID) (bl_batches db) = Some b" "ba_State b \<noteq> ''void''"
    by (auto simp: voidBatch_def split: option.splits if_splits)
  let ?credit = "wrap64 (ba_UnitPrice b * int (length (filter ?hit (bl_vouchers db))))"
  let ?r = "if 0 < ?credit \<and> ba_Creator b \<noteq> [] then chargeCreator (ba_Creator b) False 0
      (voucherEntry (ba_Creator b) ?credit batchID ''voucher batch void (unused credit)'') ?db1 else Inr ([], ?db1)"
  note eq = assms [unfolded voidBatch_def b(1) option.case if_not_P [OF b(2)] Let_def bindE_pair]
  from eq obtain tx db2 bs where r: "?r = Inr (tx, db2)" and d: "db' = db2\<lparr>bl_batches := bs\<rparr>" by blast
  from r have "R ?db1 db2" by (cases "0 < ?credit \<and> ba_Creator b \<noteq> []") (auto intro: refl chargeCreator_path)
  then show ?thesis unfolding d by (rule trans [OF trans [OF v] batches])
qed

lemma redeem_path:
  assumes "redeemInTx fl sha now anchor prefix code sub redeemer db = Inr (x, db')"
  shows "R db db'"
proof (cases "db' = db")
  case False
  with assms obtain v :: voucherRow and p res db1 where r: "renewInTx fl now p db = Inr (res, db1)"
    and m: "db' = markUsed (vo_ID v) sub (rr_LedgerTxID res) db1"
    by (auto simp: redeemInTx_def bindE_pair split: if_splits option.splits prod.splits)
  have "R db1 db'" unfolding m markUsed_def by (rule vouchers) (simp add: vKeeps_def)
  then show ?thesis using renewInTx_path [OF r] trans by blast
qed (simp add: refl)

lemma endTx_path: "(\<And>x db'. r = Inr (x, db') \<Longrightarrow> R db db') \<Longrightarrow> R db (snd (endTx tend r db))"
  by (rule endTx_cases) (auto intro: refl)

lemma renewTx_path: "R db (snd (renewTx fl tend now p db))"
proof -
  have "R db (snd (endTx tend (bindE (renewInTx fl now p db) (\<lambda>(res, db1).
      Inr ((res, False), if p_idemKey p = [] then db1 else db1\<lparr>bl_idem := bl_idem db1 @ [(p_idemKey p, Some (serialized res))]\<rparr>))) db))"
    by (rule endTx_path) (auto simp: bindE_pair simp del: if_image_distrib dest!: renewInTx_path intro: trans [OF _ key] split: if_splits)
  then show ?thesis by (simp add: renewTx_def refl)
qed

lemma moneyStep_path: "moneyStep db db' \<Longrightarrow> R db db'"
proof (induction rule: moneyStep.induct)
  case (renewal db fl tend now p)
  show ?case by (rule renewTx_path)
next
  case (undoLog db now kind entity actor txID x m amount undoOf)
  obtain i db1 where n: "newID db = (i, db1)" by force
  then have "R db db1" using fresh [of db] by simp
  then show ?case by (auto simp: recordUndo_def n intro: trans [OF _ undoRows])
next
  case (undoMark db undoID revID)
  show ?case unfolding markUndone_def by (rule undoRows)
qed (rule endTx_path; blast intro: topup_path refundInTx_path undoTopup_path redeem_path)+

lemma billStep_path: "billStep db db' \<Longrightarrow> R db db'"
proof (induction rule: billStep.induct)
  case (batchInvoice db tend profileID m enforce cnt reference)
  show ?case
    by (rule endTx_path)
      (auto simp: InvoiceBatch_def Let_def bindE_pair refl dest!: chargeCreator_path split: option.splits if_splits)
qed (rule endTx_path moneyStep_path; blast intro: generate_path void_path)+

lemma billSteps_path: "billStep\<^sup>*\<^sup>* db db' \<Longrightarrow> R db db'"
  by (induction rule: rtranclp_induct) (auto intro: refl trans billStep_path)

end

end
