(* ===== verification/BillLater.thy ===== *)
theory BillLater
  imports BillPaths
begin

text \<open>
  What later billing transactions keep: ledger rows are never removed, idempotency keys are never removed, and a used voucher
  stays used. Each is an instance of the path locales, so only the single writes are looked at here; the facts carry the
  properties that hold after any run of billing steps.
\<close>

section \<open>Later states\<close>

lemmas write_defs = newID_def nextReceiptNo_def insertPayment_def createPaidInvoiceForRenewal_def insertCode_def Let_def

text \<open>The ledger only grows.\<close>

lemma chargeCreator_ledger:
  assumes "chargeCreator m enforce charge e db = Inr (i, db')"
  shows "bl_ledger db' = bl_ledger db @ [\<lparr>lr_ID = i, lr_Currency = ''IQD'', lr_Entry = e\<rparr>]"
proof -
  from assms obtain db1 db2 where
    a: "(if m = [] then Inr ((), db) else bindE (lockBalance m db)
          (\<lambda>(bal, db1). if enforce \<and> bal < charge then Inl errInsufficientFunds else Inr ((), db1))) = Inr ((), db1)"
    and b: "insertLedger e db1 = Inr (i, db2)" and c: "(if m = [] then Inr ((), db2) else recomputeBalance m db2) = Inr ((), db')"
    unfolding chargeCreator_def bindE_pair by auto
  have "bl_ledger db1 = bl_ledger db"
    using a lockBalance_Inr(5) by (cases "m = []") (auto simp: bindE_pair split: if_splits)
  moreover have "bl_ledger db' = bl_ledger db2" using c by (auto dest: recomputeBalance_Inr split: if_splits option.splits)
  ultimately show ?thesis using insertLedger_Inr(1) [OF b] by simp
qed

interpretation grows: bill_path "\<lambda>db db'. \<exists>rows. bl_ledger db' = bl_ledger db @ rows"
  by unfold_locales
    (auto simp: write_defs dest!: insertLedger_Inr(1) lockBalance_Inr(5) recomputeBalance_Inr(1) postLedgerJournal_Inr split: option.splits)

text \<open>The money paths leave vouchers, batches and idempotency keys alone.\<close>

definition aside :: "Bill \<Rightarrow> voucherRow list \<times> batchRow list \<times> (string \<times> renewResult option) list" where
  "aside db = (bl_vouchers db, bl_batches db, bl_idem db)"

interpretation untouched: money_path "\<lambda>db db'. aside db' = aside db"
  by unfold_locales
    (auto simp: aside_def write_defs dest: insertLedger_Inr(1) lockBalance_Inr(7) recomputeBalance_Inr(1) postLedgerJournal_Inr)

text \<open>
  What a later state keeps: idempotency keys are appended; a used voucher stays used, at its place in the table, and no code
  hash changes.
\<close>

definition later :: "Bill \<Rightarrow> Bill \<Rightarrow> bool" where
  "later db db' \<longleftrightarrow> (\<exists>ks. bl_idem db' = bl_idem db @ ks)
     \<and> (\<exists>vs ws. bl_vouchers db' = vs @ ws \<and> list_all2 vKeeps (bl_vouchers db) vs)"

lemma vKeeps_refl: "list_all2 vKeeps vs vs"
  by (simp add: list_all2_same vKeeps_def)

lemma later_refl: "later db db"
  unfolding later_def using vKeeps_refl by (metis append_Nil2)

lemma later_trans:
  assumes "later a b" and "later b c"
  shows "later a c"
proof -
  obtain vs ws where 1: "bl_vouchers b = vs @ ws" "list_all2 vKeeps (bl_vouchers a) vs" using assms(1) by (auto simp: later_def)
  obtain xs ys where 2: "bl_vouchers c = xs @ ys" "list_all2 vKeeps (bl_vouchers b) xs" using assms(2) by (auto simp: later_def)
  from 1(1) 2(2) obtain x1 x2 where x: "xs = x1 @ x2" "list_all2 vKeeps vs x1" by (auto simp: list_all2_append1)
  have "list_all2 vKeeps (bl_vouchers a) x1"
    by (rule list_all2_trans [OF _ 1(2) x(2)]) (auto simp: vKeeps_def)
  then have "\<exists>vs ws. bl_vouchers c = vs @ ws \<and> list_all2 vKeeps (bl_vouchers a) vs" using 2(1) x(1) by auto
  moreover have "\<exists>ks. bl_idem c = bl_idem a @ ks" using assms by (auto simp: later_def)
  ultimately show ?thesis by (simp add: later_def)
qed

lemma later_aside: "aside db' = aside db \<Longrightarrow> later db db'"
  using later_refl [of db] by (simp add: aside_def later_def)

lemma later_same: "bl_vouchers db' = bl_vouchers db \<Longrightarrow> bl_idem db' = bl_idem db @ ks \<Longrightarrow> later db db'"
  using later_refl [of db] by (auto simp: later_def)

lemma later_map: "bl_idem db' = bl_idem db \<Longrightarrow> bl_vouchers db' = map g (bl_vouchers db) \<Longrightarrow> (\<And>v. vKeeps v (g v)) \<Longrightarrow> later db db'"
  unfolding later_def by (intro conjI exI [of _ "[]"] exI [of _ "map g (bl_vouchers db)"]) (simp_all add: list_all2_conv_all_nth)

lemma later_code: "later db (snd (insertCode sha batchID c db))"
proof (cases "list_ex (\<lambda>v. vo_CodeHash v = hashCode sha c) (bl_vouchers db)")
  case True
  then show ?thesis by (simp add: insertCode_def later_refl)
next
  case False
  then obtain w where "bl_vouchers (snd (insertCode sha batchID c db)) = bl_vouchers db @ [w]"
    and "bl_idem (snd (insertCode sha batchID c db)) = bl_idem db"
    by (auto simp: insertCode_def newID_def Let_def)
  then show ?thesis unfolding later_def
    by (intro conjI exI [of _ "[]"] exI [of _ "bl_vouchers db"] exI [of _ "[w]"]) (simp_all add: vKeeps_refl)
qed

interpretation lasting: bill_path later
proof
  show "later db db'" if "later db db1" and "later db1 db'" for db db1 db'
    using that by (rule later_trans)
  show "later db (db\<lparr>bl_vouchers := map g (bl_vouchers db)\<rparr>)" if "\<And>v. vKeeps v (g v)" for db g
    using that by (intro later_map [where g = g]) simp_all
  show "later db (snd (insertCode sha batchID c db))" for db sha batchID c by (rule later_code)
qed (auto intro: later_refl later_same later_aside untouched.ledger untouched.lock untouched.recompute untouched.journal
    simp: aside_def write_defs)

end
