(* ===== verification/BillMoney.thy ===== *)
theory BillMoney
  imports BillLater RadEnforced
begin

text \<open>
  The properties of billing: the books agree after any run of transactions, renewals are charged once and within the
  credit limit, refunds, undos and vouchers work once, and a renewal brings the subscriber's sessions back.
\<close>

section \<open>Balances and journal\<close>

text \<open>
  C2: the books agree. After any run of renewals, top-ups, refunds, undos, voucher redemptions, batch generations, voids and
  batch invoices, each of them committed, rolled back or committed without the caller knowing, every manager's cached balance is the sum of
  their ledger rows, and every journal entry has at least two one-sided lines with equal debits and credits.
\<close>

theorem books_agree:
  assumes "billStep\<^sup>*\<^sup>* db db'" and "balInv db" and "journalInv db" and "m \<noteq> []"
  shows "readBalance m db' = ledgerSum m (bl_ledger db')
     \<and> (\<forall>j \<in> set (bl_journal db'). 2 \<le> length (je_Lines j)
          \<and> sum_list (map jl_Debit (je_Lines j)) = sum_list (map jl_Credit (je_Lines j)) \<and> list_all lineCheck (je_Lines j))"
proof -
  have inv: "balInv db' \<and> journalInv db'" using bill.run_keeps [OF assms(1)] assms(2,3) by blast
  then have "\<forall>j \<in> set (bl_journal db'). entryOK j" by (simp add: journalInv_def)
  with inv assms(4) show ?thesis by (simp add: balInv_def entryOK_def)
qed

text \<open>
  C10: the journal reconciles with the ledger. As long as only renewals, top-ups, refunds, undos and voucher redemptions run, the journal's wallet
  account, taken per manager, equals that manager's ledger sum, commissions included.
\<close>

theorem wallet_reconciles:
  assumes "moneyStep\<^sup>*\<^sup>* db db'" and "walletInv db" and "m \<noteq> []"
  shows "walletNet m (bl_journal db') = ledgerSum m (bl_ledger db')"
  using wallets.run_keeps [OF assms(1,2)] assms(3) by (simp add: walletInv_def)

text \<open>
  Generating vouchers breaks that reconciliation. The batch is charged in the ledger without a journal entry, so from then on the
  wallet account of the creator is ahead of the ledger by the charge.
\<close>

theorem voucher_generation_unreconciled:
  assumes "generateBatch sha rnds b creator enforce db = Inr (x, db')" and "creator \<noteq> []" and "walletInv db"
    and "bl_profiles db (bi_ProfileID b) = Some f" and "inInt64 (pf_Price f * bi_Count b)"
  shows "walletNet creator (bl_journal db') = ledgerSum creator (bl_ledger db') + pf_Price f * bi_Count b"
  using assms(1)
proof (rule generateBatch_Inr)
  fix f' i db1
  assume f': "bl_profiles db (bi_ProfileID b) = Some f'"
    and c: "chargeCreator creator enforce (wrap64 (pf_Price f' * bi_Count b))
      (voucherEntry creator (- wrap64 (pf_Price f' * bi_Count b)) [] ''voucher batch generation'') db = Inr (i, db1)"
    and eqs: "bl_ledger db' = bl_ledger db1" "bl_journal db' = bl_journal db1"
  have "f' = f" using f' assms(4) by simp
  then show ?thesis
    using chargeCreator_moves(1) [OF c, of creator] chargeCreator_moves(2) [OF c] eqs assms(2,3,5) by (simp add: walletInv_def moveOf_def wrap64_id)
qed

section \<open>Renewals\<close>

lemma commissionDue_nonneg: "0 \<le> commissionDue fl m base db"
  by (simp add: commissionDue_def)

text \<open>
  C28: the credit limit holds. A renewal that is enforced against the actor's balance and does not fail leaves that balance at or above the
  negated credit limit.
\<close>

theorem credit_limit_respected:
  assumes "renewInTx fl now p db = Inr (res, db')" and "p_chargeBalance p" and "p_enforceBalance p" and "balInv db"
  shows "- managerCreditLimit (p_actorManagerID p) db \<le> readBalance (p_actorManagerID p) db'"
  using assms(1)
proof (rule renewInTx_books)
  fix s f
  let ?m = "p_actorManagerID p" and ?a = "renewAmount now p s f db"
  assume b: "books (creditOf ?m (renewalDelta fl p ?a db)) db db'"
    and le: "p_chargeBalance p \<Longrightarrow> p_enforceBalance p \<Longrightarrow> - managerCreditLimit ?m db \<le> wrap64 (readBalance ?m db - ?a)"
    and ne: "p_chargeBalance p \<Longrightarrow> ?m \<noteq> []"
    and rng: "p_chargeBalance p \<Longrightarrow> inInt64 (ledgerSum ?m (bl_ledger db) - ?a)"
  have m: "?m \<noteq> []" using ne assms(2) by simp
  have "readBalance ?m db' = readBalance ?m db - ?a + commissionDue fl ?m ?a db"
    using b assms(2,4) m by (simp add: books_def balInv_def renewalDelta_def)
  moreover have "wrap64 (readBalance ?m db - ?a) = readBalance ?m db - ?a" using rng [OF assms(2)] assms(4) m by (simp add: wrap64_id balInv_def)
  ultimately show ?thesis using le [OF assms(2,3)] commissionDue_nonneg [of fl ?m ?a db] by simp
qed

text \<open>Charging leaves the subscribers and the payments alone.\<close>

definition customers :: "Bill \<Rightarrow> (string \<Rightarrow> subscriberRow option) \<times> paymentRow list" where
  "customers db = (bl_subs db, bl_payments db)"

lemma customers_prims:
  "insertLedger e db = Inr (i, db1) \<Longrightarrow> customers db1 = customers db"
  "lockBalance m db = Inr (b, db1) \<Longrightarrow> customers db1 = customers db"
  "recomputeBalance m db = Inr (u, db1) \<Longrightarrow> customers db1 = customers db"
  "postLedgerJournal now e j g hp src who db = Inr (u, db1) \<Longrightarrow> customers db1 = customers db"
  by (auto simp: customers_def dest: insertLedger_Inr(1) lockBalance_Inr(7) recomputeBalance_Inr(1) postLedgerJournal_Inr)

lemma customers_commission: "postCommission fl now m base source ref db = Inr (u, db') \<Longrightarrow> customers db' = customers db"
  by (auto simp: postCommission_def Let_def bindE_pair dest!: customers_prims split: if_splits)

lemma renewal_keeps:
  assumes "checkBalance p a db = Inr (u, db1)" and "chargeRenewal fl now p price amount cost db1 = Inr (i, db2)"
  shows "bl_subs db2 = bl_subs db \<and> bl_payments db2 = bl_payments db"
proof -
  have "customers db1 = customers db"
    using assms(1) by (auto simp: checkBalance_def bindE_pair dest!: customers_prims split: if_splits)
  moreover have "customers db2 = customers db1"
    using assms(2) by (auto simp: chargeRenewal_def Let_def bindE_pair dest!: customers_prims customers_commission split: if_splits)
  ultimately show ?thesis by (simp add: customers_def)
qed

lemma newExpiry_from:
  assumes "p_baseOverride p = None" and "p_durationOverrideDays p = None"
  shows "newExpiryOf now p s f = addDays (if p_anchorRule p = anchorFromExpiry
      then max now (case sb_ExpiresAt s of Some x \<Rightarrow> x | None \<Rightarrow> now) else now) (pf_DurationDays f)"
  using assms by (auto simp: newExpiryOf_def computeExpiry_def split: option.splits)

lemma renewed_expiry:
  assumes "renewInTx fl now p db = Inr (res, db1)" and "bl_subs db (p_subscriberID p) = Some s"
    and "bl_profiles db (targetProfile p s) = Some f" and "p_baseOverride p = None" and "p_durationOverrideDays p = None"
  shows "\<exists>s1. bl_subs db1 (p_subscriberID p) = Some s1 \<and> sb_ProfileID s1 = targetProfile p s \<and> sb_Status s1 = ''active''
     \<and> sb_ExpiresAt s1 = Some (addDays (if p_anchorRule p = anchorFromExpiry
          then max now (case sb_ExpiresAt s of Some x \<Rightarrow> x | None \<Rightarrow> now) else now) (pf_DurationDays f))
     \<and> bl_profiles db1 = bl_profiles db"
  using assms(1)
proof (rule renewInTx_Inr)
  fix s' f' db2 db3
  assume s': "bl_subs db (p_subscriberID p) = Some s'" and f': "bl_profiles db (targetProfile p s') = Some f'"
    and c: "checkBalance p (renewAmount now p s' f' db) db = Inr ((), db2)"
    and g: "chargeRenewal fl now p (renewPrice s' f') (renewAmount now p s' f' db)
      (costAtSaleOf now (targetProfile p s') (pf_Currency f') db) db2 = Inr (rr_LedgerTxID res, db3)"
    and subs: "bl_subs db1 = bl_subs (extendSubscriber now (p_subscriberID p) (newExpiryOf now p s' f') (targetProfile p s') db3)"
  have "s' = s" "f' = f" using s' f' assms(2,3) by auto
  moreover have "bl_profiles db1 = bl_profiles db" using assms(1) by (rule renewInTx_books) (simp add: books_def)
  ultimately show ?thesis
    using subs renewal_keeps [OF c g] assms(2) newExpiry_from [OF assms(4,5)] by (simp add: extendSubscriber_def)
qed

lemma renewTx_stores:
  assumes "renewTx fl tend now p db = (r, db1)" and "tend \<noteq> RolledBack" and "renewInTx fl now p db = Inr (res, db0)"
    and "p_idemKey p \<noteq> []" and "p_idemKey p \<notin> fst ` set (bl_idem db)"
  shows "bl_idem db1 = bl_idem db @ [(p_idemKey p, Some (serialized res))]"
proof -
  have "db1 = db0\<lparr>bl_idem := bl_idem db0 @ [(p_idemKey p, Some (serialized res))]\<rparr>"
    using assms by (cases tend) (auto simp: renewTx_def endTx_def)
  moreover have "bl_idem db0 = bl_idem db" using untouched.renewInTx_path [OF assms(3)] by (simp add: aside_def)
  ultimately show ?thesis by simp
qed

lemma renewTx_replays:
  assumes "bl_idem db = xs @ (p_idemKey p, Some res) # ys" and "p_idemKey p \<notin> fst ` set xs" and "p_idemKey p \<noteq> []"
  shows "renewTx fl tend now p db = (Inr (res, True), db)"
proof -
  have "map_of xs (p_idemKey p) = None" using assms(2) by (auto simp: map_of_eq_None_iff)
  then have "map_of (bl_idem db) (p_idemKey p) = Some (Some res)" by (simp add: assms(1) map_add_def)
  then show ?thesis using assms(1,3) by (simp add: renewTx_def readIdempotent_def)
qed

text \<open>
  C5: a renewal request is charged once. When a renewal with an idempotency key has committed, also when the caller was told that it
  failed, every later request with that key, whatever billing transactions ran in between and whatever it asks for, returns the stored
  result as a replay and changes nothing.
\<close>

theorem renewal_charged_once:
  assumes "renewTx fl tend now p db = (r, db1)" and "tend \<noteq> RolledBack" and "renewInTx fl now p db = Inr (res, db0)"
    and "p_idemKey p \<noteq> []" and "p_idemKey p \<notin> fst ` set (bl_idem db)"
    and "billStep\<^sup>*\<^sup>* db1 db2" and "p_idemKey p' = p_idemKey p"
  shows "renewTx fl' tend' now' p' db2 = (Inr (serialized res, True), db2)"
proof -
  obtain ks where "bl_idem db2 = bl_idem db @ (p_idemKey p, Some (serialized res)) # ks"
    using lasting.billSteps_path [OF assms(6)] renewTx_stores [OF assms(1-5)] by (auto simp: later_def)
  then show ?thesis using assms(4,5,7) by (intro renewTx_replays) auto
qed

text \<open>
  What a renewal gives. A successful renewal leaves the subscriber active on the target profile with the
  returned expiry, which is the configured days after the later of now and (with the rule \<open>from_expiry\<close>) the old expiry; it records one
  payment of the full retail price, and returns the rate and pool the online sessions are put back to.
\<close>

theorem renewal_effects:
  assumes "renewInTx fl now p db = Inr (res, db')" and "bl_subs db (p_subscriberID p) = Some s"
    and "bl_profiles db (targetProfile p s) = Some f"
    and "p_baseOverride p = None" and "p_durationOverrideDays p = None"
  shows "(\<exists>s'. bl_subs db' (p_subscriberID p) = Some s' \<and> sb_Status s' = ''active'' \<and> sb_ProfileID s' = targetProfile p s
        \<and> sb_ExpiresAt s' = Some (rr_NewExpiresAt res))
     \<and> rr_NewExpiresAt res = (if p_anchorRule p = anchorFromExpiry then max now (case sb_ExpiresAt s of Some x \<Rightarrow> x | None \<Rightarrow> now) else now)
         + pf_DurationDays f * dayLength
     \<and> (\<exists>pm. bl_payments db' = bl_payments db @ [pm] \<and> pm_Amount pm = resolvePrice (sb_PriceOverride s) (pf_Price f)
         \<and> pm_SubscriberID pm = p_subscriberID p \<and> pm_LedgerTxID pm = rr_LedgerTxID res)
     \<and> rr_rate res = resolveRate (sb_RateOverride s) (pf_RateUpKbps f) (pf_RateDownKbps f) \<and> rr_poolName res = pf_PoolName f"
  using assms(1)
proof (rule renewInTx_Inr)
  fix s' f' db1 db2
  assume s': "bl_subs db (p_subscriberID p) = Some s'" and f': "bl_profiles db (targetProfile p s') = Some f'"
    and c: "checkBalance p (renewAmount now p s' f' db) db = Inr ((), db1)"
    and g: "chargeRenewal fl now p (renewPrice s' f') (renewAmount now p s' f' db)
      (costAtSaleOf now (targetProfile p s') (pf_Currency f') db) db1 = Inr (rr_LedgerTxID res, db2)"
    and subs: "bl_subs db' = bl_subs (extendSubscriber now (p_subscriberID p) (newExpiryOf now p s' f') (targetProfile p s') db2)"
    and pay: "bl_payments db' = bl_payments (insertPayment \<lparr>pm_ReceiptNo = rr_ReceiptNo res, pm_LedgerTxID = rr_LedgerTxID res,
       pm_SubscriberID = p_subscriberID p, pm_Amount = renewPrice s' f', pm_Currency = pf_Currency f', pm_Method = p_method p,
       pm_Source = p_source p\<rparr> db2)"
    and res: "rr_NewExpiresAt res = newExpiryOf now p s' f'" "rr_rate res = resolveRate (sb_RateOverride s') (pf_RateUpKbps f') (pf_RateDownKbps f')"
      "rr_poolName res = pf_PoolName f'"
  have [simp]: "s' = s" "f' = f" using s' f' assms(2,3) by auto
  have k: "bl_subs db2 = bl_subs db \<and> bl_payments db2 = bl_payments db" using renewal_keeps [OF c g] .
  have "newExpiryOf now p s f = (if p_anchorRule p = anchorFromExpiry then max now (case sb_ExpiresAt s of Some x \<Rightarrow> x | None \<Rightarrow> now) else now)
      + pf_DurationDays f * dayLength"
    using assms(4,5) by (auto simp: newExpiryOf_def computeExpiry_def addDays_def split: option.splits)
  then show ?thesis using subs pay res k assms(2) by (auto simp: extendSubscriber_def insertPayment_def renewPrice_def)
qed

section \<open>Refunds and undo\<close>

text \<open>
  C12: a ledger row is refunded at most once. After a refund of a row has gone through, every later refund or
  undo of that row fails, whatever billing transactions ran in between.
\<close>

theorem refund_at_most_once:
  assumes "refundInTx fl now prefix sub txID reason source jsource db = Inr (x, db1)" and "txID \<noteq> []"
    and "billStep\<^sup>*\<^sup>* db1 db2"
  shows "\<exists>e. refundInTx fl' now' prefix' sub' txID reason' source' jsource' db2 = Inl e"
proof (rule ccontr)
  assume "\<not> ?thesis"
  then obtain y db3 where "refundInTx fl' now' prefix' sub' txID reason' source' jsource' db2 = Inr (y, db3)"
    by (cases "refundInTx fl' now' prefix' sub' txID reason' source' jsource' db2") auto
  then show False
  proof (rule refundInTx_Inr)
    fix r amt rateID db4 rid db5
    assume r: "findRow txID db2 = Some r" and l: "lockActor (le_ActorManagerID (lr_Entry r)) db2 = Inr ((), db4)"
      and i: "insertLedger (refundEntry r sub' amt rateID reason' source') db4 = Inr (rid, db5)"
    have "lr_ID r = txID" using r by (auto simp: findRow_def find_Some_iff)
    then have "\<forall>row \<in> set (bl_ledger db2). le_ReversesID (lr_Entry row) \<noteq> txID"
      using insertLedger_Inr(3) [OF i] lockActor_Inr(3) [OF l] assms(2) by (auto simp: refundEntry_def Let_def)
    moreover have "\<exists>row \<in> set (bl_ledger db1). le_ReversesID (lr_Entry row) = txID" using assms(1) by (rule refundInTx_books)
    ultimately show False using grows.billSteps_path [OF assms(3)] by auto
  qed
qed

lemma find_skip: "find P xs = None \<Longrightarrow> find P (xs @ ys) = find P ys"
  by (induction xs) (auto split: if_splits)

lemma renewed_row:
  assumes "renewInTx fl now p db = Inr (res, db1)" and "findRow (rr_LedgerTxID res) db = None"
  obtains s f cost where "bl_subs db (p_subscriberID p) = Some s" and "bl_profiles db (targetProfile p s) = Some f"
    and "books (creditOf (p_actorManagerID p) (renewalDelta fl p (renewAmount now p s f db) db)) db db1"
    and "findRow (rr_LedgerTxID res) db1 = Some \<lparr>lr_ID = rr_LedgerTxID res, lr_Currency = ''IQD'',
      lr_Entry = renewEntry p (if p_chargeBalance p then - renewAmount now p s f db else 0) cost\<rparr>"
    and "p_chargeBalance p \<Longrightarrow> p_actorManagerID p \<noteq> []"
  using assms(1)
proof (rule renewInTx_books)
  fix s f
  assume h: "bl_subs db (p_subscriberID p) = Some s" "bl_profiles db (targetProfile p s) = Some f"
      "books (creditOf (p_actorManagerID p) (renewalDelta fl p (renewAmount now p s f db) db)) db db1"
      "p_chargeBalance p \<Longrightarrow> p_actorManagerID p \<noteq> []"
    and row: "\<exists>rows cost. bl_ledger db1 = bl_ledger db @ \<lparr>lr_ID = rr_LedgerTxID res, lr_Currency = ''IQD'',
           lr_Entry = renewEntry p (if p_chargeBalance p then - renewAmount now p s f db else 0) cost\<rparr> # rows"
  from row obtain rows cost where l: "bl_ledger db1 = bl_ledger db @ \<lparr>lr_ID = rr_LedgerTxID res, lr_Currency = ''IQD'',
      lr_Entry = renewEntry p (if p_chargeBalance p then - renewAmount now p s f db else 0) cost\<rparr> # rows" by blast
  have "find (\<lambda>r. lr_ID r = rr_LedgerTxID res) (bl_ledger db @ x # rows) = Some x" if "lr_ID x = rr_LedgerTxID res" for x
    using assms(2) that by (simp add: findRow_def find_skip)
  then show thesis using h l by (intro that [of s f cost]) (auto simp: findRow_def)
qed

text \<open>
  A refund does not take the commission back. A renewal charged to a manager and then refunded, at whatever time, leaves the
  manager's balance above the one before the renewal by the whole commission of that renewal.
\<close>

theorem refund_keeps_commission:
  assumes "renewInTx fl now p db = Inr (res, db1)" and "p_chargeBalance p" and "balInv db"
    and "findRow (rr_LedgerTxID res) db = None"
    and "bl_subs db (p_subscriberID p) = Some s" and "bl_profiles db (targetProfile p s) = Some f"
    and "refundInTx fl' now' prefix (p_subscriberID p) (rr_LedgerTxID res) reason source jsource db1 = Inr (x, db2)"
  shows "readBalance (p_actorManagerID p) db2 =
    readBalance (p_actorManagerID p) db + commissionDue fl (p_actorManagerID p) (renewAmount now p s f db) db"
  using assms(1,4)
proof (rule renewed_row)
  fix s' f' cost
  let ?m = "p_actorManagerID p"
  assume s': "bl_subs db (p_subscriberID p) = Some s'" and f': "bl_profiles db (targetProfile p s') = Some f'"
    and b: "books (creditOf ?m (renewalDelta fl p (renewAmount now p s' f' db) db)) db db1"
    and row: "findRow (rr_LedgerTxID res) db1 = Some \<lparr>lr_ID = rr_LedgerTxID res, lr_Currency = ''IQD'',
      lr_Entry = renewEntry p (if p_chargeBalance p then - renewAmount now p s' f' db else 0) cost\<rparr>"
    and m: "p_chargeBalance p \<Longrightarrow> ?m \<noteq> []"
  have [simp]: "s' = s" "f' = f" using s' f' assms(5,6) by auto
  from assms(7) show ?thesis
  proof (rule refundInTx_books)
    fix r amt rateID
    assume r: "findRow (rr_LedgerTxID res) db1 = Some r"
      and sg: "signedToIQD fl' (- le_Amount (lr_Entry r)) (lr_Currency r) db1 = Inr (amt, rateID)"
      and b2: "books (creditOf (le_ActorManagerID (lr_Entry r)) amt) db1 db2"
    have "amt = renewAmount now p s f db" "le_ActorManagerID (lr_Entry r) = ?m"
      using r row sg assms(2) by (auto simp: signedToIQD_def renewEntry_def)
    then have "balInv db2 \<and> ledgerSum ?m (bl_ledger db2) = ledgerSum ?m (bl_ledger db) + commissionDue fl ?m (renewAmount now p s f db) db"
      using b b2 assms(2,3) by (simp add: books_def renewalDelta_def)
    then show ?thesis using assms(2,3) m by (simp add: balInv_def)
  qed
qed

text \<open>
  A refund takes the days back. After a renewal and its refund the subscriber expires at the instant the renewal was
  counted from, or at once if that has passed, and the status says which of the two it is.
\<close>

theorem refund_rolls_back:
  assumes "renewInTx fl now p db = Inr (res, db1)" and "bl_subs db (p_subscriberID p) = Some s"
    and "bl_profiles db (targetProfile p s) = Some f" and "p_baseOverride p = None" and "p_durationOverrideDays p = None"
    and "refundInTx fl' now' prefix (p_subscriberID p) (rr_LedgerTxID res) reason source jsource db1 = Inr (x, db2)"
  shows "\<exists>s2. bl_subs db2 (p_subscriberID p) = Some s2
     \<and> sb_ExpiresAt s2 = Some (max now' (if p_anchorRule p = anchorFromExpiry
          then max now (case sb_ExpiresAt s of Some c \<Rightarrow> c | None \<Rightarrow> now) else now))
     \<and> (sb_Status s2 = ''expired'' \<longleftrightarrow> (\<exists>c. sb_ExpiresAt s2 = Some c \<and> c \<le> now'))"
proof -
  obtain s1 where s1: "bl_subs db1 (p_subscriberID p) = Some s1" "sb_ProfileID s1 = targetProfile p s"
      "sb_ExpiresAt s1 = Some (addDays (if p_anchorRule p = anchorFromExpiry
          then max now (case sb_ExpiresAt s of Some c \<Rightarrow> c | None \<Rightarrow> now) else now) (pf_DurationDays f))"
    and pr: "bl_profiles db1 = bl_profiles db"
    using renewed_expiry [OF assms(1-5)] by blast
  from assms(6) show ?thesis
  proof (rule refundInTx_Inr)
    fix r s' amt rateID gross db3 rid db4 db5 db6
    assume s': "bl_subs db1 (p_subscriberID p) = Some s'"
      and l: "lockActor (le_ActorManagerID (lr_Entry r)) db1 = Inr ((), db3)"
      and ins: "insertLedger (refundEntry r (p_subscriberID p) amt rateID reason source) db3 = Inr (rid, db4)"
      and rec: "recomputeActor (le_ActorManagerID (lr_Entry r)) db4 = Inr ((), db5)"
      and post: "postLedgerJournal now' (refundEntry r (p_subscriberID p) amt rateID reason source) rid gross True jsource
          (le_ActorManagerID (lr_Entry r)) db5 = Inr ((), db6)"
      and subs: "bl_subs db2 = bl_subs (rollbackSubscriber now' (p_subscriberID p) (rollbackExpiry now' (sb_ExpiresAt s')
           (grantedDays s' db1)) db6)"
    have [simp]: "s' = s1" using s' s1 by simp
    have "bl_subs db6 = bl_subs db1"
      using lockActor_Inr(3) [OF l] customers_prims(1) [OF ins] recomputeActor_Inr [OF rec] customers_prims(3) customers_prims(4) [OF post]
      by (auto simp: customers_def)
    moreover have "grantedDays s1 db1 = pf_DurationDays f" using s1(2) pr assms(3) by (simp add: grantedDays_def)
    ultimately show ?thesis
      using subs s1(1,3) by (auto simp: rollbackSubscriber_def rollbackExpiry_def addDays_def Let_def)
  qed
qed

text \<open>The reversal behind an undo leaves the undo log alone.\<close>

lemma undo_prims:
  "insertLedger e db = Inr (i, db1) \<Longrightarrow> bl_undo db1 = bl_undo db"
  "lockBalance m db = Inr (b, db1) \<Longrightarrow> bl_undo db1 = bl_undo db"
  "recomputeBalance m db = Inr (u, db1) \<Longrightarrow> bl_undo db1 = bl_undo db"
  "postLedgerJournal now e j g hp src who db = Inr (u, db1) \<Longrightarrow> bl_undo db1 = bl_undo db"
  by (auto dest: insertLedger_Inr(1) lockBalance_Inr(7) recomputeBalance_Inr(1) postLedgerJournal_Inr)

lemma refundInTx_undo: "refundInTx fl now prefix sub txID reason source jsource db = Inr (x, db') \<Longrightarrow> bl_undo db' = bl_undo db"
  unfolding refundInTx_def
  by (auto simp: Let_def bindE_pair asAlreadyRefunded_Inr recordRefund_def nextReceiptNo_def insertPayment_def rollbackSubscriber_def
      lockActor_def recomputeActor_def dest!: undo_prims split: option.splits if_splits)

lemma undoTopupCore_undo: "undoTopupCore now txID m amount actor db = Inr (x, db') \<Longrightarrow> bl_undo db' = bl_undo db"
  by (auto simp: undoTopupCore_def Let_def bindE_pair asAlreadyRefunded_Inr dest!: undo_prims)

lemma endTx_keeps: "endTx tend r db = (y, db') \<Longrightarrow> (\<And>x db1. r = Inr (x, db1) \<Longrightarrow> f db1 = f db) \<Longrightarrow> f db' = f db"
  by (cases r; cases tend) (auto simp: endTx_def)

lemma reverseAction_undo: "reverseAction rv prefix u actor w = (Inr revID, w1) \<Longrightarrow> bl_undo (rw_bill w1) = bl_undo (rw_bill w)"
  by (auto simp: reverseAction_def refundCore_def Let_def dest!: endTx_keeps [where f = bl_undo] refundInTx_undo undoTopupCore_undo
      split: if_splits option.splits prod.splits sum.splits)

text \<open>
  Undoing a top-up restores the balance. A top-up and the undo of its row leave the manager's balance, and every other
  manager's, as they were.
\<close>

theorem topup_undo_roundtrip:
  assumes "topup fl now m amount entered memo db = Inr ((txID, iqd), db1)"
    and "undoTopupCore now' txID m iqd actor db1 = Inr (revID, db2)" and "balInv db" and "k \<noteq> []"
  shows "readBalance k db2 = readBalance k db \<and> balInv db2"
  using topup_books [OF assms(1)] undoTopupCore_books [OF assms(2)] assms(3,4)
  by (auto simp: books_def balInv_def creditOf_def)

text \<open>
  An undo cannot be redone. The second id that an undo returns names a row of a kind that the undo endpoint does not know, so within
  its five minutes undoing it fails, and changes nothing.
\<close>

theorem redo_never_works:
  assumes "performUndo rv late prefix undoID actor w = (Inr (revID, redoID), w1)"
    and "\<forall>u \<in> set (bl_undo (rw_bill w)). un_ID u \<noteq> redoID"
    and "rv_now rv' \<le> rv_now rv + undoWindow"
  shows "performUndo rv' late' prefix' redoID actor' w1 = (Inl errUnknownKind, w1)"
proof -
  from assms(1) obtain u w0 where a: "reverseAction rv prefix u actor w = (Inr revID, w0)"
    and r: "recordUndo (rv_now rv) ''undo_reversal'' (un_EntityID u) actor revID 0 [] 0 undoID (markUndone undoID revID (rw_bill w0)) = (redoID, rw_bill w1)"
    by (auto simp: performUndo_def Let_def split: option.splits if_splits prod.splits sum.splits)
  let ?rec = "recordUndo (rv_now rv) ''undo_reversal'' (un_EntityID u) actor revID 0 [] 0 undoID (markUndone undoID revID (rw_bill w0))"
  have "bl_undo (rw_bill w0) = bl_undo (rw_bill w)" using reverseAction_undo [OF a] .
  then have "find (\<lambda>u. un_ID u = redoID) (map (\<lambda>u. if un_ID u = undoID then u\<lparr>un_Undone := True, un_ReversalTxID := revID\<rparr> else u)
      (bl_undo (rw_bill w0))) = None"
    using assms(2) by (auto simp: find_None_iff)
  moreover have "redoID = fst ?rec" "rw_bill w1 = snd ?rec" using r by simp_all
  ultimately have "\<exists>v. find (\<lambda>u. un_ID u = redoID) (bl_undo (rw_bill w1)) = Some v \<and> \<not> un_Undone v
      \<and> un_Kind v = ''undo_reversal'' \<and> un_ExpiresAt v = rv_now rv + undoWindow"
    by (simp add: recordUndo_def newID_def markUndone_def Let_def find_skip)
  then show ?thesis using assms(3) by (auto simp: performUndo_def reverseAction_def)
qed

section \<open>Vouchers\<close>

lemma find_used:
  assumes "list_all2 vKeeps vs vs'" and "find (\<lambda>v. vo_CodeHash v = h \<or> vo_CodeHash v = h') vs = Some v" and "vo_State v = ''used''"
  shows "\<exists>v'. find (\<lambda>v. vo_CodeHash v = h \<or> vo_CodeHash v = h') (vs' @ ws) = Some v' \<and> vo_State v' = ''used''"
  using assms by (induction rule: list_all2_induct) (auto simp: vKeeps_def split: if_splits)

lemma find_map_used:
  assumes "find P vs = Some v" and "\<And>v. P (g v) = P v"
  shows "find P (map g vs) = Some (g v)"
  using assms by (induction vs) (auto split: if_splits)

text \<open>
  C11: a voucher works once. After a code has been redeemed, redeeming it again, for whomever and whatever billing transactions ran in
  between, is refused and changes nothing.
\<close>

theorem voucher_single_use:
  assumes "redeemInTx fl sha now anchor prefix code sub redeemer db = Inr ((Some res, redeemOK), db1)"
    and "billStep\<^sup>*\<^sup>* db1 db2"
  shows "\<exists>oc. oc \<noteq> redeemOK
     \<and> redeemInTx fl' sha now' anchor' prefix' code sub' redeemer' db2 = Inr ((None, oc), db2)"
proof -
  let ?P = "\<lambda>v. vo_CodeHash v = hashCode sha code \<or> vo_CodeHash v = legacyHashCode sha code"
  from assms(1) obtain v b db0 where f: "findVoucher sha code db = Some (v, b)"
    and r: "renewInTx fl now (redeemParams sub redeemer (ba_ProfileID b) (vo_ID v) anchor prefix) db = Inr (res, db0)"
    and m: "db1 = markUsed (vo_ID v) sub (rr_LedgerTxID res) db0"
    by (auto simp: redeemInTx_def bindE_pair split: if_splits option.splits prod.splits)
  have "find ?P (bl_vouchers db0) = Some v"
    using f untouched.renewInTx_path [OF r] by (auto simp: findVoucher_def aside_def split: option.splits)
  then obtain v1 where v1: "find ?P (bl_vouchers db1) = Some v1" "vo_State v1 = ''used''"
    unfolding m markUsed_def by (auto simp: find_map_used)
  obtain vs ws where vs: "bl_vouchers db2 = vs @ ws" "list_all2 vKeeps (bl_vouchers db1) vs"
    using lasting.billSteps_path [OF assms(2)] by (auto simp: later_def)
  have "\<exists>v'. find ?P (bl_vouchers db2) = Some v' \<and> vo_State v' = ''used''" unfolding vs(1) by (rule find_used [OF vs(2) v1])
  then show ?thesis by (auto simp: redeemInTx_def findVoucher_def map_option_case split: option.splits)
qed

definition unusedIn :: "string \<Rightarrow> Bill \<Rightarrow> nat" where
  "unusedIn batchID db = length (filter (\<lambda>v. vo_BatchID v = batchID \<and> vo_State v = ''unused'') (bl_vouchers db))"

lemma insertAll_count:
  "insertAll sha batchID cs db = (plain, db') \<Longrightarrow> unusedIn batchID db' = unusedIn batchID db + length plain \<and> length plain \<le> length cs"
proof (induction cs arbitrary: db plain)
  case (Cons c cs)
  obtain ok db1 pl where i: "insertCode sha batchID c db = (ok, db1)" and r: "insertAll sha batchID cs db1 = (pl, db')"
    and p: "plain = (if ok then c # pl else pl)"
    using Cons.prems by (auto split: prod.splits)
  have "unusedIn batchID db1 = unusedIn batchID db + (if ok then 1 else 0)"
    using i by (auto simp: insertCode_def newID_def unusedIn_def Let_def split: if_splits)
  with Cons.IH [OF r] p show ?case by auto
qed simp

lemma drawLoop_length: "drawLoop sha need codes cs = Some out \<Longrightarrow> length codes \<le> need \<Longrightarrow> length out = need"
proof (induction cs arbitrary: codes)
  case (Cons c cs)
  show ?case
  proof (cases "length codes < need")
    case True
    with Cons.prems Cons.IH show ?thesis by (auto split: if_splits)
  qed (use Cons.prems in auto)
qed (auto split: if_splits)

lemma insertCodes_count:
  "insertCodes sha rnds batchID prefix codeLen want left k plain db = Inr (out, db') \<Longrightarrow> length plain \<le> want \<Longrightarrow>
     length out = want \<and> unusedIn batchID db' + length plain = unusedIn batchID db + want"
proof (induction left arbitrary: k plain db)
  case 0
  then show ?case by (auto split: if_splits)
next
  case (Suc left)
  show ?case
  proof (cases "length plain < want")
    case True
    with Suc.prems obtain codes where d: "drawLoop sha (want - length plain) [] (map (\<lambda>rnd. genCode rnd prefix codeLen) (rnds k)) = Some codes"
      by (auto split: option.splits)
    obtain more db1 where i: "insertAll sha batchID codes db = (more, db1)" by force
    have "insertCodes sha rnds batchID prefix codeLen want left (Suc k) (plain @ more) db1 = Inr (out, db')"
      using Suc.prems True d i by simp
    moreover have "length (plain @ more) \<le> want" using insertAll_count [OF i] drawLoop_length [OF d] True by auto
    ultimately show ?thesis using Suc.IH insertAll_count [OF i] by fastforce
  qed (use Suc.prems in simp)
qed

lemma generated_batch:
  assumes "generateBatch sha rnds b creator enforce db = Inr ((batchID, plain), db')"
    and "\<forall>x \<in> set (bl_batches db). ba_ID x \<noteq> batchID" and "\<forall>v \<in> set (bl_vouchers db). vo_BatchID v \<noteq> batchID"
    and "bl_profiles db (bi_ProfileID b) = Some f"
  shows "length plain = nat (bi_Count b) \<and> unusedIn batchID db' = nat (bi_Count b)
     \<and> (\<exists>x. find (\<lambda>x. ba_ID x = batchID) (bl_batches db') = Some x \<and> ba_State x = ''active'' \<and> ba_UnitPrice x = pf_Price f \<and> ba_Creator x = creator)"
proof -
  from assms(1,4) have a: "\<not> pf_Archived f" by (auto simp: generateBatch_def split: if_splits)
  from assms(1,4) a obtain i db1 where c: "chargeCreator creator enforce (wrap64 (pf_Price f * bi_Count b))
      (voucherEntry creator (- wrap64 (pf_Price f * bi_Count b)) [] ''voucher batch generation'') db = Inr (i, db1)"
    by (auto simp: generateBatch_def Let_def bindE_pair)
  let ?row = "\<lparr>ba_ID = batchID, ba_ProfileID = bi_ProfileID b, ba_Prefix = toUpper (bi_Prefix b),
        ba_Count = bi_Count b, ba_UnitPrice = pf_Price f, ba_Currency = pf_Currency f, ba_Creator = creator,
        ba_ExpiresAt = bi_ExpiresAt b, ba_GenTx = i, ba_State = ''active'', ba_VoidTx = ''''\<rparr>"
  from assms(1,4) a c obtain db2 where n: "insertCodes sha rnds batchID (bi_Prefix b) (bi_CodeLength b) (nat (bi_Count b)) 5 0 [] db2 = Inr (plain, db')"
    and d: "bl_batches db2 = bl_batches db1 @ [?row]" "bl_vouchers db2 = bl_vouchers db1"
    by (auto simp: generateBatch_def Let_def bindE_pair newID_def)
  have k: "bl_batches db1 = bl_batches db" "bl_vouchers db1 = bl_vouchers db" using untouched.chargeCreator_path [OF c] by (simp_all add: aside_def)
  have "find (\<lambda>x. ba_ID x = batchID) (bl_batches db) = None" using assms(2) by (auto simp: find_None_iff)
  then have "find (\<lambda>x. ba_ID x = batchID) (bl_batches db') = Some ?row"
    using insertCodes_frame [OF n] d(1) k(1) by (simp add: find_skip)
  moreover have "unusedIn batchID db2 = 0" using assms(3) d(2) k(2) by (auto simp: unusedIn_def filter_empty_conv)
  ultimately show ?thesis using insertCodes_count [OF n] by simp
qed

lemma voided_batch:
  assumes "voidBatch batchID db = Inr ((n, credit), db')" and "find (\<lambda>x. ba_ID x = batchID) (bl_batches db) = Some x"
  shows "n = unusedIn batchID db \<and> credit = wrap64 (ba_UnitPrice x * int n)
     \<and> (\<exists>i. 0 < credit \<longrightarrow> ba_Creator x \<noteq> [] \<longrightarrow> bl_ledger db' = bl_ledger db @ [\<lparr>lr_ID = i, lr_Currency = ''IQD'',
          lr_Entry = voucherEntry (ba_Creator x) credit batchID ''voucher batch void (unused credit)''\<rparr>])"
  using assms by (auto simp: voidBatch_def Let_def bindE_pair unusedIn_def dest!: chargeCreator_ledger split: if_splits)

text \<open>
  Voiding a fresh batch gives the charge back. A generated batch holds exactly the requested number of unused codes, and voiding
  it voids all of them and restores the creator's balance, and every other manager's.
\<close>

theorem void_undoes_generate:
  assumes "generateBatch sha rnds b creator enforce db = Inr ((batchID, plain), db1)"
    and "\<forall>x \<in> set (bl_batches db). ba_ID x \<noteq> batchID" and "\<forall>v \<in> set (bl_vouchers db). vo_BatchID v \<noteq> batchID"
    and "bl_profiles db (bi_ProfileID b) = Some f" and "inInt64 (pf_Price f * bi_Count b)" and "0 < pf_Price f" and "0 < bi_Count b"
    and "voidBatch batchID db1 = Inr ((n, credit), db2)" and "creator \<noteq> []" and "balInv db" and "journalInv db" and "m \<noteq> []"
  shows "int (length plain) = bi_Count b \<and> int n = bi_Count b \<and> credit = pf_Price f * bi_Count b
     \<and> readBalance m db2 = readBalance m db"
proof -
  obtain x where g: "length plain = nat (bi_Count b)" "unusedIn batchID db1 = nat (bi_Count b)"
    and x: "find (\<lambda>x. ba_ID x = batchID) (bl_batches db1) = Some x" "ba_UnitPrice x = pf_Price f" "ba_Creator x = creator"
    using generated_batch [OF assms(1-4)] by blast
  from voided_batch [OF assms(8) x(1)] g x(2) assms(5-7)
  have n: "int n = bi_Count b" "credit = pf_Price f * bi_Count b" by (simp_all add: wrap64_id)
  have "0 < credit" using n assms(6,7) by simp
  then obtain i where l2: "bl_ledger db2 = bl_ledger db1 @ [\<lparr>lr_ID = i, lr_Currency = ''IQD'',
          lr_Entry = voucherEntry creator credit batchID ''voucher batch void (unused credit)''\<rparr>]"
    using voided_batch [OF assms(8) x(1)] x(3) assms(9) by auto
  have l1: "ledgerSum m (bl_ledger db1) = ledgerSum m (bl_ledger db) + (if m = creator then - credit else 0)"
    using assms(1)
  proof (rule generateBatch_Inr)
    fix f' j db0
    assume "bl_profiles db (bi_ProfileID b) = Some f'" and "bl_ledger db1 = bl_ledger db0"
      and "chargeCreator creator enforce (wrap64 (pf_Price f' * bi_Count b))
        (voucherEntry creator (- wrap64 (pf_Price f' * bi_Count b)) [] ''voucher batch generation'') db = Inr (j, db0)"
    then show ?thesis using assms(4,5) n(2) by (auto simp: ledgerSum_snoc wrap64_id dest!: chargeCreator_ledger)
  qed
  have "balInv db2" using generateBatch_keeps [OF assms(1,10,11)] voidBatch_keeps [OF assms(8)] by blast
  then show ?thesis using n g(1) l1 l2 assms(7,10,12) by (simp add: balInv_def ledgerSum_snoc)
qed

section \<open>Effects on the sessions\<close>

lemma enqueueUpdates_rows:
  assumes "\<forall>r \<in> set refs. \<not> fails r"
  shows "\<exists>ob' rs. enqueueUpdates fails now attrs reason sub refs ob = (''enqueued'', ob') \<and> ob_rows ob' = ob_rows ob @ rs
     \<and> map rowView rs = map (rowFor now CoAActionUpdate attrs) refs"
  using assms
proof (induction refs arbitrary: ob)
  case (Cons r refs)
  obtain ob1 x where e: "Enqueue (fails r) now r CoAActionUpdate attrs reason sub ob = Some ob1"
    "ob_rows ob1 = ob_rows ob @ [x]" "rowView x = rowFor now CoAActionUpdate attrs r"
    using Cons.prems by (auto simp: Enqueue_def insertOutbox_def rowView_def rowFor_def)
  obtain ob' rs where "enqueueUpdates fails now attrs reason sub refs ob1 = (''enqueued'', ob')" "ob_rows ob' = ob_rows ob1 @ rs"
    "map rowView rs = map (rowFor now CoAActionUpdate attrs) refs"
    using Cons.IH [of ob1] Cons.prems by auto
  then show ?case using e by (intro exI [of _ ob'] exI [of _ "x # rs"]) simp
qed simp

text \<open>
  A renewal restores the sessions. When a renewal commits, with Redis up and no insert failing, the quota flag of the subscriber is cleared,
  the policy cached under the indexed username is dropped, and exactly one pending update with the profile's pool and the resolved rate is queued for each
  live session of the subscriber, in order.
\<close>

theorem renew_restores_sessions:
  assumes "renewTx (rv_fl rv) (rv_end rv) (rv_now rv) p (rw_bill w) = (Inr (res, False), db)" and "rv_redisUp rv"
    and "rv_sessions rv = Some all1" and "liveSessionRefs all1 (p_subscriberID p) \<noteq> []"
    and "restoreAttrs (rr_rate res) (rr_poolName res) \<noteq> []" and "\<forall>r. \<not> rv_enqueueFails rv r"
  shows "\<exists>w' rs. renew rv p w = (Inr (res\<lparr>rr_CoAResult := ''enqueued''\<rparr>), w') \<and> rw_bill w' = db
     \<and> \<not> rd_quota (rw_rad w') (p_subscriberID p)
     \<and> (\<forall>u. redisGet (rv_now rv) (rd_idx (rw_rad w)) (p_subscriberID p) = Some u \<longrightarrow> p_subscriberID p \<noteq> [] \<longrightarrow> rd_views (rw_rad w') u = None)
     \<and> ob_rows (rw_outbox w') = ob_rows (rw_outbox w) @ rs
     \<and> map rowView rs = map (rowFor (rv_now rv) CoAActionUpdate (restoreAttrs (rr_rate res) (rr_poolName res)))
          (liveSessionRefs all1 (p_subscriberID p))"
proof -
  obtain ob' rs where "enqueueUpdates (rv_enqueueFails rv) (rv_now rv) (restoreAttrs (rr_rate res) (rr_poolName res))
      ''billing.renew_restore'' (p_subscriberID p) (liveSessionRefs all1 (p_subscriberID p)) (rw_outbox w) = (''enqueued'', ob')"
    and "ob_rows ob' = ob_rows (rw_outbox w) @ rs"
    and "map rowView rs = map (rowFor (rv_now rv) CoAActionUpdate (restoreAttrs (rr_rate res) (rr_poolName res)))
          (liveSessionRefs all1 (p_subscriberID p))"
    using enqueueUpdates_rows assms(6) by metis
  then show ?thesis using assms(1-5)
    by (auto simp: renew_def afterRenewal_def restoreCoA_def resetQuota_def InvalidatePolicy_def Let_def)
qed

section \<open>Rates\<close>

lemma parseInt64_formatUint: "int n < 2 ^ 63 \<Longrightarrow> parseInt64 (formatUint n) = Some (int n)"
  using formatUint_digits [of n]
  by (cases "formatUint n") (auto simp: parseInt64_def Let_def digitsVal_formatUint isDigit_def list_all_iff
      dest: arg_cong [of _ _ digitsVal])

lemma digits_only: "c \<in> set (formatUint n) \<Longrightarrow> isDigit c"
  using formatUint_digits [of n] by (simp add: list_all_iff)

lemma trimSpace_token: "c \<in> {CHR ''M'', CHR ''k''} \<Longrightarrow> trimSpace (formatUint n @ [c]) = formatUint n @ [c]"
  by (rule trimSpace_id_all) (auto simp: list_all_iff isSpaceChar_def dest!: digits_only isDigit_not_space)

lemma parse_rateToken:
  assumes "k < 2 ^ 63"
  shows "parseRateKbps (rateToken k) = max 0 k"
proof -
  consider "k \<le> 0" | "0 < k" "k mod 1024 = 0" | "0 < k" "k mod 1024 \<noteq> 0" by linarith
  then show ?thesis
  proof cases
    case 1
    then show ?thesis by (simp add: rateToken_def parseRateKbps_def trimSpace_def trimLeft_def isSpaceChar_def hasLast_def parseInt64_def
          isDigit_def digitsVal_def digitVal_def wrap64_id inInt64_def)
  next
    case 2
    then have "k div 1024 * 1024 = k" by (simp add: mod_0_imp_dvd)
    then show ?thesis using 2 assms
      by (simp add: rateToken_def parseRateKbps_def trimSpace_token hasLast_def parseInt64_formatUint wrap64_id inInt64_def)
  next
    case 3
    then show ?thesis using assms
      by (simp add: rateToken_def parseRateKbps_def trimSpace_token hasLast_def parseInt64_formatUint wrap64_id inInt64_def)
  qed
qed

lemma rateToken_noSlash: "CHR ''/'' \<notin> set (rateToken k)"
  by (auto simp: rateToken_def isDigit_def dest: digits_only)

lemma takeWhile_until: "c \<notin> set a \<Longrightarrow> takeWhile (\<lambda>x. x \<noteq> c) (a @ c # b) = a"
  by (induction a) auto

text \<open>
  A rendered rate reads back. The rate string that a renewal sends to the router is read by the speed-window comparison as the sum of both
  directions, also when a direction is written in megabits.
\<close>

theorem rate_roundtrip:
  assumes "up < 2 ^ 62" and "down < 2 ^ 62"
  shows "rateMagnitude (rateString up down) = max 0 up + max 0 down"
proof (cases "up \<le> 0 \<and> down \<le> 0")
  case True
  then show ?thesis by (simp add: rateString_def rateMagnitude_def splitSlash_def parseRateKbps_def trimSpace_def trimLeft_def wrap64_id inInt64_def)
next
  case False
  have "splitSlash (rateToken up @ ''/'' @ rateToken down) = [rateToken up, rateToken down]"
    by (simp add: splitSlash_def takeWhile_until rateToken_noSlash)
  moreover have "inInt64 (max 0 up + max 0 down)" "inInt64 (max 0 up)" using assms by (auto simp: inInt64_def)
  ultimately show ?thesis using assms unfolding rateString_def rateMagnitude_def if_not_P [OF False] by (simp add: parse_rateToken wrap64_id)
qed

lemma renewal_pool:
  assumes "renewInTx fl now p db = Inr (res, db')" and "bl_subs db (p_subscriberID p) = Some s"
    and "bl_profiles db (targetProfile p s) = Some f"
  shows "rr_poolName res = pf_PoolName f"
  using assms(1) by (rule renewInTx_Inr) (use assms(2,3) in auto)

section \<open>Witnesses\<close>

definition sampleBill :: Bill where
  "sampleBill = \<lparr>bl_nextID = 1, bl_ledger = [], bl_balances = (\<lambda>m. None), bl_journal = [],
     bl_accounts = systemAccounts, bl_payments = [], bl_receiptSeq = 1,
     bl_invoices = [], bl_invoiceLines = [], bl_invoiceSeq = 1,
     bl_managers = (\<lambda>m. if m = ''M1'' then Some \<lparr>mg_CreditLimit = 500, mg_CommissionPct = 10\<rparr> else None),
     bl_subs = (\<lambda>x. if x = ''S1'' then Some \<lparr>sb_ExpiresAt = None, sb_ProfileID = ''P1'', sb_PriceOverride = None, sb_RateOverride = '''',
        sb_Status = ''expired'', sb_QuotaAnchor = 0, sb_PendingProfileID = '''', sb_UptimeAnchor = None\<rparr> else None),
     bl_profiles = (\<lambda>x. if x = ''P1'' then Some \<lparr>pf_Price = 100, pf_Currency = ''IQD'', pf_DurationDays = 30, pf_Archived = False,
        pf_RateUpKbps = 2048, pf_RateDownKbps = 500, pf_PoolName = ''main'', pf_ExpiryBehavior = ''block''\<rparr> else None),
     bl_costs = [], bl_prices = [], bl_rates = [], bl_digits = (\<lambda>c. None), bl_expiredPool = '''', bl_idem = [], bl_undo = [],
     bl_vouchers = [], bl_batches = []\<rparr>"

definition sampleRenew :: renewParams where
  "sampleRenew = \<lparr>p_subscriberID = ''S1'', p_profileID = '''', p_actorManagerID = ''M1'', p_source = ''panel'', p_ledgerType = ''renewal'',
     p_method = ''cash'', p_note = '''', p_reference = '''', p_chargeBalance = True, p_enforceBalance = True, p_idemKey = ''k1'',
     p_anchorRule = ''from_expiry'', p_receiptPrefix = ''R-'', p_durationOverrideDays = None, p_baseOverride = None\<rparr>"

definition ran :: "BillErr + 'a \<times> Bill \<Rightarrow> bool" where "ran r \<longleftrightarrow> \<not> isl r"

lemma ranD: "ran r \<Longrightarrow> r = Inr (fst (projr r), snd (projr r))"
  by (cases r) (auto simp: ran_def)

lemmas bill_eval = renewInTx_def targetProfile_def resolvePrice_def costAtSaleOf_def resolveCost_def balanceAmountOf_def resolveWholesale_def
  newExpiryOf_def computeExpiry_def addDays_def checkBalance_def lockBalance_def managerCreditLimit_def chargeRenewal_def renewEntry_def
  insertLedger_def newID_def recomputeBalance_def ledgerSum_def postLedgerJournal_def journalLines_def signedPair_def postJournal_def
  validateBalanced_def insertLines_def lineCheck_def postCommission_def commissionOf_def managerCommissionPct_def commissionEntry_def
  goInt64_def extendSubscriber_def nextReceiptNo_def docNo_def insertPayment_def pgDate_def systemAccounts_def sysAccount_def createPaidInvoiceForRenewal_def entryOf_def
  acct_defs wrap64_id inInt64_def Let_def

definition sampleRenewal :: "BillErr + renewResult \<times> Bill" where "sampleRenewal = renewInTx id second sampleRenew sampleBill"

lemma sample_ran: "ran sampleRenewal"
  by (simp add: ran_def sampleRenewal_def bill_eval sampleBill_def sampleRenew_def wrap64_def)

lemma sample_id: "rr_LedgerTxID (fst (projr sampleRenewal)) = formatUint 1"
  by (simp add: ran_def sampleRenewal_def bill_eval sampleBill_def sampleRenew_def wrap64_def)

lemma sample_out: "renewInTx id second sampleRenew sampleBill = Inr (fst (projr sampleRenewal), snd (projr sampleRenewal))"
  using ranD [OF sample_ran] by (simp add: sampleRenewal_def)

lemma sample_inv: "balInv sampleBill" "journalInv sampleBill" "walletInv sampleBill"
  by (simp_all add: sampleBill_def balInv_def journalInv_def walletInv_def readBalance_def ledgerSum_def walletNet_def)

definition sampleTx :: "(BillErr + renewResult \<times> bool) \<times> Bill" where "sampleTx = renewTx id CommitUnseen second sampleRenew sampleBill"

lemma sample_money: "moneyStep sampleBill (snd sampleTx)"
  unfolding sampleTx_def by (rule moneyStep.renewal)

theorem books_agree_witness: "readBalance ''M1'' (snd sampleTx) = ledgerSum ''M1'' (bl_ledger (snd sampleTx))"
  using books_agree [of sampleBill "snd sampleTx" "''M1''"] sample_inv billStep.money [OF sample_money] by auto

theorem wallet_reconciles_witness: "walletNet ''M1'' (bl_journal (snd sampleTx)) = ledgerSum ''M1'' (bl_ledger (snd sampleTx))"
  using wallet_reconciles [of sampleBill "snd sampleTx" "''M1''"] sample_inv sample_money by auto

theorem credit_limit_respected_witness: "- 500 \<le> readBalance ''M1'' (snd (projr sampleRenewal))"
  using credit_limit_respected [OF sample_out _ _ sample_inv(1)] by (simp add: sampleRenew_def managerCreditLimit_def sampleBill_def)

theorem renewal_charged_once_witness:
  "renewTx id Committed (5 * second) (sampleRenew\<lparr>p_subscriberID := ''S2''\<rparr>) (snd sampleTx) =
     (Inr (serialized (fst (projr sampleRenewal)), True), snd sampleTx)"
  by (rule renewal_charged_once [where tend = CommitUnseen, OF _ _ sample_out, of "fst sampleTx" "snd sampleTx"])
    (simp_all add: sampleTx_def, simp_all add: sampleRenew_def sampleBill_def)

theorem renewal_effects_witness:
  "rr_NewExpiresAt (fst (projr sampleRenewal)) = second + 30 * dayLength"
  using renewal_effects [OF sample_out] by (simp add: sampleRenew_def sampleBill_def targetProfile_def anchorFromExpiry_def)

definition sampleRefund :: "BillErr + (string \<times> gotime \<times> string) \<times> Bill" where
  "sampleRefund = refundInTx id (2 * second) ''R-'' ''S1'' (rr_LedgerTxID (fst (projr sampleRenewal))) ''mistake'' ''panel'' ''billing.refund''
     (snd (projr sampleRenewal))"

lemma sample_refunded: "ran sampleRefund" by code_simp

lemma sample_refund_out: "refundInTx id (2 * second) ''R-'' ''S1'' (rr_LedgerTxID (fst (projr sampleRenewal))) ''mistake'' ''panel'' ''billing.refund''
     (snd (projr sampleRenewal)) = Inr (fst (projr sampleRefund), snd (projr sampleRefund))"
  using ranD [OF sample_refunded] by (simp add: sampleRefund_def)

lemma sample_params: "p_subscriberID sampleRenew = ''S1''" "p_actorManagerID sampleRenew = ''M1''" "p_chargeBalance sampleRenew"
    "p_baseOverride sampleRenew = None" "p_durationOverrideDays sampleRenew = None" "p_anchorRule sampleRenew = anchorFromExpiry"
  by (simp_all add: sampleRenew_def anchorFromExpiry_def)

theorem refund_at_most_once_witness:
  "\<exists>e. refundInTx id (3 * second) ''R-'' ''S1'' (rr_LedgerTxID (fst (projr sampleRenewal))) ''again'' ''panel'' ''billing.refund''
     (snd (projr sampleRefund)) = Inl e"
  by (rule refund_at_most_once [OF sample_refund_out]) (simp_all add: sample_id)

lemma sample_fresh: "findRow (rr_LedgerTxID (fst (projr sampleRenewal))) sampleBill = None"
  by (simp add: findRow_def sampleBill_def)

definition sampleSub :: subscriberRow where "sampleSub = the (bl_subs sampleBill ''S1'')"
definition sampleProfile :: profileRow where "sampleProfile = the (bl_profiles sampleBill ''P1'')"

lemma sample_rows: "bl_subs sampleBill (p_subscriberID sampleRenew) = Some sampleSub"
    "bl_profiles sampleBill (targetProfile sampleRenew sampleSub) = Some sampleProfile"
  by (simp_all add: sampleSub_def sampleProfile_def sampleBill_def sampleRenew_def targetProfile_def)

lemma sample_commission: "commissionDue id ''M1'' (renewAmount second sampleRenew sampleSub sampleProfile sampleBill) sampleBill = 10"
proof -
  have "\<lfloor>21 / 2 :: rat\<rfloor> = 10" by (simp add: floor_eq_iff)
  then show ?thesis
    by (simp add: sampleSub_def sampleProfile_def sampleBill_def commissionDue_def commissionOf_def managerCommissionPct_def goInt64_def
      renewAmount_def balanceAmountOf_def resolveWholesale_def renewPrice_def resolvePrice_def sampleRenew_def Let_def)
qed

theorem refund_keeps_commission_witness: "readBalance ''M1'' (snd (projr sampleRefund)) = readBalance ''M1'' sampleBill + 10"
  using refund_keeps_commission [OF sample_out _ sample_inv(1) sample_fresh sample_rows sample_refund_out [folded sample_params(1)]]
  by (simp add: sample_params sample_commission)

theorem refund_rolls_back_witness: "\<exists>s2. bl_subs (snd (projr sampleRefund)) ''S1'' = Some s2 \<and> sb_ExpiresAt s2 = Some (2 * second)"
proof -
  have "sb_ExpiresAt sampleSub = None" by (simp add: sampleSub_def sampleBill_def)
  then show ?thesis
    using refund_rolls_back [OF sample_out sample_rows _ _ sample_refund_out [folded sample_params(1)]]
    by (auto simp: sample_params second_def)
qed

definition sampleTopup :: "BillErr + (string \<times> int) \<times> Bill" where "sampleTopup = topup id second ''M1'' 70 '''' '''' sampleBill"

lemma sample_topup: "topup id second ''M1'' 70 '''' '''' sampleBill = Inr ((formatUint 1, 70), snd (projr sampleTopup))"
  by (simp add: sampleTopup_def topup_def convertToIQD_def topupEntry_def bill_eval sampleBill_def)

theorem topup_undo_roundtrip_witness:
  "\<exists>i db. undoTopupCore (2 * second) (formatUint 1) ''M1'' 70 ''M1'' (snd (projr sampleTopup)) = Inr (i, db)
     \<and> readBalance ''M1'' db = readBalance ''M1'' sampleBill"
proof -
  have "ran (undoTopupCore (2 * second) (formatUint 1) ''M1'' 70 ''M1'' (snd (projr sampleTopup)))"
    by (simp add: ran_def undoTopupCore_def undoTopupEntry_def asAlreadyRefunded_def sampleTopup_def topup_def convertToIQD_def
        topupEntry_def bill_eval sampleBill_def formatUint_nonempty [symmetric])
  from ranD [OF this] obtain i db where u: "undoTopupCore (2 * second) (formatUint 1) ''M1'' 70 ''M1'' (snd (projr sampleTopup)) = Inr (i, db)" by blast
  show ?thesis using topup_undo_roundtrip [OF sample_topup u sample_inv(1), of "''M1''"] u by auto
qed

definition sampleWorld :: "Bill \<Rightarrow> RenewWorld" where
  "sampleWorld db = \<lparr>rw_bill = db, rw_rad = en_rad (sampleEnf sampleView), rw_outbox = en_outbox (sampleEnf sampleView)\<rparr>"

definition sampleRV :: RenewEnv where
  "sampleRV = \<lparr>rv_fl = id, rv_end = Committed, rv_now = second, rv_redisUp = True, rv_sessions = Some [sampleLive ''81'', sampleLive ''82''],
     rv_enqueueFails = (\<lambda>r. False)\<rparr>"

theorem redo_never_works_witness:
  "\<exists>w redoID. performUndo sampleRV False ''R-'' redoID ''M1'' w = (Inl errUnknownKind, w) \<and> redoID \<in> un_ID ` set (bl_undo (rw_bill w))"
proof -
  define db where "db = sampleBill\<lparr>bl_undo := [\<lparr>un_ID = ''u1'', un_Kind = ''topup'', un_EntityID = ''M1'', un_Actor = ''M1'',
      un_LedgerTxID = ''t1'', un_SnapExpires = 0, un_SnapManager = ''M1'', un_SnapAmount = 70, un_ExpiresAt = 5 * second,
      un_Undone = False, un_ReversalTxID = '''', un_UndoOf = ''''\<rparr>]\<rparr>"
  obtain w1 where p: "performUndo sampleRV False ''R-'' ''u1'' ''M1'' (sampleWorld db) = (Inr (formatUint 1, formatUint (Suc (Suc (Suc 0)))), w1)"
    and u: "formatUint (Suc (Suc (Suc 0))) \<in> un_ID ` set (bl_undo (rw_bill w1))"
    by (simp add: performUndo_def reverseAction_def undoTopupCore_def undoTopupEntry_def asAlreadyRefunded_def endTx_def sampleRV_def
        sampleWorld_def db_def markUndone_def recordUndo_def bill_eval sampleBill_def second_def)
  have "performUndo sampleRV False ''R-'' (formatUint (Suc (Suc (Suc 0)))) ''M1'' w1 = (Inl errUnknownKind, w1)"
    by (rule redo_never_works [OF p]) (simp_all add: sampleWorld_def db_def sampleRV_def undoWindow_def second_def minute_def formatUint.simps digitChar_def)
  then show ?thesis using u by blast
qed

definition sampleVouchers :: Bill where
  "sampleVouchers = sampleBill\<lparr>bl_vouchers := [\<lparr>vo_ID = ''v1'', vo_BatchID = ''b1'', vo_CodeHash = ''ABC'', vo_State = ''unused'',
        vo_UsedFor = '''', vo_LedgerTxID = ''''\<rparr>],
     bl_batches := [\<lparr>ba_ID = ''b1'', ba_ProfileID = ''P1'', ba_Prefix = '''', ba_Count = 1, ba_UnitPrice = 100, ba_Currency = ''IQD'',
        ba_Creator = ''M1'', ba_ExpiresAt = None, ba_GenTx = '''', ba_State = ''active'', ba_VoidTx = ''''\<rparr>]\<rparr>"

lemma sample_hash: "hashCode id ''abc'' = ''ABC''" by code_simp

theorem voucher_single_use_witness:
  "\<exists>res db. redeemInTx id id second ''from_expiry'' ''R-'' ''abc'' ''S1'' '''' sampleVouchers = Inr ((Some res, redeemOK), db)
     \<and> (\<exists>oc. oc \<noteq> redeemOK \<and> redeemInTx id id (2 * second) ''from_expiry'' ''R-'' ''abc'' ''S1'' '''' db = Inr ((None, oc), db))"
proof -
  obtain res db where r: "redeemInTx id id second ''from_expiry'' ''R-'' ''abc'' ''S1'' '''' sampleVouchers = Inr ((Some res, redeemOK), db)"
    by (simp add: redeemInTx_def findVoucher_def sample_hash redeemParams_def sampleVouchers_def bill_eval sampleBill_def)
  then show ?thesis using voucher_single_use [OF r] by blast
qed

definition sampleInput :: batchInput where
  "sampleInput = \<lparr>bi_ProfileID = ''P1'', bi_Prefix = '''', bi_Count = 1, bi_ExpiresAt = None, bi_CodeLength = 0\<rparr>"

definition sampleGen :: "BillErr + (string \<times> string list) \<times> Bill" where
  "sampleGen = generateBatch id (\<lambda>k. [\<lambda>i. 0]) sampleInput ''M1'' False sampleBill"

lemma sample_batch: "ran sampleGen \<and> fst (fst (projr sampleGen)) = formatUint 2" by code_simp

lemma sample_gen: "generateBatch id (\<lambda>k. [\<lambda>i. 0]) sampleInput ''M1'' False sampleBill =
    Inr ((formatUint 2, snd (fst (projr sampleGen))), snd (projr sampleGen))"
  using ranD [of sampleGen] sample_batch unfolding sampleGen_def [symmetric] by (metis prod.collapse)

lemma sample_input: "bl_profiles sampleBill (bi_ProfileID sampleInput) = Some sampleProfile" "pf_Price sampleProfile = 100"
    "bi_Count sampleInput = 1"
  by (simp_all add: sampleInput_def sampleProfile_def sampleBill_def)

theorem voucher_generation_unreconciled_witness:
  "walletNet ''M1'' (bl_journal (snd (projr sampleGen))) = ledgerSum ''M1'' (bl_ledger (snd (projr sampleGen))) + 100"
  using voucher_generation_unreconciled [OF sample_gen _ sample_inv(3) sample_input(1)] by (simp add: sample_input inInt64_def)

definition sampleVoid :: "BillErr + (nat \<times> int) \<times> Bill" where "sampleVoid = voidBatch (formatUint 2) (snd (projr sampleGen))"

lemma sample_voided: "ran sampleVoid" by code_simp

theorem void_undoes_generate_witness: "readBalance ''M1'' (snd (projr sampleVoid)) = 0"
proof -
  have v: "voidBatch (formatUint 2) (snd (projr sampleGen)) = Inr ((fst (fst (projr sampleVoid)), snd (fst (projr sampleVoid))), snd (projr sampleVoid))"
    using ranD [OF sample_voided] by (simp add: sampleVoid_def [symmetric])
  have "readBalance ''M1'' sampleBill = 0" by (simp add: readBalance_def sampleBill_def)
  moreover have "bl_batches sampleBill = []" "bl_vouchers sampleBill = []" by (simp_all add: sampleBill_def)
  ultimately show ?thesis
    using void_undoes_generate [OF sample_gen _ _ sample_input(1) _ _ _ v _ sample_inv(1,2), of "''M1''"] by (simp add: sample_input inInt64_def)
qed

lemma sample_noKeys: "bl_idem sampleBill = []" by (simp add: sampleBill_def)

theorem renew_restores_sessions_witness:
  "\<exists>w' rs. renew sampleRV sampleRenew (sampleWorld sampleBill) = (Inr ((fst (projr sampleRenewal))\<lparr>rr_CoAResult := ''enqueued''\<rparr>), w')
     \<and> ob_rows (rw_outbox w') = ob_rows (rw_outbox (sampleWorld sampleBill)) @ rs \<and> length rs = 2"
proof -
  obtain db where t: "renewTx (rv_fl sampleRV) (rv_end sampleRV) (rv_now sampleRV) sampleRenew (rw_bill (sampleWorld sampleBill)) =
      (Inr (fst (projr sampleRenewal), False), db)"
    using sample_out sample_noKeys by (simp add: renewTx_def sampleRV_def sampleWorld_def endTx_def case_prod_unfold)
  have "rr_rate (fst (projr sampleRenewal)) \<noteq> [] \<or> rr_poolName (fst (projr sampleRenewal)) \<noteq> []"
    using renewal_pool [OF sample_out sample_rows] by (simp add: sampleProfile_def sampleBill_def)
  then have a: "restoreAttrs (rr_rate (fst (projr sampleRenewal))) (rr_poolName (fst (projr sampleRenewal))) \<noteq> []"
    by (auto simp: restoreAttrs_def)
  from renew_restores_sessions [OF t _ _ _ a, of "[sampleLive ''81'', sampleLive ''82'']"]
  obtain w' rs where "renew sampleRV sampleRenew (sampleWorld sampleBill) = (Inr ((fst (projr sampleRenewal))\<lparr>rr_CoAResult := ''enqueued''\<rparr>), w')"
    "ob_rows (rw_outbox w') = ob_rows (rw_outbox (sampleWorld sampleBill)) @ rs" "length (map rowView rs) = 2"
    by (auto simp: sample_params sample_refs) (auto simp: sampleRV_def)
  then show ?thesis by auto
qed

theorem rate_roundtrip_witness: "rateMagnitude (rateString 2048 500) = 2548"
  using rate_roundtrip [of 2048 500] by simp

end
