(* ===== verification/BillTickets.thy ===== *)
theory BillTickets
  imports BillVoucher BillReverse AcctSpill
begin

text \<open>
  Payment tickets (\<^verbatim>\<open>backend/internal/billing/tickets.go\<close>, \<^verbatim>\<open>ticket_attachments.go\<close>, \<^verbatim>\<open>method_settings.go\<close>, \<^verbatim>\<open>instance_methods.go\<close>): a subscriber
  submits a proof of payment and gets a trial day; a manager approves the ticket, which is a renewal from the start of the trial, or rejects it, which
  takes the day back.

  Each statement outside a transaction may fail on its own: \<open>tk_fails\<close> says which do. \<open>tk_encrypt\<close> stands for
  \<^verbatim>\<open>crypto.Encrypt\<close>, and an uploaded file carries the content type that \<^verbatim>\<open>http.DetectContentType\<close> finds in it.
\<close>

section \<open>Payment methods\<close>

definition methodKeyScratchCard :: string where "methodKeyScratchCard = ''scratch_card''"
definition methodKeyVoucher :: string where "methodKeyVoucher = ''voucher''"

text \<open>A provider with the rank of its name in the database's collation, by which the lists are ordered.\<close>

record providerRow =
  pr_ID :: string
  pr_Name :: string
  pr_Rank :: nat
  pr_Instructions :: string
  pr_Enabled :: bool

record accountRow =
  ac_ManagerID :: string
  ac_ProviderID :: string
  ac_Details :: string
  ac_Instructions :: "string option"

record settingRow =
  ms_ManagerID :: string
  ms_MethodKey :: string
  ms_Enabled :: bool

record PayMethod =
  py_Key :: string
  py_Kind :: string
  py_ProviderName :: "string option"
  py_AccountDetails :: "string option"
  py_InstructionsText :: "string option"

record PayTables =
  pt_owner :: "string \<Rightarrow> string"
  pt_providers :: "providerRow list"
  pt_settings :: "settingRow list"
  pt_accounts :: "accountRow list"
  pt_instSettings :: "settingRow list"
  pt_instAccounts :: "accountRow list"

text \<open>The two queries of both resolutions: the join of settings, providers and accounts, and the built-in methods.\<close>

definition providerMethods :: "settingRow list \<Rightarrow> providerRow list \<Rightarrow> accountRow list \<Rightarrow> PayMethod list" where
  "providerMethods settings providers accounts =
     map (\<lambda>(p, a). \<lparr>py_Key = pr_ID p, py_Kind = ''provider'', py_ProviderName = Some (pr_Name p), py_AccountDetails = Some (ac_Details a),
            py_InstructionsText = Some (case ac_Instructions a of Some t \<Rightarrow> t | None \<Rightarrow> pr_Instructions p)\<rparr>)
       (sort_key (\<lambda>(p, a). pr_Rank p)
         (concat (map (\<lambda>s. concat (map (\<lambda>p. map (\<lambda>a. (p, a))
              (filter (\<lambda>a. ac_ManagerID a = ms_ManagerID s \<and> ac_ProviderID a = pr_ID p) accounts))
            (filter (\<lambda>p. pr_ID p = ms_MethodKey s \<and> pr_Enabled p) providers)))
          (filter ms_Enabled settings))))"

definition builtinMethods :: "settingRow list \<Rightarrow> PayMethod list" where
  "builtinMethods settings =
     map (\<lambda>s. \<lparr>py_Key = ms_MethodKey s, py_Kind = ms_MethodKey s, py_ProviderName = None, py_AccountDetails = None, py_InstructionsText = None\<rparr>)
       (filter (\<lambda>s. ms_Enabled s \<and> ms_MethodKey s \<in> {methodKeyScratchCard, methodKeyVoucher}) settings)"

text \<open>The instance tables have no manager column: their rows are read with an empty one.\<close>

definition resolveInstancePayMethods :: "PayTables \<Rightarrow> PayMethod list" where
  "resolveInstancePayMethods t =
     (let settings = map (ms_ManagerID_update (\<lambda>_. '''')) (pt_instSettings t)
      in providerMethods settings (pt_providers t) (map (ac_ManagerID_update (\<lambda>_. '''')) (pt_instAccounts t)) @ builtinMethods settings)"

definition resolvePayMethods :: "string \<Rightarrow> PayTables \<Rightarrow> PayMethod list" where
  "resolvePayMethods sub t =
     (let owner = pt_owner t sub in
      if owner = '''' then resolveInstancePayMethods t
      else let mine = filter (\<lambda>s. ms_ManagerID s = owner) (pt_settings t)
           in providerMethods mine (pt_providers t) (pt_accounts t) @ builtinMethods mine)"

section \<open>Tickets\<close>

record ticketRow =
  tk_ID :: string
  tk_SubscriberID :: string
  tk_ProfileID :: string
  tk_MethodKey :: string
  tk_ProviderID :: "string option"
  tk_Amount :: int
  tk_Currency :: string
  tk_TransferReference :: "string option"
  tk_TransferDate :: "gotime option"
  tk_Note :: string
  tk_Detail :: "(string \<times> string) list"
  tk_State :: string
  tk_TrialTx :: string
  tk_ApproveTx :: string
  tk_DecidedBy :: string
  tk_DecidedAt :: "gotime option"
  tk_RejectReason :: string
  tk_CreatedAt :: gotime

record ticketEvent =
  ev_TicketID :: string
  ev_Type :: string
  ev_Actor :: string
  ev_Note :: string

record attachmentRow =
  at_TicketID :: string
  at_Filename :: string
  at_ContentType :: string
  at_Size :: nat

record TicketWorld =
  tw_world :: RenewWorld
  tw_pay :: PayTables
  tw_tickets :: "ticketRow list"
  tw_nextTicket :: nat
  tw_events :: "ticketEvent list"
  tw_files :: "attachmentRow list"

datatype ticketStmt =
    StMethods | StSubscriber | StProfile | StEligible | StInsert | StSubmitted | StMkdir | StWrite nat | StAttachRow nat | StAttachEvent nat
  | StAttachFailed | StTrialMark | StTrialEvent | StRead | StApproveMark | StApproveEvent

record TicketEnv =
  tk_rv :: RenewEnv
  tk_fails :: "ticketStmt \<Rightarrow> bool"
  tk_encrypt :: "string \<Rightarrow> bytes option"
  tk_cardTypesSetting :: "string list option"
  tk_anchor :: string
  tk_prefix :: string

definition ticketTrialDays :: int where "ticketTrialDays = 1"

definition defaultCardTypes :: "string list" where "defaultCardTypes = [''zain'', ''asiacell'']"

definition cardTypes :: "string list option \<Rightarrow> string list" where
  "cardTypes v = (case v of Some ts \<Rightarrow> (if ts = [] then defaultCardTypes else ts) | None \<Rightarrow> defaultCardTypes)"

text \<open>The state of the last decided ticket; the time of a decided ticket is set with its state.\<close>

definition trialEligible :: "string \<Rightarrow> ticketRow list \<Rightarrow> bool" where
  "trialEligible sub ts =
     (case latest (\<lambda>t. case tk_DecidedAt t of Some x \<Rightarrow> x | None \<Rightarrow> 0)
             (filter (\<lambda>t. tk_SubscriberID t = sub \<and> tk_State t \<in> {''approved'', ''rejected''}) ts) of
        None \<Rightarrow> True
      | Some t \<Rightarrow> tk_State t = ''approved'')"

record uploadedFile =
  uf_Filename :: string
  uf_Sniffed :: string
  uf_Size :: nat

definition maxAttachmentBytes :: nat where "maxAttachmentBytes = 10 * 2 ^ 20"
definition maxAttachments :: nat where "maxAttachments = 5"

definition allowedAttachmentTypes :: "string list" where
  "allowedAttachmentTypes = [''image/jpeg'', ''image/png'', ''image/webp'', ''application/pdf'']"

definition addEvent :: "string \<Rightarrow> string \<Rightarrow> string \<Rightarrow> string \<Rightarrow> TicketWorld \<Rightarrow> TicketWorld" where
  "addEvent tid type actor txt tw =
     tw\<lparr>tw_events := tw_events tw @ [\<lparr>ev_TicketID = tid, ev_Type = type, ev_Actor = actor, ev_Note = txt\<rparr>]\<rparr>"

definition insertTicketEvent :: "bool \<Rightarrow> string \<Rightarrow> string \<Rightarrow> string \<Rightarrow> string \<Rightarrow> TicketWorld \<Rightarrow> bool \<times> TicketWorld" where
  "insertTicketEvent fails tid type actor txt tw = (if fails then (False, tw) else (True, addEvent tid type actor txt tw))"

text \<open>The loop over the files; the number counts them. \<open>False\<close> is a returned error.\<close>

fun storeLoop :: "(ticketStmt \<Rightarrow> bool) \<Rightarrow> string \<Rightarrow> nat \<Rightarrow> uploadedFile list \<Rightarrow> TicketWorld \<Rightarrow> bool \<times> TicketWorld" where
  "storeLoop fails tid i [] tw = (True, tw)"
| "storeLoop fails tid i (f # fs) tw =
     (if maxAttachmentBytes < uf_Size f \<or> uf_Sniffed f \<notin> set allowedAttachmentTypes \<or> fails (StWrite i) \<or> fails (StAttachRow i) then (False, tw)
      else let tw1 = tw\<lparr>tw_files := tw_files tw @ [\<lparr>at_TicketID = tid, at_Filename = uf_Filename f, at_ContentType = uf_Sniffed f,
                    at_Size = uf_Size f\<rparr>]\<rparr>
           in storeLoop fails tid (Suc i) fs (snd (insertTicketEvent (fails (StAttachEvent i)) tid ''attachment_added'' '''' (uf_Filename f) tw1)))"

definition storeAttachments :: "(ticketStmt \<Rightarrow> bool) \<Rightarrow> string \<Rightarrow> uploadedFile list \<Rightarrow> TicketWorld \<Rightarrow> bool \<times> TicketWorld" where
  "storeAttachments fails tid fs tw =
     (if fs = [] then (True, tw)
      else if maxAttachments < length fs \<or> fails StMkdir then (False, tw)
      else storeLoop fails tid 0 fs tw)"

section \<open>Submission\<close>

record submitTicketParams =
  sp_SubscriberID :: string
  sp_MethodKey :: string
  sp_Amount :: int
  sp_TransferReference :: string
  sp_TransferDate :: "gotime option"
  sp_Note :: string
  sp_Attachments :: "uploadedFile list"
  sp_CardType :: string
  sp_CardCode :: string

record ticketSubmitResult =
  sr_ID :: string
  sr_State :: string
  sr_TrialGranted :: bool
  sr_TrialExpiresAt :: "gotime option"

text \<open>The row the submission inserts, by the kind of the method; a card code is stored encrypted.\<close>

definition ticketOf :: "TicketEnv \<Rightarrow> submitTicketParams \<Rightarrow> PayMethod \<Rightarrow> string \<Rightarrow> profileRow \<Rightarrow> string \<Rightarrow> BillErr + ticketRow" where
  "ticketOf env p meth profileID f tid =
     (let row = \<lparr>tk_ID = tid, tk_SubscriberID = sp_SubscriberID p, tk_ProfileID = profileID, tk_MethodKey = sp_MethodKey p,
            tk_ProviderID = None, tk_Amount = pf_Price f, tk_Currency = pf_Currency f, tk_TransferReference = None,
            tk_TransferDate = None, tk_Note = '''', tk_Detail = [], tk_State = ''pending'', tk_TrialTx = '''', tk_ApproveTx = '''',
            tk_DecidedBy = '''', tk_DecidedAt = None, tk_RejectReason = '''', tk_CreatedAt = rv_now (tk_rv env)\<rparr>
      in if py_Kind meth = ''provider'' then
           Inr (row\<lparr>tk_Amount := (if 0 < sp_Amount p then sp_Amount p else pf_Price f), tk_TransferReference := Some (sp_TransferReference p),
                tk_TransferDate := sp_TransferDate p, tk_Note := sp_Note p, tk_ProviderID := Some (py_Key meth)\<rparr>)
         else if py_Kind meth = methodKeyScratchCard then
           (if sp_CardType p \<notin> set (cardTypes (tk_cardTypesSetting env)) then Inl errCardTypeNotAllowed
            else case tk_encrypt env (sp_CardCode p) of
                   None \<Rightarrow> Inl errDB
                 | Some enc \<Rightarrow> Inr (row\<lparr>tk_Detail := [(''card_type'', sp_CardType p), (''card_code_enc'', base64Encode enc)]\<rparr>))
         else Inr row)"

definition trialParams :: "TicketEnv \<Rightarrow> string \<Rightarrow> string \<Rightarrow> string \<Rightarrow> renewParams" where
  "trialParams env sub profileID tid =
     \<lparr>p_subscriberID = sub, p_profileID = profileID, p_actorManagerID = '''', p_source = ''ticket-trial'', p_ledgerType = ''adjustment'',
      p_method = ''ticket-trial'', p_note = '''', p_reference = tid, p_chargeBalance = False, p_enforceBalance = False,
      p_idemKey = ''ticket_trial:'' @ tid, p_anchorRule = tk_anchor env, p_receiptPrefix = tk_prefix env,
      p_durationOverrideDays = Some ticketTrialDays, p_baseOverride = None\<rparr>"

text \<open>The trial of a submitted ticket: the renewal, the mark on the ticket, the event.\<close>

definition grantTrial :: "TicketEnv \<Rightarrow> string \<Rightarrow> string \<Rightarrow> string \<Rightarrow> TicketWorld \<Rightarrow> (BillErr + ticketSubmitResult) \<times> TicketWorld" where
  "grantTrial env sub profileID tid tw =
     (case renew (tk_rv env) (trialParams env sub profileID tid) (tw_world tw) of
        (Inl e, w) \<Rightarrow> (Inl e, tw\<lparr>tw_world := w\<rparr>)
      | (Inr rr, w) \<Rightarrow>
          (let tw1 = tw\<lparr>tw_world := w\<rparr> in
           if tk_fails env StTrialMark then (Inl errDB, tw1)
           else let tw2 = tw1\<lparr>tw_tickets := map (\<lambda>t. if tk_ID t = tid then t\<lparr>tk_TrialTx := rr_LedgerTxID rr\<rparr> else t) (tw_tickets tw1)\<rparr>
                in case insertTicketEvent (tk_fails env StTrialEvent) tid ''trial_granted'' '''' '''' tw2 of
                     (False, tw3) \<Rightarrow> (Inl errDB, tw3)
                   | (True, tw3) \<Rightarrow> (Inr \<lparr>sr_ID = tid, sr_State = ''pending'', sr_TrialGranted = True,
                                        sr_TrialExpiresAt = Some (rr_NewExpiresAt rr)\<rparr>, tw3)))"

text \<open>The insert fails on a second pending ticket of the subscriber (the partial unique index).\<close>

definition insertTicket :: "TicketEnv \<Rightarrow> ticketRow \<Rightarrow> TicketWorld \<Rightarrow> BillErr + TicketWorld" where
  "insertTicket env row tw =
     (if list_ex (\<lambda>t. tk_SubscriberID t = tk_SubscriberID row \<and> tk_State t = ''pending'') (tw_tickets tw) then Inl errTicketPending
      else if tk_fails env StInsert then Inl errDB
      else Inr (tw\<lparr>tw_tickets := tw_tickets tw @ [row], tw_nextTicket := Suc (tw_nextTicket tw)\<rparr>))"

definition submitTicket :: "TicketEnv \<Rightarrow> submitTicketParams \<Rightarrow> TicketWorld \<Rightarrow> (BillErr + ticketSubmitResult) \<times> TicketWorld" where
  "submitTicket env p tw =
     (if tk_fails env StMethods \<or> bl_subs (rw_bill (tw_world tw)) (sp_SubscriberID p) = None then (Inl errDB, tw)
      else case find (\<lambda>pm. py_Key pm = sp_MethodKey p) (resolvePayMethods (sp_SubscriberID p) (tw_pay tw)) of
        None \<Rightarrow> (Inl errMethodNotAllowed, tw)
      | Some meth \<Rightarrow>
          (case bl_subs (rw_bill (tw_world tw)) (sp_SubscriberID p) of
             None \<Rightarrow> (Inl errNoSubscriber, tw)
           | Some s \<Rightarrow>
               (if tk_fails env StSubscriber \<or> sb_ProfileID s = '''' then (Inl errDB, tw)
                else case bl_profiles (rw_bill (tw_world tw)) (sb_ProfileID s) of
                  None \<Rightarrow> (Inl errDB, tw)
                | Some f \<Rightarrow>
                    (if tk_fails env StProfile \<or> tk_fails env StEligible then (Inl errDB, tw)
                     else let eligible = trialEligible (sp_SubscriberID p) (tw_tickets tw);
                              tid = ''t'' @ formatUint (tw_nextTicket tw)
                          in case ticketOf env p meth (sb_ProfileID s) f tid of
                               Inl e \<Rightarrow> (Inl e, tw)
                             | Inr row \<Rightarrow>
                                 (case insertTicket env row tw of
                                    Inl e \<Rightarrow> (Inl e, tw)
                                  | Inr tw1 \<Rightarrow>
                                      (case insertTicketEvent (tk_fails env StSubmitted) tid ''submitted'' '''' '''' tw1 of
                                         (False, tw2) \<Rightarrow> (Inl errDB, tw2)
                                       | (True, tw2) \<Rightarrow>
                                           (let (stored, tw3) = storeAttachments (tk_fails env) tid (sp_Attachments p) tw2;
                                                tw4 = (if stored then tw3
                                                       else snd (insertTicketEvent (tk_fails env StAttachFailed) tid ''attachment_failed'' '''' ''error'' tw3))
                                            in if \<not> eligible
                                               then (Inr \<lparr>sr_ID = tid, sr_State = ''pending'', sr_TrialGranted = False, sr_TrialExpiresAt = None\<rparr>, tw4)
                                               else grantTrial env (sp_SubscriberID p) (sb_ProfileID s) tid tw4)))))))"

section \<open>Decisions\<close>

definition findTicket :: "string \<Rightarrow> TicketWorld \<Rightarrow> ticketRow option" where
  "findTicket tid tw = find (\<lambda>t. tk_ID t = tid) (tw_tickets tw)"

record latestTicketRow =
  lt_ID :: string
  lt_MethodKey :: string
  lt_State :: string
  lt_TrialGranted :: bool
  lt_TrialExpiresAt :: gotime
  lt_RejectReason :: string
  lt_CreatedAt :: gotime

definition latestTicket :: "string \<Rightarrow> TicketWorld \<Rightarrow> latestTicketRow option" where
  "latestTicket sub tw =
     map_option (\<lambda>t. \<lparr>lt_ID = tk_ID t, lt_MethodKey = tk_MethodKey t, lt_State = tk_State t, lt_TrialGranted = (tk_TrialTx t \<noteq> ''''),
            lt_TrialExpiresAt = addDays (tk_CreatedAt t) ticketTrialDays, lt_RejectReason = tk_RejectReason t, lt_CreatedAt = tk_CreatedAt t\<rparr>)
       (latest tk_CreatedAt (filter (\<lambda>t. tk_SubscriberID t = sub) (tw_tickets tw)))"

definition approveParams :: "TicketEnv \<Rightarrow> ticketRow \<Rightarrow> string \<Rightarrow> renewParams" where
  "approveParams env t approver =
     \<lparr>p_subscriberID = tk_SubscriberID t, p_profileID = tk_ProfileID t, p_actorManagerID = approver,
      p_source = ''ticket-'' @ tk_MethodKey t, p_ledgerType = ''renewal'', p_method = ''ticket-'' @ tk_MethodKey t, p_note = '''',
      p_reference = tk_ID t, p_chargeBalance = True, p_enforceBalance = False, p_idemKey = ''ticket_approve:'' @ tk_ID t,
      p_anchorRule = tk_anchor env, p_receiptPrefix = tk_prefix env, p_durationOverrideDays = None,
      p_baseOverride = Some (tk_CreatedAt t)\<rparr>"

text \<open>
  The approval reads the ticket first, without a lock, and acts on what it read: other requests may run between the two parts.
\<close>

definition approveRead :: "TicketEnv \<Rightarrow> string \<Rightarrow> TicketWorld \<Rightarrow> BillErr + ticketRow" where
  "approveRead env tid tw =
     (case findTicket tid tw of
        None \<Rightarrow> Inl errTicketNotFound
      | Some t \<Rightarrow>
          (if tk_fails env StRead then Inl errDB
           else if tk_State t \<noteq> ''pending'' then Inl errTicketNotPending else Inr t))"

definition markApproved :: "gotime \<Rightarrow> string \<Rightarrow> string \<Rightarrow> string \<Rightarrow> ticketRow \<Rightarrow> ticketRow" where
  "markApproved now tid txID approver t =
     (if tk_ID t = tid \<and> tk_State t = ''pending''
      then t\<lparr>tk_State := ''approved'', tk_ApproveTx := txID, tk_DecidedBy := approver, tk_DecidedAt := Some now\<rparr> else t)"

definition approveRun :: "TicketEnv \<Rightarrow> ticketRow \<Rightarrow> string \<Rightarrow> TicketWorld \<Rightarrow> (BillErr + renewResult) \<times> TicketWorld" where
  "approveRun env t approver tw =
     (case renew (tk_rv env) (approveParams env t approver) (tw_world tw) of
        (Inl e, w) \<Rightarrow> (Inl e, tw\<lparr>tw_world := w\<rparr>)
      | (Inr rr, w) \<Rightarrow>
          (let tw1 = tw\<lparr>tw_world := w\<rparr> in
           if tk_fails env StApproveMark then (Inl errDB, tw1)
           else if \<not> list_ex (\<lambda>x. tk_ID x = tk_ID t \<and> tk_State x = ''pending'') (tw_tickets tw1) then (Inl errTicketNotPending, tw1)
           else let tw2 = tw1\<lparr>tw_tickets := map (markApproved (rv_now (tk_rv env)) (tk_ID t) (rr_LedgerTxID rr) approver) (tw_tickets tw1)\<rparr>
                in case insertTicketEvent (tk_fails env StApproveEvent) (tk_ID t) ''approved'' approver '''' tw2 of
                     (False, tw3) \<Rightarrow> (Inl errDB, tw3)
                   | (True, tw3) \<Rightarrow> (Inr rr, tw3)))"

definition approveTicket :: "TicketEnv \<Rightarrow> string \<Rightarrow> string \<Rightarrow> TicketWorld \<Rightarrow> (BillErr + renewResult) \<times> TicketWorld" where
  "approveTicket env tid approver tw =
     (case approveRead env tid tw of Inl e \<Rightarrow> (Inl e, tw) | Inr t \<Rightarrow> approveRun env t approver tw)"

definition trialReversal :: "ticketRow \<Rightarrow> string \<Rightarrow> string \<Rightarrow> ledgerEntry" where
  "trialReversal t approver reason =
     \<lparr>le_Type = ''refund'', le_Amount = 0, le_ActorManagerID = approver, le_SubscriberID = tk_SubscriberID t, le_Source = ''ticket-reject'',
      le_Reference = '''', le_ReversesID = tk_TrialTx t, le_Note = reason, le_CurrencyRateID = '''', le_EnteredAmount = None,
      le_EnteredCurrency = '''', le_CostAtSale = None\<rparr>"

text \<open>
  A violated unique index is tolerated by the code, but it has aborted the transaction: PostgreSQL answers every
  further statement with an error.
\<close>

definition rejectInTx :: "gotime \<Rightarrow> ticketRow \<Rightarrow> string \<Rightarrow> string \<Rightarrow> Bill \<Rightarrow> BillErr + (gotime \<times> string) \<times> Bill" where
  "rejectInTx now t approver reason db =
     bindE (if tk_TrialTx t = '''' then Inr ('''', db)
            else case insertLedger (trialReversal t approver reason) db of
                   Inl e \<Rightarrow> Inl errDB
                 | Inr r \<Rightarrow> Inr r) (\<lambda>(_, db1).
     case bl_subs db1 (tk_SubscriberID t) of
       None \<Rightarrow> Inl errDB
     | Some s \<Rightarrow>
         (let newExpiry = rollbackExpiry now (sb_ExpiresAt s) ticketTrialDays
          in Inr ((newExpiry, behaviorAfter s db1), rollbackSubscriber now (tk_SubscriberID t) newExpiry db1)))"

definition markRejected :: "gotime \<Rightarrow> string \<Rightarrow> string \<Rightarrow> string \<Rightarrow> ticketRow \<Rightarrow> ticketRow" where
  "markRejected now tid approver reason t =
     (if tk_ID t = tid \<and> tk_State t = ''pending''
      then t\<lparr>tk_State := ''rejected'', tk_DecidedBy := approver, tk_DecidedAt := Some now, tk_RejectReason := reason\<rparr> else t)"

definition rejectTicket :: "TicketEnv \<Rightarrow> string \<Rightarrow> string \<Rightarrow> string \<Rightarrow> TicketWorld \<Rightarrow> BillErr option \<times> TicketWorld" where
  "rejectTicket env tid approver reason tw =
     (let rv = tk_rv env; now = rv_now rv; w = tw_world tw in
      case findTicket tid tw of
        None \<Rightarrow> (Some errTicketNotFound, tw)
      | Some t \<Rightarrow>
          (if tk_State t \<noteq> ''pending'' then (Some errTicketNotPending, tw)
           else case rejectInTx now t approver reason (rw_bill w) of
             Inl e \<Rightarrow> (Some e, tw)
           | Inr ((newExpiry, behavior), db) \<Rightarrow>
               (if rv_end rv = RolledBack then (Some errDB, tw)
                else let tw1 = addEvent tid ''rejected'' approver reason
                        (tw\<lparr>tw_world := w\<lparr>rw_bill := db\<rparr>, tw_tickets := map (markRejected now tid approver reason) (tw_tickets tw)\<rparr>)
                     in if rv_end rv = CommitUnseen then (Some errDB, tw1)
                        else let rad = InvalidatePolicy (rv_redisUp rv) now (tk_SubscriberID t) (rw_rad w);
                                 ob = (if newExpiry \<le> now
                                       then snd (enforceExpiredCoA (rv_sessions rv) (rv_enqueueFails rv) now (tk_SubscriberID t) behavior
                                              (bl_expiredPool (rw_bill w)) (rw_outbox w))
                                       else rw_outbox w)
                             in (None, tw1\<lparr>tw_world := (tw_world tw1)\<lparr>rw_rad := rad, rw_outbox := ob\<rparr>\<rparr>))))"

end
