(* ===== verification/BillTicketed.thy ===== *)
theory BillTicketed
  imports BillTickets BillMoney
begin

text \<open>
  What the payment tickets of BillTickets keep. The life of a ticket (pending, then approved or rejected, once) is an inductive step relation that also
  takes every billing step of BillMoney in between; from it follow the lifecycle of a ticket and that its approval is charged once. The remaining
  theorems fix what a rejection leaves in the books and what a lost race between an approval and a rejection costs.
\<close>


section \<open>The life of a ticket\<close>

definition desk :: "TicketWorld \<Rightarrow> ticketRow list \<times> nat \<times> RenewWorld" where
  "desk tw = (tw_tickets tw, tw_nextTicket tw, tw_world tw)"

lemma desk_event: "desk (snd (insertTicketEvent f tid ty a n tw)) = desk tw"
  by (simp add: insertTicketEvent_def addEvent_def desk_def)

lemma desk_storeLoop: "desk (snd (storeLoop fails tid i fs tw)) = desk tw"
proof (induction fs arbitrary: i tw)
  case (Cons f fs)
  then show ?case by (simp add: Let_def desk_event) (simp add: desk_def)
qed simp

lemma desk_store: "desk (snd (storeAttachments fails tid fs tw)) = desk tw"
  by (simp add: storeAttachments_def desk_storeLoop)

text \<open>What an operation does to the tickets: it inserts one under a fresh id, or changes pending ones.\<close>

definition tkInsert :: "TicketWorld \<Rightarrow> TicketWorld \<Rightarrow> bool" where
  "tkInsert tw tw' \<longleftrightarrow> (\<exists>row. tw_tickets tw' = tw_tickets tw @ [row] \<and> tw_nextTicket tw' = Suc (tw_nextTicket tw)
     \<and> tk_ID row = ''t'' @ formatUint (tw_nextTicket tw)
     \<and> (\<forall>t \<in> set (tw_tickets tw). tk_SubscriberID t = tk_SubscriberID row \<longrightarrow> tk_State t \<noteq> ''pending''))"

definition tkChange :: "TicketWorld \<Rightarrow> TicketWorld \<Rightarrow> bool" where
  "tkChange tw tw' \<longleftrightarrow> tw_nextTicket tw' = tw_nextTicket tw
     \<and> list_all2 (\<lambda>t t'. tk_ID t' = tk_ID t \<and> tk_SubscriberID t' = tk_SubscriberID t \<and> (tk_State t \<noteq> ''pending'' \<longrightarrow> t' = t))
          (tw_tickets tw) (tw_tickets tw')"

definition ticketInv :: "TicketWorld \<Rightarrow> bool" where
  "ticketInv tw \<longleftrightarrow> (\<forall>s. length (filter (\<lambda>t. tk_SubscriberID t = s \<and> tk_State t = ''pending'') (tw_tickets tw)) \<le> 1)
     \<and> (\<forall>t \<in> set (tw_tickets tw). \<exists>n < tw_nextTicket tw. tk_ID t = ''t'' @ formatUint n)"

definition tkMove :: "TicketWorld \<Rightarrow> TicketWorld \<Rightarrow> bool" where
  "tkMove tw tw' \<longleftrightarrow> tkInsert tw tw' \<or> tkChange tw tw'"

lemma tkChange_same: "tw_tickets tw' = tw_tickets tw \<Longrightarrow> tw_nextTicket tw' = tw_nextTicket tw \<Longrightarrow> tkChange tw tw'"
  by (simp add: tkChange_def list_all2_same)

lemma tkChange_map:
  assumes "tw_tickets tw' = map g (tw_tickets tw)" and "tw_nextTicket tw' = tw_nextTicket tw"
    and "\<And>t. t \<in> set (tw_tickets tw) \<Longrightarrow> tk_ID (g t) = tk_ID t \<and> tk_SubscriberID (g t) = tk_SubscriberID t \<and> (tk_State t \<noteq> ''pending'' \<longrightarrow> g t = t)"
  shows "tkChange tw tw'"
  using assms by (auto simp: tkChange_def list_all2_conv_all_nth)

lemma pending_shrinks:
  assumes "list_all2 (\<lambda>t t'. tk_ID t' = tk_ID t \<and> tk_SubscriberID t' = tk_SubscriberID t \<and> (tk_State t \<noteq> ''pending'' \<longrightarrow> t' = t)) ts ts'"
  shows "length (filter (\<lambda>t. tk_SubscriberID t = s \<and> tk_State t = ''pending'') ts')
     \<le> length (filter (\<lambda>t. tk_SubscriberID t = s \<and> tk_State t = ''pending'') ts)"
  using assms by (induction rule: list_all2_induct) auto

lemma tkChange_inv:
  assumes "tkChange tw tw'" and "ticketInv tw"
  shows "ticketInv tw'"
proof -
  from assms(1) have l: "list_all2 (\<lambda>t t'. tk_ID t' = tk_ID t \<and> tk_SubscriberID t' = tk_SubscriberID t \<and> (tk_State t \<noteq> ''pending'' \<longrightarrow> t' = t))
      (tw_tickets tw) (tw_tickets tw')" and n: "tw_nextTicket tw' = tw_nextTicket tw" by (simp_all add: tkChange_def)
  have "\<exists>n < tw_nextTicket tw'. tk_ID t' = ''t'' @ formatUint n" if m: "t' \<in> set (tw_tickets tw')" for t'
  proof -
    obtain i where "i < length (tw_tickets tw')" "t' = tw_tickets tw' ! i" using m by (auto simp: in_set_conv_nth)
    then have "tw_tickets tw ! i \<in> set (tw_tickets tw)" "tk_ID t' = tk_ID (tw_tickets tw ! i)" using l by (simp_all add: list_all2_conv_all_nth)
    then show ?thesis using assms(2) n by (simp add: ticketInv_def)
  qed
  moreover have "length (filter (\<lambda>t. tk_SubscriberID t = s \<and> tk_State t = ''pending'') (tw_tickets tw')) \<le> 1" for s
    using pending_shrinks [OF l, of s] assms(2) le_trans unfolding ticketInv_def by blast
  ultimately show ?thesis by (simp add: ticketInv_def)
qed

lemma tkInsert_inv:
  assumes "tkInsert tw tw'" and "ticketInv tw"
  shows "ticketInv tw'"
proof -
  obtain row where r: "tw_tickets tw' = tw_tickets tw @ [row]" "tw_nextTicket tw' = Suc (tw_nextTicket tw)"
      "tk_ID row = ''t'' @ formatUint (tw_nextTicket tw)"
    and f: "\<forall>t \<in> set (tw_tickets tw). tk_SubscriberID t = tk_SubscriberID row \<longrightarrow> tk_State t \<noteq> ''pending''"
    using assms(1) by (auto simp: tkInsert_def)
  have "length (filter (\<lambda>t. tk_SubscriberID t = s \<and> tk_State t = ''pending'') (tw_tickets tw')) \<le> 1" for s
  proof (cases "s = tk_SubscriberID row")
    case True
    with f have "filter (\<lambda>t. tk_SubscriberID t = s \<and> tk_State t = ''pending'') (tw_tickets tw) = []" by (auto simp: filter_empty_conv)
    then show ?thesis by (simp add: r(1))
  next
    case False
    then show ?thesis using assms(2) by (simp add: r(1) ticketInv_def)
  qed
  moreover have "\<forall>t \<in> set (tw_tickets tw'). \<exists>n < tw_nextTicket tw'. tk_ID t = ''t'' @ formatUint n"
  proof
    fix t assume "t \<in> set (tw_tickets tw')"
    then consider "t = row" | "t \<in> set (tw_tickets tw)" using r(1) by auto
    then show "\<exists>n < tw_nextTicket tw'. tk_ID t = ''t'' @ formatUint n"
    proof cases
      case 1
      then show ?thesis using r(2,3) by (intro exI [of _ "tw_nextTicket tw"]) simp
    next
      case 2
      then obtain n where "n < tw_nextTicket tw" "tk_ID t = ''t'' @ formatUint n" using assms(2) unfolding ticketInv_def by blast
      then show ?thesis using r(2) less_SucI by metis
    qed
  qed
  ultimately show ?thesis by (simp add: ticketInv_def)
qed

lemma tkMove_inv: "tkMove tw tw' \<Longrightarrow> ticketInv tw \<Longrightarrow> ticketInv tw'"
  by (auto simp: tkMove_def intro: tkChange_inv tkInsert_inv)

lemma tkMove_decided:
  assumes "tkMove tw tw'" and "t \<in> set (tw_tickets tw)" and "tk_State t \<noteq> ''pending''"
  shows "t \<in> set (tw_tickets tw')"
proof (cases "tkInsert tw tw'")
  case True
  then show ?thesis using assms(2) by (auto simp: tkInsert_def)
next
  case False
  with assms(1) have l: "list_all2 (\<lambda>t t'. tk_ID t' = tk_ID t \<and> tk_SubscriberID t' = tk_SubscriberID t \<and> (tk_State t \<noteq> ''pending'' \<longrightarrow> t' = t))
      (tw_tickets tw) (tw_tickets tw')" by (simp add: tkMove_def tkChange_def)
  obtain i where i: "i < length (tw_tickets tw)" "tw_tickets tw ! i = t" using assms(2) by (auto simp: in_set_conv_nth)
  have "tw_tickets tw' ! i = t" using list_all2_nthD [OF l i(1)] i(2) assms(3) by simp
  then show ?thesis using i(1) list_all2_lengthD [OF l] nth_mem by metis
qed

lemma tkMove_next: "tkMove tw tw' \<Longrightarrow> tw_nextTicket tw \<le> tw_nextTicket tw'"
  by (auto simp: tkMove_def tkInsert_def tkChange_def)

text \<open>A ticket id drawn from the counter is not in use.\<close>

lemma fresh_ticket: "ticketInv tw \<Longrightarrow> t \<in> set (tw_tickets tw) \<Longrightarrow> tk_ID t \<noteq> ''t'' @ formatUint (tw_nextTicket tw)"
  using formatUint_inj by (fastforce simp: ticketInv_def)

section \<open>The operations\<close>

lemma grantTrial_moves:
  assumes "\<forall>t \<in> set (tw_tickets tw). tk_ID t = tid \<longrightarrow> tk_State t = ''pending''"
  shows "tkChange tw (snd (grantTrial env sub prof tid tw))"
proof -
  obtain r w where r: "renew (tk_rv env) (trialParams env sub prof tid) (tw_world tw) = (r, w)" by force
  have e: "tw_tickets (snd (insertTicketEvent f i ty a n x)) = tw_tickets x" "tw_nextTicket (snd (insertTicketEvent f i ty a n x)) = tw_nextTicket x"
    for f i ty a n x using desk_event [of f i ty a n x] by (simp_all add: desk_def)
  show ?thesis
  proof (cases r)
    case (Inl x)
    with r show ?thesis by (simp add: grantTrial_def tkChange_same)
  next
    case (Inr rr)
    show ?thesis
    proof (cases "tk_fails env StTrialMark")
      case True
      with r Inr show ?thesis by (simp add: grantTrial_def tkChange_same)
    next
      case False
      let ?g = "\<lambda>t. if tk_ID t = tid then t\<lparr>tk_TrialTx := rr_LedgerTxID rr\<rparr> else t"
      let ?tw2 = "tw\<lparr>tw_world := w, tw_tickets := map ?g (tw_tickets tw)\<rparr>"
      have "snd (grantTrial env sub prof tid tw) = snd (insertTicketEvent (tk_fails env StTrialEvent) tid ''trial_granted'' '''' '''' ?tw2)"
        using r Inr False by (simp add: grantTrial_def insertTicketEvent_def)
      then show ?thesis using assms by (intro tkChange_map [where g = ?g]) (auto simp: e)
    qed
  qed
qed

lemma ticketOf_Inr: "ticketOf env p meth prof f tid = Inr row \<Longrightarrow> tk_ID row = tid \<and> tk_SubscriberID row = sp_SubscriberID p
    \<and> tk_State row = ''pending'' \<and> tk_TrialTx row = []"
  by (auto simp: ticketOf_def Let_def split: if_splits option.splits)

text \<open>What a submission does: nothing, or an inserted ticket, with attachments and perhaps the trial.\<close>

lemma submit_cases:
  obtains e where "submitTicket env p tw = (Inl e, tw)"
  | row tw1 tw2 s where "insertTicket env row tw = Inr tw1" and "tk_ID row = ''t'' @ formatUint (tw_nextTicket tw)"
      and "tk_SubscriberID row = sp_SubscriberID p" and "tk_State row = ''pending''" and "desk tw2 = desk tw1"
      and "bl_subs (rw_bill (tw_world tw)) (sp_SubscriberID p) = Some s"
      and "submitTicket env p tw = (Inl errDB, tw2) \<or>
        submitTicket env p tw = (if \<not> trialEligible (sp_SubscriberID p) (tw_tickets tw)
          then (Inr \<lparr>sr_ID = tk_ID row, sr_State = ''pending'', sr_TrialGranted = False, sr_TrialExpiresAt = None\<rparr>, tw2)
          else grantTrial env (sp_SubscriberID p) (sb_ProfileID s) (tk_ID row) tw2)"
proof (cases "\<exists>e. submitTicket env p tw = (Inl e, tw)")
  case True
  then show thesis using that(1) by blast
next
  case False
  let ?tid = "''t'' @ formatUint (tw_nextTicket tw)"
  from False obtain meth s f row tw1 where m: "\<not> tk_fails env StMethods"
      "find (\<lambda>pm. py_Key pm = sp_MethodKey p) (resolvePayMethods (sp_SubscriberID p) (tw_pay tw)) = Some meth"
    and s: "bl_subs (rw_bill (tw_world tw)) (sp_SubscriberID p) = Some s" "\<not> (tk_fails env StSubscriber \<or> sb_ProfileID s = [])"
    and f: "bl_profiles (rw_bill (tw_world tw)) (sb_ProfileID s) = Some f" "\<not> (tk_fails env StProfile \<or> tk_fails env StEligible)"
    and r: "ticketOf env p meth (sb_ProfileID s) f ?tid = Inr row" and i: "insertTicket env row tw = Inr tw1"
    by (auto simp: submitTicket_def Let_def split: if_splits option.splits sum.splits)
  let ?ev = "insertTicketEvent (tk_fails env StSubmitted) ?tid ''submitted'' '''' '''' tw1"
  show thesis
  proof (cases "fst ?ev")
    case False
    then have "submitTicket env p tw = (Inl errDB, snd ?ev)"
      using m s f r i by (auto simp: submitTicket_def insertTicketEvent_def Let_def split: if_splits)
    then show ?thesis using that(2) [OF i _ _ _ desk_event s(1)] ticketOf_Inr [OF r] by blast
  next
    case True
    let ?st = "storeAttachments (tk_fails env) ?tid (sp_Attachments p) (snd ?ev)"
    let ?tw4 = "if fst ?st then snd ?st else snd (insertTicketEvent (tk_fails env StAttachFailed) ?tid ''attachment_failed'' '''' ''error'' (snd ?st))"
    have "submitTicket env p tw = (if \<not> trialEligible (sp_SubscriberID p) (tw_tickets tw)
        then (Inr \<lparr>sr_ID = ?tid, sr_State = ''pending'', sr_TrialGranted = False, sr_TrialExpiresAt = None\<rparr>, ?tw4)
        else grantTrial env (sp_SubscriberID p) (sb_ProfileID s) ?tid ?tw4)"
      using m s f r i True by (simp add: submitTicket_def insertTicketEvent_def Let_def case_prod_unfold)
    moreover have "desk ?tw4 = desk tw1" by (simp add: desk_event desk_store)
    ultimately show ?thesis using that(2) [OF i _ _ _ _ s(1)] ticketOf_Inr [OF r] by metis
  qed
qed

lemma tkMove_desk: "desk x = desk tw \<Longrightarrow> tkMove tw x"
  by (simp add: tkMove_def tkChange_same desk_def)

lemma insertTicket_Inr:
  assumes "insertTicket env row tw = Inr tw1"
  shows "tw_tickets tw1 = tw_tickets tw @ [row]" and "tw_nextTicket tw1 = Suc (tw_nextTicket tw)" and "tw_world tw1 = tw_world tw"
    and "\<forall>t \<in> set (tw_tickets tw). tk_SubscriberID t = tk_SubscriberID row \<longrightarrow> tk_State t \<noteq> ''pending''"
  using assms by (auto simp: insertTicket_def list_ex_iff split: if_splits)

lemma submit_moves:
  assumes "ticketInv tw"
  shows "tkMove\<^sup>*\<^sup>* tw (snd (submitTicket env p tw))"
proof (rule submit_cases [of env p tw])
  fix row tw1 tw2 s
  assume i: "insertTicket env row tw = Inr tw1" and id: "tk_ID row = ''t'' @ formatUint (tw_nextTicket tw)" and p: "tk_State row = ''pending''"
    and d: "desk tw2 = desk tw1"
    and out: "submitTicket env p tw = (Inl errDB, tw2) \<or>
        submitTicket env p tw = (if \<not> trialEligible (sp_SubscriberID p) (tw_tickets tw)
          then (Inr \<lparr>sr_ID = tk_ID row, sr_State = ''pending'', sr_TrialGranted = False, sr_TrialExpiresAt = None\<rparr>, tw2)
          else grantTrial env (sp_SubscriberID p) (sb_ProfileID s) (tk_ID row) tw2)"
  note ins = insertTicket_Inr [OF i]
  have "tkMove tw tw1" using ins id by (auto simp: tkMove_def tkInsert_def)
  moreover have "tkMove tw1 tw2" using d by (rule tkMove_desk)
  ultimately have *: "tkMove\<^sup>*\<^sup>* tw tw2" by simp
  have "\<forall>t \<in> set (tw_tickets tw2). tk_ID t = tk_ID row \<longrightarrow> tk_State t = ''pending''"
    using fresh_ticket [OF assms] ins(1) id p d by (auto simp: desk_def)
  then have "tkMove tw2 (snd (grantTrial env (sp_SubscriberID p) (sb_ProfileID s) (tk_ID row) tw2))"
    using grantTrial_moves by (simp add: tkMove_def)
  with * out show ?thesis by (auto split: if_splits)
qed simp

lemma approveRun_moves: "tkMove tw (snd (approveRun env t approver tw))"
proof -
  obtain r w where r: "renew (tk_rv env) (approveParams env t approver) (tw_world tw) = (r, w)" by force
  have same: "tkMove tw (tw\<lparr>tw_world := w\<rparr>)" by (simp add: tkMove_def tkChange_same)
  show ?thesis
  proof (cases r)
    case (Inl x)
    with r same show ?thesis by (simp add: approveRun_def)
  next
    case (Inr rr)
    let ?g = "markApproved (rv_now (tk_rv env)) (tk_ID t) (rr_LedgerTxID rr) approver"
    let ?tw2 = "tw\<lparr>tw_world := w, tw_tickets := map ?g (tw_tickets tw)\<rparr>"
    have "tkChange tw (snd (insertTicketEvent (tk_fails env StApproveEvent) (tk_ID t) ''approved'' approver '''' ?tw2))"
      by (rule tkChange_map [where g = ?g]) (auto simp: insertTicketEvent_def addEvent_def markApproved_def)
    then show ?thesis using r Inr same
      by (auto simp: approveRun_def tkMove_def insertTicketEvent_def Let_def)
  qed
qed

lemma reject_moves: "tkMove tw (snd (rejectTicket env tid approver reason tw))"
proof -
  have same: "tkMove tw tw" by (simp add: tkMove_def tkChange_same)
  let ?g = "markRejected (rv_now (tk_rv env)) tid approver reason"
  have ch: "tkMove tw x" if "tw_tickets x = map ?g (tw_tickets tw)" and "tw_nextTicket x = tw_nextTicket tw" for x
    unfolding tkMove_def by (rule disjI2, rule tkChange_map [OF that]) (auto simp: markRejected_def)
  show ?thesis
    by (auto simp: rejectTicket_def Let_def addEvent_def same intro!: ch split: option.splits sum.splits prod.splits)
qed

text \<open>
  Requests in any order, and under any failure. An approval acts on a ticket row that was read at any earlier time; other billing
  transactions may run at any point.
\<close>

inductive ticketStep :: "TicketWorld \<Rightarrow> TicketWorld \<Rightarrow> bool" where
  submit: "ticketStep tw (snd (submitTicket env p tw))"
| approve: "ticketStep tw (snd (approveRun env t approver tw))"
| reject: "ticketStep tw (snd (rejectTicket env tid approver reason tw))"
| other: "billStep (rw_bill (tw_world tw)) db \<Longrightarrow> ticketStep tw (tw\<lparr>tw_world := (tw_world tw)\<lparr>rw_bill := db\<rparr>\<rparr>)"

lemma ticketStep_moves: "ticketStep tw tw' \<Longrightarrow> ticketInv tw \<Longrightarrow> tkMove\<^sup>*\<^sup>* tw tw'"
proof (induction rule: ticketStep.induct)
  case (other tw db)
  show ?case by (rule r_into_rtranclp) (simp add: tkMove_def tkChange_same)
qed (use submit_moves approveRun_moves reject_moves in blast)+

lemma tkMoves_inv: "tkMove\<^sup>*\<^sup>* tw tw' \<Longrightarrow> ticketInv tw \<Longrightarrow> ticketInv tw'"
  by (induction rule: rtranclp_induct) (auto intro: tkMove_inv)

lemma tkMoves_decided: "tkMove\<^sup>*\<^sup>* tw tw' \<Longrightarrow> t \<in> set (tw_tickets tw) \<Longrightarrow> tk_State t \<noteq> ''pending'' \<Longrightarrow> t \<in> set (tw_tickets tw')"
  by (induction rule: rtranclp_induct) (auto intro: tkMove_decided)

lemma ticketStep_inv: "ticketStep tw tw' \<Longrightarrow> ticketInv tw \<Longrightarrow> ticketInv tw'"
  using ticketStep_moves tkMoves_inv by blast

interpretation tickets: kept ticketStep ticketInv
  by unfold_locales (rule ticketStep_inv)

lemma ticketSteps_moves: "ticketStep\<^sup>*\<^sup>* tw tw' \<Longrightarrow> ticketInv tw \<Longrightarrow> tkMove\<^sup>*\<^sup>* tw tw'"
proof (induction rule: rtranclp_induct)
  case (step y z)
  then show ?case using ticketStep_moves tickets.run_keeps rtranclp_trans by metis
qed simp

text \<open>
  C16: tickets are decided one at a time, and for good. After any run of submissions, approvals on rows read at any earlier time, rejections
  and other billing transactions, under any failure, no subscriber has two pending tickets, and a decided ticket is
  still there, unchanged.
\<close>

theorem ticket_lifecycle:
  assumes "ticketStep\<^sup>*\<^sup>* tw tw'" and "ticketInv tw"
  shows "length (filter (\<lambda>t. tk_SubscriberID t = s \<and> tk_State t = ''pending'') (tw_tickets tw')) \<le> 1
     \<and> (\<forall>t \<in> set (tw_tickets tw). tk_State t \<noteq> ''pending'' \<longrightarrow> t \<in> set (tw_tickets tw'))"
  using ticketSteps_moves [OF assms] tkMoves_decided tickets.run_keeps [OF assms] unfolding ticketInv_def by blast

section \<open>Money of a ticket\<close>

lemma renew_bill: "rw_bill (snd (renew rv p w)) = snd (renewTx (rv_fl rv) (rv_end rv) (rv_now rv) p (rw_bill w))"
  by (auto simp: renew_def afterRenewal_def Let_def split: prod.split sum.split bool.split)

lemma approveRun_bill: "rw_bill (tw_world (snd (approveRun env t approver tw))) = rw_bill (snd (renew (tk_rv env) (approveParams env t approver) (tw_world tw)))"
  by (auto simp: approveRun_def insertTicketEvent_def addEvent_def Let_def split: prod.split sum.split)

lemma grantTrial_bill: "rw_bill (tw_world (snd (grantTrial env sub prof tid tw))) = rw_bill (snd (renew (tk_rv env) (trialParams env sub prof tid) (tw_world tw)))"
  by (auto simp: grantTrial_def insertTicketEvent_def addEvent_def Let_def split: prod.split sum.split)

lemma rejectInTx_Inr:
  assumes "rejectInTx now t approver reason db = Inr ((newExpiry, behavior), db')"
  shows "bl_idem db' = bl_idem db" and "bl_journal db' = bl_journal db" and "bl_payments db' = bl_payments db"
    and "\<exists>s. bl_subs db (tk_SubscriberID t) = Some s \<and> newExpiry = rollbackExpiry now (sb_ExpiresAt s) ticketTrialDays
      \<and> bl_subs db' = bl_subs (rollbackSubscriber now (tk_SubscriberID t) newExpiry db)"
proof -
  from assms obtain i db1 where a: "(if tk_TrialTx t = [] then Inr ([], db) else
      case insertLedger (trialReversal t approver reason) db of Inl e \<Rightarrow> Inl errDB | Inr r \<Rightarrow> Inr r) = Inr (i, db1)"
    and b: "(case bl_subs db1 (tk_SubscriberID t) of None \<Rightarrow> Inl errDB | Some s \<Rightarrow>
      (let x = rollbackExpiry now (sb_ExpiresAt s) ticketTrialDays
       in Inr ((x, behaviorAfter s db1), rollbackSubscriber now (tk_SubscriberID t) x db1))) = Inr ((newExpiry, behavior), db')"
    by (auto simp: rejectInTx_def bindE_pair)
  have "bl_idem db1 = bl_idem db \<and> bl_journal db1 = bl_journal db \<and> bl_payments db1 = bl_payments db \<and> bl_subs db1 = bl_subs db"
    using a by (auto dest!: insertLedger_Inr(1) split: if_splits sum.splits)
  with b show "bl_idem db' = bl_idem db" "bl_journal db' = bl_journal db" "bl_payments db' = bl_payments db"
    "\<exists>s. bl_subs db (tk_SubscriberID t) = Some s \<and> newExpiry = rollbackExpiry now (sb_ExpiresAt s) ticketTrialDays
      \<and> bl_subs db' = bl_subs (rollbackSubscriber now (tk_SubscriberID t) newExpiry db)"
    by (auto simp: rollbackSubscriber_def Let_def split: option.splits)
qed

lemma reject_bill:
  "rw_bill (tw_world (snd (rejectTicket env tid approver reason tw))) = rw_bill (tw_world tw)
   \<or> (\<exists>t x b. findTicket tid tw = Some t \<and> rejectInTx (rv_now (tk_rv env)) t approver reason (rw_bill (tw_world tw)) =
        Inr ((x, b), rw_bill (tw_world (snd (rejectTicket env tid approver reason tw)))))"
  by (auto simp: rejectTicket_def Let_def addEvent_def split: option.splits sum.splits)

lemma submit_bill:
  "rw_bill (tw_world (snd (submitTicket env p tw))) = rw_bill (tw_world tw)
   \<or> (\<exists>sub prof tid. rw_bill (tw_world (snd (submitTicket env p tw))) = rw_bill (snd (renew (tk_rv env) (trialParams env sub prof tid) (tw_world tw))))"
proof (rule submit_cases [of env p tw])
  fix row tw1 tw2 s
  assume i: "insertTicket env row tw = Inr tw1" and d: "desk tw2 = desk tw1"
    and out: "submitTicket env p tw = (Inl errDB, tw2) \<or>
        submitTicket env p tw = (if \<not> trialEligible (sp_SubscriberID p) (tw_tickets tw)
          then (Inr \<lparr>sr_ID = tk_ID row, sr_State = ''pending'', sr_TrialGranted = False, sr_TrialExpiresAt = None\<rparr>, tw2)
          else grantTrial env (sp_SubscriberID p) (sb_ProfileID s) (tk_ID row) tw2)"
  have "tw_world tw2 = tw_world tw" using insertTicket_Inr(3) [OF i] d by (simp add: desk_def)
  then have "rw_bill (tw_world (snd (grantTrial env (sp_SubscriberID p) (sb_ProfileID s) (tk_ID row) tw2))) =
      rw_bill (snd (renew (tk_rv env) (trialParams env (sp_SubscriberID p) (sb_ProfileID s) (tk_ID row)) (tw_world tw)))"
    by (simp add: grantTrial_bill)
  then show ?thesis using out \<open>tw_world tw2 = tw_world tw\<close> by (metis snd_conv)
qed simp

lemma renew_keys: "\<exists>ks. bl_idem (rw_bill (snd (renew rv p w))) = bl_idem (rw_bill w) @ ks"
  using lasting.renewTx_path by (simp add: renew_bill later_def)

lemma ticketStep_keys: "ticketStep tw tw' \<Longrightarrow> \<exists>ks. bl_idem (rw_bill (tw_world tw')) = bl_idem (rw_bill (tw_world tw)) @ ks"
proof (induction rule: ticketStep.induct)
  case (submit tw env p)
  show ?case using submit_bill [of env p tw] renew_keys by auto
next
  case (approve tw env t approver)
  show ?case using renew_keys by (simp add: approveRun_bill)
next
  case (reject tw env tid approver reason)
  show ?case using reject_bill [of env tid approver reason tw] rejectInTx_Inr(1) by fastforce
next
  case (other tw db)
  then show ?case using lasting.billStep_path by (simp add: later_def)
qed

lemma ticketSteps_keys: "ticketStep\<^sup>*\<^sup>* tw tw' \<Longrightarrow> \<exists>ks. bl_idem (rw_bill (tw_world tw')) = bl_idem (rw_bill (tw_world tw)) @ ks"
  by (induction rule: rtranclp_induct) (auto dest: ticketStep_keys)

text \<open>
  C6: a ticket is charged once. When the renewal of an approval has committed, whatever the approval answered, every later approval of the ticket, by
  whomever and after any requests in between, moves no money.
\<close>

theorem ticket_charged_once:
  assumes "renewInTx (rv_fl (tk_rv env)) (rv_now (tk_rv env)) (approveParams env t approver) (rw_bill (tw_world tw)) = Inr (res, db0)"
    and "rv_end (tk_rv env) \<noteq> RolledBack" and "''ticket_approve:'' @ tk_ID t \<notin> fst ` set (bl_idem (rw_bill (tw_world tw)))"
    and "ticketStep\<^sup>*\<^sup>* (snd (approveRun env t approver tw)) tw2" and "tk_ID t' = tk_ID t"
  shows "rw_bill (tw_world (snd (approveRun env' t' approver' tw2))) = rw_bill (tw_world tw2)"
proof -
  let ?p = "approveParams env t approver"
  have k: "p_idemKey ?p = ''ticket_approve:'' @ tk_ID t" "p_idemKey (approveParams env' t' approver') = p_idemKey ?p"
    using assms(5) by (simp_all add: approveParams_def)
  obtain r db1 where r: "renewTx (rv_fl (tk_rv env)) (rv_end (tk_rv env)) (rv_now (tk_rv env)) ?p (rw_bill (tw_world tw)) = (r, db1)" by force
  have "bl_idem db1 = bl_idem (rw_bill (tw_world tw)) @ [(p_idemKey ?p, Some (serialized res))]"
    using renewTx_stores [OF r assms(2,1)] assms(3) k(1) by simp
  moreover have "rw_bill (tw_world (snd (approveRun env t approver tw))) = db1" by (simp add: approveRun_bill renew_bill r)
  ultimately obtain ks where "bl_idem (rw_bill (tw_world tw2)) = bl_idem (rw_bill (tw_world tw)) @ (p_idemKey ?p, Some (serialized res)) # ks"
    using ticketSteps_keys [OF assms(4)] by auto
  then have "renewTx (rv_fl (tk_rv env')) (rv_end (tk_rv env')) (rv_now (tk_rv env')) (approveParams env' t' approver') (rw_bill (tw_world tw2))
      = (Inr (serialized res, True), rw_bill (tw_world tw2))"
    using assms(3) k by (intro renewTx_replays) auto
  then show ?thesis by (simp add: approveRun_bill renew_bill)
qed

section \<open>What the ticket flow gets wrong\<close>

lemma journalLines_cash:
  assumes "journalLines e gross True = Inr ls" and "le_ActorManagerID e = []" and "le_Type e = ''adjustment''"
  shows "(\<Sum>l \<leftarrow> ls. if jl_AccountCode l = acctCash then jl_Debit l - jl_Credit l else 0) = gross"
  using assms by (auto simp: journalLines_def signedPair_def acct_defs Let_def split: if_splits option.splits)

text \<open>The books of a trial: the whole retail price goes through the cash account and into the payments.\<close>

lemma trial_books:
  assumes "renewInTx fl now (trialParams env sub prof tid) db = Inr (res, db')" and "bl_subs db sub = Some s" and "bl_profiles db prof = Some f"
    and "prof \<noteq> []"
  shows "accountNet acctCash (bl_journal db') = accountNet acctCash (bl_journal db) + renewPrice s f
     \<and> (\<exists>pm. bl_payments db' = bl_payments db @ [pm] \<and> pm_Amount pm = renewPrice s f)"
  using assms(1)
proof (rule renewInTx_Inr)
  fix s' f' db1 db2
  let ?p = "trialParams env sub prof tid"
  assume s': "bl_subs db (p_subscriberID ?p) = Some s'" and f': "bl_profiles db (targetProfile ?p s') = Some f'"
    and c: "checkBalance ?p (renewAmount now ?p s' f' db) db = Inr ((), db1)"
    and g: "chargeRenewal fl now ?p (renewPrice s' f') (renewAmount now ?p s' f' db)
      (costAtSaleOf now (targetProfile ?p s') (pf_Currency f') db) db1 = Inr (rr_LedgerTxID res, db2)"
    and j: "bl_journal db' = bl_journal db2"
    and pay: "bl_payments db' = bl_payments (insertPayment \<lparr>pm_ReceiptNo = rr_ReceiptNo res, pm_LedgerTxID = rr_LedgerTxID res,
       pm_SubscriberID = p_subscriberID ?p, pm_Amount = renewPrice s' f', pm_Currency = pf_Currency f', pm_Method = p_method ?p,
       pm_Source = p_source ?p\<rparr> db2)"
  have [simp]: "s' = s" "f' = f" using s' f' assms(2-4) by (auto simp: trialParams_def targetProfile_def)
  have [simp]: "\<not> p_chargeBalance ?p" "p_actorManagerID ?p = []" by (simp_all add: trialParams_def)
  let ?e = "renewEntry ?p 0 (costAtSaleOf now (targetProfile ?p s) (pf_Currency f) db)"
  from g obtain i db3 where ins: "insertLedger ?e db1 = Inr (i, db3)"
    and post: "postLedgerJournal now ?e i (renewPrice s f) True (''billing.'' @ p_ledgerType ?p) [] db3 = Inr ((), db2)"
    by (auto simp: chargeRenewal_def Let_def bindE_pair)
  have "db1 = db" using c by (simp add: checkBalance_def)
  then have "bl_journal db3 = bl_journal db" using insertLedger_Inr(1) [OF ins] by simp
  moreover have "le_ActorManagerID ?e = []" "le_Type ?e = ''adjustment''" by (simp_all add: renewEntry_def trialParams_def)
  ultimately have "accountNet acctCash (bl_journal db2) = accountNet acctCash (bl_journal db) + renewPrice s f"
    using postLedgerJournal_Inr [OF post] journalLines_cash [of ?e] by (auto simp: accountNet_append accountNet_concat)
  moreover have "bl_payments db2 = bl_payments db" using renewal_keeps [OF c g] by simp
  ultimately show ?thesis using j pay by (auto simp: insertPayment_def)
qed

lemma grantTrial_Inr:
  assumes "grantTrial env sub prof tid tw = (Inr res, tw1)"
    and "''ticket_trial:'' @ tid \<notin> fst ` set (bl_idem (rw_bill (tw_world tw)))"
  shows "\<exists>rr db. renewInTx (rv_fl (tk_rv env)) (rv_now (tk_rv env)) (trialParams env sub prof tid) (rw_bill (tw_world tw)) = Inr (rr, db)
     \<and> bl_journal (rw_bill (tw_world tw1)) = bl_journal db \<and> bl_payments (rw_bill (tw_world tw1)) = bl_payments db \<and> sr_ID res = tid"
proof -
  let ?p = "trialParams env sub prof tid" and ?rv = "tk_rv env"
  have "\<exists>rr w. renew ?rv ?p (tw_world tw) = (Inr rr, w)" and id: "sr_ID res = tid"
    using assms(1) by (auto simp: grantTrial_def insertTicketEvent_def Let_def split: prod.splits sum.splits if_splits)
  then obtain rr w where r: "renew ?rv ?p (tw_world tw) = (Inr rr, w)" by blast
  have k: "p_idemKey ?p = ''ticket_trial:'' @ tid" by (simp add: trialParams_def)
  obtain y db1 where t: "renewTx (rv_fl ?rv) (rv_end ?rv) (rv_now ?rv) ?p (rw_bill (tw_world tw)) = (Inr y, db1)"
    using r by (auto simp: renew_def split: prod.splits sum.splits)
  then obtain rr0 db where i: "renewInTx (rv_fl ?rv) (rv_now ?rv) ?p (rw_bill (tw_world tw)) = Inr (rr0, db)"
    and d: "db1 = db\<lparr>bl_idem := bl_idem db @ [(p_idemKey ?p, Some (serialized rr0))]\<rparr>"
    using assms(2) k by (auto simp: renewTx_def endTx_def bindE_pair split: sum.splits prod.splits txEnd.splits if_splits)
  have "rw_bill (tw_world tw1) = db1" using grantTrial_bill [of env sub prof tid tw] assms(1) renew_bill [of ?rv ?p "tw_world tw"] t by simp
  then show ?thesis using i d id by auto
qed

lemma grantTrial_id: "grantTrial env sub prof tid tw = (Inr res, tw1) \<Longrightarrow> sr_ID res = tid"
  by (auto simp: grantTrial_def insertTicketEvent_def Let_def split: prod.splits sum.splits if_splits)


text \<open>
  A rejected ticket keeps its revenue. A submission that grants the trial books the full price of the plan as cash
  and as a payment; the rejection that follows reverses the ledger row of amount zero and nothing else, so
  the cash account and the payments stay up by a price that nobody paid.
\<close>

theorem rejected_trial_keeps_revenue:
  assumes "submitTicket env p tw = (Inr res, tw1)" and "sr_TrialGranted res"
    and "bl_subs (rw_bill (tw_world tw)) (sp_SubscriberID p) = Some s" and "bl_profiles (rw_bill (tw_world tw)) (sb_ProfileID s) = Some f"
    and "sb_ProfileID s \<noteq> []" and "''ticket_trial:'' @ sr_ID res \<notin> fst ` set (bl_idem (rw_bill (tw_world tw)))"
    and "rejectTicket env' (sr_ID res) approver reason tw1 = (None, tw2)"
  shows "accountNet acctCash (bl_journal (rw_bill (tw_world tw2))) =
       accountNet acctCash (bl_journal (rw_bill (tw_world tw))) + renewPrice s f
     \<and> (\<exists>pm. bl_payments (rw_bill (tw_world tw2)) = bl_payments (rw_bill (tw_world tw)) @ [pm] \<and> pm_Amount pm = renewPrice s f)"
proof (rule submit_cases [of env p tw])
  fix e assume "submitTicket env p tw = (Inl e, tw)"
  then show ?thesis using assms(1) by simp
next
  fix row tw0 tw' s'
  assume i: "insertTicket env row tw = Inr tw0" and d: "desk tw' = desk tw0" and s': "bl_subs (rw_bill (tw_world tw)) (sp_SubscriberID p) = Some s'"
    and out: "submitTicket env p tw = (Inl errDB, tw') \<or>
        submitTicket env p tw = (if \<not> trialEligible (sp_SubscriberID p) (tw_tickets tw)
          then (Inr \<lparr>sr_ID = tk_ID row, sr_State = ''pending'', sr_TrialGranted = False, sr_TrialExpiresAt = None\<rparr>, tw')
          else grantTrial env (sp_SubscriberID p) (sb_ProfileID s') (tk_ID row) tw')"
  have w: "tw_world tw' = tw_world tw" using insertTicket_Inr(3) [OF i] d by (simp add: desk_def)
  have g: "grantTrial env (sp_SubscriberID p) (sb_ProfileID s) (tk_ID row) tw' = (Inr res, tw1)"
    using out assms(1-3) s' by (auto split: if_splits)
  then have "sr_ID res = tk_ID row" by (rule grantTrial_id)
  then obtain rr db where r: "renewInTx (rv_fl (tk_rv env)) (rv_now (tk_rv env)) (trialParams env (sp_SubscriberID p) (sb_ProfileID s) (tk_ID row))
        (rw_bill (tw_world tw)) = Inr (rr, db)"
    and j: "bl_journal (rw_bill (tw_world tw1)) = bl_journal db" "bl_payments (rw_bill (tw_world tw1)) = bl_payments db"
    using grantTrial_Inr [OF g] assms(6) w by auto
  have "bl_journal (rw_bill (tw_world tw2)) = bl_journal (rw_bill (tw_world tw1)) \<and> bl_payments (rw_bill (tw_world tw2)) = bl_payments (rw_bill (tw_world tw1))"
    using reject_bill [of env' "sr_ID res" approver reason tw1] assms(7) rejectInTx_Inr(2,3) by fastforce
  then show ?thesis using trial_books [OF r assms(3-5)] j by simp
qed

text \<open>
  An approval that races with a rejection charges the manager. The approval reads a pending ticket; the
  rejection commits; the approval then renews, and only afterwards finds that the ticket is no longer
  pending: its caller is told so, but the renewal stays and the balance is charged.
\<close>

theorem approve_race_charges:
  assumes "approveRead env tid tw = Inr t" and "rejectTicket env' tid rejecter reason tw = (None, tw1)"
    and "renewTx (rv_fl (tk_rv env)) (rv_end (tk_rv env)) (rv_now (tk_rv env)) (approveParams env t approver) (rw_bill (tw_world tw1)) = (Inr (res, False), db)"
    and "\<not> tk_fails env StApproveMark" and "balInv (rw_bill (tw_world tw1))"
    and "bl_subs (rw_bill (tw_world tw1)) (tk_SubscriberID t) = Some s"
    and "bl_profiles (rw_bill (tw_world tw1)) (targetProfile (approveParams env t approver) s) = Some f"
  shows "fst (approveRun env t approver tw1) = Inl errTicketNotPending
     \<and> readBalance approver (rw_bill (tw_world (snd (approveRun env t approver tw1)))) = readBalance approver (rw_bill (tw_world tw1))
         - renewAmount (rv_now (tk_rv env)) (approveParams env t approver) s f (rw_bill (tw_world tw1))
         + commissionDue (rv_fl (tk_rv env)) approver (renewAmount (rv_now (tk_rv env)) (approveParams env t approver) s f (rw_bill (tw_world tw1)))
             (rw_bill (tw_world tw1))"
proof -
  let ?p = "approveParams env t approver" and ?rv = "tk_rv env" and ?b = "rw_bill (tw_world tw1)"
  have p: "p_actorManagerID ?p = approver" "p_chargeBalance ?p" "p_subscriberID ?p = tk_SubscriberID t" by (simp_all add: approveParams_def)
  have id: "tk_ID t = tid" using assms(1) by (auto simp: approveRead_def findTicket_def find_Some_iff split: option.splits if_splits)
  have "tw_tickets tw1 = map (markRejected (rv_now (tk_rv env')) tid rejecter reason) (tw_tickets tw)"
    using assms(2) by (auto simp: rejectTicket_def Let_def addEvent_def split: option.splits sum.splits if_splits)
  then have np: "\<not> list_ex (\<lambda>x. tk_ID x = tk_ID t \<and> tk_State x = ''pending'') (tw_tickets tw1)"
    using id by (auto simp: list_ex_iff markRejected_def)
  have "\<exists>rr w. renew ?rv ?p (tw_world tw1) = (Inr rr, w)"
    using assms(3) by (simp add: renew_def split: prod.split)
  then obtain rr w where r: "renew ?rv ?p (tw_world tw1) = (Inr rr, w)" by blast
  have a: "approveRun env t approver tw1 = (Inl errTicketNotPending, tw1\<lparr>tw_world := w\<rparr>)"
    using r np assms(4) by (simp add: approveRun_def)
  obtain res0 db0 where i: "renewInTx (rv_fl ?rv) (rv_now ?rv) ?p ?b = Inr (res0, db0)" and d: "readBalance approver db = readBalance approver db0"
    using assms(3) by (auto simp: renewTx_def endTx_def bindE_pair readBalance_def split: sum.splits prod.splits txEnd.splits if_splits)
  have w: "rw_bill w = db" using renew_bill [of ?rv ?p "tw_world tw1"] r assms(3) by simp
  from i show ?thesis
  proof (rule renewInTx_books)
    fix s' f'
    assume "bl_subs ?b (p_subscriberID ?p) = Some s'" and "bl_profiles ?b (targetProfile ?p s') = Some f'"
      and b: "books (creditOf (p_actorManagerID ?p) (renewalDelta (rv_fl ?rv) ?p (renewAmount (rv_now ?rv) ?p s' f' ?b) ?b)) ?b db0"
      and ne: "p_chargeBalance ?p \<Longrightarrow> p_actorManagerID ?p \<noteq> []"
    then have "s' = s" "f' = f" using assms(6,7) p by auto
    then show ?thesis using a w d b ne p assms(5) by (simp add: books_def balInv_def renewalDelta_def)
  qed
qed

text \<open>
  A rejection takes a day that was never given. A ticket whose submission earned no trial is rejected, and the
  subscriber's expiry still moves back by a day.
\<close>

theorem reject_without_trial_takes_day:
  assumes "findTicket tid tw = Some t" and "tk_State t = ''pending''" and "tk_TrialTx t = []"
    and "bl_subs (rw_bill (tw_world tw)) (tk_SubscriberID t) = Some s" and "sb_ExpiresAt s = Some x"
    and "rv_now (tk_rv env) + dayLength \<le> x" and "rv_end (tk_rv env) = Committed"
  shows "fst (rejectTicket env tid approver reason tw) = None
     \<and> map_option sb_ExpiresAt (bl_subs (rw_bill (tw_world (snd (rejectTicket env tid approver reason tw)))) (tk_SubscriberID t)) = Some (Some (x - dayLength))"
proof -
  have e: "rollbackExpiry (rv_now (tk_rv env)) (Some x) ticketTrialDays = x - dayLength"
    using assms(6) by (simp add: rollbackExpiry_def ticketTrialDays_def addDays_def)
  show ?thesis using assms e
    by (auto simp: rejectTicket_def rejectInTx_def addEvent_def rollbackSubscriber_def Let_def)
qed

section \<open>Witnesses\<close>

definition samplePay :: PayTables where
  "samplePay = \<lparr>pt_owner = (\<lambda>s. ''''), pt_providers = [], pt_settings = [], pt_accounts = [],
     pt_instSettings = [\<lparr>ms_ManagerID = '''', ms_MethodKey = ''scratch_card'', ms_Enabled = True\<rparr>], pt_instAccounts = []\<rparr>"

definition sampleTicket :: ticketRow where
  "sampleTicket = \<lparr>tk_ID = ''t9'', tk_SubscriberID = ''S1'', tk_ProfileID = ''P1'', tk_MethodKey = ''scratch_card'', tk_ProviderID = None,
     tk_Amount = 100, tk_Currency = ''IQD'', tk_TransferReference = None, tk_TransferDate = None, tk_Note = '''', tk_Detail = [],
     tk_State = ''pending'', tk_TrialTx = '''', tk_ApproveTx = '''', tk_DecidedBy = '''', tk_DecidedAt = None, tk_RejectReason = '''', tk_CreatedAt = 0\<rparr>"

definition sampleTW :: "Bill \<Rightarrow> ticketRow list \<Rightarrow> TicketWorld" where
  "sampleTW db ts = \<lparr>tw_world = sampleWorld db, tw_pay = samplePay, tw_tickets = ts, tw_nextTicket = 10, tw_events = [], tw_files = []\<rparr>"

definition sampleTE :: TicketEnv where
  "sampleTE = \<lparr>tk_rv = sampleRV, tk_fails = (\<lambda>x. False), tk_encrypt = (\<lambda>c. Some []), tk_cardTypesSetting = None, tk_anchor = ''from_expiry'',
     tk_prefix = ''R-''\<rparr>"

definition sampleSubmit :: submitTicketParams where
  "sampleSubmit = \<lparr>sp_SubscriberID = ''S1'', sp_MethodKey = ''scratch_card'', sp_Amount = 0, sp_TransferReference = '''', sp_TransferDate = None,
     sp_Note = '''', sp_Attachments = [], sp_CardType = ''zain'', sp_CardCode = ''123''\<rparr>"

lemma sampleTW_inv: "ticketInv (sampleTW db [])"
  by (simp add: ticketInv_def sampleTW_def)

theorem ticket_lifecycle_witness:
  "length (filter (\<lambda>t. tk_SubscriberID t = ''S1'' \<and> tk_State t = ''pending'')
     (tw_tickets (snd (submitTicket sampleTE sampleSubmit (sampleTW sampleBill []))))) \<le> 1"
proof -
  have "ticketStep\<^sup>*\<^sup>* (sampleTW sampleBill []) (snd (submitTicket sampleTE sampleSubmit (sampleTW sampleBill [])))"
    using ticketStep.submit by (rule r_into_rtranclp)
  from ticket_lifecycle [OF this sampleTW_inv] show ?thesis by blast
qed

definition sampleApproval :: "BillErr + renewResult \<times> Bill" where
  "sampleApproval = renewInTx id second (approveParams sampleTE sampleTicket ''M1'') sampleBill"

lemma sample_approval: "ran sampleApproval"
  by (simp add: ran_def sampleApproval_def approveParams_def sampleTE_def sampleTicket_def bill_eval sampleBill_def wrap64_def)

lemma sample_te: "rv_fl (tk_rv sampleTE) = id" "rv_now (tk_rv sampleTE) = second" "rv_end (tk_rv sampleTE) = Committed" "\<not> tk_fails sampleTE x"
  by (simp_all add: sampleTE_def sampleRV_def)

lemma sampleTW_bill: "rw_bill (tw_world (sampleTW db ts)) = db" "tw_tickets (sampleTW db ts) = ts"
  by (simp_all add: sampleTW_def sampleWorld_def)

lemma sample_approval_out: "renewInTx id second (approveParams sampleTE sampleTicket ''M1'') sampleBill =
    Inr (fst (projr sampleApproval), snd (projr sampleApproval))"
  using ranD [OF sample_approval] by (simp add: sampleApproval_def)

theorem ticket_charged_once_witness:
  "let tw1 = snd (approveRun sampleTE sampleTicket ''M1'' (sampleTW sampleBill [sampleTicket]))
   in rw_bill (tw_world (snd (approveRun sampleTE sampleTicket ''M1'' tw1))) = rw_bill (tw_world tw1)"
  unfolding Let_def
  by (rule ticket_charged_once [where env = sampleTE and approver = "''M1''" and tw = "sampleTW sampleBill [sampleTicket]" and t = sampleTicket and res = "fst (projr sampleApproval)" and ?db0.0 = "snd (projr sampleApproval)"])
    (use sample_approval_out in \<open>simp_all add: sample_te sampleTW_bill sample_noKeys\<close>)

definition sampleLate :: Bill where
  "sampleLate = sampleBill\<lparr>bl_subs := (\<lambda>x. if x = ''S1'' then Some (sampleSub\<lparr>sb_ExpiresAt := Some (3 * dayLength)\<rparr>) else None)\<rparr>"

theorem reject_without_trial_takes_day_witness:
  "map_option sb_ExpiresAt (bl_subs (rw_bill (tw_world (snd (rejectTicket sampleTE ''t9'' ''M1'' ''no'' (sampleTW sampleLate [sampleTicket]))))) ''S1'')
     = Some (Some (2 * dayLength))"
  using reject_without_trial_takes_day [where tid = "''t9''" and tw = "sampleTW sampleLate [sampleTicket]" and t = sampleTicket and env = sampleTE
      and x = "3 * dayLength" and s = "sampleSub\<lparr>sb_ExpiresAt := Some (3 * dayLength)\<rparr>"]
  by (simp add: findTicket_def sampleTW_bill sample_te) (simp add: sampleTicket_def sampleLate_def dayLength_def minute_def second_def)

definition sampleRace :: TicketWorld where
  "sampleRace = snd (rejectTicket sampleTE ''t9'' ''M1'' ''no'' (sampleTW sampleBill [sampleTicket]))"

lemma sample_race: "rejectTicket sampleTE ''t9'' ''M1'' ''no'' (sampleTW sampleBill [sampleTicket]) = (None, sampleRace)"
    "rw_bill (tw_world sampleRace) = rollbackSubscriber second ''S1'' second sampleBill"
  by (simp_all add: sampleRace_def rejectTicket_def findTicket_def rejectInTx_def addEvent_def rollbackExpiry_def sampleTW_def sampleTE_def sampleRV_def
      sampleWorld_def sampleTicket_def sampleBill_def Let_def)

definition sampleRaceTx :: "(BillErr + renewResult \<times> bool) \<times> Bill" where
  "sampleRaceTx = renewTx id Committed second (approveParams sampleTE sampleTicket ''M1'') (rollbackSubscriber second ''S1'' second sampleBill)"

lemma sample_raceTx: "\<exists>res. fst sampleRaceTx = Inr (res, False)"
  by (simp add: sampleRaceTx_def renewTx_def endTx_def approveParams_def sampleTE_def sampleTicket_def rollbackSubscriber_def bill_eval
      sampleBill_def wrap64_def)

theorem approve_race_charges_witness: "fst (approveRun sampleTE sampleTicket ''M1'' sampleRace) = Inl errTicketNotPending"
proof -
  let ?b = "rollbackSubscriber second ''S1'' second sampleBill"
  obtain res where r: "renewTx id Committed second (approveParams sampleTE sampleTicket ''M1'') ?b = (Inr (res, False), snd sampleRaceTx)"
    using sample_raceTx unfolding sampleRaceTx_def by (metis prod.collapse)
  have "approveRead sampleTE ''t9'' (sampleTW sampleBill [sampleTicket]) = Inr sampleTicket"
    by (simp add: approveRead_def findTicket_def sampleTW_bill sample_te) (simp add: sampleTicket_def)
  moreover have "balInv ?b" using sample_inv(1) by (simp add: balInv_def readBalance_def rollbackSubscriber_def)
  moreover have "\<exists>s f. bl_subs ?b ''S1'' = Some s \<and> bl_profiles ?b (targetProfile (approveParams sampleTE sampleTicket ''M1'') s) = Some f"
    by (simp add: rollbackSubscriber_def sampleBill_def targetProfile_def approveParams_def sampleTicket_def)
  moreover have "tk_SubscriberID sampleTicket = ''S1''" by (simp add: sampleTicket_def)
  ultimately show ?thesis
    using approve_race_charges [OF _ sample_race(1), of sampleTE sampleTicket "''M1''" res "snd sampleRaceTx"] r
    by (auto simp: sample_te sample_race(2))
qed

definition sampleSubmitted :: "(BillErr + ticketSubmitResult) \<times> TicketWorld" where
  "sampleSubmitted = submitTicket sampleTE sampleSubmit (sampleTW sampleBill [])"

definition sampleRejected :: "BillErr option \<times> TicketWorld" where
  "sampleRejected = rejectTicket sampleTE (sr_ID (projr (fst sampleSubmitted))) ''M1'' ''no'' (snd sampleSubmitted)"

lemma sample_flow: "\<not> isl (fst sampleSubmitted) \<and> sr_TrialGranted (projr (fst sampleSubmitted)) \<and> fst sampleRejected = None"
  by code_simp

theorem rejected_trial_keeps_revenue_witness:
  "accountNet acctCash (bl_journal (rw_bill (tw_world (snd sampleRejected)))) = 100"
proof -
  have s: "submitTicket sampleTE sampleSubmit (sampleTW sampleBill []) = (Inr (projr (fst sampleSubmitted)), snd sampleSubmitted)"
    using sample_flow unfolding sampleSubmitted_def by (metis prod.collapse sum.collapse(2))
  have r: "rejectTicket sampleTE (sr_ID (projr (fst sampleSubmitted))) ''M1'' ''no'' (snd sampleSubmitted) = (None, snd sampleRejected)"
    using sample_flow unfolding sampleRejected_def by (metis prod.collapse)
  have "bl_subs sampleBill (sp_SubscriberID sampleSubmit) = Some sampleSub" "bl_profiles sampleBill (sb_ProfileID sampleSub) = Some sampleProfile"
      "sb_ProfileID sampleSub \<noteq> []" "renewPrice sampleSub sampleProfile = 100" "accountNet acctCash (bl_journal sampleBill) = 0"
    by (simp_all add: sampleSubmit_def sampleSub_def sampleProfile_def sampleBill_def renewPrice_def resolvePrice_def accountNet_def)
  then show ?thesis
    using rejected_trial_keeps_revenue [OF s _ _ _ _ _ r] sample_flow by (simp add: sampleTW_bill sample_noKeys)
qed

end
