(* ===== verification/BillOffice.thy ===== *)
theory BillOffice
  imports BillRenew
begin

text \<open>
  The office side of \<^verbatim>\<open>backend/internal/billing\<close>, which posts to the journal only: manual invoices (\<^verbatim>\<open>invoices.go\<close>), receipts and payments
  (\<^verbatim>\<open>ar_ap.go\<close>), expenses (\<^verbatim>\<open>expenses.go\<close>), fixed assets (\<^verbatim>\<open>fixed_assets.go\<close>) and the chart of accounts
  (\<^verbatim>\<open>accounts_api.go\<close>).

  The tables that only this side has are the record \<open>Office\<close> around the billing database. The \<^verbatim>\<open>CHECK\<close> constraints of the
  tables are part of the inserts. A row that names a manager or a subscriber needs that row to exist.
\<close>

section \<open>Tables\<close>

record expenseRow =
  ex_ID :: string
  ex_No :: string
  ex_Category :: string
  ex_Vendor :: string
  ex_Amount :: int
  ex_AmountPaid :: int
  ex_IncurredDate :: gotime
  ex_DueDate :: gotime
  ex_Status :: string
  ex_Memo :: string
  ex_JournalEntryID :: string
  ex_CreatedBy :: string
  ex_VoidedAt :: "gotime option"
  ex_VoidedBy :: string
  ex_VoidReason :: string
  ex_VoidEntryID :: string

text \<open>A row of \<^verbatim>\<open>ar_receipts\<close> or \<^verbatim>\<open>ap_payments\<close>, with the invoice or the expense it settles.\<close>

record settleRow =
  sl_ID :: string
  sl_No :: string
  sl_DocID :: string
  sl_Amount :: int
  sl_Method :: string
  sl_Memo :: string
  sl_JournalEntryID :: string
  sl_CreatedBy :: string

record assetRow =
  fa_ID :: string
  fa_Name :: string
  fa_Cost :: int
  fa_AcquiredDate :: gotime
  fa_UsefulLifeMonths :: int
  fa_SalvageValue :: int
  fa_JournalEntryID :: string
  fa_CreatedBy :: string

record depreciationRow =
  dp_AssetID :: string
  dp_Period :: gotime
  dp_Amount :: int
  dp_JournalEntryID :: string

record Office =
  of_bill :: Bill
  of_receipts :: "settleRow list"
  of_receiptSeq :: nat
  of_expenses :: "expenseRow list"
  of_expenseSeq :: nat
  of_payments :: "settleRow list"
  of_paymentSeq :: nat
  of_assets :: "assetRow list"
  of_depreciation :: "depreciationRow list"

definition knownManager :: "string \<Rightarrow> Bill \<Rightarrow> bool" where
  "knownManager m db \<longleftrightarrow> m = '''' \<or> bl_managers db m \<noteq> None"

definition jline :: "string \<Rightarrow> int \<Rightarrow> int \<Rightarrow> string \<Rightarrow> string \<Rightarrow> jLine" where
  "jline code debit credit txt sub =
     \<lparr>jl_AccountCode = code, jl_Debit = debit, jl_Credit = credit, jl_Memo = txt, jl_ManagerID = '''', jl_SubscriberID = sub\<rparr>"

section \<open>Invoices\<close>

record invoiceLineInput =
  li_Description :: string
  li_Category :: string
  li_Quantity :: rat
  li_UnitPrice :: int

record createInvoiceParams =
  ci_SubscriberID :: string
  ci_Mode :: string
  ci_IssueDate :: gotime
  ci_DueDate :: gotime
  ci_TaxRatePct :: rat
  ci_Lines :: "invoiceLineInput list"
  ci_Memo :: string
  ci_CreatedBy :: string
  ci_Source :: string

definition lineAmount :: "(rat \<Rightarrow> rat) \<Rightarrow> invoiceLineInput \<Rightarrow> int" where
  "lineAmount fl l = wrap64 (li_UnitPrice l * goInt64 (fl (li_Quantity l + 1 / 2)))"

text \<open>Subtotal, tax and total.\<close>

definition invoiceTotals :: "(rat \<Rightarrow> rat) \<Rightarrow> createInvoiceParams \<Rightarrow> int \<times> int \<times> int" where
  "invoiceTotals fl p =
     (let subtotal = foldl (\<lambda>acc l. wrap64 (acc + lineAmount fl l)) 0 (ci_Lines p);
          taxAmount = goInt64 (fl (fl (fl (fl (of_int subtotal) * ci_TaxRatePct p) / 100) + 1 / 2))
      in if ci_Mode p = ''no_charge'' then (0, 0, 0) else (subtotal, taxAmount, wrap64 (subtotal + taxAmount)))"

text \<open>The quantity is a \<^verbatim>\<open>numeric(10,2)\<close> column: rounded to hundredths, and positive afterwards.\<close>

definition lineInsertable :: "invoiceLineRow \<Rightarrow> bool" where
  "lineInsertable l \<longleftrightarrow>
     (let hundredths = \<lfloor>il_Quantity l * 100 + 1 / 2\<rfloor> in 0 < hundredths \<and> hundredths < 10 ^ 10) \<and> 0 \<le> il_UnitPrice l \<and> 0 \<le> il_Amount l"

fun insertInvoiceLines :: "(rat \<Rightarrow> rat) \<Rightarrow> string \<Rightarrow> string \<Rightarrow> invoiceLineInput list \<Rightarrow> Bill \<Rightarrow> BillErr + unit \<times> Bill" where
  "insertInvoiceLines fl mode invoiceID [] db = Inr ((), db)"
| "insertInvoiceLines fl mode invoiceID (l # ls) db =
     (let row = \<lparr>il_InvoiceID = invoiceID, il_Description = li_Description l, il_Category = li_Category l, il_Quantity = li_Quantity l,
            il_UnitPrice = li_UnitPrice l, il_Amount = (if mode = ''no_charge'' then 0 else lineAmount fl l)\<rparr>
      in if \<not> lineInsertable row then Inl errDB
         else insertInvoiceLines fl mode invoiceID ls (db\<lparr>bl_invoiceLines := bl_invoiceLines db @ [row]\<rparr>))"

definition updateInvoice :: "string \<Rightarrow> (invoiceRow \<Rightarrow> invoiceRow) \<Rightarrow> Bill \<Rightarrow> Bill" where
  "updateInvoice i f db = db\<lparr>bl_invoices := map (\<lambda>r. if iv_ID r = i then f r else r) (bl_invoices db)\<rparr>"

definition createInvoice :: "(rat \<Rightarrow> rat) \<Rightarrow> gotime \<Rightarrow> createInvoiceParams \<Rightarrow> Bill \<Rightarrow> BillErr + string \<times> Bill" where
  "createInvoice fl now p db =
     (if ci_Mode p \<notin> {''full'', ''prorated'', ''no_charge''} then Inl errValidation
      else let (subtotal, taxAmount, whole) = invoiceTotals fl p;
               invoiceNo = docNo ''INV-'' (bl_invoiceSeq db);
               db1 = db\<lparr>bl_invoiceSeq := Suc (bl_invoiceSeq db)\<rparr>
           in if (ci_SubscriberID p \<noteq> '''' \<and> bl_subs db (ci_SubscriberID p) = None) \<or> \<not> knownManager (ci_CreatedBy p) db
                 \<or> ci_TaxRatePct p < 0 \<or> 1000 \<le> ci_TaxRatePct p \<or> subtotal < 0 \<or> taxAmount < 0 \<or> \<not> inInt64 taxAmount \<or> whole < 0 then Inl errDB
              else let (invoiceID, db2) = newID db1;
                       db3 = db2\<lparr>bl_invoices := bl_invoices db2 @ [\<lparr>iv_ID = invoiceID, iv_No = invoiceNo, iv_SubscriberID = ci_SubscriberID p,
                               iv_Mode = ci_Mode p, iv_IssueDate = pgDate (ci_IssueDate p), iv_DueDate = pgDate (ci_DueDate p),
                               iv_TaxRate = ci_TaxRatePct p, iv_Subtotal = subtotal, iv_TaxAmount = taxAmount, iv_Total = whole,
                               iv_AmountPaid = 0, iv_Status = ''unpaid'', iv_Memo = ci_Memo p, iv_JournalEntryID = '''', iv_CreatedBy = ci_CreatedBy p,
                               iv_VoidedAt = None, iv_VoidedBy = '''', iv_VoidReason = '''', iv_VoidEntryID = ''''\<rparr>]\<rparr>
                   in bindE (insertInvoiceLines fl (ci_Mode p) invoiceID (ci_Lines p) db3) (\<lambda>(_, db4).
                      if 0 < whole
                      then let txt = ''invoice '' @ invoiceNo in
                           bindE (postJournal now txt (ci_Source p) invoiceNo '''' (ci_CreatedBy p)
                                   [jline acctAR whole 0 txt (ci_SubscriberID p), jline acctRevenue 0 whole txt ''''] db4) (\<lambda>(entryID, db5).
                             Inr (invoiceID, updateInvoice invoiceID (iv_JournalEntryID_update (\<lambda>_. entryID)) db5))
                      else Inr (invoiceID, db4)))"

definition findInvoice :: "string \<Rightarrow> Bill \<Rightarrow> invoiceRow option" where
  "findInvoice i db = find (\<lambda>r. iv_ID r = i) (bl_invoices db)"

definition voidInvoice :: "gotime \<Rightarrow> string \<Rightarrow> string \<Rightarrow> string \<Rightarrow> string \<Rightarrow> Bill \<Rightarrow> BillErr + unit \<times> Bill" where
  "voidInvoice now invoiceID reason actor source db =
     (case findInvoice invoiceID db of
        None \<Rightarrow> Inl errInvoiceNotFound
      | Some r \<Rightarrow>
          (if iv_Status r = ''void'' then Inl errInvoiceAlreadyVoid
           else if 0 < iv_AmountPaid r then Inl errInvoiceHasReceipts
           else if \<not> knownManager actor db then Inl errDB
           else bindE (if iv_JournalEntryID r = '''' then Inr ('''', db)
                       else reverseJournal now (iv_JournalEntryID r) ''void invoice'' source invoiceID actor db) (\<lambda>(entryID, db1).
                Inr ((), updateInvoice invoiceID (\<lambda>r. r\<lparr>iv_Status := ''void'', iv_VoidedAt := Some now, iv_VoidedBy := actor,
                       iv_VoidReason := reason, iv_VoidEntryID := entryID\<rparr>) db1))))"

definition recomputeInvoiceStatus :: "int \<Rightarrow> int \<Rightarrow> gotime \<Rightarrow> gotime \<Rightarrow> string" where
  "recomputeInvoiceStatus amountPaid whole dueDate today =
     (if 0 < whole \<and> whole \<le> amountPaid then ''paid''
      else if dueDate < today then ''due''
      else if 0 < amountPaid then ''partial''
      else ''unpaid'')"

section \<open>Receipts and payments\<close>

text \<open>
  The guards shared by both: an amount, a document that is open, and no more than what is left of it. A sum that wraps is
  negative and refused by the \<^verbatim>\<open>CHECK\<close> on the paid amount.
\<close>

definition settleGuard :: "int \<Rightarrow> string \<Rightarrow> int \<Rightarrow> int \<Rightarrow> BillErr option" where
  "settleGuard amount status whole amountPaid =
     (if status = ''void'' \<or> whole \<le> amountPaid then Some errSettled
      else if whole < wrap64 (amountPaid + amount) then Some errOverpayment
      else if wrap64 (amountPaid + amount) < 0 then Some errDB
      else None)"

definition postARReceipt :: "gotime \<Rightarrow> string \<Rightarrow> int \<Rightarrow> string \<Rightarrow> string \<Rightarrow> string \<Rightarrow> string \<Rightarrow> Office \<Rightarrow> BillErr + string \<times> Office" where
  "postARReceipt now invoiceID amount method txt actor source w =
     (let db = of_bill w in
      if amount \<le> 0 then Inl errValidation
      else case findInvoice invoiceID db of
        None \<Rightarrow> Inl errInvoiceNotFound
      | Some r \<Rightarrow>
          (case settleGuard amount (iv_Status r) (iv_Total r) (iv_AmountPaid r) of
             Some e \<Rightarrow> Inl e
           | None \<Rightarrow>
               (if \<not> knownManager actor db then Inl errDB
                else let receiptNo = docNo ''AR-'' (of_receiptSeq w); what = ''receipt '' @ receiptNo;
                         newPaid = wrap64 (iv_AmountPaid r + amount);
                         newStatus = recomputeInvoiceStatus newPaid (iv_Total r) (iv_DueDate r) now
                     in bindE (postJournal now what source receiptNo '''' actor
                           [jline acctCash amount 0 what '''', jline acctAR 0 amount what (iv_SubscriberID r)] db) (\<lambda>(entryID, db1).
                        let (receiptID, db2) = newID db1
                        in Inr (receiptID, w\<lparr>of_bill := updateInvoice invoiceID (\<lambda>r. r\<lparr>iv_AmountPaid := newPaid, iv_Status := newStatus\<rparr>) db2,
                             of_receiptSeq := Suc (of_receiptSeq w),
                             of_receipts := of_receipts w @ [\<lparr>sl_ID = receiptID, sl_No = receiptNo, sl_DocID = invoiceID, sl_Amount = amount,
                               sl_Method = method, sl_Memo = txt, sl_JournalEntryID = entryID, sl_CreatedBy = actor\<rparr>]\<rparr>)))))"

definition findExpense :: "string \<Rightarrow> Office \<Rightarrow> expenseRow option" where
  "findExpense i w = find (\<lambda>r. ex_ID r = i) (of_expenses w)"

definition updateExpense :: "string \<Rightarrow> (expenseRow \<Rightarrow> expenseRow) \<Rightarrow> Office \<Rightarrow> Office" where
  "updateExpense i f w = w\<lparr>of_expenses := map (\<lambda>r. if ex_ID r = i then f r else r) (of_expenses w)\<rparr>"

definition postAPPayment :: "gotime \<Rightarrow> string \<Rightarrow> int \<Rightarrow> string \<Rightarrow> string \<Rightarrow> string \<Rightarrow> string \<Rightarrow> Office \<Rightarrow> BillErr + string \<times> Office" where
  "postAPPayment now expenseID amount method txt actor source w =
     (let db = of_bill w in
      if amount \<le> 0 then Inl errValidation
      else case findExpense expenseID w of
        None \<Rightarrow> Inl errExpenseNotFound
      | Some r \<Rightarrow>
          (case settleGuard amount (ex_Status r) (ex_Amount r) (ex_AmountPaid r) of
             Some e \<Rightarrow> Inl e
           | None \<Rightarrow>
               (if \<not> knownManager actor db then Inl errDB
                else let paymentNo = docNo ''AP-'' (of_paymentSeq w); what = ''payment '' @ paymentNo;
                         newPaid = wrap64 (ex_AmountPaid r + amount);
                         newStatus = recomputeInvoiceStatus newPaid (ex_Amount r) (ex_DueDate r) now
                     in bindE (postJournal now what source paymentNo '''' actor
                           [jline acctAP amount 0 what '''', jline acctCash 0 amount what ''''] db) (\<lambda>(entryID, db1).
                        let (paymentID, db2) = newID db1
                        in Inr (paymentID, updateExpense expenseID (\<lambda>r. r\<lparr>ex_AmountPaid := newPaid, ex_Status := newStatus\<rparr>)
                             (w\<lparr>of_bill := db2, of_paymentSeq := Suc (of_paymentSeq w),
                                of_payments := of_payments w @ [\<lparr>sl_ID = paymentID, sl_No = paymentNo, sl_DocID = expenseID, sl_Amount = amount,
                                  sl_Method = method, sl_Memo = txt, sl_JournalEntryID = entryID, sl_CreatedBy = actor\<rparr>]\<rparr>))))))"

section \<open>Expenses\<close>

record createExpenseParams =
  ce_Category :: string
  ce_Vendor :: string
  ce_Amount :: int
  ce_IncurredDate :: gotime
  ce_DueDate :: gotime
  ce_Memo :: string
  ce_CreatedBy :: string
  ce_Source :: string

definition createExpense :: "gotime \<Rightarrow> createExpenseParams \<Rightarrow> Office \<Rightarrow> BillErr + string \<times> Office" where
  "createExpense now p w =
     (if ce_Amount p \<le> 0 then Inl errValidation
      else if \<not> knownManager (ce_CreatedBy p) (of_bill w) then Inl errDB
      else let expenseNo = docNo ''EXP-'' (of_expenseSeq w); what = ''expense '' @ expenseNo;
               (expenseID, db1) = newID (of_bill w)
           in bindE (postJournal now what (ce_Source p) expenseNo '''' (ce_CreatedBy p)
                 [jline acctOperatingExpense (ce_Amount p) 0 what '''', jline acctAP 0 (ce_Amount p) what ''''] db1) (\<lambda>(entryID, db2).
              Inr (expenseID, w\<lparr>of_bill := db2, of_expenseSeq := Suc (of_expenseSeq w),
                   of_expenses := of_expenses w @ [\<lparr>ex_ID = expenseID, ex_No = expenseNo, ex_Category = ce_Category p, ex_Vendor = ce_Vendor p,
                     ex_Amount = ce_Amount p, ex_AmountPaid = 0, ex_IncurredDate = pgDate (ce_IncurredDate p), ex_DueDate = pgDate (ce_DueDate p),
                     ex_Status = ''unpaid'', ex_Memo = ce_Memo p, ex_JournalEntryID = entryID, ex_CreatedBy = ce_CreatedBy p,
                     ex_VoidedAt = None, ex_VoidedBy = '''', ex_VoidReason = '''', ex_VoidEntryID = ''''\<rparr>]\<rparr>)))"

definition voidExpense :: "gotime \<Rightarrow> string \<Rightarrow> string \<Rightarrow> string \<Rightarrow> string \<Rightarrow> Office \<Rightarrow> BillErr + unit \<times> Office" where
  "voidExpense now expenseID reason actor source w =
     (case findExpense expenseID w of
        None \<Rightarrow> Inl errExpenseNotFound
      | Some r \<Rightarrow>
          (if ex_Status r = ''void'' then Inl errExpenseAlreadyVoid
           else if 0 < ex_AmountPaid r then Inl errExpenseHasPayments
           else if \<not> knownManager actor (of_bill w) then Inl errDB
           else bindE (if ex_JournalEntryID r = '''' then Inr ('''', of_bill w)
                       else reverseJournal now (ex_JournalEntryID r) ''void expense'' source expenseID actor (of_bill w)) (\<lambda>(entryID, db1).
                Inr ((), updateExpense expenseID (\<lambda>r. r\<lparr>ex_Status := ''void'', ex_VoidedAt := Some now, ex_VoidedBy := actor,
                       ex_VoidReason := reason, ex_VoidEntryID := entryID\<rparr>) (w\<lparr>of_bill := db1\<rparr>)))))"

section \<open>Fixed assets\<close>

text \<open>
  \<^verbatim>\<open>time.Date(year, month, 1, ...)\<close>: the first of the month, by the civil calendar on days since 1970. Years are counted from
  March, in eras of 400 years.
\<close>

definition dayOfMonth :: "int \<Rightarrow> int" where
  "dayOfMonth days =
     (let doe = (days + 719468) mod 146097;
          yoe = (doe - doe div 1460 + doe div 36524 - doe div 146096) div 365;
          doy = doe - (365 * yoe + yoe div 4 - yoe div 100);
          mp = (5 * doy + 2) div 153
      in doy - (153 * mp + 2) div 5 + 1)"

definition monthStart :: "gotime \<Rightarrow> gotime" where
  "monthStart t = (t div dayLength - (dayOfMonth (t div dayLength) - 1)) * dayLength"

record createFixedAssetParams =
  cf_Name :: string
  cf_Cost :: int
  cf_AcquiredDate :: gotime
  cf_UsefulLifeMonths :: int
  cf_SalvageValue :: int
  cf_CreatedBy :: string
  cf_Source :: string

definition createFixedAsset :: "gotime \<Rightarrow> createFixedAssetParams \<Rightarrow> Office \<Rightarrow> BillErr + string \<times> Office" where
  "createFixedAsset now p w =
     (if cf_Cost p \<le> 0 \<or> cf_UsefulLifeMonths p \<le> 0 then Inl errValidation
      else let what = ''acquire '' @ cf_Name p in
           bindE (postJournal now what (cf_Source p) '''' '''' (cf_CreatedBy p)
                   [jline acctFixedAssets (cf_Cost p) 0 what '''', jline acctCash 0 (cf_Cost p) what ''''] (of_bill w)) (\<lambda>(entryID, db1).
           if \<not> knownManager (cf_CreatedBy p) db1 \<or> cf_SalvageValue p < 0 \<or> 2 ^ 31 \<le> cf_UsefulLifeMonths p then Inl errDB
           else let (assetID, db2) = newID db1
                in Inr (assetID, w\<lparr>of_bill := db2, of_assets := of_assets w @ [\<lparr>fa_ID = assetID, fa_Name = cf_Name p, fa_Cost = cf_Cost p,
                     fa_AcquiredDate = pgDate (cf_AcquiredDate p), fa_UsefulLifeMonths = cf_UsefulLifeMonths p,
                     fa_SalvageValue = cf_SalvageValue p, fa_JournalEntryID = entryID, fa_CreatedBy = cf_CreatedBy p\<rparr>]\<rparr>)))"

text \<open>What a month of depreciation amounts to; zero where nothing is posted.\<close>

definition accumulated :: "string \<Rightarrow> depreciationRow list \<Rightarrow> int" where
  "accumulated i ds = (\<Sum>d \<leftarrow> filter (\<lambda>d. dp_AssetID d = i) ds. dp_Amount d)"

definition monthlyAmount :: "assetRow \<Rightarrow> depreciationRow list \<Rightarrow> int" where
  "monthlyAmount a ds =
     (let acc = accumulated (fa_ID a) ds; depreciable = fa_Cost a - fa_SalvageValue a
      in if depreciable \<le> acc then 0
         else let monthly = depreciable div fa_UsefulLifeMonths a
              in if depreciable - acc < monthly then depreciable - acc else monthly)"

text \<open>
  \<open>RunAgain\<close> is the return \<^verbatim>\<open>(false, nil)\<close> after a violated unique index, which leaves the transaction aborted.
\<close>

datatype depreciationRun = RunPosted | RunNothing | RunAgain

definition runDepreciation ::
    "gotime \<Rightarrow> string \<Rightarrow> gotime \<Rightarrow> string \<Rightarrow> string \<Rightarrow> Office \<Rightarrow> BillErr + depreciationRun \<times> Office" where
  "runDepreciation now assetID period actor source w =
     (let periodStart = monthStart period in
      case find (\<lambda>a. fa_ID a = assetID) (of_assets w) of
        None \<Rightarrow> Inl errNotFound
      | Some a \<Rightarrow>
          (let monthly = monthlyAmount a (of_depreciation w) in
           if monthly \<le> 0 then Inr (RunNothing, w)
           else if \<not> knownManager actor (of_bill w) then Inl errDB
           else bindE (postJournal now ''depreciation'' source '''' '''' actor
                   [jline acctDepreciationExpense monthly 0 ''depreciation'' '''', jline acctAccumDepreciation 0 monthly ''depreciation'' '''']
                   (of_bill w)) (\<lambda>(entryID, db1).
                if list_ex (\<lambda>d. dp_AssetID d = assetID \<and> dp_Period d = periodStart) (of_depreciation w) then Inr (RunAgain, w)
                else Inr (RunPosted, w\<lparr>of_bill := db1, of_depreciation := of_depreciation w @ [\<lparr>dp_AssetID = assetID,
                       dp_Period = periodStart, dp_Amount = monthly, dp_JournalEntryID = entryID\<rparr>]\<rparr>))))"

text \<open>The handler: the commit of an aborted transaction is an error.\<close>

definition runDepreciationHandler :: "txEnd \<Rightarrow> gotime \<Rightarrow> string \<Rightarrow> string \<Rightarrow> Office \<Rightarrow> (BillErr + bool) \<times> Office" where
  "runDepreciationHandler tend now assetID actor w =
     endTx tend (bindE (runDepreciation now assetID now actor ''billing.depreciation'' w) (\<lambda>(r, w1).
       if r = RunAgain then Inl errDB else Inr (r = RunPosted, w1))) w"

section \<open>Accounts\<close>

definition validAccountTypes :: "string list" where
  "validAccountTypes = [''asset'', ''liability'', ''equity'', ''revenue'', ''expense'']"

definition validSubtypes :: "string list" where
  "validSubtypes = [''cash'', ''bank'', ''accounts_receivable'', ''accounts_payable'', ''agent_wallet'', ''fixed_asset'',
     ''accumulated_depreciation'', ''capital'', ''suspense'']"

definition normalBalanceFor :: "string \<Rightarrow> string" where
  "normalBalanceFor accountType = (if accountType = ''asset'' \<or> accountType = ''expense'' then ''debit'' else ''credit'')"

text \<open>An absent subtype is the empty string; a subtype outside the \<^verbatim>\<open>CHECK\<close> is refused, and so is an empty one that is given.\<close>

definition createAccount :: "string \<Rightarrow> string \<Rightarrow> string \<Rightarrow> string option \<Rightarrow> Bill \<Rightarrow> BillErr + unit \<times> Bill" where
  "createAccount code name accountType subtype db =
     (if code = '''' \<or> name = '''' \<or> accountType \<notin> set validAccountTypes then Inl errValidation
      else if (case subtype of None \<Rightarrow> False | Some s \<Rightarrow> s \<notin> set validSubtypes) then Inl errDB
      else if list_ex (\<lambda>a. an_Code a = code) (bl_accounts db) then Inl errUniqueViolation
      else Inr ((), db\<lparr>bl_accounts := bl_accounts db @ [\<lparr>an_Code = code, an_Name = name, an_Type = accountType,
              an_Subtype = (case subtype of None \<Rightarrow> '''' | Some s \<Rightarrow> s), an_NormalBalance = normalBalanceFor accountType,
              an_IsSystem = False\<rparr>]\<rparr>))"

end
