(* ===== verification/BillStatements.thy ===== *)
theory BillStatements
  imports BillOffice "HOL-Library.List_Lexorder" "HOL-Library.Char_ord"
begin

text \<open>
  The financial statements of \<^verbatim>\<open>backend/internal/billing/statements.go\<close>. Each is a query over the accounts, the journal lines and the journal
  entries, joined as the SQL joins them: both joins are outer joins, and the condition on the date stands in
  the second. A sum outside int64 cannot be scanned and is an error; additions in Go wrap.
\<close>

section \<open>Account balances\<close>

record accountBalance =
  ab_Code :: string
  ab_Name :: string
  ab_Type :: string
  ab_Subtype :: string
  ab_NormalBalance :: string
  ab_Debit :: int
  ab_Credit :: int

definition Balance :: "accountBalance \<Rightarrow> int" where
  "Balance a = (if ab_NormalBalance a = ''debit'' then wrap64 (ab_Debit a - ab_Credit a) else wrap64 (ab_Credit a - ab_Debit a))"

text \<open>
  The joined rows of one account. \<open>on\<close> is the condition on the entry: the row of a line whose entry does not meet it has no
  entry, but still its line. An account without lines has one row without a line.
\<close>

definition joinedRows :: "(journalEntry \<Rightarrow> bool) \<Rightarrow> journalEntry list \<Rightarrow> account \<Rightarrow> (jLine option \<times> journalEntry option) list" where
  "joinedRows on js a =
     (let hits = concat (map (\<lambda>j. map (\<lambda>l. (Some l, if on j then Some j else None))
                   (filter (\<lambda>l. jl_AccountCode l = an_Code a) (je_Lines j))) js)
      in if hits = [] then [(None, None)] else hits)"

definition sumColumn :: "(jLine \<Rightarrow> int) \<Rightarrow> (jLine option \<times> journalEntry option) list \<Rightarrow> int" where
  "sumColumn f rows = (\<Sum>(l, j) \<leftarrow> rows. case l of None \<Rightarrow> 0 | Some x \<Rightarrow> f x)"

definition balanceOf :: "(journalEntry \<Rightarrow> bool) \<Rightarrow> journalEntry list \<Rightarrow> account \<Rightarrow> accountBalance" where
  "balanceOf on js a =
     \<lparr>ab_Code = an_Code a, ab_Name = an_Name a, ab_Type = an_Type a, ab_Subtype = an_Subtype a, ab_NormalBalance = an_NormalBalance a,
      ab_Debit = sumColumn jl_Debit (joinedRows on js a), ab_Credit = sumColumn jl_Credit (joinedRows on js a)\<rparr>"

definition scanBalances :: "accountBalance list \<Rightarrow> BillErr + accountBalance list" where
  "scanBalances bs = (if list_all (\<lambda>b. inInt64 (ab_Debit b) \<and> inInt64 (ab_Credit b)) bs then Inr bs else Inl errDB)"

definition trialBalance :: "gotime \<Rightarrow> Bill \<Rightarrow> BillErr + accountBalance list" where
  "trialBalance asOf db =
     scanBalances (map (balanceOf (\<lambda>j. je_At j \<le> asOf) (bl_journal db)) (sort_key an_Code (bl_accounts db)))"

definition accountBalanceRange :: "gotime \<Rightarrow> gotime \<Rightarrow> string list \<Rightarrow> Bill \<Rightarrow> BillErr + accountBalance list" where
  "accountBalanceRange from till types db =
     scanBalances (map (balanceOf (\<lambda>j. from \<le> je_At j \<and> je_At j < till) (bl_journal db))
       (sort_key an_Code (filter (\<lambda>a. an_Type a \<in> set types) (bl_accounts db))))"

section \<open>Profit and loss, balance sheet\<close>

record profitAndLoss =
  pl_From :: gotime
  pl_To :: gotime
  pl_Revenue :: int
  pl_CostOfService :: int
  pl_GrossMargin :: int
  pl_OperatingExpense :: int
  pl_CommissionExpense :: int
  pl_DepreciationExpense :: int
  pl_NetIncome :: int

text \<open>The sum that the loop collects in one field: the balances of the accounts that the field's case names.\<close>

definition collect :: "(accountBalance \<Rightarrow> bool) \<Rightarrow> accountBalance list \<Rightarrow> int" where
  "collect hit bs = foldl (\<lambda>acc b. if hit b then wrap64 (acc + Balance b) else acc) 0 bs"

definition computeProfitAndLoss :: "gotime \<Rightarrow> gotime \<Rightarrow> Bill \<Rightarrow> BillErr + profitAndLoss" where
  "computeProfitAndLoss from till db =
     bindE (accountBalanceRange from till [''revenue'', ''expense''] db) (\<lambda>bs.
       let revenue = collect (\<lambda>b. ab_Code b \<in> {acctRevenue, acctOtherRevenue}) bs;
           cost = collect (\<lambda>b. ab_Code b = acctCOGS) bs;
           commission = collect (\<lambda>b. ab_Code b = acctCommissionExpense) bs;
           operating = collect (\<lambda>b. ab_Code b = acctOperatingExpense) bs;
           depreciation = collect (\<lambda>b. ab_Code b = acctDepreciationExpense) bs
       in Inr \<lparr>pl_From = from, pl_To = till, pl_Revenue = revenue, pl_CostOfService = cost, pl_GrossMargin = wrap64 (revenue - cost),
            pl_OperatingExpense = operating, pl_CommissionExpense = commission, pl_DepreciationExpense = depreciation,
            pl_NetIncome = wrap64 (revenue - cost - commission - operating - depreciation)\<rparr>)"

record balanceSheet =
  bs_AsOf :: gotime
  bs_Assets :: int
  bs_Liabilities :: int
  bs_Capital :: int
  bs_RetainedEarnings :: int
  bs_Equity :: int

definition computeBalanceSheet :: "gotime \<Rightarrow> Bill \<Rightarrow> BillErr + balanceSheet" where
  "computeBalanceSheet asOf db =
     bindE (trialBalance asOf db) (\<lambda>bs.
     bindE (computeProfitAndLoss 0 asOf db) (\<lambda>pl.
       let capital = collect (\<lambda>b. ab_Type b = ''equity'') bs
       in Inr \<lparr>bs_AsOf = asOf, bs_Assets = collect (\<lambda>b. ab_Type b = ''asset'') bs,
            bs_Liabilities = collect (\<lambda>b. ab_Type b = ''liability'') bs, bs_Capital = capital,
            bs_RetainedEarnings = pl_NetIncome pl, bs_Equity = wrap64 (capital + pl_NetIncome pl)\<rparr>))"

section \<open>Cash flow\<close>

record cashFlowLine =
  cl_AccountCode :: string
  cl_AccountName :: string
  cl_NetChange :: int

definition computeCashFlow :: "gotime \<Rightarrow> gotime \<Rightarrow> Bill \<Rightarrow> BillErr + cashFlowLine list \<times> int" where
  "computeCashFlow from till db =
     (let line = (\<lambda>a. let rows = joinedRows (\<lambda>j. from \<le> je_At j \<and> je_At j < till) (bl_journal db) a
                      in \<lparr>cl_AccountCode = an_Code a, cl_AccountName = an_Name a,
                          cl_NetChange = sumColumn jl_Debit rows - sumColumn jl_Credit rows\<rparr>);
          ls = map line (sort_key an_Code (filter (\<lambda>a. an_Subtype a \<in> {''cash'', ''bank''}) (bl_accounts db)))
      in if list_all (\<lambda>l. inInt64 (cl_NetChange l)) ls then Inr (ls, foldl (\<lambda>acc l. wrap64 (acc + cl_NetChange l)) 0 ls) else Inl errDB)"

section \<open>Aging\<close>

text \<open>A document as the aging query sees it: due date, amount, paid amount, status. Dates are midnights.\<close>

definition agingBucketOf :: "gotime \<Rightarrow> gotime \<Rightarrow> string" where
  "agingBucketOf asOf due =
     (let late = (pgDate asOf - due) div dayLength in
      if pgDate asOf \<le> due then ''current''
      else if late \<le> 30 then ''1-30''
      else if late \<le> 60 then ''31-60''
      else if late \<le> 90 then ''61-90''
      else ''90+'')"

definition agingBuckets :: "string list" where
  "agingBuckets = [''current'', ''1-30'', ''31-60'', ''61-90'', ''90+'']"

definition openDocuments :: "bool \<Rightarrow> Office \<Rightarrow> (gotime \<times> int \<times> int) list" where
  "openDocuments receivable w =
     (if receivable
      then map (\<lambda>r. (iv_DueDate r, iv_Total r, iv_AmountPaid r)) (filter (\<lambda>r. iv_Status r \<notin> {''paid'', ''void''}) (bl_invoices (of_bill w)))
      else map (\<lambda>r. (ex_DueDate r, ex_Amount r, ex_AmountPaid r)) (filter (\<lambda>r. ex_Status r \<notin> {''paid'', ''void''}) (of_expenses w)))"

text \<open>A bucket without a document has no row. The rows come in no particular order; here in that of the buckets.\<close>

definition agingRows :: "gotime \<Rightarrow> bool \<Rightarrow> Office \<Rightarrow> (string \<times> int) list" where
  "agingRows asOf receivable w =
     (let docs = openDocuments receivable w;
          inside = (\<lambda>b. filter (\<lambda>(due, amount, paid). agingBucketOf asOf due = b) docs)
      in map (\<lambda>b. (b, \<Sum>(due, amount, paid) \<leftarrow> inside b. amount - paid)) (filter (\<lambda>b. inside b \<noteq> []) agingBuckets))"

definition computeAging :: "gotime \<Rightarrow> bool \<Rightarrow> Office \<Rightarrow> BillErr + (string \<times> int) list" where
  "computeAging asOf receivable w =
     (let rows = agingRows asOf receivable w in if list_all (\<lambda>(b, x). inInt64 x) rows then Inr rows else Inl errDB)"

end
