(* ===== verification/BillOfficed.thy ===== *)
theory BillOfficed
  imports BillStatements BillLater
begin

text \<open>
  What every transaction of the office keeps. The money paths post to a few accounts only and never touch an invoice or a journal entry
  that exists (\<open>posting\<close>, an instance of \<open>bill_path\<close>). Invoices and expenses are open documents over a control account: the locale
  \<open>documents\<close> has what issuing, settling and voiding one does to the balance of that account, and is interpreted twice, for receivables and for
  payables. The invariant \<open>officeInv\<close> holds in every state that the relation \<open>officeStep\<close> reaches.
\<close>

section \<open>What the money paths post\<close>

text \<open>The accounts the ledger's journal entries use, and the accounts of the seed.\<close>

definition moneyCodes :: "string set" where
  "moneyCodes = {acctCash, acctAgentWallet, acctCostSuspense, acctOwnerCapital, acctRevenue, acctCOGS, acctCommissionExpense}"

definition systemCodes :: "string set" where
  "systemCodes = set (map an_Code systemAccounts)"

definition postsTo :: "string set \<Rightarrow> journalEntry \<Rightarrow> bool" where
  "postsTo cs j \<longleftrightarrow> (\<forall>l \<in> set (je_Lines j). jl_AccountCode l \<in> cs)"

text \<open>Generated ids are distinct and below the counter.\<close>

definition idsInv :: "Bill \<Rightarrow> bool" where
  "idsInv db \<longleftrightarrow> distinct (map je_ID (bl_journal db)) \<and> distinct (map iv_ID (bl_invoices db))
     \<and> (\<forall>j \<in> set (bl_journal db). idBelow (bl_nextID db) (je_ID j)) \<and> (\<forall>r \<in> set (bl_invoices db). idBelow (bl_nextID db) (iv_ID r))"

lemma idsInv_counter: "idsInv db \<Longrightarrow> bl_journal db' = bl_journal db \<Longrightarrow> bl_invoices db' = bl_invoices db \<Longrightarrow> bl_nextID db \<le> bl_nextID db' \<Longrightarrow> idsInv db'"
  by (auto simp: idsInv_def intro: idBelow_mono)

lemma idsInv_entry:
  assumes "idsInv db" and "bl_journal db' = bl_journal db @ [j]" and "je_ID j = formatUint (bl_nextID db)"
    and "bl_invoices db' = bl_invoices db" and "bl_nextID db < bl_nextID db'"
  shows "idsInv db'"
  using assms idBelow_fresh [of "bl_journal db" "bl_nextID db" je_ID]
  by (auto simp: idsInv_def idBelow_this intro: idBelow_mono [OF _ less_imp_le])

lemma idsInv_invoice:
  assumes "idsInv db" and "bl_invoices db' = bl_invoices db @ [r]" and "iv_ID r = formatUint (bl_nextID db)"
    and "bl_journal db' = bl_journal db" and "bl_nextID db < bl_nextID db'"
  shows "idsInv db'"
  using assms idBelow_fresh [of "bl_invoices db" "bl_nextID db" iv_ID]
  by (auto simp: idsInv_def idBelow_this intro: idBelow_mono [OF _ less_imp_le])

text \<open>
  What a billing step may do to the office's view: append balanced entries on the money accounts, append paid invoices.
\<close>

definition settled :: "invoiceRow \<Rightarrow> bool" where
  "settled r \<longleftrightarrow> 0 < iv_Total r \<and> iv_AmountPaid r = iv_Total r \<and> iv_Status r = ''paid''"

definition posts :: "Bill \<Rightarrow> Bill \<Rightarrow> bool" where
  "posts db db' \<longleftrightarrow> bl_accounts db' = bl_accounts db \<and> bl_nextID db \<le> bl_nextID db' \<and> (idsInv db \<longrightarrow> idsInv db')
     \<and> (\<exists>js. bl_journal db' = bl_journal db @ js \<and> (\<forall>j \<in> set js. entryOK j \<and> postsTo moneyCodes j))
     \<and> (\<exists>rs. bl_invoices db' = bl_invoices db @ rs \<and> (\<forall>r \<in> set rs. settled r))"

lemma posts_quiet:
  "bl_accounts db' = bl_accounts db \<Longrightarrow> bl_nextID db \<le> bl_nextID db' \<Longrightarrow> bl_journal db' = bl_journal db \<Longrightarrow> bl_invoices db' = bl_invoices db
   \<Longrightarrow> posts db db'"
  unfolding posts_def using idsInv_counter [of db db'] by (intro conjI exI [of _ "[]"]) simp_all

lemma posts_trans:
  assumes "posts a b" and "posts b c"
  shows "posts a c"
proof -
  obtain js rs where 1: "bl_journal b = bl_journal a @ js" "\<forall>j \<in> set js. entryOK j \<and> postsTo moneyCodes j"
    "bl_invoices b = bl_invoices a @ rs" "\<forall>r \<in> set rs. settled r" using assms(1) unfolding posts_def by blast
  obtain ks qs where 2: "bl_journal c = bl_journal b @ ks" "\<forall>j \<in> set ks. entryOK j \<and> postsTo moneyCodes j"
    "bl_invoices c = bl_invoices b @ qs" "\<forall>r \<in> set qs. settled r" using assms(2) unfolding posts_def by blast
  have "bl_accounts c = bl_accounts a \<and> bl_nextID a \<le> bl_nextID c \<and> (idsInv a \<longrightarrow> idsInv c)"
    using assms unfolding posts_def by auto
  moreover have "bl_journal c = bl_journal a @ (js @ ks) \<and> (\<forall>j \<in> set (js @ ks). entryOK j \<and> postsTo moneyCodes j)" using 1 2 by auto
  moreover have "bl_invoices c = bl_invoices a @ (rs @ qs) \<and> (\<forall>r \<in> set (rs @ qs). settled r)" using 1 2 by auto
  ultimately show ?thesis unfolding posts_def by blast
qed

lemma signedPair_codes: "l \<in> set (signedPair d c amount txt m) \<Longrightarrow> jl_AccountCode l = d \<or> jl_AccountCode l = c"
  by (auto simp: signedPair_def Let_def split: if_splits)

lemma journalLines_codes: "journalLines e g hp = Inr ls \<Longrightarrow> l \<in> set ls \<Longrightarrow> jl_AccountCode l \<in> moneyCodes"
  unfolding journalLines_def Let_def moneyCodes_def by (auto split: if_splits option.splits dest!: signedPair_codes)

lemma postJournal_Inr:
  assumes "postJournal now txt src ref tx who ls db = Inr (i, db1)"
  shows "\<exists>j. db1 = db\<lparr>bl_nextID := Suc (bl_nextID db), bl_journal := bl_journal db @ [j]\<rparr> \<and> je_ID j = i \<and> i = formatUint (bl_nextID db)
     \<and> je_Lines j = ls \<and> je_ReversesID j = [] \<and> entryOK j"
proof -
  from assms have v: "validateBalanced ls = None" by (auto simp: postJournal_def split: option.splits)
  with assms obtain je where il: "insertLines ls je db = Inr (i, db1)" and r: "je_ReversesID je = []"
    by (auto simp: postJournal_def)
  have "i = formatUint (bl_nextID db)" using il by (auto simp: insertLines_def newID_def split: if_splits)
  moreover have "entryOK (je\<lparr>je_ID := i, je_Lines := ls\<rparr>)"
    using v insertLines_Inr(2) [OF il] by (simp add: entryOK_def validateBalanced_def split: if_splits)
  ultimately show ?thesis using insertLines_Inr(1) [OF il] r by auto
qed

lemma posts_journal:
  assumes "postLedgerJournal now e tx g hp src who db = Inr (u, db1)"
  shows "posts db db1"
proof -
  from assms obtain ls where ls: "journalLines e g hp = Inr ls" by (auto simp: postLedgerJournal_def bindE_Inr)
  show ?thesis
  proof (cases "ls = []")
    case True
    with assms ls show ?thesis by (auto simp: postLedgerJournal_def intro: posts_quiet)
  next
    case False
    with assms ls obtain k where "postJournal now (if le_Note e = [] then le_Type e else le_Note e) src (le_Reference e) tx who ls db = Inr (k, db1)"
      by (auto simp: postLedgerJournal_def bindE_Inr)
    from postJournal_Inr [OF this] obtain j where j: "db1 = db\<lparr>bl_nextID := Suc (bl_nextID db), bl_journal := bl_journal db @ [j]\<rparr>"
      "je_ID j = formatUint (bl_nextID db)" "je_Lines j = ls" "entryOK j" by auto
    have "idsInv db \<longrightarrow> idsInv db1" by (intro impI, rule idsInv_entry [of db db1 j]) (simp_all add: j(1,2))
    then show ?thesis using j journalLines_codes [OF ls] by (auto simp: posts_def postsTo_def)
  qed
qed

lemma posts_paidInvoice: "posts db (createPaidInvoiceForRenewal now sub amount descr j who db)"
proof (cases "amount \<le> 0")
  case False
  let ?db = "createPaidInvoiceForRenewal now sub amount descr j who db"
  obtain r where r: "bl_invoices ?db = bl_invoices db @ [r]" "iv_ID r = formatUint (bl_nextID db)" "settled r"
    using False by (auto simp: createPaidInvoiceForRenewal_def newID_def settled_def)
  have "idsInv db \<longrightarrow> idsInv ?db"
    by (intro impI, rule idsInv_invoice [of db ?db r]) (use r(1,2) False in \<open>simp_all add: createPaidInvoiceForRenewal_def newID_def\<close>)
  then show ?thesis using r False by (auto simp: posts_def createPaidInvoiceForRenewal_def newID_def)
qed (auto simp: createPaidInvoiceForRenewal_def intro: posts_quiet)

interpretation posting: bill_path posts
proof
  show "posts a c" if "posts a b" and "posts b c" for a b c using that by (rule posts_trans)
  show "posts db db1" if "postLedgerJournal now e j g hp src who db = Inr (u, db1)" for now e j g hp src who db u db1
    using that by (rule posts_journal)
  show "posts db (createPaidInvoiceForRenewal now sub amount descr j who db)" for db now sub amount descr j who
    by (rule posts_paidInvoice)
  show "posts db db1" if "insertLedger e db = Inr (i, db1)" for e db i db1
    using insertLedger_Inr(1) [OF that] by (intro posts_quiet) simp_all
  show "posts db db1" if "lockBalance m db = Inr (b, db1)" for m db b db1
    using that by (intro posts_quiet) (auto simp: lockBalance_def split: if_splits option.splits)
  show "posts db db1" if "recomputeBalance m db = Inr (u, db1)" for m db u db1
    using that by (intro posts_quiet) (auto simp: recomputeBalance_def Let_def split: if_splits option.splits)
qed (intro posts_quiet; simp add: newID_def nextReceiptNo_def insertPayment_def insertCode_def Let_def)+

section \<open>Open documents\<close>

text \<open>
  Invoices and expenses are documents of the same kind: each posts its total to a debit and a credit account when it is issued, is
  settled by entries on one of the two (the control account), and voided by the reversal of its entry.
\<close>

record Doc =
  dc_ID :: string
  dc_Status :: string
  dc_Total :: int
  dc_Paid :: int
  dc_Entry :: string

definition entryNet :: "string \<Rightarrow> journalEntry \<Rightarrow> int" where
  "entryNet c j = accountNet c [j]"

definition pairNet :: "string \<Rightarrow> string \<Rightarrow> int \<Rightarrow> string \<Rightarrow> int" where
  "pairNet dr cr x c = (if c = dr then x else if c = cr then - x else 0)"

definition openAmount :: "Doc \<Rightarrow> int" where
  "openAmount d = (if dc_Status d = ''void'' then 0 else dc_Total d - dc_Paid d)"

definition outstanding :: "Doc list \<Rightarrow> int" where
  "outstanding ds = (\<Sum>d \<leftarrow> ds. openAmount d)"

text \<open>An open document on which nothing is paid has an entry of its total, unless the total is zero.\<close>

definition documented :: "string \<Rightarrow> string \<Rightarrow> journalEntry list \<Rightarrow> Doc \<Rightarrow> bool" where
  "documented dr cr js d \<longleftrightarrow> (dc_Entry d = '''' \<and> dc_Total d = 0)
     \<or> (dc_Entry d \<noteq> '''' \<and> (\<exists>j \<in> set js. je_ID j = dc_Entry d \<and> (\<forall>c. entryNet c j = pairNet dr cr (dc_Total d) c)))"

definition docOK :: "string \<Rightarrow> string \<Rightarrow> journalEntry list \<Rightarrow> Doc \<Rightarrow> bool" where
  "docOK dr cr js d \<longleftrightarrow> 0 \<le> dc_Paid d \<and> dc_Paid d \<le> dc_Total d \<and> (dc_Status d = ''paid'' \<longrightarrow> dc_Paid d = dc_Total d)
     \<and> (dc_Paid d < dc_Total d \<longrightarrow> inInt64 (dc_Total d))
     \<and> (dc_Status d \<noteq> ''void'' \<and> dc_Paid d = 0 \<longrightarrow> documented dr cr js d)"

definition docsInv :: "string \<Rightarrow> string \<Rightarrow> string \<Rightarrow> journalEntry list \<Rightarrow> Doc list \<Rightarrow> bool" where
  "docsInv dr cr acct js ds \<longleftrightarrow> distinct (map dc_ID ds) \<and> (\<forall>d \<in> set ds. docOK dr cr js d)
     \<and> accountNet acct js = pairNet dr cr (outstanding ds) acct"

lemma accountNet_snoc: "accountNet c (js @ [j]) = accountNet c js + entryNet c j"
  by (simp add: accountNet_append entryNet_def)

lemma accountNet_zero: "(\<And>j. j \<in> set js \<Longrightarrow> entryNet c j = 0) \<Longrightarrow> accountNet c js = 0"
  by (induction js) (auto simp: entryNet_def accountNet_def)

lemma outstanding_append: "outstanding (ds @ es) = outstanding ds + outstanding es"
  by (simp add: outstanding_def)

lemma outstanding_update:
  "distinct (map dc_ID ds) \<Longrightarrow> d \<in> set ds
   \<Longrightarrow> outstanding (map (\<lambda>e. if dc_ID e = dc_ID d then f e else e) ds) = outstanding ds - openAmount d + openAmount (f d)"
proof (induction ds)
  case (Cons a ds)
  show ?case
  proof (cases "a = d")
    case True
    then have "dc_ID e \<noteq> dc_ID d" if "e \<in> set ds" for e using Cons.prems(1) that by (metis distinct.simps(2) image_eqI list.simps(9) set_map)
    then have "map (\<lambda>e. if dc_ID e = dc_ID d then f e else e) ds = ds" by (intro map_idI) simp
    then show ?thesis using True by (simp add: outstanding_def)
  next
    case False
    then have "dc_ID a \<noteq> dc_ID d" using Cons.prems by force
    then show ?thesis using Cons False by (simp add: outstanding_def)
  qed
qed simp

lemma docOK_more: "docOK dr cr js d \<Longrightarrow> docOK dr cr (js @ ks) d"
  by (auto simp: docOK_def documented_def)

locale documents =
  fixes dr cr acct :: string
  assumes sides: "dr \<noteq> cr" and control: "acct = dr \<or> acct = cr"
begin

lemma pairNet_add: "pairNet dr cr (x + y) acct = pairNet dr cr x acct + pairNet dr cr y acct"
  using control by (auto simp: pairNet_def)

lemma more_entries:
  "docsInv dr cr acct js ds \<Longrightarrow> (\<And>j. j \<in> set ks \<Longrightarrow> entryNet acct j = 0) \<Longrightarrow> docsInv dr cr acct (js @ ks) ds"
  by (auto simp: docsInv_def docOK_more accountNet_append accountNet_zero)

lemma more_settled:
  assumes "docsInv dr cr acct js ds" and "\<And>d. d \<in> set es \<Longrightarrow> 0 < dc_Total d \<and> dc_Paid d = dc_Total d" and "distinct (map dc_ID (ds @ es))"
  shows "docsInv dr cr acct js (ds @ es)"
proof -
  have "outstanding es = 0" using assms(2) by (induction es) (auto simp: outstanding_def openAmount_def)
  moreover have "docOK dr cr js d" if "d \<in> set es" for d using assms(2) [OF that] by (simp add: docOK_def)
  ultimately show ?thesis using assms(1,3) by (auto simp: docsInv_def outstanding_append)
qed

lemma issue:
  assumes "docsInv dr cr acct js ds" and "dc_ID d \<notin> dc_ID ` set ds" and "dc_Paid d = 0" and "dc_Status d = ''unpaid''" and "0 \<le> dc_Total d" and "inInt64 (dc_Total d)"
    and "documented dr cr (js @ ks) d" and "accountNet acct ks = pairNet dr cr (dc_Total d) acct"
  shows "docsInv dr cr acct (js @ ks) (ds @ [d])"
  using assms docOK_more [of dr cr js _ ks]
  by (auto simp: docsInv_def docOK_def outstanding_append outstanding_def openAmount_def accountNet_append pairNet_add)

lemma settle:
  assumes inv: "docsInv dr cr acct js ds" and d: "d \<in> set ds" "dc_Status d \<noteq> ''void''"
    and x: "0 < x" "dc_Paid d + x \<le> dc_Total d" and s: "s \<noteq> ''void''" "s = ''paid'' \<longrightarrow> dc_Paid d + x = dc_Total d"
    and net: "entryNet acct j = pairNet dr cr (- x) acct"
  shows "docsInv dr cr acct (js @ [j]) (map (\<lambda>e. if dc_ID e = dc_ID d then e\<lparr>dc_Paid := dc_Paid d + x, dc_Status := s\<rparr> else e) ds)"
    (is "docsInv _ _ _ _ (map ?f ds)")
proof -
  let ?d = "d\<lparr>dc_Paid := dc_Paid d + x, dc_Status := s\<rparr>"
  have dist: "distinct (map dc_ID ds)" using inv by (simp add: docsInv_def)
  have ids: "map dc_ID (map ?f ds) = map dc_ID ds" by simp
  have "outstanding (map ?f ds) = outstanding ds - x"
    using outstanding_update [OF dist d(1), of "\<lambda>e. e\<lparr>dc_Paid := dc_Paid d + x, dc_Status := s\<rparr>"] d(2) s(1) by (simp add: openAmount_def)
  moreover have ok: "docOK dr cr (js @ [j]) (?f e)" if e: "e \<in> set ds" for e
  proof (cases "dc_ID e = dc_ID d")
    case True
    then have "e = d" using dist d(1) e by (metis distinct_map inj_onD)
    moreover have "0 \<le> dc_Paid d" "inInt64 (dc_Total d)" using inv d(1) x by (auto simp: docsInv_def docOK_def)
    ultimately show ?thesis using x s by (auto simp: docOK_def)
  next
    case False
    then show ?thesis using inv e docOK_more by (auto simp: docsInv_def)
  qed
  moreover have "\<forall>e \<in> set (map ?f ds). docOK dr cr (js @ [j]) e" unfolding set_map ball_simps using ok by blast
  ultimately show ?thesis using inv net pairNet_add [of "outstanding ds" "- x"]
    unfolding docsInv_def ids by (simp only: accountNet_snoc) simp
qed

lemma void:
  assumes inv: "docsInv dr cr acct js ds" and d: "d \<in> set ds" "dc_Status d \<noteq> ''void''" "dc_Paid d = 0"
    and net: "accountNet acct ks = pairNet dr cr (- dc_Total d) acct"
  shows "docsInv dr cr acct (js @ ks) (map (\<lambda>e. if dc_ID e = dc_ID d then e\<lparr>dc_Status := ''void''\<rparr> else e) ds)"
    (is "docsInv _ _ _ _ (map ?f ds)")
proof -
  have dist: "distinct (map dc_ID ds)" using inv by (simp add: docsInv_def)
  have ids: "map dc_ID (map ?f ds) = map dc_ID ds" by simp
  have "outstanding (map ?f ds) = outstanding ds - dc_Total d"
    using outstanding_update [OF dist d(1), of "\<lambda>e. e\<lparr>dc_Status := ''void''\<rparr>"] d(2,3) by (simp add: openAmount_def)
  moreover have ok: "docOK dr cr (js @ ks) (?f e)" if e: "e \<in> set ds" for e
    using inv e docOK_more [of dr cr js e ks] by (auto simp: docsInv_def docOK_def)
  moreover have "\<forall>e \<in> set (map ?f ds). docOK dr cr (js @ ks) e" unfolding set_map ball_simps using ok by blast
  ultimately show ?thesis using inv net pairNet_add [of "outstanding ds" "- dc_Total d"]
    unfolding docsInv_def ids by (simp only: accountNet_append) simp
qed

end

interpretation receivables: documents acctAR acctRevenue acctAR
  by unfold_locales (simp_all add: acct_defs)

interpretation payables: documents acctOperatingExpense acctAP acctAP
  by unfold_locales (simp_all add: acct_defs)

section \<open>The office invariant\<close>

definition invDoc :: "invoiceRow \<Rightarrow> Doc" where
  "invDoc r = \<lparr>dc_ID = iv_ID r, dc_Status = iv_Status r, dc_Total = iv_Total r, dc_Paid = iv_AmountPaid r, dc_Entry = iv_JournalEntryID r\<rparr>"

definition expDoc :: "expenseRow \<Rightarrow> Doc" where
  "expDoc r = \<lparr>dc_ID = ex_ID r, dc_Status = ex_Status r, dc_Total = ex_Amount r, dc_Paid = ex_AmountPaid r, dc_Entry = ex_JournalEntryID r\<rparr>"

definition chartOK :: "account list \<Rightarrow> bool" where
  "chartOK as \<longleftrightarrow> distinct (map an_Code as) \<and> set systemAccounts \<subseteq> set as"

definition coreInv :: "Bill \<Rightarrow> bool" where
  "coreInv db \<longleftrightarrow> idsInv db \<and> chartOK (bl_accounts db) \<and> (\<forall>j \<in> set (bl_journal db). entryOK j \<and> postsTo systemCodes j)"

definition depreciated :: "Office \<Rightarrow> int" where
  "depreciated w = (\<Sum>d \<leftarrow> of_depreciation w. dp_Amount d)"

text \<open>
  The straight-line schedule: after a number of posted months, that many times the monthly amount, up to the depreciable amount. A month is posted once.
\<close>

definition depreciable :: "assetRow \<Rightarrow> int" where
  "depreciable a = max 0 (fa_Cost a - fa_SalvageValue a)"

definition monthsPosted :: "string \<Rightarrow> depreciationRow list \<Rightarrow> nat" where
  "monthsPosted i ds = length (filter (\<lambda>d. dp_AssetID d = i) ds)"

definition onSchedule :: "depreciationRow list \<Rightarrow> assetRow \<Rightarrow> bool" where
  "onSchedule ds a \<longleftrightarrow> accumulated (fa_ID a) ds = min (depreciable a) (int (monthsPosted (fa_ID a) ds) * (depreciable a div fa_UsefulLifeMonths a))"

definition assetsInv :: "Office \<Rightarrow> bool" where
  "assetsInv w \<longleftrightarrow> distinct (map fa_ID (of_assets w))
     \<and> (\<forall>a \<in> set (of_assets w). idBelow (bl_nextID (of_bill w)) (fa_ID a) \<and> 0 < fa_UsefulLifeMonths a \<and> onSchedule (of_depreciation w) a)
     \<and> (\<forall>d \<in> set (of_depreciation w). idBelow (bl_nextID (of_bill w)) (dp_AssetID d))
     \<and> distinct (map (\<lambda>d. (dp_AssetID d, dp_Period d)) (of_depreciation w))"

definition officeInv :: "Office \<Rightarrow> bool" where
  "officeInv w \<longleftrightarrow> coreInv (of_bill w)
     \<and> docsInv acctAR acctRevenue acctAR (bl_journal (of_bill w)) (map invDoc (bl_invoices (of_bill w)))
     \<and> docsInv acctOperatingExpense acctAP acctAP (bl_journal (of_bill w)) (map expDoc (of_expenses w))
     \<and> (\<forall>r \<in> set (of_expenses w). idBelow (bl_nextID (of_bill w)) (ex_ID r))
     \<and> accountNet acctAccumDepreciation (bl_journal (of_bill w)) = - depreciated w \<and> assetsInv w"

lemma systemCodes_acct [simp]:
  "acctCash \<in> systemCodes" "acctAR \<in> systemCodes" "acctFixedAssets \<in> systemCodes" "acctAccumDepreciation \<in> systemCodes"
  "acctAP \<in> systemCodes" "acctRevenue \<in> systemCodes" "acctOperatingExpense \<in> systemCodes" "acctDepreciationExpense \<in> systemCodes"
  by (simp_all add: systemCodes_def systemAccounts_def sysAccount_def)

lemma moneyCodes_system: "moneyCodes \<subseteq> systemCodes"
  by (auto simp: moneyCodes_def systemCodes_def systemAccounts_def sysAccount_def)

lemma entryNet_other: "postsTo cs j \<Longrightarrow> c \<notin> cs \<Longrightarrow> entryNet c j = 0"
proof -
  assume "postsTo cs j" and "c \<notin> cs"
  then have "\<forall>l \<in> set (je_Lines j). jl_AccountCode l \<noteq> c" by (auto simp: postsTo_def)
  then show ?thesis unfolding entryNet_def accountNet_def by (simp add: sum_list_0 cong: map_cong)
qed

lemma entryNet_pair:
  "je_Lines j = [jline a x 0 t s, jline b 0 x t' s'] \<Longrightarrow> a \<noteq> b \<Longrightarrow> entryNet c j = pairNet a b x c"
  by (simp add: entryNet_def accountNet_def jline_def pairNet_def)

lemma postsTo_pair: "je_Lines j = [jline a x d t s, jline b y e t' s'] \<Longrightarrow> a \<in> cs \<Longrightarrow> b \<in> cs \<Longrightarrow> postsTo cs j"
  by (simp add: postsTo_def jline_def)

lemma money_control:
  "postsTo moneyCodes j \<Longrightarrow> entryNet acctAR j = 0" "postsTo moneyCodes j \<Longrightarrow> entryNet acctAP j = 0"
  "postsTo moneyCodes j \<Longrightarrow> entryNet acctAccumDepreciation j = 0"
  by (rule entryNet_other, assumption, simp add: moneyCodes_def acct_defs)+

lemma coreInv_entry:
  assumes "coreInv db" and "db1 = db\<lparr>bl_nextID := Suc (bl_nextID db), bl_journal := bl_journal db @ [j]\<rparr>"
    and "je_ID j = formatUint (bl_nextID db)" and "entryOK j" and "postsTo systemCodes j"
  shows "coreInv db1"
proof -
  have "idsInv db1" by (rule idsInv_entry [of db db1 j]) (use assms in \<open>simp_all add: coreInv_def\<close>)
  then show ?thesis using assms by (auto simp: coreInv_def)
qed

text \<open>The entry of an office posting: two lines, on accounts of the seed.\<close>

lemma post_pair:
  assumes "postJournal now txt src ref tx who [jline a x 0 t s, jline b 0 x t' s'] db = Inr (i, db1)" and "a \<noteq> b"
    and "a \<in> systemCodes" and "b \<in> systemCodes"
  obtains j where "db1 = db\<lparr>bl_nextID := Suc (bl_nextID db), bl_journal := bl_journal db @ [j]\<rparr>" and "je_ID j = i" and "i = formatUint (bl_nextID db)"
    and "\<And>c. entryNet c j = pairNet a b x c" and "coreInv db \<Longrightarrow> coreInv db1"
proof -
  from postJournal_Inr [OF assms(1)] obtain j where j: "db1 = db\<lparr>bl_nextID := Suc (bl_nextID db), bl_journal := bl_journal db @ [j]\<rparr>" "je_ID j = i"
    "i = formatUint (bl_nextID db)" "je_Lines j = [jline a x 0 t s, jline b 0 x t' s']" "entryOK j" by auto
  show thesis
    by (rule that [OF j(1-3)]) (use j assms(2-4) in \<open>auto intro: entryNet_pair coreInv_entry postsTo_pair\<close>)
qed

lemma sum_list_minus: "(\<Sum>x \<leftarrow> xs. - f x :: int) = - (\<Sum>x \<leftarrow> xs. f x)"
  by (induction xs) simp_all

lemma reverse_entry:
  assumes "reverseJournal now orig txt src ref who db = Inr (i, db1)" and core: "coreInv db"
  obtains j j' where "j \<in> set (bl_journal db)" and "je_ID j = orig"
    and "db1 = db\<lparr>bl_nextID := Suc (bl_nextID db), bl_journal := bl_journal db @ [j']\<rparr>" and "\<And>c. entryNet c j' = - entryNet c j" and "coreInv db1"
proof -
  from assms obtain j where f: "find (\<lambda>j. je_ID j = orig) (bl_journal db) = Some j" by (auto simp: reverseJournal_def split: option.splits)
  then have j: "j \<in> set (bl_journal db)" "je_ID j = orig" by (auto simp: find_Some_iff)
  from assms(1) f obtain je where il: "insertLines (map swapLine (je_Lines j)) je db = Inr (i, db1)"
    by (auto simp: reverseJournal_def split: if_splits)
  define j' where "j' = je\<lparr>je_ID := i, je_Lines := map swapLine (je_Lines j)\<rparr>"
  have d: "db1 = db\<lparr>bl_nextID := Suc (bl_nextID db), bl_journal := bl_journal db @ [j']\<rparr>" using insertLines_Inr(1) [OF il] by (simp add: j'_def)
  have i: "je_ID j' = formatUint (bl_nextID db)" using il by (auto simp: j'_def insertLines_def newID_def split: if_splits)
  have ok: "entryOK j" "postsTo systemCodes j" using core j(1) by (auto simp: coreInv_def)
  have "entryOK j'" using ok(1) insertLines_Inr(2) [OF il] by (simp add: entryOK_def j'_def swapLine_def o_def)
  moreover have "postsTo systemCodes j'" using ok(2) by (auto simp: postsTo_def j'_def swapLine_def)
  ultimately have "coreInv db1" using coreInv_entry [OF core d i] by blast
  moreover have "entryNet c j' = - entryNet c j" for c
    unfolding entryNet_def accountNet_def by (simp add: j'_def o_def swapLine_def sum_list_minus [symmetric] if_distrib cong: if_cong)
  ultimately show thesis using that j d by blast
qed

section \<open>Every office operation keeps the invariant\<close>

text \<open>
  A step that posts: the journal grows by entries that keep the core invariant, and each control account is accounted for.
\<close>

lemma officeInv_frame:
  assumes "officeInv w" and "coreInv (of_bill w')" and "bl_journal (of_bill w') = bl_journal (of_bill w) @ js" and "bl_nextID (of_bill w) \<le> bl_nextID (of_bill w')"
    and ar: "docsInv acctAR acctRevenue acctAR (bl_journal (of_bill w')) (map invDoc (bl_invoices (of_bill w')))"
    and "of_expenses w' = of_expenses w" and "of_depreciation w' = of_depreciation w" and "of_assets w' = of_assets w"
    and "\<And>j. j \<in> set js \<Longrightarrow> entryNet acctAP j = 0 \<and> entryNet acctAccumDepreciation j = 0"
  shows "officeInv w'"
proof -
  have "docsInv acctOperatingExpense acctAP acctAP (bl_journal (of_bill w')) (map expDoc (of_expenses w'))"
    using assms payables.more_entries [of "bl_journal (of_bill w)" _ js] by (simp add: officeInv_def)
  moreover have "accountNet acctAccumDepreciation (bl_journal (of_bill w')) = - depreciated w'"
    using assms by (simp add: officeInv_def accountNet_append accountNet_zero depreciated_def)
  moreover have "assetsInv w'" using assms idBelow_mono by (auto simp: officeInv_def assetsInv_def)
  ultimately show ?thesis using assms idBelow_mono by (auto simp: officeInv_def)
qed

lemma billing_keeps:
  assumes inv: "officeInv w" and s: "billStep (of_bill w) db"
  shows "officeInv (w\<lparr>of_bill := db\<rparr>)"
proof -
  from posting.billStep_path [OF s] obtain js rs where p: "bl_journal db = bl_journal (of_bill w) @ js" "\<forall>j \<in> set js. entryOK j \<and> postsTo moneyCodes j"
    "bl_invoices db = bl_invoices (of_bill w) @ rs" "\<forall>r \<in> set rs. settled r" "bl_accounts db = bl_accounts (of_bill w)"
    "bl_nextID (of_bill w) \<le> bl_nextID db" "idsInv (of_bill w) \<longrightarrow> idsInv db" unfolding posts_def by blast
  have core: "coreInv db" using inv p moneyCodes_system by (fastforce simp: officeInv_def coreInv_def postsTo_def)
  have dist: "distinct (map dc_ID (map invDoc (bl_invoices (of_bill w)) @ map invDoc rs))"
    using core p(3) by (simp add: coreInv_def idsInv_def o_def invDoc_def)
  have "docsInv acctAR acctRevenue acctAR (bl_journal db) (map invDoc (bl_invoices (of_bill w)))"
    using inv p(1,2) money_control by (auto simp: officeInv_def intro!: receivables.more_entries)
  then have "docsInv acctAR acctRevenue acctAR (bl_journal db) (map invDoc (bl_invoices (of_bill w)) @ map invDoc rs)"
    by (rule receivables.more_settled [OF _ _ dist]) (use p(4) in \<open>auto simp: settled_def invDoc_def\<close>)
  then show ?thesis
    by (intro officeInv_frame [OF inv, of _ js]) (use core p money_control in \<open>auto simp: p(3)\<close>)
qed

lemma insertInvoiceLines_Inr: "insertInvoiceLines fl mode i ls db = Inr (u, db') \<Longrightarrow> \<exists>ils. db' = db\<lparr>bl_invoiceLines := ils\<rparr>"
proof (induction ls arbitrary: db)
  case Nil
  then show ?case by (intro exI [of _ "bl_invoiceLines db"]) simp
next
  case (Cons l ls)
  then show ?case by (fastforce simp: Let_def split: if_splits)
qed

text \<open>A created invoice: its row, and the entry of its total unless that is zero.\<close>

lemma createInvoice_Inr:
  assumes "createInvoice fl now p db = Inr (i, db')" and core: "coreInv db"
  obtains r js where "bl_journal db' = bl_journal db @ js" and "bl_invoices db' = bl_invoices db @ [r]" and "iv_ID r = i" and "i = formatUint (bl_nextID db)"
    and "iv_AmountPaid r = 0" and "iv_Status r = ''unpaid''" and "0 \<le> iv_Total r" and "inInt64 (iv_Total r)" and "coreInv db'" and "bl_nextID db < bl_nextID db'"
    and "js = [] \<and> iv_Total r = 0 \<and> iv_JournalEntryID r = []
      \<or> (\<exists>j. js = [j] \<and> je_ID j = iv_JournalEntryID r \<and> iv_JournalEntryID r \<noteq> [] \<and> (\<forall>c. entryNet c j = pairNet acctAR acctRevenue (iv_Total r) c))"
proof -
  obtain sub tax whole where t: "invoiceTotals fl p = (sub, tax, whole)" by (cases "invoiceTotals fl p") auto
  from assms(1) have pos: "0 \<le> whole" by (auto simp: createInvoice_def t Let_def split: if_splits)
  have int: "inInt64 whole" using t wrap64_range by (auto simp: invoiceTotals_def Let_def inInt64_def split: if_splits)
  note eq = assms(1) [unfolded createInvoice_def t newID_def Let_def prod.case]
  define r0 where "r0 = \<lparr>iv_ID = formatUint (bl_nextID db), iv_No = docNo ''INV-'' (bl_invoiceSeq db), iv_SubscriberID = ci_SubscriberID p,
      iv_Mode = ci_Mode p, iv_IssueDate = pgDate (ci_IssueDate p), iv_DueDate = pgDate (ci_DueDate p), iv_TaxRate = ci_TaxRatePct p,
      iv_Subtotal = sub, iv_TaxAmount = tax, iv_Total = whole, iv_AmountPaid = 0, iv_Status = ''unpaid'', iv_Memo = ci_Memo p,
      iv_JournalEntryID = [], iv_CreatedBy = ci_CreatedBy p, iv_VoidedAt = None, iv_VoidedBy = [], iv_VoidReason = [], iv_VoidEntryID = []\<rparr>"
  define db3 where "db3 = db\<lparr>bl_invoiceSeq := Suc (bl_invoiceSeq db), bl_nextID := Suc (bl_nextID db), bl_invoices := bl_invoices db @ [r0]\<rparr>"
  have ids3: "idsInv db3" by (rule idsInv_invoice [of db db3 r0]) (use core in \<open>simp_all add: coreInv_def db3_def r0_def\<close>)
  from eq obtain u db4 where l: "insertInvoiceLines fl (ci_Mode p) (formatUint (bl_nextID db)) (ci_Lines p) db3 = Inr (u, db4)"
    and fin: "(if 0 < whole then bindE (postJournal now (''invoice '' @ docNo ''INV-'' (bl_invoiceSeq db)) (ci_Source p) (docNo ''INV-'' (bl_invoiceSeq db)) []
        (ci_CreatedBy p) [jline acctAR whole 0 (''invoice '' @ docNo ''INV-'' (bl_invoiceSeq db)) (ci_SubscriberID p),
          jline acctRevenue 0 whole (''invoice '' @ docNo ''INV-'' (bl_invoiceSeq db)) []] db4)
        (\<lambda>(entryID, db5). Inr (formatUint (bl_nextID db), updateInvoice (formatUint (bl_nextID db)) (iv_JournalEntryID_update (\<lambda>_. entryID)) db5))
      else Inr (formatUint (bl_nextID db), db4)) = Inr (i, db')"
    by (auto simp: bindE_pair db3_def r0_def split: if_splits)
  from insertInvoiceLines_Inr [OF l] obtain ils where d4: "db4 = db3\<lparr>bl_invoiceLines := ils\<rparr>" by blast
  have core4: "coreInv db4" using core ids3 by (auto simp: coreInv_def d4 db3_def idsInv_def)
  show thesis
  proof (cases "0 < whole")
    case False
    with fin pos int core4 show thesis by (intro that [of "[]" r0]) (auto simp: d4 db3_def r0_def)
  next
    case True
    with fin obtain e db5 where pj: "postJournal now (''invoice '' @ docNo ''INV-'' (bl_invoiceSeq db)) (ci_Source p) (docNo ''INV-'' (bl_invoiceSeq db)) []
        (ci_CreatedBy p) [jline acctAR whole 0 (''invoice '' @ docNo ''INV-'' (bl_invoiceSeq db)) (ci_SubscriberID p),
          jline acctRevenue 0 whole (''invoice '' @ docNo ''INV-'' (bl_invoiceSeq db)) []] db4 = Inr (e, db5)"
      and d': "db' = updateInvoice (formatUint (bl_nextID db)) (iv_JournalEntryID_update (\<lambda>_. e)) db5" and i: "i = formatUint (bl_nextID db)"
      by (auto simp: bindE_pair)
    from pj obtain j where j: "db5 = db4\<lparr>bl_nextID := Suc (bl_nextID db4), bl_journal := bl_journal db4 @ [j]\<rparr>" "je_ID j = e" "e = formatUint (bl_nextID db4)"
      "\<And>c. entryNet c j = pairNet acctAR acctRevenue whole c" "coreInv db5"
      using core4 by (elim post_pair) (simp_all add: receivables.sides)
    have "iv_ID x \<noteq> formatUint (bl_nextID db)" if "x \<in> set (bl_invoices db)" for x
      using core that idBelow_fresh [of "bl_invoices db" "bl_nextID db" iv_ID] unfolding coreInv_def idsInv_def by (metis imageI)
    then have inv': "bl_invoices db' = bl_invoices db @ [r0\<lparr>iv_JournalEntryID := e\<rparr>]"
      by (simp add: d' updateInvoice_def j(1) d4 db3_def r0_def cong: map_cong)
    have rest: "bl_journal db' = bl_journal db @ [j]" "bl_nextID db' = Suc (Suc (bl_nextID db))" "bl_accounts db' = bl_accounts db5"
      by (simp_all add: d' updateInvoice_def j(1) d4 db3_def)
    have "map iv_ID (bl_invoices db') = map iv_ID (bl_invoices db5)" by (simp add: inv' j(1) d4 db3_def)
    moreover have "\<forall>x \<in> set (bl_invoices db'). idBelow (bl_nextID db') (iv_ID x)"
      using core by (auto simp: inv' rest(2) coreInv_def idsInv_def r0_def intro: idBelow_this idBelow_mono)
    ultimately have "coreInv db'" using j(5) rest by (auto simp: coreInv_def idsInv_def j(1) d4 db3_def)
    then show thesis
      by (intro that [of "[j]" "r0\<lparr>iv_JournalEntryID := e\<rparr>"])
        (use inv' rest i pos int j in \<open>simp_all add: r0_def formatUint_nonempty\<close>)
  qed
qed

lemma invDoc_fields: "dc_ID (invDoc r) = iv_ID r" "dc_Status (invDoc r) = iv_Status r" "dc_Total (invDoc r) = iv_Total r" "dc_Paid (invDoc r) = iv_AmountPaid r"
  "dc_Entry (invDoc r) = iv_JournalEntryID r"
  by (simp_all add: invDoc_def)

lemma expDoc_fields: "dc_ID (expDoc r) = ex_ID r" "dc_Status (expDoc r) = ex_Status r" "dc_Total (expDoc r) = ex_Amount r" "dc_Paid (expDoc r) = ex_AmountPaid r"
  "dc_Entry (expDoc r) = ex_JournalEntryID r"
  by (simp_all add: expDoc_def)

lemmas doc_fields = invDoc_fields expDoc_fields

lemma control_other:
  "pairNet acctAR acctRevenue x acctAP = 0" "pairNet acctAR acctRevenue x acctAccumDepreciation = 0"
  "pairNet acctCash acctAR x acctAP = 0" "pairNet acctCash acctAR x acctAccumDepreciation = 0" "pairNet acctCash acctAR x acctAR = - x"
  "pairNet acctOperatingExpense acctAP x acctAR = 0" "pairNet acctOperatingExpense acctAP x acctAccumDepreciation = 0"
  "pairNet acctAP acctCash x acctAR = 0" "pairNet acctAP acctCash x acctAccumDepreciation = 0" "pairNet acctAP acctCash x acctAP = x"
  "pairNet acctFixedAssets acctCash x acctAR = 0" "pairNet acctFixedAssets acctCash x acctAP = 0" "pairNet acctFixedAssets acctCash x acctAccumDepreciation = 0"
  "pairNet acctDepreciationExpense acctAccumDepreciation x acctAR = 0" "pairNet acctDepreciationExpense acctAccumDepreciation x acctAP = 0"
  "pairNet acctDepreciationExpense acctAccumDepreciation x acctAccumDepreciation = - x"
  "pairNet acctAR acctRevenue x acctAR = x" "pairNet acctOperatingExpense acctAP x acctAP = - x"
  by (simp_all add: pairNet_def acct_defs)

lemma invoice_keeps:
  assumes inv: "officeInv w" and c: "createInvoice fl now p (of_bill w) = Inr (i, db)"
  shows "officeInv (w\<lparr>of_bill := db\<rparr>)"
proof -
  have core: "coreInv (of_bill w)" using inv by (simp add: officeInv_def)
  from c core obtain r js where r: "bl_journal db = bl_journal (of_bill w) @ js" "bl_invoices db = bl_invoices (of_bill w) @ [r]" "iv_ID r = i"
    "i = formatUint (bl_nextID (of_bill w))" "iv_AmountPaid r = 0" "iv_Status r = ''unpaid''" "0 \<le> iv_Total r" "inInt64 (iv_Total r)" "coreInv db"
    "bl_nextID (of_bill w) < bl_nextID db"
    and j: "js = [] \<and> iv_Total r = 0 \<and> iv_JournalEntryID r = []
      \<or> (\<exists>j. js = [j] \<and> je_ID j = iv_JournalEntryID r \<and> iv_JournalEntryID r \<noteq> [] \<and> (\<forall>c. entryNet c j = pairNet acctAR acctRevenue (iv_Total r) c))"
    by (rule createInvoice_Inr) blast
  have dist: "iv_ID r \<notin> iv_ID ` set (bl_invoices (of_bill w))" using r(2,9) by (simp add: coreInv_def idsInv_def)
  have "docsInv acctAR acctRevenue acctAR (bl_journal db) (map invDoc (bl_invoices (of_bill w)) @ [invDoc r])" unfolding r(1)
  proof (rule receivables.issue)
    show "documented acctAR acctRevenue (bl_journal (of_bill w) @ js) (invDoc r)" using j by (auto simp: documented_def doc_fields)
    show "accountNet acctAR js = pairNet acctAR acctRevenue (dc_Total (invDoc r)) acctAR"
      using j by (auto simp: doc_fields accountNet_def pairNet_def entryNet_def)
  qed (use inv r dist in \<open>auto simp: officeInv_def doc_fields\<close>)
  then show ?thesis
    by (intro officeInv_frame [OF inv, of _ js]) (use r j in \<open>auto simp: control_other\<close>)
qed

lemma find_row: "find (\<lambda>r. f r = i) rs = Some r \<Longrightarrow> r \<in> set rs \<and> f r = i"
  by (auto simp: find_Some_iff)

lemma map_doc_update:
  "(\<And>r. dc_ID (g r) = f r) \<Longrightarrow> (\<And>r. g (h r) = h' (g r))
   \<Longrightarrow> map g (map (\<lambda>r. if f r = i then h r else r) rs) = map (\<lambda>e. if dc_ID e = i then h' e else e) (map g rs)"
  by simp

lemma updateInvoice_core: "coreInv db \<Longrightarrow> (\<And>r. iv_ID (f r) = iv_ID r) \<Longrightarrow> coreInv (updateInvoice i f db)"
  by (auto simp: coreInv_def idsInv_def updateInvoice_def o_def if_distrib cong: if_cong)

lemma updateInvoice_fields [simp]:
  "bl_journal (updateInvoice i f db) = bl_journal db" "bl_nextID (updateInvoice i f db) = bl_nextID db"
  "bl_invoices (updateInvoice i f db) = map (\<lambda>r. if iv_ID r = i then f r else r) (bl_invoices db)"
  by (simp_all add: updateInvoice_def)

lemma void_entry:
  assumes core: "coreInv db" and "docsInv dr cr acct (bl_journal db) ds" and d: "d \<in> set ds" "dc_Status d \<noteq> ''void''" "dc_Paid d = 0"
    and r: "(if dc_Entry d = [] then Inr ([], db) else reverseJournal now (dc_Entry d) txt src ref who db) = Inr (e, db1)"
  obtains ks where "bl_journal db1 = bl_journal db @ ks" and "\<And>c. accountNet c ks = pairNet dr cr (- dc_Total d) c" and "coreInv db1"
    and "bl_nextID db \<le> bl_nextID db1" and "bl_invoices db1 = bl_invoices db" and "\<And>k c. k \<in> set ks \<Longrightarrow> entryNet c k = pairNet dr cr (- dc_Total d) c"
proof (cases "dc_Entry d = []")
  case True
  have "documented dr cr (bl_journal db) d" using assms(2) d by (auto simp: docsInv_def docOK_def)
  then have "dc_Total d = 0" using True by (simp add: documented_def)
  then show thesis using True r core by (intro that [of "[]"]) (auto simp: accountNet_def pairNet_def)
next
  case False
  with r have "reverseJournal now (dc_Entry d) txt src ref who db = Inr (e, db1)" by simp
  then obtain j j' where j: "j \<in> set (bl_journal db)" "je_ID j = dc_Entry d" "db1 = db\<lparr>bl_nextID := Suc (bl_nextID db), bl_journal := bl_journal db @ [j']\<rparr>"
    "\<And>c. entryNet c j' = - entryNet c j" "coreInv db1" using core by (rule reverse_entry) blast
  have "documented dr cr (bl_journal db) d" using assms(2) d by (auto simp: docsInv_def docOK_def)
  then obtain k where k: "k \<in> set (bl_journal db)" "je_ID k = dc_Entry d" "\<And>c. entryNet c k = pairNet dr cr (dc_Total d) c"
    using False by (auto simp: documented_def)
  have "k = j" using core j(1,2) k(1,2) by (auto simp: coreInv_def idsInv_def distinct_map inj_on_def)
  then have net: "entryNet c j' = pairNet dr cr (- dc_Total d) c" for c using j(4) k(3) by (simp add: pairNet_def)
  show thesis by (rule that [of "[j']"]) (use j net in \<open>auto simp: entryNet_def [symmetric]\<close>)
qed

lemma voidInvoice_keeps:
  assumes inv: "officeInv w" and c: "voidInvoice now i reason actor src (of_bill w) = Inr (u, db)"
  shows "officeInv (w\<lparr>of_bill := db\<rparr>)"
proof -
  from c obtain r where f: "findInvoice i (of_bill w) = Some r" by (auto simp: voidInvoice_def split: option.splits)
  then have r: "r \<in> set (bl_invoices (of_bill w))" "iv_ID r = i" using find_row [of iv_ID i] unfolding findInvoice_def by blast+
  have core: "coreInv (of_bill w)" and ar: "docsInv acctAR acctRevenue acctAR (bl_journal (of_bill w)) (map invDoc (bl_invoices (of_bill w)))"
    using inv by (simp_all add: officeInv_def)
  have "0 \<le> iv_AmountPaid r" using ar r(1) by (auto simp: docsInv_def docOK_def doc_fields)
  with c f obtain e db1 where st: "iv_Status r \<noteq> ''void''" "iv_AmountPaid r = 0"
    and rj: "(if iv_JournalEntryID r = [] then Inr ([], of_bill w) else reverseJournal now (iv_JournalEntryID r) ''void invoice'' src i actor (of_bill w)) = Inr (e, db1)"
    and db: "db = updateInvoice i (\<lambda>r. r\<lparr>iv_Status := ''void'', iv_VoidedAt := Some now, iv_VoidedBy := actor, iv_VoidReason := reason, iv_VoidEntryID := e\<rparr>) db1"
    by (auto simp: voidInvoice_def bindE_pair split: if_splits)
  from void_entry [OF core ar, of "invDoc r", unfolded doc_fields, OF _ st rj] r(1) obtain ks where
    ks: "bl_journal db1 = bl_journal (of_bill w) @ ks" "\<And>c. accountNet c ks = pairNet acctAR acctRevenue (- iv_Total r) c" "coreInv db1"
    "bl_nextID (of_bill w) \<le> bl_nextID db1" "bl_invoices db1 = bl_invoices (of_bill w)"
    "\<And>k c. k \<in> set ks \<Longrightarrow> entryNet c k = pairNet acctAR acctRevenue (- iv_Total r) c" by auto
  have docs: "map invDoc (bl_invoices db) = map (\<lambda>e. if dc_ID e = dc_ID (invDoc r) then e\<lparr>dc_Status := ''void''\<rparr> else e) (map invDoc (bl_invoices (of_bill w)))"
    unfolding db updateInvoice_fields ks(5) doc_fields r(2) by (rule map_doc_update) (simp_all add: invDoc_def)
  have "docsInv acctAR acctRevenue acctAR (bl_journal db) (map invDoc (bl_invoices db))"
    unfolding docs unfolding db updateInvoice_fields ks(1) by (rule receivables.void [OF ar]) (use r st ks(2) in \<open>auto simp: doc_fields\<close>)
  moreover have "coreInv db" unfolding db by (rule updateInvoice_core [OF ks(3)]) simp
  ultimately show ?thesis
    by (intro officeInv_frame [OF inv, of _ ks]) (use ks db in \<open>auto simp: control_other\<close>)
qed

lemma acct_sides [simp]:
  "acctCash \<noteq> acctAR" "acctAP \<noteq> acctCash" "acctFixedAssets \<noteq> acctCash" "acctDepreciationExpense \<noteq> acctAccumDepreciation" "acctOperatingExpense \<noteq> acctAP"
  by (simp_all add: acct_defs)

lemma wrap64_sum:
  assumes "0 \<le> p" and "p \<le> t" and "inInt64 t" and "0 < x" and "inInt64 x" and "0 \<le> wrap64 (p + x)"
  shows "wrap64 (p + x) = p + x"
proof (cases "p + x < 2 ^ 63")
  case True
  then show ?thesis using assms by (intro wrap64_id) (simp add: inInt64_def)
next
  case False
  have "p + x + 2 ^ 63 - 2 ^ 64 \<ge> 0" "p + x + 2 ^ 63 - 2 ^ 64 < 2 ^ 64" using assms False by (auto simp: inInt64_def)
  then have "(p + x + 2 ^ 63) mod 2 ^ 64 = p + x + 2 ^ 63 - 2 ^ 64" by (metis minus_mod_self2 mod_pos_pos_trivial)
  then have "wrap64 (p + x) = p + x - 2 ^ 64" by (simp add: wrap64_def)
  then show ?thesis using assms False by (simp add: inInt64_def)
qed

lemma settleGuard_None:
  assumes "settleGuard x status t p = None" and "0 < x" and "inInt64 x" and "0 \<le> p" and "p < t \<longrightarrow> inInt64 t"
  shows "status \<noteq> ''void''" and "wrap64 (p + x) = p + x" and "p + x \<le> t"
proof -
  have g: "status \<noteq> ''void''" "p < t" "wrap64 (p + x) \<le> t" "0 \<le> wrap64 (p + x)" using assms(1) by (auto simp: settleGuard_def split: if_splits)
  then show "status \<noteq> ''void''" and "wrap64 (p + x) = p + x" using assms wrap64_sum [of p t x] by auto
  with g show "p + x \<le> t" by simp
qed

lemma recompute_status: "recomputeInvoiceStatus p t due now \<noteq> ''void''" "p \<le> t \<Longrightarrow> recomputeInvoiceStatus p t due now = ''paid'' \<longrightarrow> p = t"
  by (auto simp: recomputeInvoiceStatus_def)

lemma coreInv_counter: "coreInv db \<Longrightarrow> coreInv (db\<lparr>bl_nextID := bl_nextID db + n\<rparr>)"
  using idsInv_counter [of db "db\<lparr>bl_nextID := bl_nextID db + n\<rparr>"] by (simp add: coreInv_def)

lemma coreInv_newID: "coreInv db \<Longrightarrow> coreInv (snd (newID db))"
  using coreInv_counter [of db 1] by (simp add: newID_def)

lemma receipt_keeps:
  assumes inv: "officeInv w" and x: "inInt64 amount" and c: "postARReceipt now i amount method txt actor src w = Inr (n, w')"
  shows "officeInv w'"
proof -
  have core: "coreInv (of_bill w)" and ar: "docsInv acctAR acctRevenue acctAR (bl_journal (of_bill w)) (map invDoc (bl_invoices (of_bill w)))"
    using inv by (simp_all add: officeInv_def)
  from c obtain r where pos: "0 < amount" and f: "findInvoice i (of_bill w) = Some r"
    and g: "settleGuard amount (iv_Status r) (iv_Total r) (iv_AmountPaid r) = None"
    by (auto simp: postARReceipt_def Let_def split: if_splits option.splits)
  from f have r: "r \<in> set (bl_invoices (of_bill w))" "iv_ID r = i" using find_row [of iv_ID i] unfolding findInvoice_def by blast+
  have ok: "docOK acctAR acctRevenue (bl_journal (of_bill w)) (invDoc r)" using ar r(1) by (auto simp: docsInv_def)
  then have s: "iv_Status r \<noteq> ''void''" "wrap64 (iv_AmountPaid r + amount) = iv_AmountPaid r + amount" "iv_AmountPaid r + amount \<le> iv_Total r"
    using settleGuard_None [OF g pos x] by (auto simp: docOK_def doc_fields)
  define st where "st = recomputeInvoiceStatus (iv_AmountPaid r + amount) (iv_Total r) (iv_DueDate r) now"
  from c pos f g s(2) obtain e db1 t t' where p: "postJournal now t src t' [] actor [jline acctCash amount 0 t [], jline acctAR 0 amount t (iv_SubscriberID r)] (of_bill w)
      = Inr (e, db1)"
    and b: "of_bill w' = updateInvoice i (\<lambda>r'. r'\<lparr>iv_AmountPaid := iv_AmountPaid r + amount, iv_Status := st\<rparr>) (snd (newID db1))"
    and same: "of_expenses w' = of_expenses w" "of_depreciation w' = of_depreciation w" "of_assets w' = of_assets w"
    by (auto simp: postARReceipt_def Let_def bindE_pair st_def newID_def split: if_splits)
  from p obtain j where j: "db1 = (of_bill w)\<lparr>bl_nextID := Suc (bl_nextID (of_bill w)), bl_journal := bl_journal (of_bill w) @ [j]\<rparr>"
    "\<And>c. entryNet c j = pairNet acctCash acctAR amount c" "coreInv db1"
    using core by (elim post_pair) simp_all
  have docs: "map invDoc (bl_invoices (of_bill w')) = map (\<lambda>e. if dc_ID e = dc_ID (invDoc r)
      then e\<lparr>dc_Paid := dc_Paid (invDoc r) + amount, dc_Status := st\<rparr> else e) (map invDoc (bl_invoices (of_bill w)))"
    unfolding b updateInvoice_fields newID_def j(1) doc_fields r(2) by simp (simp add: invDoc_def)
  have jr: "bl_journal (of_bill w') = bl_journal (of_bill w) @ [j]" "bl_nextID (of_bill w) \<le> bl_nextID (of_bill w')" by (simp_all add: b j(1) newID_def)
  have "docsInv acctAR acctRevenue acctAR (bl_journal (of_bill w')) (map invDoc (bl_invoices (of_bill w')))"
    unfolding docs jr(1)
  proof (rule receivables.settle [OF ar])
    show "st \<noteq> ''void''" "st = ''paid'' \<longrightarrow> dc_Paid (invDoc r) + amount = dc_Total (invDoc r)"
      using recompute_status s(3) by (simp_all add: st_def doc_fields)
    show "entryNet acctAR j = pairNet acctAR acctRevenue (- amount) acctAR" by (simp add: j(2) control_other)
  qed (use r s pos in \<open>simp_all add: doc_fields\<close>)
  moreover have "coreInv (of_bill w')" unfolding b by (rule updateInvoice_core [OF coreInv_newID [OF j(3)]]) simp
  ultimately show ?thesis
    by (intro officeInv_frame [OF inv, of _ "[j]"]) (use jr same in \<open>auto simp: j(2) control_other\<close>)
qed

lemma officeInv_side:
  assumes "officeInv w" and "coreInv (of_bill w')" and "bl_journal (of_bill w') = bl_journal (of_bill w) @ js" and "bl_invoices (of_bill w') = bl_invoices (of_bill w)"
    and "\<And>j. j \<in> set js \<Longrightarrow> entryNet acctAR j = 0"
    and "docsInv acctOperatingExpense acctAP acctAP (bl_journal (of_bill w')) (map expDoc (of_expenses w'))"
    and "\<forall>r \<in> set (of_expenses w'). idBelow (bl_nextID (of_bill w')) (ex_ID r)"
    and "accountNet acctAccumDepreciation (bl_journal (of_bill w')) = - depreciated w'" and "assetsInv w'"
  shows "officeInv w'"
  using assms receivables.more_entries [of "bl_journal (of_bill w)" _ js] by (simp add: officeInv_def)

lemma assetsInv_counter:
  "assetsInv w \<Longrightarrow> of_assets w' = of_assets w \<Longrightarrow> of_depreciation w' = of_depreciation w \<Longrightarrow> bl_nextID (of_bill w) \<le> bl_nextID (of_bill w') \<Longrightarrow> assetsInv w'"
  by (auto simp: assetsInv_def intro: idBelow_mono)

lemma expenses_mono:
  "\<forall>r \<in> set rs. idBelow n (ex_ID r) \<Longrightarrow> n \<le> m \<Longrightarrow> \<forall>r \<in> set rs. idBelow m (ex_ID r)"
  by (blast intro: idBelow_mono)

lemma expense_keeps:
  assumes inv: "officeInv w" and x: "inInt64 (ce_Amount p)" and c: "createExpense now p w = Inr (i, w')"
  shows "officeInv w'"
proof -
  have core: "coreInv (of_bill w)" and ap: "docsInv acctOperatingExpense acctAP acctAP (bl_journal (of_bill w)) (map expDoc (of_expenses w))"
    and ids: "\<forall>r \<in> set (of_expenses w). idBelow (bl_nextID (of_bill w)) (ex_ID r)" using inv by (simp_all add: officeInv_def)
  let ?no = "docNo ''EXP-'' (of_expenseSeq w)"
  let ?t = "''expense '' @ ?no"
  from c obtain e db2 where pos: "0 < ce_Amount p"
    and pj: "postJournal now ?t (ce_Source p) ?no [] (ce_CreatedBy p) [jline acctOperatingExpense (ce_Amount p) 0 ?t [], jline acctAP 0 (ce_Amount p) ?t []]
      (snd (newID (of_bill w))) = Inr (e, db2)"
    and w: "w' = w\<lparr>of_bill := db2, of_expenseSeq := Suc (of_expenseSeq w), of_expenses := of_expenses w @ [\<lparr>ex_ID = formatUint (bl_nextID (of_bill w)),
      ex_No = ?no, ex_Category = ce_Category p, ex_Vendor = ce_Vendor p, ex_Amount = ce_Amount p, ex_AmountPaid = 0,
      ex_IncurredDate = pgDate (ce_IncurredDate p), ex_DueDate = pgDate (ce_DueDate p), ex_Status = ''unpaid'', ex_Memo = ce_Memo p,
      ex_JournalEntryID = e, ex_CreatedBy = ce_CreatedBy p, ex_VoidedAt = None, ex_VoidedBy = [], ex_VoidReason = [], ex_VoidEntryID = []\<rparr>]\<rparr>"
    by (auto simp: createExpense_def Let_def bindE_pair newID_def split: if_splits)
  define r where "r = last (of_expenses w')"
  have r: "ex_ID r = formatUint (bl_nextID (of_bill w))" "ex_Amount r = ce_Amount p" "ex_AmountPaid r = 0" "ex_Status r = ''unpaid''" "ex_JournalEntryID r = e"
    and w': "of_bill w' = db2" "of_expenses w' = of_expenses w @ [r]" "of_assets w' = of_assets w" "of_depreciation w' = of_depreciation w"
    by (simp_all add: r_def w)
  from pj obtain j where j: "db2 = (snd (newID (of_bill w)))\<lparr>bl_nextID := Suc (bl_nextID (snd (newID (of_bill w)))),
      bl_journal := bl_journal (snd (newID (of_bill w))) @ [j]\<rparr>" "je_ID j = e" "e = formatUint (bl_nextID (snd (newID (of_bill w))))"
    "\<And>c. entryNet c j = pairNet acctOperatingExpense acctAP (ce_Amount p) c" "coreInv db2"
    using coreInv_newID [OF core] by (elim post_pair) simp_all
  have jr: "bl_journal (of_bill w') = bl_journal (of_bill w) @ [j]" "bl_invoices (of_bill w') = bl_invoices (of_bill w)"
    "bl_nextID (of_bill w') = Suc (Suc (bl_nextID (of_bill w)))" using j(1) w'(1) by (simp_all add: newID_def)
  have "docsInv acctOperatingExpense acctAP acctAP (bl_journal (of_bill w) @ [j]) (map expDoc (of_expenses w) @ [expDoc r])"
  proof (rule payables.issue [OF ap])
    show "dc_ID (expDoc r) \<notin> dc_ID ` set (map expDoc (of_expenses w))"
      using idBelow_fresh [OF ids] by (auto simp: doc_fields r(1) image_iff)
    show "documented acctOperatingExpense acctAP (bl_journal (of_bill w) @ [j]) (expDoc r)"
      using j(2,3,4) r by (auto simp: documented_def doc_fields formatUint_nonempty)
    show "accountNet acctAP [j] = pairNet acctOperatingExpense acctAP (dc_Total (expDoc r)) acctAP"
      using j(4) [of acctAP] by (simp add: entryNet_def doc_fields r)
  qed (use r pos x in \<open>simp_all add: doc_fields\<close>)
  then show ?thesis
  proof (intro officeInv_side [OF inv, of _ "[j]"])
    show "\<forall>r \<in> set (of_expenses w'). idBelow (bl_nextID (of_bill w')) (ex_ID r)"
      using expenses_mono [OF ids, of "bl_nextID (of_bill w')"] r(1) by (auto simp: w'(2) jr(3) intro: idBelow_this)
    show "assetsInv w'" by (rule assetsInv_counter [of w]) (use inv w' jr(3) in \<open>simp_all add: officeInv_def\<close>)
    show "accountNet acctAccumDepreciation (bl_journal (of_bill w')) = - depreciated w'"
      using inv unfolding jr(1) by (simp add: officeInv_def accountNet_snoc j(4) control_other depreciated_def w'(4))
  qed (use j(4,5) w' jr in \<open>auto simp: control_other\<close>)
qed

lemma updateExpense_fields [simp]:
  "of_bill (updateExpense i f w) = of_bill w" "of_assets (updateExpense i f w) = of_assets w" "of_depreciation (updateExpense i f w) = of_depreciation w"
  "of_expenses (updateExpense i f w) = map (\<lambda>r. if ex_ID r = i then f r else r) (of_expenses w)"
  by (simp_all add: updateExpense_def)

text \<open>A change of one expense with entries on the payables account.\<close>

lemma expense_change:
  assumes inv: "officeInv w" and "coreInv (of_bill w')" and j: "bl_journal (of_bill w') = bl_journal (of_bill w) @ js"
    and "bl_invoices (of_bill w') = bl_invoices (of_bill w)" and n: "bl_nextID (of_bill w) \<le> bl_nextID (of_bill w')"
    and net: "\<And>j. j \<in> set js \<Longrightarrow> entryNet acctAR j = 0 \<and> entryNet acctAccumDepreciation j = 0"
    and e: "of_expenses w' = map (\<lambda>r. if ex_ID r = i then f r else r) (of_expenses w)" "\<And>r. ex_ID (f r) = ex_ID r"
    and d: "of_assets w' = of_assets w" "of_depreciation w' = of_depreciation w"
    and "docsInv acctOperatingExpense acctAP acctAP (bl_journal (of_bill w) @ js) (map expDoc (of_expenses w'))"
  shows "officeInv w'"
proof (rule officeInv_side [OF inv assms(2,3,4)])
  have "\<forall>r \<in> set (of_expenses w). idBelow (bl_nextID (of_bill w')) (ex_ID r)"
    by (rule expenses_mono [of _ "bl_nextID (of_bill w)"]) (use inv n in \<open>simp_all add: officeInv_def\<close>)
  then show "\<forall>r \<in> set (of_expenses w'). idBelow (bl_nextID (of_bill w')) (ex_ID r)" using e by auto
  show "assetsInv w'" by (rule assetsInv_counter [of w]) (use inv d n in \<open>simp_all add: officeInv_def\<close>)
  show "accountNet acctAccumDepreciation (bl_journal (of_bill w')) = - depreciated w'"
    using inv net by (simp add: officeInv_def j accountNet_append accountNet_zero depreciated_def d)
qed (use assms(11) net j in simp_all)

lemma payment_keeps:
  assumes inv: "officeInv w" and x: "inInt64 amount" and c: "postAPPayment now i amount method txt actor src w = Inr (n, w')"
  shows "officeInv w'"
proof -
  have core: "coreInv (of_bill w)" and ap: "docsInv acctOperatingExpense acctAP acctAP (bl_journal (of_bill w)) (map expDoc (of_expenses w))"
    using inv by (simp_all add: officeInv_def)
  from c obtain r where pos: "0 < amount" and f: "findExpense i w = Some r"
    and g: "settleGuard amount (ex_Status r) (ex_Amount r) (ex_AmountPaid r) = None"
    by (auto simp: postAPPayment_def Let_def split: if_splits option.splits)
  from f have r: "r \<in> set (of_expenses w)" "ex_ID r = i" using find_row [of ex_ID i] unfolding findExpense_def by blast+
  have ok: "docOK acctOperatingExpense acctAP (bl_journal (of_bill w)) (expDoc r)" using ap r(1) by (auto simp: docsInv_def)
  then have s: "ex_Status r \<noteq> ''void''" "wrap64 (ex_AmountPaid r + amount) = ex_AmountPaid r + amount" "ex_AmountPaid r + amount \<le> ex_Amount r"
    using settleGuard_None [OF g pos x] by (auto simp: docOK_def doc_fields)
  define st where "st = recomputeInvoiceStatus (ex_AmountPaid r + amount) (ex_Amount r) (ex_DueDate r) now"
  let ?f = "\<lambda>r'. r'\<lparr>ex_AmountPaid := ex_AmountPaid r + amount, ex_Status := st\<rparr>"
  from c pos f g s(2) obtain e db1 t t' where p: "postJournal now t src t' [] actor [jline acctAP amount 0 t [], jline acctCash 0 amount t []] (of_bill w)
      = Inr (e, db1)"
    and b: "of_bill w' = snd (newID db1)" "of_expenses w' = map (\<lambda>r. if ex_ID r = i then ?f r else r) (of_expenses w)"
    and same: "of_assets w' = of_assets w" "of_depreciation w' = of_depreciation w"
    by (auto simp: postAPPayment_def Let_def bindE_pair st_def newID_def split: if_splits)
  from p obtain j where j: "db1 = (of_bill w)\<lparr>bl_nextID := Suc (bl_nextID (of_bill w)), bl_journal := bl_journal (of_bill w) @ [j]\<rparr>"
    "\<And>c. entryNet c j = pairNet acctAP acctCash amount c" "coreInv db1"
    using core by (elim post_pair) simp_all
  have docs: "map expDoc (of_expenses w') = map (\<lambda>e. if dc_ID e = dc_ID (expDoc r)
      then e\<lparr>dc_Paid := dc_Paid (expDoc r) + amount, dc_Status := st\<rparr> else e) (map expDoc (of_expenses w))"
    unfolding b(2) doc_fields r(2) by simp (simp add: expDoc_def)
  have "docsInv acctOperatingExpense acctAP acctAP (bl_journal (of_bill w) @ [j]) (map expDoc (of_expenses w'))"
    unfolding docs
  proof (rule payables.settle [OF ap])
    show "st \<noteq> ''void''" "st = ''paid'' \<longrightarrow> dc_Paid (expDoc r) + amount = dc_Total (expDoc r)"
      using recompute_status s(3) by (simp_all add: st_def doc_fields)
    show "entryNet acctAP j = pairNet acctOperatingExpense acctAP (- amount) acctAP" by (simp add: j(2) control_other)
  qed (use r s pos in \<open>simp_all add: doc_fields\<close>)
  then show ?thesis
    by (intro expense_change [OF inv, of _ "[j]" i ?f]) (use b same coreInv_newID [OF j(3)] in \<open>auto simp: j(1,2) control_other newID_def\<close>)
qed

lemma voidExpense_keeps:
  assumes inv: "officeInv w" and c: "voidExpense now i reason actor src w = Inr (u, w')"
  shows "officeInv w'"
proof -
  from c obtain r where f: "findExpense i w = Some r" by (auto simp: voidExpense_def split: option.splits)
  then have r: "r \<in> set (of_expenses w)" "ex_ID r = i" using find_row [of ex_ID i] unfolding findExpense_def by blast+
  have core: "coreInv (of_bill w)" and ap: "docsInv acctOperatingExpense acctAP acctAP (bl_journal (of_bill w)) (map expDoc (of_expenses w))"
    using inv by (simp_all add: officeInv_def)
  have "0 \<le> ex_AmountPaid r" using ap r(1) by (auto simp: docsInv_def docOK_def doc_fields)
  with c f obtain e db1 where st: "ex_Status r \<noteq> ''void''" "ex_AmountPaid r = 0"
    and rj: "(if ex_JournalEntryID r = [] then Inr ([], of_bill w) else reverseJournal now (ex_JournalEntryID r) ''void expense'' src i actor (of_bill w)) = Inr (e, db1)"
    and w': "w' = updateExpense i (\<lambda>r. r\<lparr>ex_Status := ''void'', ex_VoidedAt := Some now, ex_VoidedBy := actor, ex_VoidReason := reason, ex_VoidEntryID := e\<rparr>)
      (w\<lparr>of_bill := db1\<rparr>)"
    by (auto simp: voidExpense_def bindE_pair split: if_splits)
  from void_entry [OF core ap, of "expDoc r", unfolded doc_fields, OF _ st rj] r(1) obtain ks where
    ks: "bl_journal db1 = bl_journal (of_bill w) @ ks" "\<And>c. accountNet c ks = pairNet acctOperatingExpense acctAP (- ex_Amount r) c" "coreInv db1"
    "bl_nextID (of_bill w) \<le> bl_nextID db1" "bl_invoices db1 = bl_invoices (of_bill w)"
    "\<And>k c. k \<in> set ks \<Longrightarrow> entryNet c k = pairNet acctOperatingExpense acctAP (- ex_Amount r) c" by auto
  have docs: "map expDoc (of_expenses w') = map (\<lambda>e. if dc_ID e = dc_ID (expDoc r) then e\<lparr>dc_Status := ''void''\<rparr> else e) (map expDoc (of_expenses w))"
    unfolding w' updateExpense_fields doc_fields r(2) by simp (simp add: expDoc_def)
  have "docsInv acctOperatingExpense acctAP acctAP (bl_journal (of_bill w) @ ks) (map expDoc (of_expenses w'))"
    unfolding docs by (rule payables.void [OF ap]) (use r st ks(2) in \<open>auto simp: doc_fields\<close>)
  then show ?thesis
    by (intro expense_change [OF inv, of w' ks i "\<lambda>r. r\<lparr>ex_Status := ''void'', ex_VoidedAt := Some now, ex_VoidedBy := actor, ex_VoidReason := reason,
        ex_VoidEntryID := e\<rparr>"]) (use ks w' in \<open>auto simp: control_other\<close>)
qed

lemma accumulated_fresh: "\<forall>d \<in> set ds. idBelow n (dp_AssetID d) \<Longrightarrow> accumulated (formatUint n) ds = 0 \<and> monthsPosted (formatUint n) ds = 0"
proof -
  assume "\<forall>d \<in> set ds. idBelow n (dp_AssetID d)"
  then have "\<forall>d \<in> set ds. dp_AssetID d \<noteq> formatUint n" using idBelow_fresh [of ds n dp_AssetID] by (metis imageI)
  then have "filter (\<lambda>d. dp_AssetID d = formatUint n) ds = []" by (simp add: filter_empty_conv)
  then show ?thesis by (simp add: accumulated_def monthsPosted_def)
qed

lemma asset_keeps:
  assumes inv: "officeInv w" and c: "createFixedAsset now p w = Inr (i, w')"
  shows "officeInv w'"
proof -
  have core: "coreInv (of_bill w)" and ap: "docsInv acctOperatingExpense acctAP acctAP (bl_journal (of_bill w)) (map expDoc (of_expenses w))"
    and ids: "\<forall>r \<in> set (of_expenses w). idBelow (bl_nextID (of_bill w)) (ex_ID r)" and as: "assetsInv w" using inv by (simp_all add: officeInv_def)
  let ?t = "''acquire '' @ cf_Name p"
  from c obtain e db1 where guards: "0 < cf_UsefulLifeMonths p"
    and pj: "postJournal now ?t (cf_Source p) [] [] (cf_CreatedBy p) [jline acctFixedAssets (cf_Cost p) 0 ?t [], jline acctCash 0 (cf_Cost p) ?t []] (of_bill w) = Inr (e, db1)"
    and w': "w' = w\<lparr>of_bill := snd (newID db1), of_assets := of_assets w @ [\<lparr>fa_ID = formatUint (bl_nextID db1), fa_Name = cf_Name p, fa_Cost = cf_Cost p,
      fa_AcquiredDate = pgDate (cf_AcquiredDate p), fa_UsefulLifeMonths = cf_UsefulLifeMonths p, fa_SalvageValue = cf_SalvageValue p,
      fa_JournalEntryID = e, fa_CreatedBy = cf_CreatedBy p\<rparr>]\<rparr>"
    by (auto simp: createFixedAsset_def Let_def bindE_pair newID_def split: if_splits)
  define a where "a = last (of_assets w')"
  have a: "fa_ID a = formatUint (bl_nextID db1)" "fa_UsefulLifeMonths a = cf_UsefulLifeMonths p" "fa_SalvageValue a = cf_SalvageValue p" "fa_Cost a = cf_Cost p"
    and w: "w' = w\<lparr>of_bill := snd (newID db1), of_assets := of_assets w @ [a]\<rparr>"
    by (simp_all add: a_def w')
  from pj obtain j where j: "db1 = (of_bill w)\<lparr>bl_nextID := Suc (bl_nextID (of_bill w)), bl_journal := bl_journal (of_bill w) @ [j]\<rparr>"
    "\<And>c. entryNet c j = pairNet acctFixedAssets acctCash (cf_Cost p) c" "coreInv db1"
    using core by (elim post_pair) simp_all
  have as1: "assetsInv (w\<lparr>of_bill := db1\<rparr>)" by (rule assetsInv_counter [OF as]) (simp_all add: j(1))
  then have ds: "\<forall>d \<in> set (of_depreciation w). idBelow (bl_nextID db1) (dp_AssetID d)"
    and av: "\<forall>x \<in> set (of_assets w). idBelow (bl_nextID db1) (fa_ID x)" by (simp_all add: assetsInv_def)
  have "assetsInv (w\<lparr>of_bill := snd (newID db1)\<rparr>)" by (rule assetsInv_counter [OF as1]) (simp_all add: newID_def)
  moreover have "fa_ID a \<notin> fa_ID ` set (of_assets w)" using idBelow_fresh [OF av] by (simp add: a(1))
  ultimately have assets: "assetsInv w'" using accumulated_fresh [OF ds] guards a
    by (auto simp: assetsInv_def onSchedule_def depreciable_def w newID_def idBelow_this)
  show ?thesis
  proof (rule officeInv_side [OF inv, of _ "[j]"])
    show "docsInv acctOperatingExpense acctAP acctAP (bl_journal (of_bill w')) (map expDoc (of_expenses w'))"
      using payables.more_entries [OF ap, of "[j]"] by (simp add: w newID_def j(1,2) control_other)
    show "\<forall>r \<in> set (of_expenses w'). idBelow (bl_nextID (of_bill w')) (ex_ID r)"
      using expenses_mono [OF ids, of "bl_nextID (of_bill w')"] by (simp add: w newID_def j(1))
    show "accountNet acctAccumDepreciation (bl_journal (of_bill w')) = - depreciated w'"
      using inv by (simp add: officeInv_def w newID_def j(1,2) accountNet_snoc control_other depreciated_def)
  qed (use assets coreInv_newID [OF j(3)] in \<open>simp_all add: w newID_def j(1,2) control_other\<close>)
qed

lemma monthlyAmount_next:
  assumes "accumulated (fa_ID a) ds = min (depreciable a) (int k * (depreciable a div fa_UsefulLifeMonths a))" and "0 < monthlyAmount a ds"
  shows "accumulated (fa_ID a) ds + monthlyAmount a ds = min (depreciable a) (int (Suc k) * (depreciable a div fa_UsefulLifeMonths a))"
proof -
  let ?D = "fa_Cost a - fa_SalvageValue a" and ?m = "depreciable a div fa_UsefulLifeMonths a"
  have lt: "accumulated (fa_ID a) ds < ?D" using assms(2) by (auto simp: monthlyAmount_def Let_def split: if_splits)
  then have acc: "accumulated (fa_ID a) ds = int k * ?m" using assms(1) by (auto simp: depreciable_def min_def split: if_splits)
  show ?thesis
  proof (cases "0 < ?D")
    case True
    then show ?thesis using acc lt by (simp add: monthlyAmount_def Let_def depreciable_def min_def algebra_simps)
  next
    case False
    then show ?thesis using acc lt by (simp add: depreciable_def)
  qed
qed

lemma accumulated_snoc: "accumulated i (ds @ [d]) = accumulated i ds + (if dp_AssetID d = i then dp_Amount d else 0)"
  "monthsPosted i (ds @ [d]) = (if dp_AssetID d = i then Suc (monthsPosted i ds) else monthsPosted i ds)"
  by (simp_all add: accumulated_def monthsPosted_def)

text \<open>A posted month of depreciation.\<close>

lemma runDepreciation_posted:
  assumes "runDepreciation now i period actor src w = Inr (RunPosted, w')"
  obtains a db1 e where "a \<in> set (of_assets w)" and "fa_ID a = i" and "0 < monthlyAmount a (of_depreciation w)"
    and "postJournal now ''depreciation'' src [] [] actor [jline acctDepreciationExpense (monthlyAmount a (of_depreciation w)) 0 ''depreciation'' [],
           jline acctAccumDepreciation 0 (monthlyAmount a (of_depreciation w)) ''depreciation'' []] (of_bill w) = Inr (e, db1)"
    and "w' = w\<lparr>of_bill := db1, of_depreciation := of_depreciation w @ [\<lparr>dp_AssetID = i, dp_Period = monthStart period,
           dp_Amount = monthlyAmount a (of_depreciation w), dp_JournalEntryID = e\<rparr>]\<rparr>"
    and "\<forall>d \<in> set (of_depreciation w). dp_AssetID d = i \<longrightarrow> dp_Period d \<noteq> monthStart period"
proof -
  from assms obtain a where f: "find (\<lambda>a. fa_ID a = i) (of_assets w) = Some a" by (auto simp: runDepreciation_def Let_def split: option.splits)
  then have a: "a \<in> set (of_assets w)" "fa_ID a = i" using find_row [of fa_ID i] by blast+
  from assms f show thesis
    by (auto simp: runDepreciation_def Let_def bindE_pair list_ex_iff split: if_splits intro!: that [OF a])
qed

lemma depreciation_keeps:
  assumes inv: "officeInv w" and c: "runDepreciation now i period actor src w = Inr (RunPosted, w')"
  shows "officeInv w'"
  using c
proof (rule runDepreciation_posted)
  fix a db1 e
  let ?m = "monthlyAmount a (of_depreciation w)"
  assume a: "a \<in> set (of_assets w)" "fa_ID a = i" "0 < ?m"
    and pj: "postJournal now ''depreciation'' src [] [] actor [jline acctDepreciationExpense ?m 0 ''depreciation'' [],
           jline acctAccumDepreciation 0 ?m ''depreciation'' []] (of_bill w) = Inr (e, db1)"
    and w: "w' = w\<lparr>of_bill := db1, of_depreciation := of_depreciation w @ [\<lparr>dp_AssetID = i, dp_Period = monthStart period,
           dp_Amount = ?m, dp_JournalEntryID = e\<rparr>]\<rparr>"
    and once: "\<forall>d \<in> set (of_depreciation w). dp_AssetID d = i \<longrightarrow> dp_Period d \<noteq> monthStart period"
  have core: "coreInv (of_bill w)" and ap: "docsInv acctOperatingExpense acctAP acctAP (bl_journal (of_bill w)) (map expDoc (of_expenses w))"
    and ids: "\<forall>r \<in> set (of_expenses w). idBelow (bl_nextID (of_bill w)) (ex_ID r)" and as: "assetsInv w" using inv by (simp_all add: officeInv_def)
  from pj obtain j where j: "db1 = (of_bill w)\<lparr>bl_nextID := Suc (bl_nextID (of_bill w)), bl_journal := bl_journal (of_bill w) @ [j]\<rparr>"
    "\<And>c. entryNet c j = pairNet acctDepreciationExpense acctAccumDepreciation ?m c" "coreInv db1"
    using core by (elim post_pair) simp_all
  have as1: "assetsInv (w\<lparr>of_bill := db1\<rparr>)" by (rule assetsInv_counter [OF as]) (simp_all add: j(1))
  have sched: "onSchedule (of_depreciation w') x" if x: "x \<in> set (of_assets w)" for x
  proof (cases "fa_ID x = i")
    case True
    then have "x = a" using as a(1,2) x by (auto simp: assetsInv_def distinct_map inj_on_def)
    moreover have "onSchedule (of_depreciation w) a" using as a(1) by (simp add: assetsInv_def)
    ultimately show ?thesis using monthlyAmount_next [of a "of_depreciation w" "monthsPosted i (of_depreciation w)"] a
      by (simp add: onSchedule_def w accumulated_snoc)
  next
    case False
    then show ?thesis using as x by (simp add: assetsInv_def w onSchedule_def accumulated_snoc)
  qed
  have "idBelow (bl_nextID db1) i" using as1 a by (auto simp: assetsInv_def)
  with sched have assets: "assetsInv w'" using as1 once by (auto simp: assetsInv_def w)
  show ?thesis
  proof (rule officeInv_side [OF inv, of _ "[j]"])
    show "docsInv acctOperatingExpense acctAP acctAP (bl_journal (of_bill w')) (map expDoc (of_expenses w'))"
      using payables.more_entries [OF ap, of "[j]"] by (simp add: w j(1,2) control_other)
    show "\<forall>r \<in> set (of_expenses w'). idBelow (bl_nextID (of_bill w')) (ex_ID r)"
      using expenses_mono [OF ids, of "bl_nextID (of_bill w')"] by (simp add: w j(1))
    show "accountNet acctAccumDepreciation (bl_journal (of_bill w')) = - depreciated w'"
      using inv by (simp add: officeInv_def w j(1,2) accountNet_snoc control_other depreciated_def)
  qed (use assets j(3) in \<open>simp_all add: w j(1,2) control_other\<close>)
qed

lemma account_keeps:
  assumes inv: "officeInv w" and c: "createAccount code name ty st (of_bill w) = Inr (u, db)"
  shows "officeInv (w\<lparr>of_bill := db\<rparr>)"
proof -
  from c obtain a where a: "db = (of_bill w)\<lparr>bl_accounts := bl_accounts (of_bill w) @ [a]\<rparr>" "an_Code a = code"
    "\<not> list_ex (\<lambda>a. an_Code a = code) (bl_accounts (of_bill w))"
    by (auto simp: createAccount_def split: if_splits)
  then have "coreInv db" using inv by (auto simp: officeInv_def coreInv_def chartOK_def idsInv_def list_ex_iff)
  then show ?thesis using inv by (simp add: officeInv_def a(1) depreciated_def assetsInv_def)
qed

section \<open>Runs of the office\<close>

text \<open>
  The transactions of the office, each ending in any way, with every billing step in between. The amounts of a request are int64.
\<close>

inductive officeStep :: "Office \<Rightarrow> Office \<Rightarrow> bool" where
  billing: "billStep (of_bill w) db \<Longrightarrow> officeStep w (w\<lparr>of_bill := db\<rparr>)"
| invoice: "officeStep w (w\<lparr>of_bill := snd (endTx tend (createInvoice fl now p (of_bill w)) (of_bill w))\<rparr>)"
| invoiceVoid: "officeStep w (w\<lparr>of_bill := snd (endTx tend (voidInvoice now i reason actor src (of_bill w)) (of_bill w))\<rparr>)"
| receipt: "inInt64 amount \<Longrightarrow> officeStep w (snd (endTx tend (postARReceipt now i amount method txt actor src w) w))"
| payment: "inInt64 amount \<Longrightarrow> officeStep w (snd (endTx tend (postAPPayment now i amount method txt actor src w) w))"
| expense: "inInt64 (ce_Amount ep) \<Longrightarrow> officeStep w (snd (endTx tend (createExpense now ep w) w))"
| expenseVoid: "officeStep w (snd (endTx tend (voidExpense now i reason actor src w) w))"
| asset: "officeStep w (snd (endTx tend (createFixedAsset now ap w) w))"
| depreciation: "officeStep w (snd (runDepreciationHandler tend now i actor w))"
| account: "officeStep w (w\<lparr>of_bill := snd (endTx tend (createAccount code name ty st (of_bill w)) (of_bill w))\<rparr>)"

lemma officeStep_inv: "officeStep w w' \<Longrightarrow> officeInv w \<Longrightarrow> officeInv w'"
proof (induction rule: officeStep.induct)
  case (billing w db)
  then show ?case using billing_keeps by blast
next
  case (invoice w tend fl now p)
  then show ?case by (intro endTx_cases [where P = "\<lambda>db. officeInv (w\<lparr>of_bill := db\<rparr>)"]) (auto intro: invoice_keeps)
next
  case (invoiceVoid w tend now i reason actor src)
  then show ?case by (intro endTx_cases [where P = "\<lambda>db. officeInv (w\<lparr>of_bill := db\<rparr>)"]) (auto intro: voidInvoice_keeps)
next
  case (depreciation w tend now i actor)
  have "officeInv w2" if r: "runDepreciation now i now actor ''billing.depreciation'' w = Inr (x, w2)" and x: "x \<noteq> RunAgain" for x w2
  proof (cases x)
    case RunPosted
    then show ?thesis using depreciation_keeps [OF depreciation] r by blast
  next
    case RunNothing
    then have "w2 = w" using r by (auto simp: runDepreciation_def Let_def bindE_pair split: option.splits if_splits)
    then show ?thesis using depreciation by simp
  qed (use x in simp)
  then show ?case using depreciation unfolding runDepreciationHandler_def
    by (intro endTx_cases [where P = officeInv]) (auto simp: bindE_pair split: if_splits)
next
  case (account w tend code name ty st)
  then show ?case by (intro endTx_cases [where P = "\<lambda>db. officeInv (w\<lparr>of_bill := db\<rparr>)"]) (auto intro: account_keeps)
qed (rule endTx_cases [where P = officeInv]; blast intro: receipt_keeps payment_keeps expense_keeps voidExpense_keeps asset_keeps)+

interpretation office: kept officeStep officeInv
  by unfold_locales (rule officeStep_inv)

end
