(* ===== verification/BillReported.thy ===== *)
theory BillReported
  imports BillOfficed BillMoney
begin

text \<open>
  What the financial statements show in every reachable state of the office: the columns of the trial balance agree, the aging reports are the
  balances of the control accounts, no document is overpaid and assets follow their schedule. Two statements do not show what they should: no
  statement depends on its dates, and the balance sheet does not balance once an asset is depreciated.
\<close>

section \<open>What the statements sum up\<close>

lemma sum_sort: "(\<Sum>x \<leftarrow> sort_key k xs. g x) = ((\<Sum>x \<leftarrow> xs. g x) :: int)"
  by (metis mset_map mset_sort sum_mset_sum_list)

lemma sum_filter: "(\<Sum>x \<leftarrow> filter P xs. g x) = ((\<Sum>x \<leftarrow> xs. if P x then g x else 0) :: int)"
  by (induction xs) simp_all

definition journalSum :: "(jLine \<Rightarrow> int) \<Rightarrow> string \<Rightarrow> journalEntry list \<Rightarrow> int" where
  "journalSum f code js = (\<Sum>l \<leftarrow> concat (map je_Lines js). if jl_AccountCode l = code then f l else 0)"

text \<open>The sums of the joined rows do not depend on the condition of the second join.\<close>

lemma sumColumn_joined: "sumColumn f (joinedRows on js a) = journalSum f (an_Code a) js"
proof -
  let ?hits = "\<lambda>js. concat (map (\<lambda>j. map (\<lambda>l. (Some l, if on j then Some j else None)) (filter (\<lambda>l. jl_AccountCode l = an_Code a) (je_Lines j))) js)"
  have "sumColumn f (?hits js) = journalSum f (an_Code a) js"
    by (induction js) (simp_all add: sumColumn_def journalSum_def o_def sum_filter)
  moreover have "sumColumn f (joinedRows on js a) = sumColumn f (?hits js)"
    by (cases "?hits js = []") (simp_all only: joinedRows_def Let_def if_True if_False, simp add: sumColumn_def)
  ultimately show ?thesis by simp
qed

lemma journalSum_net: "journalSum jl_Debit c js - journalSum jl_Credit c js = accountNet c js"
  unfolding journalSum_def accountNet_concat by (simp add: sum_list_subtractf [symmetric] if_distrib cong: if_cong)

lemma balanceOf_any: "balanceOf on js = balanceOf on' js"
  by (rule ext) (simp add: balanceOf_def sumColumn_joined)

text \<open>
  The reporting dates have no effect. Profit and loss, cash flow and trial balance are the same figures for every period and every
  day: the condition on the entry's date stands in the second outer join, and the sums run over the lines of the first.
\<close>

theorem statements_ignore_dates:
  "trialBalance asOf db = trialBalance asOf' db
   \<and> accountBalanceRange from till types db = accountBalanceRange from' till' types db
   \<and> computeCashFlow from till db = computeCashFlow from' till' db
   \<and> map_sum id (\<lambda>pl. pl\<lparr>pl_From := 0, pl_To := 0\<rparr>) (computeProfitAndLoss from till db)
       = map_sum id (\<lambda>pl. pl\<lparr>pl_From := 0, pl_To := 0\<rparr>) (computeProfitAndLoss from' till' db)"
proof -
  have t: "trialBalance asOf db = trialBalance asOf' db" 
    unfolding trialBalance_def by (simp only: balanceOf_any [of "\<lambda>j. je_At j \<le> asOf" _ "\<lambda>j. je_At j \<le> asOf'"])
  have a: "accountBalanceRange from till ts db = accountBalanceRange from' till' ts db" for ts
    unfolding accountBalanceRange_def
    by (simp only: balanceOf_any [of "\<lambda>j. from \<le> je_At j \<and> je_At j < till" _ "\<lambda>j. from' \<le> je_At j \<and> je_At j < till'"])
  have "computeCashFlow from till db = computeCashFlow from' till' db" by (simp add: computeCashFlow_def sumColumn_joined)
  moreover have "map_sum id (\<lambda>pl. pl\<lparr>pl_From := 0, pl_To := 0\<rparr>) (computeProfitAndLoss from till db)
       = map_sum id (\<lambda>pl. pl\<lparr>pl_From := 0, pl_To := 0\<rparr>) (computeProfitAndLoss from' till' db)"
    by (cases "accountBalanceRange from' till' [''revenue'', ''expense''] db") (simp_all add: computeProfitAndLoss_def a Let_def)
  ultimately show ?thesis using t a by blast
qed

lemma pick_account:
  "distinct (map an_Code as) \<Longrightarrow> c \<in> set (map an_Code as) \<Longrightarrow> (\<Sum>a \<leftarrow> as. if c = an_Code a then x else 0) = (x :: int)"
proof (induction as)
  case (Cons a as)
  show ?case
  proof (cases "c = an_Code a")
    case True
    then have "map (\<lambda>a. if c = an_Code a then x else 0) as = map (\<lambda>_. 0) as" using Cons.prems by (intro map_cong) auto
    then have "(\<Sum>a \<leftarrow> as. if c = an_Code a then x else 0) = 0" by (simp only: sum_list_0)
    then show ?thesis using True by simp
  next
    case False
    then show ?thesis using Cons by auto
  qed
qed simp

lemma sum_accounts:
  assumes "distinct (map an_Code as)" and "\<And>l. l \<in> set ls \<Longrightarrow> jl_AccountCode l \<in> set (map an_Code as)"
  shows "(\<Sum>a \<leftarrow> as. \<Sum>l \<leftarrow> ls. if jl_AccountCode l = an_Code a then f l else 0) = ((\<Sum>l \<leftarrow> ls. f l) :: int)"
  using assms(2) by (induction ls) (simp_all add: sum_list_addf pick_account [OF assms(1)])

lemma journal_codes: "coreInv db \<Longrightarrow> l \<in> set (concat (map je_Lines (bl_journal db))) \<Longrightarrow> jl_AccountCode l \<in> set (map an_Code (bl_accounts db))"
  by (fastforce simp: coreInv_def chartOK_def postsTo_def systemCodes_def)

lemma journal_balanced:
  assumes "\<forall>j \<in> set js. entryOK j"
  shows "(\<Sum>l \<leftarrow> concat (map je_Lines js). jl_Debit l) = (\<Sum>l \<leftarrow> concat (map je_Lines js). jl_Credit l)"
  using assms by (induction js) (simp_all add: entryOK_def)

lemma totals_balance:
  assumes "coreInv db"
  shows "(\<Sum>a \<leftarrow> bl_accounts db. journalSum jl_Debit (an_Code a) (bl_journal db)) = (\<Sum>a \<leftarrow> bl_accounts db. journalSum jl_Credit (an_Code a) (bl_journal db))"
  unfolding journalSum_def using assms journal_codes [OF assms] journal_balanced [of "bl_journal db"]
  by (subst (1 2) sum_accounts) (auto simp: coreInv_def chartOK_def)

text \<open>
  The trial balance nets to zero. In every state the office and billing transactions can reach, the debits of all accounts add up to their credits.
\<close>

theorem trial_balance_nets_zero:
  assumes "officeStep\<^sup>*\<^sup>* w0 w" and "officeInv w0" and "trialBalance asOf (of_bill w) = Inr bs"
  shows "(\<Sum>b \<leftarrow> bs. ab_Debit b) = (\<Sum>b \<leftarrow> bs. ab_Credit b)"
proof -
  have "coreInv (of_bill w)" using office.run_keeps [OF assms(1,2)] by (simp add: officeInv_def)
  moreover have "bs = map (balanceOf (\<lambda>j. je_At j \<le> asOf) (bl_journal (of_bill w))) (sort_key an_Code (bl_accounts (of_bill w)))"
    using assms(3) by (auto simp: trialBalance_def scanBalances_def split: if_splits)
  ultimately show ?thesis by (simp add: o_def balanceOf_def sumColumn_joined sum_sort totals_balance)
qed

section \<open>The balance sheet\<close>

lemma wrap64_cong: "x mod 2 ^ 64 = y mod 2 ^ 64 \<Longrightarrow> wrap64 x = wrap64 y"
  unfolding wrap64_def by (metis mod_add_left_eq)

lemma wrap64_mod: "wrap64 x mod 2 ^ 64 = x mod 2 ^ 64"
  unfolding wrap64_def by (metis (no_types, lifting) add_diff_cancel_right' mod_diff_left_eq)

lemma wrap64_add_left: "wrap64 (wrap64 x + y) = wrap64 (x + y)"
  by (rule wrap64_cong) (metis mod_add_left_eq wrap64_mod)

lemma wrap64_add_right: "wrap64 (x + wrap64 y) = wrap64 (x + y)"
  using wrap64_add_left [of y x] by (simp add: add.commute)

lemma wrap64_diff_left: "wrap64 (wrap64 x - y) = wrap64 (x - y)"
  using wrap64_add_left [of x "- y"] by simp

lemma wrap64_diff_right: "wrap64 (x - wrap64 y) = wrap64 (x - y)"
  by (rule wrap64_cong) (metis mod_diff_right_eq wrap64_mod)

lemmas wrap64_simps = wrap64_add_left wrap64_add_right wrap64_diff_left wrap64_diff_right

lemma wrap64_zero: "wrap64 0 = 0"
  by (simp add: wrap64_def)

lemma collect_sum: "collect hit bs = wrap64 (\<Sum>b \<leftarrow> bs. if hit b then Balance b else 0)"
proof -
  have "foldl (\<lambda>acc b. if hit b then wrap64 (acc + Balance b) else acc) (wrap64 x) bs = wrap64 (x + (\<Sum>b \<leftarrow> bs. if hit b then Balance b else 0))" for x
    by (induction bs arbitrary: x) (simp_all add: wrap64_add_left add.assoc [symmetric])
  from this [of 0] show ?thesis by (simp add: collect_def wrap64_zero)
qed

definition signedNet :: "journalEntry list \<Rightarrow> account \<Rightarrow> int" where
  "signedNet js a = (if an_NormalBalance a = ''debit'' then accountNet (an_Code a) js else - accountNet (an_Code a) js)"

lemma Balance_balanceOf: "Balance (balanceOf on js a) = wrap64 (signedNet js a)"
  by (simp add: Balance_def balanceOf_def sumColumn_joined signedNet_def flip: journalSum_net)

lemma sum_wrap64: "wrap64 (\<Sum>x \<leftarrow> xs. if P x then wrap64 (g x) else 0) = wrap64 (\<Sum>x \<leftarrow> xs. if P x then g x else 0)"
proof (induction xs)
  case (Cons x xs)
  show ?case
  proof (cases "P x")
    case True
    have "wrap64 (wrap64 (g x) + (\<Sum>x \<leftarrow> xs. if P x then wrap64 (g x) else 0)) = wrap64 (g x + wrap64 (\<Sum>x \<leftarrow> xs. if P x then wrap64 (g x) else 0))"
      by (simp add: wrap64_simps)
    then show ?thesis using True Cons by (simp add: wrap64_simps)
  qed (simp add: Cons)
qed simp

text \<open>An account outside the seed has no lines.\<close>

lemma custom_account:
  assumes "coreInv db" and "a \<in> set (bl_accounts db)" and "a \<notin> set systemAccounts"
  shows "accountNet (an_Code a) (bl_journal db) = 0"
proof -
  have "an_Code a \<notin> systemCodes"
    using assms unfolding coreInv_def chartOK_def systemCodes_def distinct_map by (auto dest: inj_onD)
  then show ?thesis using assms(1) by (intro accountNet_zero) (auto simp: coreInv_def intro: entryNet_other)
qed

lemma sum_system:
  assumes "coreInv db"
  shows "(\<Sum>a \<leftarrow> bl_accounts db. if P a then signedNet (bl_journal db) a else 0) = (\<Sum>a \<leftarrow> systemAccounts. if P a then signedNet (bl_journal db) a else 0)"
proof -
  have d: "distinct (bl_accounts db)" "distinct systemAccounts" "set systemAccounts \<subseteq> set (bl_accounts db)"
    using assms by (auto simp: coreInv_def chartOK_def distinct_map systemAccounts_def sysAccount_def acct_defs)
  show ?thesis unfolding sum_list_distinct_conv_sum_set [OF d(1)] sum_list_distinct_conv_sum_set [OF d(2)]
    by (rule sum.mono_neutral_right) (use d(3) custom_account [OF assms] in \<open>auto simp: signedNet_def\<close>)
qed

lemma collect_accounts:
  assumes "coreInv db" and "\<And>a. hit (balanceOf on (bl_journal db) a) = h a"
  shows "collect hit (map (balanceOf on (bl_journal db)) (sort_key k (filter P (bl_accounts db))))
     = wrap64 (\<Sum>a \<leftarrow> systemAccounts. if P a \<and> h a then signedNet (bl_journal db) a else 0)"
proof -
  have "collect hit (map (balanceOf on (bl_journal db)) (sort_key k (filter P (bl_accounts db))))
      = wrap64 (\<Sum>a \<leftarrow> bl_accounts db. if P a then if h a then wrap64 (signedNet (bl_journal db) a) else 0 else 0)"
    by (simp add: collect_sum o_def assms(2) Balance_balanceOf sum_sort sum_filter cong: if_cong)
  also have "\<dots> = wrap64 (\<Sum>a \<leftarrow> bl_accounts db. if P a \<and> h a then wrap64 (signedNet (bl_journal db) a) else 0)"
    by (rule arg_cong [where f = wrap64], rule arg_cong [where f = sum_list]) simp
  finally show ?thesis unfolding sum_wrap64 sum_system [OF assms(1)] .
qed

lemma system_nets:
  assumes "coreInv db"
  shows "(\<Sum>a \<leftarrow> systemAccounts. accountNet (an_Code a) (bl_journal db)) = 0"
proof -
  have "(\<Sum>a \<leftarrow> systemAccounts. \<Sum>l \<leftarrow> concat (map je_Lines (bl_journal db)). if jl_AccountCode l = an_Code a then jl_Debit l - jl_Credit l else 0)
      = (\<Sum>l \<leftarrow> concat (map je_Lines (bl_journal db)). jl_Debit l - jl_Credit l)"
    by (rule sum_accounts)
      (use assms in \<open>auto simp: coreInv_def postsTo_def systemCodes_def, simp add: systemAccounts_def sysAccount_def acct_defs\<close>)
  then show ?thesis unfolding accountNet_concat using journal_balanced [of "bl_journal db"] assms by (simp add: sum_list_subtractf coreInv_def)
qed

lemma wrap64_equity: "wrap64 (wrap64 a - wrap64 b - wrap64 c) = wrap64 (a - b - c)"
  by (rule wrap64_cong, intro mod_diff_cong wrap64_mod)

lemma wrap64_income: "wrap64 (a + (wrap64 r - wrap64 c - wrap64 d - wrap64 e - f)) = wrap64 (a + (r - c - d - e - f))"
  by (rule wrap64_cong, intro mod_add_cong mod_diff_cong refl wrap64_mod)

text \<open>
  C35: the balance sheet is off by twice the accumulated depreciation. In every reachable state, assets minus liabilities minus equity is not
  zero but twice what has been depreciated (all in 64-bit arithmetic): the contra account \<open>1590\<close> is of type asset with a credit
  balance, and its balance is added to the assets.
\<close>

theorem balance_sheet_gap:
  assumes "officeStep\<^sup>*\<^sup>* w0 w" and "officeInv w0" and "computeBalanceSheet asOf (of_bill w) = Inr bs"
  shows "wrap64 (bs_Assets bs - bs_Liabilities bs - bs_Equity bs) = wrap64 (2 * depreciated w)"
proof -
  let ?db = "of_bill w" and ?js = "bl_journal (of_bill w)"
  let ?N = "\<lambda>c. accountNet c ?js"
  let ?on = "\<lambda>j. je_At j \<le> asOf" and ?in = "\<lambda>j. 0 \<le> je_At j \<and> je_At j < asOf"
  have core: "coreInv ?db" and dep: "accountNet acctAccumDepreciation ?js = - depreciated w"
    using office.run_keeps [OF assms(1,2)] by (simp_all add: officeInv_def)
  define tbl where "tbl = map (balanceOf ?on ?js) (sort_key an_Code (bl_accounts ?db))"
  define rng where "rng = map (balanceOf ?in ?js) (sort_key an_Code (filter (\<lambda>a. an_Type a \<in> {''revenue'', ''expense''}) (bl_accounts ?db)))"
  have tb: "trialBalance asOf ?db = Inr tbl" and ab: "accountBalanceRange 0 asOf [''revenue'', ''expense''] ?db = Inr rng"
    using assms(3) by (auto simp: computeBalanceSheet_def computeProfitAndLoss_def bindE_Inr trialBalance_def accountBalanceRange_def scanBalances_def
        tbl_def rng_def split: if_splits)
  have all: "bl_accounts ?db = filter (\<lambda>_. True) (bl_accounts ?db)" by simp
  have types: "collect (\<lambda>b. ab_Type b = ty) tbl = wrap64 (\<Sum>a \<leftarrow> systemAccounts. if an_Type a = ty then signedNet ?js a else 0)" for ty
    unfolding tbl_def by (subst all, subst collect_accounts [OF core, where h = "\<lambda>a. an_Type a = ty"]) (simp_all add: balanceOf_def)
  have codes: "collect (\<lambda>b. P (ab_Code b)) rng
      = wrap64 (\<Sum>a \<leftarrow> systemAccounts. if an_Type a \<in> {''revenue'', ''expense''} \<and> P (an_Code a) then signedNet ?js a else 0)" for P
    unfolding rng_def by (subst collect_accounts [OF core, where h = "\<lambda>a. P (an_Code a)"]) (simp_all add: balanceOf_def)
  note system = systemAccounts_def sysAccount_def signedNet_def
  have assets: "collect (\<lambda>b. ab_Type b = ''asset'') tbl = wrap64 (?N acctCash + ?N acctBank + ?N acctAR + ?N acctFixedAssets - ?N acctAccumDepreciation)"
    and liabilities: "collect (\<lambda>b. ab_Type b = ''liability'') tbl = wrap64 (- ?N acctAP - ?N acctAgentWallet - ?N acctCostSuspense)"
    and capital: "collect (\<lambda>b. ab_Type b = ''equity'') tbl = wrap64 (- ?N acctOwnerCapital - ?N acctRetainedEarnings)"
    unfolding types by (simp_all add: system algebra_simps)
  have revenue: "collect (\<lambda>b. ab_Code b = acctRevenue \<or> ab_Code b = acctOtherRevenue) rng = wrap64 (- ?N acctRevenue - ?N acctOtherRevenue)"
    using codes [of "\<lambda>c. c = acctRevenue \<or> c = acctOtherRevenue"] by (simp add: system acct_defs algebra_simps)
  have expense: "collect (\<lambda>b. ab_Code b = c) rng = wrap64 (?N c)" if "c \<in> {acctCOGS, acctCommissionExpense, acctOperatingExpense, acctDepreciationExpense}" for c
    using codes [of "\<lambda>x. x = c"] that by (auto simp: system acct_defs)
  have sheet: "bs_Assets bs = wrap64 (?N acctCash + ?N acctBank + ?N acctAR + ?N acctFixedAssets - ?N acctAccumDepreciation)"
    "bs_Liabilities bs = wrap64 (- ?N acctAP - ?N acctAgentWallet - ?N acctCostSuspense)"
    "bs_Equity bs = wrap64 (- ?N acctOwnerCapital - ?N acctRetainedEarnings + (- ?N acctRevenue - ?N acctOtherRevenue - ?N acctCOGS
       - ?N acctCommissionExpense - ?N acctOperatingExpense - ?N acctDepreciationExpense))"
    using assms(3) by (auto simp: computeBalanceSheet_def computeProfitAndLoss_def tb ab Let_def assets liabilities capital revenue expense wrap64_simps wrap64_income)
  have "?N acctCash + ?N acctBank + ?N acctAR + ?N acctFixedAssets + ?N acctAccumDepreciation + ?N acctAP + ?N acctAgentWallet + ?N acctCostSuspense
      + ?N acctOwnerCapital + ?N acctRetainedEarnings + ?N acctRevenue + ?N acctOtherRevenue + ?N acctCOGS + ?N acctCommissionExpense
      + ?N acctOperatingExpense + ?N acctDepreciationExpense = 0"
    using system_nets [OF core] by (simp add: systemAccounts_def sysAccount_def)
  then show ?thesis unfolding sheet wrap64_equity using dep by (intro arg_cong [where f = wrap64]) simp
qed

section \<open>Aging, depreciation, void\<close>

lemma agingBucket_known: "agingBucketOf asOf due \<in> set agingBuckets"
  by (simp add: agingBucketOf_def agingBuckets_def Let_def)

lemma bucket_split:
  assumes "distinct bs" and "\<And>x. x \<in> set xs \<Longrightarrow> f x \<in> set bs"
  shows "(\<Sum>b \<leftarrow> bs. \<Sum>x \<leftarrow> xs. if f x = b then g x else 0) = ((\<Sum>x \<leftarrow> xs. g x) :: int)"
proof -
  have one: "(\<Sum>b \<leftarrow> bs. if y = b then z else 0) = (z :: int)" if "y \<in> set bs" for y z
    using assms(1) that by (simp add: sum_list_distinct_conv_sum_set sum.delta)
  show ?thesis using assms(2) by (induction xs) (simp_all add: sum_list_addf one)
qed

lemma agingTotal: "(\<Sum>(b, x) \<leftarrow> agingRows asOf receivable w. x) = (\<Sum>(due, amount, paid) \<leftarrow> openDocuments receivable w. amount - paid)"
proof -
  let ?docs = "openDocuments receivable w" and ?amt = "\<lambda>(due :: gotime, amount, paid). amount - paid :: int"
  let ?f = "\<lambda>(due, amount :: int, paid :: int). agingBucketOf asOf due"
  let ?in = "\<lambda>b. filter (\<lambda>(due, amount, paid). agingBucketOf asOf due = b) ?docs"
  have drop: "(\<Sum>b \<leftarrow> filter (\<lambda>b. xs b \<noteq> []) bs. \<Sum>x \<leftarrow> xs b. ?amt x) = (\<Sum>b \<leftarrow> bs. \<Sum>x \<leftarrow> xs b. ?amt x)" for xs and bs :: "string list"
    by (induction bs) simp_all
  have "(\<Sum>(b, x) \<leftarrow> agingRows asOf receivable w. x) = (\<Sum>b \<leftarrow> filter (\<lambda>b. ?in b \<noteq> []) agingBuckets. \<Sum>x \<leftarrow> ?in b. ?amt x)"
    by (simp add: agingRows_def Let_def o_def)
  also have "\<dots> = (\<Sum>b \<leftarrow> agingBuckets. \<Sum>x \<leftarrow> ?docs. if ?f x = b then ?amt x else 0)"
    unfolding drop by (simp add: sum_filter split_def cong: if_cong)
  also have "\<dots> = (\<Sum>x \<leftarrow> ?docs. ?amt x)"
    by (rule bucket_split) (auto simp: agingBucket_known, simp add: agingBuckets_def)
  finally show ?thesis by simp
qed

lemma open_receivable:
  assumes "docsInv dr cr acct js (map invDoc rs)"
  shows "(\<Sum>r \<leftarrow> filter (\<lambda>r. iv_Status r \<notin> {''paid'', ''void''}) rs. iv_Total r - iv_AmountPaid r) = outstanding (map invDoc rs)"
proof -
  have "\<forall>r \<in> set rs. iv_Status r = ''paid'' \<longrightarrow> iv_AmountPaid r = iv_Total r" using assms by (auto simp: docsInv_def docOK_def doc_fields)
  then show ?thesis unfolding outstanding_def by (induction rs) (auto simp: openAmount_def doc_fields)
qed

lemma open_payable:
  assumes "docsInv dr cr acct js (map expDoc rs)"
  shows "(\<Sum>r \<leftarrow> filter (\<lambda>r. ex_Status r \<notin> {''paid'', ''void''}) rs. ex_Amount r - ex_AmountPaid r) = outstanding (map expDoc rs)"
proof -
  have "\<forall>r \<in> set rs. ex_Status r = ''paid'' \<longrightarrow> ex_AmountPaid r = ex_Amount r" using assms by (auto simp: docsInv_def docOK_def doc_fields)
  then show ?thesis unfolding outstanding_def by (induction rs) (auto simp: openAmount_def doc_fields)
qed

text \<open>
  C14: receivables and payables reconcile. After any run of office and billing transactions, however each ends, the aging report of the
  open invoices adds up to the balance of the receivables account, and that of the open expenses to the payables account.
\<close>

theorem aging_reconciles:
  assumes "officeStep\<^sup>*\<^sup>* w0 w" and "officeInv w0" and "computeAging asOf True w = Inr ar" and "computeAging asOf False w = Inr ap"
  shows "(\<Sum>(b, x) \<leftarrow> ar. x) = accountNet acctAR (bl_journal (of_bill w)) \<and> (\<Sum>(b, x) \<leftarrow> ap. x) = - accountNet acctAP (bl_journal (of_bill w))"
proof -
  have docs: "docsInv acctAR acctRevenue acctAR (bl_journal (of_bill w)) (map invDoc (bl_invoices (of_bill w)))"
    "docsInv acctOperatingExpense acctAP acctAP (bl_journal (of_bill w)) (map expDoc (of_expenses w))"
    using office.run_keeps [OF assms(1,2)] by (simp_all add: officeInv_def)
  then have "accountNet acctAR (bl_journal (of_bill w)) = outstanding (map invDoc (bl_invoices (of_bill w)))"
    and "accountNet acctAP (bl_journal (of_bill w)) = - outstanding (map expDoc (of_expenses w))"
    unfolding docsInv_def by (simp_all only: control_other)
  moreover have "ar = agingRows asOf True w" "ap = agingRows asOf False w" using assms(3,4) by (auto simp: computeAging_def Let_def split: if_splits)
  ultimately show ?thesis using open_receivable [OF docs(1)] open_payable [OF docs(2)] by (simp add: agingTotal openDocuments_def o_def)
qed

text \<open>
  No document is overpaid. In every reachable state what is paid on an invoice or an expense lies between zero and its total.
\<close>

theorem never_overpaid:
  assumes "officeStep\<^sup>*\<^sup>* w0 w" and "officeInv w0"
  shows "(\<forall>r \<in> set (bl_invoices (of_bill w)). 0 \<le> iv_AmountPaid r \<and> iv_AmountPaid r \<le> iv_Total r)
     \<and> (\<forall>r \<in> set (of_expenses w). 0 \<le> ex_AmountPaid r \<and> ex_AmountPaid r \<le> ex_Amount r)"
  using office.run_keeps [OF assms] by (auto simp: officeInv_def docsInv_def docOK_def doc_fields)

text \<open>
  C31: the depreciation schedule. In every reachable state an asset's accumulated depreciation is the number of posted months times the
  depreciable amount divided (rounding down) by the useful life, and never more than the depreciable amount. So an asset whose depreciable
  amount is below its life in months is never depreciated, and one that does not divide evenly takes longer than its life.
\<close>

theorem depreciation_schedule:
  assumes "officeStep\<^sup>*\<^sup>* w0 w" and "officeInv w0" and "a \<in> set (of_assets w)"
  shows "accumulated (fa_ID a) (of_depreciation w)
       = min (max 0 (fa_Cost a - fa_SalvageValue a))
             (int (monthsPosted (fa_ID a) (of_depreciation w)) * (max 0 (fa_Cost a - fa_SalvageValue a) div fa_UsefulLifeMonths a))"
  using office.run_keeps [OF assms(1,2)] assms(3) by (auto simp: officeInv_def assetsInv_def onSchedule_def depreciable_def)

text \<open>
  A void undoes an invoice. Creating an invoice and voiding it leaves the balance of every account as it was.
\<close>

theorem void_undoes_invoice:
  assumes "officeInv w" and "createInvoice fl now p (of_bill w) = Inr (i, db1)" and "voidInvoice later_now i reason actor src db1 = Inr (u, db2)"
  shows "accountNet c (bl_journal db2) = accountNet c (bl_journal (of_bill w))"
proof -
  let ?w1 = "w\<lparr>of_bill := db1\<rparr>"
  have core: "coreInv (of_bill w)" using assms(1) by (simp add: officeInv_def)
  from assms(2) core obtain r js where r: "bl_journal db1 = bl_journal (of_bill w) @ js" "bl_invoices db1 = bl_invoices (of_bill w) @ [r]" "iv_ID r = i"
    and st: "iv_AmountPaid r = 0" "iv_Status r = ''unpaid''"
    and j: "js = [] \<and> iv_Total r = 0 \<and> iv_JournalEntryID r = []
      \<or> (\<exists>j. js = [j] \<and> je_ID j = iv_JournalEntryID r \<and> iv_JournalEntryID r \<noteq> [] \<and> (\<forall>c. entryNet c j = pairNet acctAR acctRevenue (iv_Total r) c))"
    by (rule createInvoice_Inr) blast
  have inv1: "officeInv ?w1" by (rule invoice_keeps [OF assms(1,2)])
  then have core1: "coreInv db1" and ar1: "docsInv acctAR acctRevenue acctAR (bl_journal db1) (map invDoc (bl_invoices db1))" by (simp_all add: officeInv_def)
  have "iv_ID r \<notin> iv_ID ` set (bl_invoices (of_bill w))" using core1 by (simp add: coreInv_def idsInv_def r(2))
  then have "iv_ID x \<noteq> i" if "x \<in> set (bl_invoices (of_bill w))" for x using that by (metis imageI r(3))
  then have "find (\<lambda>x. iv_ID x = i) (bl_invoices (of_bill w)) = None" by (simp add: find_None_iff)
  then have f: "findInvoice i db1 = Some r" by (simp add: findInvoice_def r(2,3) find_skip)
  from assms(3) f st obtain e db3 where rj: "(if iv_JournalEntryID r = [] then Inr ([], db1)
      else reverseJournal later_now (iv_JournalEntryID r) ''void invoice'' src i actor db1) = Inr (e, db3)" and d2: "bl_journal db2 = bl_journal db3"
    by (auto simp: voidInvoice_def bindE_pair split: if_splits)
  obtain ks where "bl_journal db3 = bl_journal db1 @ ks" "accountNet c ks = pairNet acctAR acctRevenue (- iv_Total r) c"
    by (rule void_entry [OF core1 ar1, of "invDoc r", unfolded doc_fields, OF _ _ st(1) rj]) (use st r(2) in simp_all)
  moreover have "accountNet c js = pairNet acctAR acctRevenue (iv_Total r) c" using j by (auto simp: accountNet_def pairNet_def entryNet_def)
  ultimately show ?thesis by (simp add: d2 r(1) accountNet_append pairNet_def)
qed

section \<open>A sample office\<close>

text \<open>A new office buys a rack for 1200, to be used for twelve months, and depreciates it once. Then it issues an invoice and voids it.\<close>

definition sampleOffice :: Office where
  "sampleOffice = \<lparr>of_bill = sampleBill, of_receipts = [], of_receiptSeq = 1, of_expenses = [], of_expenseSeq = 1, of_payments = [],
     of_paymentSeq = 1, of_assets = [], of_depreciation = []\<rparr>"

definition sampleAsset :: createFixedAssetParams where
  "sampleAsset = \<lparr>cf_Name = ''rack'', cf_Cost = 1200, cf_AcquiredDate = 0, cf_UsefulLifeMonths = 12, cf_SalvageValue = 0,
     cf_CreatedBy = ''M1'', cf_Source = ''panel''\<rparr>"

definition sampleBought :: Office where
  "sampleBought = snd (endTx Committed (createFixedAsset second sampleAsset sampleOffice) sampleOffice)"

definition sampleBooks :: Office where
  "sampleBooks = snd (runDepreciationHandler Committed (2 * second) (formatUint 2) ''M1'' sampleBought)"

lemma sample_office: "officeInv sampleOffice"
  by (simp add: officeInv_def coreInv_def idsInv_def chartOK_def docsInv_def assetsInv_def sampleOffice_def sampleBill_def systemAccounts_def
      sysAccount_def accountNet_def outstanding_def depreciated_def pairNet_def acct_defs)

lemma sample_run: "officeStep\<^sup>*\<^sup>* sampleOffice sampleBooks"
  by (rule rtranclp_trans [of _ _ sampleBought]) (auto simp: sampleBought_def sampleBooks_def intro: officeStep.asset officeStep.depreciation)

lemma sample_depreciated: "depreciated sampleBooks = 100" by code_simp

lemma sample_sheet: "\<exists>bs. computeBalanceSheet (3 * second) (of_bill sampleBooks) = Inr bs"
proof -
  have "\<not> isl (computeBalanceSheet (3 * second) (of_bill sampleBooks))" by code_simp
  then show ?thesis by (auto simp: isl_def) (metis sum.exhaust)
qed

lemma sample_trial: "\<exists>bs. trialBalance (3 * second) (of_bill sampleBooks) = Inr bs"
  using sample_sheet by (auto simp: computeBalanceSheet_def bindE_def split: sum.splits)

theorem trial_balance_nets_zero_witness:
  "\<exists>bs. trialBalance (3 * second) (of_bill sampleBooks) = Inr bs \<and> (\<Sum>b \<leftarrow> bs. ab_Debit b) = (\<Sum>b \<leftarrow> bs. ab_Credit b)"
  using trial_balance_nets_zero [OF sample_run sample_office] sample_trial by blast

theorem balance_sheet_gap_witness:
  "\<exists>bs. computeBalanceSheet (3 * second) (of_bill sampleBooks) = Inr bs \<and> wrap64 (bs_Assets bs - bs_Liabilities bs - bs_Equity bs) = 200"
proof -
  have "wrap64 200 = 200" by (simp add: wrap64_def)
  then show ?thesis using balance_sheet_gap [OF sample_run sample_office] sample_sheet by (auto simp: sample_depreciated)
qed

definition sampleInvoice :: createInvoiceParams where
  "sampleInvoice = \<lparr>ci_SubscriberID = ''S1'', ci_Mode = ''full'', ci_IssueDate = 0, ci_DueDate = 30 * dayLength, ci_TaxRatePct = 10,
     ci_Lines = [\<lparr>li_Description = ''setup'', li_Category = ''service'', li_Quantity = 2, li_UnitPrice = 50\<rparr>], ci_Memo = '''',
     ci_CreatedBy = ''M1'', ci_Source = ''panel''\<rparr>"

definition sampleIssued :: Office where
  "sampleIssued = sampleOffice\<lparr>of_bill := snd (endTx Committed (createInvoice id second sampleInvoice (of_bill sampleOffice)) (of_bill sampleOffice))\<rparr>"

lemma sample_issued: "officeStep\<^sup>*\<^sup>* sampleOffice sampleIssued"
  unfolding sampleIssued_def by (rule r_into_rtranclp, rule officeStep.invoice)

theorem aging_reconciles_witness:
  "computeAging second True sampleIssued = Inr [(''current'', 110)] \<and> accountNet acctAR (bl_journal (of_bill sampleIssued)) = 110"
proof -
  have rows: "computeAging second True sampleIssued = Inr [(''current'', 110)]" "computeAging second False sampleIssued = Inr []" by code_simp+
  show ?thesis using aging_reconciles [OF sample_issued sample_office rows] rows(1) by simp
qed

theorem never_overpaid_witness: "iv_AmountPaid (hd (bl_invoices (of_bill sampleIssued))) \<le> iv_Total (hd (bl_invoices (of_bill sampleIssued)))"
proof -
  have "bl_invoices (of_bill sampleIssued) \<noteq> []" by code_simp
  then show ?thesis using never_overpaid [OF sample_issued sample_office] hd_in_set by blast
qed

theorem depreciation_schedule_witness: "\<exists>a \<in> set (of_assets sampleBooks). accumulated (fa_ID a) (of_depreciation sampleBooks) = 100"
proof -
  define a where "a = last (of_assets sampleBooks)"
  have "of_assets sampleBooks \<noteq> []" by code_simp
  then have "a \<in> set (of_assets sampleBooks)" unfolding a_def by simp
  moreover have "monthsPosted (fa_ID a) (of_depreciation sampleBooks) = 1" "fa_Cost a = 1200" "fa_SalvageValue a = 0" "fa_UsefulLifeMonths a = 12"
    unfolding a_def by code_simp+
  ultimately show ?thesis using depreciation_schedule [OF sample_run sample_office, of a] by (intro bexI [of _ a]) simp_all
qed

definition sampleVoid :: "BillErr + unit \<times> Bill" where
  "sampleVoid = voidInvoice (2 * second) (formatUint 1) ''typo'' ''M1'' ''panel'' (of_bill sampleIssued)"

theorem void_undoes_invoice_witness: "ran sampleVoid \<and> accountNet acctRevenue (bl_journal (snd (projr sampleVoid))) = 0"
proof -
  let ?c = "createInvoice id second sampleInvoice (of_bill sampleOffice)"
  have ran: "ran ?c" "ran sampleVoid" and "fst (projr ?c) = formatUint 1" by code_simp+
  then obtain d where d: "?c = Inr (formatUint 1, d)" using ranD [OF ran(1)] by metis
  then have c: "?c = Inr (formatUint 1, of_bill sampleIssued)" by (simp add: sampleIssued_def endTx_def)
  show ?thesis using void_undoes_invoice [OF sample_office c ranD [OF ran(2), unfolded sampleVoid_def]] ran(2)
    by (simp add: sampleOffice_def sampleBill_def accountNet_def sampleVoid_def)
qed

end
