(* ===== verification/AuthPerms.thy ===== *)
theory AuthPerms
  imports Prelude
begin

text \<open>
  Managers, roles and permissions of the panel (\<^verbatim>\<open>backend/internal/auth\<close>: \<^verbatim>\<open>permissions.go\<close>, \<^verbatim>\<open>roles.go\<close>, \<^verbatim>\<open>roles_api.go\<close>,
  \<^verbatim>\<open>managers_store.go\<close>, \<^verbatim>\<open>managers_api.go\<close>, \<^verbatim>\<open>managers_security_api.go\<close>, and the identity of a request from \<^verbatim>\<open>middleware.go\<close>).

  The tables are lists in the record \<open>AuthDB\<close>. A handler gets the acting manager, the request and what fails: \<open>down s\<close> says that the statement
  named \<open>s\<close> fails without effect. It answers with the HTTP status and error code, or with its result. Ids are opaque; an id
  without a row and a malformed id get the same answer.
\<close>

section \<open>Data\<close>

text \<open>Optional contact fields of a manager, in the order full name, phone, email, address, notes.\<close>

type_synonym managerProfile = "string option list"

record managerAuthRow =
  mr_ID :: string
  mr_Username :: string
  mr_PasswordHash :: string
  mr_Role :: string
  mr_RoleID :: "string option"
  mr_Scoped :: bool
  mr_Disabled :: bool
  mr_TOTPEnabled :: bool
  mr_TOTPSecretEnc :: string
  mr_TOTPPendingEnc :: string
  mr_Profile :: managerProfile

record roleRow =
  ro_ID :: string
  ro_Name :: string
  ro_Description :: string
  ro_IsBuiltin :: bool
  ro_Require2FA :: bool
  ro_Permissions :: "string list"

record overrideRow =
  ov_ManagerID :: string
  ov_Permission :: string
  ov_Granted :: bool

record panelSession =
  se_ID :: string
  se_ManagerID :: string
  se_RefreshHash :: string
  se_UA :: string
  se_IP :: string
  se_CreatedAt :: gotime
  se_LastSeenAt :: gotime
  se_Revoked :: bool

record backupCode =
  bc_ManagerID :: string
  bc_Hash :: string
  bc_UsedAt :: "gotime option"

record allowlistRow =
  al_ManagerID :: string
  al_CIDR :: string
  al_Note :: string

record auditRow =
  ad_Actor :: string
  ad_Action :: string
  ad_EntityType :: string
  ad_EntityID :: string

record AuthDB =
  au_managers :: "managerAuthRow list"
  au_roles :: "roleRow list"
  au_overrides :: "overrideRow list"
  au_sessions :: "panelSession list"
  au_backupCodes :: "backupCode list"
  au_allowlist :: "allowlistRow list"
  au_audit :: "auditRow list"
  au_nextID :: nat
  au_ledgerActors :: "string list"

text \<open>The authenticated caller.\<close>

record Manager =
  ma_ID :: string
  ma_Role :: string
  ma_Scoped :: bool
  ma_SessionID :: string
  ma_IP :: string
  ma_UA :: string
  ma_Perms :: "string list option"
  ma_AllowedIPs :: "string list"

datatype 'a reply = OK 'a | Err nat string

section \<open>Permissions\<close>

definition RoleAdmin :: string where "RoleAdmin = ''admin''"
definition RoleOperator :: string where "RoleOperator = ''operator''"
definition RoleAgent :: string where "RoleAgent = ''agent''"
definition permWildcard :: string where "permWildcard = ''*''"

definition rolePermissions :: "string \<Rightarrow> string list" where
  "rolePermissions role =
     (if role = RoleOperator
      then [''subscribers.view'', ''subscribers.create'', ''subscribers.edit'', ''profiles.view'', ''nas.view'', ''pools.view'', ''live.view'',
            ''sessions.view'', ''reports.view'', ''audit.view'', ''renew'', ''disconnect'', ''topup'', ''export'']
      else if role = RoleAgent then [''subscribers.view'', ''reports.view'', ''renew'']
      else [])"

definition roleCan :: "string \<Rightarrow> string \<Rightarrow> bool" where
  "roleCan role perm \<longleftrightarrow> role = RoleAdmin \<or> perm \<in> set (rolePermissions role)"

definition Can :: "Manager \<Rightarrow> string \<Rightarrow> bool" where
  "Can m perm = (case ma_Perms m of Some ps \<Rightarrow> permWildcard \<in> set ps \<or> perm \<in> set ps | None \<Rightarrow> roleCan (ma_Role m) perm)"

definition ScopeFilter :: "Manager option \<Rightarrow> string option" where
  "ScopeFilter mgr = (case mgr of None \<Rightarrow> None | Some m \<Rightarrow> if ma_Scoped m then Some (ma_ID m) else None)"

definition lookupManagerByID :: "string \<Rightarrow> AuthDB \<Rightarrow> managerAuthRow option" where
  "lookupManagerByID i db = find (\<lambda>m. mr_ID m = i) (au_managers db)"

definition lookupManagerByUsername :: "string \<Rightarrow> AuthDB \<Rightarrow> managerAuthRow option" where
  "lookupManagerByUsername u db = find (\<lambda>m. mr_Username m = u) (au_managers db)"

definition getRole :: "string \<Rightarrow> AuthDB \<Rightarrow> roleRow option" where
  "getRole i db = find (\<lambda>r. ro_ID r = i) (au_roles db)"

definition roleNamed :: "string \<Rightarrow> AuthDB \<Rightarrow> roleRow option" where
  "roleNamed n db = find (\<lambda>r. ro_Name r = n) (au_roles db)"

text \<open>The first query of \<^verbatim>\<open>resolvePermissions\<close>: the rows of the joined role. No row means no role, or a role without permissions.\<close>

definition joinedPermissions :: "string \<Rightarrow> AuthDB \<Rightarrow> string list" where
  "joinedPermissions i db =
     (case Option.bind (lookupManagerByID i db) mr_RoleID of
        None \<Rightarrow> []
      | Some rid \<Rightarrow> (case getRole rid db of None \<Rightarrow> [] | Some r \<Rightarrow> ro_Permissions r))"

definition applyOverride :: "string list \<Rightarrow> overrideRow \<Rightarrow> string list" where
  "applyOverride ps x = (if ov_Granted x then List.insert (ov_Permission x) ps else removeAll (ov_Permission x) ps)"

definition overridesOf :: "string \<Rightarrow> AuthDB \<Rightarrow> overrideRow list" where
  "overridesOf i db = filter (\<lambda>x. ov_ManagerID x = i) (au_overrides db)"

definition resolvePermissions :: "string \<Rightarrow> AuthDB \<Rightarrow> string list" where
  "resolvePermissions i db =
     (let rows = joinedPermissions i db;
          base = (if rows \<noteq> [] then rows
                  else case lookupManagerByID i db of
                         None \<Rightarrow> []
                       | Some m \<Rightarrow> (if mr_Role m = RoleAdmin then [permWildcard] else []) @ rolePermissions (mr_Role m))
      in foldl applyOverride (remdups base) (overridesOf i db))"

section \<open>Roles\<close>

definition permissionCatalog :: "(string \<times> string list) list" where
  "permissionCatalog =
     [(''subscribers'', [''subscribers.view'', ''subscribers.create'', ''subscribers.edit'', ''subscribers.delete'']),
      (''profiles'', [''profiles.view'', ''profiles.create'', ''profiles.edit'', ''profiles.delete'']),
      (''nas'', [''nas.view'', ''nas.create'', ''nas.edit'', ''nas.delete'', ''nas.reboot'', ''nas.update'']),
      (''pools'', [''pools.view'', ''pools.create'', ''pools.edit'', ''pools.delete'']),
      (''billing'', [''billing.view'', ''billing.create'', ''billing.edit'', ''currency_rates.manage'', ''overheads.manage'',
         ''reseller_prices.manage'', ''payment_providers.manage'', ''payment_tickets.verify'']),
      (''accounting'', [''accounting.view'', ''accounting.manage'']),
      (''invoices'', [''invoices.view'', ''invoices.create'', ''invoices.manage'', ''invoices.no_charge'']),
      (''expenses'', [''expenses.view'', ''expenses.create'', ''expenses.manage'']),
      (''approvals'', [''approvals.manage'']),
      (''vouchers'', [''vouchers.view'', ''vouchers.create'', ''vouchers.edit'']),
      (''cards'', [''cards.view'', ''cards.create'', ''cards.edit'', ''cards.print'']),
      (''monitoring'', [''monitoring.view'', ''monitoring.create'', ''monitoring.edit'', ''monitoring.delete'']),
      (''reports'', [''reports.view'']),
      (''settings'', [''settings.view'', ''settings.edit'']),
      (''system'', [''license.manage'', ''backups.view'', ''backups.manage'', ''tunnel.manage'', ''system.update'']),
      (''managers'', [''managers.view'', ''managers.create'', ''managers.edit'', ''managers.delete'']),
      (''live'', [''live.view'', ''sessions.view'']),
      (''coa_outbox'', [''coa_outbox.view'', ''coa_outbox.manage'']),
      (''notifications'', [''notifications.view'', ''notifications.manage'']),
      (''support'', [''support.view'', ''support.manage'']),
      (''audit'', [''audit.view'']),
      (''actions'', [''renew'', ''disconnect'', ''topup'', ''export'', ''refund''])]"

definition catalogSet :: "string set" where
  "catalogSet = set (concat (map snd permissionCatalog))"

text \<open>The answers of both checks are strings, the empty one for nothing found.\<close>

fun invalidPermissions :: "string list \<Rightarrow> string" where
  "invalidPermissions [] = ''''"
| "invalidPermissions (p # ps) = (if p \<notin> catalogSet then p else invalidPermissions ps)"

fun firstDenied :: "Manager \<Rightarrow> string list \<Rightarrow> string" where
  "firstDenied m [] = ''''"
| "firstDenied m (p # ps) = (if \<not> Can m p then p else firstDenied m ps)"

definition escalationCheck :: "Manager option \<Rightarrow> string list \<Rightarrow> string" where
  "escalationCheck mgr perms = (case mgr of None \<Rightarrow> (case perms of [] \<Rightarrow> '''' | p # _ \<Rightarrow> p) | Some m \<Rightarrow> firstDenied m perms)"

definition diffAdded :: "string list \<Rightarrow> string list \<Rightarrow> string list" where
  "diffAdded prev new = filter (\<lambda>p. p \<notin> set prev) new"

text \<open>\<^verbatim>\<open>dedupe\<close> keeps the first of equal entries.\<close>

definition dedupe :: "string list \<Rightarrow> string list" where
  "dedupe ps = rev (remdups (rev ps))"

definition audit :: "(string \<Rightarrow> bool) \<Rightarrow> Manager option \<Rightarrow> string \<Rightarrow> string \<Rightarrow> string \<Rightarrow> AuthDB \<Rightarrow> AuthDB" where
  "audit down mgr action entityType entityID db =
     (if down ''audit'' then db
      else db\<lparr>au_audit := au_audit db @ [\<lparr>ad_Actor = (case mgr of None \<Rightarrow> '''' | Some m \<Rightarrow> ma_ID m), ad_Action = action,
               ad_EntityType = entityType, ad_EntityID = entityID\<rparr>]\<rparr>)"

record createRoleRequest =
  cr_Name :: string
  cr_Description :: string
  cr_Require2FA :: bool
  cr_Permissions :: "string list"

definition createRole :: "string \<Rightarrow> string \<Rightarrow> bool \<Rightarrow> string list \<Rightarrow> AuthDB \<Rightarrow> (string \<times> AuthDB) option" where
  "createRole name desc req perms db =
     (if roleNamed name db \<noteq> None then None
      else let i = formatUint (au_nextID db)
           in Some (i, db\<lparr>au_nextID := Suc (au_nextID db), au_roles := au_roles db @ [\<lparr>ro_ID = i, ro_Name = name, ro_Description = desc,
                    ro_IsBuiltin = False, ro_Require2FA = req, ro_Permissions = dedupe perms\<rparr>]\<rparr>))"

definition createRoleHandler :: "(string \<Rightarrow> bool) \<Rightarrow> Manager option \<Rightarrow> createRoleRequest \<Rightarrow> AuthDB \<Rightarrow> string reply \<times> AuthDB" where
  "createRoleHandler down mgr req db =
     (if length (cr_Name req) < 2 \<or> 64 < length (cr_Name req) \<or> 256 < length (cr_Description req) then (Err 422 ''validation_failed'', db)
      else if invalidPermissions (cr_Permissions req) \<noteq> '''' then (Err 422 ''validation_failed'', db)
      else if escalationCheck mgr (cr_Permissions req) \<noteq> '''' then (Err 403 ''forbidden'', db)
      else if down ''createRole'' then (Err 500 ''internal'', db)
      else case createRole (cr_Name req) (cr_Description req) (cr_Require2FA req) (cr_Permissions req) db of
             None \<Rightarrow> (Err 409 ''conflict'', db)
           | Some (i, db1) \<Rightarrow> (OK i, audit down mgr ''roles.create'' ''role'' i db1))"

record updateRoleRequest =
  ur_Name :: "string option"
  ur_Description :: "string option"
  ur_Require2FA :: "bool option"
  ur_Permissions :: "string list option"

definition fieldOr :: "'a option \<Rightarrow> 'a \<Rightarrow> 'a" where
  "fieldOr x d = (case x of None \<Rightarrow> d | Some v \<Rightarrow> v)"

definition updateRole :: "string \<Rightarrow> string \<Rightarrow> string \<Rightarrow> bool \<Rightarrow> string list option \<Rightarrow> AuthDB \<Rightarrow> AuthDB option" where
  "updateRole i name desc req perms db =
     (if list_ex (\<lambda>r. ro_ID r \<noteq> i \<and> ro_Name r = name) (au_roles db) then None
      else Some (db\<lparr>au_roles := map (\<lambda>r. if ro_ID r = i
             then r\<lparr>ro_Name := name, ro_Description := desc, ro_Require2FA := req,
                    ro_Permissions := (case perms of None \<Rightarrow> ro_Permissions r | Some ps \<Rightarrow> dedupe ps)\<rparr> else r) (au_roles db)\<rparr>))"

definition updateRoleHandler :: "(string \<Rightarrow> bool) \<Rightarrow> Manager option \<Rightarrow> string \<Rightarrow> updateRoleRequest \<Rightarrow> AuthDB \<Rightarrow> unit reply \<times> AuthDB" where
  "updateRoleHandler down mgr i req db =
     (if down ''getRole'' then (Err 500 ''internal'', db)
      else case getRole i db of
        None \<Rightarrow> (Err 404 ''not_found'', db)
      | Some before \<Rightarrow>
          (if (case ur_Permissions req of None \<Rightarrow> False | Some ps \<Rightarrow> invalidPermissions ps \<noteq> '''') then (Err 422 ''validation_failed'', db)
           else if (case ur_Permissions req of None \<Rightarrow> False | Some ps \<Rightarrow> escalationCheck mgr (diffAdded (ro_Permissions before) ps) \<noteq> '''')
           then (Err 403 ''forbidden'', db)
           else if down ''updateRole'' then (Err 500 ''internal'', db)
           else case updateRole i (fieldOr (ur_Name req) (ro_Name before)) (fieldOr (ur_Description req) (ro_Description before))
                       (fieldOr (ur_Require2FA req) (ro_Require2FA before)) (ur_Permissions req) db of
                  None \<Rightarrow> (Err 409 ''conflict'', db)
                | Some db1 \<Rightarrow> (OK (), audit down mgr ''roles.update'' ''role'' i db1)))"

definition roleMemberCount :: "string \<Rightarrow> AuthDB \<Rightarrow> nat" where
  "roleMemberCount i db = length (filter (\<lambda>m. mr_RoleID m = Some i) (au_managers db))"

text \<open>A role that a manager got in the meantime is kept by the foreign key.\<close>

definition deleteRoleHandler :: "(string \<Rightarrow> bool) \<Rightarrow> Manager option \<Rightarrow> string \<Rightarrow> AuthDB \<Rightarrow> unit reply \<times> AuthDB" where
  "deleteRoleHandler down mgr i db =
     (if down ''getRole'' then (Err 500 ''internal'', db)
      else case getRole i db of
        None \<Rightarrow> (Err 404 ''not_found'', db)
      | Some r \<Rightarrow>
          (if ro_IsBuiltin r then (Err 409 ''conflict'', db)
           else if down ''memberCount'' then (Err 500 ''internal'', db)
           else if 0 < roleMemberCount i db then (Err 409 ''role_in_use'', db)
           else if down ''deleteRole'' then (Err 500 ''internal'', db)
           else (OK (), audit down mgr ''roles.delete'' ''role'' i (db\<lparr>au_roles := filter (\<lambda>r. ro_ID r \<noteq> i) (au_roles db)\<rparr>))))"

section \<open>Overrides and allowlists\<close>

definition replaceOverrides :: "string \<Rightarrow> (string \<times> bool) list \<Rightarrow> AuthDB \<Rightarrow> AuthDB option" where
  "replaceOverrides i es db =
     (if \<not> distinct (map fst es) then None
      else Some (db\<lparr>au_overrides := filter (\<lambda>x. ov_ManagerID x \<noteq> i) (au_overrides db)
               @ map (\<lambda>(p, g). \<lparr>ov_ManagerID = i, ov_Permission = p, ov_Granted = g\<rparr>) es\<rparr>))"

definition putManagerOverridesHandler ::
    "(string \<Rightarrow> bool) \<Rightarrow> Manager option \<Rightarrow> string \<Rightarrow> (string \<times> bool) list \<Rightarrow> AuthDB \<Rightarrow> unit reply \<times> AuthDB" where
  "putManagerOverridesHandler down mgr i es db =
     (if down ''lookup'' then (Err 500 ''internal'', db)
      else if lookupManagerByID i db = None then (Err 404 ''not_found'', db)
      else if list_ex (\<lambda>(p, g). p \<notin> catalogSet) es then (Err 422 ''validation_failed'', db)
      else if escalationCheck mgr (map fst (filter snd es)) \<noteq> '''' then (Err 403 ''forbidden'', db)
      else if down ''overrides'' then (Err 500 ''internal'', db)
      else case replaceOverrides i es db of
             None \<Rightarrow> (Err 500 ''internal'', db)
           | Some db1 \<Rightarrow> (OK (), audit down mgr ''managers.permissions_update'' ''manager'' i db1))"

text \<open>
  A repeated network of the same list takes the later note. \<open>validCIDR\<close> is \<^verbatim>\<open>net.ParseCIDR\<close>, \<open>castCIDR\<close> the cast to the column type, which
  fails for a network with host bits.
\<close>

definition putAllow :: "string \<Rightarrow> allowlistRow list \<Rightarrow> string \<times> string \<Rightarrow> allowlistRow list" where
  "putAllow i rows e =
     (if list_ex (\<lambda>a. al_ManagerID a = i \<and> al_CIDR a = fst e) rows
      then map (\<lambda>a. if al_ManagerID a = i \<and> al_CIDR a = fst e then a\<lparr>al_Note := snd e\<rparr> else a) rows
      else rows @ [\<lparr>al_ManagerID = i, al_CIDR = fst e, al_Note = snd e\<rparr>])"

definition replaceAllowlist :: "(string \<Rightarrow> string option) \<Rightarrow> string \<Rightarrow> (string \<times> string) list \<Rightarrow> AuthDB \<Rightarrow> AuthDB option" where
  "replaceAllowlist castCIDR i es db =
     (if list_ex (\<lambda>(c, n). castCIDR c = None) es then None
      else Some (db\<lparr>au_allowlist := foldl (putAllow i) (filter (\<lambda>a. al_ManagerID a \<noteq> i) (au_allowlist db)) (map (\<lambda>(c, n). (the (castCIDR c), n)) es)\<rparr>))"

definition putManagerAllowlistHandler ::
    "(string \<Rightarrow> bool) \<Rightarrow> (string \<Rightarrow> bool) \<Rightarrow> (string \<Rightarrow> string option) \<Rightarrow> Manager option \<Rightarrow> string \<Rightarrow> (string \<times> string) list \<Rightarrow> AuthDB
       \<Rightarrow> unit reply \<times> AuthDB" where
  "putManagerAllowlistHandler down validCIDR castCIDR mgr i es db =
     (if down ''lookup'' then (Err 500 ''internal'', db)
      else if lookupManagerByID i db = None then (Err 404 ''not_found'', db)
      else if list_ex (\<lambda>(c, n). \<not> validCIDR c) es then (Err 422 ''validation_failed'', db)
      else if down ''allowlist'' then (Err 500 ''internal'', db)
      else case replaceAllowlist castCIDR i es db of
             None \<Rightarrow> (Err 500 ''internal'', db)
           | Some db1 \<Rightarrow> (OK (), audit down mgr ''managers.allowlist_update'' ''manager'' i db1))"

definition allowlistCIDRs :: "string \<Rightarrow> AuthDB \<Rightarrow> string list" where
  "allowlistCIDRs i db = map al_CIDR (filter (\<lambda>a. al_ManagerID a = i) (au_allowlist db))"

section \<open>Managers\<close>

record createManagerRequest =
  cm_Username :: string
  cm_Password :: string
  cm_Role :: string
  cm_Scoped :: bool
  cm_Profile :: managerProfile

definition emailOf :: "managerProfile \<Rightarrow> string option" where
  "emailOf p = (case drop 2 p of [] \<Rightarrow> None | e # _ \<Rightarrow> e)"

definition validEmailLoose :: "string \<Rightarrow> bool" where
  "validEmailLoose s \<longleftrightarrow> s = ''''
     \<or> (\<not> list_ex (\<lambda>c. c \<in> {CHR '' '', CHR 0x09, CHR 0x0D, CHR 0x0A}) s \<and> CHR ''@'' \<in> set (tl s)
        \<and> last s \<noteq> CHR ''@'')"

definition insertManager :: "string \<Rightarrow> string \<Rightarrow> string \<Rightarrow> bool \<Rightarrow> managerProfile \<Rightarrow> AuthDB \<Rightarrow> (string \<times> AuthDB) option" where
  "insertManager username hash role scoped p db =
     (if lookupManagerByUsername username db \<noteq> None then None
      else let i = formatUint (au_nextID db)
           in Some (i, db\<lparr>au_nextID := Suc (au_nextID db), au_managers := au_managers db @ [\<lparr>mr_ID = i, mr_Username = username,
                    mr_PasswordHash = hash, mr_Role = role, mr_RoleID = map_option ro_ID (roleNamed role db), mr_Scoped = scoped, mr_Disabled = False,
                    mr_TOTPEnabled = False, mr_TOTPSecretEnc = '''', mr_TOTPPendingEnc = '''', mr_Profile = p\<rparr>]\<rparr>))"

text \<open>\<open>hash\<close> is the result of \<^verbatim>\<open>hashPassword\<close>, none when the random source fails.\<close>

definition createManagerHandler ::
    "(string \<Rightarrow> bool) \<Rightarrow> string option \<Rightarrow> Manager option \<Rightarrow> createManagerRequest \<Rightarrow> AuthDB \<Rightarrow> string reply \<times> AuthDB" where
  "createManagerHandler down hash mgr req db =
     (if length (cm_Username req) < 3 \<or> 64 < length (cm_Username req) \<or> length (cm_Password req) < 8 \<or> 256 < length (cm_Password req)
         \<or> cm_Role req = '''' then (Err 422 ''validation_failed'', db)
      else if down ''roleExists'' then (Err 500 ''internal'', db)
      else if roleNamed (cm_Role req) db = None then (Err 422 ''validation_failed'', db)
      else case hash of
        None \<Rightarrow> (Err 500 ''internal'', db)
      | Some h \<Rightarrow>
          (if (case emailOf (cm_Profile req) of None \<Rightarrow> False | Some e \<Rightarrow> \<not> validEmailLoose (trimSpace e)) then (Err 422 ''validation_failed'', db)
           else if down ''insertManager'' then (Err 500 ''internal'', db)
           else case insertManager (cm_Username req) h (cm_Role req) (cm_Scoped req) (cm_Profile req) db of
                  None \<Rightarrow> (Err 409 ''conflict'', db)
                | Some (i, db1) \<Rightarrow> (OK i, audit down mgr ''managers.create'' ''manager'' i db1)))"

definition CreateFirstAdmin :: "(string \<Rightarrow> bool) \<Rightarrow> string option \<Rightarrow> string \<Rightarrow> AuthDB \<Rightarrow> string reply \<times> AuthDB" where
  "CreateFirstAdmin down hash username db =
     (if down ''count'' then (Err 500 ''internal'', db)
      else if au_managers db \<noteq> [] then (Err 409 ''setup_complete'', db)
      else case hash of
        None \<Rightarrow> (Err 500 ''internal'', db)
      | Some h \<Rightarrow>
          (if down ''insertManager'' then (Err 500 ''internal'', db)
           else case insertManager username h RoleAdmin False (replicate 5 None) db of
                  None \<Rightarrow> (Err 500 ''internal'', db)
                | Some (i, db1) \<Rightarrow> (OK i, db1)))"

definition isManagerAdmin :: "AuthDB \<Rightarrow> managerAuthRow \<Rightarrow> bool" where
  "isManagerAdmin db m \<longleftrightarrow> mr_Role m = ''admin''
     \<or> (case Option.bind (mr_RoleID m) (\<lambda>r. getRole r db) of None \<Rightarrow> False | Some r \<Rightarrow> list_ex (\<lambda>p. p \<in> {''*'', ''managers.edit''}) (ro_Permissions r))
     \<or> list_ex (\<lambda>x. ov_ManagerID x = mr_ID m \<and> ov_Granted x \<and> ov_Permission x \<in> {''*'', ''managers.edit''}) (au_overrides db)"

definition otherActiveManagerAdminExists :: "string \<Rightarrow> AuthDB \<Rightarrow> bool" where
  "otherActiveManagerAdminExists i db \<longleftrightarrow> list_ex (\<lambda>m. mr_ID m \<noteq> i \<and> \<not> mr_Disabled m \<and> isManagerAdmin db m) (au_managers db)"

definition updateManager :: "string \<Rightarrow> (managerAuthRow \<Rightarrow> managerAuthRow) \<Rightarrow> AuthDB \<Rightarrow> AuthDB" where
  "updateManager i f db = db\<lparr>au_managers := map (\<lambda>m. if mr_ID m = i then f m else m) (au_managers db)\<rparr>"

definition updateManagerRoleScope :: "string \<Rightarrow> string \<Rightarrow> bool \<Rightarrow> AuthDB \<Rightarrow> AuthDB" where
  "updateManagerRoleScope i role scoped db =
     updateManager i (\<lambda>m. m\<lparr>mr_Role := role, mr_RoleID := map_option ro_ID (roleNamed role db), mr_Scoped := scoped\<rparr>) db"

text \<open>An absent field is left alone, an empty one cleared.\<close>

definition updateManagerProfile :: "string \<Rightarrow> managerProfile \<Rightarrow> AuthDB \<Rightarrow> AuthDB" where
  "updateManagerProfile i p db =
     updateManager i (\<lambda>m. m\<lparr>mr_Profile := map (\<lambda>(new, old). case new of None \<Rightarrow> old | Some s \<Rightarrow> if s = '''' then None else Some s)
        (zip p (mr_Profile m))\<rparr>) db"

definition revokeOtherSessions :: "string \<Rightarrow> string \<Rightarrow> AuthDB \<Rightarrow> AuthDB" where
  "revokeOtherSessions i keep db =
     db\<lparr>au_sessions := map (\<lambda>s. if se_ManagerID s = i \<and> (keep = '''' \<or> se_ID s \<noteq> keep) then s\<lparr>se_Revoked := True\<rparr> else s) (au_sessions db)\<rparr>"

record updateManagerRequest =
  um_Role :: "string option"
  um_Scoped :: "bool option"
  um_Password :: "string option"
  um_Disabled :: "bool option"
  um_Profile :: managerProfile

text \<open>
  The statements run one by one, outside a transaction: what is written before a later refusal stays. The steps after the
  guards, in the order of the handler: role and scope, profile, disable, password.
\<close>

definition updateProfileStep :: "(string \<Rightarrow> bool) \<Rightarrow> string \<Rightarrow> updateManagerRequest \<Rightarrow> AuthDB \<Rightarrow> unit reply \<times> AuthDB" where
  "updateProfileStep down i req db =
     (if list_all (\<lambda>f. f = None) (um_Profile req) then (OK (), db)
      else if (case emailOf (um_Profile req) of None \<Rightarrow> False | Some e \<Rightarrow> \<not> validEmailLoose (trimSpace e)) then (Err 422 ''validation_failed'', db)
      else if down ''profile'' then (Err 500 ''internal'', db)
      else (OK (), updateManagerProfile i (um_Profile req) db))"

definition updateDisabledStep :: "(string \<Rightarrow> bool) \<Rightarrow> string \<Rightarrow> managerAuthRow \<Rightarrow> updateManagerRequest \<Rightarrow> AuthDB \<Rightarrow> unit reply \<times> AuthDB" where
  "updateDisabledStep down i before req db =
     (case um_Disabled req of
        None \<Rightarrow> (OK (), db)
      | Some d \<Rightarrow>
          (if d = mr_Disabled before then (OK (), db)
           else if down ''disable'' then (Err 500 ''internal'', db)
           else let db1 = updateManager i (mr_Disabled_update (\<lambda>_. d)) db
                in (OK (), if d \<and> \<not> down ''revoke'' then revokeOtherSessions i '''' db1 else db1)))"

definition updatePasswordStep ::
    "(string \<Rightarrow> bool) \<Rightarrow> string option \<Rightarrow> Manager option \<Rightarrow> string \<Rightarrow> updateManagerRequest \<Rightarrow> AuthDB \<Rightarrow> unit reply \<times> AuthDB" where
  "updatePasswordStep down hash mgr i req db =
     (case um_Password req of
        None \<Rightarrow> (OK (), db)
      | Some pw \<Rightarrow>
          (if length pw < 8 then (Err 422 ''validation_failed'', db)
           else case hash of
             None \<Rightarrow> (Err 500 ''internal'', db)
           | Some h \<Rightarrow>
               (if down ''password'' then (Err 500 ''internal'', db)
                else let db1 = updateManager i (mr_PasswordHash_update (\<lambda>_. h)) db;
                         keep = (case mgr of Some m \<Rightarrow> if ma_ID m = i then ma_SessionID m else '''' | None \<Rightarrow> '''')
                     in (OK (), if down ''revokeOthers'' then db1 else revokeOtherSessions i keep db1))))"

definition andThen :: "'a reply \<times> AuthDB \<Rightarrow> (AuthDB \<Rightarrow> 'b reply \<times> AuthDB) \<Rightarrow> 'b reply \<times> AuthDB" where
  "andThen r k = (case r of (OK _, db) \<Rightarrow> k db | (Err n c, db) \<Rightarrow> (Err n c, db))"

definition updateManagerHandler ::
    "(string \<Rightarrow> bool) \<Rightarrow> string option \<Rightarrow> Manager option \<Rightarrow> string \<Rightarrow> updateManagerRequest \<Rightarrow> AuthDB \<Rightarrow> unit reply \<times> AuthDB" where
  "updateManagerHandler down hash mgr i req db =
     (if down ''lookup'' then (Err 500 ''internal'', db)
      else case lookupManagerByID i db of
        None \<Rightarrow> (Err 404 ''not_found'', db)
      | Some before \<Rightarrow>
          (let disabling = (um_Disabled req = Some True \<and> \<not> mr_Disabled before) in
           if disabling \<and> (case mgr of None \<Rightarrow> False | Some m \<Rightarrow> ma_ID m = i) then (Err 409 ''cannot_disable_self'', db)
           else if disabling \<and> down ''lastAdmin'' then (Err 500 ''internal'', db)
           else if disabling \<and> \<not> otherActiveManagerAdminExists i db then (Err 409 ''last_admin'', db)
           else if um_Role req \<noteq> None \<and> down ''roleExists'' then (Err 500 ''internal'', db)
           else if (case um_Role req of None \<Rightarrow> False | Some r \<Rightarrow> roleNamed r db = None) then (Err 422 ''validation_failed'', db)
           else if down ''roleScope'' then (Err 500 ''internal'', db)
           else andThen (updateProfileStep down i req
                  (updateManagerRoleScope i (fieldOr (um_Role req) (mr_Role before)) (fieldOr (um_Scoped req) (mr_Scoped before)) db)) (\<lambda>db1.
                andThen (updateDisabledStep down i before req db1) (\<lambda>db2.
                andThen (updatePasswordStep down hash mgr i req db2) (\<lambda>db3.
                (OK (), audit down mgr ''managers.update'' ''manager'' i db3))))))"

text \<open>
  A deleted manager's sessions, overrides, codes and networks go with the row; one with ledger entries cannot be deleted.
\<close>

definition deleteManager :: "string \<Rightarrow> AuthDB \<Rightarrow> AuthDB option" where
  "deleteManager i db =
     (if i \<in> set (au_ledgerActors db) then None
      else Some (db\<lparr>au_managers := filter (\<lambda>m. mr_ID m \<noteq> i) (au_managers db), au_sessions := filter (\<lambda>s. se_ManagerID s \<noteq> i) (au_sessions db),
               au_overrides := filter (\<lambda>x. ov_ManagerID x \<noteq> i) (au_overrides db),
               au_backupCodes := filter (\<lambda>c. bc_ManagerID c \<noteq> i) (au_backupCodes db),
               au_allowlist := filter (\<lambda>a. al_ManagerID a \<noteq> i) (au_allowlist db)\<rparr>))"

definition deleteManagerHandler :: "(string \<Rightarrow> bool) \<Rightarrow> Manager option \<Rightarrow> string \<Rightarrow> AuthDB \<Rightarrow> unit reply \<times> AuthDB" where
  "deleteManagerHandler down mgr i db =
     (if (case mgr of None \<Rightarrow> False | Some m \<Rightarrow> ma_ID m = i) then (Err 409 ''cannot_remove_self'', db)
      else if down ''lookup'' then (Err 500 ''internal'', db)
      else if lookupManagerByID i db = None then (Err 404 ''not_found'', db)
      else if down ''lastAdmin'' then (Err 500 ''internal'', db)
      else if \<not> otherActiveManagerAdminExists i db then (Err 409 ''last_admin'', db)
      else if down ''delete'' then (Err 500 ''internal'', db)
      else case deleteManager i db of
             None \<Rightarrow> (Err 409 ''has_history'', db)
           | Some db1 \<Rightarrow> (OK (), audit down mgr ''managers.delete'' ''manager'' i db1))"

section \<open>Effective permissions\<close>

lemma applyOverrides_mem:
  assumes "distinct (map ov_Permission os)"
  shows "p \<in> set (foldl applyOverride ps os) \<longleftrightarrow>
     (\<exists>x \<in> set os. ov_Permission x = p \<and> ov_Granted x) \<or> p \<in> set ps \<and> (\<forall>x \<in> set os. ov_Permission x = p \<longrightarrow> ov_Granted x)"
  using assms
proof (induction os arbitrary: ps)
  case (Cons x os)
  then have "\<forall>y \<in> set os. ov_Permission y \<noteq> ov_Permission x" by (auto simp: image_iff)
  then show ?case using Cons by (cases "ov_Permission x = p") (auto simp: applyOverride_def)
qed simp

definition basePermissions :: "string \<Rightarrow> AuthDB \<Rightarrow> string set" where
  "basePermissions i db =
     (if joinedPermissions i db \<noteq> [] then set (joinedPermissions i db)
      else case lookupManagerByID i db of
             None \<Rightarrow> {}
           | Some m \<Rightarrow> (if mr_Role m = RoleAdmin then {permWildcard} else {}) \<union> set (rolePermissions (mr_Role m)))"

text \<open>
  Effective permissions. With at most one override per permission (the primary key of the table), a manager holds exactly the permissions granted to
  him by an override and those of his role that no override takes away.
\<close>

theorem permissions_resolved:
  assumes "distinct (map ov_Permission (overridesOf i db))"
  shows "p \<in> set (resolvePermissions i db) \<longleftrightarrow>
     (\<exists>x \<in> set (overridesOf i db). ov_Permission x = p \<and> ov_Granted x)
       \<or> p \<in> basePermissions i db \<and> (\<forall>x \<in> set (overridesOf i db). ov_Permission x = p \<longrightarrow> ov_Granted x)"
  unfolding resolvePermissions_def Let_def applyOverrides_mem [OF assms]
  by (auto simp: basePermissions_def split: option.split)

section \<open>The escalation guard\<close>

text \<open>What the tables grant: a role a permission, a manager a permission.\<close>

definition roleGrants :: "AuthDB \<Rightarrow> (string \<times> string) set" where
  "roleGrants db = {(ro_ID r, p) | r p. r \<in> set (au_roles db) \<and> p \<in> set (ro_Permissions r)}"

definition overrideGrants :: "AuthDB \<Rightarrow> (string \<times> string) set" where
  "overrideGrants db = {(ov_ManagerID x, ov_Permission x) | x. x \<in> set (au_overrides db) \<and> ov_Granted x}"

lemma roleGrants_mem: "(i, p) \<in> roleGrants db \<longleftrightarrow> (\<exists>r \<in> set (au_roles db). ro_ID r = i \<and> p \<in> set (ro_Permissions r))"
  by (auto simp: roleGrants_def)

lemma firstDenied_none: "firstDenied m ps = '''' \<Longrightarrow> '''' \<notin> set ps \<Longrightarrow> p \<in> set ps \<Longrightarrow> Can m p"
  by (induction ps) (auto split: if_splits)

lemma set_dedupe [simp]: "set (dedupe ps) = set ps"
  by (simp add: dedupe_def)

lemma audit_fields [simp]:
  "au_managers (audit down mgr a e i db) = au_managers db" "au_roles (audit down mgr a e i db) = au_roles db"
  "au_overrides (audit down mgr a e i db) = au_overrides db" "au_sessions (audit down mgr a e i db) = au_sessions db"
  "au_backupCodes (audit down mgr a e i db) = au_backupCodes db" "au_allowlist (audit down mgr a e i db) = au_allowlist db"
  "au_nextID (audit down mgr a e i db) = au_nextID db" "au_ledgerActors (audit down mgr a e i db) = au_ledgerActors db"
  by (simp_all add: audit_def)

lemma grants_audit [simp]: "roleGrants (audit down mgr a e i db) = roleGrants db" "overrideGrants (audit down mgr a e i db) = overrideGrants db"
  by (simp_all add: roleGrants_def overrideGrants_def)

lemma createRole_grants:
  assumes "createRoleHandler down (Some m) req db = (x, db')" and "'''' \<notin> set (cr_Permissions req)" and "(r, p) \<in> roleGrants db' - roleGrants db"
  shows "Can m p"
proof -
  from assms obtain i db1 where e: "firstDenied m (cr_Permissions req) = ''''" "db' = audit down (Some m) ''roles.create'' ''role'' i db1"
    "createRole (cr_Name req) (cr_Description req) (cr_Require2FA req) (cr_Permissions req) db = Some (i, db1)"
    by (auto simp: createRoleHandler_def escalationCheck_def split: if_splits option.splits)
  then have "p \<in> set (cr_Permissions req)" using assms(3) by (auto simp: createRole_def Let_def roleGrants_def split: if_splits)
  then show ?thesis using firstDenied_none [OF e(1) assms(2)] by blast
qed

lemma updateRole_grants:
  assumes "updateRoleHandler down (Some m) i req db = (x, db')" and "distinct (map ro_ID (au_roles db))"
    and "'''' \<notin> set (fieldOr (ur_Permissions req) [])" and "(r, p) \<in> roleGrants db' - roleGrants db"
  shows "Can m p"
proof -
  from assms obtain before db1 where e: "getRole i db = Some before"
    "case ur_Permissions req of None \<Rightarrow> True | Some ps \<Rightarrow> firstDenied m (diffAdded (ro_Permissions before) ps) = ''''"
    "db' = audit down (Some m) ''roles.update'' ''role'' i db1"
    "updateRole i (fieldOr (ur_Name req) (ro_Name before)) (fieldOr (ur_Description req) (ro_Description before))
       (fieldOr (ur_Require2FA req) (ro_Require2FA before)) (ur_Permissions req) db = Some db1"
    by (auto simp: updateRoleHandler_def escalationCheck_def split: if_splits option.splits)
  have b: "before \<in> set (au_roles db)" "ro_ID before = i" using e(1) by (auto simp: getRole_def find_Some_iff)
  from e(3,4) assms(4) obtain r0 where r0: "r0 \<in> set (au_roles db)" "ro_ID r0 = i" "r = i" "p \<notin> set (ro_Permissions r0)"
    and ps: "\<exists>ps. ur_Permissions req = Some ps \<and> p \<in> set ps"
    by (auto simp: updateRole_def roleGrants_def split: if_splits option.splits)
  then obtain ps where ps: "ur_Permissions req = Some ps" "p \<in> set ps" by blast
  have "r0 = before" using assms(2) r0(1,2) b by (auto simp: distinct_map inj_on_def)
  then have "p \<in> set (diffAdded (ro_Permissions before) ps)" "'''' \<notin> set (diffAdded (ro_Permissions before) ps)"
    using ps r0(4) assms(3) by (auto simp: diffAdded_def fieldOr_def)
  then show ?thesis using firstDenied_none e(2) ps(1) by auto
qed

lemma catalog_nonempty: "'''' \<notin> catalogSet"
  by (simp add: catalogSet_def permissionCatalog_def)

lemma putOverrides_grants:
  assumes "putManagerOverridesHandler down (Some m) i es db = (x, db')" and "(r, p) \<in> overrideGrants db' - overrideGrants db"
  shows "Can m p"
proof -
  from assms obtain db1 where e: "\<not> list_ex (\<lambda>(p, g). p \<notin> catalogSet) es" "firstDenied m (map fst (filter snd es)) = ''''"
    "db' = audit down (Some m) ''managers.permissions_update'' ''manager'' i db1" "replaceOverrides i es db = Some db1"
    by (auto simp: putManagerOverridesHandler_def escalationCheck_def split: if_splits option.splits)
  then have "p \<in> set (map fst (filter snd es))" using assms(2) by (force simp: replaceOverrides_def overrideGrants_def split: if_splits)
  moreover have "'''' \<notin> set (map fst (filter snd es))" using e(1) catalog_nonempty by (auto simp: list_ex_iff)
  ultimately show ?thesis using firstDenied_none [OF e(2)] by blast
qed

text \<open>What a manager may do: the permissions his next request carries, the wildcard standing for all.\<close>

definition mayDo :: "AuthDB \<Rightarrow> string \<Rightarrow> string \<Rightarrow> bool" where
  "mayDo db j p \<longleftrightarrow> permWildcard \<in> set (resolvePermissions j db) \<or> p \<in> set (resolvePermissions j db)"

definition emptiesRoleOf :: "string \<Rightarrow> string \<Rightarrow> updateRoleRequest \<Rightarrow> AuthDB \<Rightarrow> bool" where
  "emptiesRoleOf j i req db \<longleftrightarrow> ur_Permissions req = Some [] \<and> Option.bind (lookupManagerByID j db) mr_RoleID = Some i"

definition liftsDeny :: "string \<Rightarrow> string \<Rightarrow> string \<Rightarrow> (string \<times> bool) list \<Rightarrow> AuthDB \<Rightarrow> bool" where
  "liftsDeny p j i es db \<longleftrightarrow> j = i
     \<and> (\<exists>x \<in> set (overridesOf j db). \<not> ov_Granted x \<and> ov_Permission x \<in> {p, permWildcard} \<and> (ov_Permission x, False) \<notin> set es)"

text \<open>Whoever holds the wildcard may do everything, so a gained permission is a gained row of the resolved set.\<close>

lemma Can_wildcard: "Can m permWildcard \<Longrightarrow> Can m p"
  by (auto simp: Can_def roleCan_def permWildcard_def rolePermissions_def split: option.splits if_splits)

lemma mayDo_gained:
  assumes "\<And>q. q \<in> set (resolvePermissions j db') \<Longrightarrow> q \<notin> set (resolvePermissions j db) \<Longrightarrow> q \<in> {p, permWildcard} \<Longrightarrow> Can m q \<or> E"
    and "mayDo db' j p" and "\<not> mayDo db j p"
  shows "Can m p \<or> E"
  using assms Can_wildcard unfolding mayDo_def by blast

lemma resolve_mono:
  assumes "distinct (map ov_Permission (overridesOf j db))" and "overridesOf j db' = overridesOf j db"
    and "q \<in> set (resolvePermissions j db')" and "q \<notin> set (resolvePermissions j db)"
  shows "q \<in> basePermissions j db' - basePermissions j db"
  using assms permissions_resolved [of j db q] permissions_resolved [of j db' q] by auto

lemma joined_cong:
  "lookupManagerByID j db' = lookupManagerByID j db \<Longrightarrow> au_roles db' = au_roles db \<Longrightarrow> joinedPermissions j db' = joinedPermissions j db"
  by (simp add: joinedPermissions_def getRole_def cong: option.case_cong)

lemma getRole_in: "getRole rid db = Some r \<Longrightarrow> r \<in> set (au_roles db) \<and> ro_ID r = rid"
  by (auto simp: getRole_def find_Some_iff)

lemma joined_grants:
  "q \<in> set (joinedPermissions j db) \<Longrightarrow> \<exists>rid. Option.bind (lookupManagerByID j db) mr_RoleID = Some rid \<and> (rid, q) \<in> roleGrants db"
  using getRole_in [of _ db]
  by (cases "Option.bind (lookupManagerByID j db) mr_RoleID"; cases "getRole (the (Option.bind (lookupManagerByID j db) mr_RoleID)) db")
    (auto simp: joinedPermissions_def roleGrants_mem)

lemma grants_joined:
  assumes "distinct (map ro_ID (au_roles db))" and "Option.bind (lookupManagerByID j db) mr_RoleID = Some rid" and "(rid, q) \<in> roleGrants db"
  shows "q \<in> set (joinedPermissions j db)"
proof -
  obtain r where r: "r \<in> set (au_roles db)" "ro_ID r = rid" "q \<in> set (ro_Permissions r)" using assms(3) by (auto simp: roleGrants_mem)
  have "distinct (map ro_ID rs) \<Longrightarrow> r \<in> set rs \<Longrightarrow> find (\<lambda>y. ro_ID y = ro_ID r) rs = Some r" for rs
    by (induction rs) (auto simp: image_iff)
  then have "getRole rid db = Some r" using r assms(1) by (simp add: getRole_def)
  then show ?thesis using assms(2) r(3) by (simp add: joinedPermissions_def)
qed

lemma base_gained:
  assumes "distinct (map ro_ID (au_roles db))" and "lookupManagerByID j db' = lookupManagerByID j db"
    and "q \<in> basePermissions j db' - basePermissions j db"
  shows "(\<exists>rid. (rid, q) \<in> roleGrants db' - roleGrants db) \<or> joinedPermissions j db \<noteq> [] \<and> joinedPermissions j db' = []"
proof (cases "joinedPermissions j db' = []")
  case True
  then show ?thesis using assms(2,3) by (auto simp: basePermissions_def)
next
  case False
  then have q: "q \<in> set (joinedPermissions j db')" "q \<notin> set (joinedPermissions j db)"
    using assms(3) by (auto simp: basePermissions_def split: if_splits)
  then show ?thesis using joined_grants [OF q(1)] grants_joined [OF assms(1)] assms(2) by fastforce
qed

lemma createRole_mayDo:
  assumes "createRoleHandler down (Some m) req db = (x, db')" and "'''' \<notin> set (cr_Permissions req)" and "distinct (map ro_ID (au_roles db))"
    and "distinct (map ov_Permission (overridesOf j db))" and "mayDo db' j p" and "\<not> mayDo db j p"
  shows "Can m p"
proof -
  have ov: "overridesOf j db' = overridesOf j db" and mg: "lookupManagerByID j db' = lookupManagerByID j db"
    and ro: "\<exists>rs. au_roles db' = au_roles db @ rs"
    using assms(1) by (auto simp: createRoleHandler_def createRole_def Let_def overridesOf_def lookupManagerByID_def split: if_splits option.splits)
  have "find P (xs @ ys) = (case find P xs of None \<Rightarrow> find P ys | Some y \<Rightarrow> Some y)" for P and xs ys :: "roleRow list"
    by (induction xs) simp_all
  then have "joinedPermissions j db' = joinedPermissions j db" if "joinedPermissions j db \<noteq> []"
    using ro mg that by (auto simp: joinedPermissions_def getRole_def split: option.splits)
  then have "Can m q" if "q \<in> set (resolvePermissions j db')" "q \<notin> set (resolvePermissions j db)" for q
    using base_gained [OF assms(3) mg resolve_mono [OF assms(4) ov that]] createRole_grants [OF assms(1,2)] by metis
  then show ?thesis using mayDo_gained [of j db' db p m False] assms(5,6) by blast
qed

lemma updateRole_mayDo:
  assumes "updateRoleHandler down (Some m) i req db = (x, db')" and "distinct (map ro_ID (au_roles db))"
    and "'''' \<notin> set (fieldOr (ur_Permissions req) [])"
    and "distinct (map ov_Permission (overridesOf j db))" and "mayDo db' j p" and "\<not> mayDo db j p"
  shows "Can m p \<or> emptiesRoleOf j i req db"
proof -
  define f where "f name desc req2 r = (if ro_ID r = i then r\<lparr>ro_Name := name, ro_Description := desc, ro_Require2FA := req2,
      ro_Permissions := (case ur_Permissions req of None \<Rightarrow> ro_Permissions r | Some ps \<Rightarrow> dedupe ps)\<rparr> else r)" for name desc req2 and r :: roleRow
  have f: "ro_ID (f name desc req2 r) = ro_ID r" "f name desc req2 r = (if ro_ID r = i then f name desc req2 r else r)" for name desc req2 r
    by (simp_all add: f_def)
  have h: "db' = db \<or> (\<exists>name desc req2 db1. updateRole i name desc req2 (ur_Permissions req) db = Some db1
      \<and> db' = audit down (Some m) ''roles.update'' ''role'' i db1)"
    using assms(1) by (auto simp: updateRoleHandler_def split: if_splits option.splits)
  have u: "updateRole i name desc req2 (ur_Permissions req) db = Some db1 \<Longrightarrow> db1 = db\<lparr>au_roles := map (f name desc req2) (au_roles db)\<rparr>"
    for name desc req2 db1 by (simp add: updateRole_def f_def [abs_def] split: if_splits)
  have ov: "overridesOf j db' = overridesOf j db" and mg: "lookupManagerByID j db' = lookupManagerByID j db"
    using h by (auto simp: overridesOf_def lookupManagerByID_def dest!: u)
  from h have ro: "au_roles db' = au_roles db \<or> (\<exists>name desc req2. au_roles db' = map (f name desc req2) (au_roles db))"
  proof (elim disjE exE conjE)
    fix name desc req2 db1
    assume a: "updateRole i name desc req2 (ur_Permissions req) db = Some db1" and "db' = audit down (Some m) ''roles.update'' ''role'' i db1"
    then have "au_roles db' = map (f name desc req2) (au_roles db)" by (simp add: u [OF a])
    then show ?thesis by blast
  qed simp
  have found: "find (\<lambda>r. ro_ID r = k) rs = Some r \<Longrightarrow> k = ro_ID r" for k r and rs :: "roleRow list" by (auto simp: find_Some_iff)
  have map: "find (\<lambda>r. ro_ID r = k) (map f rs) = map_option f (find (\<lambda>r. ro_ID r = k) rs)" if "\<And>r. ro_ID (f r) = ro_ID r" for f rs k
    by (induction rs) (simp_all add: that)
  have "emptiesRoleOf j i req db" if "joinedPermissions j db \<noteq> []" "joinedPermissions j db' = []"
    using ro mg that
    by (auto simp: emptiesRoleOf_def joinedPermissions_def getRole_def map [OF f(1)] f_def dedupe_def dest: found split: option.splits if_splits)
  then have "Can m q \<or> emptiesRoleOf j i req db" if "q \<in> set (resolvePermissions j db')" "q \<notin> set (resolvePermissions j db)" for q
    using base_gained [OF assms(2) mg resolve_mono [OF assms(4) ov that]] updateRole_grants [OF assms(1-3)] by metis
  then show ?thesis using mayDo_gained [of j db' db p m "emptiesRoleOf j i req db"] assms(5,6) by blast
qed

lemma putOverrides_mayDo:
  assumes "putManagerOverridesHandler down (Some m) i es db = (x, db')"
    and "distinct (map ov_Permission (overridesOf j db))" and "mayDo db' j p" and "\<not> mayDo db j p"
  shows "Can m p \<or> liftsDeny p j i es db"
proof -
  have "db' = db \<or> (\<exists>db1. replaceOverrides i es db = Some db1 \<and> db' = audit down (Some m) ''managers.permissions_update'' ''manager'' i db1)"
    using assms(1) by (auto simp: putManagerOverridesHandler_def split: if_splits option.splits)
  then obtain db1 where r: "replaceOverrides i es db = Some db1" "db' = audit down (Some m) ''managers.permissions_update'' ''manager'' i db1"
    using assms(3,4) by auto
  then have same: "lookupManagerByID j db' = lookupManagerByID j db" "au_roles db' = au_roles db"
    by (auto simp: replaceOverrides_def lookupManagerByID_def split: if_splits)
  have ov: "overridesOf j db' = overridesOf j db" if "j \<noteq> i"
  proof -
    have "filter (\<lambda>x. ov_ManagerID x \<noteq> i \<and> ov_ManagerID x = j) xs = filter (\<lambda>x. ov_ManagerID x = j) xs" for xs :: "overrideRow list"
      using that by (auto intro: filter_cong)
    moreover have "filter (\<lambda>x. ov_ManagerID x = j) (map (\<lambda>(p, g). \<lparr>ov_ManagerID = i, ov_Permission = p, ov_Granted = g\<rparr>) es) = []"
      using that by (auto simp: filter_empty_conv)
    ultimately show ?thesis using r by (auto simp: replaceOverrides_def overridesOf_def split: if_splits)
  qed
  have "resolvePermissions j db' = resolvePermissions j db" if "j \<noteq> i"
    unfolding resolvePermissions_def same(1) joined_cong [OF same] ov [OF that] ..
  then have i: "j = i" using assms(3,4) unfolding mayDo_def by metis
  from r have e: "distinct (map fst es)" "overridesOf j db' = map (\<lambda>(p, g). \<lparr>ov_ManagerID = i, ov_Permission = p, ov_Granted = g\<rparr>) es"
    using i by (auto simp: replaceOverrides_def overridesOf_def filter_empty_conv filter_id_conv split: if_splits)
  have base: "basePermissions j db' = basePermissions j db"
    using same joined_cong [OF same] by (simp add: basePermissions_def)
  have "Can m q \<or> liftsDeny p j i es db"
    if q: "q \<in> set (resolvePermissions j db')" "q \<notin> set (resolvePermissions j db)" "q \<in> {p, permWildcard}" for q
  proof (cases "\<exists>x \<in> set (overridesOf j db'). ov_Permission x = q \<and> ov_Granted x")
    case True
    then have "(j, q) \<in> overrideGrants db'" by (auto simp: overrideGrants_def overridesOf_def)
    moreover have "(j, q) \<notin> overrideGrants db"
      using q(2) permissions_resolved [OF assms(2)] by (auto simp: overrideGrants_def overridesOf_def)
    ultimately show ?thesis using putOverrides_grants [OF assms(1)] by blast
  next
    case no: False
    have d: "distinct (map ov_Permission (overridesOf j db'))" using e(1,2) by (simp add: comp_def split_def)
    have "q \<in> basePermissions j db" "(q, False) \<notin> set es"
      using q(1) no permissions_resolved [OF d, of q] e(2) base by auto
    then show ?thesis using q(2,3) permissions_resolved [OF assms(2), of q] i by (auto simp: liftsDeny_def)
  qed
  then show ?thesis using mayDo_gained [of j db' db p m "liftsDeny p j i es db"] assms(3,4) by blast
qed

text \<open>
  C20: what the escalation guard secures. Take any manager \<open>j\<close> and any permission \<open>p\<close> he does not hold, directly or by the wildcard; role ids are unique,
  and so are the overrides of a manager for a permission (the keys of the tables). If he holds \<open>p\<close> after the acting manager created a role, edited a
  role or replaced overrides, then the acting manager holds \<open>p\<close>, with two exceptions: the request took all permissions from \<open>j\<close>'s role (an empty
  role falls back to built-in permissions), or it lifted a deny override of \<open>j\<close> for \<open>p\<close> or the wildcard (only granted overrides are checked). Likewise a
  permission that a role has afterwards and had not before is one the acting manager holds. For the two role requests, the empty permission must not be
  named.
\<close>

theorem grants_guarded:
  assumes "distinct (map ro_ID (au_roles db))" and "distinct (map ov_Permission (overridesOf j db))" and "\<not> mayDo db j p"
  shows "('''' \<notin> set (cr_Permissions creq) \<longrightarrow> mayDo (snd (createRoleHandler down (Some m) creq db)) j p \<longrightarrow> Can m p)
     \<and> ('''' \<notin> set (fieldOr (ur_Permissions ureq) []) \<longrightarrow> mayDo (snd (updateRoleHandler down (Some m) i ureq db)) j p
          \<longrightarrow> Can m p \<or> emptiesRoleOf j i ureq db)
     \<and> (mayDo (snd (putManagerOverridesHandler down (Some m) i es db)) j p \<longrightarrow> Can m p \<or> liftsDeny p j i es db)
     \<and> ('''' \<notin> set (cr_Permissions creq) \<longrightarrow>
          (r, q) \<in> roleGrants (snd (createRoleHandler down (Some m) creq db)) - roleGrants db \<longrightarrow> Can m q)
     \<and> ('''' \<notin> set (fieldOr (ur_Permissions ureq) []) \<longrightarrow>
          (r, q) \<in> roleGrants (snd (updateRoleHandler down (Some m) i ureq db)) - roleGrants db \<longrightarrow> Can m q)"
proof (intro conjI impI)
  show "Can m p" if "'''' \<notin> set (cr_Permissions creq)" "mayDo (snd (createRoleHandler down (Some m) creq db)) j p"
    using createRole_mayDo [OF surjective_pairing that(1) assms(1,2) that(2) assms(3)] .
  show "Can m p \<or> emptiesRoleOf j i ureq db"
    if "'''' \<notin> set (fieldOr (ur_Permissions ureq) [])" "mayDo (snd (updateRoleHandler down (Some m) i ureq db)) j p"
    using updateRole_mayDo [OF surjective_pairing assms(1) that(1) assms(2) that(2) assms(3)] .
  show "Can m p \<or> liftsDeny p j i es db" if "mayDo (snd (putManagerOverridesHandler down (Some m) i es db)) j p"
    using putOverrides_mayDo [OF surjective_pairing assms(2) that assms(3)] .
  show "Can m q" if "'''' \<notin> set (cr_Permissions creq)" "(r, q) \<in> roleGrants (snd (createRoleHandler down (Some m) creq db)) - roleGrants db"
    using createRole_grants [OF surjective_pairing that] .
  show "Can m q" if "'''' \<notin> set (fieldOr (ur_Permissions ureq) [])" "(r, q) \<in> roleGrants (snd (updateRoleHandler down (Some m) i ureq db)) - roleGrants db"
    using updateRole_grants [OF surjective_pairing assms(1) that] .
qed

text \<open>
  C37: the empty permission disarms the guard. A manager without any permission beyond the route's can create a role with the wildcard, by naming the
  empty permission before it: both checks report nothing found.
\<close>

theorem empty_permission_disarms_guard:
  assumes "\<not> Can m ''''" and "roleNamed name db = None" and "2 \<le> length name" and "length name \<le> 64" and "\<not> down ''createRole''"
  shows "\<exists>i db'. createRoleHandler down (Some m) \<lparr>cr_Name = name, cr_Description = '''', cr_Require2FA = False, cr_Permissions = ['''', permWildcard]\<rparr> db
       = (OK i, db') \<and> (i, permWildcard) \<in> roleGrants db'"
proof -
  let ?r = "\<lparr>ro_ID = formatUint (au_nextID db), ro_Name = name, ro_Description = '''', ro_IsBuiltin = False, ro_Require2FA = False,
    ro_Permissions = dedupe ['''', permWildcard]\<rparr>"
  let ?db = "db\<lparr>au_nextID := Suc (au_nextID db), au_roles := au_roles db @ [?r]\<rparr>"
  have "createRoleHandler down (Some m) \<lparr>cr_Name = name, cr_Description = '''', cr_Require2FA = False, cr_Permissions = ['''', permWildcard]\<rparr> db
      = (OK (formatUint (au_nextID db)), audit down (Some m) ''roles.create'' ''role'' (formatUint (au_nextID db)) ?db)"
    using assms catalog_nonempty by (simp add: createRoleHandler_def escalationCheck_def createRole_def Let_def)
  moreover have "(ro_ID ?r, permWildcard) \<in> roleGrants ?db" by (simp add: roleGrants_mem)
  ultimately show ?thesis by auto
qed

section \<open>Editing roles and managers\<close>

lemma lookup_update:
  assumes "\<And>m. mr_ID (f m) = mr_ID m"
  shows "lookupManagerByID i (updateManager i f db) = map_option f (lookupManagerByID i db)"
proof -
  have "find (\<lambda>m. mr_ID m = i) (map (\<lambda>m. if mr_ID m = i then f m else m) ms) = map_option f (find (\<lambda>m. mr_ID m = i) ms)" for ms
    by (induction ms) (simp_all add: assms)
  then show ?thesis by (simp add: lookupManagerByID_def updateManager_def)
qed

lemma updateManager_fields [simp]:
  "au_roles (updateManager i f db) = au_roles db" "au_overrides (updateManager i f db) = au_overrides db"
  by (simp_all add: updateManager_def)

definition editRole :: "string \<Rightarrow> updateManagerRequest" where
  "editRole role = \<lparr>um_Role = Some role, um_Scoped = None, um_Password = None, um_Disabled = None, um_Profile = replicate 5 None\<rparr>"

text \<open>A request that only names a role, when no statement fails.\<close>

lemma editRole_effect:
  assumes "lookupManagerByID i db = Some x" and "roleNamed role db \<noteq> None" and "\<And>s. \<not> down s"
  shows "updateManagerHandler down hash mgr i (editRole role) db
     = (OK (), audit down mgr ''managers.update'' ''manager'' i (updateManagerRoleScope i role (mr_Scoped x) db))"
  using assms by (simp add: updateManagerHandler_def editRole_def updateProfileStep_def updateDisabledStep_def updatePasswordStep_def andThen_def fieldOr_def
      list_all_length)

lemma resolve_cong: "lookupManagerByID i db = lookupManagerByID i db' \<Longrightarrow> au_roles db = au_roles db' \<Longrightarrow> au_overrides db = au_overrides db' \<Longrightarrow>
    resolvePermissions i db = resolvePermissions i db'"
  by (cases "Option.bind (lookupManagerByID i db') mr_RoleID") (simp_all add: resolvePermissions_def joinedPermissions_def overridesOf_def getRole_def Let_def)

lemma lookup_audit [simp]: "lookupManagerByID i (audit down mgr a e j db) = lookupManagerByID i db"
  by (simp add: lookupManagerByID_def)

lemma getRole_roles: "au_roles db = au_roles db' \<Longrightarrow> getRole r db = getRole r db'"
  by (simp add: getRole_def)

text \<open>
  Assigning a role is not guarded. Whoever may edit managers can give any manager, himself included, the role of the administrators, and with it every
  permission, whatever he holds.
\<close>

theorem role_assignment_unguarded:
  assumes "lookupManagerByID i db = Some x" and "roleNamed RoleAdmin db = Some r" and "getRole (ro_ID r) db = Some r"
    and "permWildcard \<in> set (ro_Permissions r)" and "overridesOf i db = []" and "\<And>s. \<not> down s"
  shows "fst (updateManagerHandler down hash (Some m) i (editRole RoleAdmin) db) = OK ()
     \<and> permWildcard \<in> set (resolvePermissions i (snd (updateManagerHandler down hash (Some m) i (editRole RoleAdmin) db)))"
proof -
  let ?db = "updateManagerRoleScope i RoleAdmin (mr_Scoped x) db"
  have "updateManagerHandler down hash (Some m) i (editRole RoleAdmin) db = (OK (), audit down (Some m) ''managers.update'' ''manager'' i ?db)"
    using assms(1,2,6) by (intro editRole_effect) simp_all
  moreover have "lookupManagerByID i ?db = Some (x\<lparr>mr_Role := RoleAdmin, mr_RoleID := Some (ro_ID r), mr_Scoped := mr_Scoped x\<rparr>)"
    unfolding updateManagerRoleScope_def by (subst lookup_update) (simp_all add: assms(1,2))
  moreover have "getRole (ro_ID r) ?db = Some r" using assms(3) by (simp add: getRole_def updateManagerRoleScope_def)
  moreover have "overridesOf i ?db = []" using assms(5) by (simp add: overridesOf_def updateManagerRoleScope_def)
  ultimately show ?thesis using assms(4) resolve_cong [of i "audit down (Some m) ''managers.update'' ''manager'' i ?db" ?db]
    by (auto simp: resolvePermissions_def joinedPermissions_def Let_def)
qed

text \<open>
  A role without permissions restores the defaults. Taking all permissions from a role gives a manager of that role the built-in permissions of
  his role's name, because an empty role is not told from a missing one.
\<close>

theorem emptied_role_restores_defaults:
  assumes "getRole rid db = Some r" and "distinct (map ro_Name (au_roles db))" and "lookupManagerByID i db = Some x" and "mr_RoleID x = Some rid"
    and "overridesOf i db = []" and "\<And>s. \<not> down s"
  shows "fst (updateRoleHandler down (Some m) rid \<lparr>ur_Name = None, ur_Description = None, ur_Require2FA = None, ur_Permissions = Some []\<rparr> db) = OK ()
     \<and> set (resolvePermissions i
           (snd (updateRoleHandler down (Some m) rid \<lparr>ur_Name = None, ur_Description = None, ur_Require2FA = None, ur_Permissions = Some []\<rparr> db)))
       = (if mr_Role x = RoleAdmin then {permWildcard} else set (rolePermissions (mr_Role x)))"
proof -
  let ?f = "\<lambda>y. if ro_ID y = rid then y\<lparr>ro_Name := ro_Name r, ro_Description := ro_Description r, ro_Require2FA := ro_Require2FA r, ro_Permissions := dedupe []\<rparr> else y"
  let ?db = "db\<lparr>au_roles := map ?f (au_roles db)\<rparr>"
  have r: "r \<in> set (au_roles db)" "ro_ID r = rid" using assms(1) by (auto simp: getRole_def find_Some_iff)
  have "\<not> list_ex (\<lambda>y. ro_ID y \<noteq> rid \<and> ro_Name y = ro_Name r) (au_roles db)" using assms(2) r by (auto simp: list_ex_iff distinct_map inj_on_def)
  then have h: "updateRoleHandler down (Some m) rid \<lparr>ur_Name = None, ur_Description = None, ur_Require2FA = None, ur_Permissions = Some []\<rparr> db
      = (OK (), audit down (Some m) ''roles.update'' ''role'' rid ?db)"
    using assms(1,6) by (simp add: updateRoleHandler_def updateRole_def escalationCheck_def diffAdded_def fieldOr_def cong: if_cong)
  have "find (\<lambda>y. ro_ID y = rid) (map ?f ys) = map_option ?f (find (\<lambda>y. ro_ID y = rid) ys)" for ys :: "roleRow list" by (induction ys) simp_all
  then have "getRole rid ?db = Some (?f r)" using assms(1) by (simp add: getRole_def)
  moreover have "lookupManagerByID i ?db = Some x" "overridesOf i ?db = []" using assms(3,5) by (simp_all add: lookupManagerByID_def overridesOf_def)
  ultimately have "set (resolvePermissions i ?db) = (if mr_Role x = RoleAdmin then {permWildcard} else set (rolePermissions (mr_Role x)))"
    using assms(4) r(2) by (simp add: resolvePermissions_def joinedPermissions_def Let_def dedupe_def rolePermissions_def RoleAdmin_def RoleOperator_def RoleAgent_def)
  then show ?thesis using h resolve_cong [of i "audit down (Some m) ''roles.update'' ''role'' rid ?db" ?db] by simp
qed

text \<open>
  The last administrator can be demoted. Removing or disabling the last manager who can administer managers is refused, but giving him another role is not: no
  active manager can administer managers afterwards.
\<close>

theorem last_admin_demoted:
  assumes "lookupManagerByID i db = Some x" and "distinct (map mr_ID (au_managers db))" and "\<not> otherActiveManagerAdminExists i db"
    and "roleNamed role db = Some r" and "getRole (ro_ID r) db = Some r" and "role \<noteq> ''admin''"
    and "\<not> list_ex (\<lambda>p. p \<in> {''*'', ''managers.edit''}) (ro_Permissions r)"
    and "\<not> list_ex (\<lambda>v. ov_ManagerID v = i \<and> ov_Granted v) (au_overrides db)" and "\<And>s. \<not> down s"
  shows "fst (updateManagerHandler down hash mgr i (editRole role) db) = OK ()
     \<and> \<not> list_ex (\<lambda>y. \<not> mr_Disabled y \<and> isManagerAdmin (snd (updateManagerHandler down hash mgr i (editRole role) db)) y)
           (au_managers (snd (updateManagerHandler down hash mgr i (editRole role) db)))"
proof -
  let ?g = "\<lambda>m. m\<lparr>mr_Role := role, mr_RoleID := Some (ro_ID r), mr_Scoped := mr_Scoped x\<rparr>"
  let ?db = "updateManagerRoleScope i role (mr_Scoped x) db"
  let ?db' = "audit down mgr ''managers.update'' ''manager'' i ?db"
  have h: "updateManagerHandler down hash mgr i (editRole role) db = (OK (), ?db')"
    using assms(1,4,9) by (intro editRole_effect) simp_all
  have db: "?db = updateManager i ?g db" using assms(4) by (simp add: updateManagerRoleScope_def)
  define new where "new = ?db'"
  have same: "isManagerAdmin new y = isManagerAdmin db y" for y by (simp add: new_def isManagerAdmin_def db getRole_def)
  have rows: "au_managers new = map (\<lambda>m. if mr_ID m = i then ?g m else m) (au_managers db)" by (simp add: new_def db updateManager_def)
  have "\<not> isManagerAdmin db (?g y)" if "mr_ID y = i" for y
    using assms(5-8) that by (auto simp: isManagerAdmin_def list_ex_iff)
  moreover have "mr_Disabled y \<or> \<not> isManagerAdmin db y" if "y \<in> set (au_managers db)" "mr_ID y \<noteq> i" for y
    using assms(3) that by (auto simp: otherActiveManagerAdminExists_def list_ex_iff)
  ultimately show ?thesis unfolding h new_def [symmetric] by (auto simp: same list_ex_iff rows split: if_splits)
qed

section \<open>A sample installation\<close>

text \<open>The seeded roles, one administrator and one operator who may edit managers.\<close>

definition sampleRole :: "string \<Rightarrow> string \<Rightarrow> string list \<Rightarrow> roleRow" where
  "sampleRole i name ps = \<lparr>ro_ID = i, ro_Name = name, ro_Description = '''', ro_IsBuiltin = True, ro_Require2FA = False, ro_Permissions = ps\<rparr>"

definition sampleMgr :: "string \<Rightarrow> string \<Rightarrow> string \<Rightarrow> managerAuthRow" where
  "sampleMgr i role rid = \<lparr>mr_ID = i, mr_Username = i, mr_PasswordHash = ''hash'', mr_Role = role, mr_RoleID = Some rid, mr_Scoped = False,
     mr_Disabled = False, mr_TOTPEnabled = False, mr_TOTPSecretEnc = '''', mr_TOTPPendingEnc = '''', mr_Profile = replicate 5 None\<rparr>"

definition sampleAuth :: AuthDB where
  "sampleAuth = \<lparr>au_managers = [sampleMgr ''anna'' ''admin'' ''r1'', sampleMgr ''omar'' ''operator'' ''r2''],
     au_roles = [sampleRole ''r1'' ''admin'' [''*''], sampleRole ''r2'' ''operator'' (rolePermissions ''operator''),
       sampleRole ''r3'' ''agent'' (rolePermissions ''agent'')],
     au_overrides = [], au_sessions = [], au_backupCodes = [], au_allowlist = [], au_audit = [], au_nextID = 1, au_ledgerActors = []\<rparr>"

definition sampleActor :: Manager where
  "sampleActor = \<lparr>ma_ID = ''omar'', ma_Role = ''operator'', ma_Scoped = False, ma_SessionID = ''s1'', ma_IP = '''', ma_UA = '''',
     ma_Perms = Some [''managers.edit'', ''managers.create''], ma_AllowedIPs = []\<rparr>"

definition noneDown :: "string \<Rightarrow> bool" where "noneDown s = False"

lemmas sample_auth = sampleAuth_def sampleMgr_def sampleRole_def lookupManagerByID_def roleNamed_def getRole_def overridesOf_def noneDown_def

theorem permissions_resolved_witness: "''renew'' \<in> set (resolvePermissions ''omar'' sampleAuth)"
  using permissions_resolved [of "''omar''" sampleAuth "''renew''"]
  by (simp add: sample_auth basePermissions_def joinedPermissions_def rolePermissions_def RoleOperator_def)

text \<open>
  An operator's own role given one more permission by a colleague who lacks it: refused. The same role emptied by him, or the deny override of a
  manager lifted by him: the permissions of the role come back.
\<close>

definition deniedAuth :: AuthDB where
  "deniedAuth = sampleAuth\<lparr>au_overrides := [\<lparr>ov_ManagerID = ''omar'', ov_Permission = ''renew'', ov_Granted = False\<rparr>]\<rparr>"

lemmas sample_roles = rolePermissions_def RoleOperator_def RoleAgent_def RoleAdmin_def permWildcard_def

theorem grants_guarded_witness:
  "\<not> mayDo (snd (updateRoleHandler noneDown (Some sampleActor) ''r2''
      \<lparr>ur_Name = None, ur_Description = None, ur_Require2FA = None, ur_Permissions = Some [''refund'']\<rparr> deniedAuth)) ''omar'' ''refund''
   \<and> liftsDeny ''renew'' ''omar'' ''omar'' [] deniedAuth
   \<and> mayDo (snd (putManagerOverridesHandler noneDown (Some sampleActor) ''omar'' [] deniedAuth)) ''omar'' ''renew''"
proof -
  let ?empty = "[] :: (string \<times> bool) list"
  have o: "overridesOf ''omar'' deniedAuth = [\<lparr>ov_ManagerID = ''omar'', ov_Permission = ''renew'', ov_Granted = False\<rparr>]"
    by (simp add: overridesOf_def deniedAuth_def)
  have r: "distinct (map ro_ID (au_roles deniedAuth))" by (simp add: deniedAuth_def sample_auth)
  have d: "distinct (map ov_Permission (overridesOf ''omar'' deniedAuth))" by (simp add: o)
  have c: "\<not> Can sampleActor ''refund''" "\<not> Can sampleActor ''renew''" by (simp_all add: sampleActor_def Can_def permWildcard_def)
  have n: "\<not> mayDo deniedAuth ''omar'' ''refund''" "\<not> mayDo deniedAuth ''omar'' ''renew''"
    by (simp_all add: mayDo_def resolvePermissions_def joinedPermissions_def deniedAuth_def sample_auth sample_roles applyOverride_def Let_def)
  have lifted: "mayDo (snd (putManagerOverridesHandler noneDown (Some sampleActor) ''omar'' [] deniedAuth)) ''omar'' ''renew''"
    by (simp add: putManagerOverridesHandler_def replaceOverrides_def escalationCheck_def audit_def mayDo_def resolvePermissions_def joinedPermissions_def
        deniedAuth_def sample_auth sample_roles applyOverride_def Let_def)
  show ?thesis
    using grants_guarded [OF r d n(1), of _ noneDown sampleActor
        "\<lparr>ur_Name = None, ur_Description = None, ur_Require2FA = None, ur_Permissions = Some [''refund'']\<rparr>" "''r2''"]
      grants_guarded [OF r d n(2), of _ noneDown sampleActor _ "''omar''" ?empty] c lifted
    by (auto simp: fieldOr_def emptiesRoleOf_def)
qed

theorem empty_permission_disarms_guard_witness:
  "\<exists>i db'. createRoleHandler noneDown (Some sampleActor) \<lparr>cr_Name = ''own'', cr_Description = '''', cr_Require2FA = False, cr_Permissions = ['''', permWildcard]\<rparr>
      sampleAuth = (OK i, db') \<and> (i, permWildcard) \<in> roleGrants db'"
  by (rule empty_permission_disarms_guard) (simp_all add: sample_auth sampleActor_def Can_def permWildcard_def)

theorem role_assignment_unguarded_witness:
  "permWildcard \<in> set (resolvePermissions ''omar'' (snd (updateManagerHandler noneDown None (Some sampleActor) ''omar'' (editRole RoleAdmin) sampleAuth)))"
  using role_assignment_unguarded [of "''omar''" sampleAuth "sampleMgr ''omar'' ''operator'' ''r2''" "sampleRole ''r1'' ''admin'' [''*'']" noneDown None sampleActor]
  by (simp add: sample_auth permWildcard_def RoleAdmin_def)

theorem emptied_role_restores_defaults_witness:
  "set (resolvePermissions ''omar'' (snd (updateRoleHandler noneDown (Some sampleActor) ''r2''
      \<lparr>ur_Name = None, ur_Description = None, ur_Require2FA = None, ur_Permissions = Some []\<rparr> sampleAuth))) = set (rolePermissions ''operator'')"
  using emptied_role_restores_defaults [of "''r2''" sampleAuth "sampleRole ''r2'' ''operator'' (rolePermissions ''operator'')" "''omar''"
      "sampleMgr ''omar'' ''operator'' ''r2''" noneDown sampleActor]
  by (simp add: sample_auth RoleAdmin_def)

theorem last_admin_demoted_witness:
  "\<not> list_ex (\<lambda>y. \<not> mr_Disabled y \<and> isManagerAdmin (snd (updateManagerHandler noneDown None (Some sampleActor) ''anna'' (editRole ''agent'') sampleAuth)) y)
       (au_managers (snd (updateManagerHandler noneDown None (Some sampleActor) ''anna'' (editRole ''agent'') sampleAuth)))"
  using last_admin_demoted [of "''anna''" sampleAuth "sampleMgr ''anna'' ''admin'' ''r1''" "''agent''" "sampleRole ''r3'' ''agent'' (rolePermissions ''agent'')"
      noneDown None "Some sampleActor"]
  by (simp add: sample_auth otherActiveManagerAdminExists_def isManagerAdmin_def rolePermissions_def RoleOperator_def RoleAgent_def)

end
