(* ===== verification/Approvals.thy ===== *)
theory Approvals
  imports AuthPerms
begin

text \<open>
  The approval queue of \<^verbatim>\<open>backend/internal/approvals/approvals.go\<close>. A kind of action has one executor in a registry. A manager who is not
  scoped runs it at once; the action of a scoped manager is parked as a row of \<^verbatim>\<open>approval_requests\<close> and runs when the row is approved.

  The executors and the state they act on (\<open>'w\<close>) are those of the packages that register them, so the definitions take the registry as
  an argument, as the package does. An executor gets the circumstances of its call (\<open>'x\<close>: the time, what fails), the payload and the acting
  manager. \<open>apEnv\<close> has the circumstances of the statements on the queue itself: a statement can fail, or be applied and its answer lost.
\<close>

section \<open>Data\<close>

datatype json = JNull | JBool bool | JString string | JObject "(string \<times> json) list"

text \<open>A string or boolean field of a decoded struct: a missing field is the zero value, a field of another type an error.\<close>

definition jsonString :: "string \<Rightarrow> json \<Rightarrow> string option" where
  "jsonString k j =
     (case j of
        JObject fs \<Rightarrow> (case map_of fs k of None \<Rightarrow> Some '''' | Some JNull \<Rightarrow> Some '''' | Some (JString s) \<Rightarrow> Some s | Some _ \<Rightarrow> None)
      | JNull \<Rightarrow> Some ''''
      | _ \<Rightarrow> None)"

datatype 'e apprErr = ErrUnknownKind | ErrNotFound | ErrNotPending | ErrQuery | ErrExec 'e

text \<open>What \<^verbatim>\<open>Approve\<close> stores: \<^verbatim>\<open>ok\<close>, \<^verbatim>\<open>value\<close> and \<^verbatim>\<open>error\<close>; the error stands for its text.\<close>

record 'e storedResult =
  sr_OK :: bool
  sr_Value :: json
  sr_Error :: "'e option"

record 'e Request =
  rq_ID :: string
  rq_Kind :: string
  rq_Payload :: json
  rq_RequestedBy :: string
  rq_Description :: string
  rq_State :: string
  rq_DecidedBy :: "string option"
  rq_DecidedAt :: "gotime option"
  rq_RejectReason :: "string option"
  rq_Result :: "'e storedResult option"
  rq_CreatedAt :: gotime

record ('e, 'w) Approvals =
  ap_requests :: "'e Request list"
  ap_nextID :: nat
  ap_world :: 'w

record 'x apEnv =
  ae_now :: gotime
  ae_knownManager :: "string \<Rightarrow> bool"
  ae_fails :: bool
  ae_lost :: bool
  ae_lookupFails :: bool
  ae_saveFails :: bool
  ae_exec :: 'x

type_synonym ('x, 'e, 'w) Executor = "'x \<Rightarrow> json \<Rightarrow> string \<Rightarrow> 'w \<Rightarrow> ('e + json) \<times> 'w"

type_synonym ('x, 'e, 'w) Registry = "(string \<times> ('x, 'e, 'w) Executor) list"

section \<open>Operations\<close>

text \<open>\<^verbatim>\<open>Register\<close>: a second executor for a kind panics.\<close>

definition Register :: "string \<Rightarrow> ('x, 'e, 'w) Executor \<Rightarrow> ('x, 'e, 'w) Registry \<Rightarrow> ('x, 'e, 'w) Registry option" where
  "Register kind exec reg = (if map_of reg kind \<noteq> None then None else Some ((kind, exec) # reg))"

definition executorFor :: "('x, 'e, 'w) Registry \<Rightarrow> string \<Rightarrow> ('x, 'e, 'w) Executor option" where
  "executorFor reg kind = map_of reg kind"

definition RequestOrExecute ::
    "'x apEnv \<Rightarrow> ('x, 'e, 'w) Registry \<Rightarrow> string \<Rightarrow> json \<Rightarrow> Manager option \<Rightarrow> string \<Rightarrow> ('e, 'w) Approvals
       \<Rightarrow> ('e apprErr + bool \<times> string \<times> json) \<times> ('e, 'w) Approvals" where
  "RequestOrExecute env reg kind payload mgr description q =
     (case executorFor reg kind of
        None \<Rightarrow> (Inl ErrUnknownKind, q)
      | Some exec \<Rightarrow>
          (let actorID = (case mgr of None \<Rightarrow> '''' | Some m \<Rightarrow> ma_ID m) in
           if (case mgr of None \<Rightarrow> False | Some m \<Rightarrow> ma_Scoped m) then
             (if ae_fails env \<or> \<not> ae_knownManager env actorID then (Inl ErrQuery, q)
              else let i = formatUint (ap_nextID q);
                       q1 = q\<lparr>ap_nextID := Suc (ap_nextID q), ap_requests := ap_requests q @ [\<lparr>rq_ID = i, rq_Kind = kind, rq_Payload = payload,
                              rq_RequestedBy = actorID, rq_Description = description, rq_State = ''pending'', rq_DecidedBy = None,
                              rq_DecidedAt = None, rq_RejectReason = None, rq_Result = None, rq_CreatedAt = ae_now env\<rparr>]\<rparr>
                   in if ae_lost env then (Inl ErrQuery, q1) else (Inr (True, i, JNull), q1))
           else case exec (ae_exec env) payload actorID (ap_world q) of
                  (Inl e, w) \<Rightarrow> (Inl (ErrExec e), q\<lparr>ap_world := w\<rparr>)
                | (Inr v, w) \<Rightarrow> (Inr (False, '''', v), q\<lparr>ap_world := w\<rparr>)))"

definition findRequest :: "string \<Rightarrow> ('e, 'w) Approvals \<Rightarrow> 'e Request option" where
  "findRequest i q = find (\<lambda>r. rq_ID r = i) (ap_requests q)"

definition updateRequest :: "string \<Rightarrow> ('e Request \<Rightarrow> 'e Request) \<Rightarrow> ('e, 'w) Approvals \<Rightarrow> ('e, 'w) Approvals" where
  "updateRequest i f q = q\<lparr>ap_requests := map (\<lambda>r. if rq_ID r = i then f r else r) (ap_requests q)\<rparr>"

text \<open>
  An update of the row \<open>i\<close> if it is pending and meets \<open>cond\<close>. The deciding manager is a foreign key; the empty id is no uuid. Where no row is changed the
  caller tells a missing row from a decided one by a second query, whose failure reads as a missing row.
\<close>

definition missing :: "'x apEnv \<Rightarrow> string \<Rightarrow> ('e, 'w) Approvals \<Rightarrow> 'e apprErr" where
  "missing env i q = (if findRequest i q \<noteq> None \<and> \<not> ae_lookupFails env then ErrNotPending else ErrNotFound)"

definition decideRow ::
    "'x apEnv \<Rightarrow> string \<Rightarrow> string \<Rightarrow> ('e Request \<Rightarrow> 'e Request) \<Rightarrow> ('e, 'w) Approvals \<Rightarrow> ('e apprErr + 'e Request) \<times> ('e, 'w) Approvals" where
  "decideRow env i decider f q =
     (if ae_fails env \<or> decider = '''' then (Inl ErrQuery, q)
      else case findRequest i q of
        None \<Rightarrow> (Inl (missing env i q), q)
      | Some r \<Rightarrow>
          (if rq_State r \<noteq> ''pending'' then (Inl (missing env i q), q)
           else if \<not> ae_knownManager env decider then (Inl ErrQuery, q)
           else (if ae_lost env then Inl ErrQuery else Inr r,
                 updateRequest i (\<lambda>r. f (r\<lparr>rq_DecidedBy := Some decider, rq_DecidedAt := Some (ae_now env)\<rparr>)) q)))"

text \<open>The three parts of \<^verbatim>\<open>Approve\<close>: the claim, the executor, the stored result.\<close>

definition claimRequest :: "'x apEnv \<Rightarrow> string \<Rightarrow> string \<Rightarrow> ('e, 'w) Approvals \<Rightarrow> ('e apprErr + string \<times> json) \<times> ('e, 'w) Approvals" where
  "claimRequest env i approver q =
     (case decideRow env i approver (\<lambda>r. r\<lparr>rq_State := ''approved''\<rparr>) q of
        (Inl e, q1) \<Rightarrow> (Inl e, q1)
      | (Inr r, q1) \<Rightarrow> (Inr (rq_Kind r, rq_Payload r), q1))"

definition runExecutor ::
    "'x \<Rightarrow> ('x, 'e, 'w) Executor \<Rightarrow> json \<Rightarrow> string \<Rightarrow> ('e, 'w) Approvals \<Rightarrow> ('e + json) \<times> ('e, 'w) Approvals" where
  "runExecutor x exec payload actor q = (case exec x payload actor (ap_world q) of (r, w) \<Rightarrow> (r, q\<lparr>ap_world := w\<rparr>))"

definition resultOf :: "'e + json \<Rightarrow> 'e storedResult" where
  "resultOf r = (case r of Inl e \<Rightarrow> \<lparr>sr_OK = False, sr_Value = JNull, sr_Error = Some e\<rparr>
                 | Inr v \<Rightarrow> \<lparr>sr_OK = True, sr_Value = v, sr_Error = None\<rparr>)"

definition saveResult :: "'x apEnv \<Rightarrow> string \<Rightarrow> 'e + json \<Rightarrow> ('e, 'w) Approvals \<Rightarrow> ('e, 'w) Approvals" where
  "saveResult env i r q = (if ae_saveFails env then q else updateRequest i (rq_Result_update (\<lambda>_. Some (resultOf r))) q)"

definition Approve ::
    "'x apEnv \<Rightarrow> ('x, 'e, 'w) Registry \<Rightarrow> string \<Rightarrow> string \<Rightarrow> ('e, 'w) Approvals \<Rightarrow> ('e apprErr + json) \<times> ('e, 'w) Approvals" where
  "Approve env reg i approver q =
     (case claimRequest env i approver q of
        (Inl e, q1) \<Rightarrow> (Inl e, q1)
      | (Inr (kind, payload), q1) \<Rightarrow>
          (case executorFor reg kind of
             None \<Rightarrow> (Inl ErrUnknownKind, q1)
           | Some exec \<Rightarrow>
               (case runExecutor (ae_exec env) exec payload approver q1 of
                  (r, q2) \<Rightarrow> ((case r of Inl e \<Rightarrow> Inl (ErrExec e) | Inr v \<Rightarrow> Inr v), saveResult env i r q2))))"

definition Reject :: "'x apEnv \<Rightarrow> string \<Rightarrow> string \<Rightarrow> string \<Rightarrow> ('e, 'w) Approvals \<Rightarrow> ('e apprErr + unit) \<times> ('e, 'w) Approvals" where
  "Reject env i approver reason q =
     (case decideRow env i approver (\<lambda>r. r\<lparr>rq_State := ''rejected'', rq_RejectReason := Some reason\<rparr>) q of
        (Inl e, q1) \<Rightarrow> (Inl e, q1)
      | (Inr r, q1) \<Rightarrow> (Inr (), q1))"

definition Withdraw :: "'x apEnv \<Rightarrow> string \<Rightarrow> string \<Rightarrow> ('e, 'w) Approvals \<Rightarrow> ('e apprErr + unit) \<times> ('e, 'w) Approvals" where
  "Withdraw env i requester q =
     (if ae_fails env \<or> requester = '''' then (Inl ErrQuery, q)
      else case findRequest i q of
        None \<Rightarrow> (Inl ErrNotPending, q)
      | Some r \<Rightarrow>
          (if rq_State r \<noteq> ''pending'' \<or> rq_RequestedBy r \<noteq> requester then (Inl ErrNotPending, q)
           else (if ae_lost env then Inl ErrQuery else Inr (), updateRequest i (\<lambda>r. r\<lparr>rq_State := ''withdrawn''\<rparr>) q)))"

definition Get :: "'x apEnv \<Rightarrow> string \<Rightarrow> ('e, 'w) Approvals \<Rightarrow> 'e apprErr + 'e Request" where
  "Get env i q = (if ae_fails env then Inl ErrQuery else case findRequest i q of None \<Rightarrow> Inl ErrNotFound | Some r \<Rightarrow> Inr r)"

text \<open>\<^verbatim>\<open>List\<close>: the newest requests of a state (any when empty) and of a requester (any when empty).\<close>

definition List_requests :: "'x apEnv \<Rightarrow> string \<Rightarrow> string \<Rightarrow> nat \<Rightarrow> ('e, 'w) Approvals \<Rightarrow> 'e apprErr + 'e Request list" where
  "List_requests env state mine limit q =
     (if ae_fails env then Inl ErrQuery
      else Inr (take limit (rev (sort_key rq_CreatedAt
             (filter (\<lambda>r. (state = '''' \<or> rq_State r = state) \<and> (mine = '''' \<or> rq_RequestedBy r = mine)) (ap_requests q))))))"

section \<open>Managers at work\<close>

text \<open>
  The process under concurrent requests. \<^verbatim>\<open>Approve\<close> is not one transaction: after the claim, the executor and the stored result are separate steps,
  between which anything can happen, and a crash loses what was not done. \<open>pr_claimed\<close> has the calls that hold a claim and have not run their
  executor, \<open>pr_unsaved\<close> those that have run it and not stored its result. \<open>pr_ran\<close> lists the executor calls on behalf of a request.
  Other handlers change the state of the program in any way.
\<close>

record claimed =
  cl_ID :: string
  cl_Kind :: string
  cl_Payload :: json
  cl_Approver :: string

record ('e, 'w) Process =
  pr_queue :: "('e, 'w) Approvals"
  pr_claimed :: "claimed list"
  pr_unsaved :: "(string \<times> ('e + json)) list"
  pr_ran :: "claimed list"

inductive procStep :: "('x, 'e, 'w) Registry \<Rightarrow> ('e, 'w) Process \<Rightarrow> ('e, 'w) Process \<Rightarrow> bool" for reg :: "('x, 'e, 'w) Registry" where
  other: "procStep reg s (s\<lparr>pr_queue := (pr_queue s)\<lparr>ap_world := w\<rparr>\<rparr>)"
| submit: "procStep reg s (s\<lparr>pr_queue := snd (RequestOrExecute env reg kind payload mgr description (pr_queue s))\<rparr>)"
| claim: "claimRequest (env :: 'x apEnv) i approver (pr_queue s) = (Inr (kind, payload), q) \<Longrightarrow>
    procStep reg s (s\<lparr>pr_queue := q, pr_claimed := \<lparr>cl_ID = i, cl_Kind = kind, cl_Payload = payload, cl_Approver = approver\<rparr> # pr_claimed s\<rparr>)"
| claimFails: "claimRequest (env :: 'x apEnv) i approver (pr_queue s) = (Inl e, q) \<Longrightarrow> procStep reg s (s\<lparr>pr_queue := q\<rparr>)"
| run: "pr_claimed s = cs @ c # ds \<Longrightarrow> executorFor reg (cl_Kind c) = Some exec \<Longrightarrow>
    runExecutor x exec (cl_Payload c) (cl_Approver c) (pr_queue s) = (r, q) \<Longrightarrow>
    procStep reg s (s\<lparr>pr_queue := q, pr_claimed := cs @ ds, pr_unsaved := (cl_ID c, r) # pr_unsaved s, pr_ran := c # pr_ran s\<rparr>)"
| unknown: "pr_claimed s = cs @ c # ds \<Longrightarrow> executorFor reg (cl_Kind c) = None \<Longrightarrow> procStep reg s (s\<lparr>pr_claimed := cs @ ds\<rparr>)"
| save: "pr_unsaved s = us @ (i, r) # vs \<Longrightarrow> procStep reg s (s\<lparr>pr_queue := saveResult (env :: 'x apEnv) i r (pr_queue s), pr_unsaved := us @ vs\<rparr>)"
| reject: "procStep reg s (s\<lparr>pr_queue := snd (Reject (env :: 'x apEnv) i approver reason (pr_queue s))\<rparr>)"
| withdraw: "procStep reg s (s\<lparr>pr_queue := snd (Withdraw (env :: 'x apEnv) i requester (pr_queue s))\<rparr>)"
| crash: "procStep reg s (s\<lparr>pr_claimed := [], pr_unsaved := []\<rparr>)"

section \<open>What a run keeps\<close>

text \<open>The rows that a state stands for: who decided, with which reason, and what may be stored.\<close>

definition rowOK :: "'e Request \<Rightarrow> bool" where
  "rowOK r \<longleftrightarrow> rq_State r \<in> {''pending'', ''approved'', ''rejected'', ''withdrawn''}
     \<and> (rq_DecidedBy r \<noteq> None \<longleftrightarrow> rq_State r \<in> {''approved'', ''rejected''}) \<and> (rq_DecidedAt r \<noteq> None \<longleftrightarrow> rq_State r \<in> {''approved'', ''rejected''})
     \<and> (rq_RejectReason r \<noteq> None \<longleftrightarrow> rq_State r = ''rejected'') \<and> (rq_Result r \<noteq> None \<longrightarrow> rq_State r = ''approved'')"

definition queueOK :: "('e, 'w) Approvals \<Rightarrow> bool" where
  "queueOK q \<longleftrightarrow> distinct (map rq_ID (ap_requests q)) \<and> (\<forall>r \<in> set (ap_requests q). idBelow (ap_nextID q) (rq_ID r) \<and> rowOK r)"

text \<open>What a later state of a row keeps: everything it was requested with, and its decision.\<close>

definition sameRequest :: "'e Request \<Rightarrow> 'e Request \<Rightarrow> bool" where
  "sameRequest r r' \<longleftrightarrow> rq_ID r' = rq_ID r \<and> rq_Kind r' = rq_Kind r \<and> rq_Payload r' = rq_Payload r \<and> rq_RequestedBy r' = rq_RequestedBy r
     \<and> rq_Description r' = rq_Description r \<and> rq_CreatedAt r' = rq_CreatedAt r
     \<and> (rq_State r \<noteq> ''pending'' \<longrightarrow> rq_State r' = rq_State r \<and> rq_DecidedBy r' = rq_DecidedBy r \<and> rq_DecidedAt r' = rq_DecidedAt r
          \<and> rq_RejectReason r' = rq_RejectReason r)"

definition laterQueue :: "('e, 'w) Approvals \<Rightarrow> ('e, 'w) Approvals \<Rightarrow> bool" where
  "laterQueue q q' \<longleftrightarrow> (\<forall>r \<in> set (ap_requests q). \<exists>r' \<in> set (ap_requests q'). sameRequest r r')"

lemma sameRequest_refl: "sameRequest r r" by (simp add: sameRequest_def)

lemma sameRequest_trans: "sameRequest a b \<Longrightarrow> sameRequest b c \<Longrightarrow> sameRequest a c"
  by (simp add: sameRequest_def)

lemma laterQueue_kept: "set (ap_requests q) \<subseteq> set (ap_requests q') \<Longrightarrow> laterQueue q q'"
  unfolding laterQueue_def using sameRequest_refl by blast

lemma laterQueue_trans: "laterQueue a b \<Longrightarrow> laterQueue b c \<Longrightarrow> laterQueue a c"
  unfolding laterQueue_def using sameRequest_trans by meson

lemma find_unique: "distinct (map f xs) \<Longrightarrow> x \<in> set xs \<Longrightarrow> find (\<lambda>y. f y = f x) xs = Some x"
  by (induction xs) auto

lemma findRequest_row: "queueOK q \<Longrightarrow> findRequest i q = Some r \<longleftrightarrow> r \<in> set (ap_requests q) \<and> rq_ID r = i"
  unfolding findRequest_def using find_unique [of rq_ID "ap_requests q" r] by (auto simp: queueOK_def find_Some_iff)

text \<open>One update of a pending row, or of the result of an approved one.\<close>

lemma update_ok:
  assumes "queueOK q" and f: "\<And>r. r \<in> set (ap_requests q) \<Longrightarrow> rq_ID r = i \<Longrightarrow> rowOK (f r) \<and> sameRequest r (f r)"
  shows "queueOK (updateRequest i f q) \<and> laterQueue q (updateRequest i f q)"
proof
  let ?g = "\<lambda>r. if rq_ID r = i then f r else r"
  have fid: "rq_ID (f r) = rq_ID r" if "r \<in> set (ap_requests q)" "rq_ID r = i" for r using f [OF that] by (simp add: sameRequest_def)
  then have "map rq_ID (map ?g (ap_requests q)) = map rq_ID (ap_requests q)" by simp
  then have "distinct (map rq_ID (map ?g (ap_requests q)))" using assms(1) by (simp only: queueOK_def)
  then show "queueOK (updateRequest i f q)" using assms(1) f fid by (auto simp: queueOK_def updateRequest_def)
  have "\<exists>r' \<in> ?g ` set (ap_requests q). sameRequest r r'" if "r \<in> set (ap_requests q)" for r
    using that f [OF that] by (intro bexI [of _ "?g r"]) (simp_all add: sameRequest_refl)
  then show "laterQueue q (updateRequest i f q)" by (simp add: laterQueue_def updateRequest_def)
qed

lemma unique_request: "queueOK q \<Longrightarrow> findRequest i q = Some r \<Longrightarrow> x \<in> set (ap_requests q) \<Longrightarrow> rq_ID x = i \<Longrightarrow> x = r"
  using findRequest_row [of q i x] by simp

lemma decideRow_effect:
  assumes ok: "queueOK q" and d: "decideRow env i decider f q = (x, q')"
    and f: "\<And>r. rowOK r \<Longrightarrow> rq_State r = ''pending'' \<Longrightarrow> rowOK (f (r\<lparr>rq_DecidedBy := Some decider, rq_DecidedAt := Some (ae_now env)\<rparr>))
       \<and> sameRequest r (f (r\<lparr>rq_DecidedBy := Some decider, rq_DecidedAt := Some (ae_now env)\<rparr>))"
  shows "queueOK q' \<and> laterQueue q q' \<and> ap_world q' = ap_world q"
proof (cases "q' = q")
  case True
  then show ?thesis using ok by (simp add: laterQueue_kept)
next
  case False
  with d obtain r where r: "findRequest i q = Some r" "rq_State r = ''pending''"
    and q': "q' = updateRequest i (\<lambda>r. f (r\<lparr>rq_DecidedBy := Some decider, rq_DecidedAt := Some (ae_now env)\<rparr>)) q"
    by (auto simp: decideRow_def split: if_splits option.splits)
  have "rowOK r" using r(1) findRequest_row [OF ok] ok by (auto simp: queueOK_def)
  then have "queueOK q' \<and> laterQueue q q'" unfolding q'
    by (intro update_ok [OF ok]) (use unique_request [OF ok r(1)] r(2) f in blast)
  then show ?thesis by (simp add: q' updateRequest_def)
qed

lemmas row_defs = rowOK_def sameRequest_def

lemma claim_effect:
  assumes "queueOK q" and "claimRequest env i a q = (x, q')"
  shows "queueOK q' \<and> laterQueue q q' \<and> ap_world q' = ap_world q"
proof -
  obtain y where "decideRow env i a (\<lambda>r. r\<lparr>rq_State := ''approved''\<rparr>) q = (y, q')"
    using assms(2) by (auto simp: claimRequest_def split: prod.splits sum.splits)
  then show ?thesis by (rule decideRow_effect [OF assms(1)]) (auto simp: row_defs)
qed

lemma claimRequest_granted:
  assumes ok: "queueOK q" and c: "claimRequest env i a q = (Inr (kind, payload), q')"
  obtains r r' where "r \<in> set (ap_requests q)" and "rq_ID r = i" and "rq_State r = ''pending''" and "r' \<in> set (ap_requests q')"
    and "rq_ID r' = i" and "rq_State r' = ''approved''" and "rq_DecidedBy r' = Some a" and "rq_Kind r' = kind" and "rq_Payload r' = payload"
proof -
  from c obtain r where r: "findRequest i q = Some r" "rq_State r = ''pending''" "kind = rq_Kind r" "payload = rq_Payload r"
    and q': "q' = updateRequest i (\<lambda>r. r\<lparr>rq_DecidedBy := Some a, rq_DecidedAt := Some (ae_now env), rq_State := ''approved''\<rparr>) q"
    by (auto simp: claimRequest_def decideRow_def split: if_splits option.splits)
  let ?r' = "r\<lparr>rq_DecidedBy := Some a, rq_DecidedAt := Some (ae_now env), rq_State := ''approved''\<rparr>"
  have m: "r \<in> set (ap_requests q)" "rq_ID r = i" using r(1) findRequest_row [OF ok] by auto
  then have "?r' \<in> set (ap_requests q')" by (force simp: q' updateRequest_def)
  then show thesis using that [of r ?r'] m r by simp
qed

lemma request_cases:
  obtains w where "snd (RequestOrExecute env reg kind payload mgr d q) = q\<lparr>ap_world := w\<rparr>"
  | row where "snd (RequestOrExecute env reg kind payload mgr d q) = q\<lparr>ap_nextID := Suc (ap_nextID q), ap_requests := ap_requests q @ [row]\<rparr>"
      and "rq_ID row = formatUint (ap_nextID q)" and "rq_State row = ''pending''" and "rowOK row"
proof -
  let ?s = "snd (RequestOrExecute env reg kind payload mgr d q)"
  have "(\<exists>w. ?s = q\<lparr>ap_world := w\<rparr>) \<or> (\<exists>row. ?s = q\<lparr>ap_nextID := Suc (ap_nextID q), ap_requests := ap_requests q @ [row]\<rparr>
      \<and> rq_ID row = formatUint (ap_nextID q) \<and> rq_State row = ''pending'' \<and> rowOK row)"
  proof (cases "executorFor reg kind")
    case None
    then show ?thesis by (intro disjI1 exI [of _ "ap_world q"]) (simp add: RequestOrExecute_def)
  next
    case (Some exec)
    let ?actor = "case mgr of None \<Rightarrow> [] | Some m \<Rightarrow> ma_ID m"
    let ?row = "\<lparr>rq_ID = formatUint (ap_nextID q), rq_Kind = kind, rq_Payload = payload, rq_RequestedBy = ?actor, rq_Description = d,
        rq_State = ''pending'', rq_DecidedBy = None, rq_DecidedAt = None, rq_RejectReason = None, rq_Result = None, rq_CreatedAt = ae_now env\<rparr>"
    have "?s = q \<or> ?s = q\<lparr>ap_world := snd (exec (ae_exec env) payload ?actor (ap_world q))\<rparr>
      \<or> ?s = q\<lparr>ap_nextID := Suc (ap_nextID q), ap_requests := ap_requests q @ [?row]\<rparr>"
      by (simp add: RequestOrExecute_def Some Let_def split: prod.split sum.split)
    then show ?thesis
    proof (elim disjE)
      assume "?s = q"
      then show ?thesis by (intro disjI1 exI [of _ "ap_world q"]) simp
    next
      assume s: "?s = q\<lparr>ap_nextID := Suc (ap_nextID q), ap_requests := ap_requests q @ [?row]\<rparr>"
      have "rowOK ?row" by (simp add: rowOK_def)
      then show ?thesis using s by (intro disjI2 exI [of _ ?row]) simp
    qed blast
  qed
  then show thesis using that by blast
qed

lemma submit_effect:
  assumes ok: "queueOK q"
  shows "queueOK (snd (RequestOrExecute env reg kind payload mgr d q)) \<and> laterQueue q (snd (RequestOrExecute env reg kind payload mgr d q))"
proof (rule request_cases [of env reg kind payload mgr d q])
  fix w
  assume "snd (RequestOrExecute env reg kind payload mgr d q) = q\<lparr>ap_world := w\<rparr>"
  then show ?thesis using ok by (simp add: queueOK_def laterQueue_kept)
next
  fix row
  assume q': "snd (RequestOrExecute env reg kind payload mgr d q) = q\<lparr>ap_nextID := Suc (ap_nextID q), ap_requests := ap_requests q @ [row]\<rparr>"
    and row: "rq_ID row = formatUint (ap_nextID q)" "rowOK row"
  have "idBelow (Suc (ap_nextID q)) (rq_ID r)" if "r \<in> set (ap_requests q)" for r
    using ok that idBelow_mono [of "ap_nextID q" "rq_ID r" "Suc (ap_nextID q)"] by (simp add: queueOK_def)
  moreover have "rq_ID row \<notin> rq_ID ` set (ap_requests q)" using ok idBelow_fresh [of "ap_requests q" "ap_nextID q" rq_ID] row(1) by (simp add: queueOK_def)
  ultimately show ?thesis using ok row(2) unfolding q' by (simp add: queueOK_def laterQueue_kept idBelow_this row(1) subset_insertI)
qed

lemma withdraw_effect:
  assumes ok: "queueOK q"
  shows "queueOK (snd (Withdraw env i m q)) \<and> laterQueue q (snd (Withdraw env i m q))"
proof (cases "snd (Withdraw env i m q) = q")
  case True
  then show ?thesis using ok by (simp add: laterQueue_kept)
next
  case False
  then obtain r where r: "findRequest i q = Some r" "rq_State r = ''pending''"
    and q': "snd (Withdraw env i m q) = updateRequest i (\<lambda>r. r\<lparr>rq_State := ''withdrawn''\<rparr>) q"
    by (auto simp: Withdraw_def split: if_splits option.splits)
  have "rowOK r" using r(1) findRequest_row [OF ok] ok by (auto simp: queueOK_def)
  then show ?thesis unfolding q'
    by (intro update_ok [OF ok]) (use unique_request [OF ok r(1)] r(2) in \<open>auto simp: row_defs\<close>)
qed

lemma reject_effect:
  assumes "queueOK q"
  shows "queueOK (snd (Reject env i a reason q)) \<and> laterQueue q (snd (Reject env i a reason q))"
proof -
  obtain y where "decideRow env i a (\<lambda>r. r\<lparr>rq_State := ''rejected'', rq_RejectReason := Some reason\<rparr>) q = (y, snd (Reject env i a reason q))"
    by (cases "decideRow env i a (\<lambda>r. r\<lparr>rq_State := ''rejected'', rq_RejectReason := Some reason\<rparr>) q") (auto simp: Reject_def split: sum.splits)
  from decideRow_effect [OF assms this] show ?thesis by (auto simp: row_defs)
qed

lemma save_effect:
  assumes ok: "queueOK q" and r: "r \<in> set (ap_requests q)" "rq_ID r = i" "rq_State r = ''approved''"
  shows "queueOK (saveResult env i x q) \<and> laterQueue q (saveResult env i x q)"
proof (cases "ae_saveFails env")
  case True
  then show ?thesis using ok by (simp add: saveResult_def laterQueue_kept)
next
  case False
  have "findRequest i q = Some r" using findRequest_row [OF ok] r by blast
  then have one: "x = r" if "x \<in> set (ap_requests q)" "rq_ID x = i" for x using unique_request [OF ok _ that] by blast
  have "rowOK r" using ok r(1) by (simp add: queueOK_def)
  then have "queueOK (updateRequest i (rq_Result_update (\<lambda>_. Some (resultOf x))) q)
      \<and> laterQueue q (updateRequest i (rq_Result_update (\<lambda>_. Some (resultOf x))) q)"
    by (intro update_ok [OF ok]) (use one r(3) in \<open>force simp: row_defs\<close>)
  then show ?thesis using False by (simp add: saveResult_def)
qed

text \<open>A call that holds or has used a claim stands for an approved row of its own.\<close>

definition backed :: "('e, 'w) Approvals \<Rightarrow> claimed \<Rightarrow> bool" where
  "backed q c \<longleftrightarrow> (\<exists>r \<in> set (ap_requests q). rq_ID r = cl_ID c \<and> rq_State r = ''approved'' \<and> rq_DecidedBy r = Some (cl_Approver c)
     \<and> rq_Kind r = cl_Kind c \<and> rq_Payload r = cl_Payload c)"

definition procInv :: "('e, 'w) Process \<Rightarrow> bool" where
  "procInv s \<longleftrightarrow> queueOK (pr_queue s) \<and> distinct (map cl_ID (pr_claimed s @ pr_ran s))
     \<and> (\<forall>c \<in> set (pr_claimed s @ pr_ran s). backed (pr_queue s) c) \<and> (\<forall>u \<in> set (pr_unsaved s). fst u \<in> cl_ID ` set (pr_ran s))"

lemma backed_later: "backed q c \<Longrightarrow> laterQueue q q' \<Longrightarrow> backed q' c"
  unfolding backed_def laterQueue_def sameRequest_def by (elim bexE) (drule bspec, assumption, fastforce)

lemma procInv_queue:
  assumes "procInv s" and "queueOK q \<and> laterQueue (pr_queue s) q"
  shows "procInv (s\<lparr>pr_queue := q\<rparr>)"
  using assms by (auto simp: procInv_def intro: backed_later)

lemma procStep_inv: "procStep reg s s' \<Longrightarrow> procInv s \<Longrightarrow> procInv s'"
proof (induction rule: procStep.induct)
  case (other s w)
  have "queueOK ((pr_queue s)\<lparr>ap_world := w\<rparr>)" using other by (simp add: procInv_def queueOK_def)
  then show ?case by (intro procInv_queue [OF other]) (simp add: laterQueue_kept)
next
  case (submit s env kind payload mgr description)
  then show ?case by (intro procInv_queue submit_effect) (simp_all add: procInv_def)
next
  case (claim env i approver s kind payload q)
  let ?c = "\<lparr>cl_ID = i, cl_Kind = kind, cl_Payload = payload, cl_Approver = approver\<rparr>"
  have ok: "queueOK (pr_queue s)" using claim.prems by (simp add: procInv_def)
  have later: "queueOK q \<and> laterQueue (pr_queue s) q" using claim_effect [OF ok claim.hyps] by blast
  from ok claim.hyps obtain r r' where r: "r \<in> set (ap_requests (pr_queue s))" "rq_ID r = i" "rq_State r = ''pending''"
    and r': "r' \<in> set (ap_requests q)" "rq_ID r' = i" "rq_State r' = ''approved''" "rq_DecidedBy r' = Some approver" "rq_Kind r' = kind" "rq_Payload r' = payload"
    by (rule claimRequest_granted)
  have "cl_ID c \<noteq> i" if b: "backed (pr_queue s) c" for c
  proof
    assume "cl_ID c = i"
    then obtain x where x: "x \<in> set (ap_requests (pr_queue s))" "rq_ID x = i" "rq_State x = ''approved''" using b by (auto simp: backed_def)
    have "findRequest i (pr_queue s) = Some r" using findRequest_row [OF ok] r by blast
    then show False using unique_request [OF ok _ x(1,2)] x(3) r(3) by simp
  qed
  then have "i \<notin> cl_ID ` set (pr_claimed s @ pr_ran s)" using claim.prems by (auto simp: procInv_def)
  moreover have "backed q ?c" using r' by (auto simp: backed_def)
  ultimately show ?case using procInv_queue [OF claim.prems later] by (auto simp: procInv_def)
next
  case (claimFails env i approver s e q)
  then show ?case using claim_effect [of "pr_queue s" env i approver "Inl e" q] by (intro procInv_queue) (auto simp: procInv_def)
next
  case (run s cs c ds exec x r q)
  then have q: "\<exists>w. q = (pr_queue s)\<lparr>ap_world := w\<rparr>" by (auto simp: runExecutor_def split: prod.splits)
  then have "queueOK q \<and> laterQueue (pr_queue s) q" using run.prems by (auto simp: procInv_def queueOK_def laterQueue_kept)
  from procInv_queue [OF run.prems this] show ?case using run.hyps(1) by (auto simp: procInv_def)
next
  case (unknown s cs c ds)
  then show ?case by (auto simp: procInv_def)
next
  case (save s us i r vs env)
  have ok: "queueOK (pr_queue s)" using save.prems by (simp add: procInv_def)
  have "i \<in> cl_ID ` set (pr_ran s)" using save by (auto simp: procInv_def)
  then obtain c where "c \<in> set (pr_ran s)" "cl_ID c = i" by blast
  moreover from this have "backed (pr_queue s) c" using save.prems by (simp add: procInv_def)
  ultimately obtain x where "x \<in> set (ap_requests (pr_queue s))" "rq_ID x = i" "rq_State x = ''approved''" by (auto simp: backed_def)
  from procInv_queue [OF save.prems save_effect [OF ok this, of env r]] show ?case using save.hyps by (simp add: procInv_def ball_Un)
next
  case (reject s env i approver reason)
  then show ?case by (intro procInv_queue reject_effect) (simp_all add: procInv_def)
next
  case (withdraw s env i requester)
  then show ?case by (intro procInv_queue withdraw_effect) (simp_all add: procInv_def)
next
  case (crash s)
  then show ?case by (simp add: procInv_def)
qed

interpretation queue: kept "procStep reg" procInv for reg
  by unfold_locales (rule procStep_inv)

lemma procStep_later: "procStep reg s s' \<Longrightarrow> procInv s \<Longrightarrow> laterQueue (pr_queue s) (pr_queue s')"
proof (induction rule: procStep.induct)
  case (submit s env kind payload mgr description)
  then show ?case by (simp add: submit_effect procInv_def)
next
  case (claim env i approver s kind payload q)
  then show ?case using claim_effect [OF _ claim.hyps] by (simp add: procInv_def)
next
  case (claimFails env i approver s e q)
  then show ?case using claim_effect [OF _ claimFails.hyps] by (simp add: procInv_def)
next
  case (run s cs c ds exec x r q)
  then show ?case by (auto simp: runExecutor_def laterQueue_kept split: prod.splits)
next
  case (save s us i r vs env)
  have "i \<in> cl_ID ` set (pr_ran s)" using save by (auto simp: procInv_def)
  then obtain c where "cl_ID c = i" "backed (pr_queue s) c" using save.prems by (auto simp: procInv_def)
  then obtain x where "x \<in> set (ap_requests (pr_queue s))" "rq_ID x = i" "rq_State x = ''approved''" by (auto simp: backed_def)
  then show ?case using save_effect [of "pr_queue s" x i env r] save.prems by (simp add: procInv_def)
next
  case (reject s env i approver reason)
  then show ?case by (simp add: reject_effect procInv_def)
next
  case (withdraw s env i requester)
  then show ?case by (simp add: withdraw_effect procInv_def)
qed (simp_all add: laterQueue_kept)

lemma procRun_later: "(procStep reg)\<^sup>*\<^sup>* s s' \<Longrightarrow> procInv s \<Longrightarrow> laterQueue (pr_queue s) (pr_queue s')"
proof (induction rule: rtranclp_induct)
  case base
  then show ?case by (simp add: laterQueue_kept)
next
  case (step a b)
  then show ?case using procStep_later queue.run_keeps laterQueue_trans by meson
qed

lemma approve_effect:
  assumes ok: "queueOK q"
  shows "queueOK (snd (Approve env reg i a q)) \<and> laterQueue q (snd (Approve env reg i a q))"
proof (cases "claimRequest env i a q")
  case (Pair x q1)
  have q1: "queueOK q1" "laterQueue q q1" using claim_effect [OF ok Pair] by simp_all
  show ?thesis
  proof (cases x)
    case (Inl e)
    then show ?thesis using q1 Pair by (simp add: Approve_def)
  next
    case (Inr kp)
    obtain kind payload where kp: "kp = (kind, payload)" by (cases kp)
    show ?thesis
    proof (cases "executorFor reg kind")
      case None
      then show ?thesis using q1 Pair by (simp add: Approve_def Inr kp)
    next
      case (Some exec)
      obtain res w where e: "exec (ae_exec env) payload a (ap_world q1) = (res, w)" by fastforce
      obtain r' where "r' \<in> set (ap_requests q1)" "rq_ID r' = i" "rq_State r' = ''approved''"
        using claimRequest_granted [OF ok Pair [unfolded Inr kp]] by metis
      then have "queueOK (saveResult env i res (q1\<lparr>ap_world := w\<rparr>)) \<and> laterQueue (q1\<lparr>ap_world := w\<rparr>) (saveResult env i res (q1\<lparr>ap_world := w\<rparr>))"
        using q1(1) by (intro save_effect [of _ r']) (simp_all add: queueOK_def)
      moreover have "laterQueue q1 (q1\<lparr>ap_world := w\<rparr>)" by (simp add: laterQueue_kept)
      ultimately show ?thesis using q1(2) Pair laterQueue_trans by (simp add: Approve_def Inr kp Some runExecutor_def e) blast
    qed
  qed
qed

lemma findRequest_update:
  assumes "findRequest i q = Some r" and "rq_ID (f r) = rq_ID r"
  shows "findRequest i (updateRequest i f q) = Some (f r)"
proof -
  have "find (\<lambda>x. rq_ID x = i) (map (\<lambda>x. if rq_ID x = i then f x else x) rs) = Some (f r)" if "find (\<lambda>x. rq_ID x = i) rs = Some r" for rs
    using that assms(2) by (induction rs) (auto split: if_splits)
  then show ?thesis using assms(1) by (simp add: findRequest_def updateRequest_def)
qed

text \<open>A decided request in a later state.\<close>

lemma decided_stays:
  assumes "(procStep reg)\<^sup>*\<^sup>* s s'" and "procInv s" and "findRequest i (pr_queue s) = Some r" and "rq_State r \<noteq> ''pending''"
  obtains r' where "findRequest i (pr_queue s') = Some r'" and "rq_State r' = rq_State r" and "sameRequest r r'" and "procInv s'"
proof -
  have inv: "procInv s'" by (rule queue.run_keeps [OF assms(1,2)])
  then have ok: "queueOK (pr_queue s)" "queueOK (pr_queue s')" using assms(2) by (simp_all add: procInv_def)
  have "r \<in> set (ap_requests (pr_queue s))" "rq_ID r = i" using findRequest_row [OF ok(1)] assms(3) by auto
  with procRun_later [OF assms(1,2)] obtain r' where r': "r' \<in> set (ap_requests (pr_queue s'))" "sameRequest r r'" "rq_ID r' = i"
    by (auto simp: laterQueue_def sameRequest_def)
  then have f: "findRequest i (pr_queue s') = Some r'" using findRequest_row [OF ok(2)] by blast
  have st: "rq_State r' = rq_State r" using r'(2) assms(4) by (simp add: sameRequest_def)
  then show thesis using that f r'(2) inv by blast
qed

lemma decision_refused:
  assumes "findRequest i q = Some r" and "rq_State r \<noteq> ''pending''"
  shows "isl (fst (Approve env reg i a q)) \<and> snd (Approve env reg i a q) = q" and "isl (fst (Reject env i a reason q)) \<and> snd (Reject env i a reason q) = q"
  using assms by (simp_all add: Approve_def claimRequest_def Reject_def decideRow_def)

end
