(* ===== verification/BillApproved.thy ===== *)
theory BillApproved
  imports Approvals BillOffice BillMoney
begin

text \<open>
  The approvable actions of billing (\<^verbatim>\<open>approvals_gate.go\<close>) and the handlers that submit them (\<^verbatim>\<open>undo_api.go\<close>, \<^verbatim>\<open>invoices_api.go\<close>), and what
  the approval queue guarantees.
\<close>

section \<open>The executors of billing\<close>

record execEnv =
  xe_rv :: RenewEnv
  xe_late :: bool
  xe_prefix :: string

definition approvalKindInvoiceVoid :: string where "approvalKindInvoiceVoid = ''invoice_void''"
definition approvalKindUndo :: string where "approvalKindUndo = ''undo''"

record voidInvoicePayload =
  vp_InvoiceID :: string
  vp_Reason :: string

definition marshalVoid :: "voidInvoicePayload \<Rightarrow> json" where
  "marshalVoid p = JObject [(''invoice_id'', JString (vp_InvoiceID p)), (''reason'', JString (vp_Reason p))]"

definition executeVoidInvoice :: "(execEnv, BillErr, RenewWorld) Executor" where
  "executeVoidInvoice x raw actor w =
     (case (jsonString ''invoice_id'' raw, jsonString ''reason'' raw) of
        (Some i, Some reason) \<Rightarrow>
          (case endTx (rv_end (xe_rv x)) (voidInvoice (rv_now (xe_rv x)) i reason actor ''billing.invoice_void'' (rw_bill w)) (rw_bill w) of
             (Inl e, db) \<Rightarrow> (Inl e, w\<lparr>rw_bill := db\<rparr>)
           | (Inr _, db) \<Rightarrow> (Inr (JObject [(''invoice_id'', JString i), (''status'', JString ''void'')]), w\<lparr>rw_bill := db\<rparr>))
      | _ \<Rightarrow> (Inl errValidation, w))"

record undoPayload =
  up_UndoID :: string

definition marshalUndo :: "undoPayload \<Rightarrow> json" where
  "marshalUndo p = JObject [(''undo_id'', JString (up_UndoID p))]"

definition executeUndo :: "(execEnv, BillErr, RenewWorld) Executor" where
  "executeUndo x raw actor w =
     (case jsonString ''undo_id'' raw of
        None \<Rightarrow> (Inl errValidation, w)
      | Some i \<Rightarrow>
          (case performUndo (xe_rv x) (xe_late x) (xe_prefix x) i actor w of
             (Inl e, w1) \<Rightarrow> (Inl e, w1)
           | (Inr (revID, redoID), w1) \<Rightarrow>
               (Inr (JObject [(''undo_id'', JString i), (''reversal_ledger_tx_id'', JString revID), (''redo_undo_id'', JString redoID)]), w1)))"

text \<open>The registry after both \<^verbatim>\<open>init\<close> functions.\<close>

definition billingRegistry :: "(execEnv, BillErr, RenewWorld) Registry" where
  "billingRegistry = [(approvalKindUndo, executeUndo), (approvalKindInvoiceVoid, executeVoidInvoice)]"

lemma billingRegistry_registered:
  "Option.bind (Register approvalKindInvoiceVoid executeVoidInvoice []) (Register approvalKindUndo executeUndo) = Some billingRegistry"
  by (simp add: Register_def billingRegistry_def approvalKindInvoiceVoid_def approvalKindUndo_def)

section \<open>Handlers\<close>

definition permApprovalsManage :: string where "permApprovalsManage = ''approvals.manage''"

datatype approvalAnswer = Accepted string | Done json | NotFound | Forbidden | Invalid | Failed "BillErr apprErr"

definition answerOf :: "BillErr apprErr + bool \<times> string \<times> json \<Rightarrow> approvalAnswer" where
  "answerOf r = (case r of Inl e \<Rightarrow> Failed e | Inr (pending, i, v) \<Rightarrow> if pending then Accepted i else Done v)"

text \<open>
  A scoped manager undoes his own actions only.
\<close>

definition undoHandler ::
    "execEnv apEnv \<Rightarrow> Manager option \<Rightarrow> string \<Rightarrow> (BillErr, RenewWorld) Approvals \<Rightarrow> approvalAnswer \<times> (BillErr, RenewWorld) Approvals" where
  "undoHandler env mgr i q =
     (case find (\<lambda>u. un_ID u = i) (bl_undo (rw_bill (ap_world q))) of
        None \<Rightarrow> (NotFound, q)
      | Some u \<Rightarrow>
          (if (case mgr of None \<Rightarrow> True | Some m \<Rightarrow> ma_Scoped m \<and> ma_ID m \<noteq> un_Actor u) then (Forbidden, q)
           else case RequestOrExecute env billingRegistry approvalKindUndo (marshalUndo \<lparr>up_UndoID = i\<rparr>) mgr (''undo '' @ i) q of
                  (r, q1) \<Rightarrow> (answerOf r, q1)))"

text \<open>\<open>owner\<close> is the column \<^verbatim>\<open>owner_manager_id\<close> of the subscribers, which only the scope uses.\<close>

definition invoiceVisible :: "(string \<Rightarrow> string) \<Rightarrow> string \<Rightarrow> string option \<Rightarrow> Bill \<Rightarrow> bool" where
  "invoiceVisible owner i scope db =
     (case findInvoice i db of
        None \<Rightarrow> False
      | Some r \<Rightarrow>
          (case scope of
             None \<Rightarrow> True
           | Some m \<Rightarrow> iv_SubscriberID r \<noteq> '''' \<and> bl_subs db (iv_SubscriberID r) \<noteq> None \<and> owner (iv_SubscriberID r) = m))"

definition voidInvoiceHandler ::
    "execEnv apEnv \<Rightarrow> (string \<Rightarrow> string) \<Rightarrow> Manager option \<Rightarrow> string \<Rightarrow> string \<Rightarrow> (BillErr, RenewWorld) Approvals
       \<Rightarrow> approvalAnswer \<times> (BillErr, RenewWorld) Approvals" where
  "voidInvoiceHandler env owner mgr i reason q =
     (if \<not> invoiceVisible owner i (ScopeFilter mgr) (rw_bill (ap_world q)) then (NotFound, q)
      else if reason = '''' then (Invalid, q)
      else case RequestOrExecute env billingRegistry approvalKindInvoiceVoid (marshalVoid \<lparr>vp_InvoiceID = i, vp_Reason = reason\<rparr>) mgr
                  (''void invoice '' @ i) q of
             (r, q1) \<Rightarrow> (answerOf r, q1))"

text \<open>The requests of the queue that a manager may see: his own, or all with the permission.\<close>

definition getApprovalRequest ::
    "'x apEnv \<Rightarrow> Manager option \<Rightarrow> string \<Rightarrow> (BillErr, 'w) Approvals \<Rightarrow> approvalAnswer + BillErr Request" where
  "getApprovalRequest env mgr i q =
     (case Get env i q of
        Inl ErrNotFound \<Rightarrow> Inl NotFound
      | Inl e \<Rightarrow> Inl (Failed e)
      | Inr v \<Rightarrow>
          (case mgr of
             None \<Rightarrow> Inl Forbidden
           | Some m \<Rightarrow> if rq_RequestedBy v \<noteq> ma_ID m \<and> \<not> Can m permApprovalsManage then Inl Forbidden else Inr v))"

definition listApprovalRequests ::
    "'x apEnv \<Rightarrow> Manager option \<Rightarrow> string \<Rightarrow> bool \<Rightarrow> (BillErr, 'w) Approvals \<Rightarrow> approvalAnswer + BillErr Request list" where
  "listApprovalRequests env mgr state mineOnly q =
     (if \<not> mineOnly \<and> (case mgr of None \<Rightarrow> True | Some m \<Rightarrow> \<not> Can m permApprovalsManage) then Inl Forbidden
      else let mine = (case mgr of Some m \<Rightarrow> if mineOnly then ma_ID m else '''' | None \<Rightarrow> '''')
           in case List_requests env state mine 50 q of Inl e \<Rightarrow> Inl (Failed e) | Inr rs \<Rightarrow> Inr rs)"

section \<open>Properties of the queue\<close>

text \<open>
  C13: an approved action runs once. In every run of the process, with concurrent approvals, failing statements and crashes, the executor is called
  at most once on behalf of a request, and only for a request that is approved, with the kind and payload of the request and the manager who approved it.
\<close>

theorem approval_runs_once:
  assumes "(procStep reg)\<^sup>*\<^sup>* s0 s" and "procInv s0"
  shows "distinct (map cl_ID (pr_ran s))
     \<and> (\<forall>c \<in> set (pr_ran s). \<exists>r. findRequest (cl_ID c) (pr_queue s) = Some r \<and> rq_State r = ''approved'' \<and> rq_DecidedBy r = Some (cl_Approver c)
          \<and> rq_Kind r = cl_Kind c \<and> rq_Payload r = cl_Payload c)"
proof -
  have inv: "procInv s" by (rule queue.run_keeps [OF assms])
  then have ok: "queueOK (pr_queue s)" by (simp add: procInv_def)
  have "\<exists>r. findRequest (cl_ID c) (pr_queue s) = Some r \<and> rq_State r = ''approved'' \<and> rq_DecidedBy r = Some (cl_Approver c)
      \<and> rq_Kind r = cl_Kind c \<and> rq_Payload r = cl_Payload c" if "c \<in> set (pr_ran s)" for c
  proof -
    have "backed (pr_queue s) c" using inv that by (simp add: procInv_def)
    then show ?thesis unfolding backed_def using findRequest_row [OF ok] by blast
  qed
  then show ?thesis using inv by (simp add: procInv_def)
qed

text \<open>
  A decision is final. A request that is approved, rejected or withdrawn keeps its state, decision and payload in every later state, every
  further attempt to decide it is refused, and the action of a rejected or withdrawn request never runs.
\<close>

theorem approval_decision_final:
  assumes "(procStep reg)\<^sup>*\<^sup>* s s'" and "procInv s" and "findRequest i (pr_queue s) = Some r" and "rq_State r \<noteq> ''pending''"
  shows "(\<exists>r'. findRequest i (pr_queue s') = Some r' \<and> rq_State r' = rq_State r \<and> rq_DecidedBy r' = rq_DecidedBy r \<and> rq_Payload r' = rq_Payload r)
     \<and> isl (fst (Approve env reg i a (pr_queue s'))) \<and> snd (Approve env reg i a (pr_queue s')) = pr_queue s'
     \<and> isl (fst (Reject env i a reason (pr_queue s'))) \<and> snd (Reject env i a reason (pr_queue s')) = pr_queue s'
     \<and> (rq_State r \<noteq> ''approved'' \<longrightarrow> i \<notin> cl_ID ` set (pr_ran s'))"
  using assms
proof (rule decided_stays)
  fix r'
  assume f: "findRequest i (pr_queue s') = Some r'" and st: "rq_State r' = rq_State r" and same: "sameRequest r r'" and inv: "procInv s'"
  have ok: "queueOK (pr_queue s')" using inv by (simp add: procInv_def)
  have "i \<notin> cl_ID ` set (pr_ran s')" if no: "rq_State r \<noteq> ''approved''"
  proof
    assume "i \<in> cl_ID ` set (pr_ran s')"
    then obtain c where "cl_ID c = i" "backed (pr_queue s') c" using inv by (auto simp: procInv_def)
    then obtain x where "x \<in> set (ap_requests (pr_queue s'))" "rq_ID x = i" "rq_State x = ''approved''" by (auto simp: backed_def)
    then show False using unique_request [OF ok f] no st by auto
  qed
  then show ?thesis using f st same assms(4) by (simp add: sameRequest_def decision_refused [OF f])
qed

text \<open>
  C36: the rows of the queue are well formed in every reachable state: one of the four states, a decider and a time exactly for a decided
  row, a reason exactly for a rejected one, a result only for an approved one, and distinct ids.
\<close>

theorem requests_typed:
  assumes "(procStep reg)\<^sup>*\<^sup>* s0 s" and "procInv s0"
  shows "distinct (map rq_ID (ap_requests (pr_queue s)))
     \<and> list_all (\<lambda>r. rq_State r \<in> {''pending'', ''approved'', ''rejected'', ''withdrawn''}
          \<and> (rq_DecidedBy r \<noteq> None \<longleftrightarrow> rq_State r \<in> {''approved'', ''rejected''}) \<and> (rq_DecidedAt r \<noteq> None \<longleftrightarrow> rq_State r \<in> {''approved'', ''rejected''})
          \<and> (rq_RejectReason r \<noteq> None \<longleftrightarrow> rq_State r = ''rejected'') \<and> (rq_Result r = None \<or> rq_State r = ''approved'')) (ap_requests (pr_queue s))"
  using queue.run_keeps [OF assms] by (auto simp: procInv_def queueOK_def rowOK_def list_all_iff)

text \<open>
  C15: an approval is the direct call. The action of a scoped manager is parked and changes nothing else. If it is still pending in a later
  state, approving it has the effect and the approvalAnswer that a direct call of the approver with the same kind and payload would have there.
\<close>

theorem approve_equals_direct:
  assumes "RequestOrExecute env0 reg kind payload (Some m) d (pr_queue s0) = (Inr (True, i, v), q1)" and "ma_Scoped m" and "procInv s0"
    and "(procStep reg)\<^sup>*\<^sup>* (s0\<lparr>pr_queue := q1\<rparr>) s" and "findRequest i (pr_queue s) = Some r" and "rq_State r = ''pending''"
    and "\<not> ae_fails env" and "\<not> ae_lost env" and "a \<noteq> ''''" and "ae_knownManager env a" and "ma_ID m' = a" and "\<not> ma_Scoped m'"
  shows "ap_world q1 = ap_world (pr_queue s0) \<and>
     (let direct = RequestOrExecute env reg kind payload (Some m') d' (pr_queue s)
      in ap_world (snd (Approve env reg i a (pr_queue s))) = ap_world (snd direct)
     \<and> fst (Approve env reg i a (pr_queue s)) = map_sum id (\<lambda>(parked, id, res). res) (fst direct))"
proof -
  from assms(1,2) obtain exec row where e: "executorFor reg kind = Some exec"
    and q1: "q1 = (pr_queue s0)\<lparr>ap_nextID := Suc (ap_nextID (pr_queue s0)), ap_requests := ap_requests (pr_queue s0) @ [row]\<rparr>"
    and row: "rq_ID row = i" "rq_Kind row = kind" "rq_Payload row = payload"
    by (auto simp: RequestOrExecute_def Let_def split: option.splits if_splits prod.splits sum.splits)
  have ok: "queueOK (pr_queue s0)" using assms(3) by (simp add: procInv_def)
  have inv1: "procInv (s0\<lparr>pr_queue := q1\<rparr>)"
    using procInv_queue [OF assms(3) submit_effect [OF ok, of env0 reg kind payload "Some m" d]] by (simp add: assms(1))
  have oks: "queueOK (pr_queue s)" using queue.run_keeps [OF assms(4) inv1] by (simp add: procInv_def)
  have "laterQueue q1 (pr_queue s)" using procRun_later [OF assms(4) inv1] by simp
  then obtain r' where "r' \<in> set (ap_requests (pr_queue s))" "sameRequest row r'" by (auto simp: laterQueue_def q1)
  then have "rq_Kind r = kind" "rq_Payload r = payload" using unique_request [OF oks assms(5)] row by (auto simp: sameRequest_def)
  then have "claimRequest env i a (pr_queue s) = (Inr (kind, payload),
      updateRequest i (\<lambda>r. r\<lparr>rq_DecidedBy := Some a, rq_DecidedAt := Some (ae_now env), rq_State := ''approved''\<rparr>) (pr_queue s))"
    using assms(5-10) by (simp add: claimRequest_def decideRow_def)
  then show ?thesis unfolding Let_def
    by (simp add: Approve_def RequestOrExecute_def e q1 assms(11,12) runExecutor_def saveResult_def updateRequest_def split: prod.split sum.split)
qed

text \<open>
  An undo that waits for approval is lost after the window. When a parked undo is approved after the window of the action has closed, the
  approval fails, nothing is undone, and the request counts as approved: in no later state can it be approved again.
\<close>

theorem late_undo_lost:
  assumes "procInv s" and "findRequest i (pr_queue s) = Some r" and "rq_State r = ''pending''" and "rq_Kind r = approvalKindUndo"
    and "rq_Payload r = marshalUndo \<lparr>up_UndoID = un_ID u\<rparr>"
    and "find (\<lambda>x. un_ID x = un_ID u) (bl_undo (rw_bill (ap_world (pr_queue s)))) = Some u" and "\<not> un_Undone u"
    and "un_ExpiresAt u < rv_now (xe_rv (ae_exec env))"
    and "\<not> ae_fails env" and "\<not> ae_lost env" and "a \<noteq> ''''" and "ae_knownManager env a"
    and "(procStep billingRegistry)\<^sup>*\<^sup>* (s\<lparr>pr_queue := snd (Approve env billingRegistry i a (pr_queue s))\<rparr>) s'"
  shows "fst (Approve env billingRegistry i a (pr_queue s)) = Inl (ErrExec errUndoExpired)
     \<and> ap_world (snd (Approve env billingRegistry i a (pr_queue s))) = ap_world (pr_queue s)
     \<and> isl (fst (Approve env' billingRegistry i a' (pr_queue s'))) \<and> snd (Approve env' billingRegistry i a' (pr_queue s')) = pr_queue s'"
proof -
  let ?q = "pr_queue s" and ?q' = "snd (Approve env billingRegistry i a (pr_queue s))"
  let ?upd = "\<lambda>r. r\<lparr>rq_DecidedBy := Some a, rq_DecidedAt := Some (ae_now env), rq_State := ''approved''\<rparr>"
  have ok: "queueOK ?q" using assms(1) by (simp add: procInv_def)
  have c: "claimRequest env i a ?q = (Inr (approvalKindUndo, marshalUndo \<lparr>up_UndoID = un_ID u\<rparr>), updateRequest i ?upd ?q)"
    using assms(2-5,9-12) by (simp add: claimRequest_def decideRow_def)
  have x: "executorFor billingRegistry approvalKindUndo = Some executeUndo" by (simp add: executorFor_def billingRegistry_def)
  have e: "executeUndo (ae_exec env) (marshalUndo \<lparr>up_UndoID = un_ID u\<rparr>) a (ap_world ?q) = (Inl errUndoExpired, ap_world ?q)"
    using assms(6-8) by (simp add: executeUndo_def marshalUndo_def jsonString_def performUndo_def)
  have ap: "Approve env billingRegistry i a ?q = (Inl (ErrExec errUndoExpired), saveResult env i (Inl errUndoExpired) (updateRequest i ?upd ?q))"
    using e by (simp add: Approve_def c x runExecutor_def updateRequest_def)
  have inv: "procInv (s\<lparr>pr_queue := ?q'\<rparr>)" using procInv_queue [OF assms(1)] approve_effect [OF ok] by blast
  have "findRequest i (updateRequest i ?upd ?q) = Some (?upd r)" using assms(2) by (rule findRequest_update) simp
  then obtain r' where r': "findRequest i ?q' = Some r'" "rq_State r' = ''approved''"
    unfolding ap saveResult_def by (cases "ae_saveFails env") (auto simp: findRequest_update)
  have "isl (fst (Approve env' billingRegistry i a' (pr_queue s'))) \<and> snd (Approve env' billingRegistry i a' (pr_queue s')) = pr_queue s'"
  proof (rule decided_stays [OF assms(13) inv])
    fix r''
    assume "findRequest i (pr_queue s') = Some r''" "rq_State r'' = rq_State r'"
    then show ?thesis using decision_refused(1) [of i "pr_queue s'" r''] r'(2) by simp
  qed (use r' in simp_all)
  then show ?thesis by (simp add: ap saveResult_def updateRequest_def)
qed

section \<open>A sample queue\<close>

text \<open>The scoped manager \<open>M1\<close> asks to undo a top-up, and \<open>M2\<close> decides.\<close>

definition sampleUndoRow :: undoRow where
  "sampleUndoRow = \<lparr>un_ID = ''u1'', un_Kind = ''topup'', un_EntityID = ''M1'', un_Actor = ''M1'',
      un_LedgerTxID = ''t1'', un_SnapExpires = 0, un_SnapManager = ''M1'', un_SnapAmount = 70, un_ExpiresAt = 5 * second,
      un_Undone = False, un_ReversalTxID = '''', un_UndoOf = ''''\<rparr>"

definition sampleAgent :: Manager where "sampleAgent = sampleActor\<lparr>ma_ID := ''M1'', ma_Scoped := True\<rparr>"
definition sampleChief :: Manager where "sampleChief = sampleActor\<lparr>ma_ID := ''M2''\<rparr>"

definition sampleProc :: "(BillErr, RenewWorld) Process" where
  "sampleProc = \<lparr>pr_queue = \<lparr>ap_requests = [], ap_nextID = 1, ap_world = sampleWorld (sampleBill\<lparr>bl_undo := [sampleUndoRow]\<rparr>)\<rparr>,
     pr_claimed = [], pr_unsaved = [], pr_ran = []\<rparr>"

definition sampleApEnv :: "gotime \<Rightarrow> execEnv apEnv" where
  "sampleApEnv t = \<lparr>ae_now = t, ae_knownManager = (\<lambda>m. m \<in> {''M1'', ''M2''}), ae_fails = False, ae_lost = False, ae_lookupFails = False,
     ae_saveFails = False, ae_exec = \<lparr>xe_rv = sampleRV\<lparr>rv_now := t\<rparr>, xe_late = False, xe_prefix = ''R-''\<rparr>\<rparr>"

definition sampleRequest :: "BillErr Request" where
  "sampleRequest = \<lparr>rq_ID = formatUint (Suc 0), rq_Kind = approvalKindUndo, rq_Payload = marshalUndo \<lparr>up_UndoID = ''u1''\<rparr>, rq_RequestedBy = ''M1'',
     rq_Description = ''undo u1'', rq_State = ''pending'', rq_DecidedBy = None, rq_DecidedAt = None, rq_RejectReason = None, rq_Result = None,
     rq_CreatedAt = second\<rparr>"

definition sampleParked :: "(BillErr, RenewWorld) Process" where
  "sampleParked = sampleProc\<lparr>pr_queue := (pr_queue sampleProc)\<lparr>ap_nextID := 2, ap_requests := [sampleRequest]\<rparr>\<rparr>"

lemma sample_proc: "procInv sampleProc"
  by (simp add: procInv_def queueOK_def sampleProc_def)

lemma sample_registry: "executorFor billingRegistry approvalKindUndo = Some executeUndo"
  by (simp add: executorFor_def billingRegistry_def)

lemma sample_submit:
  "RequestOrExecute (sampleApEnv second) billingRegistry approvalKindUndo (marshalUndo \<lparr>up_UndoID = ''u1''\<rparr>) (Some sampleAgent)
     ''undo u1'' (pr_queue sampleProc) = (Inr (True, formatUint (Suc 0), JNull), pr_queue sampleParked)"
  by (simp add: RequestOrExecute_def sample_registry sampleAgent_def sampleApEnv_def sampleParked_def sampleRequest_def sampleProc_def Let_def numeral_2_eq_2)

lemma sample_parked: "procInv sampleParked" "findRequest (formatUint (Suc 0)) (pr_queue sampleParked) = Some sampleRequest"
  "sampleProc\<lparr>pr_queue := pr_queue sampleParked\<rparr> = sampleParked"
proof -
  have "idBelow 2 (formatUint (Suc 0))" by (simp add: idBelow_this)
  then show "procInv sampleParked" by (simp add: procInv_def queueOK_def sampleParked_def sampleProc_def sampleRequest_def rowOK_def)
qed (simp_all add: findRequest_def sampleParked_def sampleRequest_def)

lemma sample_parked_run: "(procStep billingRegistry)\<^sup>*\<^sup>* sampleProc sampleParked"
  using procStep.submit [of billingRegistry sampleProc "sampleApEnv second" approvalKindUndo "marshalUndo \<lparr>up_UndoID = ''u1''\<rparr>"
      "Some sampleAgent" "''undo u1''"]
  by (simp add: sample_submit sample_parked(3))

definition sampleClaim :: claimed where
  "sampleClaim = \<lparr>cl_ID = formatUint (Suc 0), cl_Kind = approvalKindUndo, cl_Payload = marshalUndo \<lparr>up_UndoID = ''u1''\<rparr>, cl_Approver = ''M2''\<rparr>"

definition sampleRan :: "(BillErr, RenewWorld) Process" where
  "sampleRan =
     (let q = snd (claimRequest (sampleApEnv (2 * second)) (formatUint (Suc 0)) ''M2'' (pr_queue sampleParked));
          (r, q1) = runExecutor (ae_exec (sampleApEnv (2 * second))) executeUndo (cl_Payload sampleClaim) ''M2'' q
      in sampleParked\<lparr>pr_queue := q1, pr_claimed := [], pr_unsaved := [(formatUint (Suc 0), r)], pr_ran := [sampleClaim]\<rparr>)"

lemma sample_claim: "fst (claimRequest (sampleApEnv (2 * second)) (formatUint (Suc 0)) ''M2'' (pr_queue sampleParked)) = Inr (cl_Kind sampleClaim, cl_Payload sampleClaim)"
  by (simp add: claimRequest_def decideRow_def sample_parked(2) sampleRequest_def sampleApEnv_def sampleClaim_def)

lemma sample_ran_run: "(procStep billingRegistry)\<^sup>*\<^sup>* sampleProc sampleRan"
proof -
  define q where "q = snd (claimRequest (sampleApEnv (2 * second)) (formatUint (Suc 0)) ''M2'' (pr_queue sampleParked))"
  define s where "s = sampleParked\<lparr>pr_queue := q, pr_claimed := [sampleClaim]\<rparr>"
  have "claimRequest (sampleApEnv (2 * second)) (formatUint (Suc 0)) ''M2'' (pr_queue sampleParked) = (Inr (cl_Kind sampleClaim, cl_Payload sampleClaim), q)"
    using sample_claim by (simp add: q_def prod_eq_iff)
  from procStep.claim [OF this, of billingRegistry] have c: "procStep billingRegistry sampleParked s"
    by (simp add: s_def sampleParked_def sampleProc_def sampleClaim_def)
  obtain r q1 where x: "runExecutor (ae_exec (sampleApEnv (2 * second))) executeUndo (cl_Payload sampleClaim) ''M2'' q = (r, q1)" by fastforce
  have ran: "sampleRan = sampleParked\<lparr>pr_queue := q1, pr_claimed := [], pr_unsaved := [(formatUint (Suc 0), r)], pr_ran := [sampleClaim]\<rparr>"
    using x unfolding sampleRan_def q_def [symmetric] Let_def by simp
  have "procStep billingRegistry s sampleRan" unfolding ran
    using procStep.run [of s "[]" sampleClaim "[]" billingRegistry executeUndo "ae_exec (sampleApEnv (2 * second))" r q1] x
    by (simp add: s_def sampleClaim_def sample_registry sampleParked_def sampleProc_def)
  then show ?thesis using c sample_parked_run by (meson rtranclp.rtrancl_into_rtrancl)
qed

theorem approval_runs_once_witness:
  "pr_ran sampleRan = [sampleClaim] \<and> (\<exists>r. findRequest (formatUint (Suc 0)) (pr_queue sampleRan) = Some r \<and> rq_State r = ''approved'' \<and> rq_DecidedBy r = Some ''M2'')"
proof -
  have "pr_ran sampleRan = [sampleClaim]" by (simp add: sampleRan_def Let_def split: prod.split)
  then show ?thesis using approval_runs_once [OF sample_ran_run sample_proc] by (auto simp: sampleClaim_def)
qed

theorem requests_typed_witness: "distinct (map rq_ID (ap_requests (pr_queue sampleRan)))"
  using requests_typed [OF sample_ran_run sample_proc] by blast

definition sampleRejected :: "(BillErr, RenewWorld) Process" where
  "sampleRejected = sampleParked\<lparr>pr_queue := snd (Reject (sampleApEnv (2 * second)) (formatUint (Suc 0)) ''M2'' ''no'' (pr_queue sampleParked))\<rparr>"

theorem approval_decision_final_witness:
  "snd (Approve (sampleApEnv (3 * second)) billingRegistry (formatUint (Suc 0)) ''M2'' (pr_queue sampleRejected)) = pr_queue sampleRejected"
proof -
  have "procInv sampleRejected" unfolding sampleRejected_def by (rule procStep_inv [OF procStep.reject [of billingRegistry] sample_parked(1)])
  moreover have "findRequest (formatUint (Suc 0)) (pr_queue sampleRejected) = Some (sampleRequest\<lparr>rq_DecidedBy := Some ''M2'', rq_DecidedAt := Some (2 * second),
      rq_State := ''rejected'', rq_RejectReason := Some ''no''\<rparr>)"
    by (simp add: sampleRejected_def Reject_def decideRow_def sample_parked(2))
      (simp add: sampleApEnv_def sampleRequest_def sampleParked_def updateRequest_def findRequest_def)
  ultimately show ?thesis using approval_decision_final [of billingRegistry sampleRejected sampleRejected "formatUint (Suc 0)"] by simp
qed

theorem approve_equals_direct_witness:
  "ap_world (snd (Approve (sampleApEnv (2 * second)) billingRegistry (formatUint (Suc 0)) ''M2'' (pr_queue sampleParked))) =
   ap_world (snd (RequestOrExecute (sampleApEnv (2 * second)) billingRegistry approvalKindUndo (marshalUndo \<lparr>up_UndoID = ''u1''\<rparr>)
     (Some sampleChief) ''now'' (pr_queue sampleParked)))"
  using approve_equals_direct [OF sample_submit _ sample_proc, of sampleParked sampleRequest "sampleApEnv (2 * second)" "''M2''" sampleChief "''now''"]
  by (simp add: sample_parked(2,3) Let_def sampleChief_def sampleAgent_def) (simp add: sampleRequest_def sampleApEnv_def sampleActor_def)

theorem late_undo_lost_witness:
  "fst (Approve (sampleApEnv (9 * second)) billingRegistry (formatUint (Suc 0)) ''M2'' (pr_queue sampleParked)) = Inl (ErrExec errUndoExpired)"
proof -
  have "find (\<lambda>x. un_ID x = un_ID sampleUndoRow) (bl_undo (rw_bill (ap_world (pr_queue sampleParked)))) = Some sampleUndoRow"
    by (simp add: sampleParked_def sampleProc_def sampleWorld_def)
  from late_undo_lost [OF sample_parked(1,2) _ _ _ this _ _ _ _ _ _ rtranclp.rtrancl_refl, where env = "sampleApEnv (9 * second)" and a = "''M2''"] show ?thesis
    by (simp add: sampleRequest_def sampleUndoRow_def sampleApEnv_def second_def)
qed

end
