(* ===== verification/AuthTOTP.thy ===== *)
theory AuthTOTP
  imports AuthPerms
begin

text \<open>
  The second factor of \<^verbatim>\<open>backend/internal/auth\<close>: time-based codes (\<^verbatim>\<open>totp.go\<close>) and backup codes (\<^verbatim>\<open>totp_store.go\<close>). HMAC-SHA1, SHA-256,
  the encryption of stored secrets and the random bytes are arguments.
\<close>

section \<open>Base32\<close>

text \<open>\<^verbatim>\<open>base32.StdEncoding\<close> without padding: five bits per character, newlines dropped, an incomplete last group decoded as far as it goes.\<close>

definition base32Val :: "char \<Rightarrow> nat option" where
  "base32Val c =
     (let n = of_char c :: nat in
      if 65 \<le> n \<and> n \<le> 90 then Some (n - 65) else if 50 \<le> n \<and> n \<le> 55 then Some (n - 24) else None)"

definition base32Char :: "nat \<Rightarrow> char" where
  "base32Char v = (if v < 26 then char_of (65 + v) else char_of (24 + v))"

text \<open>The bytes that a group of so many characters has.\<close>

definition groupBytes :: "nat \<Rightarrow> nat" where
  "groupBytes n = (if n = 8 then 5 else if n = 7 then 4 else if n = 5 then 3 else if n = 4 then 2 else if n = 2 then 1 else 0)"

definition groupValue :: "nat list \<Rightarrow> nat" where
  "groupValue vs = foldl (\<lambda>acc v. 32 * acc + v) 0 (take 8 (vs @ replicate 8 0))"

definition decodeGroup :: "nat list \<Rightarrow> bytes" where
  "decodeGroup vs = map (\<lambda>k. of_nat (groupValue vs div 256 ^ k)) (take (groupBytes (length vs)) (rev [0 ..< 5]))"

fun decodeGroups :: "nat list \<Rightarrow> bytes" where
  "decodeGroups vs = (if vs = [] then [] else decodeGroup (take 8 vs) @ decodeGroups (drop 8 vs))"

definition bytesValue :: "bytes \<Rightarrow> nat" where
  "bytesValue bs = foldl (\<lambda>acc b. 256 * acc + unat b) 0 bs"

definition encodeGroup :: "bytes \<Rightarrow> nat list" where
  "encodeGroup bs = map (\<lambda>k. bytesValue (take 5 (bs @ replicate 5 0)) div 32 ^ k mod 32) (take ((8 * length bs + 4) div 5) (rev [0 ..< 8]))"

fun encodeGroups :: "bytes \<Rightarrow> nat list" where
  "encodeGroups bs = (if bs = [] then [] else encodeGroup (take 5 bs) @ encodeGroups (drop 5 bs))"

declare encodeGroups.simps [simp del]
declare decodeGroups.simps [simp del]

definition base32Decode :: "string \<Rightarrow> bytes option" where
  "base32Decode s =
     (let cs = filter (\<lambda>c. of_char c \<notin> {10, 13 :: nat}) s in
      if list_all (\<lambda>c. base32Val c \<noteq> None) cs then Some (decodeGroups (map (\<lambda>c. the (base32Val c)) cs)) else None)"

definition base32Encode :: "bytes \<Rightarrow> string" where
  "base32Encode bs = map base32Char (encodeGroups bs)"

definition totpSecretLen :: nat where "totpSecretLen = 20"

text \<open>\<open>rand\<close> are the random bytes, none when the random source fails.\<close>

definition generateTOTPSecret :: "bytes option \<Rightarrow> string option" where
  "generateTOTPSecret rand = map_option base32Encode rand"

section \<open>One-time codes\<close>

definition totpDigits :: nat where "totpDigits = 6"
definition totpPeriod :: duration where "totpPeriod = 30 * second"
definition totpSkewSteps :: int where "totpSkewSteps = 1"

definition putUint64 :: "u64 \<Rightarrow> bytes" where
  "putUint64 w = map (\<lambda>k. ucast (drop_bit (8 * (7 - k)) w)) [0 ..< 8]"

text \<open>The dynamic truncation of RFC 4226. The hash has at least twenty bytes.\<close>

definition hotp :: "(bytes \<Rightarrow> bytes \<Rightarrow> bytes) \<Rightarrow> bytes \<Rightarrow> u64 \<Rightarrow> nat" where
  "hotp hmac key counter =
     (let sum = hmac key (putUint64 counter);
          offset = unat (last sum AND 0x0f);
          code = (push_bit 24 (ucast (sum ! offset AND 0x7f)) OR push_bit 16 (ucast (sum ! (offset + 1)))
                  OR push_bit 8 (ucast (sum ! (offset + 2))) OR ucast (sum ! (offset + 3))) :: u32
      in unat code mod 1000000)"

text \<open>\<^verbatim>\<open>fmt.Sprintf("%0*d", 6, n)\<close>.\<close>

definition padded :: "nat \<Rightarrow> nat \<Rightarrow> string" where
  "padded width n = replicate (width - length (formatUint n)) (CHR ''0'') @ formatUint n"

definition unixStep :: "gotime \<Rightarrow> u64" where
  "unixStep t = of_int (t div second) div 30"

definition totpCodeAt :: "(bytes \<Rightarrow> bytes \<Rightarrow> bytes) \<Rightarrow> string \<Rightarrow> gotime \<Rightarrow> string option" where
  "totpCodeAt hmac secret t =
     (case base32Decode (toUpper (trimSpace secret)) of
        None \<Rightarrow> None
      | Some key \<Rightarrow> Some (padded totpDigits (hotp hmac key (unixStep t))))"

definition verifyTOTP :: "(bytes \<Rightarrow> bytes \<Rightarrow> bytes) \<Rightarrow> string \<Rightarrow> string \<Rightarrow> gotime \<Rightarrow> bool" where
  "verifyTOTP hmac secret code now =
     (let c = trimSpace code in
      if length c \<noteq> totpDigits then False
      else case base32Decode (toUpper (trimSpace secret)) of
             None \<Rightarrow> False
           | Some key \<Rightarrow>
               list_ex (\<lambda>d. padded totpDigits (hotp hmac key (unixStep now + of_int d)) = c) [- totpSkewSteps .. totpSkewSteps])"

section \<open>Backup codes\<close>

definition hashBackupCode :: "(string \<Rightarrow> string) \<Rightarrow> string \<Rightarrow> string" where
  "hashBackupCode sha code = sha (toUpper (filter (\<lambda>c. c \<noteq> CHR ''-'') (trimSpace code)))"

definition backupCodeAlphabet :: string where "backupCodeAlphabet = ''ABCDEFGHJKMNPQRSTUVWXYZ23456789''"

definition backupCodeCount :: nat where "backupCodeCount = 10"

text \<open>One code from ten random bytes.\<close>

definition formatBackupCode :: "bytes \<Rightarrow> string" where
  "formatBackupCode buf =
     (let c = (\<lambda>x. backupCodeAlphabet ! (unat x mod length backupCodeAlphabet))
      in map c (take 5 buf) @ ''-'' @ map c (drop 5 buf))"

text \<open>The first unused code of the manager with the hash is marked; a marked code never matches.\<close>

fun markCode :: "gotime \<Rightarrow> string \<Rightarrow> string \<Rightarrow> backupCode list \<Rightarrow> bool \<times> backupCode list" where
  "markCode now i h [] = (False, [])"
| "markCode now i h (c # cs) =
     (if bc_ManagerID c = i \<and> bc_Hash c = h \<and> bc_UsedAt c = None then (True, c\<lparr>bc_UsedAt := Some now\<rparr> # cs)
      else case markCode now i h cs of (b, ds) \<Rightarrow> (b, c # ds))"

definition consumeBackupCode :: "(string \<Rightarrow> string) \<Rightarrow> gotime \<Rightarrow> string \<Rightarrow> string \<Rightarrow> AuthDB \<Rightarrow> bool \<times> AuthDB" where
  "consumeBackupCode sha now i code db =
     (case markCode now i (hashBackupCode sha code) (au_backupCodes db) of (b, cs) \<Rightarrow> (b, db\<lparr>au_backupCodes := cs\<rparr>))"

text \<open>
  \<^verbatim>\<open>verifyManagerSecondFactor\<close>: the time-based code, then a backup code. No result is an error, of the decryption or the statement.
\<close>

record factorEnv =
  fe_now :: gotime
  fe_down :: "string \<Rightarrow> bool"
  fe_hmac :: "bytes \<Rightarrow> bytes \<Rightarrow> bytes"
  fe_sha :: "string \<Rightarrow> string"
  fe_decrypt :: "string \<Rightarrow> string option"
  fe_encrypt :: "string \<Rightarrow> string option"

definition verifyManagerSecondFactor :: "factorEnv \<Rightarrow> managerAuthRow \<Rightarrow> string \<Rightarrow> AuthDB \<Rightarrow> bool option \<times> AuthDB" where
  "verifyManagerSecondFactor fe m code db =
     (let backup = (if fe_down fe ''backupCode'' then (None, db)
                    else case consumeBackupCode (fe_sha fe) (fe_now fe) (mr_ID m) code db of (b, db1) \<Rightarrow> (Some b, db1)) in
      if mr_TOTPSecretEnc m = '''' then backup
      else case fe_decrypt fe (mr_TOTPSecretEnc m) of
             None \<Rightarrow> (None, db)
           | Some secret \<Rightarrow> if verifyTOTP (fe_hmac fe) secret code (fe_now fe) then (Some True, db) else backup)"

section \<open>Enrolment\<close>

definition enrollTOTPHandler :: "factorEnv \<Rightarrow> bytes option \<Rightarrow> Manager \<Rightarrow> AuthDB \<Rightarrow> string reply \<times> AuthDB" where
  "enrollTOTPHandler fe rand m db =
     (if fe_down fe ''lookup'' then (Err 401 ''unauthorized'', db)
      else case lookupManagerByID (ma_ID m) db of
        None \<Rightarrow> (Err 401 ''unauthorized'', db)
      | Some row \<Rightarrow>
          (if mr_TOTPEnabled row then (Err 409 ''conflict'', db)
           else case generateTOTPSecret rand of
             None \<Rightarrow> (Err 500 ''internal'', db)
           | Some s \<Rightarrow>
               (case fe_encrypt fe s of
                  None \<Rightarrow> (Err 500 ''internal'', db)
                | Some enc \<Rightarrow>
                    (if fe_down fe ''pending'' then (Err 500 ''internal'', db)
                     else (OK s, audit (fe_down fe) (Some m) ''auth.totp_enroll_started'' ''manager'' (ma_ID m)
                            (updateManager (ma_ID m) (mr_TOTPPendingEnc_update (\<lambda>_. enc)) db))))))"

text \<open>One transaction; no result when nothing is pending.\<close>

definition activatePendingSecret :: "string \<Rightarrow> string list \<Rightarrow> string \<Rightarrow> AuthDB \<Rightarrow> AuthDB option" where
  "activatePendingSecret i hashes keep db =
     (if (case lookupManagerByID i db of None \<Rightarrow> True | Some m \<Rightarrow> mr_TOTPPendingEnc m = '''') then None
      else Some (revokeOtherSessions i keep
       ((updateManager i (\<lambda>m. m\<lparr>mr_TOTPSecretEnc := mr_TOTPPendingEnc m, mr_TOTPPendingEnc := '''', mr_TOTPEnabled := True\<rparr>) db)
        \<lparr>au_backupCodes := filter (\<lambda>c. bc_ManagerID c \<noteq> i) (au_backupCodes db)
           @ map (\<lambda>h. \<lparr>bc_ManagerID = i, bc_Hash = h, bc_UsedAt = None\<rparr>) hashes\<rparr>)))"

text \<open>\<open>bufs\<close> are the random bytes of the backup codes, none when the random source fails.\<close>

definition verifyTOTPHandler :: "factorEnv \<Rightarrow> bytes list option \<Rightarrow> Manager \<Rightarrow> string \<Rightarrow> AuthDB \<Rightarrow> string list reply \<times> AuthDB" where
  "verifyTOTPHandler fe bufs m code db =
     (if code = '''' then (Err 422 ''validation_failed'', db)
      else if fe_down fe ''secrets'' then (Err 500 ''internal'', db)
      else case lookupManagerByID (ma_ID m) db of
        None \<Rightarrow> (Err 500 ''internal'', db)
      | Some row \<Rightarrow>
          (if mr_TOTPPendingEnc row = '''' then (Err 409 ''conflict'', db)
           else case fe_decrypt fe (mr_TOTPPendingEnc row) of
             None \<Rightarrow> (Err 500 ''internal'', db)
           | Some secret \<Rightarrow>
               (if \<not> verifyTOTP (fe_hmac fe) secret code (fe_now fe) then (Err 401 ''invalid_totp'', db)
                else case bufs of
                  None \<Rightarrow> (Err 500 ''internal'', db)
                | Some bs \<Rightarrow>
                    (let codes = map formatBackupCode bs in
                     if fe_down fe ''activate'' then (Err 500 ''internal'', db)
                     else case activatePendingSecret (ma_ID m) (map (hashBackupCode (fe_sha fe)) codes) (ma_SessionID m) db of
                            None \<Rightarrow> (Err 409 ''conflict'', db)
                          | Some db1 \<Rightarrow> (OK codes, audit (fe_down fe) (Some m) ''auth.totp_enabled'' ''manager'' (ma_ID m) db1)))))"

definition disableTOTP :: "string \<Rightarrow> AuthDB \<Rightarrow> AuthDB" where
  "disableTOTP i db =
     (updateManager i (\<lambda>m. m\<lparr>mr_TOTPEnabled := False, mr_TOTPSecretEnc := '''', mr_TOTPPendingEnc := ''''\<rparr>) db)
       \<lparr>au_backupCodes := filter (\<lambda>c. bc_ManagerID c \<noteq> i) (au_backupCodes db)\<rparr>"

text \<open>\<open>verify\<close> is \<^verbatim>\<open>verifyPassword\<close>: matched and needs an upgrade, or an error.\<close>

definition disableTOTPHandler ::
    "factorEnv \<Rightarrow> (string \<Rightarrow> string \<Rightarrow> (bool \<times> bool) option) \<Rightarrow> Manager \<Rightarrow> string \<Rightarrow> string \<Rightarrow> AuthDB \<Rightarrow> unit reply \<times> AuthDB" where
  "disableTOTPHandler fe verify m pw code db =
     (if pw = '''' \<or> code = '''' then (Err 422 ''validation_failed'', db)
      else if fe_down fe ''lookup'' then (Err 401 ''unauthorized'', db)
      else case lookupManagerByID (ma_ID m) db of
        None \<Rightarrow> (Err 401 ''unauthorized'', db)
      | Some row \<Rightarrow>
          (if \<not> mr_TOTPEnabled row then (Err 409 ''conflict'', db)
           else if \<not> (case verify (mr_PasswordHash row) pw of None \<Rightarrow> False | Some (matched, up) \<Rightarrow> matched) then (Err 401 ''invalid_credentials'', db)
           else case verifyManagerSecondFactor fe row code db of
             (None, db1) \<Rightarrow> (Err 500 ''internal'', db1)
           | (Some False, db1) \<Rightarrow> (Err 401 ''invalid_totp'', db1)
           | (Some True, db1) \<Rightarrow>
               (if fe_down fe ''disableTOTP'' then (Err 500 ''internal'', db1)
                else let db2 = disableTOTP (ma_ID m) db1;
                         db3 = (if fe_down fe ''revoke'' then db2 else revokeOtherSessions (ma_ID m) (ma_SessionID m) db2)
                     in (OK (), audit (fe_down fe) (Some m) ''auth.totp_disabled'' ''manager'' (ma_ID m) db3))))"

definition resetManagerTOTPHandler :: "(string \<Rightarrow> bool) \<Rightarrow> Manager option \<Rightarrow> string \<Rightarrow> AuthDB \<Rightarrow> unit reply \<times> AuthDB" where
  "resetManagerTOTPHandler down mgr i db =
     (if down ''lookup'' then (Err 500 ''internal'', db)
      else if lookupManagerByID i db = None then (Err 404 ''not_found'', db)
      else if down ''disableTOTP'' then (Err 500 ''internal'', db)
      else let db1 = disableTOTP i db; db2 = (if down ''revoke'' then db1 else revokeOtherSessions i '''' db1)
           in (OK (), audit down mgr ''managers.totp_reset'' ''manager'' i db2))"

section \<open>Base32 round trip\<close>

lemma foldl_digits: "foldl (\<lambda>acc v. B * acc + v) a (map (\<lambda>k. v div B ^ k mod B) (rev [0 ..< n])) = a * B ^ n + v mod B ^ n" for B :: nat
proof (induction n arbitrary: a)
  case (Suc n)
  have "v mod (B ^ n * B) = B ^ n * (v div B ^ n mod B) + v mod B ^ n" by (rule mod_mult2_eq)
  then have "v mod B ^ Suc n = v div B ^ n mod B * B ^ n + v mod B ^ n" by (simp add: mult.commute)
  then show ?case by (simp add: Suc add_mult_distrib)
qed simp

lemma bytesValue_snoc: "bytesValue (bs @ [b]) = 256 * bytesValue bs + unat b"
  by (simp add: bytesValue_def)

lemma bytesValue_byte: "k < length bs \<Longrightarrow> bytesValue bs div 256 ^ k mod 256 = unat (rev bs ! k)"
proof (induction bs arbitrary: k rule: rev_induct)
  case (snoc b bs)
  have b: "unat b < 256" using unsigned_less [of b] by simp
  show ?case
  proof (cases k)
    case 0
    then show ?thesis using b by (simp add: bytesValue_snoc)
  next
    case (Suc j)
    have "bytesValue (bs @ [b]) div 256 ^ k = bytesValue bs div 256 ^ j" using b by (simp add: Suc bytesValue_snoc div_mult2_eq)
    then show ?thesis using snoc Suc by simp
  qed
qed simp

lemma bytesValue_bound: "bytesValue bs < 256 ^ length bs"
proof (induction bs rule: rev_induct)
  case (snoc b bs)
  have "unat b < 256" using unsigned_less [of b] by simp
  then show ?case using snoc by (simp add: bytesValue_snoc)
qed (simp add: bytesValue_def)

lemma decode_encode_group:
  assumes "length bs = 5"
  shows "decodeGroup (encodeGroup bs) = bs"
proof -
  let ?v = "bytesValue bs"
  have e: "encodeGroup bs = map (\<lambda>k. ?v div 32 ^ k mod 32) (rev [0 ..< 8])" using assms by (simp add: encodeGroup_def)
  have "groupValue (encodeGroup bs) = ?v mod 32 ^ 8" using foldl_digits [of 32 0 ?v 8] by (simp add: groupValue_def e)
  then have g: "groupValue (encodeGroup bs) = ?v" using bytesValue_bound [of bs] assms by simp
  have "of_nat (?v div 256 ^ k) = rev bs ! k" if "k < 5" for k
  proof (rule word_unat_eq_iff [THEN iffD2])
    show "unat (of_nat (?v div 256 ^ k) :: byte) = unat (rev bs ! k)"
      using bytesValue_byte [of k bs] that assms by (simp add: unat_of_nat)
  qed
  then have "map (\<lambda>k. of_nat (?v div 256 ^ k)) [0 ..< 5] = map (\<lambda>k. rev bs ! k) [0 ..< 5]" by (intro map_cong) auto
  also have "\<dots> = rev bs" using map_nth [of "rev bs"] assms by simp
  finally have "rev (map (\<lambda>k. of_nat (?v div 256 ^ k)) [0 ..< 5]) = bs" by simp
  moreover have "length (encodeGroup bs) = 8" by (simp add: e)
  ultimately show ?thesis by (simp only: decodeGroup_def g groupBytes_def rev_map) simp
qed

lemma base32Val_Char: "v < 32 \<Longrightarrow> base32Val (base32Char v) = Some v"
  by (auto simp: base32Val_def base32Char_def of_char_of)

lemma base32Char_text: "v < 32 \<Longrightarrow> of_char (base32Char v) \<notin> {10, 13 :: nat}"
  by (auto simp: base32Char_def of_char_of)

lemma encodeGroups_bound: "v \<in> set (encodeGroups bs) \<Longrightarrow> v < 32"
  by (induction bs rule: encodeGroups.induct) (subst (asm) encodeGroups.simps, auto simp: encodeGroup_def split: if_splits)

lemma decode_encode_groups: "5 dvd length bs \<Longrightarrow> decodeGroups (encodeGroups bs) = bs"
proof (induction bs rule: encodeGroups.induct)
  case (1 bs)
  show ?case
  proof (cases "bs = []")
    case True
    then show ?thesis by (simp add: encodeGroups.simps decodeGroups.simps)
  next
    case False
    then have l: "length (take 5 bs) = 5" using 1(2) by (auto dest!: dvd_imp_le)
    then have "length (encodeGroup (take 5 bs)) = 8" by (simp add: encodeGroup_def)
    moreover have "encodeGroups bs = encodeGroup (take 5 bs) @ encodeGroups (drop 5 bs)" using False by (subst encodeGroups.simps) simp
    moreover have "decodeGroups (encodeGroups (drop 5 bs)) = drop 5 bs" using 1 False by (simp add: dvd_diff_nat)
    ultimately show ?thesis using decode_encode_group [OF l] by (subst decodeGroups.simps) auto
  qed
qed

lemma base32_roundtrip: "5 dvd length bs \<Longrightarrow> base32Decode (base32Encode bs) = Some bs"
proof -
  assume a: "5 dvd length bs"
  have v: "list_all (\<lambda>v. v < 32) (encodeGroups bs)" using encodeGroups_bound by (auto simp: list_all_iff)
  have "filter (\<lambda>c. of_char c \<notin> {10, 13 :: nat}) (base32Encode bs) = base32Encode bs"
    using v base32Char_text by (auto simp: base32Encode_def filter_id_conv list_all_iff)
  moreover have "map (\<lambda>c. the (base32Val c)) (base32Encode bs) = encodeGroups bs"
    using v base32Val_Char by (auto simp: base32Encode_def list_all_iff intro!: map_idI)
  moreover have "list_all (\<lambda>c. base32Val c \<noteq> None) (base32Encode bs)" using v base32Val_Char by (auto simp: base32Encode_def list_all_iff)
  ultimately show ?thesis using decode_encode_groups [OF a] by (simp add: base32Decode_def Let_def)
qed

lemma base32_upper: "toUpper (trimSpace (base32Encode bs)) = base32Encode bs"
proof -
  have c: "\<not> isSpaceChar (base32Char v)" "upperChar (base32Char v) = base32Char v" if "v < 32" for v
    using that by (auto simp: base32Char_def isSpaceChar_def upperChar_def of_char_of)
  have "trimSpace (base32Encode bs) = base32Encode bs"
    using c(1) encodeGroups_bound by (intro trimSpace_id_all) (auto simp: base32Encode_def list_all_iff)
  then show ?thesis using c(2) encodeGroups_bound by (auto simp: toUpper_def base32Encode_def intro!: map_idI)
qed

section \<open>Codes and windows\<close>

lemma padded_length: "length (formatUint n) \<le> w \<Longrightarrow> length (padded w n) = w"
  by (simp add: padded_def)

lemma hotp_code: "length (padded totpDigits (hotp hmac key c)) = totpDigits"
proof -
  have "hotp hmac key c < 10 ^ 6" by (simp add: hotp_def Let_def)
  then show ?thesis using formatUint_length [of "hotp hmac key c" 5] by (intro padded_length) (simp add: totpDigits_def)
qed

lemma padded_digits: "list_all isDigit (padded w n)"
  using formatUint_digits [of n] by (auto simp: padded_def list_all_iff isDigit_def)

lemma padded_trim: "trimSpace (padded w n) = padded w n"
  using padded_digits [of w n] by (intro trimSpace_id_all) (auto simp: list_all_iff isDigit_not_space)

text \<open>A code is accepted in its own step, the one before and the one after, and when those steps happen to have the same code.\<close>

lemma verifyTOTP_window:
  "verifyTOTP hmac secret code now \<longleftrightarrow>
     (\<exists>key. base32Decode (toUpper (trimSpace secret)) = Some key
        \<and> trimSpace code \<in> {padded totpDigits (hotp hmac key (unixStep now - 1)), padded totpDigits (hotp hmac key (unixStep now)),
             padded totpDigits (hotp hmac key (unixStep now + 1))})"
proof -
  have "[- totpSkewSteps .. totpSkewSteps] = [-1, 0, 1]" by (simp add: totpSkewSteps_def upto.simps)
  then show ?thesis using hotp_code by (auto simp: verifyTOTP_def Let_def split: option.splits)
qed

end
