(* ===== verification/AuthGate.thy ===== *)
theory AuthGate
  imports AuthTOTP
begin

text \<open>
  What stands before a panel request (\<^verbatim>\<open>backend/internal/auth\<close>): the login limiter (\<^verbatim>\<open>ratelimit.go\<close>), access and refresh tokens (\<^verbatim>\<open>tokens.go\<close>), and the
  middleware that turns a token into the caller (\<^verbatim>\<open>middleware.go\<close>, \<^verbatim>\<open>totp_api.go\<close>, \<^verbatim>\<open>allowlist.go\<close>).

  The JWT library is two arguments: \<open>sign\<close> gives the token of a set of claims, \<open>parse\<close> checks signature, method and expiry at a time.
  \<open>contains\<close> says that an address is in a network, false when either is malformed.
\<close>

section \<open>Login limiter\<close>

text \<open>Redis keys with a counter and an expiry time. The nil store of the code, without Redis, is no store.\<close>

type_synonym redisKeys = "string \<rightharpoonup> nat \<times> gotime option"

definition millisecond :: duration where "millisecond = 1000000"

definition accountFailLimit :: nat where "accountFailLimit = 5"
definition accountLockTTL :: duration where "accountLockTTL = 15 * minute"
definition ipFailLimit :: nat where "ipFailLimit = 20"
definition ipLockTTL :: duration where "ipLockTTL = 15 * minute"
definition failWindow :: duration where "failWindow = 15 * minute"

definition acctFailKey :: "string \<Rightarrow> string" where "acctFailKey u = ''auth:fail:acct:'' @ u"
definition acctLockKey :: "string \<Rightarrow> string" where "acctLockKey u = ''auth:lock:acct:'' @ u"
definition ipFailKey :: "string \<Rightarrow> string" where "ipFailKey ip = ''auth:fail:ip:'' @ ip"
definition ipLockKey :: "string \<Rightarrow> string" where "ipLockKey ip = ''auth:lock:ip:'' @ ip"

definition liveKey :: "gotime \<Rightarrow> redisKeys \<Rightarrow> string \<Rightarrow> (nat \<times> gotime option) option" where
  "liveKey now s key =
     (case s key of
        Some (n, Some t) \<Rightarrow> if now < t then Some (n, Some t) else None
      | x \<Rightarrow> x)"

text \<open>\<open>INCR\<close>, and \<open>EXPIRE\<close> for a new key. No count is an error.\<close>

definition storeIncr :: "(string \<Rightarrow> bool) \<Rightarrow> gotime \<Rightarrow> string \<Rightarrow> duration \<Rightarrow> redisKeys \<Rightarrow> nat option \<times> redisKeys" where
  "storeIncr down now key ttl s =
     (if down (''incr '' @ key) then (None, s)
      else let (n, t) = (case liveKey now s key of None \<Rightarrow> (1, None) | Some (k, t) \<Rightarrow> (Suc k, t));
               t' = (if n = 1 \<and> \<not> down (''expire '' @ key) then Some (now + ttl) else t)
           in (Some n, s(key \<mapsto> (n, t'))))"

definition storeSet :: "(string \<Rightarrow> bool) \<Rightarrow> gotime \<Rightarrow> string \<Rightarrow> duration \<Rightarrow> redisKeys \<Rightarrow> redisKeys" where
  "storeSet down now key ttl s = (if down (''set '' @ key) then s else s(key \<mapsto> (1, Some (now + ttl))))"

text \<open>\<open>TTL\<close> answers in seconds, rounded to the nearest; no key and no expiry are negative and made zero.\<close>

definition storeTTL :: "(string \<Rightarrow> bool) \<Rightarrow> gotime \<Rightarrow> string \<Rightarrow> redisKeys \<Rightarrow> duration option" where
  "storeTTL down now key s =
     (if down (''ttl '' @ key) then None
      else case liveKey now s key of
             Some (n, Some t) \<Rightarrow> Some (((t - now) div millisecond + 500) div 1000 * second)
           | _ \<Rightarrow> Some 0)"

definition storeDel :: "(string \<Rightarrow> bool) \<Rightarrow> string list \<Rightarrow> redisKeys \<Rightarrow> bool \<times> redisKeys" where
  "storeDel down keys s = (if down ''del'' then (False, s) else (True, \<lambda>k. if k \<in> set keys then None else s k))"

definition lockStep :: "(string \<Rightarrow> bool) \<Rightarrow> gotime \<Rightarrow> redisKeys \<Rightarrow> bool \<times> duration \<Rightarrow> string \<Rightarrow> bool \<times> duration" where
  "lockStep down now s acc key =
     (case storeTTL down now key s of
        None \<Rightarrow> acc
      | Some d \<Rightarrow> if 0 < d then (True, max (snd acc) d) else acc)"

definition lockState :: "(string \<Rightarrow> bool) \<Rightarrow> gotime \<Rightarrow> string \<Rightarrow> string \<Rightarrow> redisKeys option \<Rightarrow> bool \<times> duration" where
  "lockState down now username ip l =
     (case l of
        None \<Rightarrow> (False, 0)
      | Some s \<Rightarrow> foldl (lockStep down now s) (False, 0) [acctLockKey username, ipLockKey ip])"

definition recordFailure :: "(string \<Rightarrow> bool) \<Rightarrow> gotime \<Rightarrow> string \<Rightarrow> string \<Rightarrow> redisKeys option \<Rightarrow> bool \<times> redisKeys option" where
  "recordFailure down now username ip l =
     (case l of
        None \<Rightarrow> (False, None)
      | Some s \<Rightarrow>
          (let (n, s1) = storeIncr down now (acctFailKey username) failWindow s;
               locked = (case n of None \<Rightarrow> False | Some k \<Rightarrow> accountFailLimit \<le> k);
               s2 = (if locked then storeSet down now (acctLockKey username) accountLockTTL s1 else s1);
               (k, s3) = storeIncr down now (ipFailKey ip) failWindow s2;
               s4 = (if (case k of None \<Rightarrow> False | Some j \<Rightarrow> ipFailLimit \<le> j) then storeSet down now (ipLockKey ip) ipLockTTL s3 else s3)
           in (locked, Some s4)))"

definition unlockAccount :: "(string \<Rightarrow> bool) \<Rightarrow> string \<Rightarrow> redisKeys option \<Rightarrow> bool \<times> redisKeys option" where
  "unlockAccount down username l =
     (case l of
        None \<Rightarrow> (True, None)
      | Some s \<Rightarrow> (case storeDel down [acctFailKey username, acctLockKey username] s of (b, s1) \<Rightarrow> (b, Some s1)))"

definition limiterReset :: "(string \<Rightarrow> bool) \<Rightarrow> string \<Rightarrow> redisKeys option \<Rightarrow> redisKeys option" where
  "limiterReset down username l = snd (unlockAccount down username l)"

definition retrySeconds :: "duration \<Rightarrow> string" where
  "retrySeconds d = (let secs = wholeSeconds d in formatUint (nat (if secs < 1 then 1 else secs)))"

section \<open>Tokens\<close>

datatype claimValue = ClaimStr string | ClaimBool bool | ClaimNum int | ClaimList "claimValue list"

type_synonym MapClaims = "(string \<times> claimValue) list"

definition tokenTypeAccess :: string where "tokenTypeAccess = ''access''"
definition tokenTypeEnroll :: string where "tokenTypeEnroll = ''enroll''"
definition accessTTL :: duration where "accessTTL = 5 * minute"
definition enrollTTL :: duration where "enrollTTL = 10 * minute"

record accessClaims =
  ac_ManagerID :: string
  ac_Role :: string
  ac_Scoped :: bool
  ac_SessionID :: string
  ac_Perms :: "string list"
  ac_AllowedIPs :: "string list"

definition unixTime :: "gotime \<Rightarrow> int" where
  "unixTime t = t div second"

definition accessMapClaims :: "accessClaims \<Rightarrow> gotime \<Rightarrow> MapClaims" where
  "accessMapClaims c now =
     [(''sub'', ClaimStr (ac_ManagerID c)), (''role'', ClaimStr (ac_Role c)), (''scoped'', ClaimBool (ac_Scoped c)), (''sid'', ClaimStr (ac_SessionID c)),
      (''perms'', ClaimList (map ClaimStr (ac_Perms c))), (''ips'', ClaimList (map ClaimStr (ac_AllowedIPs c))), (''typ'', ClaimStr tokenTypeAccess),
      (''iat'', ClaimNum (unixTime now)), (''exp'', ClaimNum (unixTime (now + accessTTL)))]"

definition issueAccess :: "(MapClaims \<Rightarrow> string option) \<Rightarrow> accessClaims \<Rightarrow> gotime \<Rightarrow> string option" where
  "issueAccess sign c now = sign (accessMapClaims c now)"

definition issueEnroll :: "(MapClaims \<Rightarrow> string option) \<Rightarrow> string \<Rightarrow> gotime \<Rightarrow> string option" where
  "issueEnroll sign managerID now =
     sign [(''sub'', ClaimStr managerID), (''typ'', ClaimStr tokenTypeEnroll), (''iat'', ClaimNum (unixTime now)),
           (''exp'', ClaimNum (unixTime (now + enrollTTL)))]"

text \<open>A failed type assertion gives the zero value.\<close>

definition strClaim :: "MapClaims \<Rightarrow> string \<Rightarrow> string" where
  "strClaim c k = (case map_of c k of Some (ClaimStr s) \<Rightarrow> s | _ \<Rightarrow> '''')"

definition boolClaim :: "MapClaims \<Rightarrow> string \<Rightarrow> bool" where
  "boolClaim c k = (case map_of c k of Some (ClaimBool b) \<Rightarrow> b | _ \<Rightarrow> False)"

definition stringSlice :: "claimValue option \<Rightarrow> string list" where
  "stringSlice v =
     (case v of
        Some (ClaimList xs) \<Rightarrow> concat (map (\<lambda>x. case x of ClaimStr s \<Rightarrow> [s] | _ \<Rightarrow> []) xs)
      | _ \<Rightarrow> [])"

definition parseEnroll :: "(gotime \<Rightarrow> string \<Rightarrow> MapClaims option) \<Rightarrow> gotime \<Rightarrow> string \<Rightarrow> string option" where
  "parseEnroll parse now raw =
     (case parse now raw of
        None \<Rightarrow> None
      | Some c \<Rightarrow>
          if strClaim c ''typ'' \<noteq> tokenTypeEnroll then None
          else if strClaim c ''sub'' = '''' then None
          else Some (strClaim c ''sub''))"

definition parseAccess :: "(gotime \<Rightarrow> string \<Rightarrow> MapClaims option) \<Rightarrow> gotime \<Rightarrow> string \<Rightarrow> accessClaims option" where
  "parseAccess parse now raw =
     (case parse now raw of
        None \<Rightarrow> None
      | Some c \<Rightarrow>
          if strClaim c ''typ'' \<noteq> tokenTypeAccess then None
          else if strClaim c ''sub'' = '''' then None
          else Some \<lparr>ac_ManagerID = strClaim c ''sub'', ac_Role = strClaim c ''role'', ac_Scoped = boolClaim c ''scoped'', ac_SessionID = strClaim c ''sid'',
                 ac_Perms = stringSlice (map_of c ''perms''), ac_AllowedIPs = stringSlice (map_of c ''ips'')\<rparr>)"

definition composeRefreshToken :: "string \<Rightarrow> string \<Rightarrow> string" where
  "composeRefreshToken sessionID secret = sessionID @ ''.'' @ secret"

definition parseRefreshToken :: "string \<Rightarrow> (string \<times> string) option" where
  "parseRefreshToken tok =
     (let sid = takeWhile (\<lambda>c. c \<noteq> CHR ''.'') tok; rest = dropWhile (\<lambda>c. c \<noteq> CHR ''.'') tok in
      if rest = [] \<or> sid = [] \<or> tl rest = [] then None else Some (sid, tl rest))"

section \<open>The caller of a request\<close>

text \<open>The headers that matter; the remote host is the address without the port.\<close>

record httpRequest =
  rq_Authorization :: string
  rq_ForwardedFor :: string
  rq_RemoteHost :: string
  rq_UA :: string

definition bearerToken :: "httpRequest \<Rightarrow> string option" where
  "bearerToken r =
     (let h = rq_Authorization r; raw = drop 7 h in
      if take 7 h \<noteq> ''Bearer '' \<or> raw = '''' then None else Some raw)"

definition clientIP :: "httpRequest \<Rightarrow> string" where
  "clientIP r =
     (let first = trimSpace (takeWhile (\<lambda>c. c \<noteq> CHR '','') (rq_ForwardedFor r)) in
      if rq_ForwardedFor r \<noteq> '''' \<and> first \<noteq> '''' then first else rq_RemoteHost r)"

definition ipAllowed :: "(string \<Rightarrow> string \<Rightarrow> bool) \<Rightarrow> string \<Rightarrow> string list \<Rightarrow> bool" where
  "ipAllowed contains ip allow \<longleftrightarrow> allow = [] \<or> list_ex (contains ip) allow"

definition managerFromRequest :: "(gotime \<Rightarrow> string \<Rightarrow> MapClaims option) \<Rightarrow> gotime \<Rightarrow> httpRequest \<Rightarrow> Manager option" where
  "managerFromRequest parse now r =
     (case bearerToken r of
        None \<Rightarrow> None
      | Some raw \<Rightarrow>
          (case parseAccess parse now raw of
             None \<Rightarrow> None
           | Some c \<Rightarrow> Some \<lparr>ma_ID = ac_ManagerID c, ma_Role = ac_Role c, ma_Scoped = ac_Scoped c, ma_SessionID = ac_SessionID c, ma_IP = clientIP r,
                 ma_UA = rq_UA r, ma_Perms = Some (ac_Perms c), ma_AllowedIPs = ac_AllowedIPs c\<rparr>))"

text \<open>\<^verbatim>\<open>Require\<close>: the caller, or the refusal, with the audit row of a denial.\<close>

definition Require ::
    "(string \<Rightarrow> bool) \<Rightarrow> (gotime \<Rightarrow> string \<Rightarrow> MapClaims option) \<Rightarrow> (string \<Rightarrow> string \<Rightarrow> bool) \<Rightarrow> gotime \<Rightarrow> string \<Rightarrow> httpRequest \<Rightarrow> AuthDB
       \<Rightarrow> Manager reply \<times> AuthDB" where
  "Require down parse contains now perm r db =
     (case managerFromRequest parse now r of
        None \<Rightarrow> (Err 401 ''unauthorized'', db)
      | Some m \<Rightarrow>
          if \<not> ipAllowed contains (ma_IP m) (ma_AllowedIPs m) then (Err 403 ''ip_not_allowed'', audit down (Some m) ''auth.ip_denied'' ''manager'' (ma_ID m) db)
          else if perm \<noteq> '''' \<and> \<not> Can m perm then (Err 403 ''forbidden'', audit down (Some m) ''auth.denied'' ''permission'' perm db)
          else (OK m, db))"

definition enrollOrAccess ::
    "(gotime \<Rightarrow> string \<Rightarrow> MapClaims option) \<Rightarrow> (string \<Rightarrow> string \<Rightarrow> bool) \<Rightarrow> gotime \<Rightarrow> httpRequest \<Rightarrow> Manager reply" where
  "enrollOrAccess parse contains now r =
     (case managerFromRequest parse now r of
        Some m \<Rightarrow> if \<not> ipAllowed contains (ma_IP m) (ma_AllowedIPs m) then Err 403 ''ip_not_allowed'' else OK m
      | None \<Rightarrow>
          (case bearerToken r of
             None \<Rightarrow> Err 401 ''unauthorized''
           | Some raw \<Rightarrow>
               (case parseEnroll parse now raw of
                  None \<Rightarrow> Err 401 ''unauthorized''
                | Some i \<Rightarrow> OK \<lparr>ma_ID = i, ma_Role = '''', ma_Scoped = False, ma_SessionID = '''', ma_IP = clientIP r, ma_UA = rq_UA r, ma_Perms = None,
                      ma_AllowedIPs = []\<rparr>)))"

end
