(* ===== verification/AuthLogin.thy ===== *)
theory AuthLogin
  imports AuthGate
begin

text \<open>
  Panel sessions (\<^verbatim>\<open>backend/internal/auth\<close>: \<^verbatim>\<open>sessions.go\<close>, \<^verbatim>\<open>panelsessions_api.go\<close>), login, refresh and logout (\<^verbatim>\<open>login.go\<close>), the unlock of
  \<^verbatim>\<open>managers_api.go\<close> and the password reset of \<^verbatim>\<open>cli_reset.go\<close>. The state is the tables and the keys of the limiter. One handler reads one time.
\<close>

section \<open>Sessions\<close>

definition createSession :: "gotime \<Rightarrow> string \<Rightarrow> string \<Rightarrow> string \<Rightarrow> string \<Rightarrow> AuthDB \<Rightarrow> string \<times> AuthDB" where
  "createSession now managerID hash ua ip db =
     (let i = formatUint (au_nextID db)
      in (i, db\<lparr>au_nextID := Suc (au_nextID db), au_sessions := au_sessions db @ [\<lparr>se_ID = i, se_ManagerID = managerID, se_RefreshHash = hash, se_UA = ua,
               se_IP = ip, se_CreatedAt = now, se_LastSeenAt = now, se_Revoked = False\<rparr>]\<rparr>))"

definition getSession :: "string \<Rightarrow> AuthDB \<Rightarrow> panelSession option" where
  "getSession sid db = find (\<lambda>s. se_ID s = sid) (au_sessions db)"

definition updateSessions :: "(panelSession \<Rightarrow> bool) \<Rightarrow> (panelSession \<Rightarrow> panelSession) \<Rightarrow> AuthDB \<Rightarrow> bool \<times> AuthDB" where
  "updateSessions P f db =
     (length (filter P (au_sessions db)) = 1, db\<lparr>au_sessions := map (\<lambda>s. if P s then f s else s) (au_sessions db)\<rparr>)"

definition rotateSession :: "gotime \<Rightarrow> string \<Rightarrow> string \<Rightarrow> string \<Rightarrow> string \<Rightarrow> AuthDB \<Rightarrow> bool \<times> AuthDB" where
  "rotateSession now sid newHash ip ua db =
     updateSessions (\<lambda>s. se_ID s = sid \<and> \<not> se_Revoked s) (\<lambda>s. s\<lparr>se_RefreshHash := newHash, se_LastSeenAt := now, se_IP := ip, se_UA := ua\<rparr>) db"

definition revokeSession :: "string \<Rightarrow> string \<Rightarrow> AuthDB \<Rightarrow> bool \<times> AuthDB" where
  "revokeSession sid ownerID db =
     updateSessions (\<lambda>s. se_ID s = sid \<and> (ownerID = '''' \<or> se_ManagerID s = ownerID)) (\<lambda>s. s\<lparr>se_Revoked := True\<rparr>) db"

section \<open>Login\<close>

record LoginState =
  ls_db :: AuthDB
  ls_keys :: "redisKeys option"

text \<open>What a request meets: the factor environment, the password functions, the libraries, the settings and the random numbers.\<close>

record loginEnv =
  le_fe :: factorEnv
  le_verifyPassword :: "string \<Rightarrow> string \<Rightarrow> (bool \<times> bool) option"
  le_hashPassword :: "string \<Rightarrow> string option"
  le_contains :: "string \<Rightarrow> string \<Rightarrow> bool"
  le_require2FA :: "bool option"
  le_secret :: "string option"
  le_sign :: "MapClaims \<Rightarrow> string option"

abbreviation le_now :: "loginEnv \<Rightarrow> gotime" where "le_now le \<equiv> fe_now (le_fe le)"
abbreviation le_down :: "loginEnv \<Rightarrow> string \<Rightarrow> bool" where "le_down le \<equiv> fe_down (le_fe le)"

record loginRequest =
  lq_Username :: string
  lq_Password :: string
  lq_TOTPCode :: string

record tokenResponse =
  tr_AccessToken :: string
  tr_RefreshToken :: string
  tr_ManagerID :: string
  tr_Username :: string
  tr_Role :: string

datatype loginReply = Session tokenResponse | EnrollmentRequired string

definition auditActor :: "loginEnv \<Rightarrow> string \<Rightarrow> string \<Rightarrow> string \<Rightarrow> string \<Rightarrow> AuthDB \<Rightarrow> AuthDB" where
  "auditActor le actor action entityType entityID db =
     (if le_down le ''audit'' then db
      else db\<lparr>au_audit := au_audit db @ [\<lparr>ad_Actor = actor, ad_Action = action, ad_EntityType = entityType, ad_EntityID = entityID\<rparr>]\<rparr>)"

definition roleRequire2FA :: "managerAuthRow \<Rightarrow> AuthDB \<Rightarrow> bool" where
  "roleRequire2FA m db = (case Option.bind (mr_RoleID m) (\<lambda>r. getRole r db) of None \<Rightarrow> False | Some r \<Rightarrow> ro_Require2FA r)"

definition twoFactorRequired :: "loginEnv \<Rightarrow> managerAuthRow \<Rightarrow> AuthDB \<Rightarrow> bool" where
  "twoFactorRequired le m db = (if roleRequire2FA m db then True else case le_require2FA le of None \<Rightarrow> False | Some b \<Rightarrow> b)"

definition sessionClaims :: "managerAuthRow \<Rightarrow> string \<Rightarrow> AuthDB \<Rightarrow> accessClaims" where
  "sessionClaims m sid db =
     \<lparr>ac_ManagerID = mr_ID m, ac_Role = mr_Role m, ac_Scoped = mr_Scoped m, ac_SessionID = sid, ac_Perms = resolvePermissions (mr_ID m) db,
      ac_AllowedIPs = allowlistCIDRs (mr_ID m) db\<rparr>"

definition tokenReply :: "managerAuthRow \<Rightarrow> string \<Rightarrow> string \<Rightarrow> string \<Rightarrow> tokenResponse" where
  "tokenReply m sid access secret =
     \<lparr>tr_AccessToken = access, tr_RefreshToken = composeRefreshToken sid secret, tr_ManagerID = mr_ID m, tr_Username = mr_Username m, tr_Role = mr_Role m\<rparr>"

text \<open>A token that cannot be signed leaves the session behind.\<close>

definition issueSession :: "loginEnv \<Rightarrow> managerAuthRow \<Rightarrow> string \<Rightarrow> string \<Rightarrow> AuthDB \<Rightarrow> tokenResponse option \<times> AuthDB" where
  "issueSession le m ip ua db =
     (if le_down le ''permissions'' \<or> le_down le ''allowlist2'' then (None, db)
      else case le_secret le of
        None \<Rightarrow> (None, db)
      | Some secret \<Rightarrow>
          (if le_down le ''createSession'' then (None, db)
           else let (sid, db1) = createSession (le_now le) (mr_ID m) (fe_sha (le_fe le) secret) ua ip db
                in case issueAccess (le_sign le) (sessionClaims m sid db) (le_now le) of
                     None \<Rightarrow> (None, db1)
                   | Some access \<Rightarrow> (Some (tokenReply m sid access secret), db1)))"

text \<open>The rest of the handler once the password and the factors have been checked.\<close>

definition loginAccepted :: "loginEnv \<Rightarrow> string \<Rightarrow> string \<Rightarrow> loginRequest \<Rightarrow> managerAuthRow \<Rightarrow> bool \<Rightarrow> LoginState \<Rightarrow> loginReply reply \<times> LoginState" where
  "loginAccepted le ip ua req m needsUpgrade st =
     (let db = ls_db st;
          db1 = (if needsUpgrade
                 then (case le_hashPassword le (lq_Password req) of
                         None \<Rightarrow> db
                       | Some h \<Rightarrow> if le_down le ''passwordHash'' then db else updateManager (mr_ID m) (mr_PasswordHash_update (\<lambda>_. h)) db)
                 else db);
          keys = limiterReset (le_down le) (lq_Username req) (ls_keys st)
      in case issueSession le m ip ua db1 of
           (None, db2) \<Rightarrow> (Err 500 ''internal'', \<lparr>ls_db = db2, ls_keys = keys\<rparr>)
         | (Some resp, db2) \<Rightarrow> (OK (Session resp), \<lparr>ls_db = auditActor le (mr_ID m) ''auth.login'' ''manager'' (mr_ID m) db2, ls_keys = keys\<rparr>))"

definition loginFailed :: "loginEnv \<Rightarrow> string \<Rightarrow> string \<Rightarrow> string \<Rightarrow> string \<Rightarrow> string \<Rightarrow> string \<Rightarrow> LoginState \<Rightarrow> LoginState" where
  "loginFailed le username ip actor action entityType entityID st =
     \<lparr>ls_db = auditActor le actor action entityType entityID (ls_db st), ls_keys = snd (recordFailure (le_down le) (le_now le) username ip (ls_keys st))\<rparr>"

definition loginSecondFactor ::
    "loginEnv \<Rightarrow> string \<Rightarrow> string \<Rightarrow> loginRequest \<Rightarrow> managerAuthRow \<Rightarrow> bool \<Rightarrow> LoginState \<Rightarrow> loginReply reply \<times> LoginState" where
  "loginSecondFactor le ip ua req m needsUpgrade st =
     (if mr_TOTPEnabled m then
        (if lq_TOTPCode req = ''''
         then (Err 401 ''totp_required'', st\<lparr>ls_db := auditActor le (mr_ID m) ''auth.totp_required'' ''manager'' (mr_ID m) (ls_db st)\<rparr>)
         else case verifyManagerSecondFactor (le_fe le) m (lq_TOTPCode req) (ls_db st) of
                (None, db1) \<Rightarrow> (Err 500 ''internal'', st\<lparr>ls_db := db1\<rparr>)
              | (Some False, db1) \<Rightarrow>
                  (Err 401 ''invalid_totp'', loginFailed le (lq_Username req) ip (mr_ID m) ''auth.totp_failed'' ''manager'' (mr_ID m) (st\<lparr>ls_db := db1\<rparr>))
              | (Some True, db1) \<Rightarrow> loginAccepted le ip ua req m needsUpgrade (st\<lparr>ls_db := db1\<rparr>))
      else if twoFactorRequired le m (ls_db st) then
        (case issueEnroll (le_sign le) (mr_ID m) (le_now le) of
           None \<Rightarrow> (Err 500 ''internal'', st)
         | Some enroll \<Rightarrow> (OK (EnrollmentRequired enroll),
             \<lparr>ls_db = auditActor le (mr_ID m) ''auth.totp_enroll_required'' ''manager'' (mr_ID m) (ls_db st),
              ls_keys = limiterReset (le_down le) (lq_Username req) (ls_keys st)\<rparr>))
      else loginAccepted le ip ua req m needsUpgrade st)"

text \<open>The handler after the lock has been read.\<close>

definition loginChecked :: "loginEnv \<Rightarrow> string \<Rightarrow> string \<Rightarrow> loginRequest \<Rightarrow> LoginState \<Rightarrow> loginReply reply \<times> LoginState" where
  "loginChecked le ip ua req st =
     (if le_down le ''lookup'' then (Err 500 ''internal'', st)
      else case lookupManagerByUsername (lq_Username req) (ls_db st) of
        None \<Rightarrow> (Err 401 ''invalid_credentials'', loginFailed le (lq_Username req) ip '''' ''auth.login_failed'' ''manager_username'' (lq_Username req) st)
      | Some m \<Rightarrow>
          (case le_verifyPassword le (mr_PasswordHash m) (lq_Password req) of
             None \<Rightarrow> (Err 500 ''internal'', st)
           | Some (matched, needsUpgrade) \<Rightarrow>
               (if \<not> matched
                then (Err 401 ''invalid_credentials'', loginFailed le (lq_Username req) ip '''' ''auth.login_failed'' ''manager'' (mr_ID m) st)
                else if mr_Disabled m
                then (Err 403 ''account_disabled'', st\<lparr>ls_db := auditActor le (mr_ID m) ''auth.login_disabled'' ''manager'' (mr_ID m) (ls_db st)\<rparr>)
                else if le_down le ''allowlist'' then (Err 500 ''internal'', st)
                else if \<not> ipAllowed (le_contains le) ip (allowlistCIDRs (mr_ID m) (ls_db st))
                then (Err 403 ''ip_not_allowed'', st\<lparr>ls_db := auditActor le (mr_ID m) ''auth.ip_denied'' ''manager'' (mr_ID m) (ls_db st)\<rparr>)
                else loginSecondFactor le ip ua req m needsUpgrade st)))"

definition loginHandler :: "loginEnv \<Rightarrow> httpRequest \<Rightarrow> loginRequest \<Rightarrow> LoginState \<Rightarrow> loginReply reply \<times> LoginState" where
  "loginHandler le r req st =
     (if lq_Username req = '''' \<or> lq_Password req = '''' then (Err 422 ''validation_failed'', st)
      else if fst (lockState (le_down le) (le_now le) (lq_Username req) (clientIP r) (ls_keys st))
      then (Err 429 ''too_many_attempts'', st\<lparr>ls_db := auditActor le '''' ''auth.lockout'' ''manager_username'' (lq_Username req) (ls_db st)\<rparr>)
      else loginChecked le (clientIP r) (rq_UA r) req st)"

section \<open>Refresh and logout\<close>

definition bindReply :: "'a reply \<times> AuthDB \<Rightarrow> ('a \<Rightarrow> AuthDB \<Rightarrow> 'b reply \<times> AuthDB) \<Rightarrow> 'b reply \<times> AuthDB" where
  "bindReply r k = (case r of (OK x, db) \<Rightarrow> k x db | (Err n c, db) \<Rightarrow> (Err n c, db))"

text \<open>
  The refresh handler is three pieces that other requests can run between: reading the session, rotating the secret, and reading the
  manager for the new token.
\<close>

definition refreshRead :: "loginEnv \<Rightarrow> string \<Rightarrow> AuthDB \<Rightarrow> (string \<times> string) reply \<times> AuthDB" where
  "refreshRead le tok db =
     (if tok = '''' then (Err 422 ''validation_failed'', db)
      else case parseRefreshToken tok of
        None \<Rightarrow> (Err 401 ''invalid_token'', db)
      | Some (sid, secret) \<Rightarrow>
          (if le_down le ''session'' then (Err 401 ''invalid_token'', db)
           else case getSession sid db of
             None \<Rightarrow> (Err 401 ''invalid_token'', db)
           | Some s \<Rightarrow>
               (if se_Revoked s then (Err 401 ''invalid_token'', db)
                else if fe_sha (le_fe le) secret \<noteq> se_RefreshHash s
                then (Err 401 ''invalid_token'', auditActor le (se_ManagerID s) ''auth.refresh_reuse'' ''panel_session'' sid
                        (if le_down le ''revoke'' then db else snd (revokeSession sid '''' db)))
                else (OK (sid, se_ManagerID s), db))))"

definition refreshRotate :: "loginEnv \<Rightarrow> string \<Rightarrow> string \<Rightarrow> string \<Rightarrow> AuthDB \<Rightarrow> string reply \<times> AuthDB" where
  "refreshRotate le ip ua sid db =
     (case le_secret le of
        None \<Rightarrow> (Err 500 ''internal'', db)
      | Some secret \<Rightarrow>
          (if le_down le ''rotate'' then (Err 500 ''internal'', db)
           else case rotateSession (le_now le) sid (fe_sha (le_fe le) secret) ip ua db of
                  (False, db1) \<Rightarrow> (Err 401 ''invalid_token'', db1)
                | (True, db1) \<Rightarrow> (OK secret, db1)))"

definition refreshIssue :: "loginEnv \<Rightarrow> string \<Rightarrow> string \<Rightarrow> string \<Rightarrow> AuthDB \<Rightarrow> tokenResponse reply" where
  "refreshIssue le sid managerID newSecret db =
     (if le_down le ''lookup'' then Err 401 ''invalid_token''
      else case lookupManagerByID managerID db of
        None \<Rightarrow> Err 401 ''invalid_token''
      | Some m \<Rightarrow>
          (if mr_Disabled m then Err 401 ''invalid_token''
           else if le_down le ''permissions'' \<or> le_down le ''allowlist'' then Err 500 ''internal''
           else case issueAccess (le_sign le) (sessionClaims m sid db) (le_now le) of
                  None \<Rightarrow> Err 500 ''internal''
                | Some access \<Rightarrow> OK (tokenReply m sid access newSecret)))"

definition refreshHandler :: "loginEnv \<Rightarrow> httpRequest \<Rightarrow> string \<Rightarrow> AuthDB \<Rightarrow> tokenResponse reply \<times> AuthDB" where
  "refreshHandler le r tok db =
     bindReply (refreshRead le tok db) (\<lambda>(sid, i) db1.
     bindReply (refreshRotate le (clientIP r) (rq_UA r) sid db1) (\<lambda>secret db2.
     (refreshIssue le sid i secret db2, db2)))"

definition logoutHandler :: "(string \<Rightarrow> bool) \<Rightarrow> Manager \<Rightarrow> AuthDB \<Rightarrow> unit reply \<times> AuthDB" where
  "logoutHandler down m db =
     (let db1 = (if ma_SessionID m \<noteq> '''' \<and> \<not> down ''revoke'' then snd (revokeSession (ma_SessionID m) (ma_ID m) db) else db)
      in (OK (), audit down (Some m) ''auth.logout'' ''panel_session'' (ma_SessionID m) db1))"

section \<open>Managing sessions and accounts\<close>

text \<open>Newest first; \<open>current\<close> marks the session of the caller.\<close>

definition listSessions :: "string \<Rightarrow> AuthDB \<Rightarrow> panelSession list" where
  "listSessions managerID db = rev (sort_key se_CreatedAt (filter (\<lambda>s. se_ManagerID s = managerID) (au_sessions db)))"

definition listPanelSessionsHandler :: "(string \<Rightarrow> bool) \<Rightarrow> Manager \<Rightarrow> string \<Rightarrow> AuthDB \<Rightarrow> (panelSession \<times> bool) list reply" where
  "listPanelSessionsHandler down m q db =
     (if q \<noteq> '''' \<and> q \<noteq> ma_ID m \<and> \<not> Can m ''managers.view'' then Err 403 ''forbidden''
      else let target = (if q \<noteq> '''' \<and> q \<noteq> ma_ID m then q else ma_ID m)
           in if down ''listSessions'' then Err 500 ''internal''
              else OK (map (\<lambda>s. (s, se_ID s = ma_SessionID m)) (listSessions target db)))"

definition deletePanelSessionHandler :: "(string \<Rightarrow> bool) \<Rightarrow> Manager \<Rightarrow> string \<Rightarrow> AuthDB \<Rightarrow> unit reply \<times> AuthDB" where
  "deletePanelSessionHandler down m sid db =
     (let owner = (if Can m ''managers.edit'' then '''' else ma_ID m) in
      if down ''revoke'' then (Err 500 ''internal'', db)
      else case revokeSession sid owner db of
             (False, db1) \<Rightarrow> (Err 404 ''not_found'', db1)
           | (True, db1) \<Rightarrow> (OK (), audit down (Some m) ''panel_sessions.revoke'' ''panel_session'' sid db1))"

definition unlockManagerHandler :: "(string \<Rightarrow> bool) \<Rightarrow> Manager option \<Rightarrow> string \<Rightarrow> LoginState \<Rightarrow> unit reply \<times> LoginState" where
  "unlockManagerHandler down mgr i st =
     (if down ''lookup'' then (Err 500 ''internal'', st)
      else case lookupManagerByID i (ls_db st) of
        None \<Rightarrow> (Err 404 ''not_found'', st)
      | Some m \<Rightarrow>
          (case unlockAccount down (mr_Username m) (ls_keys st) of
             (False, keys) \<Rightarrow> (Err 500 ''internal'', st\<lparr>ls_keys := keys\<rparr>)
           | (True, keys) \<Rightarrow> (OK (), \<lparr>ls_db = audit down mgr ''managers.unlock'' ''manager'' i (ls_db st), ls_keys = keys\<rparr>)))"

definition ResetPasswordByUsername :: "(string \<Rightarrow> bool) \<Rightarrow> string option \<Rightarrow> string \<Rightarrow> AuthDB \<Rightarrow> bool \<times> AuthDB" where
  "ResetPasswordByUsername down hash username db =
     (if down ''lookup'' then (False, db)
      else case lookupManagerByUsername username db of
        None \<Rightarrow> (False, db)
      | Some m \<Rightarrow>
          (case hash of
             None \<Rightarrow> (False, db)
           | Some h \<Rightarrow> if down ''password'' then (False, db) else (True, updateManager (mr_ID m) (mr_PasswordHash_update (\<lambda>_. h)) db)))"

end
