(* ===== verification/AuthLoggedIn.thy ===== *)
theory AuthLoggedIn
  imports AuthLogin
begin

text \<open>
  What holds of single requests to the panel: which logins get a session, how many guesses an account allows, and what a token admits.
\<close>

section \<open>Who gets a session\<close>

lemma auditActor_fields [simp]:
  "au_managers (auditActor le a b c d db) = au_managers db" "au_roles (auditActor le a b c d db) = au_roles db"
  "au_overrides (auditActor le a b c d db) = au_overrides db" "au_sessions (auditActor le a b c d db) = au_sessions db"
  "au_backupCodes (auditActor le a b c d db) = au_backupCodes db" "au_allowlist (auditActor le a b c d db) = au_allowlist db"
  "au_nextID (auditActor le a b c d db) = au_nextID db"
  by (simp_all add: auditActor_def)

text \<open>The claims of a token depend on the tables that a login does not change.\<close>

definition sameGrants :: "string \<Rightarrow> AuthDB \<Rightarrow> AuthDB \<Rightarrow> bool" where
  "sameGrants i db db' \<longleftrightarrow> map_option (\<lambda>m. (mr_Role m, mr_RoleID m)) (lookupManagerByID i db) = map_option (\<lambda>m. (mr_Role m, mr_RoleID m)) (lookupManagerByID i db')
     \<and> au_roles db = au_roles db' \<and> au_overrides db = au_overrides db' \<and> au_allowlist db = au_allowlist db' \<and> au_nextID db = au_nextID db'"

lemma sameGrants_refl [simp]: "sameGrants i db db"
  by (simp add: sameGrants_def)

lemma sameGrants_claims:
  assumes "sameGrants (mr_ID m) db db'"
  shows "sessionClaims m sid db = sessionClaims m sid db'"
proof -
  have g: "getRole r db = getRole r db'" for r using assms by (simp add: sameGrants_def getRole_def)
  have "joinedPermissions (mr_ID m) db = joinedPermissions (mr_ID m) db'"
    using assms g by (cases "lookupManagerByID (mr_ID m) db"; cases "lookupManagerByID (mr_ID m) db'") (auto simp: sameGrants_def joinedPermissions_def split: option.split)
  moreover have "overridesOf (mr_ID m) db = overridesOf (mr_ID m) db'" using assms by (simp add: sameGrants_def overridesOf_def)
  ultimately have "resolvePermissions (mr_ID m) db = resolvePermissions (mr_ID m) db'"
    using assms by (cases "lookupManagerByID (mr_ID m) db"; cases "lookupManagerByID (mr_ID m) db'") (auto simp: sameGrants_def resolvePermissions_def Let_def)
  then show ?thesis using assms by (simp add: sessionClaims_def allowlistCIDRs_def sameGrants_def)
qed

lemma sameGrants_hash: "sameGrants i db (updateManager i (mr_PasswordHash_update f) db)"
  by (simp add: sameGrants_def lookup_update option.map_comp comp_def) (simp add: updateManager_def)

lemma sameGrants_factor: "sameGrants i db (snd (verifyManagerSecondFactor fe m code db))"
  by (auto simp: verifyManagerSecondFactor_def consumeBackupCode_def sameGrants_def lookupManagerByID_def Let_def split: option.splits prod.splits)

text \<open>The statements and the signature that a session needs.\<close>

definition sessionIssued :: "loginEnv \<Rightarrow> managerAuthRow \<Rightarrow> AuthDB \<Rightarrow> bool" where
  "sessionIssued le m db \<longleftrightarrow> \<not> le_down le ''permissions'' \<and> \<not> le_down le ''allowlist2'' \<and> \<not> le_down le ''createSession'' \<and> le_secret le \<noteq> None
     \<and> issueAccess (le_sign le) (sessionClaims m (formatUint (au_nextID db)) db) (le_now le) \<noteq> None"

lemma issueSession_iff: "(\<exists>resp. fst (issueSession le m ip ua db) = Some resp) \<longleftrightarrow> sessionIssued le m db"
  by (auto simp: issueSession_def sessionIssued_def createSession_def Let_def split: option.splits)

lemma sessionIssued_same: "sameGrants (mr_ID m) db db' \<Longrightarrow> sessionIssued le m db' = sessionIssued le m db"
  using sameGrants_claims [of m db db'] by (simp add: sessionIssued_def sameGrants_def)

lemma loginAccepted_iff: "(\<exists>resp. fst (loginAccepted le ip ua req m up st) = OK (Session resp)) \<longleftrightarrow> sessionIssued le m (ls_db st)"
proof -
  let ?db = "if up then (case le_hashPassword le (lq_Password req) of None \<Rightarrow> ls_db st
      | Some h \<Rightarrow> if le_down le ''passwordHash'' then ls_db st else updateManager (mr_ID m) (mr_PasswordHash_update (\<lambda>_. h)) (ls_db st)) else ls_db st"
  have "sameGrants (mr_ID m) (ls_db st) ?db" using sameGrants_hash by (auto split: option.split)
  then have "sessionIssued le m ?db = sessionIssued le m (ls_db st)" by (rule sessionIssued_same)
  moreover have "(\<exists>resp. fst (loginAccepted le ip ua req m up st) = OK (Session resp)) \<longleftrightarrow> (\<exists>resp. fst (issueSession le m ip ua ?db) = Some resp)"
    unfolding loginAccepted_def Let_def by (cases "issueSession le m ip ua ?db") (auto split: option.splits)
  ultimately show ?thesis using issueSession_iff by simp
qed

text \<open>The second factor: a code that is accepted, or none needed.\<close>

definition factorPassed :: "loginEnv \<Rightarrow> loginRequest \<Rightarrow> managerAuthRow \<Rightarrow> AuthDB \<Rightarrow> bool" where
  "factorPassed le req m db =
     (if mr_TOTPEnabled m then lq_TOTPCode req \<noteq> '''' \<and> fst (verifyManagerSecondFactor (le_fe le) m (lq_TOTPCode req) db) = Some True
      else \<not> twoFactorRequired le m db)"

lemma loginSecondFactor_iff:
  "(\<exists>resp. fst (loginSecondFactor le ip ua req m up st) = OK (Session resp)) \<longleftrightarrow> factorPassed le req m (ls_db st) \<and> sessionIssued le m (ls_db st)"
proof (cases "mr_TOTPEnabled m")
  case True
  obtain b db1 where v: "verifyManagerSecondFactor (le_fe le) m (lq_TOTPCode req) (ls_db st) = (b, db1)" by fastforce
  have "sessionIssued le m db1 = sessionIssued le m (ls_db st)" using sameGrants_factor v by (intro sessionIssued_same) (metis snd_conv)
  then show ?thesis using True v loginAccepted_iff [of le ip ua req m up "st\<lparr>ls_db := db1\<rparr>"]
    by (cases b) (auto simp: loginSecondFactor_def factorPassed_def split: bool.splits)
next
  case False
  then show ?thesis using loginAccepted_iff [of le ip ua req m up st] by (auto simp: loginSecondFactor_def factorPassed_def split: option.splits)
qed

text \<open>
  C17: who gets a session. A login is answered with a session exactly when the request names user and password, neither the account nor the address is
  locked, the manager exists, the password matches, the account is enabled, the address is allowed, the second factor passes (or none is required),
  and no statement or signature fails.
\<close>

theorem login_session_iff:
  "(\<exists>resp st'. loginHandler le r req st = (OK (Session resp), st')) \<longleftrightarrow>
     lq_Username req \<noteq> '''' \<and> lq_Password req \<noteq> ''''
     \<and> \<not> fst (lockState (le_down le) (le_now le) (lq_Username req) (clientIP r) (ls_keys st)) \<and> \<not> le_down le ''lookup'' \<and> \<not> le_down le ''allowlist''
     \<and> (\<exists>m up. lookupManagerByUsername (lq_Username req) (ls_db st) = Some m
          \<and> le_verifyPassword le (mr_PasswordHash m) (lq_Password req) = Some (True, up) \<and> \<not> mr_Disabled m
          \<and> ipAllowed (le_contains le) (clientIP r) (allowlistCIDRs (mr_ID m) (ls_db st))
          \<and> factorPassed le req m (ls_db st) \<and> sessionIssued le m (ls_db st))"
proof -
  have e: "(\<exists>resp st'. p = (OK (Session resp), st')) \<longleftrightarrow> (\<exists>resp. fst p = OK (Session resp))" for p :: "loginReply reply \<times> LoginState"
    by (cases p) auto
  show ?thesis unfolding e using loginSecondFactor_iff [of le "clientIP r" "rq_UA r" req]
    by (auto simp: loginHandler_def loginChecked_def split: option.splits)
qed

section \<open>Guesses\<close>

fun loginRun :: "(loginEnv \<times> httpRequest \<times> loginRequest) list \<Rightarrow> LoginState \<Rightarrow> loginReply reply list \<times> LoginState" where
  "loginRun [] st = ([], st)"
| "loginRun ((le, r, req) # xs) st = (case loginHandler le r req st of (x, st1) \<Rightarrow> case loginRun xs st1 of (ys, st2) \<Rightarrow> (x # ys, st2))"

definition guessed :: "loginReply reply \<Rightarrow> bool" where
  "guessed x \<longleftrightarrow> x \<in> {Err 401 ''invalid_credentials'', Err 401 ''invalid_totp''}"

text \<open>Answers after which the failures are forgotten: a login that passed every check, also when its session then fails.\<close>

definition passed :: "loginReply reply \<Rightarrow> bool" where
  "passed x = (case x of OK _ \<Rightarrow> True | Err n _ \<Rightarrow> n = 500)"

definition keysUp :: "loginEnv \<Rightarrow> bool" where
  "keysUp le \<longleftrightarrow> (\<forall>k. \<not> le_down le (''incr '' @ k) \<and> \<not> le_down le (''expire '' @ k) \<and> \<not> le_down le (''set '' @ k) \<and> \<not> le_down le (''ttl '' @ k))"

text \<open>The keys of an account after so many failures since a time.\<close>

definition failures :: "string \<Rightarrow> gotime \<Rightarrow> nat \<Rightarrow> LoginState \<Rightarrow> bool" where
  "failures u t0 n st \<longleftrightarrow>
     (\<exists>s. ls_keys st = Some s
        \<and> (n = 0 \<longrightarrow> s (acctFailKey u) = None \<or> (\<exists>k e. s (acctFailKey u) = Some (k, Some e) \<and> e \<le> t0))
        \<and> (0 < n \<and> n < accountFailLimit \<longrightarrow> (\<exists>e. s (acctFailKey u) = Some (n, Some e) \<and> t0 + failWindow \<le> e))
        \<and> n \<le> accountFailLimit
        \<and> (n = accountFailLimit \<longrightarrow> (\<exists>e. s (acctLockKey u) = Some (1, Some e) \<and> t0 + failWindow \<le> e)))"

lemma limiter_keys_differ [simp]:
  "acctFailKey u \<noteq> ipFailKey ip" "acctFailKey u \<noteq> ipLockKey ip" "acctLockKey u \<noteq> ipFailKey ip" "acctLockKey u \<noteq> ipLockKey ip" "acctFailKey u \<noteq> acctLockKey v"
  "ipFailKey ip \<noteq> acctFailKey u" "ipLockKey ip \<noteq> acctFailKey u" "ipFailKey ip \<noteq> acctLockKey u" "ipLockKey ip \<noteq> acctLockKey u" "acctLockKey v \<noteq> acctFailKey u"
  by (simp_all add: acctFailKey_def acctLockKey_def ipFailKey_def ipLockKey_def)

lemma failures_record:
  assumes "failures u t0 n st" and "n < accountFailLimit" and "keysUp le" and "t0 \<le> le_now le" and "le_now le < t0 + failWindow"
  shows "failures u t0 (Suc n) (loginFailed le u ip a b c d st)"
proof -
  obtain s where s: "ls_keys st = Some s"
    "n = 0 \<longrightarrow> s (acctFailKey u) = None \<or> (\<exists>k e. s (acctFailKey u) = Some (k, Some e) \<and> e \<le> t0)"
    "0 < n \<longrightarrow> (\<exists>e. s (acctFailKey u) = Some (n, Some e) \<and> t0 + failWindow \<le> e)"
    using assms(1,2) by (auto simp: failures_def)
  define s1 where "s1 = snd (storeIncr (le_down le) (le_now le) (acctFailKey u) failWindow s)"
  have i: "fst (storeIncr (le_down le) (le_now le) (acctFailKey u) failWindow s) = Some (Suc n)"
    "\<exists>e. s1 (acctFailKey u) = Some (Suc n, Some e) \<and> t0 + failWindow \<le> e"
    using s(2,3) assms(3-5) by (cases "n = 0"; auto simp: s1_def storeIncr_def keysUp_def liveKey_def Let_def split: option.splits)+
  let ?s2 = "if accountFailLimit \<le> Suc n then storeSet (le_down le) (le_now le) (acctLockKey u) accountLockTTL s1 else s1"
  have "\<exists>s4. ls_keys (loginFailed le u ip a b c d st) = Some s4 \<and> s4 (acctFailKey u) = ?s2 (acctFailKey u) \<and> s4 (acctLockKey u) = ?s2 (acctLockKey u)"
    using i(1) s(1) by (auto simp: loginFailed_def recordFailure_def s1_def Let_def storeIncr_def storeSet_def split: prod.splits option.splits)
  then obtain s4 where s4: "ls_keys (loginFailed le u ip a b c d st) = Some s4" "s4 (acctFailKey u) = ?s2 (acctFailKey u)" "s4 (acctLockKey u) = ?s2 (acctLockKey u)"
    by blast
  show ?thesis using i(2) assms(2-4) s4
    by (auto simp: failures_def storeSet_def keysUp_def accountLockTTL_def failWindow_def split: if_splits)
qed

lemma failures_keys: "ls_keys st' = ls_keys st \<Longrightarrow> failures u t0 n st' = failures u t0 n st"
  by (simp add: failures_def)

lemma failures_locked:
  assumes "failures u t0 accountFailLimit st" and "keysUp le" and "t0 \<le> le_now le" and "le_now le + 500 * millisecond \<le> t0 + failWindow"
  shows "fst (lockState (le_down le) (le_now le) u ip (ls_keys st))"
proof -
  obtain s e where s: "ls_keys st = Some s" "s (acctLockKey u) = Some (1, Some e)" "t0 + failWindow \<le> e" using assms(1) by (auto simp: failures_def)
  then have "le_now le + 500 * millisecond \<le> e" using assms(4) by simp
  then have "500 \<le> (e - le_now le) div millisecond" using zdiv_mono1 [of "500 * millisecond" "e - le_now le" millisecond] by (simp add: millisecond_def)
  then have "1 \<le> ((e - le_now le) div millisecond + 500) div 1000" using zdiv_mono1 [of 1000 "(e - le_now le) div millisecond + 500" 1000] by simp
  then have "0 < ((e - le_now le) div millisecond + 500) div 1000 * second" by (simp add: second_def)
  moreover have "le_now le < e" using \<open>le_now le + 500 * millisecond \<le> e\<close> by (simp add: millisecond_def)
  ultimately show ?thesis using s(1,2) assms(2) by (auto simp: lockState_def lockStep_def storeTTL_def liveKey_def keysUp_def split: option.split)
qed

text \<open>An answer to a login that was not locked: the failures are forgotten, one more is recorded, or the keys stay.\<close>

definition keyStep :: "loginEnv \<Rightarrow> string \<Rightarrow> string \<Rightarrow> LoginState \<Rightarrow> loginReply reply \<times> LoginState \<Rightarrow> bool" where
  "keyStep le u ip st p \<longleftrightarrow>
     passed (fst p) \<or> (if guessed (fst p) then \<exists>st1 a b c d. ls_keys st1 = ls_keys st \<and> snd p = loginFailed le u ip a b c d st1
                       else ls_keys (snd p) = ls_keys st)"

lemma loginAccepted_passed: "passed (fst (loginAccepted le ip ua req m up st))"
  by (auto simp: loginAccepted_def passed_def Let_def split: prod.split option.split)

lemma keyStep_passed: "passed (fst p) \<Longrightarrow> keyStep le u ip st p"
  by (simp add: keyStep_def)

lemma keyStep_failed: "c \<in> {''invalid_credentials'', ''invalid_totp''} \<Longrightarrow> ls_keys st1 = ls_keys st \<Longrightarrow>
    keyStep le u ip st (Err 401 c, loginFailed le u ip a b d e st1)"
  unfolding keyStep_def guessed_def by (rule disjI2, simp) blast

lemma keyStep_same: "ls_keys st' = ls_keys st \<Longrightarrow> \<not> guessed (Err n c) \<Longrightarrow> keyStep le u ip st (Err n c, st')"
  by (simp add: keyStep_def)

lemma keyStep_500: "keyStep le u ip st (Err 500 c, st')"
  by (simp add: keyStep_def passed_def)

lemmas keyStep_rules = keyStep_500 keyStep_failed keyStep_same keyStep_passed

lemma loginSecondFactor_keys: "keyStep le (lq_Username req) ip st (loginSecondFactor le ip ua req m up st)"
proof (cases "mr_TOTPEnabled m")
  case True
  obtain b db1 where v: "verifyManagerSecondFactor (le_fe le) m (lq_TOTPCode req) (ls_db st) = (b, db1)" by fastforce
  consider "b = None" | "b = Some True" | "b = Some False" by (cases b) auto
  then show ?thesis using True v loginAccepted_passed
    by cases (simp_all add: loginSecondFactor_def keyStep_rules guessed_def)
next
  case False
  then show ?thesis using loginAccepted_passed
    by (auto simp: loginSecondFactor_def keyStep_rules split: option.split intro: keyStep_passed simp: passed_def)
qed

lemma loginChecked_keys: "keyStep le (lq_Username req) ip st (loginChecked le ip ua req st)"
  using loginSecondFactor_keys [of le req ip st ua] by (simp add: loginChecked_def keyStep_rules guessed_def split: option.split prod.split)

lemma login_counts:
  assumes "loginHandler le r req st = (x, st')" and "\<not> passed x" and "failures (lq_Username req) t0 n st" and "keysUp le" and "t0 \<le> le_now le"
    and "le_now le + 500 * millisecond \<le> t0 + failWindow"
  shows "if guessed x then n < accountFailLimit \<and> failures (lq_Username req) t0 (Suc n) st' else failures (lq_Username req) t0 n st'"
proof -
  let ?u = "lq_Username req"
  let ?locked = "fst (lockState (le_down le) (le_now le) ?u (clientIP r) (ls_keys st))"
  consider "?u = '''' \<or> lq_Password req = ''''" | "?u \<noteq> ''''" "lq_Password req \<noteq> ''''" "?locked" | "?u \<noteq> ''''" "lq_Password req \<noteq> ''''" "\<not> ?locked" by blast
  then show ?thesis
  proof cases
    case 1
    then show ?thesis using assms(1,3) by (auto simp: loginHandler_def guessed_def)
  next
    case 2
    then have x: "x = Err 429 ''too_many_attempts''" "ls_keys st' = ls_keys st" using assms(1) by (auto simp: loginHandler_def)
    then show ?thesis using assms(3) failures_keys [OF x(2)] by (simp add: guessed_def)
  next
    case 3
    then have k: "keyStep le ?u (clientIP r) st (x, st')" using assms(1) loginChecked_keys [of le req "clientIP r" st "rq_UA r"] by (simp add: loginHandler_def)
    have "n \<noteq> accountFailLimit" using failures_locked [of ?u t0 st le "clientIP r"] 3(3) assms(3-6) by blast
    then have n: "n < accountFailLimit" using assms(3) by (auto simp: failures_def)
    have "le_now le < t0 + failWindow" using assms(6) by (simp add: millisecond_def)
    then have rec: "failures ?u t0 (Suc n) (loginFailed le ?u ip a b c d st1)" if "ls_keys st1 = ls_keys st" for ip a b c d st1
      using failures_record [OF _ n assms(4,5)] failures_keys [OF that] assms(3) by blast
    show ?thesis
    proof (cases "guessed x")
      case True
      then show ?thesis using k assms(2) n rec by (auto simp: keyStep_def)
    next
      case False
      then have "ls_keys st' = ls_keys st" using k assms(2) by (simp add: keyStep_def)
      then show ?thesis using False assms(3) failures_keys by metis
    qed
  qed
qed

text \<open>An answer after which the failures are forgotten, or at least not counted further.\<close>

definition resetStep :: "loginEnv \<Rightarrow> string \<Rightarrow> LoginState \<Rightarrow> loginReply reply \<times> LoginState \<Rightarrow> bool" where
  "resetStep le u st p \<longleftrightarrow> (passed (fst p) \<longrightarrow> ls_keys (snd p) \<in> {ls_keys st, limiterReset (le_down le) u (ls_keys st)})"

lemma resetStep_err: "n \<noteq> 500 \<Longrightarrow> resetStep le u st (Err n c, st')"
  by (simp add: resetStep_def passed_def)

lemma resetStep_keys: "ls_keys st' = ls_keys st \<Longrightarrow> resetStep le u st (y, st')"
  by (simp add: resetStep_def)

lemma loginAccepted_resets: "resetStep le (lq_Username req) st (loginAccepted le ip ua req m up st)"
  by (simp add: resetStep_def loginAccepted_def Let_def split: prod.split option.split)

lemma loginSecondFactor_resets: "resetStep le (lq_Username req) st (loginSecondFactor le ip ua req m up st)"
proof -
  have "resetStep le (lq_Username req) st (loginAccepted le ip ua req m up (st\<lparr>ls_db := db\<rparr>))" for db
    using loginAccepted_resets [of le req "st\<lparr>ls_db := db\<rparr>" ip ua m up] by (simp add: resetStep_def)
  then show ?thesis using loginAccepted_resets [of le req st ip ua m up]
    by (simp add: loginSecondFactor_def resetStep_err resetStep_keys split: option.split prod.split bool.split) (simp add: resetStep_def)
qed

lemma login_resets: "resetStep le (lq_Username req) st (loginHandler le r req st)"
  using loginSecondFactor_resets [of le req st "clientIP r" "rq_UA r"]
  by (simp add: loginHandler_def loginChecked_def resetStep_err resetStep_keys split: option.split prod.split)

lemma failures_passed:
  assumes "loginHandler le r req st = (x, st')" and "passed x" and "failures (lq_Username req) t0 n st"
  shows "failures (lq_Username req) t0 n st' \<or> failures (lq_Username req) t0 0 st'"
proof -
  let ?u = "lq_Username req"
  obtain s where s: "ls_keys st = Some s" using assms(3) by (auto simp: failures_def)
  have "ls_keys st' \<in> {ls_keys st, limiterReset (le_down le) ?u (ls_keys st)}" using login_resets [of le req st r] assms(1,2) by (simp add: resetStep_def)
  moreover have "limiterReset (le_down le) ?u (ls_keys st) = ls_keys st \<or>
      (\<exists>s'. limiterReset (le_down le) ?u (ls_keys st) = Some s' \<and> s' (acctFailKey ?u) = None)"
    by (auto simp: limiterReset_def unlockAccount_def storeDel_def s split: prod.split)
  ultimately have "ls_keys st' = ls_keys st \<or> (\<exists>s'. ls_keys st' = Some s' \<and> s' (acctFailKey ?u) = None)" by auto
  moreover have "failures ?u t0 0 st'" if "ls_keys st' = Some s'" "s' (acctFailKey ?u) = None" for s'
    using that by (simp add: failures_def accountFailLimit_def)
  ultimately show ?thesis using failures_keys assms(3) by metis
qed

lemma guesses_left:
  assumes "list_all (\<lambda>(le, r, req). lq_Username req = u \<and> keysUp le \<and> t0 \<le> le_now le \<and> le_now le + 500 * millisecond \<le> t0 + failWindow) xs"
    and "failures u t0 n st" and "fst (loginRun xs st) = zs @ ws" and "\<not> list_ex passed zs"
  shows "n + length (filter guessed zs) \<le> accountFailLimit"
  using assms
proof (induction zs arbitrary: xs n st)
  case Nil
  then show ?case by (auto simp: failures_def)
next
  case (Cons z zs)
  then obtain le r req xs' where xs: "xs = (le, r, req) # xs'" by (cases xs) auto
  obtain x st1 where h: "loginHandler le r req st = (x, st1)" by fastforce
  have z: "x = z" "fst (loginRun xs' st1) = zs @ ws" using Cons.prems(3) xs h by (auto split: prod.splits)
  have c: "if guessed x then n < accountFailLimit \<and> failures u t0 (Suc n) st1 else failures u t0 n st1"
    using login_counts [OF h] Cons.prems z(1) xs by auto
  have all: "list_all (\<lambda>(le, r, req). lq_Username req = u \<and> keysUp le \<and> t0 \<le> le_now le \<and> le_now le + 500 * millisecond \<le> t0 + failWindow) xs'"
    using Cons.prems(1) xs by simp
  have np: "\<not> list_ex passed zs" using Cons.prems(4) by simp
  show ?case
  proof (cases "guessed z")
    case True
    then show ?thesis using Cons.IH [OF all _ z(2) np, of "Suc n"] c z(1) by simp
  next
    case False
    then show ?thesis using Cons.IH [OF all _ z(2) np, of n] c z(1) by simp
  qed
qed

text \<open>
  C21: five guesses between resets. Take login attempts for one account that come one after the other, from however many addresses, from a time \<open>t0\<close> at
  which no earlier failure counts until fifteen minutes later (less the half second that Redis rounds away), while Redis answers. In any stretch
  of them in which no attempt is answered with a success or with a server error, at most five learn that the password or the code was wrong. (A success forgets
  the failures: five more may follow it. A server error may come after the failures were forgotten.)
\<close>

theorem five_guesses:
  assumes "list_all (\<lambda>(le, r, req). lq_Username req = u \<and> keysUp le \<and> t0 \<le> le_now le \<and> le_now le + 500 * millisecond \<le> t0 + failWindow) xs"
    and "failures u t0 0 st" and "fst (loginRun xs st) = ys @ zs @ ws" and "\<not> list_ex passed zs"
  shows "length (filter guessed zs) \<le> accountFailLimit"
proof -
  have "length (filter guessed zs) \<le> accountFailLimit" if "failures u t0 n st" for n
    using assms(1,3) that
  proof (induction ys arbitrary: xs st n)
    case Nil
    then show ?case using guesses_left [of u t0 xs n st zs ws] assms(4) by simp
  next
    case (Cons y ys)
    then obtain le r req xs' where xs: "xs = (le, r, req) # xs'" by (cases xs) auto
    obtain x st1 where h: "loginHandler le r req st = (x, st1)" by fastforce
    have run: "fst (loginRun xs' st1) = ys @ zs @ ws" using Cons.prems(2) xs h by (auto split: prod.splits)
    have "\<exists>k. failures u t0 k st1"
      using failures_passed [OF h, of t0 n] login_counts [OF h, of t0 n] Cons.prems(1,3) xs by (cases "passed x") (auto split: if_splits)
    then obtain k where k: "failures u t0 k st1" by blast
    then show ?case using Cons.IH [OF _ run k] Cons.prems(1) xs by simp
  qed
  then show ?thesis using assms(2) by blast
qed

text \<open>The handler when the lock was read in an earlier state.\<close>

definition loginSince :: "LoginState \<Rightarrow> loginEnv \<Rightarrow> httpRequest \<Rightarrow> loginRequest \<Rightarrow> LoginState \<Rightarrow> loginReply reply \<times> LoginState" where
  "loginSince st0 le r req st =
     (if lq_Username req = '''' \<or> lq_Password req = '''' then (Err 422 ''validation_failed'', st)
      else if fst (lockState (le_down le) (le_now le) (lq_Username req) (clientIP r) (ls_keys st0))
      then (Err 429 ''too_many_attempts'', st\<lparr>ls_db := auditActor le '''' ''auth.lockout'' ''manager_username'' (lq_Username req) (ls_db st)\<rparr>)
      else loginChecked le (clientIP r) (rq_UA r) req st)"

lemma loginSince_now: "loginSince st le r req st = loginHandler le r req st"
  by (simp add: loginSince_def loginHandler_def)

text \<open>Attempts that all read the lock before any of them records its failure.\<close>

fun loginBurst :: "LoginState \<Rightarrow> (loginEnv \<times> httpRequest \<times> loginRequest) list \<Rightarrow> LoginState \<Rightarrow> loginReply reply list" where
  "loginBurst st0 [] st = []"
| "loginBurst st0 ((le, r, req) # xs) st = (case loginSince st0 le r req st of (x, st1) \<Rightarrow> x # loginBurst st0 xs st1)"

text \<open>
  Concurrent guesses are not limited. Of requests that arrive together, however many, each learns whether its password was right: the lock is read
  before the slow password check and the failure is counted after it.
\<close>

theorem concurrent_guesses_unlimited:
  assumes "lookupManagerByUsername u (ls_db st) = Some m"
    and "list_all (\<lambda>(le, r, req). lq_Username req = u \<and> lq_Password req \<noteq> '''' \<and> \<not> le_down le ''lookup''
           \<and> (\<exists>up. le_verifyPassword le (mr_PasswordHash m) (lq_Password req) = Some (False, up))
           \<and> \<not> fst (lockState (le_down le) (le_now le) u (clientIP r) (ls_keys st0))) xs"
    and "u \<noteq> ''''"
  shows "loginBurst st0 xs st = replicate (length xs) (Err 401 ''invalid_credentials'')"
  using assms(1,2)
proof (induction xs arbitrary: st)
  case (Cons a xs)
  obtain le r req where a: "a = (le, r, req)" by (cases a)
  let ?st = "loginFailed le u (clientIP r) '''' ''auth.login_failed'' ''manager'' (mr_ID m) st"
  have "loginSince st0 le r req st = (Err 401 ''invalid_credentials'', ?st)"
    using Cons.prems a assms(3) by (auto simp: loginSince_def loginChecked_def)
  moreover have "lookupManagerByUsername u (ls_db ?st) = Some m"
    using Cons.prems(1) by (simp add: loginFailed_def lookupManagerByUsername_def)
  ultimately show ?case using Cons.IH Cons.prems(2) a by simp
qed simp

section \<open>Tokens\<close>

text \<open>
  What is used of the JWT library: a signed token is read back until the second of its expiry and refused from then on, or when it has no expiry.
\<close>

definition jwtExp :: "MapClaims \<Rightarrow> int option" where
  "jwtExp c = (case map_of c ''exp'' of Some (ClaimNum e) \<Rightarrow> Some e | _ \<Rightarrow> None)"

definition jwtLaws :: "(MapClaims \<Rightarrow> string option) \<Rightarrow> (gotime \<Rightarrow> string \<Rightarrow> MapClaims option) \<Rightarrow> bool" where
  "jwtLaws sign parse \<longleftrightarrow>
     (\<forall>c raw now. sign c = Some raw \<longrightarrow> parse now raw = (case jwtExp c of None \<Rightarrow> None | Some e \<Rightarrow> if now < e * second then Some c else None))"

definition accessExpiry :: "gotime \<Rightarrow> gotime" where
  "accessExpiry t = unixTime (t + accessTTL) * second"

lemma accessExpiry_bound: "accessExpiry t \<le> t + accessTTL" "t + accessTTL < accessExpiry t + second"
  by (simp_all add: accessExpiry_def unixTime_def second_def)

lemma stringSlice_map: "stringSlice (Some (ClaimList (map ClaimStr xs))) = xs"
  by (simp add: stringSlice_def comp_def concat_map_singleton)

lemma parseAccess_issued:
  assumes "jwtLaws sign parse" and "issueAccess sign c t = Some raw" and "ac_ManagerID c \<noteq> ''''"
  shows "parseAccess parse now raw = (if now < accessExpiry t then Some c else None)"
proof -
  have "jwtExp (accessMapClaims c t) = Some (unixTime (t + accessTTL))" by (simp add: jwtExp_def accessMapClaims_def)
  then have "parse now raw = (if now < accessExpiry t then Some (accessMapClaims c t) else None)"
    using assms(1,2) by (simp add: jwtLaws_def issueAccess_def accessExpiry_def)
  then show ?thesis using assms(3) by (simp add: parseAccess_def strClaim_def boolClaim_def accessMapClaims_def stringSlice_map)
qed

lemma parseAccess_expired: "jwtLaws sign parse \<Longrightarrow> issueAccess sign c t = Some raw \<Longrightarrow> t + accessTTL \<le> now \<Longrightarrow> parseAccess parse now raw = None"
  using accessExpiry_bound(1) [of t]
  by (simp add: jwtLaws_def issueAccess_def jwtExp_def accessMapClaims_def parseAccess_def accessExpiry_def)

lemma bearer_raw: "rq_Authorization r = ''Bearer '' @ raw \<Longrightarrow> raw \<noteq> '''' \<Longrightarrow> bearerToken r = Some raw"
  by (simp add: bearerToken_def Let_def)

text \<open>
  What an access token is good for. A request with the token of a session passes the guard of a route exactly until the second in which five minutes
  have passed, from an allowed address, with the permission of the route among those the token carries; a grant for the enrolment of a
  second factor never passes it.
\<close>

theorem token_admits_iff:
  assumes "jwtLaws sign parse" and "issueAccess sign c t = Some raw" and "ac_ManagerID c \<noteq> ''''" and "issueEnroll sign i t = Some grant"
    and "rq_Authorization r = ''Bearer '' @ raw" and "rq_Authorization q = ''Bearer '' @ grant" and "raw \<noteq> ''''" and "grant \<noteq> ''''"
  shows "((\<exists>m db'. Require down parse contains now perm r db = (OK m, db')) \<longleftrightarrow>
       now < accessExpiry t \<and> ipAllowed contains (clientIP r) (ac_AllowedIPs c)
       \<and> (perm = '''' \<or> permWildcard \<in> set (ac_Perms c) \<or> perm \<in> set (ac_Perms c)))
     \<and> fst (Require down parse contains now perm q db) = Err 401 ''unauthorized''"
proof
  have "managerFromRequest parse now r = (if now < accessExpiry t then Some \<lparr>ma_ID = ac_ManagerID c, ma_Role = ac_Role c, ma_Scoped = ac_Scoped c,
      ma_SessionID = ac_SessionID c, ma_IP = clientIP r, ma_UA = rq_UA r, ma_Perms = Some (ac_Perms c), ma_AllowedIPs = ac_AllowedIPs c\<rparr> else None)"
    using parseAccess_issued [OF assms(1-3)] bearer_raw [OF assms(5,7)] by (simp add: managerFromRequest_def)
  then show "(\<exists>m db'. Require down parse contains now perm r db = (OK m, db')) \<longleftrightarrow>
       now < accessExpiry t \<and> ipAllowed contains (clientIP r) (ac_AllowedIPs c)
       \<and> (perm = '''' \<or> permWildcard \<in> set (ac_Perms c) \<or> perm \<in> set (ac_Perms c))"
    by (simp add: Require_def Can_def)
  have "parseAccess parse now grant = None"
    using assms(1,4) by (auto simp: jwtLaws_def issueEnroll_def parseAccess_def jwtExp_def strClaim_def tokenTypeAccess_def tokenTypeEnroll_def split: option.splits)
  then show "fst (Require down parse contains now perm q db) = Err 401 ''unauthorized''"
    using bearer_raw [OF assms(6,8)] by (simp add: Require_def managerFromRequest_def)
qed

section \<open>Witnesses\<close>

definition wFE :: factorEnv where
  "wFE = \<lparr>fe_now = 0, fe_down = \<lambda>_. False, fe_hmac = \<lambda>_ _. replicate 20 0, fe_sha = \<lambda>x. x, fe_decrypt = \<lambda>x. Some x, fe_encrypt = \<lambda>x. Some x\<rparr>"

definition wLogin :: "gotime \<Rightarrow> string \<Rightarrow> loginEnv" where
  "wLogin now secret = \<lparr>le_fe = wFE\<lparr>fe_now := now\<rparr>, le_verifyPassword = \<lambda>h p. Some (h = p, False), le_hashPassword = \<lambda>p. Some p, le_contains = \<lambda>_ _. True,
     le_require2FA = None, le_secret = Some secret, le_sign = \<lambda>_. Some ''t''\<rparr>"

definition wRow :: managerAuthRow where
  "wRow = \<lparr>mr_ID = ''m'', mr_Username = ''u'', mr_PasswordHash = ''p'', mr_Role = ''admin'', mr_RoleID = None, mr_Scoped = False, mr_Disabled = False,
     mr_TOTPEnabled = False, mr_TOTPSecretEnc = '''', mr_TOTPPendingEnc = '''', mr_Profile = []\<rparr>"

definition wSession :: panelSession where
  "wSession = \<lparr>se_ID = ''0'', se_ManagerID = ''m'', se_RefreshHash = ''s'', se_UA = '''', se_IP = '''', se_CreatedAt = 0, se_LastSeenAt = 0, se_Revoked = False\<rparr>"

definition wAuth :: "panelSession list \<Rightarrow> AuthDB" where
  "wAuth ss = \<lparr>au_managers = [wRow], au_roles = [], au_overrides = [], au_sessions = ss, au_backupCodes = [], au_allowlist = [], au_audit = [], au_nextID = 1,
     au_ledgerActors = []\<rparr>"

definition wHTTP :: "string \<Rightarrow> httpRequest" where
  "wHTTP h = \<lparr>rq_Authorization = h, rq_ForwardedFor = '''', rq_RemoteHost = ''10.0.0.1'', rq_UA = ''''\<rparr>"

definition wGuess :: "loginEnv \<times> httpRequest \<times> loginRequest" where
  "wGuess = (wLogin 0 ''s'', wHTTP '''', \<lparr>lq_Username = ''u'', lq_Password = ''x'', lq_TOTPCode = ''''\<rparr>)"

lemmas wAuth_simps = wFE_def wLogin_def wRow_def wSession_def wAuth_def wHTTP_def wGuess_def

lemma keysUp_wLogin: "keysUp (wLogin now s)"
  by (simp add: keysUp_def wAuth_simps)

lemma formatUint_0: "formatUint 0 = ''0''"
  by code_simp

definition wState :: LoginState where
  "wState = \<lparr>ls_db = wAuth [], ls_keys = Some (\<lambda>_. None)\<rparr>"

lemma failures_wState: "failures u t 0 wState"
  by (simp add: failures_def wState_def accountFailLimit_def)

definition wPass :: "loginEnv \<times> httpRequest \<times> loginRequest" where
  "wPass = (wLogin 0 ''s'', wHTTP '''', \<lparr>lq_Username = ''u'', lq_Password = ''p'', lq_TOTPCode = ''''\<rparr>)"

lemma wAttempts:
  "list_all (\<lambda>(le, r, req). lq_Username req = ''u'' \<and> keysUp le \<and> 0 \<le> le_now le \<and> le_now le + 500 * millisecond \<le> 0 + failWindow)
     (replicate k wGuess @ replicate l wPass @ replicate n wGuess)"
proof -
  let ?P = "\<lambda>(le, r, req). lq_Username req = ''u'' \<and> keysUp le \<and> 0 \<le> le_now le \<and> le_now le + 500 * millisecond \<le> 0 + failWindow"
  have "le_now (wLogin 0 ''s'') = 0" "500 * millisecond \<le> failWindow" by (simp_all add: wLogin_def wFE_def millisecond_def failWindow_def minute_def second_def)
  then have "?P wGuess" "?P wPass" using keysUp_wLogin by (simp_all add: wGuess_def wPass_def)
  then show ?thesis by (simp only: list_all_iff set_append set_replicate_conv_if) auto
qed

theorem five_guesses_witness:
  "fst (loginRun (replicate 6 wGuess) wState) = replicate 5 (Err 401 ''invalid_credentials'') @ [Err 429 ''too_many_attempts'']
   \<and> (let xs = fst (loginRun (replicate 4 wGuess @ replicate 1 wPass @ replicate 6 wGuess) wState)
      in length (filter guessed xs) = 9 \<and> length (filter guessed (drop 5 xs)) \<le> accountFailLimit)"
proof -
  have run: "fst (loginRun (replicate 6 wGuess) wState) = replicate 5 (Err 401 ''invalid_credentials'') @ [Err 429 ''too_many_attempts'']"
    by code_simp
  let ?xs = "fst (loginRun (replicate 4 wGuess @ replicate 1 wPass @ replicate 6 wGuess) wState)"
  have n: "length (filter guessed ?xs) = 9" by code_simp
  have p: "\<not> list_ex passed (drop 5 ?xs)" by code_simp
  have "length (filter guessed (drop 5 ?xs)) \<le> accountFailLimit"
    using five_guesses [OF wAttempts failures_wState, of 4 1 6 "take 5 ?xs" "drop 5 ?xs" "[]"] p by simp
  then show ?thesis using run n by (simp add: Let_def)
qed

theorem concurrent_guesses_unlimited_witness: "loginBurst wState (replicate 100 wGuess) wState = replicate 100 (Err 401 ''invalid_credentials'')"
proof -
  have "lookupManagerByUsername ''u'' (ls_db wState) = Some wRow" by (simp add: wState_def wAuth_simps lookupManagerByUsername_def)
  moreover have "list_all (\<lambda>(le, r, req). lq_Username req = ''u'' \<and> lq_Password req \<noteq> '''' \<and> \<not> le_down le ''lookup''
      \<and> (\<exists>up. le_verifyPassword le (mr_PasswordHash wRow) (lq_Password req) = Some (False, up))
      \<and> \<not> fst (lockState (le_down le) (le_now le) ''u'' (clientIP r) (ls_keys wState))) (replicate 100 wGuess)"
    by (auto simp: list_all_iff wAuth_simps wState_def lockState_def lockStep_def storeTTL_def liveKey_def)
  ultimately show ?thesis using concurrent_guesses_unlimited [of "''u''" wState wRow wState "replicate 100 wGuess"] by simp
qed

text \<open>A JWT library that knows two sets of claims.\<close>

definition wClaims :: accessClaims where
  "wClaims = \<lparr>ac_ManagerID = ''m'', ac_Role = ''admin'', ac_Scoped = False, ac_SessionID = ''0'', ac_Perms = [''renew''], ac_AllowedIPs = []\<rparr>"

definition wGrant :: MapClaims where
  "wGrant = [(''sub'', ClaimStr ''m''), (''typ'', ClaimStr tokenTypeEnroll), (''iat'', ClaimNum (unixTime 0)), (''exp'', ClaimNum (unixTime (0 + enrollTTL)))]"

definition wSign :: "MapClaims \<Rightarrow> string option" where
  "wSign c = (if c = accessMapClaims wClaims 0 then Some ''a'' else if c = wGrant then Some ''e'' else None)"

definition wParse :: "gotime \<Rightarrow> string \<Rightarrow> MapClaims option" where
  "wParse now raw = (if raw = ''a'' \<and> now < unixTime (0 + accessTTL) * second then Some (accessMapClaims wClaims 0)
     else if raw = ''e'' \<and> now < unixTime (0 + enrollTTL) * second then Some wGrant else None)"

lemma wJWT: "jwtLaws wSign wParse"
  by (auto simp: jwtLaws_def wSign_def wParse_def jwtExp_def accessMapClaims_def wGrant_def split: if_splits)

lemma wGrant_other: "wGrant \<noteq> accessMapClaims wClaims 0"
  by (simp add: wGrant_def accessMapClaims_def)

lemma wSign_access: "issueAccess wSign wClaims 0 = Some ''a''"
  by (simp add: issueAccess_def wSign_def)

theorem token_admits_iff_witness:
  "(\<exists>m db'. Require (\<lambda>_. False) wParse (\<lambda>_ _. True) 0 ''renew'' (wHTTP ''Bearer a'') (wAuth []) = (OK m, db'))
     \<and> \<not> (\<exists>m db'. Require (\<lambda>_. False) wParse (\<lambda>_ _. True) accessTTL ''renew'' (wHTTP ''Bearer a'') (wAuth []) = (OK m, db'))"
proof -
  have e: "issueEnroll wSign ''m'' 0 = Some ''e''" using wGrant_other by (simp add: issueEnroll_def wSign_def wGrant_def)
  have h: "rq_Authorization (wHTTP ''Bearer a'') = ''Bearer '' @ ''a''" "rq_Authorization (wHTTP ''Bearer e'') = ''Bearer '' @ ''e''" by (simp_all add: wHTTP_def)
  have m: "ac_ManagerID wClaims \<noteq> ''''" by (simp add: wClaims_def)
  have "accessExpiry 0 = 300 * second" by (simp add: accessExpiry_def unixTime_def accessTTL_def minute_def second_def)
  then show ?thesis
    using token_admits_iff [OF wJWT wSign_access m e h(1) h(2), of "\<lambda>_. False" "\<lambda>_ _. True" 0 "''renew''" "wAuth []"]
      token_admits_iff [OF wJWT wSign_access m e h(1) h(2), of "\<lambda>_. False" "\<lambda>_ _. True" accessTTL "''renew''" "wAuth []"]
    by (simp add: wClaims_def ipAllowed_def accessTTL_def minute_def second_def)
qed

end
