(* ===== verification/AuthRevoked.thy ===== *)
theory AuthRevoked
  imports AuthLoggedIn
begin

text \<open>
  What holds of runs of the panel: logins, refreshes in their three pieces and the handlers that change accounts, in any order. A revoked session gets no more
  tokens, a refresh token that is used again ends its session, unless both uses overlap, and an enrolled second factor is accepted.
\<close>

section \<open>Runs of the panel\<close>

text \<open>
  The state of the panel: tables and limiter, the clock, refreshes that have read their session (session and manager), refreshes that
  have rotated it (with the new secret), and the access tokens issued so far (session, time and token).
\<close>

record panelState =
  ps_login :: LoginState
  ps_now :: gotime
  ps_reading :: "(string \<times> string) list"
  ps_rotated :: "(string \<times> string \<times> string) list"
  ps_issued :: "(string \<times> gotime \<times> string) list"

abbreviation ps_db :: "panelState \<Rightarrow> AuthDB" where "ps_db p \<equiv> ls_db (ps_login p)"

definition withDB :: "AuthDB \<Rightarrow> panelState \<Rightarrow> panelState" where
  "withDB db p = p\<lparr>ps_login := (ps_login p)\<lparr>ls_db := db\<rparr>\<rparr>"

definition tokenSession :: "tokenResponse \<Rightarrow> string" where
  "tokenSession tr = takeWhile (\<lambda>c. c \<noteq> CHR ''.'') (tr_RefreshToken tr)"

definition issuedBy :: "gotime \<Rightarrow> loginReply reply \<Rightarrow> (string \<times> gotime \<times> string) list" where
  "issuedBy now x = (case x of OK (Session tr) \<Rightarrow> [(tokenSession tr, now, tr_AccessToken tr)] | _ \<Rightarrow> [])"

text \<open>What the other handlers make of the tables.\<close>

inductive accountStep :: "AuthDB \<Rightarrow> AuthDB \<Rightarrow> bool" where
  logout: "accountStep db (snd (logoutHandler down m db))"
| deleteSession: "accountStep db (snd (deletePanelSessionHandler down m sid db))"
| updateManager: "accountStep db (snd (updateManagerHandler down hash mgr i ureq db))"
| deleteManager: "accountStep db (snd (deleteManagerHandler down mgr i db))"
| createManager: "accountStep db (snd (createManagerHandler down hash mgr creq db))"
| enroll: "accountStep db (snd (enrollTOTPHandler fe rand m db))"
| verify: "accountStep db (snd (verifyTOTPHandler fe bufs m code db))"
| disable: "accountStep db (snd (disableTOTPHandler fe vp m pw code db))"
| resetTOTP: "accountStep db (snd (resetManagerTOTPHandler down mgr i db))"
| resetPassword: "accountStep db (snd (ResetPasswordByUsername down hash u db))"
| createRole: "accountStep db (snd (createRoleHandler down mgr rreq db))"
| updateRole: "accountStep db (snd (updateRoleHandler down mgr i rureq db))"
| deleteRole: "accountStep db (snd (deleteRoleHandler down mgr i db))"
| overrides: "accountStep db (snd (putManagerOverridesHandler down mgr i es db))"
| allowlist: "accountStep db (snd (putManagerAllowlistHandler down validCIDR castCIDR mgr i cs db))"
| require: "accountStep db (snd (Require down parse contains now perm r db))"

inductive panelStep :: "(MapClaims \<Rightarrow> string option) \<Rightarrow> panelState \<Rightarrow> panelState \<Rightarrow> bool" for sign where
  tick: "ps_now p \<le> t \<Longrightarrow> panelStep sign p (p\<lparr>ps_now := t\<rparr>)"
| login: "le_sign le = sign \<Longrightarrow> le_now le = ps_now p \<Longrightarrow> loginHandler le r req (ps_login p) = (x, st) \<Longrightarrow>
    panelStep sign p (p\<lparr>ps_login := st, ps_issued := issuedBy (ps_now p) x @ ps_issued p\<rparr>)"
| read: "refreshRead le tok (ps_db p) = (OK (sid, i), db) \<Longrightarrow> panelStep sign p (withDB db (p\<lparr>ps_reading := (sid, i) # ps_reading p\<rparr>))"
| refuse: "refreshRead le tok (ps_db p) = (Err n c, db) \<Longrightarrow> panelStep sign p (withDB db p)"
| rotate: "(sid, i) \<in> set (ps_reading p) \<Longrightarrow> refreshRotate le ip ua sid (ps_db p) = (OK secret, db) \<Longrightarrow>
    panelStep sign p (withDB db (p\<lparr>ps_reading := remove1 (sid, i) (ps_reading p), ps_rotated := (sid, i, secret) # ps_rotated p\<rparr>))"
| lose: "(sid, i) \<in> set (ps_reading p) \<Longrightarrow> refreshRotate le ip ua sid (ps_db p) = (Err n c, db) \<Longrightarrow>
    panelStep sign p (withDB db (p\<lparr>ps_reading := remove1 (sid, i) (ps_reading p)\<rparr>))"
| issue: "(sid, i, secret) \<in> set (ps_rotated p) \<Longrightarrow> le_sign le = sign \<Longrightarrow> le_now le = ps_now p \<Longrightarrow> refreshIssue le sid i secret (ps_db p) = OK tr \<Longrightarrow>
    panelStep sign p (p\<lparr>ps_rotated := remove1 (sid, i, secret) (ps_rotated p), ps_issued := (sid, ps_now p, tr_AccessToken tr) # ps_issued p\<rparr>)"
| drop: "(sid, i, secret) \<in> set (ps_rotated p) \<Longrightarrow> panelStep sign p (p\<lparr>ps_rotated := remove1 (sid, i, secret) (ps_rotated p)\<rparr>)"
| unlock: "panelStep sign p (p\<lparr>ps_login := snd (unlockManagerHandler down mgr i (ps_login p))\<rparr>)"
| account: "accountStep (ps_db p) db \<Longrightarrow> panelStep sign p (withDB db p)"

section \<open>Dead sessions\<close>

text \<open>A session id that was given out and whose row is revoked or gone.\<close>

definition deadSession :: "string \<Rightarrow> AuthDB \<Rightarrow> bool" where
  "deadSession sid db \<longleftrightarrow> idBelow (au_nextID db) sid \<and> list_all (\<lambda>s. se_ID s = sid \<longrightarrow> se_Revoked s) (au_sessions db)"

lemma dead_cong: "au_sessions db' = au_sessions db \<Longrightarrow> au_nextID db \<le> au_nextID db' \<Longrightarrow> deadSession sid db \<Longrightarrow> deadSession sid db'"
  using idBelow_mono by (auto simp: deadSession_def)

lemma dead_map:
  assumes "deadSession sid db" and "\<And>s. se_ID (f s) = se_ID s" and "\<And>s. se_Revoked s \<Longrightarrow> se_Revoked (f s)"
  shows "deadSession sid (db\<lparr>au_sessions := map f (au_sessions db)\<rparr>)"
  using assms by (auto simp: deadSession_def list_all_iff)

lemma dead_update:
  assumes "deadSession sid db" and "\<And>s. se_ID (f s) = se_ID s" and "\<And>s. se_Revoked s \<Longrightarrow> se_Revoked (f s)"
  shows "deadSession sid (snd (updateSessions P f db))"
  unfolding updateSessions_def snd_conv using assms by (intro dead_map) auto

lemma dead_audit [simp]: "deadSession sid (audit down mgr a e i db) = deadSession sid db"
  by (simp add: deadSession_def)

lemma dead_auditActor [simp]: "deadSession sid (auditActor le a b c d db) = deadSession sid db"
  by (simp add: deadSession_def)

lemma dead_updateManager [simp]: "deadSession sid (updateManager i f db) = deadSession sid db"
  by (simp add: deadSession_def updateManager_def)

lemma dead_codes [simp]: "deadSession sid (db\<lparr>au_backupCodes := cs\<rparr>) = deadSession sid db"
  by (simp add: deadSession_def)

lemma dead_revokeOther: "deadSession sid db \<Longrightarrow> deadSession sid (revokeOtherSessions i keep db)"
  unfolding revokeOtherSessions_def by (rule dead_map) auto

lemma dead_revoke: "deadSession sid db \<Longrightarrow> deadSession sid (snd (revokeSession s i db))"
  unfolding revokeSession_def by (rule dead_update) auto

lemma dead_rotate: "deadSession sid db \<Longrightarrow> deadSession sid (snd (rotateSession now s h ip ua db))"
  unfolding rotateSession_def by (rule dead_update) auto

lemma dead_create:
  assumes "deadSession sid db" and "createSession now i h ua ip db = (s, db')"
  shows "deadSession sid db' \<and> s \<noteq> sid"
proof -
  have "s = formatUint (au_nextID db)" using assms(2) by (auto simp: createSession_def Let_def)
  moreover have "formatUint (au_nextID db) \<noteq> sid" using assms(1) idBelow_next by (auto simp: deadSession_def)
  moreover have "idBelow (Suc (au_nextID db)) sid" using assms(1) idBelow_mono by (auto simp: deadSession_def)
  ultimately show ?thesis using assms by (auto simp: deadSession_def createSession_def Let_def)
qed

lemma dead_factor: "deadSession sid db \<Longrightarrow> deadSession sid (snd (verifyManagerSecondFactor fe m code db))"
  by (simp add: verifyManagerSecondFactor_def consumeBackupCode_def Let_def split: option.split prod.split)

lemma dead_steps:
  assumes "deadSession sid db"
  shows "deadSession sid (snd (updateProfileStep down i req db))" "deadSession sid (snd (updateDisabledStep down i before req db))"
    "deadSession sid (snd (updatePasswordStep down hash mgr i req db))"
  using assms dead_revokeOther
  by (simp_all add: updateProfileStep_def updateManagerProfile_def updateDisabledStep_def updatePasswordStep_def Let_def split: option.split)

lemma dead_andThen: "deadSession sid (snd r) \<Longrightarrow> (\<And>db. deadSession sid db \<Longrightarrow> deadSession sid (snd (k db))) \<Longrightarrow> deadSession sid (snd (andThen r k))"
  by (cases r) (auto simp: andThen_def split: reply.split)

lemmas dead_rules = dead_revokeOther dead_revoke dead_rotate dead_factor dead_steps dead_andThen

lemma dead_updateManagerHandler: "deadSession sid db \<Longrightarrow> deadSession sid (snd (updateManagerHandler down hash mgr i req db))"
  by (simp add: updateManagerHandler_def updateManagerRoleScope_def Let_def dead_rules split: option.split)

lemma dead_deleteManager: "deadSession sid db \<Longrightarrow> deleteManager i db = Some db' \<Longrightarrow> deadSession sid db'"
  by (auto simp: deleteManager_def deadSession_def list_all_iff split: if_splits)

lemma dead_insertManager: "deadSession sid db \<Longrightarrow> insertManager u h ro sc pr db = Some (i, db') \<Longrightarrow> deadSession sid db'"
  by (rule dead_cong) (auto simp: insertManager_def Let_def split: if_splits)

lemma dead_disableTOTP: "deadSession sid db \<Longrightarrow> deadSession sid (disableTOTP i db)"
  by (simp add: disableTOTP_def)

lemma dead_activate: "deadSession sid db \<Longrightarrow> activatePendingSecret i hs keep db = Some db' \<Longrightarrow> deadSession sid db'"
  by (auto simp: activatePendingSecret_def intro!: dead_revokeOther split: if_splits)

lemma dead_roles:
  "deadSession sid db \<Longrightarrow> createRole n d rq ps db = Some (i, db') \<Longrightarrow> deadSession sid db'"
  "deadSession sid db \<Longrightarrow> updateRole j n d rq pso db = Some db' \<Longrightarrow> deadSession sid db'"
  "deadSession sid db \<Longrightarrow> replaceOverrides j es db = Some db' \<Longrightarrow> deadSession sid db'"
  "deadSession sid db \<Longrightarrow> replaceAllowlist cast j cs db = Some db' \<Longrightarrow> deadSession sid db'"
  by (rule dead_cong, auto simp: createRole_def updateRole_def replaceOverrides_def replaceAllowlist_def Let_def split: if_splits)+

lemmas dead_results = dead_deleteManager dead_insertManager dead_activate dead_roles

lemma dead_factorD: "verifyManagerSecondFactor fe m code db = (x, db') \<Longrightarrow> deadSession sid db \<Longrightarrow> deadSession sid db'"
  using dead_factor by (metis snd_conv)

lemma dead_disableHandler: "deadSession sid db \<Longrightarrow> deadSession sid (snd (disableTOTPHandler fe vp m pw code db))"
  by (auto simp: disableTOTPHandler_def Let_def dead_disableTOTP intro!: dead_revokeOther dest: dead_factorD split: option.split prod.split bool.split)

lemma accountStep_dead:
  assumes "accountStep db db'" and "deadSession sid db"
  shows "deadSession sid db'"
  using assms
proof cases
  case (logout down m)
  then show ?thesis using assms(2) by (simp add: logoutHandler_def Let_def dead_rules)
next
  case (deleteSession down m s)
  then show ?thesis using assms(2) dead_revoke by (auto simp: deletePanelSessionHandler_def Let_def split: prod.split bool.split) (metis snd_conv)+
next
  case (verify fe bufs m code)
  then show ?thesis using assms(2) by (auto simp: verifyTOTPHandler_def Let_def intro: dead_results split: option.split)
next
  case (require down parse contains now perm r)
  then show ?thesis using assms(2) by (auto simp: Require_def split: option.split)
qed (use assms(2) in \<open>auto simp: dead_updateManagerHandler dead_disableHandler deleteManagerHandler_def createManagerHandler_def enrollTOTPHandler_def
      resetManagerTOTPHandler_def ResetPasswordByUsername_def createRoleHandler_def updateRoleHandler_def putManagerOverridesHandler_def
      putManagerAllowlistHandler_def Let_def deleteRoleHandler_def intro: dead_results dead_rules dead_disableTOTP dead_cong split: option.split\<close>)

lemma tokenReply_session: "tokenSession (tokenReply m (formatUint n) access secret) = formatUint n"
proof -
  have "takeWhile (\<lambda>c. c \<noteq> CHR ''.'') (formatUint n @ ''.'' @ secret) = formatUint n"
    using formatUint_digits [of n] by (subst takeWhile_append2) (auto simp: list_all_iff isDigit_def)
  then show ?thesis by (simp add: tokenSession_def tokenReply_def composeRefreshToken_def)
qed

lemma issueSession_dead:
  assumes "issueSession le m ip ua db = (x, db')" and "deadSession sid db"
  shows "deadSession sid db' \<and> (\<forall>tr. x = Some tr \<longrightarrow> tokenSession tr \<noteq> sid)"
proof (cases "le_secret le")
  case None
  then show ?thesis using assms by (simp add: issueSession_def split: if_splits)
next
  case (Some secret)
  obtain s db1 where c: "createSession (le_now le) (mr_ID m) (fe_sha (le_fe le) secret) ua ip db = (s, db1)" by fastforce
  have "s = formatUint (au_nextID db)" using c by (auto simp: createSession_def Let_def)
  then show ?thesis using c Some assms dead_create [OF assms(2) c]
    by (auto simp: issueSession_def tokenReply_session split: if_splits option.splits)
qed

lemma loginAccepted_dead:
  assumes "loginAccepted le ip ua req m up st = (x, st')" and "deadSession sid (ls_db st)"
  shows "deadSession sid (ls_db st') \<and> (\<forall>e \<in> set (issuedBy now x). fst e \<noteq> sid)"
proof -
  let ?db = "if up then (case le_hashPassword le (lq_Password req) of None \<Rightarrow> ls_db st
      | Some h \<Rightarrow> if le_down le ''passwordHash'' then ls_db st else updateManager (mr_ID m) (mr_PasswordHash_update (\<lambda>_. h)) (ls_db st)) else ls_db st"
  have d: "deadSession sid ?db" using assms(2) by (simp split: option.split)
  obtain y db' where y: "issueSession le m ip ua ?db = (y, db')" by fastforce
  show ?thesis using assms(1) y issueSession_dead [OF y d] unfolding loginAccepted_def Let_def by (cases y) (auto simp: issuedBy_def)
qed

definition deadReply :: "string \<Rightarrow> loginReply reply \<times> LoginState \<Rightarrow> bool" where
  "deadReply sid p \<longleftrightarrow> deadSession sid (ls_db (snd p)) \<and> (\<forall>now. \<forall>e \<in> set (issuedBy now (fst p)). fst e \<noteq> sid)"

lemma deadReply_err: "deadSession sid (ls_db st) \<Longrightarrow> deadReply sid (Err n c, st)"
  by (simp add: deadReply_def issuedBy_def)

lemma deadReply_failed: "deadSession sid (ls_db st) \<Longrightarrow> deadReply sid (Err n k, loginFailed le u ip a b c d st)"
  by (simp add: deadReply_def issuedBy_def loginFailed_def)

lemma deadReply_accepted: "deadSession sid (ls_db st) \<Longrightarrow> deadReply sid (loginAccepted le ip ua req m up st)"
  unfolding deadReply_def using loginAccepted_dead [OF surjective_pairing] by blast

lemma deadReply_enroll: "deadSession sid (ls_db st) \<Longrightarrow> deadReply sid (OK (EnrollmentRequired e), st)"
  by (simp add: deadReply_def issuedBy_def)

lemma deadReply_factor: "deadSession sid (ls_db st) \<Longrightarrow> deadReply sid (loginSecondFactor le ip ua req m up st)"
  by (auto simp: loginSecondFactor_def intro!: deadReply_err deadReply_enroll deadReply_failed deadReply_accepted dest: dead_factorD
      split: option.split prod.split bool.split)

lemma deadReply_login: "deadSession sid (ls_db st) \<Longrightarrow> deadReply sid (loginHandler le r req st)"
  by (auto simp: loginHandler_def loginChecked_def intro!: deadReply_err deadReply_failed deadReply_factor split: option.split)

lemma refreshRead_dead:
  assumes "refreshRead le tok db = (x, db')" and "deadSession sid db"
  shows "deadSession sid db' \<and> (\<forall>i. x \<noteq> OK (sid, i))"
proof -
  have "se_Revoked s" if "getSession sid db = Some s" for s
    using that assms(2) by (auto simp: getSession_def deadSession_def list_all_iff find_Some_iff)
  then show ?thesis using assms dead_revoke by (auto simp: refreshRead_def split: if_splits option.splits prod.splits)
qed

lemma refreshRotate_dead:
  assumes "refreshRotate le ip ua s db = (x, db')" and "deadSession sid db"
  shows "deadSession sid db' \<and> (\<forall>secret. x = OK secret \<longrightarrow> s \<noteq> sid)"
proof -
  have "filter (\<lambda>t. se_ID t = sid \<and> \<not> se_Revoked t) (au_sessions db) = []" using assms(2) by (auto simp: deadSession_def list_all_iff filter_empty_conv)
  then have "fst (rotateSession (le_now le) sid h ip ua db) = False" for h by (simp add: rotateSession_def updateSessions_def)
  moreover have "deadSession sid (snd (rotateSession (le_now le) s h ip ua db))" for h by (rule dead_rotate [OF assms(2)])
  ultimately show ?thesis using assms by (auto simp: refreshRotate_def split: if_splits option.splits prod.splits bool.splits) (metis fst_conv snd_conv)+
qed

section \<open>Revocation\<close>

lemma withDB_simps [simp]:
  "ps_db (withDB db p) = db" "ps_now (withDB db p) = ps_now p" "ps_reading (withDB db p) = ps_reading p" "ps_rotated (withDB db p) = ps_rotated p"
  "ps_issued (withDB db p) = ps_issued p"
  by (simp_all add: withDB_def)

text \<open>Every token on record was signed for its session at its time, not in the future.\<close>

definition issuedOK :: "(MapClaims \<Rightarrow> string option) \<Rightarrow> panelState \<Rightarrow> bool" where
  "issuedOK sign p \<longleftrightarrow> (\<forall>(sid, t, raw) \<in> set (ps_issued p). t \<le> ps_now p \<and> (\<exists>c. ac_SessionID c = sid \<and> issueAccess sign c t = Some raw))"

text \<open>A session that was dead at a time, with no rotated refresh on its way, got its last token by then.\<close>

definition ended :: "string \<Rightarrow> gotime \<Rightarrow> panelState \<Rightarrow> bool" where
  "ended sid t0 p \<longleftrightarrow> deadSession sid (ps_db p) \<and> sid \<notin> fst ` set (ps_rotated p) \<and> (\<forall>(s, t, raw) \<in> set (ps_issued p). s = sid \<longrightarrow> t \<le> t0)"

lemma sessionClaims_sid [simp]: "ac_SessionID (sessionClaims m sid db) = sid"
  by (simp add: sessionClaims_def)

lemma tokenReply_access [simp]: "tr_AccessToken (tokenReply m sid access secret) = access"
  by (simp add: tokenReply_def)

lemma times_bounded: "\<exists>b. \<forall>x \<in> set xs. f x \<le> (b :: int)"
proof (induction xs)
  case (Cons y xs)
  then obtain b where "\<forall>x \<in> set xs. f x \<le> b" by blast
  then have "\<forall>x \<in> set (y # xs). f x \<le> max b (f y)" by auto
  then show ?case by blast
qed simp

lemma issueSession_signed:
  assumes "issueSession le m ip ua db = (Some tr, db')"
  shows "\<exists>c. ac_SessionID c = tokenSession tr \<and> issueAccess (le_sign le) c (le_now le) = Some (tr_AccessToken tr)"
proof -
  obtain secret access where "issueAccess (le_sign le) (sessionClaims m (formatUint (au_nextID db)) db) (le_now le) = Some access"
    "tr = tokenReply m (formatUint (au_nextID db)) access secret"
    using assms by (auto simp: issueSession_def createSession_def Let_def split: if_splits option.splits)
  then show ?thesis by (intro exI [of _ "sessionClaims m (formatUint (au_nextID db)) db"]) (simp add: tokenReply_session)
qed

lemma loginAccepted_signed:
  assumes "fst (loginAccepted le ip ua req m up st) = OK (Session tr)"
  shows "\<exists>c. ac_SessionID c = tokenSession tr \<and> issueAccess (le_sign le) c (le_now le) = Some (tr_AccessToken tr)"
  using assms issueSession_signed [of le m ip ua _ tr] unfolding loginAccepted_def Let_def by (auto split: prod.splits option.splits)

lemma login_signed:
  assumes "loginHandler le r req st = (OK (Session tr), st')"
  shows "\<exists>c. ac_SessionID c = tokenSession tr \<and> issueAccess (le_sign le) c (le_now le) = Some (tr_AccessToken tr)"
proof -
  have "fst (loginHandler le r req st) = OK (Session tr)" using assms by simp
  then obtain m up st1 where "fst (loginAccepted le (clientIP r) (rq_UA r) req m up st1) = OK (Session tr)"
    by (auto simp: loginHandler_def loginChecked_def loginSecondFactor_def split: if_splits option.splits prod.splits bool.splits)
  then show ?thesis by (rule loginAccepted_signed)
qed

lemma refreshIssue_signed:
  assumes "refreshIssue le sid i secret db = OK tr"
  shows "\<exists>c. ac_SessionID c = sid \<and> issueAccess (le_sign le) c (le_now le) = Some (tr_AccessToken tr)"
proof -
  obtain m access where "issueAccess (le_sign le) (sessionClaims m sid db) (le_now le) = Some access" "tr = tokenReply m sid access secret"
    using assms by (auto simp: refreshIssue_def split: if_splits option.splits)
  then show ?thesis by (intro exI [of _ "sessionClaims m sid db"]) simp
qed

interpretation panelIssued: kept "panelStep sign" "issuedOK sign"
proof
  fix p p' assume "panelStep sign p p'" "issuedOK sign p"
  then show "issuedOK sign p'"
  proof cases
    case (login le r req x st)
    have "\<exists>c. ac_SessionID c = s \<and> issueAccess sign c t = Some raw" if "(s, t, raw) \<in> set (issuedBy (ps_now p) x)" for s t raw
      using that login login_signed [of le r req "ps_login p" _ st] by (auto simp: issuedBy_def split: reply.splits loginReply.splits)
    moreover have "t = ps_now p" if "(s, t, raw) \<in> set (issuedBy (ps_now p) x)" for s t raw
      using that by (auto simp: issuedBy_def split: reply.splits loginReply.splits)
    ultimately show ?thesis using login \<open>issuedOK sign p\<close> by (fastforce simp: issuedOK_def)
  next
    case (issue sid i secret le tr)
    then show ?thesis using \<open>issuedOK sign p\<close> refreshIssue_signed [of le sid i secret "ps_db p" tr] by (auto simp: issuedOK_def)
  qed (force simp: issuedOK_def)+
qed

interpretation panelEnded: kept "panelStep sign" "ended sid t0"
proof
  fix p p' assume "panelStep sign p p'" "ended sid t0 p"
  have rot: "fst ` set (remove1 x (ps_rotated p)) \<subseteq> fst ` set (ps_rotated p)" for x by (rule image_mono [OF set_remove1_subset])
  from \<open>panelStep sign p p'\<close> show "ended sid t0 p'"
  proof cases
    case (login le r req x st)
    then have "deadReply sid (x, st)" using \<open>ended sid t0 p\<close> deadReply_login [of sid "ps_login p" le r req] by (simp add: ended_def)
    then show ?thesis using login \<open>ended sid t0 p\<close> by (fastforce simp: ended_def deadReply_def)
  next
    case (read le tok s i db)
    then show ?thesis using \<open>ended sid t0 p\<close> refreshRead_dead [of le tok "ps_db p"] by (auto simp: ended_def)
  next
    case (refuse le tok n c db)
    then show ?thesis using \<open>ended sid t0 p\<close> refreshRead_dead [of le tok "ps_db p"] by (auto simp: ended_def)
  next
    case (rotate s i le ip ua secret db)
    then show ?thesis using \<open>ended sid t0 p\<close> refreshRotate_dead [of le ip ua s "ps_db p"] by (auto simp: ended_def)
  next
    case (lose s i le ip ua n c db)
    then show ?thesis using \<open>ended sid t0 p\<close> refreshRotate_dead [of le ip ua s "ps_db p"] by (auto simp: ended_def)
  next
    case (issue s i secret le tr)
    then have "s \<noteq> sid" using \<open>ended sid t0 p\<close> by (force simp: ended_def)
    moreover have "sid \<notin> fst ` set (remove1 (s, i, secret) (ps_rotated p))" using \<open>ended sid t0 p\<close> rot [of "(s, i, secret)"] unfolding ended_def by blast
    ultimately show ?thesis using issue \<open>ended sid t0 p\<close> by (auto simp: ended_def)
  next
    case (drop s i secret)
    moreover have "sid \<notin> fst ` set (remove1 (s, i, secret) (ps_rotated p))" using \<open>ended sid t0 p\<close> rot [of "(s, i, secret)"] unfolding ended_def by blast
    ultimately show ?thesis using \<open>ended sid t0 p\<close> by (auto simp: ended_def)
  next
    case (unlock down mgr i)
    then show ?thesis using \<open>ended sid t0 p\<close> by (auto simp: ended_def unlockManagerHandler_def split: option.splits prod.splits bool.splits)
  next
    case (account db)
    then show ?thesis using \<open>ended sid t0 p\<close> accountStep_dead by (auto simp: ended_def)
  next
    case (tick t)
    then show ?thesis using \<open>ended sid t0 p\<close> by (auto simp: ended_def)
  qed
qed

lemma revoke_dead: "idBelow (au_nextID db) sid \<Longrightarrow> deadSession sid (snd (revokeSession sid '''' db))"
  by (simp add: deadSession_def revokeSession_def updateSessions_def list_all_length)

text \<open>
  C18: revocation. When a session is revoked or removed and no refresh of it has rotated its secret without having answered yet, then five minutes later no
  access token of the session is accepted any more, whatever requests run in between, and no token for it is issued at all.
\<close>

theorem revocation_bounded:
  assumes "jwtLaws sign parse" and "issuedOK sign p" and "deadSession sid (ps_db p)" and "sid \<notin> fst ` set (ps_rotated p)"
    and "(panelStep sign)\<^sup>*\<^sup>* p p'" and "(sid, t, raw) \<in> set (ps_issued p')"
  shows "t \<le> ps_now p \<and> (ps_now p + accessTTL \<le> now \<longrightarrow> parseAccess parse now raw = None)"
proof -
  have "ended sid (ps_now p) p" using assms(2-4) by (auto simp: ended_def issuedOK_def)
  then have "ended sid (ps_now p) p'" using panelEnded.run_keeps [OF assms(5)] by blast
  then have t: "t \<le> ps_now p" using assms(6) by (auto simp: ended_def)
  have "issuedOK sign p'" using panelIssued.run_keeps [OF assms(5,2)] .
  then obtain c where "issueAccess sign c t = Some raw" using assms(6) by (auto simp: issuedOK_def)
  then show ?thesis using t parseAccess_expired [OF assms(1), of c t raw now] by simp
qed

text \<open>
  C19: a refresh token that is used again. When a token arrives whose secret is not the current one of its live session, the session is revoked, and
  then no refresh of the session succeeds again, with whatever secret and after whatever other requests. The statements that read and revoke the
  session must not fail, and no refresh of it may be between its two statements just then.
\<close>

theorem reused_token_revokes:
  assumes "parseRefreshToken tok = Some (sid, secret)" and "getSession sid (ps_db p) = Some s" and "\<not> se_Revoked s" and "fe_sha (le_fe le) secret \<noteq> se_RefreshHash s"
    and "idBelow (au_nextID (ps_db p)) sid" and "\<not> le_down le ''session''" and "\<not> le_down le ''revoke''" and "parseRefreshToken tok' = Some (sid, secret')"
    and "(panelStep sign)\<^sup>*\<^sup>* (withDB (snd (refreshHandler le r tok (ps_db p))) p) p'" and "sid \<notin> fst ` set (ps_rotated p)"
  shows "fst (refreshHandler le r tok (ps_db p)) = Err 401 ''invalid_token''
     \<and> (\<exists>n c. fst (refreshHandler le' r' tok' (ps_db p')) = Err n c)"
proof
  have tok: "tok \<noteq> ''''" using assms(1) by (auto simp: parseRefreshToken_def)
  let ?db = "auditActor le (se_ManagerID s) ''auth.refresh_reuse'' ''panel_session'' sid (snd (revokeSession sid '''' (ps_db p)))"
  have r: "refreshHandler le r tok (ps_db p) = (Err 401 ''invalid_token'', ?db)"
    using assms(1-4,6,7) tok by (simp add: refreshHandler_def refreshRead_def bindReply_def)
  then show "fst (refreshHandler le r tok (ps_db p)) = Err 401 ''invalid_token''" by simp
  have "deadSession sid ?db" using revoke_dead [OF assms(5)] by simp
  moreover obtain t0 where "\<forall>e \<in> set (ps_issued p). fst (snd e) \<le> t0" using times_bounded [of "ps_issued p" "\<lambda>e. fst (snd e)"] by blast
  ultimately have "ended sid t0 (withDB (snd (refreshHandler le r tok (ps_db p))) p)" using r assms(10) by (force simp: ended_def)
  then have "deadSession sid (ps_db p')" using panelEnded.run_keeps [OF assms(9)] by (auto simp: ended_def)
  then have "fst (refreshRead le' tok' (ps_db p')) \<noteq> OK (sid', i)" if "sid' = sid" for sid' i
    using refreshRead_dead [OF surjective_pairing] that by metis
  moreover have "\<exists>i. x = (sid, i)" if "fst (refreshRead le' tok' (ps_db p')) = OK x" for x
    using that assms(8) by (auto simp: refreshRead_def split: if_splits option.splits)
  ultimately have "\<exists>n c. fst (refreshRead le' tok' (ps_db p')) = Err n c" by (cases "fst (refreshRead le' tok' (ps_db p'))") auto
  then show "\<exists>n c. fst (refreshHandler le' r' tok' (ps_db p')) = Err n c"
    by (cases "refreshRead le' tok' (ps_db p')") (auto simp: refreshHandler_def bindReply_def)
qed

section \<open>Two refreshes at once\<close>

lemma filter_one:
  assumes "distinct (map se_ID xs)" and "find (\<lambda>t. se_ID t = sid) xs = Some s" and "P s" and "\<And>t. P t \<Longrightarrow> se_ID t = sid"
  shows "filter P xs = [s]"
  using assms(1,2)
proof (induction xs)
  case (Cons x xs)
  show ?case
  proof (cases "se_ID x = sid")
    case True
    then have "\<forall>t \<in> set xs. \<not> P t" using True Cons.prems(1) assms(4) by (auto simp: image_iff)
    then show ?thesis using Cons.prems(2) True assms(3) by (simp add: filter_empty_conv)
  next
    case False
    then show ?thesis using Cons assms(4) by auto
  qed
qed simp

lemma find_map_same: "(\<And>t. se_ID (f t) = se_ID t) \<Longrightarrow> find (\<lambda>t. se_ID t = sid) (map f xs) = map_option f (find (\<lambda>t. se_ID t = sid) xs)"
  by (induction xs) auto

lemma rotate_effect:
  assumes "distinct (map se_ID (au_sessions db))" and "getSession sid db = Some s" and "\<not> se_Revoked s"
  shows "\<exists>db1. rotateSession now sid h ip ua db = (True, db1) \<and> getSession sid db1 = Some (s\<lparr>se_RefreshHash := h, se_LastSeenAt := now, se_IP := ip, se_UA := ua\<rparr>)
     \<and> distinct (map se_ID (au_sessions db1)) \<and> au_managers db1 = au_managers db \<and> au_nextID db1 = au_nextID db"
proof -
  let ?P = "\<lambda>s :: panelSession. se_ID s = sid \<and> \<not> se_Revoked s" and ?f = "\<lambda>s :: panelSession. s\<lparr>se_RefreshHash := h, se_LastSeenAt := now, se_IP := ip, se_UA := ua\<rparr>"
  let ?g = "\<lambda>s :: panelSession. if ?P s then ?f s else s"
  have s: "se_ID s = sid" using assms(2) by (auto simp: getSession_def find_Some_iff)
  have "length (filter ?P (au_sessions db)) = 1" using filter_one [of "au_sessions db" sid s ?P] assms s by (simp add: getSession_def)
  moreover have "find (\<lambda>t. se_ID t = sid) (map ?g (au_sessions db)) = map_option ?g (find (\<lambda>t. se_ID t = sid) (au_sessions db))"
    by (rule find_map_same) simp
  moreover have "se_ID \<circ> ?g = se_ID" by (auto simp: fun_eq_iff)
  ultimately show ?thesis using assms s unfolding rotateSession_def updateSessions_def getSession_def by simp
qed

lemma refreshRotate_effect:
  assumes "distinct (map se_ID (au_sessions db))" and "getSession sid db = Some s" and "\<not> se_Revoked s" and "le_secret le = Some secret" and "\<not> le_down le ''rotate''"
  shows "\<exists>db1 s1. refreshRotate le ip ua sid db = (OK secret, db1) \<and> getSession sid db1 = Some s1 \<and> \<not> se_Revoked s1
     \<and> se_RefreshHash s1 = fe_sha (le_fe le) secret \<and> distinct (map se_ID (au_sessions db1)) \<and> au_managers db1 = au_managers db \<and> au_nextID db1 = au_nextID db"
  using rotate_effect [OF assms(1-3), of "le_now le" "fe_sha (le_fe le) secret" ip ua] assms(3-5) by (auto simp: refreshRotate_def)

lemma refreshIssue_works:
  assumes "lookupManagerByID i db = Some m" and "\<not> mr_Disabled m" and "\<And>x. \<not> le_down le x" and "\<And>c. le_sign le c \<noteq> None"
  shows "\<exists>tr. refreshIssue le sid i secret db = OK tr"
  using assms by (auto simp: refreshIssue_def issueAccess_def split: option.split)

text \<open>
  A refresh token works twice at once. Two requests with the same token that both read the session before either rotates it both get tokens, and the
  session stays live: the rotation does not compare the secret it replaces. Only the next use of the token that the first of them got revokes the session.
\<close>

theorem refresh_race_undetected:
  assumes "parseRefreshToken tok = Some (sid, secret)" and "getSession sid db = Some s" and "\<not> se_Revoked s" and "distinct (map se_ID (au_sessions db))"
    and "fe_sha (le_fe le1) secret = se_RefreshHash s" and "fe_sha (le_fe le2) = fe_sha (le_fe le1)" and "\<And>x. \<not> le_down le1 x" and "\<And>x. \<not> le_down le2 x"
    and "le_secret le1 = Some secret1" and "le_secret le2 = Some secret2" and "\<And>c. le_sign le1 c \<noteq> None" and "\<And>c. le_sign le2 c \<noteq> None"
    and "lookupManagerByID (se_ManagerID s) db = Some m" and "\<not> mr_Disabled m"
    and "fe_sha (le_fe le1) secret1 \<noteq> fe_sha (le_fe le1) secret2" and "parseRefreshToken tok1 = Some (sid, secret1)" and "idBelow (au_nextID db) sid"
  shows "refreshRead le1 tok db = (OK (sid, se_ManagerID s), db) \<and> refreshRead le2 tok db = (OK (sid, se_ManagerID s), db)
     \<and> (\<exists>db1 db2 tr1 tr2. refreshRotate le1 ip1 ua1 sid db = (OK secret1, db1) \<and> refreshRotate le2 ip2 ua2 sid db1 = (OK secret2, db2)
          \<and> refreshIssue le1 sid (se_ManagerID s) secret1 db2 = OK tr1 \<and> refreshIssue le2 sid (se_ManagerID s) secret2 db2 = OK tr2
          \<and> \<not> deadSession sid db2 \<and> deadSession sid (snd (refreshRead le1 tok1 db2)))"
proof -
  have t: "tok \<noteq> ''''" "tok1 \<noteq> ''''" using assms(1,16) by (auto simp: parseRefreshToken_def)
  obtain db1 s1 where r1: "refreshRotate le1 ip1 ua1 sid db = (OK secret1, db1)" "getSession sid db1 = Some s1" "\<not> se_Revoked s1"
    "distinct (map se_ID (au_sessions db1))" "au_managers db1 = au_managers db" "au_nextID db1 = au_nextID db"
    using refreshRotate_effect [OF assms(4,2,3,9)] assms(7) by blast
  obtain db2 s2 where r2: "refreshRotate le2 ip2 ua2 sid db1 = (OK secret2, db2)" "getSession sid db2 = Some s2" "\<not> se_Revoked s2"
    "se_RefreshHash s2 = fe_sha (le_fe le2) secret2" "au_managers db2 = au_managers db" "au_nextID db2 = au_nextID db"
    using refreshRotate_effect [OF r1(4,2,3) assms(10)] assms(8) r1(5,6) by force
  have "lookupManagerByID (se_ManagerID s) db2 = Some m" using assms(13) r2(5) by (simp add: lookupManagerByID_def)
  then obtain tr1 tr2 where i: "refreshIssue le1 sid (se_ManagerID s) secret1 db2 = OK tr1" "refreshIssue le2 sid (se_ManagerID s) secret2 db2 = OK tr2"
    using refreshIssue_works assms(7,8,11,12,14) by metis
  have "\<not> deadSession sid db2" using r2(2,3) by (auto simp: deadSession_def getSession_def find_Some_iff list_all_length)
  moreover have "deadSession sid (snd (refreshRead le1 tok1 db2))"
    using r2 t(2) assms(6,7,15-17) revoke_dead [of db2 sid] by (simp add: refreshRead_def)
  moreover have "refreshRead le1 tok db = (OK (sid, se_ManagerID s), db)" "refreshRead le2 tok db = (OK (sid, se_ManagerID s), db)"
    using assms(1-3,5-8) t(1) by (simp_all add: refreshRead_def)
  ultimately show ?thesis using r1(1) r2(1) i by blast
qed

section \<open>Enrolment\<close>

lemma markCode_first:
  assumes "c \<in> set cs" and "bc_ManagerID c = i" and "bc_Hash c = h" and "bc_UsedAt c = None"
  shows "fst (markCode now i h cs)"
  using assms by (induction cs) (auto split: prod.split)

lemma markCode_none: "\<not> (\<exists>c \<in> set cs. bc_ManagerID c = i \<and> bc_Hash c = h \<and> bc_UsedAt c = None) \<Longrightarrow> \<not> fst (markCode now i h cs)"
  by (induction cs) (auto split: prod.split)

text \<open>The unused codes of a manager with a hash.\<close>

definition unusedCodes :: "string \<Rightarrow> string \<Rightarrow> backupCode list \<Rightarrow> backupCode list" where
  "unusedCodes i h cs = filter (\<lambda>c. bc_ManagerID c = i \<and> bc_Hash c = h \<and> bc_UsedAt c = None) cs"

lemma markCode_unused: "length (unusedCodes i h (snd (markCode now i h cs))) = length (unusedCodes i h cs) - 1"
proof (induction cs)
  case (Cons c cs)
  have "unusedCodes i h (c\<lparr>bc_UsedAt := Some now\<rparr> # cs) = unusedCodes i h cs" by (simp add: unusedCodes_def)
  then show ?case using Cons by (auto simp: unusedCodes_def split: prod.splits)
qed (simp add: unusedCodes_def)

lemma markCode_iff: "fst (markCode now i h cs) \<longleftrightarrow> unusedCodes i h cs \<noteq> []"
proof -
  have "unusedCodes i h cs \<noteq> [] \<longleftrightarrow> (\<exists>c \<in> set cs. bc_ManagerID c = i \<and> bc_Hash c = h \<and> bc_UsedAt c = None)"
    by (auto simp: unusedCodes_def filter_empty_conv)
  then show ?thesis using markCode_none [of cs i h now] markCode_first by blast
qed

lemma formatBackup_shape:
  assumes "length bs = 10"
  shows "length (trimSpace (formatBackupCode bs)) = 11"
proof -
  have a: "\<forall>c \<in> set backupCodeAlphabet. \<not> isSpaceChar c" by (simp add: backupCodeAlphabet_def isSpaceChar_def)
  have "backupCodeAlphabet ! (unat x mod length backupCodeAlphabet) \<in> set backupCodeAlphabet" for x :: byte
    by (rule nth_mem) (simp add: backupCodeAlphabet_def)
  then have "list_all (\<lambda>c. \<not> isSpaceChar c) (formatBackupCode bs)" using a by (auto simp: formatBackupCode_def Let_def list_all_iff isSpaceChar_def)
  then show ?thesis using assms by (simp add: trimSpace_id_all formatBackupCode_def Let_def)
qed

lemma backup_not_totp: "length bs = 10 \<Longrightarrow> \<not> verifyTOTP hmac secret (formatBackupCode bs) now"
  using formatBackup_shape [of bs] by (simp add: verifyTOTP_def Let_def totpDigits_def)

lemma totp_accepts:
  assumes "totpCodeAt hmac secret t = Some code" and "unixStep t \<in> {unixStep now - 1, unixStep now, unixStep now + 1}"
  shows "verifyTOTP hmac secret code now \<and> code \<noteq> ''''"
proof -
  obtain key where k: "base32Decode (toUpper (trimSpace secret)) = Some key" "code = padded totpDigits (hotp hmac key (unixStep t))"
    using assms(1) by (auto simp: totpCodeAt_def split: option.splits)
  then have "length code = 6" using hotp_code by (simp add: totpDigits_def)
  then show ?thesis using k assms(2) verifyTOTP_window [of hmac secret code now] by (auto simp: padded_trim)
qed

lemma totp_key:
  assumes "length key = totpSecretLen"
  shows "totpCodeAt hmac (base32Encode key) t = Some (padded totpDigits (hotp hmac key (unixStep t)))"
  using base32_roundtrip [of key] assms by (simp add: totpCodeAt_def base32_upper totpSecretLen_def)

lemma revokeOther_fields [simp]:
  "au_managers (revokeOtherSessions i k db) = au_managers db" "au_backupCodes (revokeOtherSessions i k db) = au_backupCodes db"
  by (simp_all add: revokeOtherSessions_def)

lemma activate_effect:
  assumes "lookupManagerByID i db = Some x" and "mr_TOTPPendingEnc x \<noteq> ''''"
  shows "\<exists>db1. activatePendingSecret i hs keep db = Some db1
     \<and> lookupManagerByID i db1 = Some (x\<lparr>mr_TOTPSecretEnc := mr_TOTPPendingEnc x, mr_TOTPPendingEnc := '''', mr_TOTPEnabled := True\<rparr>)
     \<and> unusedCodes i h (au_backupCodes db1) = map (\<lambda>h. \<lparr>bc_ManagerID = i, bc_Hash = h, bc_UsedAt = None\<rparr>) (filter (\<lambda>g. g = h) hs)"
proof -
  let ?f = "\<lambda>m. m\<lparr>mr_TOTPSecretEnc := mr_TOTPPendingEnc m, mr_TOTPPendingEnc := '''', mr_TOTPEnabled := True\<rparr>"
  have "lookupManagerByID i (updateManager i ?f db) = Some (?f x)" using assms(1) by (subst lookup_update) simp_all
  moreover have "filter (\<lambda>c. bc_ManagerID c = i \<and> bc_Hash c = h \<and> bc_UsedAt c = None) (map (\<lambda>h. \<lparr>bc_ManagerID = i, bc_Hash = h, bc_UsedAt = None\<rparr>) hs)
      = map (\<lambda>h. \<lparr>bc_ManagerID = i, bc_Hash = h, bc_UsedAt = None\<rparr>) (filter (\<lambda>g. g = h) hs)"
    by (simp add: filter_map comp_def)
  moreover have "filter (\<lambda>c. bc_ManagerID c = i \<and> bc_Hash c = h \<and> bc_UsedAt c = None) (filter (\<lambda>c. bc_ManagerID c \<noteq> i) (au_backupCodes db)) = []"
    by (auto simp: filter_empty_conv)
  ultimately show ?thesis using assms by (simp add: activatePendingSecret_def lookupManagerByID_def unusedCodes_def)
qed

text \<open>
  C38: enrolment. After a manager enrols and confirms with a code that an authenticator computes from the shown secret, every later code of it within one step of the clock passes as
  second factor, and every backup code passes exactly once (if their hashes differ); decryption undoing encryption is what is used of the cipher.
\<close>

theorem enrolment_roundtrip:
  assumes "lookupManagerByID (ma_ID m) db = Some row" and "\<not> mr_TOTPEnabled row" and "\<And>x. \<not> fe_down fe x" and "length key = totpSecretLen"
    and "fe_encrypt fe (base32Encode key) = Some enc" and "enc \<noteq> ''''" and "fe_decrypt fe enc = Some (base32Encode key)"
    and "code = padded totpDigits (hotp (fe_hmac fe) key (unixStep t))" and "unixStep t \<in> {unixStep (fe_now fe) - 1, unixStep (fe_now fe), unixStep (fe_now fe) + 1}"
    and "code2 = padded totpDigits (hotp (fe_hmac fe) key (unixStep t2))" and "unixStep t2 \<in> {unixStep now2 - 1, unixStep now2, unixStep now2 + 1}"
    and "b \<in> set bufs" and "length b = 10" and "distinct (map (hashBackupCode (fe_sha fe)) (map formatBackupCode bufs))" and "fe2 = fe\<lparr>fe_now := now2\<rparr>"
  shows "\<exists>db1 db2 row2. enrollTOTPHandler fe (Some key) m db = (OK (base32Encode key), db1)
     \<and> verifyTOTPHandler fe (Some bufs) m code db1 = (OK (map formatBackupCode bufs), db2)
     \<and> lookupManagerByID (ma_ID m) db2 = Some row2 \<and> mr_TOTPEnabled row2
     \<and> verifyManagerSecondFactor fe2 row2 code2 db2 = (Some True, db2)
     \<and> fst (verifyManagerSecondFactor fe2 row2 (formatBackupCode b) db2) = Some True
     \<and> fst (verifyManagerSecondFactor fe2 row2 (formatBackupCode b) (snd (verifyManagerSecondFactor fe2 row2 (formatBackupCode b) db2))) = Some False"
proof -
  let ?i = "ma_ID m" and ?h = "hashBackupCode (fe_sha fe) (formatBackupCode b)" and ?hs = "map (hashBackupCode (fe_sha fe)) (map formatBackupCode bufs)"
  define db1 where "db1 = audit (fe_down fe) (Some m) ''auth.totp_enroll_started'' ''manager'' ?i (updateManager ?i (mr_TOTPPendingEnc_update (\<lambda>_. enc)) db)"
  have id: "mr_ID row = ?i" using assms(1) by (auto simp: lookupManagerByID_def find_Some_iff)
  have 1: "enrollTOTPHandler fe (Some key) m db = (OK (base32Encode key), db1)"
    using assms(1-3,5) by (simp add: enrollTOTPHandler_def generateTOTPSecret_def db1_def)
  have l1: "lookupManagerByID ?i db1 = Some (row\<lparr>mr_TOTPPendingEnc := enc\<rparr>)" unfolding db1_def by (simp add: lookup_update assms(1))
  obtain db2 where 2: "activatePendingSecret ?i ?hs (ma_SessionID m) db1 = Some db2"
    "lookupManagerByID ?i db2 = Some (row\<lparr>mr_TOTPSecretEnc := enc, mr_TOTPPendingEnc := '''', mr_TOTPEnabled := True\<rparr>)"
    "unusedCodes ?i ?h (au_backupCodes db2) = map (\<lambda>h. \<lparr>bc_ManagerID = ?i, bc_Hash = h, bc_UsedAt = None\<rparr>) (filter (\<lambda>g. g = ?h) ?hs)"
    using activate_effect [OF l1, of ?hs "ma_SessionID m" ?h] assms(6) by auto
  let ?db2 = "audit (fe_down fe) (Some m) ''auth.totp_enabled'' ''manager'' ?i db2" and ?row = "row\<lparr>mr_TOTPSecretEnc := enc, mr_TOTPPendingEnc := '''', mr_TOTPEnabled := True\<rparr>"
  have 3: "verifyTOTPHandler fe (Some bufs) m code db1 = (OK (map formatBackupCode bufs), ?db2)"
    using l1 2(1) assms(3,6-8) totp_accepts [OF totp_key [OF assms(4)] assms(9)] by (simp add: verifyTOTPHandler_def Let_def)
  have 4: "verifyManagerSecondFactor fe2 ?row code2 db = (Some True, db)" for db
    using totp_accepts [OF totp_key [OF assms(4)] assms(11)] assms(6,7,10,15) by (simp add: verifyManagerSecondFactor_def Let_def)
  have b: "verifyManagerSecondFactor fe2 ?row (formatBackupCode b) db
      = (Some (fst (markCode now2 ?i ?h (au_backupCodes db))), db\<lparr>au_backupCodes := snd (markCode now2 ?i ?h (au_backupCodes db))\<rparr>)" for db
    using assms(3,6,7,15) id backup_not_totp [OF assms(13)] by (simp add: verifyManagerSecondFactor_def consumeBackupCode_def Let_def split: prod.split)
  have "?h \<in> set ?hs" using assms(12) by simp
  then have "length (filter (\<lambda>g. g = ?h) ?hs) = 1" using assms(14) distinct_length_filter [of ?hs "\<lambda>g. g = ?h"] by (simp add: Int_absorb1)
  then have u: "length (unusedCodes ?i ?h (au_backupCodes ?db2)) = 1" using 2(3) by simp
  then have "fst (markCode now2 ?i ?h (au_backupCodes ?db2))" unfolding markCode_iff by auto
  moreover have "\<not> fst (markCode now2 ?i ?h (snd (markCode now2 ?i ?h (au_backupCodes ?db2))))"
    using markCode_unused [of ?i ?h now2 "au_backupCodes ?db2"] u by (simp add: markCode_iff)
  ultimately show ?thesis using 1 2(2) 3 4 [of ?db2] b by (intro exI [of _ db1] exI [of _ ?db2] exI [of _ ?row]) simp
qed

section \<open>Witnesses of runs\<close>

definition wPanel :: "panelSession list \<Rightarrow> panelState" where
  "wPanel ss = \<lparr>ps_login = \<lparr>ls_db = wAuth ss, ls_keys = None\<rparr>, ps_now = 0, ps_reading = [], ps_rotated = [], ps_issued = [(''0'', 0, ''a'')]\<rparr>"

lemma idBelow_0: "idBelow (au_nextID (wAuth ss)) ''0''"
  using idBelow_this [of 0 1] by (simp add: wAuth_def formatUint_0)

theorem revocation_bounded_witness: "parseAccess wParse accessTTL ''a'' = None \<and> deadSession ''0'' (ps_db (wPanel [wSession\<lparr>se_Revoked := True\<rparr>]))"
proof -
  let ?p = "wPanel [wSession\<lparr>se_Revoked := True\<rparr>]"
  have "issuedOK wSign ?p" using wSign_access by (auto simp: issuedOK_def wPanel_def wClaims_def intro!: exI [of _ wClaims])
  moreover have d: "deadSession ''0'' (ps_db ?p)" using idBelow_0 by (auto simp: deadSession_def wPanel_def wAuth_def)
  moreover have "(panelStep wSign)\<^sup>*\<^sup>* ?p (?p\<lparr>ps_now := accessTTL\<rparr>)"
    by (intro r_into_rtranclp panelStep.tick) (simp add: wPanel_def accessTTL_def minute_def second_def)
  ultimately show ?thesis using revocation_bounded [OF wJWT, of ?p "''0''" "?p\<lparr>ps_now := accessTTL\<rparr>" 0 "''a''" accessTTL]
    by (simp add: wPanel_def)
qed

lemma wTokens: "parseRefreshToken ''0.s'' = Some (''0'', ''s'')" "parseRefreshToken ''0.x'' = Some (''0'', ''x'')" "parseRefreshToken ''0.y'' = Some (''0'', ''y'')"
  by (simp_all add: parseRefreshToken_def Let_def)

theorem reused_token_revokes_witness:
  "fst (refreshHandler (wLogin 0 ''n'') (wHTTP '''') ''0.x'' (ps_db (wPanel [wSession]))) = Err 401 ''invalid_token''"
proof -
  have "getSession ''0'' (ps_db (wPanel [wSession])) = Some wSession" by (simp add: getSession_def wPanel_def wAuth_simps)
  then show ?thesis
    using reused_token_revokes [OF wTokens(2), of "wPanel [wSession]" wSession "wLogin 0 ''n''" "''0.s''" "''s''" wSign "wHTTP ''''", OF _ _ _ _ _ _ wTokens(1) rtranclp.rtrancl_refl]
      idBelow_0 by (simp add: wPanel_def) (simp add: wAuth_simps)
qed

theorem refresh_race_undetected_witness:
  "\<exists>db1 db2. refreshRotate (wLogin 0 ''x'') '''' '''' ''0'' (wAuth [wSession]) = (OK ''x'', db1) \<and> refreshRotate (wLogin 0 ''y'') '''' '''' ''0'' db1 = (OK ''y'', db2)
     \<and> \<not> deadSession ''0'' db2"
proof -
  have "getSession ''0'' (wAuth [wSession]) = Some wSession" "lookupManagerByID (se_ManagerID wSession) (wAuth [wSession]) = Some wRow"
    by (simp_all add: getSession_def lookupManagerByID_def wAuth_simps)
  then show ?thesis
    using refresh_race_undetected [OF wTokens(1), of "wAuth [wSession]" wSession "wLogin 0 ''x''" "wLogin 0 ''y''" "''x''" "''y''" wRow "''0.x''" "''''" "''''" "''''" "''''"]
      wTokens(2) idBelow_0 [of "[wSession]"] by (auto simp: wAuth_simps)
qed

definition wCaller :: Manager where
  "wCaller = \<lparr>ma_ID = ''m'', ma_Role = ''admin'', ma_Scoped = False, ma_SessionID = '''', ma_IP = '''', ma_UA = '''', ma_Perms = None, ma_AllowedIPs = []\<rparr>"

lemma encode_nonempty: "bs \<noteq> [] \<Longrightarrow> base32Encode bs \<noteq> ''''"
  by (simp add: base32Encode_def encodeGroups.simps [of bs] encodeGroup_def) (cases bs, auto)

theorem enrolment_roundtrip_witness:
  "\<exists>db1 db2 row2. enrollTOTPHandler wFE (Some (replicate 20 7)) wCaller (wAuth []) = (OK (base32Encode (replicate 20 7)), db1)
     \<and> verifyTOTPHandler wFE (Some [replicate 10 3]) wCaller (padded totpDigits (hotp (fe_hmac wFE) (replicate 20 7) (unixStep 0))) db1
         = (OK [formatBackupCode (replicate 10 3)], db2)
     \<and> lookupManagerByID ''m'' db2 = Some row2 \<and> mr_TOTPEnabled row2"
proof -
  let ?k = "replicate 20 (7 :: byte)" and ?c = "padded totpDigits (hotp (fe_hmac wFE) (replicate 20 (7 :: byte)) (unixStep 0))"
  have 1: "lookupManagerByID (ma_ID wCaller) (wAuth []) = Some wRow" "\<not> mr_TOTPEnabled wRow" "length ?k = totpSecretLen" "ma_ID wCaller = ''m''"
    by (simp_all add: wAuth_simps wCaller_def lookupManagerByID_def totpSecretLen_def)
  have 2: "\<not> fe_down wFE x" "fe_encrypt wFE s = Some s" "fe_decrypt wFE s = Some s" "fe_now wFE = 0" for x s by (simp_all add: wFE_def)
  have 3: "base32Encode ?k \<noteq> ''''" by (rule encode_nonempty) simp
  show ?thesis
    using enrolment_roundtrip [OF 1(1,2) 2(1) 1(3) 2(2) 3 2(3), of ?c 0 ?c 0 0 "replicate 10 3" "[replicate 10 3]" wFE] 2(4) 1(4) by auto
qed

end
