(* ===== verification/Cards.thy ===== *)
theory Cards
  imports RadAuthz AcctStore BillVoucher
begin

text \<open>
  Prepaid hotspot cards (\<^verbatim>\<open>backend/internal/cards\<close>): groups and their codes (\<^verbatim>\<open>hash.go\<close>, \<^verbatim>\<open>create.go\<close>, \<^verbatim>\<open>store.go\<close>, \<^verbatim>\<open>api.go\<close>), usage since the last reset
  (\<^verbatim>\<open>usage.go\<close>), and the account view that a code gives to the policy engine (\<^verbatim>\<open>auth.go\<close>).

  The tables are lists in \<open>CardDB\<close>; usage is read from the tables of the accounting service. SHA-256 and the random numbers are arguments; \<open>down s\<close> says
  that the statement named \<open>s\<close> fails without effect.
\<close>

section \<open>Data\<close>

record cardGroup =
  cg_ID :: string
  cg_Name :: string
  cg_Description :: string
  cg_UsernamePrefix :: string
  cg_CodeFormat :: string
  cg_CodeLength :: int
  cg_Price :: int
  cg_RateDownKbps :: int
  cg_RateUpKbps :: int
  cg_TransferMode :: string
  cg_TransferTotalBytes :: "int option"
  cg_TransferDownBytes :: "int option"
  cg_TransferUpBytes :: "int option"
  cg_UptimeLimitSeconds :: "int option"
  cg_ExpireAfterSeconds :: "int option"
  cg_ValidUntil :: "gotime option"
  cg_Enabled :: bool
  cg_Source :: string
  cg_CreatorManagerID :: string
  cg_CreatedAt :: gotime

record card =
  ca_ID :: string
  ca_GroupID :: string
  ca_CodeHash :: string
  ca_State :: string
  ca_FirstLoginAt :: "gotime option"
  ca_UsageCycleAnchor :: gotime
  ca_CreatedAt :: gotime

record CardDB =
  cd_groups :: "cardGroup list"
  cd_cards :: "card list"
  cd_nextID :: nat
  cd_audit :: "(string \<times> string) list"

datatype 'a cardReply = CardOK 'a | CardErr nat string

section \<open>Codes\<close>

definition numericAlphabet :: string where "numericAlphabet = ''0123456789''"
definition alphaAlphabet :: string where "alphaAlphabet = ''ABCDEFGHJKLMNPQRSTUVWXYZ''"
definition alphanumericAlphabet :: string where "alphanumericAlphabet = ''23456789ABCDEFGHJKLMNPQRSTUVWXYZ''"

definition alphabetFor :: "string \<Rightarrow> string" where
  "alphabetFor codeFormat =
     (if codeFormat = ''numeric'' then numericAlphabet else if codeFormat = ''alpha'' then alphaAlphabet else alphanumericAlphabet)"

definition genCardCode :: "(nat \<Rightarrow> nat) \<Rightarrow> string \<Rightarrow> string \<Rightarrow> int \<Rightarrow> string" where
  "genCardCode rnd prefix codeFormat codeLength =
     (let pre = toUpper prefix; alphabet = alphabetFor codeFormat; n = codeLength - int (length pre)
      in pre @ map (\<lambda>i. alphabet ! (rnd i mod length alphabet)) [0 ..< nat (if n < 4 then 4 else n)])"

definition normalizeCardCode :: "string \<Rightarrow> string" where
  "normalizeCardCode code =
     filter (\<lambda>r. let c = of_char r :: nat in of_char CHR ''A'' \<le> c \<and> c \<le> of_char CHR ''Z'' \<or> of_char CHR ''0'' \<le> c \<and> c \<le> of_char CHR ''9'') (toUpper code)"

definition hashCard :: "(string \<Rightarrow> string) \<Rightarrow> string \<Rightarrow> string" where
  "hashCard sha code = sha (normalizeCardCode code)"

section \<open>Creating groups and cards\<close>

record groupInput =
  gi_Name :: string
  gi_Description :: string
  gi_UsernamePrefix :: string
  gi_CodeFormat :: string
  gi_CodeLength :: int
  gi_Count :: int
  gi_Price :: int
  gi_RateDownKbps :: int
  gi_RateUpKbps :: int
  gi_TransferMode :: string
  gi_TransferTotalBytes :: "int option"
  gi_TransferDownBytes :: "int option"
  gi_TransferUpBytes :: "int option"
  gi_UptimeLimitSeconds :: "int option"
  gi_ExpireAfterSeconds :: "int option"
  gi_ValidUntil :: "string option"

definition positive :: "int option \<Rightarrow> bool" where
  "positive x = (case x of None \<Rightarrow> False | Some n \<Rightarrow> 0 < n)"

text \<open>The fields in error and the input with its defaults. Each part checks some fields and may change them.\<close>

definition validateFormat :: "groupInput \<Rightarrow> string list \<times> groupInput" where
  "validateFormat gi =
     (if gi_CodeFormat gi = '''' then ([], gi\<lparr>gi_CodeFormat := ''alphanumeric''\<rparr>)
      else if gi_CodeFormat gi \<in> {''numeric'', ''alpha'', ''alphanumeric''} then ([], gi)
      else ([''code_format''], gi))"

definition validateTransfer :: "groupInput \<Rightarrow> string list \<times> groupInput" where
  "validateTransfer gi =
     (if gi_TransferMode gi = '''' then ([], gi\<lparr>gi_TransferMode := ''unlimited''\<rparr>)
      else if gi_TransferMode gi = ''unlimited''
      then ([], gi\<lparr>gi_TransferTotalBytes := None, gi_TransferDownBytes := None, gi_TransferUpBytes := None\<rparr>)
      else if gi_TransferMode gi = ''combined''
      then (if positive (gi_TransferTotalBytes gi) then [] else [''transfer_total_bytes''], gi\<lparr>gi_TransferDownBytes := None, gi_TransferUpBytes := None\<rparr>)
      else if gi_TransferMode gi = ''separate''
      then (if positive (gi_TransferDownBytes gi) \<or> positive (gi_TransferUpBytes gi) then [] else [''transfer_down_bytes''],
            gi\<lparr>gi_TransferTotalBytes := None\<rparr>)
      else ([''transfer_mode''], gi))"

definition validateGroup :: "groupInput \<Rightarrow> string list \<times> groupInput" where
  "validateGroup gi =
     (let (e1, gi1) = validateFormat gi;
          gi2 = (if gi_CodeLength gi1 = 0 then gi1\<lparr>gi_CodeLength := 10\<rparr> else gi1);
          (e2, gi3) = validateTransfer gi2
      in ((if gi_Name gi = '''' then [''name''] else []) @ e1
          @ (if gi_CodeLength gi2 < 6 \<or> 24 < gi_CodeLength gi2 then [''code_length''] else [])
          @ (if gi_Price gi < 0 then [''price''] else []) @ e2, gi3))"

text \<open>\<open>ON CONFLICT DO NOTHING RETURNING\<close> for one code.\<close>

definition insertCard :: "(string \<Rightarrow> string) \<Rightarrow> gotime \<Rightarrow> string \<Rightarrow> string \<Rightarrow> CardDB \<Rightarrow> bool \<times> CardDB" where
  "insertCard sha now groupID c db =
     (if list_ex (\<lambda>k. ca_CodeHash k = hashCard sha c) (cd_cards db) then (False, db)
      else (True, db\<lparr>cd_nextID := Suc (cd_nextID db), cd_cards := cd_cards db @ [\<lparr>ca_ID = formatUint (cd_nextID db), ca_GroupID = groupID,
              ca_CodeHash = hashCard sha c, ca_State = ''unused'', ca_FirstLoginAt = None, ca_UsageCycleAnchor = now, ca_CreatedAt = now\<rparr>]\<rparr>))"

fun insertCardList :: "(string \<Rightarrow> string) \<Rightarrow> gotime \<Rightarrow> string \<Rightarrow> string list \<Rightarrow> CardDB \<Rightarrow> string list \<times> CardDB" where
  "insertCardList sha now groupID [] db = ([], db)"
| "insertCardList sha now groupID (c # cs) db =
     (let (ok, db1) = insertCard sha now groupID c db; (plain, db2) = insertCardList sha now groupID cs db1
      in (if ok then c # plain else plain, db2))"

text \<open>Codes are drawn until \<open>need\<close> of them have different hashes; \<open>None\<close> means that the loop has not ended on the random numbers given.\<close>

fun drawCards :: "(string \<Rightarrow> string) \<Rightarrow> nat \<Rightarrow> string list \<Rightarrow> string list \<Rightarrow> string list option" where
  "drawCards sha need codes [] = (if length codes < need then None else Some codes)"
| "drawCards sha need codes (c # cs) =
     (if length codes < need
      then drawCards sha need (if hashCard sha c \<in> hashCard sha ` set codes then codes else codes @ [c]) cs
      else Some codes)"

text \<open>The rounds of \<^verbatim>\<open>insertCards\<close>, five at most. No result is an error of the loop or of a statement.\<close>

fun insertCards ::
    "(string \<Rightarrow> string) \<Rightarrow> (nat \<Rightarrow> (nat \<Rightarrow> nat) list) \<Rightarrow> gotime \<Rightarrow> string \<Rightarrow> string \<Rightarrow> string \<Rightarrow> nat \<Rightarrow> int \<Rightarrow> nat \<Rightarrow> nat \<Rightarrow> string list \<Rightarrow> CardDB
       \<Rightarrow> (string list \<times> CardDB) option" where
  "insertCards sha rnds now groupID prefix codeFormat want codeLength 0 k plain db = (if length plain < want then None else Some (plain, db))"
| "insertCards sha rnds now groupID prefix codeFormat want codeLength (Suc left) k plain db =
     (if length plain < want
      then case drawCards sha (want - length plain) [] (map (\<lambda>rnd. genCardCode rnd prefix codeFormat codeLength) (rnds k)) of
             None \<Rightarrow> None
           | Some codes \<Rightarrow>
               (let (more, db1) = insertCardList sha now groupID codes db
                in insertCards sha rnds now groupID prefix codeFormat want codeLength left (Suc k) (plain @ more) db1)
      else Some (plain, db))"

text \<open>The column checks of \<^verbatim>\<open>card_groups\<close>.\<close>

definition groupChecks :: "groupInput \<Rightarrow> bool" where
  "groupChecks gi \<longleftrightarrow> gi_CodeFormat gi \<in> {''numeric'', ''alpha'', ''alphanumeric''} \<and> 6 \<le> gi_CodeLength gi \<and> gi_CodeLength gi \<le> 24 \<and> 0 \<le> gi_Price gi
     \<and> 0 \<le> gi_RateDownKbps gi \<and> 0 \<le> gi_RateUpKbps gi \<and> gi_TransferMode gi \<in> {''unlimited'', ''combined'', ''separate''}"

definition groupOf :: "string \<Rightarrow> gotime \<Rightarrow> groupInput \<Rightarrow> string \<Rightarrow> gotime option \<Rightarrow> cardGroup" where
  "groupOf i now gi creator validUntil =
     \<lparr>cg_ID = i, cg_Name = gi_Name gi, cg_Description = gi_Description gi, cg_UsernamePrefix = gi_UsernamePrefix gi, cg_CodeFormat = gi_CodeFormat gi,
      cg_CodeLength = gi_CodeLength gi, cg_Price = gi_Price gi, cg_RateDownKbps = gi_RateDownKbps gi, cg_RateUpKbps = gi_RateUpKbps gi,
      cg_TransferMode = gi_TransferMode gi, cg_TransferTotalBytes = gi_TransferTotalBytes gi, cg_TransferDownBytes = gi_TransferDownBytes gi,
      cg_TransferUpBytes = gi_TransferUpBytes gi, cg_UptimeLimitSeconds = gi_UptimeLimitSeconds gi, cg_ExpireAfterSeconds = gi_ExpireAfterSeconds gi,
      cg_ValidUntil = validUntil, cg_Enabled = True, cg_Source = ''native'', cg_CreatorManagerID = creator, cg_CreatedAt = now\<rparr>"

record cardEnv =
  ce_now :: gotime
  ce_down :: "string \<Rightarrow> bool"
  ce_sha :: "string \<Rightarrow> string"
  ce_rnds :: "nat \<Rightarrow> (nat \<Rightarrow> nat) list"
  ce_usage :: AcctDB

text \<open>One transaction: nothing is kept unless it commits.\<close>

definition createGroup :: "cardEnv \<Rightarrow> groupInput \<Rightarrow> string \<Rightarrow> gotime option \<Rightarrow> CardDB \<Rightarrow> ((string \<times> string list) option) \<times> CardDB" where
  "createGroup ce gi creator validUntil db =
     (if ce_down ce ''insertGroup'' \<or> \<not> groupChecks gi then (None, db)
      else let i = formatUint (cd_nextID db);
               db1 = db\<lparr>cd_nextID := Suc (cd_nextID db), cd_groups := cd_groups db @ [groupOf i (ce_now ce) gi creator validUntil]\<rparr>;
               want = (if gi_Count gi \<le> 0 then 1 else nat (gi_Count gi))
           in if ce_down ce ''insertCards'' then (None, db)
              else case insertCards (ce_sha ce) (ce_rnds ce) (ce_now ce) i (gi_UsernamePrefix gi) (gi_CodeFormat gi) want (gi_CodeLength gi) 5 0 [] db1 of
                     None \<Rightarrow> (None, db)
                   | Some (plain, db2) \<Rightarrow> if ce_down ce ''commit'' then (None, db) else if ce_down ce ''getGroup'' then (None, db2) else (Some (i, plain), db2))"

definition getGroup :: "string \<Rightarrow> CardDB \<Rightarrow> cardGroup option" where
  "getGroup i db = find (\<lambda>g. cg_ID g = i) (cd_groups db)"

text \<open>The tallies that are attached to a group: unused, active, exhausted, disabled, all.\<close>

definition cardCounts :: "string \<Rightarrow> CardDB \<Rightarrow> nat list" where
  "cardCounts i db =
     (let mine = filter (\<lambda>k. ca_GroupID k = i) (cd_cards db)
      in map (\<lambda>st. length (filter (\<lambda>k. ca_State k = st) mine)) [''unused'', ''active'', ''exhausted'', ''disabled''] @ [length mine])"

definition addMoreCards :: "cardEnv \<Rightarrow> string \<Rightarrow> nat \<Rightarrow> CardDB \<Rightarrow> string list cardReply \<times> CardDB" where
  "addMoreCards ce i want db =
     (if ce_down ce ''getGroup'' then (CardErr 500 ''internal'', db)
      else case getGroup i db of
        None \<Rightarrow> (CardErr 404 ''not_found'', db)
      | Some g \<Rightarrow>
          if ce_down ce ''insertCards'' then (CardErr 500 ''internal'', db)
          else case insertCards (ce_sha ce) (ce_rnds ce) (ce_now ce) i (cg_UsernamePrefix g) (cg_CodeFormat g) want (cg_CodeLength g) 5 0 [] db of
                 None \<Rightarrow> (CardErr 500 ''internal'', db)
               | Some (plain, db1) \<Rightarrow> if ce_down ce ''commit'' then (CardErr 500 ''internal'', db) else (CardOK plain, db1))"

definition copyInput :: "cardGroup \<Rightarrow> int \<Rightarrow> groupInput" where
  "copyInput g cnt =
     \<lparr>gi_Name = cg_Name g @ '' (copy)'', gi_Description = cg_Description g, gi_UsernamePrefix = cg_UsernamePrefix g, gi_CodeFormat = cg_CodeFormat g,
      gi_CodeLength = cg_CodeLength g, gi_Count = cnt, gi_Price = cg_Price g, gi_RateDownKbps = cg_RateDownKbps g, gi_RateUpKbps = cg_RateUpKbps g,
      gi_TransferMode = cg_TransferMode g, gi_TransferTotalBytes = cg_TransferTotalBytes g, gi_TransferDownBytes = cg_TransferDownBytes g,
      gi_TransferUpBytes = cg_TransferUpBytes g, gi_UptimeLimitSeconds = cg_UptimeLimitSeconds g, gi_ExpireAfterSeconds = cg_ExpireAfterSeconds g,
      gi_ValidUntil = None\<rparr>"

definition duplicateGroup :: "cardEnv \<Rightarrow> string \<Rightarrow> int \<Rightarrow> CardDB \<Rightarrow> (string \<times> string list) cardReply \<times> CardDB" where
  "duplicateGroup ce i cnt db =
     (if ce_down ce ''getGroup'' then (CardErr 500 ''internal'', db)
      else case getGroup i db of
        None \<Rightarrow> (CardErr 404 ''not_found'', db)
      | Some g \<Rightarrow>
          (case createGroup ce (copyInput g cnt) (cg_CreatorManagerID g) (cg_ValidUntil g) db of
             (None, db1) \<Rightarrow> (CardErr 500 ''internal'', db1)
           | (Some x, db1) \<Rightarrow> (CardOK x, db1)))"

section \<open>Actions on groups and cards\<close>

definition updateGroup :: "string \<Rightarrow> (cardGroup \<Rightarrow> cardGroup) \<Rightarrow> CardDB \<Rightarrow> CardDB option" where
  "updateGroup i f db =
     (if list_ex (\<lambda>g. cg_ID g = i) (cd_groups db) then Some (db\<lparr>cd_groups := map (\<lambda>g. if cg_ID g = i then f g else g) (cd_groups db)\<rparr>) else None)"

definition setGroupEnabled :: "string \<Rightarrow> bool \<Rightarrow> CardDB \<Rightarrow> CardDB option" where
  "setGroupEnabled i enabled db = updateGroup i (\<lambda>g. g\<lparr>cg_Enabled := enabled\<rparr>) db"

definition extendValidUntil :: "string \<Rightarrow> gotime \<Rightarrow> CardDB \<Rightarrow> CardDB option" where
  "extendValidUntil i t db = updateGroup i (\<lambda>g. g\<lparr>cg_ValidUntil := Some t\<rparr>) db"

definition updateCard :: "string \<Rightarrow> (card \<Rightarrow> card) \<Rightarrow> CardDB \<Rightarrow> CardDB option" where
  "updateCard i f db =
     (if list_ex (\<lambda>k. ca_ID k = i) (cd_cards db) then Some (db\<lparr>cd_cards := map (\<lambda>k. if ca_ID k = i then f k else k) (cd_cards db)\<rparr>) else None)"

definition resetCard :: "gotime \<Rightarrow> string \<Rightarrow> CardDB \<Rightarrow> CardDB option" where
  "resetCard now i db = updateCard i (\<lambda>k. k\<lparr>ca_UsageCycleAnchor := now, ca_State := (if ca_State k = ''exhausted'' then ''active'' else ca_State k)\<rparr>) db"

definition setCardState :: "string \<Rightarrow> string \<Rightarrow> CardDB \<Rightarrow> CardDB option" where
  "setCardState i state db = updateCard i (\<lambda>k. k\<lparr>ca_State := state\<rparr>) db"

definition cardAudit :: "cardEnv \<Rightarrow> string \<Rightarrow> string \<Rightarrow> CardDB \<Rightarrow> CardDB" where
  "cardAudit ce action i db = (if ce_down ce ''audit'' then db else db\<lparr>cd_audit := cd_audit db @ [(action, i)]\<rparr>)"

text \<open>The answer of a handler over one update: the row is missing, the statement failed, or it is written and audited.\<close>

definition cardAction :: "cardEnv \<Rightarrow> string \<Rightarrow> string \<Rightarrow> CardDB option \<Rightarrow> CardDB \<Rightarrow> unit cardReply \<times> CardDB" where
  "cardAction ce action i r db =
     (if ce_down ce ''update'' then (CardErr 500 ''internal'', db)
      else case r of None \<Rightarrow> (CardErr 404 ''not_found'', db) | Some db1 \<Rightarrow> (CardOK (), cardAudit ce action i db1))"

definition setGroupEnabledHandler :: "cardEnv \<Rightarrow> string \<Rightarrow> bool \<Rightarrow> CardDB \<Rightarrow> unit cardReply \<times> CardDB" where
  "setGroupEnabledHandler ce i enabled db =
     cardAction ce (if enabled then ''card_group.enable'' else ''card_group.disable'') i (setGroupEnabled i enabled db) db"

text \<open>\<open>parse\<close> is \<^verbatim>\<open>time.Parse\<close> with the layout RFC3339.\<close>

definition extendGroupHandler :: "cardEnv \<Rightarrow> (string \<Rightarrow> gotime option) \<Rightarrow> string \<Rightarrow> string \<Rightarrow> CardDB \<Rightarrow> unit cardReply \<times> CardDB" where
  "extendGroupHandler ce parse i validUntil db =
     (case parse validUntil of
        None \<Rightarrow> (CardErr 422 ''validation_failed'', db)
      | Some t \<Rightarrow> cardAction ce ''card_group.extend'' i (extendValidUntil i t db) db)"

definition resetCardHandler :: "cardEnv \<Rightarrow> string \<Rightarrow> CardDB \<Rightarrow> unit cardReply \<times> CardDB" where
  "resetCardHandler ce i db = cardAction ce ''card.reset'' i (resetCard (ce_now ce) i db) db"

definition setCardStateHandler :: "cardEnv \<Rightarrow> string \<Rightarrow> string \<Rightarrow> CardDB \<Rightarrow> unit cardReply \<times> CardDB" where
  "setCardStateHandler ce i state db = cardAction ce ''card.set_state'' i (setCardState i state db) db"

definition parseOptionalTime :: "(string \<Rightarrow> gotime option) \<Rightarrow> string option \<Rightarrow> gotime option option" where
  "parseOptionalTime parse s =
     (case s of None \<Rightarrow> Some None | Some t \<Rightarrow> if t = '''' then Some None else map_option Some (parse t))"

definition createGroupHandler ::
    "cardEnv \<Rightarrow> (string \<Rightarrow> gotime option) \<Rightarrow> groupInput \<Rightarrow> string \<Rightarrow> CardDB \<Rightarrow> (string \<times> string list) cardReply \<times> CardDB" where
  "createGroupHandler ce parse gi creator db =
     (case validateGroup gi of (errs, gi1) \<Rightarrow>
        if errs \<noteq> [] then (CardErr 422 ''validation_failed'', db)
        else case parseOptionalTime parse (gi_ValidUntil gi1) of
          None \<Rightarrow> (CardErr 422 ''validation_failed'', db)
        | Some validUntil \<Rightarrow>
            (case createGroup ce gi1 creator validUntil db of
               (None, db1) \<Rightarrow> (CardErr 500 ''internal'', db1)
             | (Some (i, codes), db1) \<Rightarrow> (CardOK (i, codes), cardAudit ce ''card_group.create'' i db1)))"

definition addMoreHandler :: "cardEnv \<Rightarrow> string \<Rightarrow> int \<Rightarrow> CardDB \<Rightarrow> string list cardReply \<times> CardDB" where
  "addMoreHandler ce i cnt db =
     (if cnt < 1 \<or> 10000 < cnt then (CardErr 422 ''validation_failed'', db)
      else case addMoreCards ce i (nat cnt) db of
             (CardOK codes, db1) \<Rightarrow> (CardOK codes, cardAudit ce ''card_group.add_more'' i db1)
           | r \<Rightarrow> r)"

definition duplicateGroupHandler :: "cardEnv \<Rightarrow> string \<Rightarrow> int \<Rightarrow> CardDB \<Rightarrow> (string \<times> string list) cardReply \<times> CardDB" where
  "duplicateGroupHandler ce i cnt db =
     (case duplicateGroup ce i cnt db of
        (CardOK (j, codes), db1) \<Rightarrow> (CardOK (j, codes), cardAudit ce ''card_group.duplicate'' j db1)
      | r \<Rightarrow> r)"

section \<open>Usage\<close>

definition cardPoints :: "AcctDB \<Rightarrow> string \<Rightarrow> gotime \<Rightarrow> UsagePoint list" where
  "cardPoints u cardID since = filter (\<lambda>p. up_card p = Some cardID \<and> since \<le> up_time p) (db_usage u)"

definition sumCardBytes :: "AcctDB \<Rightarrow> string \<Rightarrow> gotime \<Rightarrow> int \<times> int" where
  "sumCardBytes u cardID since =
     (sum_list (map up_down (cardPoints u cardID since)), sum_list (map up_up (cardPoints u cardID since)))"

text \<open>The part of a session after the anchor, up to now for a live one.\<close>

definition sessionSpan :: "gotime \<Rightarrow> gotime \<Rightarrow> Session \<Rightarrow> duration" where
  "sessionSpan now since s =
     (case s_started_at s of
        None \<Rightarrow> 0
      | Some t0 \<Rightarrow> let t1 = (case s_stopped_at s of None \<Rightarrow> now | Some t \<Rightarrow> t) in if since < t1 then t1 - max t0 since else 0)"

definition sumCardUptime :: "gotime \<Rightarrow> AcctDB \<Rightarrow> string \<Rightarrow> gotime \<Rightarrow> int" where
  "sumCardUptime now u cardID since =
     (let ns = sum_list (map (sessionSpan now since) (filter (\<lambda>s. s_card s = Some cardID) (map snd (db_sessions u))))
      in if ns < 0 then 0 else ns div second)"

section \<open>The view of a card\<close>

definition effectiveExpiry :: "gotime option \<Rightarrow> int option \<Rightarrow> gotime option \<Rightarrow> gotime" where
  "effectiveExpiry firstLogin expireAfterSeconds validUntil =
     (let windowEnd = (case (expireAfterSeconds, firstLogin) of
                         (Some n, Some t) \<Rightarrow> if 0 < n then t + wrap64 (n * second) else zeroTime
                       | _ \<Rightarrow> zeroTime)
      in if windowEnd \<noteq> zeroTime
         then (case validUntil of Some v \<Rightarrow> if v < windowEnd then v else windowEnd | None \<Rightarrow> windowEnd)
         else (case validUntil of Some v \<Rightarrow> v | None \<Rightarrow> zeroTime))"

definition cardQuotaExhausted :: "string \<Rightarrow> int option \<Rightarrow> int option \<Rightarrow> int option \<Rightarrow> int \<Rightarrow> int \<Rightarrow> bool" where
  "cardQuotaExhausted mode totalLimit downLimit upLimit usedDown usedUp =
     (let reached = (\<lambda>lim used. case lim of None \<Rightarrow> False | Some n \<Rightarrow> 0 < n \<and> n \<le> used) in
      if mode = ''combined'' then reached totalLimit (wrap64 (usedDown + usedUp))
      else if mode = ''separate'' then reached downLimit usedDown \<or> reached upLimit usedUp
      else False)"

definition int64Or :: "int option \<Rightarrow> int \<Rightarrow> int" where
  "int64Or p d = (case p of None \<Rightarrow> d | Some n \<Rightarrow> n)"

definition cardRateToken :: "int \<Rightarrow> string" where
  "cardRateToken kbps =
     (if kbps \<le> 0 then ''0'' else if kbps mod 1024 = 0 then formatUint (nat (kbps div 1024)) @ ''M'' else formatUint (nat kbps) @ ''k'')"

definition cardRateString :: "int \<Rightarrow> int \<Rightarrow> string" where
  "cardRateString up dn = (if up \<le> 0 \<and> dn \<le> 0 then '''' else cardRateToken up @ ''/'' @ cardRateToken dn)"

text \<open>The zero \<^verbatim>\<open>AuthView\<close>.\<close>

definition zeroView :: AuthView where
  "zeroView = \<lparr>v_SubscriberID = '''', v_PasswordEnc = [], v_Status = '''', v_ExpiresAt = zeroTime, v_ExpiryBehavior = '''', v_QuotaBehavior = '''',
     v_QuotaExhausted = False, v_RateLimit = '''', v_PoolName = '''', v_ExpiredPoolName = '''', v_SessionLimit = 0, v_MacLockMode = '''', v_LearnedMac = '''',
     v_ThrottleRate = '''', v_HotspotRateLimit = '''', v_ServiceType = '''', v_Scopes = [], v_StaticIP = '''', v_BurstRate = '''', v_BurstThreshold = '''',
     v_BurstTime = '''', v_RatePriority = '''', v_MinRate = '''', v_AddressList = '''', v_DelegatedPrefix = '''', v_ExpiryThrottleRate = '''',
     v_ExpiryPoolOverride = '''', v_ExpirySwitchRate = '''', v_ExpirySwitchPool = '''', v_QuotaPoolOverride = '''', v_QuotaSwitchRate = '''',
     v_QuotaSwitchPool = '''', v_UptimeLimitSeconds = 0, v_UptimeUsedSeconds = 0, v_UptimeExhaustAction = '''', v_UptimeThrottleRate = '''',
     v_UptimePoolOverride = '''', v_UptimeSwitchRate = '''', v_UptimeSwitchPool = '''', v_DailyLimitBytes = 0, v_DailyUsedBytes = 0, v_DailyResetMin = 0,
     v_DailyExhaustAction = '''', v_DailyThrottleRate = '''', v_DailyPoolOverride = '''', v_DailySwitchRate = '''', v_DailySwitchPool = '''', v_SpeedWindows = []\<rparr>"

definition cardView :: "cardEnv \<Rightarrow> card \<Rightarrow> cardGroup \<Rightarrow> AuthView" where
  "cardView ce k g =
     (let first = (case ca_FirstLoginAt k of None \<Rightarrow> ce_now ce | Some t \<Rightarrow> t);
          (dn, up) = sumCardBytes (ce_usage ce) (ca_ID k) (ca_UsageCycleAnchor k)
      in zeroView\<lparr>v_Status := ''active'', v_ExpiryBehavior := ''block'',
           v_ExpiresAt := effectiveExpiry (Some first) (cg_ExpireAfterSeconds g) (cg_ValidUntil g), v_QuotaBehavior := ''block'',
           v_QuotaExhausted := cardQuotaExhausted (cg_TransferMode g) (cg_TransferTotalBytes g) (cg_TransferDownBytes g) (cg_TransferUpBytes g) dn up,
           v_RateLimit := cardRateString (cg_RateUpKbps g) (cg_RateDownKbps g), v_ServiceType := ''hotspot'',
           v_UptimeLimitSeconds := int64Or (cg_UptimeLimitSeconds g) 0,
           v_UptimeUsedSeconds := sumCardUptime (ce_now ce) (ce_usage ce) (ca_ID k) (ca_UsageCycleAnchor k), v_UptimeExhaustAction := ''block''\<rparr>)"

definition findCard :: "(string \<Rightarrow> string) \<Rightarrow> string \<Rightarrow> CardDB \<Rightarrow> card option" where
  "findCard sha code db = find (\<lambda>k. ca_CodeHash k = hashCard sha code) (cd_cards db)"

definition stampFirstLogin :: "gotime \<Rightarrow> string \<Rightarrow> CardDB \<Rightarrow> CardDB" where
  "stampFirstLogin now i db =
     db\<lparr>cd_cards := map (\<lambda>k. if ca_ID k = i \<and> ca_FirstLoginAt k = None then k\<lparr>ca_FirstLoginAt := Some now, ca_State := ''active''\<rparr> else k) (cd_cards db)\<rparr>"

text \<open>The join finds a card with its group. The first use is stamped before the usage is read and before the engine decides.\<close>

definition AuthenticateCard :: "cardEnv \<Rightarrow> string \<Rightarrow> CardDB \<Rightarrow> AuthView answer \<times> CardDB" where
  "AuthenticateCard ce code db =
     (if ce_down ce ''card'' then (AErr, db)
      else case Option.bind (findCard (ce_sha ce) code db) (\<lambda>k. map_option (\<lambda>g. (k, g)) (getGroup (ca_GroupID k) db)) of
        None \<Rightarrow> (ANone, db)
      | Some (k, g) \<Rightarrow>
          (if \<not> cg_Enabled g \<or> ca_State k = ''disabled'' then (ANone, db)
           else if ca_FirstLoginAt k = None \<and> ce_down ce ''stamp'' then (AErr, db)
           else let db1 = (if ca_FirstLoginAt k = None then stampFirstLogin (ce_now ce) (ca_ID k) db else db)
                in if ce_down ce ''bytes'' \<or> ce_down ce ''uptime'' then (AErr, db1) else (AFound (cardView ce k g), db1)))"

end
