(* ===== verification/CardsUsed.thy ===== *)
theory CardsUsed
  imports Cards
begin

text \<open>
  What holds of prepaid cards: which codes the policy engine admits, that the codes of a new group are usable, that the window of a used card cannot be
  moved, and that the accounting service finds the card that logged in.
\<close>

section \<open>One hash in three packages\<close>

lemma alnumChar_eq: "alnumChar = (\<lambda>c. let n = of_char c :: nat in 65 \<le> n \<and> n \<le> 90 \<or> 48 \<le> n \<and> n \<le> 57)"
  by (simp add: alnumChar_def fun_eq_iff)

lemma normalizeCard_same: "normalizeCardCode code = normalizeCode code"
  by (simp add: normalizeCardCode_def normalizeCode_def alnumChar_eq)

lemma hashCard_same: "hashCard sha code = hashCode sha code" "hashCard sha code = cardCodeHash sha code"
  by (simp_all add: hashCard_def hashCode_def normalizeCard_same cardCodeHash_def normalizeCode_def alnumChar_eq)

text \<open>
  The card that logs in is the card that is charged. Billing, the cards and accounting hash a code alike, so the card that accounting finds for
  the username of a session is the one that the login found for the same username.
\<close>

theorem card_usage_attributed:
  "hashCard sha code = hashCode sha code
   \<and> cardIDByUsername sha (\<lambda>h. map_option ca_ID (find (\<lambda>k. ca_CodeHash k = h) (cd_cards db))) code
     = (if code = '''' then '''' else case findCard sha code db of None \<Rightarrow> '''' | Some k \<Rightarrow> ca_ID k)"
  using hashCard_same(2) [of sha code]
  by (auto simp: hashCard_same(1) [symmetric] cardIDByUsername_def findCard_def split: option.split)

section \<open>Which cards are admitted\<close>

definition firstUse :: "cardEnv \<Rightarrow> card \<Rightarrow> gotime" where
  "firstUse ce k = (case ca_FirstLoginAt k of None \<Rightarrow> ce_now ce | Some t \<Rightarrow> t)"

definition cardExpiry :: "cardEnv \<Rightarrow> card \<Rightarrow> cardGroup \<Rightarrow> gotime" where
  "cardExpiry ce k g = effectiveExpiry (Some (firstUse ce k)) (cg_ExpireAfterSeconds g) (cg_ValidUntil g)"

definition cardSpent :: "cardEnv \<Rightarrow> card \<Rightarrow> cardGroup \<Rightarrow> bool" where
  "cardSpent ce k g =
     (let (dn, up) = sumCardBytes (ce_usage ce) (ca_ID k) (ca_UsageCycleAnchor k)
      in cardQuotaExhausted (cg_TransferMode g) (cg_TransferTotalBytes g) (cg_TransferDownBytes g) (cg_TransferUpBytes g) dn up)"

text \<open>Enabled, not expired, and below the limits of transfer and time.\<close>

definition cardUsable :: "cardEnv \<Rightarrow> card \<Rightarrow> cardGroup \<Rightarrow> bool" where
  "cardUsable ce k g \<longleftrightarrow> cg_Enabled g \<and> ca_State k \<noteq> ''disabled'' \<and> (cardExpiry ce k g = zeroTime \<or> ce_now ce \<le> cardExpiry ce k g) \<and> \<not> cardSpent ce k g
     \<and> (int64Or (cg_UptimeLimitSeconds g) 0 \<le> 0
        \<or> sumCardUptime (ce_now ce) (ce_usage ce) (ca_ID k) (ca_UsageCycleAnchor k) < int64Or (cg_UptimeLimitSeconds g) 0)"

lemma cardView_fields:
  "v_Status (cardView ce k g) = ''active''" "v_ExpiresAt (cardView ce k g) = cardExpiry ce k g" "v_ServiceType (cardView ce k g) = ''hotspot''"
  "v_SessionLimit (cardView ce k g) = 0" "v_ExpiryBehavior (cardView ce k g) = ''block''" "v_QuotaBehavior (cardView ce k g) = ''block''"
  "v_UptimeExhaustAction (cardView ce k g) = ''block''" "v_DailyLimitBytes (cardView ce k g) = 0" "v_QuotaExhausted (cardView ce k g) = cardSpent ce k g"
  "v_UptimeLimitSeconds (cardView ce k g) = int64Or (cg_UptimeLimitSeconds g) 0"
  "v_UptimeUsedSeconds (cardView ce k g) = sumCardUptime (ce_now ce) (ce_usage ce) (ca_ID k) (ca_UsageCycleAnchor k)"
  by (simp_all add: cardView_def zeroView_def cardExpiry_def firstUse_def cardSpent_def Let_def case_prod_beta)

lemma cardView_limits:
  assumes "cg_Enabled g" and "ca_State k \<noteq> ''disabled''" and "pe_now env = ce_now ce"
  shows "limitsPassed env req (cardView ce k g) True st \<longleftrightarrow> cardUsable ce k g"
  using assms
  by (auto simp: limitsPassed_def cardUsable_def cardView_fields evaluateLimits_def quotaExempt_def isExpired_def limitOutcome_def resolveAction_def
      sessionLimitReject_def Let_def)

text \<open>The policy engine with the cards as its seam.\<close>

definition withCards :: "cardEnv \<Rightarrow> CardDB \<Rightarrow> PolEnv \<Rightarrow> PolEnv" where
  "withCards ce db env = env\<lparr>pe_now := ce_now ce, pe_cardAuth := Some (\<lambda>code. fst (AuthenticateCard ce code db))\<rparr>"

text \<open>A request on a hotspot with a username that is neither a subscriber nor a voucher and has the shape of a code.\<close>

definition cardRequest :: "PolEnv \<Rightarrow> authorizeRequest \<Rightarrow> RadState \<Rightarrow> bool" where
  "cardRequest env req st =
     (case pe_nasByIP env (q_NasIP req) of
        AFound nas \<Rightarrow>
          (case resolveInstance env nas req of
             AFound inst \<Rightarrow>
               svc_Service inst = ''hotspot'' \<and> plausibleVoucher (q_Username req) ''''
               \<and> (case resolveView env (q_Username req) (markSeen env (q_NasIP req) st) of
                    (ANone, st1) \<Rightarrow> fst (tryVoucher env (q_Username req) st1) = ANone
                  | _ \<Rightarrow> False)
           | _ \<Rightarrow> False)
      | _ \<Rightarrow> False)"

definition accepts :: "PolEnv \<Rightarrow> authorizeRequest \<Rightarrow> RadState \<Rightarrow> bool" where
  "accepts env req st \<longleftrightarrow> (\<exists>resp st'. decide env req st = (Some resp, st') \<and> a_Action resp = ''accept'')"

lemma cardRequest_account:
  assumes "cardRequest (withCards ce db env) req st"
  shows "\<exists>nas inst st2. pe_nasByIP (withCards ce db env) (q_NasIP req) = AFound nas \<and> resolveInstance (withCards ce db env) nas req = AFound inst
     \<and> svc_Service inst = ''hotspot''
     \<and> findAccount (withCards ce db env) req True (markSeen (withCards ce db env) (q_NasIP req) st)
         = ((case fst (AuthenticateCard ce (q_Username req) db) of AErr \<Rightarrow> AErr | ANone \<Rightarrow> ANone | AFound v \<Rightarrow> AFound (v, True, [''card''])), st2)"
proof -
  let ?env = "withCards ce db env"
  from assms obtain nas where n: "pe_nasByIP ?env (q_NasIP req) = AFound nas" by (auto simp: cardRequest_def split: answer.splits)
  with assms obtain inst where i: "resolveInstance ?env nas req = AFound inst" by (auto simp: cardRequest_def split: answer.splits)
  obtain x st1 where x: "resolveView ?env (q_Username req) (markSeen ?env (q_NasIP req) st) = (x, st1)" by fastforce
  have r: "resolveView ?env (q_Username req) (markSeen ?env (q_NasIP req) st) = (ANone, st1)" "fst (tryVoucher ?env (q_Username req) st1) = ANone"
    "svc_Service inst = ''hotspot''" "plausibleVoucher (q_Username req) ''''"
    using assms n i x by (cases x; simp add: cardRequest_def)+
  obtain st2 where "tryVoucher ?env (q_Username req) st1 = (ANone, st2)" using r(2) by (metis prod.collapse)
  moreover have "tryCard ?env (q_Username req) = fst (AuthenticateCard ce (q_Username req) db)" using r(4) by (simp add: tryCard_def withCards_def)
  ultimately show ?thesis using n i r by (auto simp: findAccount_def split: answer.split)
qed

lemma accepts_card:
  assumes "cardRequest (withCards ce db env) req st"
  shows "accepts (withCards ce db env) req st \<longleftrightarrow>
     (\<exists>v. fst (AuthenticateCard ce (q_Username req) db) = AFound v \<and> limitsPassed (withCards ce db env) req v True st)"
proof -
  let ?env = "withCards ce db env"
  obtain nas inst st2 where a: "pe_nasByIP ?env (q_NasIP req) = AFound nas" "resolveInstance ?env nas req = AFound inst" "svc_Service inst = ''hotspot''"
    "findAccount ?env req True (markSeen ?env (q_NasIP req) st)
         = ((case fst (AuthenticateCard ce (q_Username req) db) of AErr \<Rightarrow> AErr | ANone \<Rightarrow> ANone | AFound v \<Rightarrow> AFound (v, True, [''card''])), st2)"
    using cardRequest_account [OF assms] by blast
  have same: "limitsPassed ?env req v True s = limitsPassed ?env req v True s'" for v s s' by (simp add: limitsPassed_def)
  show ?thesis
  proof
    assume "accepts ?env req st"
    then obtain resp st' where d: "decide ?env req st = (Some resp, st')" "a_Action resp = ''accept''" by (auto simp: accepts_def)
    from decide_accept [OF this] a obtain view isCode via st3 ev where
      f: "(case fst (AuthenticateCard ce (q_Username req) db) of AErr \<Rightarrow> AErr | ANone \<Rightarrow> ANone | AFound v \<Rightarrow> AFound (v, True, [''card''])) = AFound (view, isCode, via)"
      "decideLimits ?env req view inst True ev st3 = (Some resp, st')"
      by auto
    then show "\<exists>v. fst (AuthenticateCard ce (q_Username req) db) = AFound v \<and> limitsPassed ?env req v True st"
      using decideLimits_accept(1) [OF f(2) d(2)] same by (auto split: answer.splits)
  next
    assume "\<exists>v. fst (AuthenticateCard ce (q_Username req) db) = AFound v \<and> limitsPassed ?env req v True st"
    then obtain v where v: "fst (AuthenticateCard ce (q_Username req) db) = AFound v" "limitsPassed ?env req v True st2" using same by blast
    then have f: "findAccount ?env req (svc_Service inst = ''hotspot'') (markSeen ?env (q_NasIP req) st) = (AFound (v, True, [''card'']), st2)"
      using a by simp
    obtain ev where "decide ?env req st = decideLimits ?env req v inst True ev st2"
      using decide_complete [OF a(1,2) f] a(3) by (auto simp: accountPassed_def)
    then show "accepts ?env req st" using decideLimits_passed [OF v(2), of inst ev] by (auto simp: accepts_def)
  qed
qed

text \<open>The statements that a card login needs.\<close>

definition cardStatements :: "cardEnv \<Rightarrow> card \<Rightarrow> bool" where
  "cardStatements ce k \<longleftrightarrow> \<not> ce_down ce ''card'' \<and> \<not> ce_down ce ''bytes'' \<and> \<not> ce_down ce ''uptime'' \<and> \<not> (ca_FirstLoginAt k = None \<and> ce_down ce ''stamp'')"

lemma AuthenticateCard_found:
  "fst (AuthenticateCard ce code db) = AFound v \<longleftrightarrow>
     (\<exists>k g. findCard (ce_sha ce) code db = Some k \<and> getGroup (ca_GroupID k) db = Some g \<and> cg_Enabled g \<and> ca_State k \<noteq> ''disabled'' \<and> cardStatements ce k
        \<and> v = cardView ce k g)"
  by (cases "findCard (ce_sha ce) code db") (auto simp: AuthenticateCard_def cardStatements_def Let_def split: option.split)

text \<open>
  C24: which cards are admitted. A request on a hotspot with the code of a card is accepted exactly when the card has a group, both are enabled, neither the
  window from the first login nor the shelf date has passed, the transferred bytes are below the limit of the mode and the time online is below its
  limit, and no statement fails.
\<close>

theorem card_admitted_iff:
  assumes "cardRequest (withCards ce db env) req st"
  shows "accepts (withCards ce db env) req st \<longleftrightarrow>
     (\<exists>k g. findCard (ce_sha ce) (q_Username req) db = Some k \<and> getGroup (ca_GroupID k) db = Some g \<and> cardStatements ce k \<and> cardUsable ce k g)"
proof -
  have l: "limitsPassed (withCards ce db env) req (cardView ce k g) True s \<longleftrightarrow> cardUsable ce k g" if "cg_Enabled g" "ca_State k \<noteq> ''disabled''" for k g s
    using cardView_limits [OF that] by (simp add: withCards_def)
  have u: "cg_Enabled g" "ca_State k \<noteq> ''disabled''" if "cardUsable ce k g" for k g using that by (simp_all add: cardUsable_def)
  show ?thesis unfolding accepts_card [OF assms] AuthenticateCard_found using l u by blast
qed

text \<open>
  C39: the state exhausted admits. A card in the state that the migration gives to redeemed vouchers is accepted like any other: in a group without limits it
  is admitted as often as its code is presented, although a redeemed voucher was spent.
\<close>

theorem exhausted_card_admitted:
  assumes "cardRequest (withCards ce db env) req st" and "findCard (ce_sha ce) (q_Username req) db = Some k" and "ca_State k = ''exhausted''"
    and "getGroup (ca_GroupID k) db = Some g" and "cg_Enabled g" and "cg_TransferMode g = ''unlimited''" and "cg_UptimeLimitSeconds g = None"
    and "cg_ExpireAfterSeconds g = None" and "cg_ValidUntil g = None" and "cardStatements ce k"
  shows "accepts (withCards ce db env) req st"
proof -
  have "cardExpiry ce k g = zeroTime" using assms(8,9) by (simp add: cardExpiry_def effectiveExpiry_def)
  moreover have "\<not> cardSpent ce k g" using assms(6) by (simp add: cardSpent_def cardQuotaExhausted_def split: prod.split)
  ultimately have u: "cardUsable ce k g" using assms(3,5,7) by (simp add: cardUsable_def int64Or_def)
  have "limitsPassed (withCards ce db env) req (cardView ce k g) True st" using u assms(3,5) cardView_limits [of g k "withCards ce db env" ce]
    by (simp add: withCards_def)
  moreover have "fst (AuthenticateCard ce (q_Username req) db) = AFound (cardView ce k g)" unfolding AuthenticateCard_found using assms by auto
  ultimately show ?thesis unfolding accepts_card [OF assms(1)] by blast
qed

section \<open>The window of a card\<close>

text \<open>What happens to cards: logins and the handlers, each however it ends.\<close>

inductive cardStep :: "CardDB \<Rightarrow> CardDB \<Rightarrow> bool" where
  login: "cardStep db (snd (AuthenticateCard ce code db))"
| create: "cardStep db (snd (createGroupHandler ce parse gi creator db))"
| addMore: "cardStep db (snd (addMoreHandler ce i cnt db))"
| duplicate: "cardStep db (snd (duplicateGroupHandler ce i cnt db))"
| enableGroup: "cardStep db (snd (setGroupEnabledHandler ce i enabled db))"
| extendGroup: "cardStep db (snd (extendGroupHandler ce parse i validUntil db))"
| reset: "cardStep db (snd (resetCardHandler ce i db))"
| setState: "cardStep db (snd (setCardStateHandler ce i state db))"

text \<open>A card of a group was first used at a time, and the group has a window of so many seconds.\<close>

definition usedSince :: "string \<Rightarrow> string \<Rightarrow> gotime \<Rightarrow> int \<Rightarrow> CardDB \<Rightarrow> bool" where
  "usedSince i j t n db \<longleftrightarrow> idBelow (cd_nextID db) i \<and> idBelow (cd_nextID db) j
     \<and> list_all (\<lambda>k. ca_ID k = i \<longrightarrow> ca_GroupID k = j \<and> ca_FirstLoginAt k = Some t) (cd_cards db)
     \<and> list_all (\<lambda>g. cg_ID g = j \<longrightarrow> cg_ExpireAfterSeconds g = Some n) (cd_groups db)"

lemma usedSince_audit [simp]: "usedSince i j t n (cardAudit ce a x db) = usedSince i j t n db"
  by (simp add: usedSince_def cardAudit_def)

lemma usedSince_cards:
  assumes "usedSince i j t n db" and "\<And>k. ca_ID k = i \<Longrightarrow> ca_FirstLoginAt k = Some t \<Longrightarrow> ca_FirstLoginAt (f k) = Some t"
    and "\<And>k. ca_ID (f k) = ca_ID k" and "\<And>k. ca_GroupID (f k) = ca_GroupID k"
  shows "usedSince i j t n (db\<lparr>cd_cards := map f (cd_cards db)\<rparr>)"
  using assms by (auto simp: usedSince_def list_all_iff)

lemma usedSince_groups:
  assumes "usedSince i j t n db" and "\<And>g. cg_ID (f g) = cg_ID g" and "\<And>g. cg_ExpireAfterSeconds (f g) = cg_ExpireAfterSeconds g"
  shows "usedSince i j t n (db\<lparr>cd_groups := map f (cd_groups db)\<rparr>)"
  using assms by (auto simp: usedSince_def list_all_iff)

lemma usedSince_insertCard: "usedSince i j t n db \<Longrightarrow> usedSince i j t n (snd (insertCard sha now gr c db))"
  using idBelow_next idBelow_mono [of "cd_nextID db" _ "Suc (cd_nextID db)"] by (auto simp: usedSince_def insertCard_def)

lemma usedSince_insertList: "usedSince i j t n db \<Longrightarrow> usedSince i j t n (snd (insertCardList sha now gr cs db))"
proof (induction cs arbitrary: db)
  case (Cons c cs)
  then show ?case using usedSince_insertCard [of i j t n db sha now gr c] by (simp split: prod.split) (metis snd_conv)
qed simp

lemma usedSince_insertCards:
  assumes "insertCards sha rnds now gr pre fmt want len left k plain db = Some (out, db')" and "usedSince i j t n db"
  shows "usedSince i j t n db'"
  using assms
proof (induction left arbitrary: k plain db)
  case (Suc left)
  show ?case
  proof (cases "length plain < want")
    case True
    then obtain codes where d: "drawCards sha (want - length plain) [] (map (\<lambda>rnd. genCardCode rnd pre fmt len) (rnds k)) = Some codes"
      using Suc.prems(1) by (auto split: option.splits)
    obtain added db1 where i: "insertCardList sha now gr codes db = (added, db1)" by fastforce
    then have "usedSince i j t n db1" using usedSince_insertList [OF Suc.prems(2), of sha now gr codes] by simp
    then show ?thesis using Suc.IH Suc.prems(1) True d i by auto
  next
    case False
    then show ?thesis using Suc.prems by simp
  qed
qed (auto split: if_splits)

lemma usedSince_createGroup:
  assumes "usedSince i j t n db"
  shows "usedSince i j t n (snd (createGroup ce gi creator vu db))"
proof -
  let ?db = "db\<lparr>cd_nextID := Suc (cd_nextID db), cd_groups := cd_groups db @ [groupOf (formatUint (cd_nextID db)) (ce_now ce) gi creator vu]\<rparr>"
  have "formatUint (cd_nextID db) \<noteq> j" using assms idBelow_next by (auto simp: usedSince_def)
  then have "usedSince i j t n ?db" using assms idBelow_mono [of "cd_nextID db" _ "Suc (cd_nextID db)"] by (auto simp: usedSince_def groupOf_def)
  then show ?thesis using assms usedSince_insertCards [of "ce_sha ce" "ce_rnds ce" "ce_now ce"] by (auto simp: createGroup_def Let_def split: option.split)
qed

lemma usedSince_addMore: "usedSince i j t n db \<Longrightarrow> usedSince i j t n (snd (addMoreCards ce gr want db))"
  using usedSince_insertCards [of "ce_sha ce" "ce_rnds ce" "ce_now ce"] by (auto simp: addMoreCards_def split: option.split)

lemma usedSince_updateCard:
  assumes "usedSince i j t n db" and "updateCard x f db = Some db'" and "\<And>k. ca_FirstLoginAt (f k) = ca_FirstLoginAt k"
    and "\<And>k. ca_ID (f k) = ca_ID k" and "\<And>k. ca_GroupID (f k) = ca_GroupID k"
  shows "usedSince i j t n db'"
  using assms usedSince_cards [OF assms(1), of "\<lambda>k. if ca_ID k = x then f k else k"] by (auto simp: updateCard_def split: if_splits)

lemma usedSince_updateGroup:
  assumes "usedSince i j t n db" and "updateGroup x f db = Some db'" and "\<And>g. cg_ID (f g) = cg_ID g" and "\<And>g. cg_ExpireAfterSeconds (f g) = cg_ExpireAfterSeconds g"
  shows "usedSince i j t n db'"
  using assms usedSince_groups [OF assms(1), of "\<lambda>g. if cg_ID g = x then f g else g"] by (auto simp: updateGroup_def split: if_splits)

lemma usedSince_action:
  assumes "usedSince i j t n db" and "\<And>db1. r = Some db1 \<Longrightarrow> usedSince i j t n db1"
  shows "usedSince i j t n (snd (cardAction ce a x r db))"
  using assms by (auto simp: cardAction_def split: option.split)

lemma usedSince_stamp: "usedSince i j t n db \<Longrightarrow> usedSince i j t n (stampFirstLogin now x db)"
  unfolding stampFirstLogin_def by (rule usedSince_cards) auto

interpretation cardRun: kept cardStep "usedSince i j t n"
proof
  fix db db' assume "cardStep db db'" and u: "usedSince i j t n db"
  then show "usedSince i j t n db'"
  proof cases
    case (login ce code)
    then show ?thesis using u usedSince_stamp by (auto simp: AuthenticateCard_def Let_def split: option.split)
  next
    case (create ce parse gi creator)
    then show ?thesis using u usedSince_createGroup [OF u, of ce]
      by (auto simp: createGroupHandler_def split: prod.split option.split) (metis snd_conv)+
  next
    case (addMore ce x cnt)
    then show ?thesis using u usedSince_addMore [OF u, of ce]
      by (auto simp: addMoreHandler_def split: prod.split cardReply.split) (metis snd_conv)+
  next
    case (duplicate ce x cnt)
    have "usedSince i j t n (snd (duplicateGroup ce x cnt db))" using u usedSince_createGroup [OF u, of ce]
      by (auto simp: duplicateGroup_def split: prod.split option.split) (metis snd_conv)+
    then show ?thesis using duplicate by (cases "duplicateGroup ce x cnt db") (auto simp: duplicateGroupHandler_def split: cardReply.splits)
  next
    case (enableGroup ce x enabled)
    show ?thesis unfolding enableGroup setGroupEnabledHandler_def setGroupEnabled_def by (rule usedSince_action [OF u]) (auto dest: usedSince_updateGroup [OF u])
  next
    case (extendGroup ce parse x v)
    then show ?thesis using u
      by (auto simp: extendGroupHandler_def extendValidUntil_def intro!: usedSince_action dest: usedSince_updateGroup [OF u] split: option.split)
  next
    case (reset ce x)
    show ?thesis unfolding reset resetCardHandler_def resetCard_def by (rule usedSince_action [OF u]) (auto dest: usedSince_updateCard [OF u])
  next
    case (setState ce x state)
    show ?thesis unfolding setState setCardStateHandler_def setCardState_def by (rule usedSince_action [OF u]) (auto dest: usedSince_updateCard [OF u])
  qed
qed

text \<open>
  C25: the window of a card is final. After the window from the first login of a card has passed, the card is not usable any more, whatever resets, switches,
  extensions and new codes its group gets, in any order, unless the shelf date is set to the zero time of Go, which the engine reads as no expiry.
\<close>

theorem card_window_final:
  assumes "usedSince i j t n db" and "cardStep\<^sup>*\<^sup>* db db'" and "k \<in> set (cd_cards db')" and "ca_ID k = i" and "getGroup (ca_GroupID k) db' = Some g"
    and "0 < n" and "n < 2 ^ 33" and "0 \<le> t" and "t + n * second < ce_now ce"
    and "cg_ValidUntil g \<noteq> Some zeroTime"
  shows "\<not> cardUsable ce k g"
proof -
  have u: "usedSince i j t n db'" using cardRun.run_keeps [OF assms(2,1)] .
  then have k: "ca_FirstLoginAt k = Some t" "ca_GroupID k = j" using assms(3,4) by (auto simp: usedSince_def list_all_iff)
  have g: "cg_ExpireAfterSeconds g = Some n" using u assms(5) k(2) by (auto simp: usedSince_def list_all_iff getGroup_def find_Some_iff)
  have "wrap64 (n * second) = n * second" using assms(6,7) by (intro wrap64_id) (simp add: inInt64_def second_def)
  moreover have w: "t + n * second \<noteq> zeroTime" using assms(6,8) by (simp add: zeroTime_def second_def)
  ultimately have "cardExpiry ce k g = (case cg_ValidUntil g of None \<Rightarrow> t + n * second | Some v \<Rightarrow> if v < t + n * second then v else t + n * second)"
    using k g assms(6) w by (simp add: cardExpiry_def firstUse_def effectiveExpiry_def Let_def)
  then have "cardExpiry ce k g \<le> t + n * second" "cardExpiry ce k g \<noteq> zeroTime" using w assms(10) by (auto split: option.splits)
  then show ?thesis using assms(9) by (auto simp: cardUsable_def)
qed

section \<open>New codes work\<close>

lemma find_app: "find P (xs @ ys) = (case find P xs of None \<Rightarrow> find P ys | Some x \<Rightarrow> Some x)"
  by (induction xs) auto

lemma insertCard_appends: "\<exists>ks. cd_cards (snd (insertCard sha now gr c db)) = cd_cards db @ ks \<and> cd_groups (snd (insertCard sha now gr c db)) = cd_groups db"
  by (simp add: insertCard_def)

text \<open>The codes of a group that are in the table, unused and in the group, each with a hash of its own.\<close>

definition freshIn :: "(string \<Rightarrow> string) \<Rightarrow> string \<Rightarrow> string list \<Rightarrow> CardDB \<Rightarrow> bool" where
  "freshIn sha gr codes db \<longleftrightarrow> distinct (map (hashCard sha) codes)
     \<and> list_all (\<lambda>c. case findCard sha c db of None \<Rightarrow> False | Some k \<Rightarrow> ca_GroupID k = gr \<and> ca_State k = ''unused'' \<and> ca_FirstLoginAt k = None) codes"

lemma freshIn_insert:
  assumes "freshIn sha gr codes db" and "insertCard sha now gr c db = (ok, db1)"
  shows "freshIn sha gr (if ok then codes @ [c] else codes) db1"
proof (cases ok)
  case False
  then show ?thesis using assms by (simp add: insertCard_def split: if_splits)
next
  case True
  then have n: "find (\<lambda>k. ca_CodeHash k = hashCard sha c) (cd_cards db) = None" using assms(2) by (auto simp: insertCard_def list_ex_iff find_None_iff split: if_splits)
  have "hashCard sha c \<notin> hashCard sha ` set codes"
  proof
    assume "hashCard sha c \<in> hashCard sha ` set codes"
    then obtain d where "d \<in> set codes" "hashCard sha d = hashCard sha c" by auto
    then show False using assms(1) n by (auto simp: freshIn_def list_all_iff findCard_def)
  qed
  moreover have "findCard sha d db1 = findCard sha d db" if "findCard sha d db \<noteq> None" for d
    using that assms(2) True by (auto simp: insertCard_def findCard_def find_app split: if_splits)
  moreover have "\<exists>k. findCard sha c db1 = Some k \<and> ca_GroupID k = gr \<and> ca_State k = ''unused'' \<and> ca_FirstLoginAt k = None"
    using assms(2) True n by (auto simp: insertCard_def findCard_def find_app split: if_splits)
  ultimately show ?thesis using assms(1) True by (force simp: freshIn_def list_all_iff split: option.splits)
qed

lemma freshIn_list: "freshIn sha gr codes db \<Longrightarrow> insertCardList sha now gr cs db = (added, db1) \<Longrightarrow> freshIn sha gr (codes @ added) db1 \<and> cd_groups db1 = cd_groups db"
proof (induction cs arbitrary: codes db added db1)
  case (Cons c cs)
  obtain ok db2 where i: "insertCard sha now gr c db = (ok, db2)" by fastforce
  obtain plain db3 where l: "insertCardList sha now gr cs db2 = (plain, db3)" by fastforce
  have "cd_groups db2 = cd_groups db" using insertCard_appends [of sha now gr c db] i by simp
  then show ?case using Cons.IH [OF freshIn_insert [OF Cons.prems(1) i] l] Cons.prems(2) i l by (auto split: if_splits)
qed simp

lemma drawCards_length: "drawCards sha need codes cs = Some out \<Longrightarrow> length codes \<le> need \<Longrightarrow> length out = need"
  by (induction sha need codes cs rule: drawCards.induct) (auto split: if_splits)

lemma insertCardList_length: "insertCardList sha now gr cs db = (added, db1) \<Longrightarrow> length added \<le> length cs"
  by (induction cs arbitrary: db added db1) (auto split: prod.splits if_splits, fastforce+)

lemma insertCards_fresh:
  assumes "insertCards sha rnds now gr pre fmt want len left k plain db = Some (out, db')" and "freshIn sha gr plain db" and "length plain \<le> want"
  shows "freshIn sha gr out db' \<and> length out = want \<and> cd_groups db' = cd_groups db"
  using assms
proof (induction left arbitrary: k plain db)
  case (Suc left)
  show ?case
  proof (cases "length plain < want")
    case True
    then obtain codes where d: "drawCards sha (want - length plain) [] (map (\<lambda>rnd. genCardCode rnd pre fmt len) (rnds k)) = Some codes"
      using Suc.prems(1) by (auto split: option.splits)
    obtain added db1 where i: "insertCardList sha now gr codes db = (added, db1)" by fastforce
    have "length (plain @ added) \<le> want" using drawCards_length [OF d] insertCardList_length [OF i] True by simp
    then show ?thesis using Suc.IH freshIn_list [OF Suc.prems(2) i] Suc.prems(1) True d i by auto
  next
    case False
    then show ?thesis using Suc.prems by simp
  qed
qed (auto split: if_splits)

text \<open>
  The codes of a new group. A group that is created gets exactly the number of codes that was asked for, no two alike, and each of them is the code of
  an unused card of that group with the settings of the request.
\<close>

theorem created_codes_work:
  assumes "createGroup ce gi creator vu db = (Some (i, codes), db')" and "list_all (\<lambda>g. idBelow (cd_nextID db) (cg_ID g)) (cd_groups db)" and "c \<in> set codes"
  shows "length codes = (if gi_Count gi \<le> 0 then 1 else nat (gi_Count gi)) \<and> distinct (map (hashCard (ce_sha ce)) codes)
     \<and> (\<exists>k. findCard (ce_sha ce) c db' = Some k \<and> ca_State k = ''unused'' \<and> ca_FirstLoginAt k = None
          \<and> getGroup (ca_GroupID k) db' = Some (groupOf i (ce_now ce) gi creator vu))"
proof -
  let ?g = "groupOf (formatUint (cd_nextID db)) (ce_now ce) gi creator vu"
  let ?db = "db\<lparr>cd_nextID := Suc (cd_nextID db), cd_groups := cd_groups db @ [?g]\<rparr>" and ?want = "if gi_Count gi \<le> 0 then 1 else nat (gi_Count gi)"
  have i: "i = formatUint (cd_nextID db)"
    and c: "insertCards (ce_sha ce) (ce_rnds ce) (ce_now ce) i (gi_UsernamePrefix gi) (gi_CodeFormat gi) ?want (gi_CodeLength gi) 5 0 [] ?db = Some (codes, db')"
    using assms(1) by (auto simp: createGroup_def Let_def split: if_splits option.splits)
  have f: "freshIn (ce_sha ce) i codes db'" "length codes = ?want" "cd_groups db' = cd_groups db @ [?g]"
    using insertCards_fresh [OF c] by (simp_all add: freshIn_def)
  have "formatUint (cd_nextID db) \<notin> cg_ID ` set (cd_groups db)" using idBelow_fresh [of "cd_groups db" "cd_nextID db" cg_ID] assms(2) by (simp add: list_all_iff)
  then have "find (\<lambda>g. cg_ID g = i) (cd_groups db) = None" using i by (force simp: find_None_iff)
  then have "getGroup i db' = Some ?g" using f(3) i by (simp add: getGroup_def find_app groupOf_def)
  then show ?thesis using f assms(3) i by (auto simp: freshIn_def list_all_iff split: option.splits)
qed

section \<open>Refused logins\<close>

text \<open>
  A refused login starts the window. The first use of a card is stamped before the engine decides: a card that was never admitted, because its shelf date
  has passed, has its window running from that attempt, and after the shelf date was extended it can be expired before its first session.
\<close>

theorem refused_login_starts_window:
  assumes "cardRequest (withCards ce db env) req st" and "findCard (ce_sha ce) (q_Username req) db = Some k" and "ca_FirstLoginAt k = None"
    and "ca_State k \<noteq> ''disabled''" and "getGroup (ca_GroupID k) db = Some g" and "cg_Enabled g" and "cg_ValidUntil g = Some v" and "v < ce_now ce" and "v \<noteq> zeroTime"
    and "cardStatements ce k" and "0 \<le> ce_now ce" and "cg_ExpireAfterSeconds g = Some n" and "0 < n" and "n < 2 ^ 33"
    and "ce_now ce + n * second < ce_now ceLater" and "0 \<le> vLater"
  shows "\<not> accepts (withCards ce db env) req st
     \<and> (\<exists>k1. findCard (ce_sha ce) (q_Username req) (snd (AuthenticateCard ce (q_Username req) db)) = Some k1 \<and> ca_FirstLoginAt k1 = Some (ce_now ce)
          \<and> \<not> cardUsable ceLater k1 (g\<lparr>cg_ValidUntil := Some vLater\<rparr>))"
proof
  have w: "wrap64 (n * second) = n * second" using assms(13,14) by (intro wrap64_id) (simp add: inInt64_def second_def)
  have z: "ce_now ce + n * second \<noteq> zeroTime" "vLater \<noteq> zeroTime" using assms(11,13,16) by (simp_all add: zeroTime_def second_def)
  have p: "0 < n * second" using assms(13) by (simp add: second_def)
  have "cardExpiry ce k g = v" using assms(3,7,8,12,13) w z(1) p by (simp add: cardExpiry_def firstUse_def effectiveExpiry_def Let_def)
  then have "\<not> cardUsable ce k g" using assms(8,9) by (simp add: cardUsable_def)
  then show "\<not> accepts (withCards ce db env) req st"
    using cardView_limits [OF assms(6,4), of "withCards ce db env" ce] assms(2,5) unfolding accepts_card [OF assms(1)] AuthenticateCard_found
    by (auto simp: withCards_def)
  let ?f = "\<lambda>x :: card. if ca_ID x = ca_ID k \<and> ca_FirstLoginAt x = None then x\<lparr>ca_FirstLoginAt := Some (ce_now ce), ca_State := ''active''\<rparr> else x"
  have "find (\<lambda>x. ca_CodeHash x = h) (map ?f xs) = map_option ?f (find (\<lambda>x. ca_CodeHash x = h) xs)" for h xs by (induction xs) auto
  then have "findCard (ce_sha ce) (q_Username req) (stampFirstLogin (ce_now ce) (ca_ID k) db) = Some (?f k)"
    using assms(2) by (simp add: findCard_def stampFirstLogin_def)
  moreover have "snd (AuthenticateCard ce (q_Username req) db) = stampFirstLogin (ce_now ce) (ca_ID k) db"
    using assms(2-6,10) by (simp add: AuthenticateCard_def cardStatements_def)
  moreover have "cardExpiry ceLater (?f k) (g\<lparr>cg_ValidUntil := Some vLater\<rparr>) \<le> ce_now ce + n * second" "cardExpiry ceLater (?f k) (g\<lparr>cg_ValidUntil := Some vLater\<rparr>) \<noteq> zeroTime"
    using assms(3,12,13) w z by (simp_all add: cardExpiry_def firstUse_def effectiveExpiry_def Let_def)
  ultimately show "\<exists>k1. findCard (ce_sha ce) (q_Username req) (snd (AuthenticateCard ce (q_Username req) db)) = Some k1 \<and> ca_FirstLoginAt k1 = Some (ce_now ce)
      \<and> \<not> cardUsable ceLater k1 (g\<lparr>cg_ValidUntil := Some vLater\<rparr>)"
    using assms(3,15) by (intro exI [of _ "?f k"]) (auto simp: cardUsable_def)
qed

section \<open>Examples\<close>

text \<open>A group of one code, drawn with random numbers that are all zero, and a hotspot where it is presented.\<close>

definition sampleCardInput :: "int option \<Rightarrow> groupInput" where
  "sampleCardInput expire =
     \<lparr>gi_Name = ''cafe'', gi_Description = '''', gi_UsernamePrefix = '''', gi_CodeFormat = ''numeric'', gi_CodeLength = 6, gi_Count = 1, gi_Price = 1000,
      gi_RateDownKbps = 2048, gi_RateUpKbps = 512, gi_TransferMode = ''unlimited'', gi_TransferTotalBytes = None, gi_TransferDownBytes = None,
      gi_TransferUpBytes = None, gi_UptimeLimitSeconds = None, gi_ExpireAfterSeconds = expire, gi_ValidUntil = None\<rparr>"

definition sampleCardEnv :: "gotime \<Rightarrow> cardEnv" where
  "sampleCardEnv t = \<lparr>ce_now = t, ce_down = (\<lambda>_. False), ce_sha = id, ce_rnds = (\<lambda>_. [\<lambda>_. 0]), ce_usage = emptyDB\<rparr>"

definition sampleCardGroup :: "int option \<Rightarrow> gotime option \<Rightarrow> cardGroup" where
  "sampleCardGroup expire vu = groupOf ''0'' 0 (sampleCardInput expire) '''' vu"

definition sampleCard :: "string \<Rightarrow> gotime option \<Rightarrow> card" where
  "sampleCard state first = \<lparr>ca_ID = ''1'', ca_GroupID = ''0'', ca_CodeHash = ''000000'', ca_State = state, ca_FirstLoginAt = first,
     ca_UsageCycleAnchor = 0, ca_CreatedAt = 0\<rparr>"

definition sampleCardDB :: "cardGroup list \<Rightarrow> card list \<Rightarrow> CardDB" where
  "sampleCardDB gs ks = \<lparr>cd_groups = gs, cd_cards = ks, cd_nextID = 2, cd_audit = []\<rparr>"

definition sampleHotspot :: PolEnv where
  "sampleHotspot = (samplePolEnv 0)\<lparr>pe_servicesOf := (\<lambda>_. Some [\<lparr>svc_ID = ''H1'', svc_Service = ''hotspot'', svc_Label = [], svc_IPPoolName = [],
     svc_ROSServerName = []\<rparr>])\<rparr>"

definition sampleCardReq :: authorizeRequest where
  "sampleCardReq = (sampleReq '''')\<lparr>q_Username := ''000000'', rq_Service := ''hotspot''\<rparr>"

lemma sample_cardRequest: "cardRequest (withCards ce db sampleHotspot) sampleCardReq sampleRadState"
proof -
  let ?env = "withCards ce db sampleHotspot"
  have "pe_nasByIP ?env (q_NasIP sampleCardReq) = AFound \<lparr>nas_ID = ''N1'', nas_Vendor = ''mikrotik''\<rparr>"
    by (simp add: withCards_def sampleHotspot_def samplePolEnv_def sampleCardReq_def sampleReq_def)
  moreover have "resolveInstance ?env nas sampleCardReq
      = AFound \<lparr>svc_ID = ''H1'', svc_Service = ''hotspot'', svc_Label = [], svc_IPPoolName = [], svc_ROSServerName = []\<rparr>" for nas
    by (simp add: resolveInstance_def withCards_def sampleHotspot_def samplePolEnv_def sampleCardReq_def sampleReq_def ResolveService_def ofKind_def
        mikrotikStationName_def trimSpace_def trimLeft_def byID_def)
  moreover have "plausibleVoucher (q_Username sampleCardReq) ''''" by (simp add: sampleCardReq_def sampleReq_def) code_simp
  moreover have "resolveView ?env (q_Username sampleCardReq) (markSeen ?env ip sampleRadState) = (ANone, markSeen ?env ip sampleRadState)" for ip
    by (simp add: resolveView_def redisGet_def markSeen_def sampleRadState_def withCards_def sampleHotspot_def samplePolEnv_def sampleCardReq_def
        sampleReq_def)
  moreover have "tryVoucher ?env (q_Username sampleCardReq) st = (ANone, st)" for st
    by (simp add: tryVoucher_def withCards_def sampleHotspot_def samplePolEnv_def)
  ultimately show ?thesis by (simp add: cardRequest_def)
qed

lemma sample_card_hash: "hashCard id ''000000'' = ''000000''"
  by code_simp

lemma sample_findCard: "findCard (ce_sha (sampleCardEnv t)) (q_Username sampleCardReq) (sampleCardDB gs [sampleCard state first]) = Some (sampleCard state first)"
  using sample_card_hash by (simp add: findCard_def sampleCardEnv_def sampleCardReq_def sampleCardDB_def sampleCard_def)

lemma sample_getGroup:
  "getGroup (ca_GroupID (sampleCard state first)) (sampleCardDB [sampleCardGroup expire vu] ks) = Some (sampleCardGroup expire vu)"
  by (simp add: getGroup_def sampleCardDB_def sampleCard_def sampleCardGroup_def groupOf_def)

lemma sample_statements: "cardStatements (sampleCardEnv t) k"
  by (simp add: cardStatements_def sampleCardEnv_def)

lemma sample_group_fields:
  "cg_ID (sampleCardGroup expire vu) = ''0''" "cg_Enabled (sampleCardGroup expire vu)" "cg_TransferMode (sampleCardGroup expire vu) = ''unlimited''"
  "cg_UptimeLimitSeconds (sampleCardGroup expire vu) = None" "cg_ExpireAfterSeconds (sampleCardGroup expire vu) = expire"
  "cg_ValidUntil (sampleCardGroup expire vu) = vu"
  by (simp_all add: sampleCardGroup_def groupOf_def sampleCardInput_def)

lemma sample_usable: "cardUsable (sampleCardEnv 5) (sampleCard ''unused'' None) (sampleCardGroup None None)"
  by (simp add: cardUsable_def sample_group_fields cardExpiry_def effectiveExpiry_def cardSpent_def cardQuotaExhausted_def int64Or_def split: prod.split)
    (simp add: sampleCard_def)

theorem card_admitted_iff_witness:
  "accepts (withCards (sampleCardEnv 5) (sampleCardDB [sampleCardGroup None None] [sampleCard ''unused'' None]) sampleHotspot) sampleCardReq sampleRadState"
  using card_admitted_iff [OF sample_cardRequest] sample_findCard sample_getGroup sample_statements sample_usable by blast

theorem exhausted_card_admitted_witness:
  "accepts (withCards (sampleCardEnv 5) (sampleCardDB [sampleCardGroup None None] [sampleCard ''exhausted'' (Some 1)]) sampleHotspot) sampleCardReq sampleRadState"
  by (rule exhausted_card_admitted [OF sample_cardRequest sample_findCard _ sample_getGroup]) (simp_all add: sample_group_fields sample_statements sampleCard_def)

lemma sample_ids: "formatUint 0 = ''0''" "formatUint 1 = ''1''"
  by code_simp+

lemma sample_usedSince:
  "usedSince ''1'' ''0'' 1 60 (sampleCardDB [sampleCardGroup (Some 60) None] [sampleCard ''active'' (Some 1)])"
proof -
  have "idBelow 2 ''1''" using sample_ids unfolding idBelow_def by (intro exI [of _ 1]) simp
  moreover have "idBelow 2 ''0''" using sample_ids unfolding idBelow_def by (intro exI [of _ 0]) simp
  ultimately show ?thesis by (simp add: usedSince_def sampleCardDB_def sampleCard_def sample_group_fields)
qed

text \<open>An extension of the shelf date a minute after the first use does not help.\<close>

theorem card_window_final_witness:
  "\<not> cardUsable (sampleCardEnv (100 * second)) (sampleCard ''active'' (Some 1)) (sampleCardGroup (Some 60) (Some (200 * second)))"
proof -
  let ?db = "sampleCardDB [sampleCardGroup (Some 60) None] [sampleCard ''active'' (Some 1)]"
  let ?db' = "snd (extendGroupHandler (sampleCardEnv 0) (\<lambda>_. Some (200 * second)) ''0'' '''' ?db)"
  have e: "cd_groups ?db' = [sampleCardGroup (Some 60) (Some (200 * second))]" "cd_cards ?db' = [sampleCard ''active'' (Some 1)]"
    by (simp_all add: extendGroupHandler_def cardAction_def extendValidUntil_def updateGroup_def cardAudit_def sampleCardEnv_def sampleCardDB_def
        sampleCardGroup_def groupOf_def)
  have "cardStep\<^sup>*\<^sup>* ?db ?db'" by (rule r_into_rtranclp) (rule cardStep.extendGroup)
  then show ?thesis
    by (rule card_window_final [OF sample_usedSince, where k = "sampleCard ''active'' (Some 1)"])
      (simp_all add: e getGroup_def sample_group_fields, simp_all add: sampleCard_def sampleCardEnv_def second_def zeroTime_def)
qed

lemma sample_create:
  "createGroup (sampleCardEnv 0) (sampleCardInput None) '''' None (sampleCardDB [] []\<lparr>cd_nextID := 0\<rparr>)
   = (Some (''0'', [''000000'']), sampleCardDB [sampleCardGroup None None] [sampleCard ''unused'' None])"
  by code_simp

theorem created_codes_work_witness:
  "\<exists>k. findCard id ''000000'' (sampleCardDB [sampleCardGroup None None] [sampleCard ''unused'' None]) = Some k \<and> ca_State k = ''unused''"
  using created_codes_work [OF sample_create, of "''000000''"] by (auto simp: sampleCardDB_def sampleCardEnv_def)

theorem refused_login_starts_window_witness:
  "\<not> accepts (withCards (sampleCardEnv second) (sampleCardDB [sampleCardGroup (Some 60) (Some 5)] [sampleCard ''unused'' None]) sampleHotspot) sampleCardReq
       sampleRadState"
  by (rule conjunct1 [OF refused_login_starts_window [OF sample_cardRequest sample_findCard _ _ sample_getGroup,
        where ceLater = "sampleCardEnv (100 * second)" and n = 60 and v = 5 and vLater = 0]])
    (simp_all add: sample_group_fields sample_statements, simp_all add: sampleCard_def sampleCardEnv_def second_def zeroTime_def)

end
