(* ===== verification/Notify.thy ===== *)
theory Notify
  imports RadEnforce AcctStore
begin

text \<open>
  Notifications (\<^verbatim>\<open>backend/internal/notify\<close>): the one queue of outgoing messages (\<^verbatim>\<open>outbox_store.go\<close>), what fills it (\<^verbatim>\<open>enqueue.go\<close>, \<^verbatim>\<open>passcode.go\<close>,
  \<^verbatim>\<open>scanner.go\<close>), rules and templates (\<^verbatim>\<open>rules.go\<close>, \<^verbatim>\<open>templates.go\<close>), and the dispatcher with its senders (\<^verbatim>\<open>dispatcher.go\<close>, \<^verbatim>\<open>channels.go\<close>).

  The tables are lists in \<open>NoticeDB\<close>. An exchange with a message service is an argument that says whether the message arrived and what the sender saw; what
  arrived is kept in a list. \<open>ne_down s\<close> says that the statement named \<open>s\<close> fails without effect. \<open>ne_intAsText\<close> says whether the database driver encodes an
  integer for a parameter of type text; pgx v5 does not and returns an error before the statement is sent.
\<close>

section \<open>Data\<close>

record noticeRow =
  nr_ID :: string
  nr_Source :: string
  nr_SourceID :: string
  nr_Event :: string
  nr_SubscriberID :: string
  nr_Address :: string
  nr_Channel :: string
  nr_Locale :: string
  nr_TemplateKey :: string
  nr_TemplateVersion :: "nat option"
  nr_Subject :: string
  nr_Body :: string
  nr_IgnoreOptOut :: bool
  nr_State :: string
  nr_AttemptCount :: nat
  nr_LastError :: string
  nr_SkipReason :: string
  nr_NextAttemptAt :: gotime
  nr_CreatedAt :: gotime
  nr_UpdatedAt :: gotime
  nr_SentAt :: "gotime option"

record noticeRule =
  ru_EventKey :: string
  ru_Enabled :: bool
  ru_Channels :: "string list"
  ru_DaysBefore :: "int option"
  ru_IgnoreOptOut :: bool
  ru_BatchSize :: int
  ru_TickIntervalSeconds :: int

record noticeTemplate =
  nt_EventKey :: string
  nt_Locale :: string
  nt_Version :: nat
  nt_Subject :: string
  nt_Body :: string
  nt_CreatedBy :: string

text \<open>A row of the subscribers with its Telegram link and its quota.\<close>

record contact =
  cn_Name :: string
  cn_Phone :: string
  cn_Email :: string
  cn_Language :: string
  cn_WhatsAppOptIn :: bool
  cn_TelegramChatID :: string
  cn_Status :: string
  cn_ExpiresAt :: "gotime option"
  cn_QuotaMode :: string
  cn_QuotaTotalBytes :: int
  cn_QuotaAnchor :: gotime

record NoticeDB =
  nd_outbox :: "noticeRow list"
  nd_rules :: "noticeRule list"
  nd_templates :: "noticeTemplate list"
  nd_subs :: "(string \<times> contact) list"
  nd_optIns :: "((string \<times> string) \<times> bool) list"
  nd_usage :: "UsagePoint list"
  nd_claims :: "string \<Rightarrow> (unit \<times> gotime) option"
  nd_nextID :: nat
  nd_audit :: "(string \<times> string) list"

definition ChannelInApp :: string where "ChannelInApp = ''inapp''"
definition ChannelTelegram :: string where "ChannelTelegram = ''telegram''"
definition ChannelEmail :: string where "ChannelEmail = ''email''"
definition ChannelWhatsApp :: string where "ChannelWhatsApp = ''whatsapp''"
definition ChannelSMS :: string where "ChannelSMS = ''sms''"

lemmas channel_defs = ChannelInApp_def ChannelTelegram_def ChannelEmail_def ChannelWhatsApp_def ChannelSMS_def

definition noticeChannels :: "string list" where
  "noticeChannels = [ChannelInApp, ChannelTelegram, ChannelEmail, ChannelWhatsApp, ChannelSMS]"

definition noticeSources :: "string list" where
  "noticeSources = [''alert'', ''rule'', ''broadcast'', ''ticket'', ''bot'', ''guest_passcode'']"

definition maxNoticeAttempts :: nat where "maxNoticeAttempts = 5"

text \<open>Settings of the channels, each missing when it cannot be read.\<close>

record telegramConfig =
  tg_BotToken :: string
  tg_ChatID :: string

record smtpConfig =
  sm_Host :: string
  sm_Port :: int
  sm_Username :: string
  sm_From :: string
  sm_To :: "string list"

record whatsAppConfig =
  wa_Token :: string
  wa_PhoneID :: string
  wa_To :: "string list"

record smsConfig =
  ss_URL :: string
  ss_Method :: string
  ss_ParamMap :: "(string \<times> string) list"
  ss_APIKey :: string

datatype sendRequest =
    InAppPublish string string
  | TelegramPost string string string
  | SmtpMail string int bool string string string string
  | GraphPost string string string string string string
  | SmsCall string string "string \<Rightarrow> string option"

record noticeEnv =
  ne_now :: gotime
  ne_down :: "string \<Rightarrow> bool"
  ne_insertFails :: "nat \<Rightarrow> bool"
  ne_resolveFails :: "string \<Rightarrow> bool"
  ne_intAsText :: bool
  ne_redis :: bool
  ne_redisFails :: bool
  ne_telegram :: "telegramConfig option"
  ne_smtp :: "smtpConfig option"
  ne_whatsapp :: "whatsAppConfig option"
  ne_waTemplates :: "(string \<Rightarrow> (string \<Rightarrow> string option) option) option"
  ne_sms :: "smsConfig option"
  ne_exchange :: "sendRequest \<Rightarrow> bool \<times> string option"

section \<open>Templates\<close>

text \<open>\<^verbatim>\<open>strings.NewReplacer\<close> over the tokens of the parameters: at every position the first token that matches is replaced and the scan goes on behind it.\<close>

definition token :: "string \<Rightarrow> string" where
  "token k = ''{{'' @ k @ ''}}''"

lemma token_length: "0 < length (token k)"
  by (simp add: token_def)

fun render :: "(string \<times> string) list \<Rightarrow> string \<Rightarrow> string" where
  "render params [] = []"
| "render params (c # s) =
     (case find (\<lambda>(k, v). isPrefix (token k) (c # s)) params of
        None \<Rightarrow> c # render params s
      | Some (k, v) \<Rightarrow> v @ render params (drop (length (token k) - 1) s))"

fun newest :: "noticeTemplate list \<Rightarrow> noticeTemplate option" where
  "newest [] = None"
| "newest (t # ts) = (case newest ts of None \<Rightarrow> Some t | Some u \<Rightarrow> if nt_Version u < nt_Version t then Some t else Some u)"

definition templatesOf :: "string \<Rightarrow> string \<Rightarrow> NoticeDB \<Rightarrow> noticeTemplate list" where
  "templatesOf eventKey locale db = filter (\<lambda>t. nt_EventKey t = eventKey \<and> nt_Locale t = locale) (nd_templates db)"

definition currentTemplate :: "noticeEnv \<Rightarrow> string \<Rightarrow> string \<Rightarrow> NoticeDB \<Rightarrow> noticeTemplate option" where
  "currentTemplate ne eventKey locale db =
     (if ne_down ne ''template'' then None
      else case newest (templatesOf eventKey locale db) of
        Some t \<Rightarrow> Some t
      | None \<Rightarrow> if locale \<noteq> ''en'' then newest (templatesOf eventKey ''en'' db) else None)"

definition createTemplateVersion ::
    "noticeEnv \<Rightarrow> string \<Rightarrow> string \<Rightarrow> string \<Rightarrow> string \<Rightarrow> string \<Rightarrow> NoticeDB \<Rightarrow> noticeTemplate option \<times> NoticeDB" where
  "createTemplateVersion ne eventKey locale subject body createdBy db =
     (if ne_down ne ''insertTemplate'' \<or> locale \<notin> {''en'', ''ar'', ''ku''} then (None, db)
      else let t = \<lparr>nt_EventKey = eventKey, nt_Locale = locale,
                    nt_Version = (case newest (templatesOf eventKey locale db) of None \<Rightarrow> 0 | Some u \<Rightarrow> nt_Version u) + 1,
                    nt_Subject = subject, nt_Body = body, nt_CreatedBy = createdBy\<rparr>
           in (Some t, db\<lparr>nd_templates := nd_templates db @ [t]\<rparr>))"

section \<open>Rules\<close>

definition getNoticeRule :: "string \<Rightarrow> NoticeDB \<Rightarrow> noticeRule option" where
  "getNoticeRule eventKey db = find (\<lambda>r. ru_EventKey r = eventKey) (nd_rules db)"

record ruleUpdate =
  uu_Enabled :: "bool option"
  uu_Channels :: "string list option"
  uu_DaysBefore :: "int option"
  uu_IgnoreOptOut :: "bool option"
  uu_BatchSize :: "int option"
  uu_TickIntervalSeconds :: "int option"

definition orElse :: "'a option \<Rightarrow> 'a \<Rightarrow> 'a" where
  "orElse x d = (case x of None \<Rightarrow> d | Some y \<Rightarrow> y)"

definition positiveOr :: "int option \<Rightarrow> int \<Rightarrow> int" where
  "positiveOr x d = (case x of None \<Rightarrow> d | Some n \<Rightarrow> if 0 < n then n else d)"

definition changeRule :: "ruleUpdate \<Rightarrow> noticeRule \<Rightarrow> noticeRule" where
  "changeRule u r =
     r\<lparr>ru_Enabled := orElse (uu_Enabled u) (ru_Enabled r), ru_Channels := orElse (uu_Channels u) (ru_Channels r),
       ru_DaysBefore := (case uu_DaysBefore u of None \<Rightarrow> ru_DaysBefore r | Some d \<Rightarrow> Some d),
       ru_IgnoreOptOut := orElse (uu_IgnoreOptOut u) (ru_IgnoreOptOut r), ru_BatchSize := positiveOr (uu_BatchSize u) (ru_BatchSize r),
       ru_TickIntervalSeconds := positiveOr (uu_TickIntervalSeconds u) (ru_TickIntervalSeconds r)\<rparr>"

text \<open>The row and whether it is there; \<open>None\<close> is a failed statement.\<close>

definition updateNoticeRule :: "noticeEnv \<Rightarrow> string \<Rightarrow> ruleUpdate \<Rightarrow> NoticeDB \<Rightarrow> noticeRule option option \<times> NoticeDB" where
  "updateNoticeRule ne eventKey u db =
     (if ne_down ne ''rule'' then (None, db)
      else case getNoticeRule eventKey db of
        None \<Rightarrow> (Some None, db)
      | Some r \<Rightarrow>
          if ne_down ne ''updateRule'' then (None, db)
          else (Some (Some (changeRule u r)),
                db\<lparr>nd_rules := map (\<lambda>x. if ru_EventKey x = eventKey then changeRule u r else x) (nd_rules db)\<rparr>))"

section \<open>The queue\<close>

record noticeInsert =
  ni_Source :: string
  ni_SourceID :: string
  ni_Event :: string
  ni_SubscriberID :: string
  ni_Address :: string
  ni_Channel :: string
  ni_Locale :: string
  ni_TemplateKey :: string
  ni_TemplateVersion :: "nat option"
  ni_Subject :: string
  ni_Body :: string
  ni_IgnoreOptOut :: bool

definition noticeOf :: "gotime \<Rightarrow> string \<Rightarrow> noticeInsert \<Rightarrow> string \<Rightarrow> string \<Rightarrow> noticeRow" where
  "noticeOf now i x state skip =
     \<lparr>nr_ID = i, nr_Source = ni_Source x, nr_SourceID = ni_SourceID x, nr_Event = ni_Event x, nr_SubscriberID = ni_SubscriberID x, nr_Address = ni_Address x,
      nr_Channel = ni_Channel x, nr_Locale = ni_Locale x, nr_TemplateKey = ni_TemplateKey x, nr_TemplateVersion = ni_TemplateVersion x,
      nr_Subject = ni_Subject x, nr_Body = ni_Body x, nr_IgnoreOptOut = ni_IgnoreOptOut x, nr_State = state, nr_AttemptCount = 0, nr_LastError = '''',
      nr_SkipReason = skip, nr_NextAttemptAt = now, nr_CreatedAt = now, nr_UpdatedAt = now, nr_SentAt = None\<rparr>"

text \<open>Both inserts: queued without a reason, skipped with one. The checks of the table refuse an unknown source or channel.\<close>

definition insertNotice :: "noticeEnv \<Rightarrow> noticeInsert \<Rightarrow> string \<Rightarrow> NoticeDB \<Rightarrow> string option \<times> NoticeDB" where
  "insertNotice ne x skip db =
     (if ne_insertFails ne (nd_nextID db) \<or> ni_Channel x \<notin> set noticeChannels \<or> ni_Source x \<notin> set noticeSources then (None, db)
      else let i = formatUint (nd_nextID db)
           in (Some i, db\<lparr>nd_nextID := Suc (nd_nextID db),
                 nd_outbox := nd_outbox db @ [noticeOf (ne_now ne) i x (if skip = '''' then ''queued'' else ''skipped'') skip]\<rparr>))"

definition dueNotices :: "gotime \<Rightarrow> nat \<Rightarrow> NoticeDB \<Rightarrow> noticeRow list" where
  "dueNotices now limit db = take limit (sort_key nr_NextAttemptAt (filter (\<lambda>r. nr_State r = ''queued'' \<and> nr_NextAttemptAt r \<le> now) (nd_outbox db)))"

definition updateNotices :: "gotime \<Rightarrow> (noticeRow \<Rightarrow> bool) \<Rightarrow> (noticeRow \<Rightarrow> noticeRow) \<Rightarrow> NoticeDB \<Rightarrow> NoticeDB" where
  "updateNotices now p f db = db\<lparr>nd_outbox := map (\<lambda>r. if p r then (f r)\<lparr>nr_UpdatedAt := now\<rparr> else r) (nd_outbox db)\<rparr>"

definition claimNotices :: "gotime \<Rightarrow> nat \<Rightarrow> NoticeDB \<Rightarrow> noticeRow list \<times> NoticeDB" where
  "claimNotices now limit db =
     (let ids = map nr_ID (dueNotices now limit db);
          db1 = updateNotices now (\<lambda>r. nr_ID r \<in> set ids) (\<lambda>r. r\<lparr>nr_State := ''sending''\<rparr>) db
      in (filter (\<lambda>r. nr_ID r \<in> set ids) (nd_outbox db1), db1))"

definition stuckSendingAfter :: duration where "stuckSendingAfter = 30 * second"

definition reclaimStuckSending :: "gotime \<Rightarrow> NoticeDB \<Rightarrow> NoticeDB" where
  "reclaimStuckSending now db =
     updateNotices now (\<lambda>r. nr_State r = ''sending'' \<and> nr_UpdatedAt r < now - stuckSendingAfter) (\<lambda>r. r\<lparr>nr_State := ''queued'', nr_NextAttemptAt := now\<rparr>) db"

definition resolveNotice :: "noticeEnv \<Rightarrow> string \<Rightarrow> (noticeRow \<Rightarrow> noticeRow) \<Rightarrow> NoticeDB \<Rightarrow> NoticeDB" where
  "resolveNotice ne i f db = (if ne_resolveFails ne i then db else updateNotices (ne_now ne) (\<lambda>r. nr_ID r = i) f db)"

definition resolveSent :: "noticeEnv \<Rightarrow> string \<Rightarrow> NoticeDB \<Rightarrow> NoticeDB" where
  "resolveSent ne i = resolveNotice ne i (\<lambda>r. r\<lparr>nr_State := ''sent'', nr_SentAt := Some (ne_now ne), nr_AttemptCount := Suc (nr_AttemptCount r)\<rparr>)"

definition resolveSkippedRow :: "noticeEnv \<Rightarrow> string \<Rightarrow> string \<Rightarrow> NoticeDB \<Rightarrow> NoticeDB" where
  "resolveSkippedRow ne i reason = resolveNotice ne i (\<lambda>r. r\<lparr>nr_State := ''skipped'', nr_SkipReason := reason\<rparr>)"

definition backoffSeconds :: "nat \<Rightarrow> int" where
  "backoffSeconds attempt = (let s = 15 * int attempt in if 300 < s then 300 else s)"

text \<open>
  The last attempt writes its error. An earlier one requeues the row; that statement concatenates its third parameter, which makes it text, and gets the
  seconds as an integer. The caller drops the error.
\<close>

definition resolveFailedAttempt :: "noticeEnv \<Rightarrow> string \<Rightarrow> nat \<Rightarrow> string \<Rightarrow> NoticeDB \<Rightarrow> NoticeDB" where
  "resolveFailedAttempt ne i attemptCount errText =
     (if maxNoticeAttempts \<le> attemptCount + 1
      then resolveNotice ne i (\<lambda>r. r\<lparr>nr_State := ''failed'', nr_AttemptCount := Suc (nr_AttemptCount r), nr_LastError := errText\<rparr>)
      else if ne_intAsText ne
      then resolveNotice ne i (\<lambda>r. r\<lparr>nr_State := ''queued'', nr_AttemptCount := Suc (nr_AttemptCount r), nr_LastError := errText,
             nr_NextAttemptAt := ne_now ne + backoffSeconds (attemptCount + 1) * second\<rparr>)
      else (\<lambda>db. db))"

text \<open>The handlers of the panel. \<open>None\<close> is an error, otherwise whether the row was in the state.\<close>

definition cancelNotice :: "noticeEnv \<Rightarrow> string \<Rightarrow> NoticeDB \<Rightarrow> bool option \<times> NoticeDB" where
  "cancelNotice ne i db =
     (if ne_down ne ''cancel'' then (None, db)
      else (Some (list_ex (\<lambda>r. nr_ID r = i \<and> nr_State r = ''queued'') (nd_outbox db)),
            updateNotices (ne_now ne) (\<lambda>r. nr_ID r = i \<and> nr_State r = ''queued'') (\<lambda>r. r\<lparr>nr_State := ''skipped'', nr_SkipReason := ''cancelled''\<rparr>) db))"

definition retryNotice :: "noticeEnv \<Rightarrow> string \<Rightarrow> NoticeDB \<Rightarrow> bool option \<times> NoticeDB" where
  "retryNotice ne i db =
     (if ne_down ne ''retry'' then (None, db)
      else (Some (list_ex (\<lambda>r. nr_ID r = i \<and> nr_State r = ''failed'') (nd_outbox db)),
            updateNotices (ne_now ne) (\<lambda>r. nr_ID r = i \<and> nr_State r = ''failed'')
              (\<lambda>r. r\<lparr>nr_State := ''queued'', nr_AttemptCount := 0, nr_LastError := '''', nr_NextAttemptAt := ne_now ne, nr_SentAt := None\<rparr>) db))"

definition noticeAudit :: "noticeEnv \<Rightarrow> string \<Rightarrow> string \<Rightarrow> NoticeDB \<Rightarrow> NoticeDB" where
  "noticeAudit ne action i db = (if ne_down ne ''audit'' then db else db\<lparr>nd_audit := nd_audit db @ [(action, i)]\<rparr>)"

definition handleRetryOutbox :: "noticeEnv \<Rightarrow> string \<Rightarrow> NoticeDB \<Rightarrow> nat \<times> NoticeDB" where
  "handleRetryOutbox ne i db =
     (case retryNotice ne i db of
        (None, db1) \<Rightarrow> (500, db1)
      | (Some ok, db1) \<Rightarrow> if ok then (200, noticeAudit ne ''notification.retry'' i db1) else (409, db1))"

definition handleCancelOutbox :: "noticeEnv \<Rightarrow> string \<Rightarrow> NoticeDB \<Rightarrow> nat \<times> NoticeDB" where
  "handleCancelOutbox ne i db =
     (case cancelNotice ne i db of
        (None, db1) \<Rightarrow> (500, db1)
      | (Some ok, db1) \<Rightarrow> if ok then (200, noticeAudit ne ''notification.cancel'' i db1) else (409, db1))"

definition handlePutRule :: "noticeEnv \<Rightarrow> string \<Rightarrow> ruleUpdate \<Rightarrow> NoticeDB \<Rightarrow> nat \<times> NoticeDB" where
  "handlePutRule ne eventKey u db =
     (case updateNoticeRule ne eventKey u db of
        (None, db1) \<Rightarrow> (500, db1)
      | (Some None, db1) \<Rightarrow> (404, db1)
      | (Some (Some r), db1) \<Rightarrow> (200, noticeAudit ne ''notification_rule.update'' (ru_EventKey r) db1))"

definition handlePutTemplate :: "noticeEnv \<Rightarrow> string \<Rightarrow> string \<Rightarrow> string \<Rightarrow> string \<Rightarrow> string \<Rightarrow> NoticeDB \<Rightarrow> nat \<times> NoticeDB" where
  "handlePutTemplate ne eventKey locale subject body createdBy db =
     (if body = '''' then (422, db)
      else case createTemplateVersion ne eventKey locale subject body createdBy db of
             (None, db1) \<Rightarrow> (500, db1)
           | (Some t, db1) \<Rightarrow> (200, noticeAudit ne ''notification_template.update'' eventKey db1))"

section \<open>Enqueueing\<close>

definition channelOptedIn :: "noticeEnv \<Rightarrow> string \<Rightarrow> string \<Rightarrow> NoticeDB \<Rightarrow> bool" where
  "channelOptedIn ne subscriberID channel db =
     (if ne_down ne ''optIn'' then True else case map_of (nd_optIns db) (subscriberID, channel) of None \<Rightarrow> True | Some b \<Rightarrow> b)"

definition loadSubscriberContact :: "noticeEnv \<Rightarrow> string \<Rightarrow> NoticeDB \<Rightarrow> contact option" where
  "loadSubscriberContact ne subscriberID db = (if ne_down ne ''contact'' then None else map_of (nd_subs db) subscriberID)"

text \<open>The address and the reason to skip.\<close>

definition resolveSubscriberChannel :: "noticeEnv \<Rightarrow> contact \<Rightarrow> string \<Rightarrow> string \<Rightarrow> bool \<Rightarrow> NoticeDB \<Rightarrow> string \<times> string" where
  "resolveSubscriberChannel ne c ch subscriberID ignoreOptOut db =
     (if ch = ChannelInApp then ('''', '''')
      else if ch = ChannelTelegram then (if cn_TelegramChatID c = '''' then ('''', ''no_contact'') else (cn_TelegramChatID c, ''''))
      else if ch = ChannelWhatsApp then
        (if cn_Phone c = '''' then ('''', ''no_contact'') else if \<not> cn_WhatsAppOptIn c then ('''', ''opted_out'') else (cn_Phone c, ''''))
      else if ch = ChannelSMS then
        (if cn_Phone c = '''' then ('''', ''no_contact'')
         else if \<not> ignoreOptOut \<and> \<not> channelOptedIn ne subscriberID ''sms'' db then ('''', ''opted_out'') else (cn_Phone c, ''''))
      else if ch = ChannelEmail then
        (if cn_Email c = '''' then ('''', ''no_contact'')
         else if \<not> ignoreOptOut \<and> \<not> channelOptedIn ne subscriberID ''email'' db then ('''', ''opted_out'') else (cn_Email c, ''''))
      else ('''', ''channel_disabled''))"

record enqueueInput =
  ei_EventKey :: string
  ei_SubscriberID :: string
  ei_Params :: "(string \<times> string) list"
  ei_Source :: string
  ei_SourceID :: string

text \<open>The parameters with the name of the contact, which a parameter of the same name replaces.\<close>

definition withName :: "string \<Rightarrow> (string \<times> string) list \<Rightarrow> (string \<times> string) list" where
  "withName name params = (if ''name'' \<in> fst ` set params then params else (''name'', name) # params)"

definition eventInsert :: "enqueueInput \<Rightarrow> contact \<Rightarrow> bool \<Rightarrow> noticeTemplate option \<Rightarrow> string \<Rightarrow> string \<Rightarrow> noticeInsert" where
  "eventInsert x c ignoreOptOut tpl ch address =
     (let params = withName (cn_Name c) (ei_Params x) in
      \<lparr>ni_Source = (if ei_Source x = '''' then ''rule'' else ei_Source x), ni_SourceID = ei_SourceID x, ni_Event = ei_EventKey x,
       ni_SubscriberID = ei_SubscriberID x, ni_Address = address, ni_Channel = ch, ni_Locale = cn_Language c, ni_TemplateKey = ei_EventKey x,
       ni_TemplateVersion = map_option nt_Version tpl, ni_Subject = (case tpl of None \<Rightarrow> '''' | Some t \<Rightarrow> render params (nt_Subject t)),
       ni_Body = (case tpl of None \<Rightarrow> '''' | Some t \<Rightarrow> render params (nt_Body t)), ni_IgnoreOptOut = ignoreOptOut\<rparr>)"

text \<open>The loops over the channels stop at the first failed insert; the result is the ids so far and whether all was well.\<close>

fun enqueueChannels ::
    "noticeEnv \<Rightarrow> enqueueInput \<Rightarrow> contact \<Rightarrow> bool \<Rightarrow> noticeTemplate option \<Rightarrow> string list \<Rightarrow> NoticeDB \<Rightarrow> (string list \<times> bool) \<times> NoticeDB" where
  "enqueueChannels ne x c ignoreOptOut tpl [] db = (([], True), db)"
| "enqueueChannels ne x c ignoreOptOut tpl (ch # chs) db =
     (let (address, skip) = resolveSubscriberChannel ne c ch (ei_SubscriberID x) ignoreOptOut db;
          skip' = (if tpl = None \<and> skip = '''' then ''no_template'' else skip)
      in case insertNotice ne (eventInsert x c ignoreOptOut tpl ch address) skip' db of
           (None, db1) \<Rightarrow> (([], False), db1)
         | (Some i, db1) \<Rightarrow> (case enqueueChannels ne x c ignoreOptOut tpl chs db1 of ((ids, ok), db2) \<Rightarrow> ((i # ids, ok), db2)))"

definition EnqueueEvent :: "noticeEnv \<Rightarrow> enqueueInput \<Rightarrow> NoticeDB \<Rightarrow> (string list \<times> bool) \<times> NoticeDB" where
  "EnqueueEvent ne x db =
     (if ne_down ne ''rule'' then (([], False), db)
      else case getNoticeRule (ei_EventKey x) db of
        None \<Rightarrow> (([], True), db)
      | Some rule \<Rightarrow>
          if \<not> ru_Enabled rule then (([], True), db)
          else case loadSubscriberContact ne (ei_SubscriberID x) db of
            None \<Rightarrow> (([], True), db)
          | Some c \<Rightarrow> enqueueChannels ne x c (ru_IgnoreOptOut rule) (currentTemplate ne (ei_EventKey x) (cn_Language c) db) (ru_Channels rule) db)"

text \<open>Overrides of a rule that could be decoded.\<close>

record alertRecipients =
  ar_telegram :: "string option"
  ar_email :: "string list option"
  ar_whatsapp :: "string list option"

definition listOr :: "string list option \<Rightarrow> string list \<Rightarrow> string list" where
  "listOr x d = (case x of None \<Rightarrow> d | Some xs \<Rightarrow> if xs = [] then d else xs)"

definition resolveAlertRecipients :: "noticeEnv \<Rightarrow> string \<Rightarrow> alertRecipients \<Rightarrow> string list" where
  "resolveAlertRecipients ne ch rc =
     (if ch = ChannelInApp then ['''']
      else if ch = ChannelTelegram then
        (let dflt = (case ne_telegram ne of None \<Rightarrow> '''' | Some c \<Rightarrow> tg_ChatID c);
             addr = (case ar_telegram rc of None \<Rightarrow> dflt | Some c \<Rightarrow> if c = '''' then dflt else c)
         in if addr = '''' then [] else [addr])
      else if ch = ChannelEmail then listOr (ar_email rc) (case ne_smtp ne of None \<Rightarrow> [] | Some c \<Rightarrow> sm_To c)
      else if ch = ChannelWhatsApp then listOr (ar_whatsapp rc) (case ne_whatsapp ne of None \<Rightarrow> [] | Some c \<Rightarrow> wa_To c)
      else [])"

definition alertInsert :: "string \<Rightarrow> string \<Rightarrow> string \<Rightarrow> string \<Rightarrow> string \<Rightarrow> noticeInsert" where
  "alertInsert ruleID ruleType summary ch addr =
     \<lparr>ni_Source = ''alert'', ni_SourceID = ruleID, ni_Event = ruleType, ni_SubscriberID = '''', ni_Address = addr, ni_Channel = ch, ni_Locale = ''en'',
      ni_TemplateKey = ''staff_alert'', ni_TemplateVersion = None, ni_Subject = ''HikRAD alert'', ni_Body = summary, ni_IgnoreOptOut = True\<rparr>"

fun insertAlerts :: "noticeEnv \<Rightarrow> (string \<times> string) list \<Rightarrow> (string \<Rightarrow> string \<Rightarrow> noticeInsert) \<Rightarrow> NoticeDB \<Rightarrow> bool \<times> NoticeDB" where
  "insertAlerts ne [] mk db = (True, db)"
| "insertAlerts ne ((ch, addr) # rest) mk db =
     (case insertNotice ne (mk ch addr) (if addr = '''' \<and> ch \<noteq> ChannelInApp then ''no_contact'' else '''') db of
        (None, db1) \<Rightarrow> (False, db1)
      | (Some _, db1) \<Rightarrow> insertAlerts ne rest mk db1)"

definition EnqueueAlert :: "noticeEnv \<Rightarrow> string \<Rightarrow> string \<Rightarrow> string \<Rightarrow> string list \<Rightarrow> alertRecipients \<Rightarrow> NoticeDB \<Rightarrow> bool \<times> NoticeDB" where
  "EnqueueAlert ne ruleID ruleType summary channels rc db =
     insertAlerts ne (concat (map (\<lambda>ch. map (Pair ch) (let addresses = resolveAlertRecipients ne ch rc in if addresses = [] then [''''] else addresses)) channels))
       (alertInsert ruleID ruleType summary) db"

definition broadcastInsert :: "string \<Rightarrow> contact \<Rightarrow> string \<Rightarrow> string \<Rightarrow> string \<Rightarrow> string \<Rightarrow> noticeInsert" where
  "broadcastInsert subscriberID c ch subject body address =
     \<lparr>ni_Source = ''broadcast'', ni_SourceID = '''', ni_Event = ''broadcast'', ni_SubscriberID = subscriberID, ni_Address = address, ni_Channel = ch,
      ni_Locale = cn_Language c, ni_TemplateKey = '''', ni_TemplateVersion = None, ni_Subject = subject, ni_Body = body, ni_IgnoreOptOut = False\<rparr>"

fun EnqueueBroadcast :: "noticeEnv \<Rightarrow> string list \<Rightarrow> string \<Rightarrow> string \<Rightarrow> string \<Rightarrow> NoticeDB \<Rightarrow> (string list \<times> bool) \<times> NoticeDB" where
  "EnqueueBroadcast ne [] ch subject body db = (([], True), db)"
| "EnqueueBroadcast ne (sid # sids) ch subject body db =
     (case loadSubscriberContact ne sid db of
        None \<Rightarrow> EnqueueBroadcast ne sids ch subject body db
      | Some c \<Rightarrow>
          (let (address, skip) = resolveSubscriberChannel ne c ch sid False db
           in case insertNotice ne (broadcastInsert sid c ch subject body address) skip db of
                (None, db1) \<Rightarrow> (([], False), db1)
              | (Some i, db1) \<Rightarrow> (case EnqueueBroadcast ne sids ch subject body db1 of ((ids, ok), db2) \<Rightarrow> ((i # ids, ok), db2))))"

definition handleBroadcast :: "noticeEnv \<Rightarrow> string list \<Rightarrow> string \<Rightarrow> string \<Rightarrow> string \<Rightarrow> NoticeDB \<Rightarrow> nat \<times> NoticeDB" where
  "handleBroadcast ne sids ch subject body db =
     (if sids = [] \<or> ch \<notin> set noticeChannels \<or> body = '''' then (422, db)
      else case EnqueueBroadcast ne sids ch subject body db of
             ((ids, False), db1) \<Rightarrow> (500, db1)
           | ((ids, True), db1) \<Rightarrow> (200, noticeAudit ne ''notification.broadcast'' '''' db1))"

record passcodeInput =
  pc_EventKey :: string
  pc_Phone :: string
  pc_SubscriberID :: string
  pc_Locale :: string
  pc_Code :: string
  pc_TTLMinutes :: int

text \<open>\<open>Inl\<close> is an error; otherwise whether a message was queued, its channel and the reason if not.\<close>

definition EnqueuePasscode :: "noticeEnv \<Rightarrow> passcodeInput \<Rightarrow> NoticeDB \<Rightarrow> (unit + bool \<times> string \<times> string) \<times> NoticeDB" where
  "EnqueuePasscode ne x db =
     (if ne_down ne ''rule'' then (Inl (), db)
      else case getNoticeRule (pc_EventKey x) db of
        None \<Rightarrow> (Inr (False, '''', ''rule_disabled''), db)
      | Some rule \<Rightarrow>
          if \<not> ru_Enabled rule \<or> ru_Channels rule = [] then (Inr (False, '''', ''rule_disabled''), db)
          else let locale = (if pc_Locale x = '''' then ''en'' else pc_Locale x); tpl = currentTemplate ne (pc_EventKey x) locale db
               in case find (\<lambda>ch. ch = ChannelSMS \<or> ch = ChannelWhatsApp) (ru_Channels rule) of
                    None \<Rightarrow> (Inr (False, '''', ''channel_disabled''), db)
                  | Some ch \<Rightarrow>
                      (let params = (''code'', pc_Code x) # (if 0 < pc_TTLMinutes x then [(''ttl_minutes'', itoa (pc_TTLMinutes x))] else []);
                           skip = (if tpl = None then ''no_template'' else '''');
                           ins = \<lparr>ni_Source = ''guest_passcode'', ni_SourceID = '''', ni_Event = pc_EventKey x, ni_SubscriberID = pc_SubscriberID x,
                                  ni_Address = pc_Phone x, ni_Channel = ch, ni_Locale = locale, ni_TemplateKey = pc_EventKey x,
                                  ni_TemplateVersion = map_option nt_Version tpl,
                                  ni_Subject = (case tpl of None \<Rightarrow> '''' | Some t \<Rightarrow> render params (nt_Subject t)),
                                  ni_Body = (case tpl of None \<Rightarrow> '''' | Some t \<Rightarrow> render params (nt_Body t)), ni_IgnoreOptOut = ru_IgnoreOptOut rule\<rparr>
                       in case insertNotice ne ins skip db of
                            (None, db1) \<Rightarrow> (Inl (), db1)
                          | (Some _, db1) \<Rightarrow> (Inr (skip = '''', ch, skip), db1)))"

section \<open>The scanner\<close>

text \<open>\<^verbatim>\<open>SETNX\<close> with a time to live; an error counts as a claim.\<close>

definition setNX :: "noticeEnv \<Rightarrow> string \<Rightarrow> duration \<Rightarrow> NoticeDB \<Rightarrow> bool \<times> NoticeDB" where
  "setNX ne key ttl db =
     (if \<not> ne_redis ne \<or> ne_redisFails ne then (True, db)
      else case redisGet (ne_now ne) (nd_claims db) key of
        Some _ \<Rightarrow> (False, db)
      | None \<Rightarrow> (True, db\<lparr>nd_claims := (nd_claims db)(key \<mapsto> ((), ne_now ne + ttl))\<rparr>))"

definition claimDaily :: "noticeEnv \<Rightarrow> string \<Rightarrow> string \<Rightarrow> NoticeDB \<Rightarrow> bool \<times> NoticeDB" where
  "claimDaily ne eventKey sid db =
     setNX ne (''notify:scan:'' @ eventKey @ '':'' @ sid @ '':'' @ formatDay (inServerLocation (ne_now ne))) (25 * 60 * minute) db"

definition daysLeft :: "gotime \<Rightarrow> gotime \<Rightarrow> int" where
  "daysLeft now expires = max 0 (- ((now - expires) div dayLength))"

definition expiryTargets :: "gotime \<Rightarrow> int \<Rightarrow> NoticeDB \<Rightarrow> (string \<times> int) list" where
  "expiryTargets now days db =
     (if 0 < days
      then concat (map (\<lambda>(sid, c). case cn_ExpiresAt c of
                          Some t \<Rightarrow> if cn_Status c = ''active'' \<and> now \<le> t \<and> t < now + days * dayLength then [(sid, daysLeft now t)] else []
                        | None \<Rightarrow> []) (nd_subs db))
      else concat (map (\<lambda>(sid, c). case cn_ExpiresAt c of
                          Some t \<Rightarrow> if cn_Status c = ''expired'' \<and> now - dayLength \<le> t \<and> t < now then [(sid, 0)] else []
                        | None \<Rightarrow> []) (nd_subs db)))"

text \<open>Claim, then enqueue; what the enqueueing answers is only logged.\<close>

definition scanTarget :: "noticeEnv \<Rightarrow> string \<Rightarrow> string \<times> (string \<times> string) list \<Rightarrow> NoticeDB \<Rightarrow> NoticeDB" where
  "scanTarget ne eventKey t db =
     (case claimDaily ne eventKey (fst t) db of
        (False, db1) \<Rightarrow> db1
      | (True, db1) \<Rightarrow>
          snd (EnqueueEvent ne \<lparr>ei_EventKey = eventKey, ei_SubscriberID = fst t, ei_Params = snd t, ei_Source = '''', ei_SourceID = ''''\<rparr> db1))"

definition scanExpiryWindow :: "noticeEnv \<Rightarrow> string \<Rightarrow> NoticeDB \<Rightarrow> NoticeDB" where
  "scanExpiryWindow ne eventKey db =
     (if ne_down ne ''rule'' then db
      else case getNoticeRule eventKey db of
        None \<Rightarrow> db
      | Some rule \<Rightarrow>
          (case ru_DaysBefore rule of
             None \<Rightarrow> db
           | Some days \<Rightarrow>
               if \<not> ru_Enabled rule \<or> ne_down ne ''scan'' then db
               else fold (\<lambda>(sid, n). scanTarget ne eventKey (sid, [(''days_left'', itoa n)])) (expiryTargets (ne_now ne) days db) db))"

definition usedSinceAnchor :: "string \<Rightarrow> gotime \<Rightarrow> NoticeDB \<Rightarrow> int" where
  "usedSinceAnchor sid anchor db =
     sum_list (map (\<lambda>p. up_down p + up_up p) (filter (\<lambda>p. up_subscriber p = Some sid \<and> anchor \<le> up_time p) (nd_usage db)))"

definition quotaTargets :: "NoticeDB \<Rightarrow> string list" where
  "quotaTargets db =
     map fst (filter (\<lambda>(sid, c). cn_Status c = ''active'' \<and> cn_QuotaMode c \<noteq> ''unlimited'' \<and> 0 < cn_QuotaTotalBytes c
        \<and> cn_QuotaTotalBytes c * 9 \<le> 10 * usedSinceAnchor sid (cn_QuotaAnchor c) db) (nd_subs db))"

definition scanQuotaWarning :: "noticeEnv \<Rightarrow> NoticeDB \<Rightarrow> NoticeDB" where
  "scanQuotaWarning ne db =
     (if ne_down ne ''rule'' then db
      else case getNoticeRule ''quota_warning'' db of
        None \<Rightarrow> db
      | Some rule \<Rightarrow>
          if \<not> ru_Enabled rule \<or> ne_down ne ''scan'' then db
          else fold (\<lambda>sid. scanTarget ne ''quota_warning'' (sid, [])) (quotaTargets db) db)"

definition scannerTick :: "noticeEnv \<Rightarrow> NoticeDB \<Rightarrow> NoticeDB" where
  "scannerTick ne db = scanQuotaWarning ne (scanExpiryWindow ne ''expiry_notice'' (scanExpiryWindow ne ''renewal_reminder'' db))"

section \<open>Senders\<close>

text \<open>The request that a sender makes for a row, or the error before it.\<close>

definition telegramSend :: "noticeEnv \<Rightarrow> noticeRow \<Rightarrow> string + sendRequest" where
  "telegramSend ne row =
     (case ne_telegram ne of
        None \<Rightarrow> Inl ''telegram not configured''
      | Some cfg \<Rightarrow>
          if tg_BotToken cfg = '''' then Inl ''telegram not configured''
          else let chatID = (if nr_Address row = '''' then tg_ChatID cfg else nr_Address row)
               in if chatID = '''' then Inl ''telegram chat_id missing'' else Inr (TelegramPost (tg_BotToken cfg) chatID (nr_Body row)))"

definition emailSend :: "noticeEnv \<Rightarrow> noticeRow \<Rightarrow> string + sendRequest" where
  "emailSend ne row =
     (case ne_smtp ne of
        None \<Rightarrow> Inl ''smtp not configured''
      | Some cfg \<Rightarrow>
          if sm_Host cfg = '''' then Inl ''smtp not configured''
          else if nr_Address row = '''' then Inl ''recipient email missing''
          else Inr (SmtpMail (sm_Host cfg) (if sm_Port cfg = 0 then 587 else sm_Port cfg) (sm_Username cfg \<noteq> '''') (sm_From cfg) (nr_Address row)
                      (if nr_Subject row = '''' then ''[HikRAD] Notification'' else nr_Subject row) (nr_Body row)))"

definition resolveWhatsAppTemplate :: "(string \<Rightarrow> (string \<Rightarrow> string option) option) \<Rightarrow> string \<Rightarrow> string \<Rightarrow> string option" where
  "resolveWhatsAppTemplate cat key lang =
     (case cat key of
        None \<Rightarrow> None
      | Some byLang \<Rightarrow>
          (case byLang lang of
             Some name \<Rightarrow> if name \<noteq> '''' then Some name else (case byLang ''en'' of Some n \<Rightarrow> if n \<noteq> '''' then Some n else None | None \<Rightarrow> None)
           | None \<Rightarrow> (case byLang ''en'' of Some n \<Rightarrow> if n \<noteq> '''' then Some n else None | None \<Rightarrow> None)))"

definition whatsAppSend :: "noticeEnv \<Rightarrow> noticeRow \<Rightarrow> string + sendRequest" where
  "whatsAppSend ne row =
     (case ne_whatsapp ne of
        None \<Rightarrow> Inl ''whatsapp not configured''
      | Some cfg \<Rightarrow>
          if wa_Token cfg = '''' \<or> wa_PhoneID cfg = '''' then Inl ''whatsapp not configured''
          else if nr_Address row = '''' then Inl ''recipient phone missing''
          else case ne_waTemplates ne of
            None \<Rightarrow> Inl ''whatsapp template catalog not configured''
          | Some cat \<Rightarrow>
              (case resolveWhatsAppTemplate cat (nr_TemplateKey row) (nr_Locale row) of
                 None \<Rightarrow> Inl ''no approved whatsapp template''
               | Some name \<Rightarrow>
                   Inr (GraphPost (wa_PhoneID cfg) (wa_Token cfg) (nr_Address row) name (if nr_Locale row = '''' then ''en'' else nr_Locale row) (nr_Body row))))"

definition smsField :: "smsConfig \<Rightarrow> string \<Rightarrow> string" where
  "smsField cfg key = (case map_of (ss_ParamMap cfg) key of Some v \<Rightarrow> if v \<noteq> '''' then v else key | None \<Rightarrow> key)"

definition smsSend :: "noticeEnv \<Rightarrow> noticeRow \<Rightarrow> string + sendRequest" where
  "smsSend ne row =
     (case ne_sms ne of
        None \<Rightarrow> Inl ''sms gateway not configured''
      | Some cfg \<Rightarrow>
          if ss_URL cfg = '''' then Inl ''sms gateway not configured''
          else if nr_Address row = '''' then Inl ''recipient phone missing''
          else let values = Map.empty(smsField cfg ''to'' \<mapsto> nr_Address row, smsField cfg ''text'' \<mapsto> nr_Body row);
                   values' = (if ss_APIKey cfg \<noteq> '''' then values(smsField cfg ''key'' \<mapsto> ss_APIKey cfg) else values)
               in Inr (SmsCall (if ss_Method cfg = '''' then ''POST'' else toUpper (ss_Method cfg)) (ss_URL cfg) values'))"

definition inAppSend :: "noticeEnv \<Rightarrow> noticeRow \<Rightarrow> string + sendRequest" where
  "inAppSend ne row = (if ne_redis ne then Inr (InAppPublish (nr_Event row) (nr_Body row)) else Inl ''redis not available'')"

definition senderFor :: "string \<Rightarrow> (noticeEnv \<Rightarrow> noticeRow \<Rightarrow> string + sendRequest) option" where
  "senderFor ch =
     (if ch = ChannelInApp then Some inAppSend else if ch = ChannelTelegram then Some telegramSend else if ch = ChannelEmail then Some emailSend
      else if ch = ChannelWhatsApp then Some whatsAppSend else if ch = ChannelSMS then Some smsSend else None)"

text \<open>Whether the message arrived, and the error that the sender returns.\<close>

definition sendNotice :: "noticeEnv \<Rightarrow> (noticeEnv \<Rightarrow> noticeRow \<Rightarrow> string + sendRequest) \<Rightarrow> noticeRow \<Rightarrow> bool \<times> string option" where
  "sendNotice ne sender row = (case sender ne row of Inl e \<Rightarrow> (False, Some e) | Inr q \<Rightarrow> ne_exchange ne q)"

section \<open>The dispatcher\<close>

text \<open>One attempt: the queue, and the ids of the rows whose messages arrived.\<close>

definition attemptNotice :: "noticeEnv \<Rightarrow> noticeRow \<Rightarrow> NoticeDB \<times> string list \<Rightarrow> NoticeDB \<times> string list" where
  "attemptNotice ne row s =
     (case s of (db, arrived) \<Rightarrow>
        case senderFor (nr_Channel row) of
          None \<Rightarrow> (resolveFailedAttempt ne (nr_ID row) (nr_AttemptCount row) (''unknown channel: '' @ nr_Channel row) db, arrived)
        | Some sender \<Rightarrow>
            if nr_Address row = '''' \<and> nr_Channel row \<noteq> ChannelInApp then (resolveSkippedRow ne (nr_ID row) ''no_contact'' db, arrived)
            else case sendNotice ne sender row of
                   (got, err) \<Rightarrow>
                     (case err of
                        Some e \<Rightarrow> resolveFailedAttempt ne (nr_ID row) (nr_AttemptCount row) e db
                      | None \<Rightarrow> resolveSent ne (nr_ID row) db,
                      if got then arrived @ [nr_ID row] else arrived))"

definition dispatcherTick :: "noticeEnv \<Rightarrow> nat \<Rightarrow> NoticeDB \<times> string list \<Rightarrow> NoticeDB \<times> string list" where
  "dispatcherTick ne batchSize s =
     (let db1 = (if ne_down ne ''reclaim'' then fst s else reclaimStuckSending (ne_now ne) (fst s))
      in if ne_down ne ''claim'' then (db1, snd s)
         else case claimNotices (ne_now ne) batchSize db1 of (rows, db2) \<Rightarrow> fold (attemptNotice ne) rows (db2, snd s))"

end
