(* ===== verification/Notified.thy ===== *)
theory Notified
  imports Notify
begin

text \<open>
  What holds of notifications: messages do not depend on the order of their parameters, nobody is written to who opted out, the queue tells the truth about
  what arrived, and, with a driver that refuses an integer for text, no failed attempt is ever counted.
\<close>

section \<open>Rendering\<close>

lemma token_unique:
  assumes "isPrefix (token k) s" and "isPrefix (token k') s" and "CHR ''}'' \<notin> set k" and "CHR ''}'' \<notin> set k'"
  shows "k = k'"
proof -
  obtain r r' where r: "s = token k @ r" "s = token k' @ r'" using assms(1,2) unfolding isPrefix_def by (metis append_take_drop_id)
  have t: "takeWhile (\<lambda>c. c \<noteq> CHR ''}'') (j @ CHR ''}'' # w) = j" if "CHR ''}'' \<notin> set j" for j w using that by (induction j) auto
  have "k @ CHR ''}'' # ''}'' @ r = k' @ CHR ''}'' # ''}'' @ r'" using r by (simp add: token_def)
  then show ?thesis using t assms(3,4) by metis
qed

lemma find_token:
  assumes "list_all (\<lambda>(k, v). CHR ''}'' \<notin> set k) ps"
  shows "find (\<lambda>(k, v). isPrefix (token k) s) ps = Some (k, v) \<longleftrightarrow> isPrefix (token k) s \<and> map_of ps k = Some v"
  using assms
proof (induction ps)
  case (Cons p ps)
  obtain j w where p: "p = (j, w)" by fastforce
  have "j = k" if "isPrefix (token j) s" "isPrefix (token k) s" "map_of ps k = Some v"
    using that token_unique [OF that(1,2)] Cons.prems p map_of_SomeD [OF that(3)] by (auto simp: list_all_iff)
  then show ?case using Cons p by (auto split: if_splits)
qed simp

text \<open>
  A message is determined by its template and the values of its parameters. The parameters are a Go map, whose order is random; when no key contains a
  closing brace, any two orders render the same text.
\<close>

theorem render_any_order:
  assumes "map_of ps = map_of qs" and "list_all (\<lambda>(k, v). CHR ''}'' \<notin> set k) ps" and "list_all (\<lambda>(k, v). CHR ''}'' \<notin> set k) qs"
  shows "render ps s = render qs s"
proof (induction s rule: length_induct)
  case (1 s)
  show ?case
  proof (cases s)
    case (Cons c t)
    have "find (\<lambda>(k, v). isPrefix (token k) (c # t)) ps = find (\<lambda>(k, v). isPrefix (token k) (c # t)) qs"
      using find_token [OF assms(2), of "c # t"] find_token [OF assms(3), of "c # t"] assms(1) by (metis not_None_eq surj_pair)
    then show ?thesis using 1 Cons by (auto split: option.split)
  qed simp
qed

section \<open>Consent\<close>

text \<open>The subscriber wants messages on the channel, or the rule is one that ignores an opt-out. WhatsApp always needs consent.\<close>

definition consented :: "noticeEnv \<Rightarrow> string \<Rightarrow> string \<Rightarrow> bool \<Rightarrow> NoticeDB \<Rightarrow> bool" where
  "consented ne sid ch ignoring db =
     (case map_of (nd_subs db) sid of
        None \<Rightarrow> False
      | Some c \<Rightarrow> (if ch = ''whatsapp'' then cn_WhatsAppOptIn c else True)
          \<and> (if ch \<in> {''sms'', ''email''} then ignoring \<or> ne_down ne ''optIn'' \<or> map_of (nd_optIns db) (sid, ch) \<noteq> Some False else True))"

text \<open>A row that is not skipped is addressed to a subscriber who consented, at an address of his, and says truthfully whether an opt-out was ignored.\<close>

definition lawfulNotice :: "noticeEnv \<Rightarrow> bool \<Rightarrow> NoticeDB \<Rightarrow> noticeRow \<Rightarrow> bool" where
  "lawfulNotice ne ignoring db r \<longleftrightarrow> nr_IgnoreOptOut r = ignoring \<and> (nr_State r = ''skipped'' \<and> nr_SkipReason r \<noteq> ''''
     \<or> nr_State r = ''queued'' \<and> consented ne (nr_SubscriberID r) (nr_Channel r) ignoring db \<and> (nr_Channel r = ''inapp'' \<or> nr_Address r \<noteq> ''''))"

lemma resolveChannel_lawful:
  assumes "resolveSubscriberChannel ne c ch sid ignoring db = (address, skip)" and "map_of (nd_subs db) sid = Some c" and "skip = ''''"
  shows "consented ne sid ch ignoring db \<and> (ch = ''inapp'' \<or> address \<noteq> '''')"
  using assms by (auto simp: resolveSubscriberChannel_def consented_def channelOptedIn_def channel_defs split: if_splits option.splits)

lemma consented_same: "nd_subs db' = nd_subs db \<Longrightarrow> nd_optIns db' = nd_optIns db \<Longrightarrow> consented ne sid ch ignoring db' = consented ne sid ch ignoring db"
  by (simp only: consented_def)

text \<open>What enqueueing leaves of the tables: rows are appended, and nothing else changes but the next id.\<close>

definition appended :: "(noticeRow \<Rightarrow> bool) \<Rightarrow> NoticeDB \<Rightarrow> NoticeDB \<Rightarrow> bool" where
  "appended good db db' \<longleftrightarrow> (\<exists>rows. nd_outbox db' = nd_outbox db @ rows \<and> list_all good rows)
     \<and> nd_subs db' = nd_subs db \<and> nd_optIns db' = nd_optIns db \<and> nd_rules db' = nd_rules db \<and> nd_templates db' = nd_templates db"

lemma appended_refl: "appended good db db"
  by (simp add: appended_def)

lemma appended_trans: "appended good db db1 \<Longrightarrow> appended good db1 db2 \<Longrightarrow> appended good db db2"
  by (force simp: appended_def)

lemma insertNotice_appended:
  assumes "insertNotice ne x skip db = (r, db')"
    and "\<And>i. good (noticeOf (ne_now ne) i x (if skip = '''' then ''queued'' else ''skipped'') skip)"
  shows "appended good db db'"
  using assms by (auto simp: insertNotice_def appended_def Let_def split: if_splits)

lemma lawful_insert:
  assumes "insertNotice ne x skip' db = (r, db')" and "resolveSubscriberChannel ne c ch sid ignoring db = (address, skip)" and "map_of (nd_subs db) sid = Some c"
    and "skip' = '''' \<longrightarrow> skip = ''''" and "ni_IgnoreOptOut x = ignoring" and "ni_SubscriberID x = sid" and "ni_Channel x = ch" and "ni_Address x = address"
    and "nd_subs db0 = nd_subs db" and "nd_optIns db0 = nd_optIns db"
  shows "appended (lawfulNotice ne ignoring db0) db db'"
  using assms(1)
proof (rule insertNotice_appended)
  fix i show "lawfulNotice ne ignoring db0 (noticeOf (ne_now ne) i x (if skip' = '''' then ''queued'' else ''skipped'') skip')"
    using resolveChannel_lawful [OF assms(2,3)] assms(4-) consented_same [OF assms(9,10)] by (auto simp: lawfulNotice_def noticeOf_def)
qed

lemma enqueueChannels_lawful:
  assumes "map_of (nd_subs db) (ei_SubscriberID x) = Some c" and "nd_subs db0 = nd_subs db" and "nd_optIns db0 = nd_optIns db"
  shows "appended (lawfulNotice ne ignoring db0) db (snd (enqueueChannels ne x c ignoring tpl chs db))"
  using assms
proof (induction chs arbitrary: db)
  case (Cons ch chs)
  obtain address skip where a: "resolveSubscriberChannel ne c ch (ei_SubscriberID x) ignoring db = (address, skip)" by fastforce
  let ?skip = "if tpl = None \<and> skip = '''' then ''no_template'' else skip"
  obtain r db1 where i: "insertNotice ne (eventInsert x c ignoring tpl ch address) ?skip db = (r, db1)" by fastforce
  have l: "appended (lawfulNotice ne ignoring db0) db db1"
    by (rule lawful_insert [OF i a Cons.prems(1)]) (auto simp: eventInsert_def Let_def Cons.prems split: if_splits)
  then have s: "nd_subs db1 = nd_subs db" "nd_optIns db1 = nd_optIns db" by (simp_all add: appended_def)
  have "appended (lawfulNotice ne ignoring db0) db1 (snd (enqueueChannels ne x c ignoring tpl chs db1))"
    by (rule Cons.IH) (simp_all add: s Cons.prems)
  then show ?case using l i a appended_trans by (fastforce simp: Let_def split: option.split prod.split)
qed (simp add: appended_refl)

lemma broadcast_lawful:
  assumes "nd_subs db0 = nd_subs db" and "nd_optIns db0 = nd_optIns db"
  shows "appended (lawfulNotice ne False db0) db (snd (EnqueueBroadcast ne sids ch subject body db))"
  using assms
proof (induction sids arbitrary: db)
  case (Cons sid sids)
  show ?case
  proof (cases "loadSubscriberContact ne sid db")
    case None
    then show ?thesis using Cons by simp
  next
    case (Some c)
    obtain address skip where a: "resolveSubscriberChannel ne c ch sid False db = (address, skip)" by fastforce
    obtain r db1 where i: "insertNotice ne (broadcastInsert sid c ch subject body address) skip db = (r, db1)" by fastforce
    have m: "map_of (nd_subs db) sid = Some c" using Some by (simp add: loadSubscriberContact_def split: if_splits)
    have l: "appended (lawfulNotice ne False db0) db db1"
      by (rule lawful_insert [OF i a m]) (simp_all add: broadcastInsert_def Cons.prems)
    then have "appended (lawfulNotice ne False db0) db1 (snd (EnqueueBroadcast ne sids ch subject body db1))"
      by (intro Cons.IH) (simp_all add: appended_def Cons.prems)
    then show ?thesis using l i a Some appended_trans by (fastforce simp: Let_def split: option.split prod.split)
  qed
qed (simp add: appended_refl)

text \<open>
  C23: an opt-out is respected. Every row that an event or a broadcast puts into the queue is either skipped with a reason, or queued for a subscriber who
  consented to the channel, at an address that is not empty. Only a rule that says so, and never a broadcast, ignores an opt-out, the row records it, and
  WhatsApp needs consent even then. A query of the opt-out that fails counts as consent, as in the code.
\<close>

theorem opt_out_respected:
  "(case getNoticeRule (ei_EventKey x) db of
      None \<Rightarrow> nd_outbox (snd (EnqueueEvent ne x db)) = nd_outbox db
    | Some rule \<Rightarrow> \<exists>rows. nd_outbox (snd (EnqueueEvent ne x db)) = nd_outbox db @ rows \<and> list_all (lawfulNotice ne (ru_IgnoreOptOut rule) db) rows)
   \<and> (\<exists>rows. nd_outbox (snd (EnqueueBroadcast ne sids ch subject body db)) = nd_outbox db @ rows \<and> list_all (lawfulNotice ne False db) rows)"
proof
  show "case getNoticeRule (ei_EventKey x) db of
      None \<Rightarrow> nd_outbox (snd (EnqueueEvent ne x db)) = nd_outbox db
    | Some rule \<Rightarrow> \<exists>rows. nd_outbox (snd (EnqueueEvent ne x db)) = nd_outbox db @ rows \<and> list_all (lawfulNotice ne (ru_IgnoreOptOut rule) db) rows"
  proof (cases "getNoticeRule (ei_EventKey x) db")
    case (Some rule)
    have "appended (lawfulNotice ne (ru_IgnoreOptOut rule) db) db (snd (EnqueueEvent ne x db))"
      using Some enqueueChannels_lawful [where db = db and x = x and ne = ne]
      by (auto simp: EnqueueEvent_def appended_refl loadSubscriberContact_def split: option.split)
    then show ?thesis using Some by (simp add: appended_def)
  qed (simp add: EnqueueEvent_def)
  show "\<exists>rows. nd_outbox (snd (EnqueueBroadcast ne sids ch subject body db)) = nd_outbox db @ rows \<and> list_all (lawfulNotice ne False db) rows"
    using broadcast_lawful [of db db] by (simp add: appended_def)
qed

section \<open>One attempt on one row\<close>

text \<open>What an attempt makes of the row that was claimed.\<close>

definition noticeOutcome :: "noticeEnv \<Rightarrow> noticeRow \<Rightarrow> noticeRow \<Rightarrow> noticeRow" where
  "noticeOutcome ne row r =
     (let failed = (\<lambda>e. if maxNoticeAttempts \<le> nr_AttemptCount row + 1
                    then r\<lparr>nr_State := ''failed'', nr_AttemptCount := Suc (nr_AttemptCount r), nr_LastError := e\<rparr>
                    else r\<lparr>nr_State := ''queued'', nr_AttemptCount := Suc (nr_AttemptCount r), nr_LastError := e,
                           nr_NextAttemptAt := ne_now ne + backoffSeconds (nr_AttemptCount row + 1) * second\<rparr>)
      in case senderFor (nr_Channel row) of
           None \<Rightarrow> failed (''unknown channel: '' @ nr_Channel row)
         | Some sender \<Rightarrow>
             if nr_Address row = '''' \<and> nr_Channel row \<noteq> ChannelInApp then r\<lparr>nr_State := ''skipped'', nr_SkipReason := ''no_contact''\<rparr>
             else case snd (sendNotice ne sender row) of
                    Some e \<Rightarrow> failed e
                  | None \<Rightarrow> r\<lparr>nr_State := ''sent'', nr_SentAt := Some (ne_now ne), nr_AttemptCount := Suc (nr_AttemptCount r)\<rparr>)"

definition noticeArrives :: "noticeEnv \<Rightarrow> noticeRow \<Rightarrow> bool" where
  "noticeArrives ne row =
     (case senderFor (nr_Channel row) of
        None \<Rightarrow> False
      | Some sender \<Rightarrow> \<not> (nr_Address row = '''' \<and> nr_Channel row \<noteq> ChannelInApp) \<and> fst (sendNotice ne sender row))"

text \<open>An attempt fails; its requeue statement is refused by the driver.\<close>

definition attemptErrs :: "noticeEnv \<Rightarrow> noticeRow \<Rightarrow> bool" where
  "attemptErrs ne row =
     (case senderFor (nr_Channel row) of
        None \<Rightarrow> True
      | Some sender \<Rightarrow> \<not> (nr_Address row = '''' \<and> nr_Channel row \<noteq> ChannelInApp) \<and> snd (sendNotice ne sender row) \<noteq> None)"

definition requeueRefused :: "noticeEnv \<Rightarrow> noticeRow \<Rightarrow> bool" where
  "requeueRefused ne row \<longleftrightarrow> \<not> ne_intAsText ne \<and> attemptErrs ne row \<and> nr_AttemptCount row + 1 < maxNoticeAttempts"

lemma attemptNotice_outcome:
  "attemptNotice ne row (db, arrived) =
     (if requeueRefused ne row then db else resolveNotice ne (nr_ID row) (noticeOutcome ne row) db,
      if noticeArrives ne row then arrived @ [nr_ID row] else arrived)"
proof (cases "senderFor (nr_Channel row)")
  case (Some sender)
  obtain got err where "sendNotice ne sender row = (got, err)" by fastforce
  then show ?thesis using Some
    by (cases "nr_Address row = []"; cases "nr_Channel row = ChannelInApp"; cases err)
      (simp_all add: attemptNotice_def noticeOutcome_def [abs_def] noticeArrives_def resolveFailedAttempt_def resolveSkippedRow_def resolveSent_def Let_def
        requeueRefused_def attemptErrs_def)
qed (simp add: attemptNotice_def noticeOutcome_def [abs_def] noticeArrives_def resolveFailedAttempt_def requeueRefused_def attemptErrs_def Let_def)

text \<open>What every row looks like, whatever happened. The count is the one the row stores: attempts whose result was not written are not in it.\<close>

definition truthful :: "noticeRow \<Rightarrow> bool" where
  "truthful r \<longleftrightarrow> nr_State r \<in> {''queued'', ''sending'', ''sent'', ''failed'', ''skipped''}
     \<and> nr_AttemptCount r \<le> maxNoticeAttempts
     \<and> (if nr_State r \<in> {''queued'', ''sending''} then nr_AttemptCount r < maxNoticeAttempts else True)
     \<and> (if nr_State r = ''failed'' then nr_AttemptCount r = maxNoticeAttempts else True)
     \<and> (nr_State r = ''sent'' \<longleftrightarrow> nr_SentAt r \<noteq> None)
     \<and> (nr_State r = ''skipped'' \<longleftrightarrow> nr_SkipReason r \<noteq> '''')"

lemma truthful_outcome:
  assumes "truthful r" and "nr_State r = ''sending''" and "nr_AttemptCount row = nr_AttemptCount r"
  shows "truthful (noticeOutcome ne row r)"
  using assms by (auto simp: truthful_def noticeOutcome_def maxNoticeAttempts_def Let_def split: option.split)

lemma noticeOutcome_id [simp]: "nr_ID (noticeOutcome ne row r) = nr_ID r"
  by (simp add: noticeOutcome_def Let_def split: option.split)

lemma noticeOutcome_sent:
  assumes "nr_State r = ''sending''"
  shows "nr_State (noticeOutcome ne row r) = ''sent'' \<longleftrightarrow>
     (\<exists>sender. senderFor (nr_Channel row) = Some sender \<and> \<not> (nr_Address row = '''' \<and> nr_Channel row \<noteq> ChannelInApp) \<and> snd (sendNotice ne sender row) = None)"
  by (auto simp: noticeOutcome_def Let_def split: option.split)

section \<open>Runs of one dispatcher\<close>

text \<open>The tables, the rows of the batch that are still to be attempted, and the messages that arrived.\<close>

record dispatchState =
  ds_db :: NoticeDB
  ds_batch :: "noticeRow list"
  ds_arrived :: "string list"

text \<open>What changes the tables besides the dispatcher.\<close>

inductive noticeChange :: "NoticeDB \<Rightarrow> NoticeDB \<Rightarrow> bool" where
  event: "noticeChange db (snd (EnqueueEvent ne x db))"
| alert: "noticeChange db (snd (EnqueueAlert ne ruleID ruleType summary channels rc db))"
| broadcast: "noticeChange db (snd (handleBroadcast ne sids ch subject body db))"
| passcode: "noticeChange db (snd (EnqueuePasscode ne pin db))"
| scan: "noticeChange db (scannerTick ne db)"
| cancel: "noticeChange db (snd (handleCancelOutbox ne i db))"
| retry: "noticeChange db (snd (handleRetryOutbox ne i db))"
| rule: "noticeChange db (snd (handlePutRule ne eventKey u db))"
| templ: "noticeChange db (snd (handlePutTemplate ne eventKey locale subject body createdBy db))"

text \<open>
  A dispatcher reclaims and claims when its batch is done and attempts one row after the other; it can stop between two attempts, for a restart or at the
  end of the time of a tick. The predicate restricts the environments of the attempts. An honest one has services that tell the truth and writes every result
  that the driver takes.
\<close>

definition honest :: "noticeEnv \<Rightarrow> bool" where
  "honest ne \<longleftrightarrow> (\<forall>q. fst (ne_exchange ne q) \<longleftrightarrow> snd (ne_exchange ne q) = None) \<and> (\<forall>i. \<not> ne_resolveFails ne i)"

inductive noticeStep :: "(noticeEnv \<Rightarrow> bool) \<Rightarrow> dispatchState \<Rightarrow> dispatchState \<Rightarrow> bool" for ok where
  change: "noticeChange (ds_db s) db \<Longrightarrow> noticeStep ok s (s\<lparr>ds_db := db\<rparr>)"
| reclaim: "ds_batch s = [] \<Longrightarrow> noticeStep ok s (s\<lparr>ds_db := reclaimStuckSending now (ds_db s)\<rparr>)"
| claim: "ds_batch s = [] \<Longrightarrow> claimNotices now limit (ds_db s) = (rows, db) \<Longrightarrow> noticeStep ok s (s\<lparr>ds_db := db, ds_batch := rows\<rparr>)"
| attempt: "ds_batch s = row # rows \<Longrightarrow> ok ne \<Longrightarrow> attemptNotice ne row (ds_db s, ds_arrived s) = (db, arrived)
     \<Longrightarrow> noticeStep ok s (s\<lparr>ds_db := db, ds_batch := rows, ds_arrived := arrived\<rparr>)"
| stop: "noticeStep ok s (s\<lparr>ds_batch := []\<rparr>)"

text \<open>Ids are fresh and different, the rows of the batch are in the table as they were claimed, and every row is truthful.\<close>

definition queueInv :: "dispatchState \<Rightarrow> bool" where
  "queueInv s \<longleftrightarrow> distinct (map nr_ID (nd_outbox (ds_db s))) \<and> list_all (\<lambda>r. idBelow (nd_nextID (ds_db s)) (nr_ID r)) (nd_outbox (ds_db s))
     \<and> distinct (map nr_ID (ds_batch s)) \<and> list_all (\<lambda>r. r \<in> set (nd_outbox (ds_db s)) \<and> nr_State r = ''sending'') (ds_batch s)
     \<and> list_all truthful (nd_outbox (ds_db s))"

text \<open>The messages that arrived are those of the rows in the state sent, each once.\<close>

definition arrivedOnce :: "dispatchState \<Rightarrow> bool" where
  "arrivedOnce s \<longleftrightarrow> distinct (ds_arrived s) \<and> set (ds_arrived s) = nr_ID ` {r \<in> set (nd_outbox (ds_db s)). nr_State r = ''sent''}"

text \<open>No failed attempt is on record: no row failed, none keeps an error, and the count is one for a sent row and zero for the others.\<close>

definition uncounted :: "noticeRow \<Rightarrow> bool" where
  "uncounted r \<longleftrightarrow> nr_State r \<noteq> ''failed'' \<and> nr_LastError r = '''' \<and> nr_AttemptCount r = (if nr_State r = ''sent'' then 1 else 0)"

section \<open>Changes beside the dispatcher\<close>

text \<open>Rows that are being sent or were sent stay; other rows stay truthful and do not become sent; new rows have new ids.\<close>

definition keepsRow :: "noticeRow \<Rightarrow> noticeRow \<Rightarrow> bool" where
  "keepsRow r r' \<longleftrightarrow> nr_ID r' = nr_ID r \<and> (nr_State r \<in> {''sending'', ''sent''} \<longrightarrow> r' = r) \<and> (truthful r \<longrightarrow> truthful r')
     \<and> (uncounted r \<longrightarrow> uncounted r') \<and> (nr_State r' = ''sent'' \<longleftrightarrow> nr_State r = ''sent'') \<and> (nr_State r \<in> {''queued'', ''skipped''} \<longrightarrow> nr_State r' \<in> {''queued'', ''skipped''})"

lemma keepsRow_trans: "keepsRow r r1 \<Longrightarrow> keepsRow r1 r2 \<Longrightarrow> keepsRow r r2"
  unfolding keepsRow_def by (elim conjE, intro conjI impI) (metis | blast)+

definition keepsRows :: "(noticeRow \<Rightarrow> noticeRow) \<Rightarrow> bool" where
  "keepsRows f \<longleftrightarrow> (\<forall>r. keepsRow r (f r))"

definition newRows :: "nat \<Rightarrow> nat \<Rightarrow> noticeRow list \<Rightarrow> bool" where
  "newRows m n rows \<longleftrightarrow> m \<le> n \<and> distinct (map nr_ID rows)
     \<and> list_all (\<lambda>r. truthful r \<and> uncounted r \<and> nr_State r \<in> {''queued'', ''skipped''} \<and> (\<exists>k. m \<le> k \<and> k < n \<and> nr_ID r = formatUint k)) rows"

definition tableChange :: "NoticeDB \<Rightarrow> NoticeDB \<Rightarrow> bool" where
  "tableChange db db' \<longleftrightarrow> (\<exists>f rows. nd_outbox db' = map f (nd_outbox db) @ rows \<and> keepsRows f \<and> newRows (nd_nextID db) (nd_nextID db') rows)"

lemma keepsRows_id: "keepsRows id"
  by (simp add: keepsRows_def keepsRow_def)

lemma tableChange_same: "nd_outbox db' = nd_outbox db \<Longrightarrow> nd_nextID db' = nd_nextID db \<Longrightarrow> tableChange db db'"
  unfolding tableChange_def by (intro exI [of _ id] exI [of _ "[]"]) (simp add: keepsRows_id newRows_def)

lemma tableChange_map: "keepsRows f \<Longrightarrow> nd_outbox db' = map f (nd_outbox db) \<Longrightarrow> nd_nextID db' = nd_nextID db \<Longrightarrow> tableChange db db'"
  unfolding tableChange_def by (intro exI [of _ f] exI [of _ "[]"]) (simp add: newRows_def)

lemma newRows_map: "newRows m n rows \<Longrightarrow> keepsRows f \<Longrightarrow> newRows m n (map f rows)"
  by (simp add: newRows_def keepsRows_def keepsRow_def list_all_iff comp_def) blast

lemma newRows_append:
  assumes "newRows m n xs" and "newRows n p ys"
  shows "newRows m p (xs @ ys)"
proof -
  have "\<exists>k<n. nr_ID r = formatUint k" if "r \<in> set xs" for r using assms(1) that by (auto simp: newRows_def list_all_iff)
  moreover have "\<exists>k\<ge>n. nr_ID r = formatUint k" if "r \<in> set ys" for r using assms(2) that by (auto simp: newRows_def list_all_iff)
  ultimately have "nr_ID ` set xs \<inter> nr_ID ` set ys = {}" by (fastforce dest: formatUint_inj)
  moreover have "\<exists>k. m \<le> k \<and> k < p \<and> nr_ID r = formatUint k" if "r \<in> set (xs @ ys)" for r
    using that assms by (auto simp: newRows_def list_all_iff) (meson le_trans less_le_trans)+
  ultimately show ?thesis using assms by (auto simp: newRows_def list_all_iff)
qed

lemma tableChange_trans: "tableChange db db1 \<Longrightarrow> tableChange db1 db2 \<Longrightarrow> tableChange db db2"
proof -
  assume "tableChange db db1" "tableChange db1 db2"
  then obtain f g xs ys where r: "nd_outbox db1 = map f (nd_outbox db) @ xs" "keepsRows f" "newRows (nd_nextID db) (nd_nextID db1) xs"
    "nd_outbox db2 = map g (nd_outbox db1) @ ys" "keepsRows g" "newRows (nd_nextID db1) (nd_nextID db2) ys"
    unfolding tableChange_def by blast
  have "nd_outbox db2 = map (g \<circ> f) (nd_outbox db) @ map g xs @ ys" using r(1,4) by simp
  moreover have "keepsRows (g \<circ> f)" using r(2,5) keepsRow_trans unfolding keepsRows_def comp_def by blast
  moreover have "newRows (nd_nextID db) (nd_nextID db2) (map g xs @ ys)" by (rule newRows_append [OF newRows_map [OF r(3,5)] r(6)])
  ultimately show ?thesis unfolding tableChange_def by blast
qed

lemma insertNotice_change: "tableChange db (snd (insertNotice ne x skip db))"
proof (cases "fst (insertNotice ne x skip db)")
  case None
  then show ?thesis by (auto simp: insertNotice_def Let_def tableChange_same split: if_splits)
next
  case (Some i)
  let ?r = "noticeOf (ne_now ne) (formatUint (nd_nextID db)) x (if skip = '''' then ''queued'' else ''skipped'') skip"
  have "nd_outbox (snd (insertNotice ne x skip db)) = map id (nd_outbox db) @ [?r]" "nd_nextID (snd (insertNotice ne x skip db)) = Suc (nd_nextID db)"
    using Some by (auto simp: insertNotice_def Let_def split: if_splits)
  moreover have "newRows (nd_nextID db) (Suc (nd_nextID db)) [?r]" by (auto simp: newRows_def truthful_def uncounted_def noticeOf_def maxNoticeAttempts_def)
  ultimately show ?thesis unfolding tableChange_def using keepsRows_id by metis
qed

lemma tableChange_insert: "insertNotice ne x skip db = (r, db') \<Longrightarrow> tableChange db db'"
  using insertNotice_change by (metis snd_conv)

lemma tableChange_fold: "(\<And>x db. tableChange db (g x db)) \<Longrightarrow> tableChange db (fold g xs db)"
  by (induction xs arbitrary: db) (auto intro: tableChange_trans tableChange_same)

lemma enqueueChannels_change: "tableChange db (snd (enqueueChannels ne x c ignoring tpl chs db))"
proof (induction chs arbitrary: db)
  case (Cons ch chs)
  then show ?case using tableChange_insert tableChange_trans by (fastforce simp: Let_def split: prod.split option.split)
qed (simp add: tableChange_same)

lemma EnqueueEvent_change: "tableChange db (snd (EnqueueEvent ne x db))"
  by (simp add: EnqueueEvent_def tableChange_same enqueueChannels_change split: option.split)

lemma insertAlerts_change: "tableChange db (snd (insertAlerts ne xs mk db))"
proof (induction xs arbitrary: db)
  case (Cons x xs)
  then show ?case using tableChange_insert tableChange_trans by (cases x) (fastforce split: prod.split option.split)
qed (simp add: tableChange_same)

lemma EnqueueBroadcast_change: "tableChange db (snd (EnqueueBroadcast ne sids ch subject body db))"
proof (induction sids arbitrary: db)
  case (Cons sid sids)
  then show ?case using tableChange_insert tableChange_trans by (fastforce simp: Let_def split: prod.split option.split)
qed (simp add: tableChange_same)

lemma audit_change: "tableChange db db1 \<Longrightarrow> tableChange db (noticeAudit ne action i db1)"
  by (simp add: tableChange_def noticeAudit_def)

lemma scanTarget_change: "tableChange db (scanTarget ne eventKey t db)"
proof -
  obtain ok db1 where c: "claimDaily ne eventKey (fst t) db = (ok, db1)" by fastforce
  then have "tableChange db db1" by (auto simp: claimDaily_def setNX_def intro: tableChange_same split: if_splits option.splits)
  then show ?thesis using c EnqueueEvent_change tableChange_trans by (cases ok) (fastforce simp: scanTarget_def)+
qed

lemma scanner_change: "tableChange db (scannerTick ne db)"
proof -
  have "tableChange db (scanExpiryWindow ne eventKey db)" for eventKey db
    by (auto simp: scanExpiryWindow_def tableChange_same scanTarget_change intro!: tableChange_fold split: option.split)
  moreover have "tableChange db (scanQuotaWarning ne db)" for db
    by (auto simp: scanQuotaWarning_def tableChange_same scanTarget_change intro!: tableChange_fold split: option.split)
  ultimately show ?thesis unfolding scannerTick_def using tableChange_trans by blast
qed

lemma updateNotices_change:
  assumes "keepsRows (\<lambda>r. if p r then (f r)\<lparr>nr_UpdatedAt := now\<rparr> else r)"
  shows "tableChange db (updateNotices now p f db)"
  by (rule tableChange_map [OF assms]) (simp_all add: updateNotices_def)

lemma cancel_change: "tableChange db (snd (cancelNotice ne i db))"
proof -
  have "keepsRows (\<lambda>r. if nr_ID r = i \<and> nr_State r = ''queued'' then r\<lparr>nr_State := ''skipped'', nr_SkipReason := ''cancelled'', nr_UpdatedAt := now\<rparr> else r)" for now
    unfolding keepsRows_def keepsRow_def truthful_def uncounted_def by auto
  then show ?thesis by (simp add: cancelNotice_def tableChange_same updateNotices_change)
qed

lemma retry_change: "tableChange db (snd (retryNotice ne i db))"
proof -
  have "keepsRows (\<lambda>r. if nr_ID r = i \<and> nr_State r = ''failed''
      then r\<lparr>nr_State := ''queued'', nr_AttemptCount := 0, nr_LastError := '''', nr_NextAttemptAt := now, nr_SentAt := None, nr_UpdatedAt := now\<rparr> else r)" for now
    unfolding keepsRows_def keepsRow_def truthful_def uncounted_def maxNoticeAttempts_def by auto
  then show ?thesis by (simp add: retryNotice_def tableChange_same updateNotices_change)
qed

lemma snd_answer: "snd (case y of (None, d) \<Rightarrow> (a, d) | (Some i, d) \<Rightarrow> (b, d)) = snd y"
  by (simp split: prod.split option.split)

lemma noticeChange_table:
  assumes "noticeChange db db'"
  shows "tableChange db db'"
  using assms
proof cases
  case (broadcast ne sids ch subject body)
  then show ?thesis using EnqueueBroadcast_change [of db ne sids ch subject body]
    by (auto simp: handleBroadcast_def tableChange_same audit_change split: prod.splits bool.splits)
next
  case (passcode ne pin)
  then show ?thesis by (simp add: EnqueuePasscode_def Let_def snd_answer insertNotice_change tableChange_same split: option.split)
next
  case (cancel ne i)
  then show ?thesis using cancel_change [of db ne i] by (auto simp: handleCancelOutbox_def audit_change split: prod.splits option.splits)
next
  case (retry ne i)
  then show ?thesis using retry_change [of db ne i] by (auto simp: handleRetryOutbox_def audit_change split: prod.splits option.splits)
next
  case (rule ne eventKey u)
  then show ?thesis by (auto simp: handlePutRule_def updateNoticeRule_def tableChange_same audit_change split: option.splits if_splits)
next
  case (templ ne eventKey lang subject body createdBy)
  then show ?thesis by (auto simp: handlePutTemplate_def createTemplateVersion_def tableChange_same audit_change Let_def split: option.splits if_splits)
qed (simp_all add: EnqueueEvent_change EnqueueAlert_def insertAlerts_change scanner_change)

section \<open>The queue tells the truth\<close>

lemma queueInv_change:
  assumes "queueInv s" and "tableChange (ds_db s) db"
  shows "queueInv (s\<lparr>ds_db := db\<rparr>)"
proof -
  obtain f rows where c: "nd_outbox db = map f (nd_outbox (ds_db s)) @ rows" "keepsRows f" "newRows (nd_nextID (ds_db s)) (nd_nextID db) rows"
    using assms(2) by (auto simp: tableChange_def)
  have f: "nr_ID (f r) = nr_ID r" "nr_State r = ''sending'' \<Longrightarrow> f r = r" "truthful r \<Longrightarrow> truthful (f r)" for r
    using c(2) by (auto simp: keepsRows_def keepsRow_def)
  have ids: "map nr_ID (nd_outbox db) = map nr_ID (nd_outbox (ds_db s)) @ map nr_ID rows" using c(1) f(1) by (simp add: comp_def)
  have below: "idBelow (nd_nextID (ds_db s)) (nr_ID r)" if "r \<in> set (nd_outbox (ds_db s))" for r using assms(1) that by (auto simp: queueInv_def list_all_iff)
  have new: "\<exists>k. nd_nextID (ds_db s) \<le> k \<and> k < nd_nextID db \<and> nr_ID r = formatUint k" "truthful r" if "r \<in> set rows" for r
    using c(3) that by (auto simp: newRows_def list_all_iff)
  have "nr_ID ` set (nd_outbox (ds_db s)) \<inter> nr_ID ` set rows = {}"
    using below new(1) by (fastforce simp: idBelow_def dest: formatUint_inj)
  moreover have "distinct (map nr_ID rows)" "nd_nextID (ds_db s) \<le> nd_nextID db" using c(3) by (auto simp: newRows_def)
  ultimately have "distinct (map nr_ID (nd_outbox db))" using assms(1) unfolding ids by (simp add: queueInv_def)
  moreover have "idBelow (nd_nextID db) (nr_ID r)" if "r \<in> set (nd_outbox db)" for r
  proof -
    from that consider r0 where "r0 \<in> set (nd_outbox (ds_db s))" "r = f r0" | "r \<in> set rows" unfolding c(1) by auto
    then show ?thesis
    proof cases
      case 1
      then show ?thesis using below [of r0] f(1) \<open>nd_nextID (ds_db s) \<le> nd_nextID db\<close> unfolding idBelow_def by (auto intro: less_le_trans)
    next
      case 2
      then show ?thesis using new(1) unfolding idBelow_def by blast
    qed
  qed
  moreover have "truthful r" if "r \<in> set (nd_outbox db)" for r using that assms(1) new(2) f(3) unfolding c(1) by (auto simp: queueInv_def list_all_iff)
  moreover have "r \<in> set (nd_outbox db)" if "r \<in> set (ds_batch s)" for r
    using that assms(1) f(2) [of r] unfolding c(1) by (force simp: queueInv_def list_all_iff)
  ultimately show ?thesis using assms(1) by (simp add: queueInv_def list_all_iff)
qed

lemma queueInv_update:
  assumes "queueInv s" and "\<And>r. nr_ID (f r) = nr_ID r" and "\<And>r. p r \<Longrightarrow> truthful r \<Longrightarrow> truthful (f r)"
  shows "queueInv (s\<lparr>ds_db := updateNotices now p f (ds_db s), ds_batch := []\<rparr>)"
proof -
  have "truthful (r\<lparr>nr_UpdatedAt := now\<rparr>) = truthful r" for r by (simp add: truthful_def)
  then show ?thesis using assms by (auto simp: queueInv_def updateNotices_def list_all_iff comp_def if_distrib [of nr_ID] cong: if_cong)
qed

lemma queueInv_ids:
  assumes "queueInv s" and "map nr_ID (nd_outbox db) = map nr_ID (nd_outbox (ds_db s))" and "nd_nextID db = nd_nextID (ds_db s)"
  shows "distinct (map nr_ID (nd_outbox db)) \<and> list_all (\<lambda>r. idBelow (nd_nextID db) (nr_ID r)) (nd_outbox db)"
proof -
  have "list_all (idBelow (nd_nextID db)) (map nr_ID (nd_outbox db))" using assms(1) unfolding assms(2,3) by (simp add: queueInv_def list_all_iff)
  moreover have "distinct (map nr_ID (nd_outbox db))" using assms(1) unfolding assms(2) by (simp add: queueInv_def)
  ultimately show ?thesis by (simp add: list_all_iff)
qed

lemma queueInv_claim:
  assumes "queueInv s" and "claimNotices now limit (ds_db s) = (rows, db)"
  shows "queueInv (s\<lparr>ds_db := db, ds_batch := rows\<rparr>)"
proof -
  let ?ids = "nr_ID ` set (dueNotices now limit (ds_db s))" and ?f = "\<lambda>r :: noticeRow. r\<lparr>nr_State := ''sending''\<rparr>"
  have db: "db = updateNotices now (\<lambda>r. nr_ID r \<in> ?ids) ?f (ds_db s)" "rows = filter (\<lambda>r. nr_ID r \<in> ?ids) (nd_outbox db)"
    using assms(2) by (auto simp: claimNotices_def Let_def)
  have due: "nr_State r = ''queued''" if "r \<in> set (nd_outbox (ds_db s))" "nr_ID r \<in> ?ids" for r
  proof -
    note w = that
    obtain d where "d \<in> set (dueNotices now limit (ds_db s))" "nr_ID d = nr_ID r" using w(2) by auto
    moreover have "d \<in> set (nd_outbox (ds_db s)) \<and> nr_State d = ''queued''" using calculation(1) by (auto simp: dueNotices_def dest: in_set_takeD)
    ultimately show ?thesis using assms(1) w(1) by (auto simp: queueInv_def distinct_map dest: inj_onD)
  qed
  have f: "truthful (r\<lparr>nr_State := ''sending'', nr_UpdatedAt := now\<rparr>)" if "truthful r" "nr_State r = ''queued''" for r using that by (simp add: truthful_def)
  have t: "truthful r" if "r \<in> set (nd_outbox db)" for r
  proof -
    from that obtain r0 where r0: "r0 \<in> set (nd_outbox (ds_db s))" "r = (if nr_ID r0 \<in> ?ids then (?f r0)\<lparr>nr_UpdatedAt := now\<rparr> else r0)"
      unfolding db(1) updateNotices_def by auto
    moreover have "truthful r0" using assms(1) r0(1) by (simp add: queueInv_def list_all_iff)
    ultimately show ?thesis using f [of r0] due [of r0] by simp
  qed
  have ids: "map nr_ID (nd_outbox db) = map nr_ID (nd_outbox (ds_db s))" "nd_nextID db = nd_nextID (ds_db s)" by (simp_all add: db(1) updateNotices_def)
  have "distinct (map nr_ID rows)" using assms(1) unfolding db(2) by (simp add: queueInv_def ids(1) distinct_map_filter)
  moreover have "list_all (\<lambda>r. r \<in> set (nd_outbox db) \<and> nr_State r = ''sending'') rows" unfolding list_all_iff by (auto simp: db updateNotices_def)
  moreover have "list_all truthful (nd_outbox db)" unfolding list_all_iff using t by blast
  ultimately show ?thesis using queueInv_ids [OF assms(1) ids] by (simp add: queueInv_def)
qed

lemma queueInv_attempt:
  assumes "queueInv s" and "ds_batch s = row # rows" and "attemptNotice ne row (ds_db s, ds_arrived s) = (db, arrived)"
  shows "queueInv (s\<lparr>ds_db := db, ds_batch := rows, ds_arrived := arrived\<rparr>)"
proof (cases "ne_resolveFails ne (nr_ID row) \<or> requeueRefused ne row")
  case True
  then show ?thesis using assms by (auto simp: attemptNotice_outcome resolveNotice_def queueInv_def)
next
  case False
  let ?f = "\<lambda>r. if nr_ID r = nr_ID row then (noticeOutcome ne row r)\<lparr>nr_UpdatedAt := ne_now ne\<rparr> else r"
  have db: "nd_outbox db = map ?f (nd_outbox (ds_db s))" "nd_nextID db = nd_nextID (ds_db s)"
    using assms(3) False by (auto simp: attemptNotice_outcome resolveNotice_def updateNotices_def)
  have row: "r = row" if "r \<in> set (nd_outbox (ds_db s))" "nr_ID r = nr_ID row" for r
    using that assms(1,2) by (auto simp: queueInv_def distinct_map dest: inj_onD)
  have "truthful (r\<lparr>nr_UpdatedAt := now\<rparr>) = truthful r" for r now by (simp add: truthful_def)
  moreover have "truthful row" "nr_State row = ''sending''" using assms(1,2) by (auto simp: queueInv_def list_all_iff)
  ultimately have t: "truthful (?f r)" if "r \<in> set (nd_outbox (ds_db s))" for r
    using that row [of r] truthful_outcome [of row row ne] assms(1) by (auto simp: queueInv_def list_all_iff)
  have ids: "map nr_ID (nd_outbox db) = map nr_ID (nd_outbox (ds_db s))" unfolding db(1) by simp
  have "nr_ID row \<notin> nr_ID ` set rows" using assms(1,2) by (simp add: queueInv_def)
  then have "nr_ID r \<noteq> nr_ID row" if "r \<in> set rows" for r using that by (metis imageI)
  then have fx: "?f r = r" if "r \<in> set rows" for r using that by simp
  have old: "r \<in> set (nd_outbox (ds_db s))" if "r \<in> set rows" for r using that assms(1,2) by (simp add: queueInv_def list_all_iff)
  have "r \<in> set (nd_outbox db)" if "r \<in> set rows" for r unfolding db(1) set_map using fx [OF that] old [OF that]
    by (intro image_eqI [where x = r]) simp_all
  then have "list_all (\<lambda>r. r \<in> set (nd_outbox db) \<and> nr_State r = ''sending'') rows" using assms(1,2) by (simp add: queueInv_def list_all_iff)
  moreover have "list_all truthful (nd_outbox db)" unfolding db(1) list_all_iff set_map using t by blast
  moreover have "distinct (map nr_ID rows)" using assms(1,2) by (simp add: queueInv_def)
  ultimately show ?thesis using queueInv_ids [OF assms(1) ids db(2)] by (simp add: queueInv_def)
qed

interpretation dispatching: kept "noticeStep ok" queueInv
proof
  fix s s' assume "noticeStep ok s s'" and q: "queueInv s"
  then show "queueInv s'"
  proof cases
    case (change db)
    then show ?thesis using queueInv_change [OF q] noticeChange_table by blast
  next
    case (reclaim now)
    have "queueInv (s\<lparr>ds_db := reclaimStuckSending now (ds_db s), ds_batch := []\<rparr>)" unfolding reclaimStuckSending_def
      by (rule queueInv_update [OF q]) (auto simp: truthful_def)
    moreover have "s\<lparr>ds_batch := []\<rparr> = s" using reclaim(2) by simp
    ultimately show ?thesis using reclaim(1) by (metis dispatchState.update_convs(1) dispatchState.surjective dispatchState.update_convs(2))
  next
    case (claim now limit rows db)
    then show ?thesis using queueInv_claim [OF q] by simp
  next
    case (attempt row rows ne db arrived)
    then show ?thesis using queueInv_attempt [OF q] by simp
  next
    case stop
    then show ?thesis using q by (simp add: queueInv_def)
  qed
qed

text \<open>The ids of the rows in the state sent.\<close>

definition sentIDs :: "NoticeDB \<Rightarrow> string set" where
  "sentIDs db = nr_ID ` {r \<in> set (nd_outbox db). nr_State r = ''sent''}"

lemma sentIDs_map:
  assumes "nd_outbox db' = map f (nd_outbox db) @ rows" and "list_all (\<lambda>r. nr_State r \<noteq> ''sent'') rows"
    and "\<And>r. r \<in> set (nd_outbox db) \<Longrightarrow> nr_ID (f r) = nr_ID r \<and> (nr_State (f r) = ''sent'' \<longleftrightarrow> nr_State r = ''sent'')"
  shows "sentIDs db' = sentIDs db"
proof -
  have "{r \<in> set (nd_outbox db'). nr_State r = ''sent''} = f ` {r \<in> set (nd_outbox db). nr_State r = ''sent''}"
    using assms by (auto simp: list_all_iff)
  moreover have "nr_ID ` f ` {r \<in> set (nd_outbox db). nr_State r = ''sent''} = nr_ID ` {r \<in> set (nd_outbox db). nr_State r = ''sent''}"
    using assms(3) by (auto simp: image_image intro!: image_cong)
  ultimately show ?thesis by (simp add: sentIDs_def)
qed

lemma sentIDs_update:
  assumes "\<And>r. r \<in> set (nd_outbox db) \<Longrightarrow> p r \<Longrightarrow> nr_ID (f r) = nr_ID r \<and> nr_State r \<noteq> ''sent'' \<and> nr_State (f r) \<noteq> ''sent''"
  shows "sentIDs (updateNotices now p f db) = sentIDs db"
  using assms by (intro sentIDs_map [where f = "\<lambda>r. if p r then (f r)\<lparr>nr_UpdatedAt := now\<rparr> else r" and rows = "[]"]) (auto simp: updateNotices_def)

lemma sentIDs_after:
  assumes "\<And>r. nr_ID (f r) = nr_ID r"
  shows "sentIDs (updateNotices now p f db) = nr_ID ` {r \<in> set (nd_outbox db). nr_State (if p r then f r else r) = ''sent''}"
proof -
  let ?g = "\<lambda>r. if p r then (f r)\<lparr>nr_UpdatedAt := now\<rparr> else r"
  have "{r \<in> set (nd_outbox (updateNotices now p f db)). nr_State r = ''sent''} = ?g ` {r \<in> set (nd_outbox db). nr_State (if p r then f r else r) = ''sent''}"
    by (auto simp: updateNotices_def split: if_splits)
  then show ?thesis unfolding sentIDs_def by (simp only: image_image) (rule image_cong, simp_all add: assms)
qed

lemma sentIDs_change:
  assumes "tableChange db db'"
  shows "sentIDs db' = sentIDs db"
proof -
  obtain f rows where c: "nd_outbox db' = map f (nd_outbox db) @ rows" "keepsRows f" "newRows (nd_nextID db) (nd_nextID db') rows"
    using assms by (auto simp: tableChange_def)
  show ?thesis
  proof (rule sentIDs_map [OF c(1)])
    show "list_all (\<lambda>r. nr_State r \<noteq> ''sent'') rows" using c(3) by (auto simp: newRows_def list_all_iff)
    show "nr_ID (f r) = nr_ID r \<and> (nr_State (f r) = ''sent'' \<longleftrightarrow> nr_State r = ''sent'')" for r using c(2) by (simp add: keepsRows_def keepsRow_def)
  qed
qed

lemma queue_row:
  assumes "queueInv s" and "r \<in> set (nd_outbox (ds_db s))" and "r' \<in> set (nd_outbox (ds_db s))" and "nr_ID r = nr_ID r'"
  shows "r = r'"
  using assms by (auto simp: queueInv_def distinct_map dest: inj_onD)

lemma due_queued:
  assumes "queueInv s" and "r \<in> set (nd_outbox (ds_db s))" and "nr_ID r \<in> nr_ID ` set (dueNotices now limit (ds_db s))"
  shows "nr_State r = ''queued''"
proof -
  obtain d where "d \<in> set (dueNotices now limit (ds_db s))" "nr_ID r = nr_ID d" using assms(3) by auto
  moreover have "d \<in> set (nd_outbox (ds_db s)) \<and> nr_State d = ''queued''" using calculation(1) by (auto simp: dueNotices_def dest: in_set_takeD)
  ultimately show ?thesis using queue_row [OF assms(1,2)] by auto
qed

lemma sentIDs_claim:
  assumes "queueInv s" and "claimNotices now limit (ds_db s) = (rows, db)"
  shows "sentIDs db = sentIDs (ds_db s)"
  using assms(2) due_queued [OF assms(1), of _ now limit] by (auto simp: claimNotices_def Let_def intro!: sentIDs_update)

lemma arrivedOnce_alt: "arrivedOnce s \<longleftrightarrow> distinct (ds_arrived s) \<and> set (ds_arrived s) = sentIDs (ds_db s)"
  by (simp add: arrivedOnce_def sentIDs_def)

lemma honest_sent: "honest ne \<Longrightarrow> nr_State row = ''sending'' \<Longrightarrow> noticeArrives ne row \<longleftrightarrow> nr_State (noticeOutcome ne row row) = ''sent''"
  by (auto simp: noticeOutcome_sent noticeArrives_def honest_def sendNotice_def split: option.split sum.split)

lemma honest_delivers: "honest ne \<Longrightarrow> noticeArrives ne row \<Longrightarrow> \<not> attemptErrs ne row"
  by (auto simp: noticeArrives_def attemptErrs_def honest_def sendNotice_def split: option.splits sum.splits)

lemma arrivedOnce_attempt:
  assumes "queueInv s" and "arrivedOnce s" and "ds_batch s = row # rows" and "attemptNotice ne row (ds_db s, ds_arrived s) = (db, arrived)" and "honest ne"
  shows "distinct arrived \<and> set arrived = sentIDs db"
proof -
  let ?f = "\<lambda>r. if nr_ID r = nr_ID row then (noticeOutcome ne row r)\<lparr>nr_UpdatedAt := ne_now ne\<rparr> else r"
  have row: "row \<in> set (nd_outbox (ds_db s))" "nr_State row = ''sending''" using assms(1,3) by (auto simp: queueInv_def)
  have only: "r = row" if "r \<in> set (nd_outbox (ds_db s))" "nr_ID r = nr_ID row" for r using queue_row [OF assms(1) that(1) row(1) that(2)] .
  have db: "db = (if requeueRefused ne row then ds_db s else updateNotices (ne_now ne) (\<lambda>r. nr_ID r = nr_ID row) (noticeOutcome ne row) (ds_db s))"
    and a: "arrived = (if noticeArrives ne row then ds_arrived s @ [nr_ID row] else ds_arrived s)"
    using assms(4,5) by (auto simp: attemptNotice_outcome resolveNotice_def honest_def)
  have old: "nr_ID row \<notin> sentIDs (ds_db s)" using only row(2) by (auto simp: sentIDs_def)
  show ?thesis
  proof (cases "noticeArrives ne row")
    case True
    then have "nr_State (noticeOutcome ne row row) = ''sent''" using honest_sent [OF assms(5) row(2)] by blast
    moreover have w: "db = updateNotices (ne_now ne) (\<lambda>r. nr_ID r = nr_ID row) (noticeOutcome ne row) (ds_db s)"
      using True assms(5) honest_delivers db by (auto simp: requeueRefused_def)
    ultimately have "{r \<in> set (nd_outbox (ds_db s)). nr_State (if nr_ID r = nr_ID row then noticeOutcome ne row r else r) = ''sent''}
        = insert row {r \<in> set (nd_outbox (ds_db s)). nr_State r = ''sent''}"
      using only row by (auto split: if_splits)
    then have "sentIDs db = insert (nr_ID row) (sentIDs (ds_db s))" unfolding w sentIDs_after [OF noticeOutcome_id] by (simp only: sentIDs_def image_insert)
    then show ?thesis using a True old assms(2) by (auto simp: arrivedOnce_alt)
  next
    case False
    then have "nr_State (noticeOutcome ne row row) \<noteq> ''sent''" using honest_sent [OF assms(5) row(2)] by blast
    then have "sentIDs (updateNotices (ne_now ne) (\<lambda>r. nr_ID r = nr_ID row) (noticeOutcome ne row) (ds_db s)) = sentIDs (ds_db s)"
      using only row(2) by (intro sentIDs_update) (drule only, simp_all)
    then have "sentIDs db = sentIDs (ds_db s)" unfolding db by simp
    then show ?thesis using a False assms(2) by (auto simp: arrivedOnce_alt)
  qed
qed

interpretation truthfulQueue: kept "noticeStep honest" "\<lambda>s. queueInv s \<and> arrivedOnce s"
proof
  fix s s' assume st: "noticeStep honest s s'" and q: "queueInv s \<and> arrivedOnce s"
  have "arrivedOnce s'" using st
  proof cases
    case (change db)
    then show ?thesis using q sentIDs_change [OF noticeChange_table] by (simp add: arrivedOnce_alt)
  next
    case (reclaim now)
    have "sentIDs (reclaimStuckSending now (ds_db s)) = sentIDs (ds_db s)" unfolding reclaimStuckSending_def by (rule sentIDs_update) simp
    then show ?thesis using q reclaim(1) by (simp add: arrivedOnce_alt)
  next
    case (claim now limit rows db)
    then show ?thesis using q sentIDs_claim [of s now limit rows db] by (simp add: arrivedOnce_alt)
  next
    case (attempt row rows ne db arrived)
    then show ?thesis using q arrivedOnce_attempt [of s row rows ne db arrived] by (simp add: arrivedOnce_alt)
  next
    case stop
    then show ?thesis using q by (simp add: arrivedOnce_alt)
  qed
  then show "queueInv s' \<and> arrivedOnce s'" using dispatching.keeps [OF st] q by blast
qed

text \<open>
  C22: the queue tells the truth. In every run of one dispatcher with any enqueueing, scanning and panel requests in between, whatever fails, every
  row is in one of the five states; it is in the state sent exactly when it has a sending time, and skipped exactly when it has a reason; and the count it
  stores fits its state: below five while it waits or is being sent, five when it failed. (The stored count is not the number of attempts: a retry from the panel
  sets it back, and an attempt whose result is not written is not counted.) When the services answer truthfully and no statement for a result fails but
  by the driver's refusal, a row is in the state sent exactly when its message arrived, and no message arrives twice.
\<close>

theorem outbox_truthful:
  assumes "nd_outbox (ds_db s) = []" and "ds_batch s = []" and "ds_arrived s = []"
  shows "((noticeStep (\<lambda>_. True))\<^sup>*\<^sup>* s s' \<longrightarrow> list_all truthful (nd_outbox (ds_db s')))
     \<and> ((noticeStep honest)\<^sup>*\<^sup>* s s' \<longrightarrow> distinct (ds_arrived s')
        \<and> list_all (\<lambda>r. nr_State r = ''sent'' \<longleftrightarrow> nr_ID r \<in> set (ds_arrived s')) (nd_outbox (ds_db s')))"
proof (intro conjI impI)
  have q: "queueInv s" "arrivedOnce s" using assms by (simp_all add: queueInv_def arrivedOnce_def)
  show "list_all truthful (nd_outbox (ds_db s'))" if "(noticeStep (\<lambda>_. True))\<^sup>*\<^sup>* s s'"
    using dispatching.run_keeps [OF that q(1)] by (simp add: queueInv_def)
  assume "(noticeStep honest)\<^sup>*\<^sup>* s s'"
  then have i: "queueInv s'" "arrivedOnce s'" using truthfulQueue.run_keeps [of s s'] q by simp_all
  then show "distinct (ds_arrived s')" by (simp add: arrivedOnce_alt)
  have "nr_State r = ''sent'' \<longleftrightarrow> nr_ID r \<in> sentIDs (ds_db s')" if "r \<in> set (nd_outbox (ds_db s'))" for r
    using queue_row [OF i(1) that] that by (auto simp: sentIDs_def)
  then show "list_all (\<lambda>r. nr_State r = ''sent'' \<longleftrightarrow> nr_ID r \<in> set (ds_arrived s')) (nd_outbox (ds_db s'))"
    using i(2) by (simp add: arrivedOnce_alt list_all_iff)
qed

section \<open>Failed attempts\<close>







section \<open>Lost results\<close>

lemma updateNotices_none: "list_all (\<lambda>r. \<not> p r) (nd_outbox db) \<Longrightarrow> updateNotices now p f db = db"
proof -
  assume "list_all (\<lambda>r. \<not> p r) (nd_outbox db)"
  then have "map (\<lambda>r. if p r then (f r)\<lparr>nr_UpdatedAt := now\<rparr> else r) (nd_outbox db) = nd_outbox db" by (intro map_idI) (auto simp: list_all_iff)
  then show ?thesis by (simp add: updateNotices_def)
qed

lemma tick_one:
  assumes "nd_outbox db = [r]" and "nr_State r = ''queued''" and "nr_NextAttemptAt r \<le> ne_now ne" and "\<not> ne_down ne ''claim''"
  shows "dispatcherTick ne (Suc limit) (db, arrived) =
     attemptNotice ne (r\<lparr>nr_State := ''sending'', nr_UpdatedAt := ne_now ne\<rparr>)
       (db\<lparr>nd_outbox := [r\<lparr>nr_State := ''sending'', nr_UpdatedAt := ne_now ne\<rparr>]\<rparr>, arrived)"
proof -
  have "reclaimStuckSending (ne_now ne) db = db" unfolding reclaimStuckSending_def by (rule updateNotices_none) (simp add: assms)
  then show ?thesis using assms by (simp add: dispatcherTick_def claimNotices_def dueNotices_def updateNotices_def Let_def)
qed

lemma tick_stuck:
  assumes "nd_outbox db = [r]" and "nr_State r = ''sending''" and "nr_UpdatedAt r < ne_now ne - 30 * second" and "\<not> ne_down ne ''claim''" and "\<not> ne_down ne ''reclaim''"
  shows "dispatcherTick ne (Suc limit) (db, arrived) =
     attemptNotice ne (r\<lparr>nr_NextAttemptAt := ne_now ne, nr_State := ''sending'', nr_UpdatedAt := ne_now ne\<rparr>)
       (db\<lparr>nd_outbox := [r\<lparr>nr_NextAttemptAt := ne_now ne, nr_State := ''sending'', nr_UpdatedAt := ne_now ne\<rparr>]\<rparr>, arrived)"
proof -
  have "reclaimStuckSending (ne_now ne) db = db\<lparr>nd_outbox := [r\<lparr>nr_State := ''queued'', nr_NextAttemptAt := ne_now ne, nr_UpdatedAt := ne_now ne\<rparr>]\<rparr>"
    using assms(1-3) by (simp add: reclaimStuckSending_def updateNotices_def stuckSendingAfter_def)
  then show ?thesis using assms(4,5) by (simp add: dispatcherTick_def claimNotices_def dueNotices_def updateNotices_def Let_def)
qed

text \<open>
  A lost result repeats the message. When a message arrives and writing the result fails, the row is reclaimed half a minute later and sent again,
  and the attempt is not counted: the limit of five attempts does not bound how often a message arrives.
\<close>

theorem lost_result_sends_again:
  assumes "nd_outbox db = [r]" and "nr_State r = ''queued''" and "nr_NextAttemptAt r \<le> ne_now ne" and "nr_Channel r = ''inapp''"
    and "\<not> ne_down ne ''claim''" and "ne_redis ne" and "fst (ne_exchange ne (InAppPublish (nr_Event r) (nr_Body r)))" and "ne_resolveFails ne (nr_ID r)"
    and "\<not> ne_down later ''claim''" and "\<not> ne_down later ''reclaim''" and "ne_now ne + 30 * second < ne_now later" and "ne_redis later"
    and "fst (ne_exchange later (InAppPublish (nr_Event r) (nr_Body r)))" and "ne_resolveFails later (nr_ID r)"
  shows "dispatcherTick later (Suc limit) (dispatcherTick ne (Suc limit) (db, [])) =
     (db\<lparr>nd_outbox := [r\<lparr>nr_NextAttemptAt := ne_now later, nr_State := ''sending'', nr_UpdatedAt := ne_now later\<rparr>]\<rparr>, [nr_ID r, nr_ID r])"
proof -
  have a: "attemptNotice e x (d, arr) = (d, arr @ [nr_ID r])"
    if "nr_Channel x = ''inapp''" "nr_ID x = nr_ID r" "nr_Event x = nr_Event r" "nr_Body x = nr_Body r" "ne_redis e"
      "fst (ne_exchange e (InAppPublish (nr_Event r) (nr_Body r)))" "ne_resolveFails e (nr_ID r)" for e x d arr
    using that by (simp add: attemptNotice_outcome resolveNotice_def noticeArrives_def senderFor_def channel_defs sendNotice_def inAppSend_def)
  let ?r = "r\<lparr>nr_State := ''sending'', nr_UpdatedAt := ne_now ne\<rparr>"
  have "dispatcherTick ne (Suc limit) (db, []) = (db\<lparr>nd_outbox := [?r]\<rparr>, [nr_ID r])"
    unfolding tick_one [OF assms(1,2,3,5)] using assms(4,6,7,8) a by simp
  moreover have "dispatcherTick later (Suc limit) (db\<lparr>nd_outbox := [?r]\<rparr>, [nr_ID r]) =
      (db\<lparr>nd_outbox := [r\<lparr>nr_NextAttemptAt := ne_now later, nr_State := ''sending'', nr_UpdatedAt := ne_now later\<rparr>]\<rparr>, [nr_ID r, nr_ID r])"
    using tick_stuck [of "db\<lparr>nd_outbox := [?r]\<rparr>" ?r later limit "[nr_ID r]"] assms(4,9-14) a by simp
  ultimately show ?thesis by simp
qed

text \<open>
  A failing message is retried for ever. When each attempt of the only row fails and the driver refuses the requeue, ticks that are more than
  half a minute apart leave the row being sent and uncounted after any number of them, and a service that delivers but answers an error delivers once per tick.
\<close>

fun gaps :: "gotime \<Rightarrow> noticeEnv list \<Rightarrow> bool" where
  "gaps t [] \<longleftrightarrow> True"
| "gaps t (ne # nes) \<longleftrightarrow> t + 30 * second < ne_now ne \<and> gaps (ne_now ne) nes"

lemma same_request:
  assumes "nr_Channel x = nr_Channel r" "nr_Address x = nr_Address r" "nr_Subject x = nr_Subject r" "nr_Body x = nr_Body r" "nr_Event x = nr_Event r"
    "nr_Locale x = nr_Locale r" "nr_TemplateKey x = nr_TemplateKey r" "nr_AttemptCount x = nr_AttemptCount r"
  shows "noticeArrives ne x = noticeArrives ne r" "requeueRefused ne x = requeueRefused ne r"
proof -
  have "sender ne x = sender ne r" if "senderFor (nr_Channel r) = Some sender" for sender
  proof -
    have "inAppSend ne x = inAppSend ne r" "telegramSend ne x = telegramSend ne r" "emailSend ne x = emailSend ne r"
      "whatsAppSend ne x = whatsAppSend ne r" "smsSend ne x = smsSend ne r"
      by (simp_all only: inAppSend_def telegramSend_def emailSend_def whatsAppSend_def smsSend_def assms)
    then show ?thesis using that by (auto simp: senderFor_def split: if_splits)
  qed
  then show "noticeArrives ne x = noticeArrives ne r" "requeueRefused ne x = requeueRefused ne r"
    using assms by (cases "senderFor (nr_Channel r)"; simp add: noticeArrives_def requeueRefused_def attemptErrs_def sendNotice_def)+
qed

theorem failing_notice_repeats:
  assumes "nd_outbox db = [r]" and "nr_State r = ''sending''" and "gaps (nr_UpdatedAt r) nes"
    and "list_all (\<lambda>ne. \<not> ne_down ne ''claim'' \<and> \<not> ne_down ne ''reclaim'' \<and> requeueRefused ne r) nes"
  shows "\<exists>due upd. fold (\<lambda>ne. dispatcherTick ne (Suc limit)) nes (db, arrived) =
     (db\<lparr>nd_outbox := [r\<lparr>nr_NextAttemptAt := due, nr_UpdatedAt := upd\<rparr>]\<rparr>,
      arrived @ replicate (length (filter (\<lambda>ne. noticeArrives ne r) nes)) (nr_ID r))"
  using assms
proof (induction nes arbitrary: db r arrived)
  case Nil
  have "db\<lparr>nd_outbox := [r\<lparr>nr_NextAttemptAt := nr_NextAttemptAt r, nr_UpdatedAt := nr_UpdatedAt r\<rparr>]\<rparr> = db"
    using Nil(1) by (cases db; cases r) simp
  then show ?case by (intro exI [of _ "nr_NextAttemptAt r"] exI [of _ "nr_UpdatedAt r"]) (simp only: fold_simps id_apply, simp)
next
  case (Cons ne nes)
  let ?r = "r\<lparr>nr_NextAttemptAt := ne_now ne, nr_State := ''sending'', nr_UpdatedAt := ne_now ne\<rparr>"
  have same: "noticeArrives e ?r = noticeArrives e r" "requeueRefused e ?r = requeueRefused e r" for e by (rule same_request; simp)+
  have t: "dispatcherTick ne (Suc limit) (db, arrived) =
      (db\<lparr>nd_outbox := [?r]\<rparr>, if noticeArrives ne r then arrived @ [nr_ID r] else arrived)"
    using tick_stuck [OF Cons.prems(1,2)] Cons.prems(3,4) same by (simp add: attemptNotice_outcome)
  have "list_all (\<lambda>ne. \<not> ne_down ne ''claim'' \<and> \<not> ne_down ne ''reclaim'' \<and> requeueRefused ne ?r) nes" using Cons.prems(4) by (simp add: same)
  then obtain due upd where "fold (\<lambda>ne. dispatcherTick ne (Suc limit)) nes (dispatcherTick ne (Suc limit) (db, arrived)) =
      (db\<lparr>nd_outbox := [?r\<lparr>nr_NextAttemptAt := due, nr_UpdatedAt := upd\<rparr>]\<rparr>,
       (if noticeArrives ne r then arrived @ [nr_ID r] else arrived) @ replicate (length (filter (\<lambda>ne. noticeArrives ne ?r) nes)) (nr_ID r))"
    using Cons.IH [of "db\<lparr>nd_outbox := [?r]\<rparr>" ?r "if noticeArrives ne r then arrived @ [nr_ID r] else arrived"] Cons.prems(3) t by auto
  moreover have "?r\<lparr>nr_NextAttemptAt := due, nr_UpdatedAt := upd\<rparr> = r\<lparr>nr_NextAttemptAt := due, nr_UpdatedAt := upd\<rparr>" using Cons.prems(2) by simp
  ultimately show ?case by (auto simp: same)
qed

section \<open>Unknown channels\<close>

text \<open>
  An unknown channel silences the rest. The rule handler takes any channel names; the table refuses an unknown one, so an event of such a rule writes
  nothing for that channel and for all that follow it.
\<close>

theorem unknown_channel_blocks_rest:
  assumes "ch \<notin> set noticeChannels"
  shows "snd (enqueueChannels ne x c ignoring tpl (known @ ch # rest) db) = snd (enqueueChannels ne x c ignoring tpl known db)
     \<and> \<not> snd (fst (enqueueChannels ne x c ignoring tpl (known @ ch # rest) db))"
proof (induction known arbitrary: db)
  case Nil
  have "insertNotice ne (eventInsert x c ignoring tpl ch address) skip db = (None, db)" for address skip
    using assms by (simp add: insertNotice_def eventInsert_def Let_def)
  then show ?case by (simp split: prod.split)
next
  case (Cons k known)
  obtain address skip where a: "resolveSubscriberChannel ne c k (ei_SubscriberID x) ignoring db = (address, skip)" by fastforce
  let ?skip = "if tpl = None \<and> skip = '''' then ''no_template'' else skip"
  obtain i db1 where "insertNotice ne (eventInsert x c ignoring tpl k address) ?skip db = (i, db1)" by fastforce
  then show ?case using a Cons [of db1] by (cases i) (simp_all add: Let_def case_prod_beta)
qed

section \<open>Examples\<close>

definition sampleNE :: "gotime \<Rightarrow> noticeEnv" where
  "sampleNE t = \<lparr>ne_now = t, ne_down = (\<lambda>_. False), ne_insertFails = (\<lambda>_. False), ne_resolveFails = (\<lambda>_. False), ne_intAsText = False, ne_redis = True, ne_redisFails = False,
     ne_telegram = None, ne_smtp = None, ne_whatsapp = None, ne_waTemplates = None, ne_sms = None, ne_exchange = (\<lambda>_. (True, None))\<rparr>"

definition noNotices :: NoticeDB where
  "noNotices = \<lparr>nd_outbox = [], nd_rules = [], nd_templates = [], nd_subs = [], nd_optIns = [], nd_usage = [], nd_claims = (\<lambda>_. None), nd_nextID = 0, nd_audit = []\<rparr>"

definition noRecipients :: alertRecipients where
  "noRecipients = \<lparr>ar_telegram = None, ar_email = None, ar_whatsapp = None\<rparr>"

definition sampleNotice :: noticeRow where
  "sampleNotice = noticeOf 0 ''0'' (alertInsert ''R1'' ''disk_low'' ''disk full'' ''inapp'' '''') ''queued'' ''''"

definition sampleQueued :: NoticeDB where
  "sampleQueued = noNotices\<lparr>nd_nextID := 1, nd_outbox := [sampleNotice]\<rparr>"

lemma sample_alert: "snd (EnqueueAlert (sampleNE 0) ''R1'' ''disk_low'' ''disk full'' [''inapp''] noRecipients noNotices) = sampleQueued"
proof -
  have "formatUint 0 = ''0''" by code_simp
  then show ?thesis
    by (simp add: EnqueueAlert_def resolveAlertRecipients_def channel_defs insertNotice_def sampleNE_def noNotices_def noticeChannels_def noticeSources_def
        alertInsert_def sampleQueued_def sampleNotice_def Let_def)
qed

lemma sample_claim_notice:
  "claimNotices 1 50 sampleQueued = ([sampleNotice\<lparr>nr_State := ''sending'', nr_UpdatedAt := 1\<rparr>],
     sampleQueued\<lparr>nd_outbox := [sampleNotice\<lparr>nr_State := ''sending'', nr_UpdatedAt := 1\<rparr>]\<rparr>)"
  by (simp add: claimNotices_def dueNotices_def updateNotices_def sampleQueued_def sampleNotice_def noticeOf_def Let_def)

lemma sample_sent:
  "attemptNotice (sampleNE 2) (sampleNotice\<lparr>nr_State := ''sending'', nr_UpdatedAt := 1\<rparr>)
     (sampleQueued\<lparr>nd_outbox := [sampleNotice\<lparr>nr_State := ''sending'', nr_UpdatedAt := 1\<rparr>]\<rparr>, []) =
   (sampleQueued\<lparr>nd_outbox := [sampleNotice\<lparr>nr_State := ''sent'', nr_AttemptCount := 1, nr_UpdatedAt := 2, nr_SentAt := Some 2\<rparr>]\<rparr>, [''0''])"
  by (simp add: attemptNotice_def senderFor_def sendNotice_def inAppSend_def resolveSent_def resolveNotice_def updateNotices_def sampleNE_def sampleNotice_def
      noticeOf_def alertInsert_def channel_defs)

lemma sample_dispatch:
  assumes "ok (sampleNE 2)"
  shows "(noticeStep ok)\<^sup>*\<^sup>* \<lparr>ds_db = noNotices, ds_batch = [], ds_arrived = []\<rparr>
     \<lparr>ds_db = sampleQueued\<lparr>nd_outbox := [sampleNotice\<lparr>nr_State := ''sent'', nr_AttemptCount := 1, nr_UpdatedAt := 2, nr_SentAt := Some 2\<rparr>]\<rparr>,
      ds_batch = [], ds_arrived = [''0'']\<rparr>"
proof -
  let ?s = "\<lparr>ds_db = noNotices, ds_batch = [], ds_arrived = []\<rparr>"
  let ?sending = "sampleNotice\<lparr>nr_State := ''sending'', nr_UpdatedAt := 1\<rparr>"
  let ?sent = "sampleNotice\<lparr>nr_State := ''sent'', nr_AttemptCount := 1, nr_UpdatedAt := 2, nr_SentAt := Some 2\<rparr>"
  have "noticeStep ok ?s (?s\<lparr>ds_db := sampleQueued\<rparr>)"
    by (rule noticeStep.change) (use noticeChange.alert [of noNotices] sample_alert in \<open>simp, metis\<close>)
  moreover have "noticeStep ok (?s\<lparr>ds_db := sampleQueued\<rparr>) (?s\<lparr>ds_db := sampleQueued\<lparr>nd_outbox := [?sending]\<rparr>, ds_batch := [?sending]\<rparr>)"
    using noticeStep.claim [of "?s\<lparr>ds_db := sampleQueued\<rparr>" 1 50] sample_claim_notice by simp
  moreover have "noticeStep ok (?s\<lparr>ds_db := sampleQueued\<lparr>nd_outbox := [?sending]\<rparr>, ds_batch := [?sending]\<rparr>)
      (?s\<lparr>ds_db := sampleQueued\<lparr>nd_outbox := [?sent]\<rparr>, ds_arrived := [''0'']\<rparr>)"
    using noticeStep.attempt [of "?s\<lparr>ds_db := sampleQueued\<lparr>nd_outbox := [?sending]\<rparr>, ds_batch := [?sending]\<rparr>" ?sending "[]" ok "sampleNE 2"] sample_sent assms
    by simp
  ultimately have "(noticeStep ok)\<^sup>*\<^sup>* ?s (?s\<lparr>ds_db := sampleQueued\<lparr>nd_outbox := [?sent]\<rparr>, ds_arrived := [''0'']\<rparr>)"
    by (meson rtranclp.rtrancl_refl rtranclp.rtrancl_into_rtrancl)
  then show ?thesis by simp
qed

theorem outbox_truthful_witness:
  "truthful (sampleNotice\<lparr>nr_State := ''sent'', nr_AttemptCount := 1, nr_UpdatedAt := 2, nr_SentAt := Some 2\<rparr>)
   \<and> distinct [''0''] \<and> nr_ID (sampleNotice\<lparr>nr_State := ''sent'', nr_AttemptCount := 1, nr_UpdatedAt := 2, nr_SentAt := Some 2\<rparr>) \<in> set [''0'']"
  using outbox_truthful [of "\<lparr>ds_db = noNotices, ds_batch = [], ds_arrived = []\<rparr>"]
    sample_dispatch [of "\<lambda>_. True"] sample_dispatch [of honest]
  by (fastforce simp: noNotices_def honest_def sampleNE_def)


theorem render_any_order_witness:
  "render [(''name'', ''Ali''), (''days_left'', ''3'')] ''{{name}}: {{days_left}}'' = render [(''days_left'', ''3''), (''name'', ''Ali'')] ''{{name}}: {{days_left}}''"
  by (rule render_any_order) (simp_all add: fun_eq_iff)

end
