(* ===== verification/Alerts.thy ===== *)
theory Alerts
  imports Notify Livestate Complex_Main
begin

text \<open>
  Monitoring (\<^verbatim>\<open>backend/internal/monitorsvc\<close>): reachability of routers and devices (\<^verbatim>\<open>state.go\<close>, \<^verbatim>\<open>probe.go\<close>, \<^verbatim>\<open>target.go\<close>), the alert engine with cooldown
  and quiet hours (\<^verbatim>\<open>alerts.go\<close>), its rules (\<^verbatim>\<open>rules_api.go\<close>) and the periodic conditions (\<^verbatim>\<open>conditions.go\<close>). Alerts go into the queue of \<open>Notify\<close>.

  Ping answers, disk usage, the counters of accounting and the decision stream are arguments; \<open>me_fl\<close> is the rounding of float64 operations.
\<close>

section \<open>Reachability\<close>

definition downThreshold :: nat where "downThreshold = 4"

record targetState =
  ts_status :: string
  ts_consecMiss :: nat

definition freshTarget :: targetState where
  "freshTarget = \<lparr>ts_status = '''', ts_consecMiss = 0\<rparr>"

text \<open>The transition (to down, to up) and the new state.\<close>

definition observeProbe :: "bool \<Rightarrow> targetState \<Rightarrow> (bool \<times> bool) \<times> targetState" where
  "observeProbe ok s =
     (if ok then ((False, ts_status s = ''down''), s\<lparr>ts_consecMiss := 0, ts_status := ''up''\<rparr>)
      else let s1 = s\<lparr>ts_consecMiss := Suc (ts_consecMiss s)\<rparr>
           in if downThreshold \<le> ts_consecMiss s1 \<and> ts_status s1 \<noteq> ''down'' then ((True, False), s1\<lparr>ts_status := ''down''\<rparr>)
              else ((False, False), s1))"

section \<open>Rules\<close>

datatype thresholdValue = ThresholdNum rat | ThresholdBool bool | ThresholdOther

record quietHours =
  qh_Start :: string
  qh_End :: string

record alertRule =
  al_ID :: string
  al_Name :: string
  al_Type :: string
  al_Threshold :: "(string \<times> thresholdValue) list"
  al_Channels :: "string list"
  al_Recipients :: alertRecipients
  al_QuietHours :: "quietHours option"
  al_CooldownS :: int
  al_Enabled :: bool

record alertEvent =
  ae_RuleID :: "string option"
  ae_State :: string
  ae_Type :: string
  ae_Summary :: string
  ae_Channels :: "string list"
  ae_At :: gotime

record target =
  tr_kind :: string
  tr_id :: string
  tr_name :: string
  tr_ip :: string
  tr_community :: string

record probeRow =
  pb_target :: target
  pb_kind :: string
  pb_latency :: "rat option"
  pb_loss :: rat
  pb_ok :: bool

record MonState =
  mo_notices :: NoticeDB
  mo_rules :: "alertRule list"
  mo_events :: "alertEvent list"
  mo_memory :: "string \<Rightarrow> gotime option"
  mo_pushed :: "(string \<times> string) list"
  mo_targets :: "target list"
  mo_states :: "string \<Rightarrow> targetState option"
  mo_probes :: "probeRow list"
  mo_acct :: AcctDB
  mo_live :: Live
  mo_recovered :: "string list"
  mo_nextRule :: nat
  mo_audit :: "(string \<times> string) list"

record monEnv =
  me_notice :: noticeEnv
  me_down :: "string \<Rightarrow> bool"
  me_fl :: "rat \<Rightarrow> rat"

abbreviation me_now :: "monEnv \<Rightarrow> gotime" where
  "me_now me \<equiv> ne_now (me_notice me)"

definition numFromThreshold :: "alertRule \<Rightarrow> string \<Rightarrow> rat \<Rightarrow> rat" where
  "numFromThreshold r key d = (case map_of (al_Threshold r) key of Some (ThresholdNum x) \<Rightarrow> x | _ \<Rightarrow> d)"

definition isInvariantRule :: "alertRule \<Rightarrow> bool" where
  "isInvariantRule r \<longleftrightarrow> map_of (al_Threshold r) ''invariant'' = Some (ThresholdBool True)"

definition validRuleTypes :: "string list" where
  "validRuleTypes = [''nas_down'', ''nas_up'', ''device_down'', ''device_up'', ''radius_reject_spike'', ''acct_backlog'', ''disk_low'', ''expiring_digest'',
     ''agent_balance_low'']"

definition validAlertChannels :: "string list" where
  "validAlertChannels = [''inapp'', ''telegram'', ''email'', ''whatsapp'', ''push'']"

record alertRuleInput =
  ri_Name :: string
  ri_Type :: string
  ri_Threshold :: "(string \<times> thresholdValue) list"
  ri_Channels :: "string list"
  ri_Recipients :: alertRecipients
  ri_QuietHours :: "quietHours option"
  ri_CooldownS :: "int option"
  ri_Enabled :: "bool option"

definition ruleFieldErrors :: "alertRuleInput \<Rightarrow> string list" where
  "ruleFieldErrors x =
     (if ri_Type x \<in> set validRuleTypes then [] else [''type'']) @ concat (map (\<lambda>c. if c \<in> set validAlertChannels then [] else [''channels'']) (ri_Channels x))
     @ (case ri_CooldownS x of Some n \<Rightarrow> if n < 0 then [''cooldown_s''] else [] | None \<Rightarrow> [])"

text \<open>The tags of the request: a name of 1 to 128 characters, a type, and a channel.\<close>

definition ruleBinds :: "alertRuleInput \<Rightarrow> bool" where
  "ruleBinds x \<longleftrightarrow> ri_Name x \<noteq> '''' \<and> length (ri_Name x) \<le> 128 \<and> ri_Type x \<noteq> '''' \<and> ri_Channels x \<noteq> []"

definition ruleOf :: "string \<Rightarrow> alertRuleInput \<Rightarrow> int \<Rightarrow> bool \<Rightarrow> alertRule" where
  "ruleOf i x cooldown enabled =
     \<lparr>al_ID = i, al_Name = ri_Name x, al_Type = ri_Type x, al_Threshold = ri_Threshold x, al_Channels = ri_Channels x, al_Recipients = ri_Recipients x,
      al_QuietHours = ri_QuietHours x, al_CooldownS = cooldown, al_Enabled = enabled\<rparr>"

definition ruleAudit :: "monEnv \<Rightarrow> string \<Rightarrow> string \<Rightarrow> MonState \<Rightarrow> MonState" where
  "ruleAudit me action i st = (if me_down me ''audit'' then st else st\<lparr>mo_audit := mo_audit st @ [(action, i)]\<rparr>)"

definition createAlertRule :: "monEnv \<Rightarrow> alertRuleInput \<Rightarrow> MonState \<Rightarrow> nat \<times> MonState" where
  "createAlertRule me x st =
     (if \<not> ruleBinds x \<or> ruleFieldErrors x \<noteq> [] then (422, st)
      else if me_down me ''insertRule'' then (500, st)
      else let i = formatUint (mo_nextRule st);
               r = ruleOf i x (case ri_CooldownS x of None \<Rightarrow> 300 | Some n \<Rightarrow> n) (case ri_Enabled x of None \<Rightarrow> True | Some b \<Rightarrow> b)
           in (201, ruleAudit me ''alert_rule.create'' i (st\<lparr>mo_rules := mo_rules st @ [r], mo_nextRule := Suc (mo_nextRule st)\<rparr>)))"

definition updateAlertRule :: "monEnv \<Rightarrow> string \<Rightarrow> alertRuleInput \<Rightarrow> MonState \<Rightarrow> nat \<times> MonState" where
  "updateAlertRule me i x st =
     (if me_down me ''readRule'' then (500, st)
      else case find (\<lambda>r. al_ID r = i) (mo_rules st) of
        None \<Rightarrow> (404, st)
      | Some before \<Rightarrow>
          if \<not> ruleBinds x \<or> ruleFieldErrors x \<noteq> [] then (422, st)
          else if me_down me ''updateRule'' then (500, st)
          else let r = ruleOf i x (case ri_CooldownS x of None \<Rightarrow> al_CooldownS before | Some n \<Rightarrow> n) (case ri_Enabled x of None \<Rightarrow> al_Enabled before | Some b \<Rightarrow> b)
               in (200, ruleAudit me ''alert_rule.update'' i (st\<lparr>mo_rules := map (\<lambda>y. if al_ID y = i then r else y) (mo_rules st)\<rparr>)))"

section \<open>Quiet hours and cooldown\<close>

definition atoiDigits :: "string \<Rightarrow> int option" where
  "atoiDigits s = (if s = '''' \<or> \<not> list_all isDigit s then None else Some (int (digitsVal s)))"

text \<open>\<^verbatim>\<open>strconv.Atoi\<close> on at most two characters, with a sign.\<close>

definition atoiShort :: "string \<Rightarrow> int option" where
  "atoiShort s =
     (case s of
        [] \<Rightarrow> None
      | c # t \<Rightarrow> if c = CHR ''+'' then atoiDigits t else if c = CHR ''-'' then map_option uminus (atoiDigits t) else atoiDigits s)"

definition parseHM :: "string \<Rightarrow> int option" where
  "parseHM s =
     (if length s \<noteq> 5 \<or> s ! 2 \<noteq> CHR '':'' then None
      else case (atoiShort (take 2 s), atoiShort (drop 3 s)) of
             (Some h, Some m) \<Rightarrow> if h < 0 \<or> 23 < h \<or> m < 0 \<or> 59 < m then None else Some (h * 60 + m)
           | _ \<Rightarrow> None)"

text \<open>The argument is a local time.\<close>

definition inQuietHours :: "int \<Rightarrow> quietHours \<Rightarrow> bool" where
  "inQuietHours lt qh =
     (case (parseHM (qh_Start qh), parseHM (qh_End qh)) of
        (Some start, Some end) \<Rightarrow>
          if start = end then False
          else let mins = minuteOfDay lt in if start < end then start \<le> mins \<and> mins < end else start \<le> mins \<or> mins < end
      | _ \<Rightarrow> False)"

definition effectiveChannels :: "monEnv \<Rightarrow> alertRule \<Rightarrow> string list" where
  "effectiveChannels me r =
     (let quiet = (case al_QuietHours r of None \<Rightarrow> False | Some qh \<Rightarrow> inQuietHours (inServerLocation (me_now me)) qh)
      in filter (\<lambda>c. \<not> (quiet \<and> c \<noteq> ''inapp'')) (al_Channels r))"

text \<open>The Redis store, or the one in memory when there is no Redis.\<close>

definition claimCooldown :: "monEnv \<Rightarrow> string \<Rightarrow> duration \<Rightarrow> MonState \<Rightarrow> bool \<times> MonState" where
  "claimCooldown me ruleID d st =
     (if ne_redis (me_notice me)
      then case setNX (me_notice me) (''alert:cooldown:'' @ ruleID) d (mo_notices st) of (ok, nd) \<Rightarrow> (ok, st\<lparr>mo_notices := nd\<rparr>)
      else case mo_memory st ruleID of
             Some t \<Rightarrow> if timeSub (me_now me) t < d then (False, st) else (True, st\<lparr>mo_memory := (mo_memory st)(ruleID \<mapsto> me_now me)\<rparr>)
           | None \<Rightarrow> (True, st\<lparr>mo_memory := (mo_memory st)(ruleID \<mapsto> me_now me)\<rparr>))"

section \<open>Firing\<close>

record fireInput =
  fi_ruleType :: string
  fi_state :: string
  fi_summary :: string
  fi_match :: "alertRule \<Rightarrow> bool"
  fi_alwaysRecord :: bool

definition recordAlert :: "monEnv \<Rightarrow> string option \<Rightarrow> fireInput \<Rightarrow> string list \<Rightarrow> MonState \<Rightarrow> MonState" where
  "recordAlert me ruleID x channels st =
     (if me_down me ''record'' then st
      else st\<lparr>mo_events := mo_events st @ [\<lparr>ae_RuleID = ruleID, ae_State = fi_state x, ae_Type = fi_ruleType x, ae_Summary = fi_summary x, ae_Channels = channels,
                ae_At = me_now me\<rparr>]\<rparr>)"

definition enqueueAlertFor :: "monEnv \<Rightarrow> string \<Rightarrow> fireInput \<Rightarrow> string list \<Rightarrow> alertRecipients \<Rightarrow> MonState \<Rightarrow> MonState" where
  "enqueueAlertFor me ruleID x channels rc st =
     st\<lparr>mo_notices := snd (EnqueueAlert (me_notice me) ruleID (fi_ruleType x) (fi_summary x) channels rc (mo_notices st))\<rparr>"

definition fireRule :: "monEnv \<Rightarrow> fireInput \<Rightarrow> alertRule \<Rightarrow> bool \<times> MonState \<Rightarrow> bool \<times> MonState" where
  "fireRule me x r s =
     (case s of (fired, st) \<Rightarrow>
        if \<not> fi_match x r then (fired, st)
        else let cd = al_CooldownS r * second;
                 (ok, st1) = (if 0 < cd then claimCooldown me (al_ID r) cd st else (True, st));
                 channels = effectiveChannels me r;
                 queueChannels = filter (\<lambda>c. c \<noteq> ''push'') channels;
                 st2 = st1\<lparr>mo_pushed := mo_pushed st1 @ map (\<lambda>_. (fi_ruleType x, fi_state x)) (filter (\<lambda>c. c = ''push'') channels)\<rparr>;
                 st3 = (if queueChannels = [] then st2 else enqueueAlertFor me (al_ID r) x queueChannels (al_Recipients r) st2)
             in if \<not> ok \<or> channels = [] then (fired, st1) else (True, recordAlert me (Some (al_ID r)) x channels st3))"

definition noOverrides :: alertRecipients where
  "noOverrides = \<lparr>ar_telegram = None, ar_email = None, ar_whatsapp = None\<rparr>"

definition loadRules :: "string \<Rightarrow> MonState \<Rightarrow> alertRule list" where
  "loadRules ruleType st = filter (\<lambda>r. al_Enabled r \<and> al_Type r = ruleType) (mo_rules st)"

definition Fire :: "monEnv \<Rightarrow> fireInput \<Rightarrow> MonState \<Rightarrow> MonState" where
  "Fire me x st =
     (if me_down me ''loadRules'' then st
      else case fold (fireRule me x) (loadRules (fi_ruleType x) st) (False, st) of
             (fired, st1) \<Rightarrow>
               if \<not> fired \<and> fi_alwaysRecord x then recordAlert me None x [''inapp''] (enqueueAlertFor me '''' x [''inapp''] noOverrides st1) else st1)"

section \<open>Probes\<close>

definition stateKey :: "target \<Rightarrow> string" where
  "stateKey t = tr_kind t @ '':'' @ tr_id t"

definition reloadTargets :: "monEnv \<Rightarrow> target list \<Rightarrow> MonState \<Rightarrow> MonState" where
  "reloadTargets me ts st =
     (if me_down me ''targets'' then st
      else st\<lparr>mo_targets := ts, mo_states := (\<lambda>k. if k \<in> stateKey ` set ts then mo_states st k else None)\<rparr>)"

text \<open>Open sessions of the router become stale in the table and in the live hash.\<close>

definition flaggedSessions :: "string \<Rightarrow> AcctDB \<Rightarrow> sessionKey list" where
  "flaggedSessions nasID db = map fst (filter (\<lambda>((n, a), s). n = nasID \<and> s_stopped_at s = None \<and> \<not> s_stale s) (db_sessions db))"

definition markLiveStale :: "bool \<Rightarrow> sessionKey \<Rightarrow> Live \<Rightarrow> Live" where
  "markLiveStale up k lv = (case map_of (lv_hash lv) (Field (fst k) (snd k)) of Some (Some s) \<Rightarrow> Upsert up (s\<lparr>st_Stale := True\<rparr>) lv | _ \<Rightarrow> lv)"

definition reconcileMissingStops :: "monEnv \<Rightarrow> string \<Rightarrow> MonState \<Rightarrow> MonState" where
  "reconcileMissingStops me nasID st =
     (if me_down me ''reconcile'' then st
      else let keys = flaggedSessions nasID (mo_acct st);
               db = (mo_acct st)\<lparr>db_sessions := map (\<lambda>(k, s). (k, if k \<in> set keys then s\<lparr>s_stale := True\<rparr> else s)) (db_sessions (mo_acct st))\<rparr>;
               up = ne_redis (me_notice me) \<and> \<not> ne_redisFails (me_notice me)
           in st\<lparr>mo_acct := db, mo_live := (if up then fold (markLiveStale up) keys (mo_live st) else mo_live st)\<rparr>)"

definition reachabilityInput :: "string \<Rightarrow> string \<Rightarrow> string \<Rightarrow> target \<Rightarrow> fireInput" where
  "reachabilityInput ruleType state verb t =
     \<lparr>fi_ruleType = ruleType, fi_state = state, fi_summary = tr_kind t @ verb @ tr_name t @ '' ('' @ tr_ip t @ '')'', fi_match = (\<lambda>_. True), fi_alwaysRecord = True\<rparr>"

definition onDown :: "monEnv \<Rightarrow> target \<Rightarrow> MonState \<Rightarrow> MonState" where
  "onDown me t st = Fire me (reachabilityInput (if tr_kind t = ''device'' then ''device_down'' else ''nas_down'') ''firing'' '' down: '' t) st"

definition publishRecovered :: "monEnv \<Rightarrow> string \<Rightarrow> MonState \<Rightarrow> MonState" where
  "publishRecovered me nasID st =
     (if ne_redis (me_notice me) \<and> \<not> ne_redisFails (me_notice me) then st\<lparr>mo_recovered := mo_recovered st @ [nasID]\<rparr> else st)"

definition onUp :: "monEnv \<Rightarrow> target \<Rightarrow> MonState \<Rightarrow> MonState" where
  "onUp me t st =
     (let st1 = Fire me (reachabilityInput (if tr_kind t = ''device'' then ''device_up'' else ''nas_up'') ''resolved'' '' recovered: '' t) st
      in if tr_kind t = ''nas'' then reconcileMissingStops me (tr_id t) (publishRecovered me (tr_id t) st1) else st1)"

definition observeTarget :: "monEnv \<Rightarrow> target \<Rightarrow> bool \<Rightarrow> MonState \<Rightarrow> MonState" where
  "observeTarget me t ok st =
     (let key = stateKey t; s = (case mo_states st key of None \<Rightarrow> freshTarget | Some s \<Rightarrow> s)
      in case observeProbe ok s of
           ((toDown, toUp), s1) \<Rightarrow>
             let st1 = st\<lparr>mo_states := (mo_states st)(key \<mapsto> s1)\<rparr>
             in if toDown then onDown me t st1 else if toUp then onUp me t st1 else st1)"

definition writeProbe :: "monEnv \<Rightarrow> probeRow \<Rightarrow> MonState \<Rightarrow> MonState" where
  "writeProbe me r st = (if me_down me ''probe'' then st else st\<lparr>mo_probes := mo_probes st @ [r]\<rparr>)"

text \<open>The answer of a ping: its latency, if it came.\<close>

definition probeICMP :: "monEnv \<Rightarrow> target \<Rightarrow> rat option \<Rightarrow> MonState \<Rightarrow> MonState" where
  "probeICMP me t res st =
     observeTarget me t (res \<noteq> None)
       (writeProbe me \<lparr>pb_target = t, pb_kind = ''icmp'', pb_latency = res, pb_loss = (if res = None then 1 else 0), pb_ok = (res \<noteq> None)\<rparr> st)"

definition sweepICMP :: "(target \<Rightarrow> monEnv) \<Rightarrow> (target \<Rightarrow> rat option) \<Rightarrow> MonState \<Rightarrow> MonState" where
  "sweepICMP mes ping st = fold (\<lambda>t. probeICMP (mes t) t (ping t)) (mo_targets st) st"

section \<open>Conditions\<close>

text \<open>\<^verbatim>\<open>%.0f\<close>: the nearest integer, a tie to the even one.\<close>

definition fmt0 :: "rat \<Rightarrow> string" where
  "fmt0 x = (let f = floor x; d = x - of_int f in itoa (if d < 1 / 2 then f else if 1 / 2 < d then f + 1 else if even f then f else f + 1))"

definition condition :: "string \<Rightarrow> string \<Rightarrow> (alertRule \<Rightarrow> bool) \<Rightarrow> fireInput" where
  "condition ruleType summary matches = \<lparr>fi_ruleType = ruleType, fi_state = ''firing'', fi_summary = summary, fi_match = matches, fi_alwaysRecord = False\<rparr>"

definition diskLow :: "monEnv \<Rightarrow> (string \<times> rat) list \<Rightarrow> MonState \<Rightarrow> MonState" where
  "diskLow me disks st =
     fold (\<lambda>(path, used). Fire me (condition ''disk_low'' (''Disk '' @ path @ '' at '' @ fmt0 used @ ''% used'') (\<lambda>r. numFromThreshold r ''percent'' 85 \<le> used))) disks st"

text \<open>With the UTF-8 bytes of the minus sign and of the sign for different.\<close>

definition brokenSummary :: string where
  "brokenSummary = (let m = [CHR 0xE2, CHR 0x88, CHR 0x92] in ''Accounting pipeline invariant BROKEN (received '' @ m @ '' dup '' @ m @ '' queued ''
     @ [CHR 0xE2, CHR 0x89, CHR 0xA0] @ '' persisted)'')"

text \<open>The depth of the queue and the audit flag, if the counters could be read.\<close>

definition acctBacklog :: "monEnv \<Rightarrow> (int \<times> bool) option \<Rightarrow> MonState \<Rightarrow> MonState" where
  "acctBacklog me snap st =
     (case snap of
        None \<Rightarrow> st
      | Some (depth, invOK) \<Rightarrow>
          let st1 = Fire me (condition ''acct_backlog'' (''Accounting backlog: '' @ itoa depth @ '' records queued'')
                      (\<lambda>r. \<not> isInvariantRule r \<and> numFromThreshold r ''depth'' 1000 \<le> of_int depth)) st
          in if invOK then st1 else Fire me (condition ''acct_backlog'' brokenSummary isInvariantRule) st1)"

text \<open>The newest 2000 entries of the stream, newest first, as milliseconds and outcome.\<close>

definition decisionCounts :: "int \<Rightarrow> (int \<times> string) list \<Rightarrow> int \<times> int" where
  "decisionCounts sinceMS entries =
     (let recent = takeWhile (\<lambda>(ms, oc). \<not> (0 < ms \<and> ms < sinceMS)) (take 2000 entries)
      in (int (length recent), int (length (filter (\<lambda>(ms, oc). oc = ''reject'') recent))))"

definition rejectSpike :: "monEnv \<Rightarrow> (int \<times> string) list \<Rightarrow> MonState \<Rightarrow> MonState" where
  "rejectSpike me entries st =
     (let (total, rejects) = decisionCounts ((me_now me - minute) div 1000000) entries; rate = me_fl me (of_int rejects / of_int total)
      in if total < 10 then st
         else Fire me (condition ''radius_reject_spike''
                (''RADIUS reject rate '' @ fmt0 (me_fl me (rate * 100)) @ ''% ('' @ itoa rejects @ ''/'' @ itoa total @ '' in last minute)'')
                (\<lambda>r. numFromThreshold r ''rate'' (1 / 2) \<le> rate)) st)"

definition agentBalanceLow :: "monEnv \<Rightarrow> (string \<times> string \<times> int) list \<Rightarrow> MonState \<Rightarrow> MonState" where
  "agentBalanceLow me balances st =
     (if me_down me ''balances'' then st
      else fold (\<lambda>(i, name, amount). Fire me (condition ''agent_balance_low'' (''Agent '' @ name @ '' balance low: '' @ itoa amount @ '' IQD'')
             (\<lambda>r. of_int amount \<le> numFromThreshold r ''min_iqd'' 0))) balances st)"

text \<open>A float converted to an integer, towards zero.\<close>

definition truncInt :: "rat \<Rightarrow> int" where
  "truncInt x = (if x < 0 then ceiling x else floor x)"

definition digestSummary :: "monEnv \<Rightarrow> int \<Rightarrow> int \<Rightarrow> MonState \<Rightarrow> string" where
  "digestSummary me days revenue st =
     (let subs = map snd (nd_subs (mo_notices st));
          active = filter (\<lambda>c. cn_Status c = ''active'') subs;
          expiring = filter (\<lambda>c. case cn_ExpiresAt c of None \<Rightarrow> False | Some t \<Rightarrow> me_now me \<le> t \<and> t < me_now me + days * dayLength) active;
          num = (\<lambda>xs. if me_down me ''digest'' then 0 else int (length xs))
      in ''Daily digest '' @ [CHR 0xE2, CHR 0x80, CHR 0x94] @ '' '' @ itoa (num expiring) @ '' subscribers expiring in '' @ itoa days @ '' days ''
         @ [CHR 0xC2, CHR 0xB7] @ '' '' @ itoa (num active) @ '' active '' @ [CHR 0xC2, CHR 0xB7] @ '' '' @ itoa revenue @ '' IQD collected today'')"

definition digestRule :: "monEnv \<Rightarrow> int \<Rightarrow> alertRule \<Rightarrow> MonState \<Rightarrow> MonState" where
  "digestRule me revenue r st =
     (let lt = inServerLocation (me_now me)
      in if minuteOfDay lt div 60 \<noteq> truncInt (numFromThreshold r ''hour'' 8) then st
         else case setNX (me_notice me) (''alert:digest:'' @ al_ID r @ '':'' @ formatDay lt) (25 * 60 * minute) (mo_notices st) of
                (False, nd) \<Rightarrow> st\<lparr>mo_notices := nd\<rparr>
              | (True, nd) \<Rightarrow>
                  (let st1 = st\<lparr>mo_notices := nd\<rparr>; days = truncInt (numFromThreshold r ''days'' 3)
                   in Fire me (condition ''expiring_digest'' (digestSummary me days revenue st1) (\<lambda>rr. al_ID rr = al_ID r)) st1))"

definition digests :: "monEnv \<Rightarrow> int \<Rightarrow> MonState \<Rightarrow> MonState" where
  "digests me revenue st = (if me_down me ''loadRules'' then st else fold (digestRule me revenue) (loadRules ''expiring_digest'' st) st)"

record conditionInput =
  ci_disks :: "(string \<times> rat) list"
  ci_acct :: "(int \<times> bool) option"
  ci_decisions :: "(int \<times> string) list"
  ci_balances :: "(string \<times> string \<times> int) list"
  ci_revenue :: int

definition evaluateConditions :: "monEnv \<Rightarrow> conditionInput \<Rightarrow> MonState \<Rightarrow> MonState" where
  "evaluateConditions me x st =
     digests me (ci_revenue x) (agentBalanceLow me (ci_balances x) (rejectSpike me (ci_decisions x) (acctBacklog me (ci_acct x) (diskLow me (ci_disks x) st))))"

end
