(* ===== verification/Alerted.thy ===== *)
theory Alerted
  imports Alerts
begin

text \<open>
  What holds of monitoring: one alert per outage, alerts of a rule are a cooldown apart, and what the cooldown hides.
\<close>

section \<open>Outages\<close>

text \<open>The misses since the last answer, of a history with the newest probe first.\<close>

fun missRun :: "bool list \<Rightarrow> nat" where
  "missRun (False # h) = Suc (missRun h)"
| "missRun _ = 0"

fun probed :: "bool list \<Rightarrow> targetState" where
  "probed [] = freshTarget"
| "probed (ok # h) = snd (observeProbe ok (probed h))"

lemma probed_run: "ts_consecMiss (probed h) = missRun h \<and> (ts_status (probed h) = ''down'' \<longleftrightarrow> 4 \<le> missRun h)"
proof (induction h)
  case (Cons ok h)
  then show ?case by (cases ok) (auto simp: observeProbe_def downThreshold_def Let_def)
qed (simp add: freshTarget_def)

lemma fireRule_states: "mo_states (snd (fireRule me x r s)) = mo_states (snd s)" "mo_rules (snd (fireRule me x r s)) = mo_rules (snd s)"
  by (auto simp: fireRule_def claimCooldown_def recordAlert_def enqueueAlertFor_def Let_def split: prod.split option.split)

lemma fireRules_states: "mo_states (snd (fold (fireRule me x) rs s)) = mo_states (snd s)" "mo_rules (snd (fold (fireRule me x) rs s)) = mo_rules (snd s)"
  by (induction rs arbitrary: s) (simp_all add: fireRule_states)

lemma Fire_states [simp]: "mo_states (Fire me x st) = mo_states st" "mo_rules (Fire me x st) = mo_rules st"
  using fireRules_states [of me x "loadRules (fi_ruleType x) st" "(False, st)"]
  by (auto simp: Fire_def recordAlert_def enqueueAlertFor_def split: prod.split)

lemma reachable_states [simp]: "mo_states (onDown me t st) = mo_states st" "mo_states (onUp me t st) = mo_states st"
  by (simp_all add: onDown_def onUp_def publishRecovered_def reconcileMissingStops_def Let_def)

text \<open>The probes of a target in a run, newest first.\<close>

definition probesOf :: "string \<Rightarrow> (monEnv \<times> target \<times> bool) list \<Rightarrow> bool list" where
  "probesOf key ps = rev (map (\<lambda>(me, t, ok). ok) (filter (\<lambda>(me, t, ok). stateKey t = key) ps))"

definition observeAll :: "(monEnv \<times> target \<times> bool) list \<Rightarrow> MonState \<Rightarrow> MonState" where
  "observeAll ps st = fold (\<lambda>(me, t, ok). observeTarget me t ok) ps st"

lemma observeTarget_states:
  "mo_states (observeTarget me t ok st) = (mo_states st)(stateKey t \<mapsto> snd (observeProbe ok (case mo_states st (stateKey t) of None \<Rightarrow> freshTarget | Some s \<Rightarrow> s)))"
  by (simp add: observeTarget_def Let_def split: prod.split)

lemma observeAll_state:
  assumes "mo_states st = (\<lambda>_. None)"
  shows "(case mo_states (observeAll ps st) key of None \<Rightarrow> freshTarget | Some s \<Rightarrow> s) = probed (probesOf key ps)"
proof (induction ps rule: rev_induct)
  case (snoc p ps)
  obtain me t ok where p: "p = (me, t, ok)" using prod_cases3 by blast
  show ?case
  proof (cases "stateKey t = key")
    case True
    then show ?thesis using snoc p by (simp add: observeAll_def observeTarget_states probesOf_def)
  next
    case False
    then show ?thesis using snoc p by (simp add: observeAll_def observeTarget_states probesOf_def)
  qed
qed (simp add: observeAll_def probesOf_def assms)

text \<open>
  C26: one alert per outage. In every run of probes of any targets, in any order, a target is reported down exactly at the fourth miss in a row and reported up
  exactly at the first answer after at least four misses; no other probe alerts, however long the outage lasts.
\<close>

theorem outage_alerted_once:
  assumes "mo_states st0 = (\<lambda>_. None)"
  shows "observeTarget me t ok (observeAll ps st0) =
     (let h = probesOf (stateKey t) ps; st = observeAll ps st0; st1 = st\<lparr>mo_states := (mo_states st)(stateKey t \<mapsto> probed (ok # h))\<rparr>
      in if \<not> ok \<and> missRun h = 3 then onDown me t st1 else if ok \<and> 4 \<le> missRun h then onUp me t st1 else st1)"
proof -
  let ?h = "probesOf (stateKey t) ps" and ?st = "observeAll ps st0"
  have s: "(case mo_states ?st (stateKey t) of None \<Rightarrow> freshTarget | Some s \<Rightarrow> s) = probed ?h" using observeAll_state [OF assms] .
  have "fst (observeProbe ok (probed ?h)) = (\<not> ok \<and> missRun ?h = 3, ok \<and> 4 \<le> missRun ?h)"
    using probed_run [of ?h] by (auto simp: observeProbe_def downThreshold_def Let_def)
  then have o: "observeProbe ok (probed ?h) = ((\<not> ok \<and> missRun ?h = 3, ok \<and> 4 \<le> missRun ?h), probed (ok # ?h))" by (metis prod.collapse probed.simps(2))
  show ?thesis unfolding observeTarget_def Let_def s o by simp
qed

section \<open>Cooldown\<close>

text \<open>Redis works.\<close>

definition redisOK :: "monEnv \<Rightarrow> bool" where
  "redisOK me \<longleftrightarrow> ne_redis (me_notice me) \<and> \<not> ne_redisFails (me_notice me)"

definition cooldownKey :: "string \<Rightarrow> string" where
  "cooldownKey i = ''alert:cooldown:'' @ i"

lemma cooldownKey_inj [simp]: "cooldownKey i = cooldownKey j \<longleftrightarrow> i = j"
  by (simp add: cooldownKey_def)

text \<open>The events of a rule are a cooldown apart, and after each the key of the rule is set for the rest of the cooldown.\<close>

definition damped :: "string \<Rightarrow> int \<Rightarrow> MonState \<Rightarrow> bool" where
  "damped i c st \<longleftrightarrow> sorted_wrt (\<lambda>a b. ae_At a + c * second \<le> ae_At b) (filter (\<lambda>e. ae_RuleID e = Some i) (mo_events st))
     \<and> (\<forall>e \<in> set (mo_events st). ae_RuleID e = Some i \<longrightarrow> (\<exists>x. nd_claims (mo_notices st) (cooldownKey i) = Some ((), x) \<and> ae_At e + c * second \<le> x))
     \<and> list_all (\<lambda>r. al_ID r = i \<longrightarrow> al_CooldownS r = c) (mo_rules st)"

lemma insertNotice_claims: "nd_claims (snd (insertNotice ne y skip db)) = nd_claims db"
  by (simp add: insertNotice_def Let_def)

lemma insertAlerts_claims: "nd_claims (snd (insertAlerts ne xs mk db)) = nd_claims db"
proof (induction xs arbitrary: db)
  case (Cons p xs)
  obtain ch addr where p: "p = (ch, addr)" by fastforce
  obtain r db1 where i: "insertNotice ne (mk ch addr) (if addr = '''' \<and> ch \<noteq> ChannelInApp then ''no_contact'' else '''') db = (r, db1)" by fastforce
  have "nd_claims db1 = nd_claims db" using insertNotice_claims [of ne "mk ch addr"] i by (metis snd_conv)
  then show ?case using p i Cons by (cases r) simp_all
qed simp

lemma enqueueAlertFor_claims [simp]: "nd_claims (mo_notices (enqueueAlertFor me i x chs rc st)) = nd_claims (mo_notices st)"
  by (simp add: enqueueAlertFor_def EnqueueAlert_def insertAlerts_claims)

lemma enqueueAlertFor_events [simp]: "mo_events (enqueueAlertFor me i x chs rc st) = mo_events st" "mo_rules (enqueueAlertFor me i x chs rc st) = mo_rules st"
  by (simp_all add: enqueueAlertFor_def)

lemma claimCooldown_redis:
  assumes "redisOK me"
  shows "claimCooldown me j d st =
     (if redisGet (me_now me) (nd_claims (mo_notices st)) (cooldownKey j) = None
      then (True, st\<lparr>mo_notices := (mo_notices st)\<lparr>nd_claims := (nd_claims (mo_notices st))(cooldownKey j \<mapsto> ((), me_now me + d))\<rparr>\<rparr>) else (False, st))"
  using assms by (auto simp: claimCooldown_def redisOK_def setNX_def cooldownKey_def split: option.split)

lemma damped_other: "mo_events st' = mo_events st \<Longrightarrow> mo_rules st' = mo_rules st \<Longrightarrow> nd_claims (mo_notices st') (cooldownKey i) = nd_claims (mo_notices st) (cooldownKey i)
    \<Longrightarrow> damped i c st' = damped i c st"
  by (simp add: damped_def)

lemma redisGet_none: "redisGet now m k = None \<longleftrightarrow> (\<forall>y x. m k = Some (y, x) \<longrightarrow> x \<le> now)"
  by (auto simp: redisGet_def split: option.split prod.split)

lemma claim_damped:
  assumes "damped i c st" and "redisOK me" and "claimCooldown me j d st = (ok, st1)" and "0 < c" and "j = i \<Longrightarrow> d = c * second"
  shows "damped i c st1 \<and> mo_events st1 = mo_events st \<and> (ok \<and> j = i \<longrightarrow> nd_claims (mo_notices st1) (cooldownKey i) = Some ((), me_now me + c * second)
     \<and> (\<forall>e \<in> set (mo_events st). ae_RuleID e = Some i \<longrightarrow> ae_At e + c * second \<le> me_now me))"
proof (cases "redisGet (me_now me) (nd_claims (mo_notices st)) (cooldownKey j) = None")
  case True
  then have st1: "ok" "st1 = st\<lparr>mo_notices := (mo_notices st)\<lparr>nd_claims := (nd_claims (mo_notices st))(cooldownKey j \<mapsto> ((), me_now me + d))\<rparr>\<rparr>"
    using assms(3) claimCooldown_redis [OF assms(2), of j d st] by auto
  show ?thesis
  proof (cases "j = i")
    case False
    then show ?thesis using assms(1) damped_other [of st1 st i c] by (simp add: st1)
  next
    case j: True
    have old: "ae_At e + c * second \<le> me_now me" if w: "e \<in> set (mo_events st)" "ae_RuleID e = Some i" for e
    proof -
      obtain x where "nd_claims (mo_notices st) (cooldownKey i) = Some ((), x)" "ae_At e + c * second \<le> x" using assms(1) w by (auto simp: damped_def)
      then show ?thesis using True j by (auto simp: redisGet_none)
    qed
    have "0 < c * second" using assms(4) by (simp add: second_def)
    then have "ae_At e + c * second \<le> me_now me + d" if "e \<in> set (mo_events st)" "ae_RuleID e = Some i" for e
      using old [OF that] assms(5) [OF j] by simp
    then show ?thesis using assms(1,5) old j by (auto simp: st1 damped_def)
  qed
next
  case False
  then show ?thesis using assms(1,3) claimCooldown_redis [OF assms(2), of j d st] by auto
qed

lemma fireRule_damped:
  assumes "damped i c st" and "redisOK me" and "r \<in> set (mo_rules st)" and "0 < c"
  shows "damped i c (snd (fireRule me x r (fired, st)))"
proof (cases "fi_match x r")
  case True
  let ?cd = "al_CooldownS r * second"
  obtain ok st1 where cl: "(if 0 < ?cd then claimCooldown me (al_ID r) ?cd st else (True, st)) = (ok, st1)" by fastforce
  have j: "al_CooldownS r = c" if "al_ID r = i" using assms(1,3) that by (auto simp: damped_def list_all_iff)
  have k: "damped i c st1 \<and> mo_events st1 = mo_events st \<and> (ok \<and> al_ID r = i \<longrightarrow> nd_claims (mo_notices st1) (cooldownKey i) = Some ((), me_now me + c * second)
     \<and> (\<forall>e \<in> set (mo_events st). ae_RuleID e = Some i \<longrightarrow> ae_At e + c * second \<le> me_now me))"
  proof (cases "0 < ?cd")
    case True
    then show ?thesis using claim_damped [OF assms(1,2) _ assms(4)] cl j by auto
  next
    case False
    then have "al_ID r \<noteq> i" using j assms(4) by (auto simp: second_def)
    then show ?thesis using False cl assms(1) by auto
  qed
  let ?chs = "effectiveChannels me r"
  let ?st2 = "st1\<lparr>mo_pushed := mo_pushed st1 @ map (\<lambda>_. (fi_ruleType x, fi_state x)) (filter (\<lambda>c. c = ''push'') ?chs)\<rparr>"
  let ?st3 = "if filter (\<lambda>c. c \<noteq> ''push'') ?chs = [] then ?st2 else enqueueAlertFor me (al_ID r) x (filter (\<lambda>c. c \<noteq> ''push'') ?chs) (al_Recipients r) ?st2"
  have res: "snd (fireRule me x r (fired, st)) = (if \<not> ok \<or> ?chs = [] then st1 else recordAlert me (Some (al_ID r)) x ?chs ?st3)"
    using True cl by (simp add: fireRule_def Let_def)
  have e3: "mo_events ?st3 = mo_events st" "mo_rules ?st3 = mo_rules st1" "nd_claims (mo_notices ?st3) = nd_claims (mo_notices st1)" using k by simp_all
  have "damped i c ?st3" using k damped_other [of ?st3 st1 i c] e3 by simp
  then have "damped i c (recordAlert me (Some (al_ID r)) x ?chs ?st3)" if ok
    using k that e3 by (cases "al_ID r = i") (auto simp: recordAlert_def damped_def sorted_wrt_append)
  then show ?thesis using res k by simp
qed (use assms in \<open>simp add: fireRule_def\<close>)

lemma fireRules_damped:
  assumes "damped i c st" and "redisOK me" and "set rs \<subseteq> set (mo_rules st)" and "0 < c"
  shows "damped i c (snd (fold (fireRule me x) rs (fired, st)))"
  using assms(1,3)
proof (induction rs arbitrary: fired st)
  case (Cons r rs)
  obtain f1 st1 where s: "fireRule me x r (fired, st) = (f1, st1)" by fastforce
  have "damped i c st1" using fireRule_damped [OF Cons.prems(1) assms(2) _ assms(4), of r x fired] Cons.prems(2) s by simp
  moreover have "mo_rules st1 = mo_rules st" using fireRule_states(2) [of me x r "(fired, st)"] s by simp
  ultimately show ?case using Cons s by simp
qed simp

lemma Fire_damped:
  assumes "damped i c st" and "redisOK me" and "0 < c"
  shows "damped i c (Fire me x st)"
proof -
  obtain fired st1 where f: "fold (fireRule me x) (loadRules (fi_ruleType x) st) (False, st) = (fired, st1)" by fastforce
  have d: "damped i c st1" using fireRules_damped [OF assms(1,2) _ assms(3), of "loadRules (fi_ruleType x) st" x False] f by (auto simp: loadRules_def)
  have "damped i c (recordAlert me None x [''inapp''] (enqueueAlertFor me '''' x [''inapp''] noOverrides st1))"
    using d by (simp add: recordAlert_def damped_def)
  then show ?thesis using assms(1) d f by (simp add: Fire_def)
qed

text \<open>
  Alerts are damped. When Redis works, any sequence of conditions that fire, of whatever types and at whatever times, records for a rule only events that
  are at least its cooldown apart.
\<close>

theorem alerts_damped:
  assumes "mo_events st = []" and "list_all (\<lambda>r. al_ID r = i \<longrightarrow> al_CooldownS r = c) (mo_rules st)" and "0 < c" and "list_all (\<lambda>(me, x). redisOK me) fires"
  shows "sorted_wrt (\<lambda>a b. ae_At a + c * second \<le> ae_At b) (filter (\<lambda>e. ae_RuleID e = Some i) (mo_events (fold (\<lambda>(me, x). Fire me x) fires st)))"
proof -
  have "damped i c st" using assms(1,2) by (simp add: damped_def)
  then have "damped i c (fold (\<lambda>(me, x). Fire me x) fires st)" using assms(4)
    by (induction fires arbitrary: st) (auto intro: Fire_damped assms(3))
  then show ?thesis by (simp add: damped_def)
qed

section \<open>What the cooldown hides\<close>

lemma insertAlerts_inapp:
  "nd_outbox (snd (insertAlerts ne [(ChannelInApp, a)] mk db)) = nd_outbox db
   \<or> (\<exists>i. nd_outbox (snd (insertAlerts ne [(ChannelInApp, a)] mk db)) = nd_outbox db @ [noticeOf (ne_now ne) i (mk ChannelInApp a) ''queued'' ''''])"
  by (auto simp: insertNotice_def Let_def split: prod.split)

lemma enqueue_inapp:
  "nd_outbox (mo_notices (enqueueAlertFor me '''' x [''inapp''] noOverrides st)) = nd_outbox (mo_notices st)
   \<or> (\<exists>row. nd_outbox (mo_notices (enqueueAlertFor me '''' x [''inapp''] noOverrides st)) = nd_outbox (mo_notices st) @ [row] \<and> nr_Channel row = ''inapp'')"
proof -
  have "EnqueueAlert (me_notice me) '''' (fi_ruleType x) (fi_summary x) [''inapp''] noOverrides (mo_notices st)
      = insertAlerts (me_notice me) [(ChannelInApp, '''')] (alertInsert '''' (fi_ruleType x) (fi_summary x)) (mo_notices st)"
    by (simp add: EnqueueAlert_def resolveAlertRecipients_def channel_defs Let_def)
  then show ?thesis using insertAlerts_inapp [of "me_notice me" "''''" "alertInsert '''' (fi_ruleType x) (fi_summary x)" "mo_notices st"]
    by (auto simp: enqueueAlertFor_def noticeOf_def alertInsert_def channel_defs)
qed

text \<open>
  C40: the cooldown of a rule hides other routers. When a router goes down and its alert is sent, and a second router goes down within the cooldown of the rule,
  the second outage is shown in the panel only: nothing is queued for Telegram, mail or WhatsApp, for the whole outage, since an outage alerts once. (Web push does not go through this queue.)
\<close>

theorem second_router_damped:
  assumes "loadRules ''nas_down'' st = [r]" and "0 < al_CooldownS r" and "redisOK me" and "redisOK later"
    and "redisGet (me_now me) (nd_claims (mo_notices st)) (cooldownKey (al_ID r)) = None" and "\<not> me_down me ''loadRules''"
    and "tr_kind t = ''nas''" and "tr_kind u = ''nas''" and "me_now later < me_now me + al_CooldownS r * second"
  shows "nd_outbox (mo_notices (onDown later u (onDown me t st))) = nd_outbox (mo_notices (onDown me t st))
     \<or> (\<exists>row. nd_outbox (mo_notices (onDown later u (onDown me t st))) = nd_outbox (mo_notices (onDown me t st)) @ [row] \<and> nr_Channel row = ''inapp'')"
proof -
  let ?x = "reachabilityInput ''nas_down'' ''firing'' '' down: '' t" and ?y = "reachabilityInput ''nas_down'' ''firing'' '' down: '' u"
  let ?st1 = "onDown me t st"
  have pos: "0 < al_CooldownS r * second" using assms(2) by (simp add: second_def)
  have d: "onDown me t st = Fire me ?x st" "onDown later u s = Fire later ?y s" for s using assms(7,8) by (simp_all add: onDown_def)
  have "nd_claims (mo_notices (snd (fireRule me ?x r (False, st)))) (cooldownKey (al_ID r)) = Some ((), me_now me + al_CooldownS r * second)"
    using assms(5) pos claimCooldown_redis [OF assms(3), of "al_ID r" "al_CooldownS r * second" st]
    by (simp add: fireRule_def Let_def reachabilityInput_def recordAlert_def)
  then have k: "nd_claims (mo_notices ?st1) (cooldownKey (al_ID r)) = Some ((), me_now me + al_CooldownS r * second)"
    using assms(1,6) by (auto simp: d Fire_def reachabilityInput_def recordAlert_def split: prod.split)
  have "mo_rules ?st1 = mo_rules st" by (simp add: d)
  then have l: "loadRules ''nas_down'' ?st1 = [r]" using assms(1) by (simp add: loadRules_def)
  have "redisGet (me_now later) (nd_claims (mo_notices ?st1)) (cooldownKey (al_ID r)) \<noteq> None" using k assms(9) by (simp add: redisGet_def)
  then have "fireRule later ?y r (False, ?st1) = (False, ?st1)"
    using pos claimCooldown_redis [OF assms(4), of "al_ID r" "al_CooldownS r * second" ?st1] by (simp add: fireRule_def Let_def reachabilityInput_def)
  then have "Fire later ?y ?st1 = ?st1 \<or> Fire later ?y ?st1 = recordAlert later None ?y [''inapp''] (enqueueAlertFor later '''' ?y [''inapp''] noOverrides ?st1)"
    using l by (auto simp: Fire_def reachabilityInput_def)
  moreover have "mo_notices (recordAlert later None ?y [''inapp''] s) = mo_notices s" for s by (simp add: recordAlert_def)
  ultimately show ?thesis unfolding d(2) using enqueue_inapp [of later ?y ?st1] by (metis (no_types, lifting))
qed

section \<open>Examples\<close>

definition sampleME :: "gotime \<Rightarrow> monEnv" where
  "sampleME t = \<lparr>me_notice = \<lparr>ne_now = t, ne_down = (\<lambda>_. False), ne_insertFails = (\<lambda>_. False), ne_resolveFails = (\<lambda>_. False), ne_intAsText = False, ne_redis = True, ne_redisFails = False,
       ne_telegram = Some \<lparr>tg_BotToken = ''T'', tg_ChatID = ''42''\<rparr>, ne_smtp = None, ne_whatsapp = None, ne_waTemplates = None, ne_sms = None,
       ne_exchange = (\<lambda>_. (True, None))\<rparr>, me_down = (\<lambda>_. False), me_fl = id\<rparr>"

definition sampleRule :: alertRule where
  "sampleRule = \<lparr>al_ID = ''R1'', al_Name = ''NAS down'', al_Type = ''nas_down'', al_Threshold = [], al_Channels = [''inapp'', ''telegram''],
     al_Recipients = noOverrides, al_QuietHours = None, al_CooldownS = 300, al_Enabled = True\<rparr>"

definition sampleMon :: MonState where
  "sampleMon = \<lparr>mo_notices = \<lparr>nd_outbox = [], nd_rules = [], nd_templates = [], nd_subs = [], nd_optIns = [], nd_usage = [], nd_claims = (\<lambda>_. None), nd_nextID = 0,
       nd_audit = []\<rparr>, mo_rules = [sampleRule], mo_events = [], mo_memory = (\<lambda>_. None), mo_pushed = [], mo_targets = [], mo_states = (\<lambda>_. None), mo_probes = [],
     mo_acct = emptyDB, mo_live = emptyLive, mo_recovered = [], mo_nextRule = 0, mo_audit = []\<rparr>"

definition sampleRouter :: "string \<Rightarrow> target" where
  "sampleRouter i = \<lparr>tr_kind = ''nas'', tr_id = i, tr_name = i, tr_ip = ''10.0.0.1'', tr_community = ''''\<rparr>"

theorem outage_alerted_once_witness:
  "observeTarget (sampleME 3) (sampleRouter ''N1'') False (observeAll (replicate 3 (sampleME 0, sampleRouter ''N1'', False)) sampleMon)
   = (let st = observeAll (replicate 3 (sampleME 0, sampleRouter ''N1'', False)) sampleMon
      in onDown (sampleME 3) (sampleRouter ''N1'') (st\<lparr>mo_states := (mo_states st)(stateKey (sampleRouter ''N1'') \<mapsto> probed [False, False, False, False])\<rparr>))"
proof -
  have "mo_states sampleMon = (\<lambda>_. None)" by (simp add: sampleMon_def)
  moreover have "probesOf (stateKey (sampleRouter ''N1'')) (replicate 3 (sampleME 0, sampleRouter ''N1'', False)) = [False, False, False]"
    by (simp add: probesOf_def numeral_3_eq_3)
  ultimately show ?thesis using outage_alerted_once [of sampleMon "sampleME 3" "sampleRouter ''N1''" False "replicate 3 (sampleME 0, sampleRouter ''N1'', False)"]
    by (simp add: Let_def)
qed

theorem alerts_damped_witness:
  "sorted_wrt (\<lambda>a b. ae_At a + 300 * second \<le> ae_At b) (filter (\<lambda>e. ae_RuleID e = Some ''R1'')
     (mo_events (fold (\<lambda>(me, x). Fire me x) (map (\<lambda>t. (sampleME t, reachabilityInput ''nas_down'' ''firing'' '' down: '' (sampleRouter ''N1''))) [0, 1, 2]) sampleMon)))"
  by (rule alerts_damped) (simp_all add: sampleMon_def sampleRule_def sampleME_def redisOK_def)

theorem second_router_damped_witness:
  "length (filter (\<lambda>row. nr_Channel row = ''telegram'') (nd_outbox (mo_notices
     (onDown (sampleME 1) (sampleRouter ''N2'') (onDown (sampleME 0) (sampleRouter ''N1'') sampleMon)))))
   = length (filter (\<lambda>row. nr_Channel row = ''telegram'') (nd_outbox (mo_notices (onDown (sampleME 0) (sampleRouter ''N1'') sampleMon))))"
  using second_router_damped [of sampleMon sampleRule "sampleME 0" "sampleME 1" "sampleRouter ''N1''" "sampleRouter ''N2''"]
  by (auto simp: loadRules_def sampleMon_def sampleRule_def sampleME_def redisOK_def redisGet_def sampleRouter_def second_def)

end
