(* ===== verification/Spec2Isabelle.thy ===== *)
theory Spec2Isabelle
  imports AcctProgress AcctAudit RadAuthz RadEnforced CoaDispatched BillMoney BillTicketed BillReported BillApproved AuthRevoked CardsUsed Notified Alerted
begin

text \<open>
  \<^bold>\<open>A verification library of HikRAD\<close>, a subscriber management system for internet providers written in Go. Four of its parts carry
  its promises and are modelled here: the \<^emph>\<open>accounting service\<close> (\<^verbatim>\<open>backend/internal/accounting\<close> with \<^verbatim>\<open>live/livestate\<close>), which must not
  lose or double-count the usage a router reports; the \<^emph>\<open>RADIUS policy engine\<close> (\<^verbatim>\<open>backend/internal/radius\<close>), which decides logins and
  changes running sessions; \<^emph>\<open>billing\<close> (\<^verbatim>\<open>backend/internal/billing\<close>, \<^verbatim>\<open>approvals\<close>), which moves money and extends subscriptions; and
  \<^emph>\<open>authentication\<close> (\<^verbatim>\<open>backend/internal/auth\<close>), which decides who may do so in the panel. They meet in shared
  state: accounting maintains the live sessions and the quota flag that the policy engine reads; the policy engine's
  outbox carries the changes that enforcement and billing order; a renewal clears the flag and drops the cached account view.

  \<^bold>\<open>Theories.\<close>

  \<^item> \<open>Prelude\<close>: 64-bit wrap-around and range, decimal numbers, string functions of Go, times and durations.

  \<^item> \<open>AcctRecord\<close> (\<^verbatim>\<open>record.go\<close>): the accounting record and its validation; \<open>advance\<close> reconstructs 64-bit counters from octets and
    gigawords. \<open>AcctSpill\<close> (\<^verbatim>\<open>spill.go\<close>): the write-ahead file and its line codec. \<open>Livestate\<close> (\<^verbatim>\<open>livestate.go\<close>): the
    live-session hash with its indexes. \<open>Vendor\<close> (\<^verbatim>\<open>vendor.go\<close>, \<^verbatim>\<open>mikrotik.go\<close>): rates and service resolution. \<open>AcctStore\<close>
    (\<^verbatim>\<open>resolve.go\<close>, \<^verbatim>\<open>sessions.go\<close>, \<^verbatim>\<open>billingcounters.go\<close>, \<^verbatim>\<open>quota.go\<close>): what a record does to the database. \<open>AcctService\<close>
    (\<^verbatim>\<open>ingest.go\<close>, \<^verbatim>\<open>queue.go\<close>, \<^verbatim>\<open>consumer.go\<close>, \<^verbatim>\<open>counters.go\<close>, \<^verbatim>\<open>reaper.go\<close>, \<^verbatim>\<open>server.go\<close>): the handlers and loop bodies.
    \<open>AcctPipeline\<close>, \<open>AcctAudit\<close>, \<open>AcctProgress\<close>: their interleaving as a step relation, and what holds of every run.

  \<^item> \<open>RadLimits\<close> (\<^verbatim>\<open>limits.go\<close>, \<^verbatim>\<open>tod.go\<close>): the ordered limits and the speed windows. \<open>RadPolicy\<close> (\<^verbatim>\<open>policy.go\<close>,
    \<^verbatim>\<open>authview.go\<close>, \<^verbatim>\<open>engine.go\<close>, \<^verbatim>\<open>authorize.go\<close>): account views, their cache and the decision chain. \<open>RadAuthz\<close>: its properties.
    \<open>CoaOutbox\<close> (\<^verbatim>\<open>coa_outbox_store.go\<close>, \<^verbatim>\<open>coa_dispatcher.go\<close>, \<^verbatim>\<open>coa_enqueue.go\<close>): the queue of session changes. \<open>CoaDispatched\<close>: the loop of its
    dispatcher and the fate of one row in it. \<open>RadEnforce\<close>
    (\<^verbatim>\<open>enforce.go\<close>, \<^verbatim>\<open>limitsworker.go\<close>): the workers that fill it. \<open>RadEnforced\<close>: their properties.

  \<^item> \<open>BillLedger\<close> (\<^verbatim>\<open>ledger.go\<close>, \<^verbatim>\<open>journal.go\<close>, \<^verbatim>\<open>commission_credit.go\<close>, \<^verbatim>\<open>balance_api.go\<close>): ledger, cached balances, double-entry
    journal. \<open>BillRenew\<close> (\<^verbatim>\<open>renew.go\<close>, \<^verbatim>\<open>pricing_v2p9.go\<close>, \<^verbatim>\<open>invoices.go\<close>): the renewal. \<open>BillReverse\<close> (\<^verbatim>\<open>refund.go\<close>, \<^verbatim>\<open>undo.go\<close>):
    refunds and undo. \<open>BillVoucher\<close> (\<^verbatim>\<open>voucher.go\<close>, \<^verbatim>\<open>voucher_api.go\<close>, \<^verbatim>\<open>batch_invoice.go\<close>): vouchers. \<open>BillBooks\<close>,
    \<open>BillPaths\<close>, \<open>BillLater\<close>: what transactions do to the books, what is proved once of all money paths, and what later states keep. \<open>BillMoney\<close>: the properties of billing. \<open>BillTickets\<close>
    (\<^verbatim>\<open>tickets.go\<close>, \<^verbatim>\<open>ticket_attachments.go\<close>, \<^verbatim>\<open>method_settings.go\<close>, \<^verbatim>\<open>instance_methods.go\<close>): payment tickets and the methods offered.
    \<open>BillTicketed\<close>: their lifecycle, as a step relation over the billing steps. \<open>BillOffice\<close> (\<^verbatim>\<open>invoices.go\<close>, \<^verbatim>\<open>ar_ap.go\<close>,
    \<^verbatim>\<open>expenses.go\<close>, \<^verbatim>\<open>fixed_assets.go\<close>, \<^verbatim>\<open>accounts_api.go\<close>): invoices, receipts, expenses, payments, assets and accounts.
    \<open>BillStatements\<close> (\<^verbatim>\<open>statements.go\<close>): the financial statements. \<open>BillOfficed\<close>: what every office transaction keeps. \<open>BillReported\<close>:
    what the statements show then.

  \<^item> \<open>AuthPerms\<close> (\<^verbatim>\<open>permissions.go\<close>, \<^verbatim>\<open>roles.go\<close>, \<^verbatim>\<open>roles_api.go\<close>, \<^verbatim>\<open>managers_store.go\<close>, \<^verbatim>\<open>managers_api.go\<close>, \<^verbatim>\<open>managers_security_api.go\<close>):
    managers, roles, permissions and their guards. \<open>AuthTOTP\<close> (\<^verbatim>\<open>totp.go\<close>, \<^verbatim>\<open>totp_store.go\<close>, \<^verbatim>\<open>totp_api.go\<close>): the second factor.
    \<open>AuthGate\<close> (\<^verbatim>\<open>ratelimit.go\<close>, \<^verbatim>\<open>tokens.go\<close>, \<^verbatim>\<open>middleware.go\<close>, \<^verbatim>\<open>allowlist.go\<close>): limiter, tokens and the caller of a request. \<open>AuthLogin\<close>
    (\<^verbatim>\<open>login.go\<close>, \<^verbatim>\<open>sessions.go\<close>, \<^verbatim>\<open>panelsessions_api.go\<close>): login, refresh and logout. \<open>AuthLoggedIn\<close>, \<open>AuthRevoked\<close>: what holds of single requests,
    and of every run.

  \<^item> \<open>Approvals\<close> (\<^verbatim>\<open>approvals/approvals.go\<close>): the queue of actions that need a second manager. \<open>BillApproved\<close> (\<^verbatim>\<open>approvals_gate.go\<close>,
    \<^verbatim>\<open>approvals_api.go\<close>, \<^verbatim>\<open>undo_api.go\<close>): the billing actions that go through it, and its properties.

  \<^item> \<open>Cards\<close> (\<^verbatim>\<open>cards/hash.go\<close>, \<^verbatim>\<open>create.go\<close>, \<^verbatim>\<open>store.go\<close>, \<^verbatim>\<open>api.go\<close>, \<^verbatim>\<open>usage.go\<close>, \<^verbatim>\<open>auth.go\<close>): prepaid hotspot cards, over the usage
    tables of accounting and as a seam of the decision chain. \<open>CardsUsed\<close>: their properties.

  \<^item> \<open>Notify\<close> (\<^verbatim>\<open>notify/outbox_store.go\<close>, \<^verbatim>\<open>dispatcher.go\<close>, \<^verbatim>\<open>channels.go\<close>, \<^verbatim>\<open>enqueue.go\<close>, \<^verbatim>\<open>passcode.go\<close>, \<^verbatim>\<open>scanner.go\<close>, \<^verbatim>\<open>rules.go\<close>,
    \<^verbatim>\<open>templates.go\<close> and the handlers that write): the queue of outgoing messages, what fills and what drains it. \<open>Notified\<close>: its properties. \<open>Alerts\<close>
    (\<^verbatim>\<open>monitorsvc/state.go\<close>, \<^verbatim>\<open>probe.go\<close>, \<^verbatim>\<open>alerts.go\<close>, \<^verbatim>\<open>conditions.go\<close>, \<^verbatim>\<open>rules_api.go\<close>): reachability, the alert engine and the periodic conditions,
    which use the queue. \<open>Alerted\<close>: their properties.

  \<^bold>\<open>How the code is modelled.\<close> A Go struct is a record, a handler or method a function on the state it changes, with every call
  that changes state in the code's order; an error is an \<open>Inl\<close>, \<open>None\<close> or \<open>False\<close> branch. PostgreSQL tables are lists or maps in one
  record, a transaction is a function on that record whose result is kept only if it commits; Redis keys are maps with
  expiry times; the spill file is its bytes. What an outside service answers (an SQL statement, a Redis command, a file
  operation, a UDP exchange, the end of a transaction) is an argument, so that a theorem without a hypothesis on it holds under every failure.
  Goroutines are an arbitrary interleaving of the loop bodies and handlers. Times are nanoseconds as integers; \<^verbatim>\<open>int64\<close> and
  \<^verbatim>\<open>uint64\<close> values are integers with \<open>wrap64\<close> or an explicit modulus where the code can overflow.

  Arguments that stand for code outside the repository: the JSON decoder and \<^verbatim>\<open>time.Parse\<close>, SHA-256 and MD5, the password check, the JWT library,
  HMAC-SHA1 and the cipher of stored secrets, whether the database driver encodes an integer for a text parameter (pgx v5 does not), the random numbers of codes and secrets, the rounding \<open>fl\<close> of float64 operations, and the loader query of the account view.
  \<^verbatim>\<open>AddDate\<close> is taken in a location without daylight saving, where it adds whole days.

  \<^bold>\<open>What is proved.\<close> Accounting: no acknowledged record is lost, none is counted twice, usage adds up to the reported counters,
  the spill file round-trips, the consumer drains the stream, and the audit equation holds where no record is refused. Policy: the
  exact acceptance condition of a login, the order of limits, consistency of the reply, the device lock, the fate of a queued change whose statements succeed,
  and one enforcement per cycle that reaches every session. Billing: balances equal ledger sums and the
  journal balances after any run of transactions, renewals are charged once and within the credit limit, refunds and vouchers work once,
  undo and void restore the balances, a renewal restores the sessions, a payment ticket is decided
  and charged once, the aging reports are the balances of the control accounts, nothing is overpaid, and assets follow their depreciation
  schedule. Cards: which codes open a hotspot, that new codes work, and that the window of a used card is final. Notifications: consent, a queue whose states tell the truth
  about what was sent, the failed attempts that are never counted, and one alert per outage. Approvals: an action runs once, with the effect of a direct call. Authentication: which logins get a session, how many guesses
  an account allows between two successes, what a token admits, that a revoked session ends within the lifetime of a token, and that nobody passes on what he does not
  hold, with the two exceptions of the code. Theorems of kind \<open>error\<close> show
  behaviour that the comments of the code rule out or that loses data; each says under which conditions.

  Interfaces are locales: \<open>once_guard\<close> for the claim that makes an enforcement happen once, \<open>kept\<close> for invariants of step
  relations, \<open>money_path\<close> and \<open>bill_path\<close> for what holds of every path that posts money, \<open>documents\<close> for invoices and expenses over a
  control account, and those of the spill file and the pipeline in their theories; each is interpreted on the definitions of the code.

  \<^bold>\<open>Bounds.\<close> The spill drain and the consumer recurse on the lines and entries present, the code generator on the random numbers
  it is given (\<open>errDiverges\<close> when they run out); no other function uses fuel.

  \<^bold>\<open>Not modelled.\<close> The RADIUS and CoA packet formats and the network; HTTP routing and error envelopes; the administration of routers,
  pools, profiles and subscribers, which are SQL statements behind handlers; reports, dashboards, SNMP, push and the Telegram bot,
  the portal, the importer, updates and licences; the web interface. Of billing: the list and export
  handlers and receipts; of the cards: the listings, the print page and the CSV export.
\<close>

end
